(* ===== verification/Prelude.thy ===== *)
theory Prelude
  imports Main "HOL-Library.Word" "HOL-Library.Monad_Syntax" "HOL-Library.List_Lexorder"
begin

unbundle bit_operations_syntax

text \<open>
  Shared vocabulary of the espDrop development: the C scalar types, nullable
  pointers, memory reads that may fault, byte-order codecs, \<^verbatim>\<open>memcmp\<close>/\<^verbatim>\<open>memcpy\<close>,
  and the two array loops (linear search and in-place compaction) that several
  tables of the firmware share.

  Conventions used by every component:
  \<^item> \<open>uint8_t\<close> .. \<open>uint64_t\<close> are words of that width, so arithmetic wraps as in C;
    \<open>size_t\<close> is \<open>nat\<close> and \<open>SIZE_MAX\<close> is that of the 32-bit ESP32-S3;
  \<^item> a pointer that the code compares with \<^verbatim>\<open>NULL\<close> has type \<open>'a ptr\<close>; a pair
    (pointer, length) to constant bytes is a \<open>byte list\<close>;
  \<^item> a read through \<open>rd\<close>, \<open>rds\<close> or a multi-byte reader is \<open>None\<close> when it leaves its
    buffer. A parser that returns \<open>Some r\<close> has therefore performed no
    out-of-bounds read;
  \<^item> a C string is the list of its bytes before the terminator.
\<close>

section \<open>C scalars and pointers\<close>

type_synonym byte = "8 word"
type_synonym u16 = "16 word"
type_synonym u32 = "32 word"
type_synonym u64 = "64 word"
type_synonym bytes = "byte list"
type_synonym mac = "byte list"

datatype 'a ptr = NULL | Ptr (deref: 'a)

definition SIZE_MAX :: nat where
  "SIZE_MAX = 2 ^ 32 - 1"

definition UINT32_MAX :: nat where
  "UINT32_MAX = 2 ^ 32 - 1"

definition UINT16_MAX :: nat where
  "UINT16_MAX = 2 ^ 16 - 1"

definition UINT64_MAX :: nat where
  "UINT64_MAX = 2 ^ 64 - 1"

text \<open>The result codes of the ESP-IDF that the components return; \<open>ESP_FAIL\<close> stands for any other error of a driver.\<close>

datatype esp_err = ESP_OK | ESP_FAIL | ESP_ERR_NO_MEM | ESP_ERR_INVALID_ARG | ESP_ERR_INVALID_STATE | ESP_ERR_INVALID_SIZE
  | ESP_ERR_NOT_FOUND | ESP_ERR_TIMEOUT | ESP_ERR_INVALID_CRC

text \<open>String literals of the source as bytes.\<close>

definition ascii :: "string \<Rightarrow> bytes" where
  "ascii s = map of_char s"

lemma length_ascii [simp]: "length (ascii s) = length s"
  by (simp add: ascii_def)

text \<open>Widening conversions and small numbers keep their value.\<close>

lemma unat_of_nat_u64: "n < 2 ^ 64 \<Longrightarrow> unat (of_nat n :: u64) = n"
  by (simp add: unat_of_nat)

lemma unat_of_nat_u32: "n < 2 ^ 32 \<Longrightarrow> unat (of_nat n :: u32) = n"
  by (simp add: unat_of_nat)

lemma unat_of_nat_byte: "n < 2 ^ 8 \<Longrightarrow> unat (of_nat n :: byte) = n"
  by (simp add: unat_of_nat)

lemma unat_bound: "unat (w :: 'a::len word) < 2 ^ LENGTH('a)"
  by (rule unsigned_less)

lemma unat_ucast_u32_u64: "unat (ucast (w :: u32) :: u64) = unat w"
  using unat_bound [of w] by (simp add: unsigned_ucast_eq take_bit_nat_eq_self)

lemma unat_ucast_u16_u32: "unat (ucast (w :: u16) :: u32) = unat w"
  using unat_bound [of w] by (simp add: unsigned_ucast_eq take_bit_nat_eq_self)

lemma unat_ucast_byte_u16: "unat (ucast (w :: byte) :: u16) = unat w"
  using unat_bound [of w] by (simp add: unsigned_ucast_eq take_bit_nat_eq_self)

lemma unat_ucast_byte_u32: "unat (ucast (w :: byte) :: u32) = unat w"
  using unat_bound [of w] by (simp add: unsigned_ucast_eq take_bit_nat_eq_self)

section \<open>Collections of rewrite rules\<close>

named_theorems mem_simps \<open>memory reads and writes\<close>
named_theorems wf_simps \<open>unfolding of well-formedness predicates\<close>

section \<open>Reads that may leave the buffer\<close>

definition rd :: "bytes \<Rightarrow> nat \<Rightarrow> byte option" where
  "rd xs i = (if i < length xs then Some (xs ! i) else None)"

definition rds :: "bytes \<Rightarrow> nat \<Rightarrow> nat \<Rightarrow> bytes option" where
  "rds xs i n = (if i + n \<le> length xs then Some (take n (drop i xs)) else None)"

definition read_le16 :: "bytes \<Rightarrow> nat \<Rightarrow> u16 option" where
  "read_le16 xs i = do {
     a \<leftarrow> rd xs i;
     b \<leftarrow> rd xs (i + 1);
     Some (ucast a OR push_bit 8 (ucast b)) }"

definition read_le32 :: "bytes \<Rightarrow> nat \<Rightarrow> u32 option" where
  "read_le32 xs i = do {
     a \<leftarrow> rd xs i;
     b \<leftarrow> rd xs (i + 1);
     c \<leftarrow> rd xs (i + 2);
     d \<leftarrow> rd xs (i + 3);
     Some (ucast a OR push_bit 8 (ucast b) OR push_bit 16 (ucast c) OR push_bit 24 (ucast d)) }"

definition read_be16 :: "bytes \<Rightarrow> nat \<Rightarrow> u16 option" where
  "read_be16 xs i = do {
     a \<leftarrow> rd xs i;
     b \<leftarrow> rd xs (i + 1);
     Some (push_bit 8 (ucast a) OR ucast b) }"

definition read_be32 :: "bytes \<Rightarrow> nat \<Rightarrow> u32 option" where
  "read_be32 xs i = do {
     a \<leftarrow> rd xs i;
     b \<leftarrow> rd xs (i + 1);
     c \<leftarrow> rd xs (i + 2);
     d \<leftarrow> rd xs (i + 3);
     Some (push_bit 24 (ucast a) OR push_bit 16 (ucast b) OR push_bit 8 (ucast c) OR ucast d) }"

definition put_le16 :: "u16 \<Rightarrow> bytes" where
  "put_le16 v = [ucast v, ucast (drop_bit 8 v)]"

definition put_le32 :: "u32 \<Rightarrow> bytes" where
  "put_le32 v = [ucast v, ucast (drop_bit 8 v), ucast (drop_bit 16 v), ucast (drop_bit 24 v)]"

definition put_be16 :: "u16 \<Rightarrow> bytes" where
  "put_be16 v = [ucast (drop_bit 8 v), ucast v]"

definition put_be32 :: "u32 \<Rightarrow> bytes" where
  "put_be32 v = [ucast (drop_bit 24 v), ucast (drop_bit 16 v), ucast (drop_bit 8 v), ucast v]"

lemma rd_in [mem_simps]: "i < length xs \<Longrightarrow> rd xs i = Some (xs ! i)"
  by (simp add: rd_def)

lemma rd_below: "n \<le> length xs \<Longrightarrow> i < n \<Longrightarrow> rd xs i = Some (xs ! i)"
  by (simp add: rd_def)

lemma rd_eq_None [mem_simps]: "rd xs i = None \<longleftrightarrow> length xs \<le> i"
  by (simp add: rd_def)

lemma rd_SomeD: "rd xs i = Some b \<Longrightarrow> i < length xs \<and> b = xs ! i"
  by (simp add: rd_def split: if_splits)

lemma rd_Cons_0 [simp]: "rd (x # xs) 0 = Some x"
  by (simp add: rd_def)

lemma rd_Cons_Suc [simp]: "rd (x # xs) (Suc n) = rd xs n"
  by (simp add: rd_def)

lemma rd_Cons_numeral [simp]: "rd (x # xs) (numeral k) = rd xs (pred_numeral k)"
  by (simp add: rd_def nth_Cons')

lemma rd_append_left [mem_simps]: "i < length xs \<Longrightarrow> rd (xs @ ys) i = rd xs i"
  by (simp add: rd_def nth_append)

lemma rd_append_right [mem_simps]: "rd (xs @ ys) (length xs + i) = rd ys i"
  by (simp add: rd_def nth_append)

lemma rd_drop [mem_simps]: "rd (drop k xs) i = rd xs (k + i)"
  by (cases "k \<le> length xs") (auto simp: rd_def)

lemma rds_in [mem_simps]: "i + n \<le> length xs \<Longrightarrow> rds xs i n = Some (take n (drop i xs))"
  by (simp add: rds_def)

lemma rds_eq_None [mem_simps]: "rds xs i n = None \<longleftrightarrow> length xs < i + n"
  by (auto simp: rds_def)

lemma rds_SomeD: "rds xs i n = Some ys \<Longrightarrow> i + n \<le> length xs \<and> ys = take n (drop i xs)"
  by (simp add: rds_def split: if_splits)

lemma rds_length: "rds xs i n = Some ys \<Longrightarrow> length ys = n"
  by (auto simp: rds_def split: if_splits)

lemma rds_append_right [mem_simps]: "rds (xs @ ys) (length xs + i) n = rds ys i n"
  by (simp add: rds_def add.assoc)

lemmas read_defs = read_le16_def read_le32_def read_be16_def read_be32_def

section \<open>Byte-order codecs\<close>

text \<open>
  What the wire code relies on in a fixed-width codec: the encoding has the
  advertised width, decoding reads exactly that many bytes, and decoding an
  encoding gives the value back.
\<close>

locale byte_codec =
  fixes enc :: "'w \<Rightarrow> bytes"
    and dec :: "bytes \<Rightarrow> nat \<Rightarrow> 'w option"
    and width :: nat
  assumes enc_length: "length (enc v) = width"
    and dec_enc: "dec (enc v) 0 = Some v"
    and dec_local: "o1 + width \<le> length xs \<Longrightarrow> dec xs o1 = dec (take width (drop o1 xs)) 0"
    and dec_total: "(dec xs o1 = None) = (length xs < o1 + width)"
    and enc_dec: "dec xs o1 = Some v \<Longrightarrow> enc v = take width (drop o1 xs)"
begin

lemma dec_inj: "dec xs o1 = Some v \<Longrightarrow> dec ys o2 = Some v \<Longrightarrow>
    take width (drop o1 xs) = take width (drop o2 ys)"
  using enc_dec [of xs o1 v] enc_dec [of ys o2 v] by simp

lemma dec_at: "dec (xs @ enc v @ ys) (length xs) = Some v"
  by (subst dec_local) (simp_all add: enc_length dec_enc)

lemma dec_at_head: "dec (enc v @ ys) 0 = Some v"
  using dec_at [of "[]"] by simp

lemma dec_at_offset: "o1 = length xs \<Longrightarrow> dec (xs @ enc v @ ys) o1 = Some v"
  by (simp add: dec_at)

lemma dec_defined: "o1 + width \<le> length xs \<Longrightarrow> \<exists>v. dec xs o1 = Some v"
  using dec_total [of xs o1] by (cases "dec xs o1") auto

lemma dec_shift: "length xs \<le> o1 \<Longrightarrow> dec (xs @ ys) o1 = dec ys (o1 - length xs)"
proof (cases "o1 + width \<le> length (xs @ ys)")
  case True
  assume le: "length xs \<le> o1"
  have "dec (xs @ ys) o1 = dec (take width (drop o1 (xs @ ys))) 0"
    using True by (rule dec_local)
  also have "\<dots> = dec (take width (drop (o1 - length xs) ys)) 0"
    using le by simp
  also have "\<dots> = dec ys (o1 - length xs)"
    using True le by (subst dec_local [of "o1 - length xs" ys]) auto
  finally show ?thesis .
next
  case False
  assume le: "length xs \<le> o1"
  have "dec (xs @ ys) o1 = None" and "dec ys (o1 - length xs) = None"
    using False le by (auto simp: dec_total)
  then show ?thesis by simp
qed

lemma dec_Cons_Suc: "dec (x # xs) (Suc n) = dec xs n"
  using dec_shift [of "[x]" "Suc n" xs] by simp

lemma dec_Cons_numeral: "dec (x # xs) (numeral k) = dec xs (pred_numeral k)"
  using dec_shift [of "[x]" "numeral k" xs] by (simp add: numeral_eq_Suc)

lemma dec_Cons_one: "dec (x # xs) 1 = dec xs 0"
  using dec_Cons_Suc [of x xs 0] by simp

lemma dec_prefix: "o1 + width \<le> length xs \<Longrightarrow> dec (xs @ ys) o1 = dec xs o1"
  by (subst dec_local, simp, subst dec_local [of o1 xs]) simp_all

end

lemma le16_join: "(ucast (ucast (v::u16) :: byte) :: u16) OR push_bit 8 (ucast (ucast (drop_bit 8 v) :: byte)) = v"
  by (rule bit_word_eqI) (auto simp: bit_simps)

lemma byte_lanes:
  fixes n :: nat
  assumes "n < LENGTH(32)"
  obtains "n < 8" | "8 \<le> n" "n < 16" | "16 \<le> n" "n < 24" | "24 \<le> n" "n < 32"
  using assms by force

lemma le32_join:
  "(ucast (ucast (v::u32) :: byte) :: u32) OR push_bit 8 (ucast (ucast (drop_bit 8 v) :: byte))
     OR push_bit 16 (ucast (ucast (drop_bit 16 v) :: byte))
     OR push_bit 24 (ucast (ucast (drop_bit 24 v) :: byte)) = v"
proof (rule bit_word_eqI)
  fix n assume "n < LENGTH(32)"
  then show "bit ((ucast (ucast v :: byte) :: u32) OR push_bit 8 (ucast (ucast (drop_bit 8 v) :: byte))
     OR push_bit 16 (ucast (ucast (drop_bit 16 v) :: byte))
     OR push_bit 24 (ucast (ucast (drop_bit 24 v) :: byte))) n = bit v n"
    by (cases rule: byte_lanes [of n]) (auto simp: bit_simps)
qed

lemma be16_join: "push_bit 8 (ucast (ucast (drop_bit 8 (v::u16)) :: byte)) OR (ucast (ucast v :: byte) :: u16) = v"
  by (rule bit_word_eqI) (auto simp: bit_simps)

lemma be32_join:
  "push_bit 24 (ucast (ucast (drop_bit 24 (v::u32)) :: byte))
     OR push_bit 16 (ucast (ucast (drop_bit 16 v) :: byte))
     OR push_bit 8 (ucast (ucast (drop_bit 8 v) :: byte))
     OR (ucast (ucast v :: byte) :: u32) = v"
  using le32_join [of v] by (simp only: ac_simps)

lemma rd_window [mem_simps]:
  "o1 + w \<le> length xs \<Longrightarrow> i < w \<Longrightarrow> rd (take w (drop o1 xs)) i = rd xs (o1 + i)"
  by (simp add: rd_def)

text \<open>Re-encoding the bytes that a reader joined gives the same bytes back.\<close>

lemma put_le16_join: "put_le16 (ucast a OR push_bit 8 (ucast b)) = [a, b]"
  unfolding put_le16_def
  by (intro conjI list.inject [THEN iffD2] refl; rule bit_word_eqI;
      auto simp: bit_simps dest: bit_imp_le_length)

lemma put_le32_join:
  "put_le32 (ucast a OR push_bit 8 (ucast b) OR push_bit 16 (ucast c) OR push_bit 24 (ucast d)) = [a, b, c, d]"
  unfolding put_le32_def
  by (intro conjI list.inject [THEN iffD2] refl; rule bit_word_eqI;
      auto simp: bit_simps dest: bit_imp_le_length)

lemma put_be16_join: "put_be16 (push_bit 8 (ucast a) OR ucast b) = [a, b]"
  unfolding put_be16_def
  by (intro conjI list.inject [THEN iffD2] refl; rule bit_word_eqI;
      auto simp: bit_simps dest: bit_imp_le_length)

lemma put_be32_join:
  "put_be32 (push_bit 24 (ucast a) OR push_bit 16 (ucast b) OR push_bit 8 (ucast c) OR ucast d) = [a, b, c, d]"
  unfolding put_be32_def
  by (intro conjI list.inject [THEN iffD2] refl; rule bit_word_eqI;
      auto simp: bit_simps dest: bit_imp_le_length)

lemma take2_drop: "i + 1 < length xs \<Longrightarrow> take 2 (drop i xs) = [xs ! i, xs ! (i + 1)]"
  by (simp add: Cons_nth_drop_Suc [symmetric] numeral_2_eq_2)

lemma take4_drop:
  "i + 3 < length xs \<Longrightarrow> take 4 (drop i xs) = [xs ! i, xs ! (i + 1), xs ! (i + 2), xs ! (i + 3)]"
  by (simp add: Cons_nth_drop_Suc [symmetric] eval_nat_numeral)

lemmas codec_intro_simps =
  rd_def nth_Cons' Option.bind_eq_None_conv Option.bind_eq_Some_conv take2_drop take4_drop

interpretation le16: byte_codec put_le16 read_le16 2
proof unfold_locales
  show "length (put_le16 v) = 2" for v
    by (simp add: put_le16_def)
  show "read_le16 (put_le16 v) 0 = Some v" for v
    by (simp add: put_le16_def read_le16_def le16_join)
qed (auto simp: read_le16_def put_le16_join codec_intro_simps split: if_splits)

interpretation be16: byte_codec put_be16 read_be16 2
proof unfold_locales
  show "length (put_be16 v) = 2" for v
    by (simp add: put_be16_def)
  show "read_be16 (put_be16 v) 0 = Some v" for v
    by (simp add: put_be16_def read_be16_def be16_join)
qed (auto simp: read_be16_def put_be16_join codec_intro_simps split: if_splits)

interpretation le32: byte_codec put_le32 read_le32 4
proof unfold_locales
  show "length (put_le32 v) = 4" for v
    by (simp add: put_le32_def)
  show "read_le32 (put_le32 v) 0 = Some v" for v
    by (simp add: put_le32_def read_le32_def le32_join)
qed (auto simp: read_le32_def put_le32_join codec_intro_simps split: if_splits)

interpretation be32: byte_codec put_be32 read_be32 4
proof unfold_locales
  show "length (put_be32 v) = 4" for v
    by (simp add: put_be32_def)
  show "read_be32 (put_be32 v) 0 = Some v" for v
    by (simp add: put_be32_def read_be32_def be32_join)
qed (auto simp: read_be32_def put_be32_join codec_intro_simps split: if_splits)

lemmas put_lengths [simp] =
  le16.enc_length be16.enc_length le32.enc_length be32.enc_length

lemmas codec_defined =
  le16.dec_defined be16.dec_defined le32.dec_defined be32.dec_defined

text \<open>Reading a field of a concatenation: skip what comes before it, then read it.\<close>

lemma rd_shift: "length xs \<le> i \<Longrightarrow> rd (xs @ ys) i = rd ys (i - length xs)"
  by (auto simp: rd_def nth_append)

lemma rds_shift: "length xs \<le> i \<Longrightarrow> rds (xs @ ys) i n = rds ys (i - length xs) n"
  by (auto simp: rds_def)

lemma rds_head: "length xs = n \<Longrightarrow> rds (xs @ ys) 0 n = Some xs"
  by (simp add: rds_def)

lemma rds_whole: "length xs = n \<Longrightarrow> rds xs 0 n = Some xs"
  by (simp add: rds_def)

lemma rds_Cons_Suc: "rds (x # xs) (Suc i) n = rds xs i n"
  by (simp add: rds_def)

lemma rds_Cons_numeral: "rds (x # xs) (numeral k) n = rds xs (pred_numeral k) n"
  by (simp add: rds_def numeral_eq_Suc)

lemma rd_Cons_one [simp]: "rd (x # xs) 1 = rd xs 0"
  by (simp add: rd_def)

lemmas wire_simps =
  rd_shift rds_shift rds_head rds_whole rds_Cons_Suc rds_Cons_numeral
  le16.dec_at_head le16.dec_enc le16.dec_shift le16.dec_Cons_Suc le16.dec_Cons_numeral le16.dec_Cons_one
  le32.dec_at_head le32.dec_enc le32.dec_shift le32.dec_Cons_Suc le32.dec_Cons_numeral le32.dec_Cons_one
  be16.dec_at_head be16.dec_enc be16.dec_shift be16.dec_Cons_Suc be16.dec_Cons_numeral be16.dec_Cons_one
  be32.dec_at_head be32.dec_enc be32.dec_shift be32.dec_Cons_Suc be32.dec_Cons_numeral be32.dec_Cons_one

section \<open>Total correctness of faulting code\<close>

text \<open>
  \<open>returns m Q\<close>: the faulting computation \<open>m\<close> returns, and its value satisfies \<open>Q\<close>. The rules are
  applied backwards along the structure of a parser.
\<close>

named_theorems ok_intros \<open>introduction rules for total correctness\<close>

definition returns :: "'a option \<Rightarrow> ('a \<Rightarrow> bool) \<Rightarrow> bool" where
  "returns m Q \<longleftrightarrow> (\<exists>v. m = Some v \<and> Q v)"

lemma ok_Some [ok_intros]: "Q v \<Longrightarrow> returns (Some v) Q"
  by (simp add: returns_def)

lemma ok_if [ok_intros]: "(b \<Longrightarrow> returns x Q) \<Longrightarrow> (\<not> b \<Longrightarrow> returns y Q) \<Longrightarrow> returns (if b then x else y) Q"
  by simp

lemma ok_let [ok_intros]: "(\<And>v. v = x \<Longrightarrow> returns (f v) Q) \<Longrightarrow> returns (let v = x in f v) Q"
  by simp

lemma ok_prod [ok_intros]: "(\<And>a b. p = (a, b) \<Longrightarrow> returns (f a b) Q) \<Longrightarrow> returns (case p of (a, b) \<Rightarrow> f a b) Q"
  by (cases p) simp

lemma ok_bind: "returns m R \<Longrightarrow> (\<And>v. R v \<Longrightarrow> returns (f v) Q) \<Longrightarrow> returns (m \<bind> f) Q"
  by (auto simp: returns_def)

lemma ok_bind_rd [ok_intros]: "i < length xs \<Longrightarrow> (\<And>b. b = xs ! i \<Longrightarrow> returns (f b) Q) \<Longrightarrow> returns (rd xs i \<bind> f) Q"
  by (simp add: rd_def)

lemma ok_bind_rds [ok_intros]:
  "i + n \<le> length xs \<Longrightarrow> (\<And>ys. ys = take n (drop i xs) \<Longrightarrow> length ys = n \<Longrightarrow> returns (f ys) Q) \<Longrightarrow> returns (rds xs i n \<bind> f) Q"
  by (simp add: rds_def)

context byte_codec
begin

lemma ok_bind_dec:
  "o1 + width \<le> length xs \<Longrightarrow> (\<And>v. dec xs o1 = Some v \<Longrightarrow> returns (f v) Q) \<Longrightarrow> returns (dec xs o1 \<bind> f) Q"
  using dec_defined [of o1 xs] by auto

end

lemmas ok_bind_read [ok_intros] = le16.ok_bind_dec be16.ok_bind_dec le32.ok_bind_dec be32.ok_bind_dec

lemma ok_rd [ok_intros]: "i < length xs \<Longrightarrow> Q (xs ! i) \<Longrightarrow> returns (rd xs i) Q"
  by (simp add: returns_def rd_def)

lemma ok_rds [ok_intros]: "i + n \<le> length xs \<Longrightarrow> Q (take n (drop i xs)) \<Longrightarrow> returns (rds xs i n) Q"
  by (simp add: returns_def rds_def)

lemma ok_option [ok_intros]:
  "(m = None \<Longrightarrow> returns x Q) \<Longrightarrow> (\<And>v. m = Some v \<Longrightarrow> returns (f v) Q) \<Longrightarrow> returns (case m of None \<Rightarrow> x | Some v \<Rightarrow> f v) Q"
  by (cases m) auto

lemma okD: "returns m Q \<Longrightarrow> m \<noteq> None"
  by (auto simp: returns_def)

lemma ok_mono: "returns m R \<Longrightarrow> (\<And>v. R v \<Longrightarrow> Q v) \<Longrightarrow> returns m Q"
  by (auto simp: returns_def)

section \<open>Writes into a buffer\<close>

definition store :: "'a list \<Rightarrow> nat \<Rightarrow> 'a list \<Rightarrow> 'a list" where
  "store buf i src = take i buf @ src @ drop (i + length src) buf"

lemma length_store [simp]: "i + length src \<le> length buf \<Longrightarrow> length (store buf i src) = length buf"
  by (simp add: store_def)

lemma store_Nil [simp]: "store buf i [] = buf"
  by (simp add: store_def)

lemma nth_store:
  "i + length src \<le> length buf \<Longrightarrow> k < length buf \<Longrightarrow>
     store buf i src ! k = (if i \<le> k \<and> k < i + length src then src ! (k - i) else buf ! k)"
  by (auto simp: store_def nth_append)

lemma take_store_before: "k \<le> i \<Longrightarrow> i \<le> length buf \<Longrightarrow> take k (store buf i src) = take k buf"
  by (simp add: store_def min_absorb1)

lemma store_read_back: "i \<le> length buf \<Longrightarrow> take (length src) (drop i (store buf i src)) = src"
  by (simp add: store_def)

lemma drop_append_exact: "length xs = n \<Longrightarrow> drop n (xs @ ys) = ys"
  by auto

lemma drop_chop: "drop i xs = take n (drop i xs) @ drop (i + n) xs"
  by (metis add.commute append_take_drop_id drop_drop)

lemma take_append_exact: "length xs = n \<Longrightarrow> take n (xs @ ys) = xs"
  by auto

section \<open>Comparing memory\<close>

fun bytes_cmp :: "bytes \<Rightarrow> bytes \<Rightarrow> int" where
  "bytes_cmp (x # xs) (y # ys) = (if x < y then -1 else if y < x then 1 else bytes_cmp xs ys)"
| "bytes_cmp _ _ = 0"

definition memcmp :: "bytes \<Rightarrow> bytes \<Rightarrow> nat \<Rightarrow> int" where
  "memcmp xs ys n = bytes_cmp (take n xs) (take n ys)"

lemma bytes_cmp_refl [simp]: "bytes_cmp xs xs = 0"
  by (induction xs) auto

lemma bytes_cmp_eq_0: "length xs = length ys \<Longrightarrow> bytes_cmp xs ys = 0 \<longleftrightarrow> xs = ys"
  by (induction xs ys rule: list_induct2) auto

lemma bytes_cmp_pos: "length xs = length ys \<Longrightarrow> 0 < bytes_cmp xs ys \<longleftrightarrow> ys < xs"
  by (induction xs ys rule: list_induct2) auto

lemma memcmp_eq_0:
  "length xs = n \<Longrightarrow> length ys = n \<Longrightarrow> memcmp xs ys n = 0 \<longleftrightarrow> xs = ys"
  by (simp add: memcmp_def bytes_cmp_eq_0)

lemma memcmp_refl [simp]: "memcmp xs xs n = 0"
  by (simp add: memcmp_def)

lemma memcmp_pos:
  "length xs = n \<Longrightarrow> length ys = n \<Longrightarrow> 0 < memcmp xs ys n \<longleftrightarrow> ys < xs"
  by (simp add: memcmp_def bytes_cmp_pos)

definition mac_is_zero :: "mac \<Rightarrow> bool" where
  "mac_is_zero a \<longleftrightarrow> memcmp a (replicate 6 0) 6 = 0"

lemma mac_is_zero_iff: "length a = 6 \<Longrightarrow> mac_is_zero a \<longleftrightarrow> a = replicate 6 0"
  by (simp add: mac_is_zero_def memcmp_eq_0)

section \<open>Linear search over the used part of an array\<close>

text \<open>The loop \<^verbatim>\<open>for (index = 0; index < count; ++index) if (p(a[index])) return index\<close>.\<close>

primrec find_index :: "('a \<Rightarrow> bool) \<Rightarrow> 'a list \<Rightarrow> nat option" where
  "find_index p [] = None"
| "find_index p (x # xs) = (if p x then Some 0 else map_option Suc (find_index p xs))"

lemma find_index_None: "find_index p xs = None \<longleftrightarrow> (\<forall>x\<in>set xs. \<not> p x)"
  by (induction xs) auto

lemma find_index_SomeD:
  "find_index p xs = Some i \<Longrightarrow> i < length xs \<and> p (xs ! i) \<and> (\<forall>j<i. \<not> p (xs ! j))"
proof (induction xs arbitrary: i)
  case Nil
  then show ?case by simp
next
  case (Cons x xs)
  show ?case
  proof (cases "p x")
    case True
    with Cons.prems show ?thesis by simp
  next
    case False
    with Cons.prems obtain k where k: "find_index p xs = Some k" "i = Suc k"
      by auto
    with Cons.IH [of k] False show ?thesis
      by (auto simp: nth_Cons' less_Suc_eq_0_disj)
  qed
qed

lemma find_index_SomeI:
  "i < length xs \<Longrightarrow> p (xs ! i) \<Longrightarrow> (\<And>j. j < i \<Longrightarrow> \<not> p (xs ! j)) \<Longrightarrow> find_index p xs = Some i"
proof (induction xs arbitrary: i)
  case Nil
  then show ?case by simp
next
  case (Cons x xs)
  show ?case
  proof (cases i)
    case 0
    with Cons.prems show ?thesis by simp
  next
    case (Suc k)
    have "\<not> p x" using Cons.prems(3) [of 0] Suc by simp
    moreover have "find_index p xs = Some k"
      using Cons.prems Suc by (intro Cons.IH) force+
    ultimately show ?thesis using Suc by simp
  qed
qed

lemma find_via_index: "find P xs = map_option (\<lambda>i. xs ! i) (find_index P xs)"
  by (induction xs) (auto simp: option.map_comp o_def)

lemma find_index_cong: "(\<And>x. x \<in> set xs \<Longrightarrow> P x = Q x) \<Longrightarrow> find_index P xs = find_index Q xs"
  by (induction xs) auto

section \<open>In-place compaction\<close>

text \<open>
  The expiry loops of the peer table and of the election copy every fresh entry
  down to \<open>write_index\<close> and then clear the tail with \<^verbatim>\<open>memset\<close>.
\<close>

function compact_loop :: "('p \<Rightarrow> bool) \<Rightarrow> 'p list \<Rightarrow> nat \<Rightarrow> nat \<Rightarrow> nat \<Rightarrow> 'p list \<times> nat" where
  "compact_loop fresh a read_index write_index n =
     (if read_index < n then
        if fresh (a ! read_index) then
          compact_loop fresh
            (if write_index \<noteq> read_index then a[write_index := a ! read_index] else a)
            (Suc read_index) (Suc write_index) n
        else compact_loop fresh a (Suc read_index) write_index n
      else (a, write_index))"
  by pat_completeness auto
termination
  by (relation "measure (\<lambda>(fresh, a, r, w, n). n - r)") auto

declare compact_loop.simps [simp del]

definition compact :: "('p \<Rightarrow> bool) \<Rightarrow> 'p \<Rightarrow> 'p list \<Rightarrow> nat \<Rightarrow> 'p list \<times> nat" where
  "compact fresh zero a n =
     (case compact_loop fresh a 0 0 n of
        (a', w) \<Rightarrow> (if w < n then store a' w (replicate (n - w) zero) else a', w))"

lemma compact_loop_spec:
  assumes "compact_loop fresh a r w n = (a', w')" and "w \<le> r" and "r \<le> n" and "n \<le> length a"
  shows "length a' = length a \<and> w' \<le> n \<and> drop n a' = drop n a \<and>
         take w' a' = take w a @ filter fresh (drop r (take n a))"
  using assms
proof (induction fresh a r w n arbitrary: a' w' rule: compact_loop.induct)
  case (1 fresh a r w n)
  show ?case
  proof (cases "r < n")
    case False
    with "1.prems" show ?thesis by (auto simp: compact_loop.simps [of fresh a r w n])
  next
    case r: True
    have split: "drop r (take n a) = a ! r # drop (Suc r) (take n a)"
      using r "1.prems"(4) by (simp add: Cons_nth_drop_Suc [symmetric])
    show ?thesis
    proof (cases "fresh (a ! r)")
      case False
      with "1.prems" r "1.IH"(2) [OF r False, of a' w'] show ?thesis
        by (simp add: compact_loop.simps [of fresh a r w n] split)
    next
      case True
      let ?b = "if w \<noteq> r then a[w := a ! r] else a"
      have b: "length ?b = length a" "take (Suc w) ?b = take w a @ [a ! r]"
        "drop (Suc r) (take n ?b) = drop (Suc r) (take n a)" "drop n ?b = drop n a"
        using "1.prems" r by (auto simp: take_Suc_conv_app_nth take_update_swap drop_update_swap list_update_beyond)
      have "compact_loop fresh ?b (Suc r) (Suc w) n = (a', w')"
        using "1.prems"(1) r True by (simp add: compact_loop.simps [of fresh a r w n])
      from "1.IH"(1) [OF r True this] "1.prems" r b show ?thesis
        using True by (simp add: split)
    qed
  qed
qed

lemma compact_spec:
  assumes "compact fresh zero a n = (a', w)" and "n \<le> length a"
  shows "length a' = length a \<and> w \<le> n \<and> take w a' = filter fresh (take n a) \<and>
         w = length (filter fresh (take n a)) \<and> drop w (take n a') = replicate (n - w) zero"
proof -
  obtain b v where bv: "compact_loop fresh a 0 0 n = (b, v)" by force
  from compact_loop_spec [OF this] assms(2)
  have b: "length b = length a" "v \<le> n" "take v b = filter fresh (take n a)" by auto
  have w: "w = v" and a': "a' = (if v < n then store b v (replicate (n - v) zero) else b)"
    using assms(1) bv by (auto simp: compact_def)
  have len: "v = length (filter fresh (take n a))"
    using b assms(2) by (metis length_take min_absorb2 order_trans)
  show ?thesis
    using b w a' len assms(2) by (auto simp: store_def)
qed

end
