(* ===== verification/Awdl_Frame.thy ===== *)
theory Awdl_Frame
  imports Prelude
begin

text \<open>
  The AWDL vendor action frame (\<^verbatim>\<open>core/src/awdl_frame.c\<close>): recognising an action
  frame on the AWDL BSSID and locating its TLV area. Every byte of the frame comes
  from the radio, so the decoder is stated with faulting reads.
\<close>

definition ESPDROP_AWDL_ACTION_PSF :: byte where
  "ESPDROP_AWDL_ACTION_PSF = 0"

definition ESPDROP_AWDL_ACTION_MIF :: byte where
  "ESPDROP_AWDL_ACTION_MIF = 3"

definition IEEE80211_HEADER_BYTES :: nat where
  "IEEE80211_HEADER_BYTES = 24"

definition AWDL_ACTION_HEADER_BYTES :: nat where
  "AWDL_ACTION_HEADER_BYTES = 16"

definition apple_oui :: bytes where
  "apple_oui = [0x00, 0x17, 0xf2]"

definition awdl_bssid :: mac where
  "awdl_bssid = [0x00, 0x25, 0x00, 0xff, 0x94, 0x73]"

record awdl_action =
  act_source :: mac
  act_version :: byte
  act_subtype :: byte
  act_phy_tx :: u32
  act_target_tx :: u32
  act_tlv_data :: "bytes ptr"
  act_tlv_length :: nat

definition espdrop_awdl_decode_action ::
  "bytes ptr \<Rightarrow> awdl_action ptr \<Rightarrow> (bool \<times> awdl_action ptr) option" where
  "espdrop_awdl_decode_action frame action =
     (if frame = NULL \<or> action = NULL \<or>
         length (deref frame) < IEEE80211_HEADER_BYTES + AWDL_ACTION_HEADER_BYTES
      then Some (False, action)
      else do {
        let f = deref frame;
        frame0 \<leftarrow> rd f 0;
        bssid \<leftarrow> rds f 16 6;
        if frame0 \<noteq> 0xd0 \<or> memcmp bssid awdl_bssid 6 \<noteq> 0 then Some (False, action)
        else do {
          let body = drop IEEE80211_HEADER_BYTES f;
          body0 \<leftarrow> rd body 0;
          oui \<leftarrow> rds body 1 3;
          body4 \<leftarrow> rd body 4;
          body5 \<leftarrow> rd body 5;
          body6 \<leftarrow> rd body 6;
          if body0 \<noteq> 127 \<or> memcmp oui apple_oui 3 \<noteq> 0 \<or> body4 \<noteq> 8 \<or> body5 \<noteq> 0x10 \<or>
             (body6 \<noteq> ESPDROP_AWDL_ACTION_PSF \<and> body6 \<noteq> ESPDROP_AWDL_ACTION_MIF)
          then Some (False, action)
          else do {
            source \<leftarrow> rds f 10 6;
            phy_tx \<leftarrow> read_le32 body 8;
            target_tx \<leftarrow> read_le32 body 12;
            Some (True, Ptr \<lparr>
              act_source = source,
              act_version = body5,
              act_subtype = body6,
              act_phy_tx = phy_tx,
              act_target_tx = target_tx,
              act_tlv_data = Ptr (drop AWDL_ACTION_HEADER_BYTES body),
              act_tlv_length = length f - IEEE80211_HEADER_BYTES - AWDL_ACTION_HEADER_BYTES \<rparr>)
          }
        }
      })"

lemmas frame_consts =
  ESPDROP_AWDL_ACTION_PSF_def ESPDROP_AWDL_ACTION_MIF_def IEEE80211_HEADER_BYTES_def
  AWDL_ACTION_HEADER_BYTES_def

lemma length_apple_oui [simp]: "length apple_oui = 3"
  by (simp add: apple_oui_def)

lemma length_awdl_bssid [simp]: "length awdl_bssid = 6"
  by (simp add: awdl_bssid_def)

text \<open>A well-formed action: the TLV window lies inside the frame it came from.\<close>

definition wf_action :: "awdl_action \<Rightarrow> bool" where
  [wf_simps]: "wf_action a \<longleftrightarrow> length (act_source a) = 6 \<and>
     (act_subtype a = ESPDROP_AWDL_ACTION_PSF \<or> act_subtype a = ESPDROP_AWDL_ACTION_MIF) \<and>
     act_tlv_data a \<noteq> NULL \<and> act_tlv_length a = length (deref (act_tlv_data a))"

text \<open>The frame that carries the given header fields and TLV area.\<close>

definition action_frame :: "byte \<Rightarrow> bytes \<Rightarrow> mac \<Rightarrow> bytes \<Rightarrow> byte \<Rightarrow> byte \<Rightarrow> u32 \<Rightarrow> u32 \<Rightarrow> bytes \<Rightarrow> bytes" where
  "action_frame flags durdst src sctl subtype reserved phy target tlvs =
     (0xd0 # flags # durdst @ src @ awdl_bssid @ sctl) @
     ([127] @ apple_oui @ [8, 0x10, subtype, reserved] @ put_le32 phy @ put_le32 target) @ tlvs"

lemma decode_action_frame:
  assumes "length durdst = 8" and "length src = 6" and "length sctl = 2"
    and "subtype = ESPDROP_AWDL_ACTION_PSF \<or> subtype = ESPDROP_AWDL_ACTION_MIF"
  shows "espdrop_awdl_decode_action (Ptr (action_frame flags durdst src sctl subtype reserved phy target tlvs)) (Ptr a) =
     Some (True, Ptr \<lparr>act_source = src, act_version = 0x10, act_subtype = subtype,
       act_phy_tx = phy, act_target_tx = target, act_tlv_data = Ptr tlvs, act_tlv_length = length tlvs\<rparr>)"
proof -
  define h where "h = 0xd0 # flags # durdst @ src @ awdl_bssid @ sctl"
  define pre where "pre = [127] @ apple_oui @ [8, 0x10, subtype, reserved]"
  define b where "b = pre @ put_le32 phy @ put_le32 target @ tlvs"
  have f: "action_frame flags durdst src sctl subtype reserved phy target tlvs = h @ b"
    by (simp add: action_frame_def h_def b_def pre_def)
  have h: "length h = 24" using assms by (simp add: h_def)
  have hd: "rd (h @ b) 0 = Some 0xd0" "rds (h @ b) 16 6 = Some awdl_bssid" "rds (h @ b) 10 6 = Some src"
    using assms by (simp_all add: h_def rds_def)
  have pre: "length pre = 8" by (simp add: pre_def)
  have b: "rd b 0 = Some 127" "rds b 1 3 = Some apple_oui" "rd b 4 = Some 8" "rd b 5 = Some 0x10"
    "rd b 6 = Some subtype"
    by (simp_all add: b_def pre_def rds_def apple_oui_def)
  have tx: "read_le32 b 8 = Some phy"
    unfolding b_def by (rule le32.dec_at_offset) (simp add: pre)
  have tt: "read_le32 b 12 = Some target"
    using le32.dec_at_offset [of 12 "pre @ put_le32 phy" target tlvs] by (simp add: b_def pre)
  have t: "drop 16 b = tlvs" "length b = 16 + length tlvs" by (simp_all add: b_def pre)
  show ?thesis
    unfolding f espdrop_awdl_decode_action_def frame_consts Let_def
    using assms(4) hd b tx tt t h by (simp add: drop_append_exact frame_consts)
qed

lemma decode_action_sound:
  assumes "espdrop_awdl_decode_action (Ptr f) (Ptr a) = Some (True, Ptr a')"
  shows "wf_action a'" and "act_version a' = 0x10"
    and "\<exists>flags durdst sctl reserved. length durdst = 8 \<and> length sctl = 2 \<and>
      f = action_frame flags durdst (act_source a') sctl (act_subtype a') reserved
            (act_phy_tx a') (act_target_tx a') (deref (act_tlv_data a'))"
proof -
  let ?b = "drop 24 f"
  from assms have len: "40 \<le> length f"
    by (auto simp: espdrop_awdl_decode_action_def frame_consts split: if_splits)
  from assms have
    *: "rd f 0 = Some 0xd0" "rds f 16 6 = Some awdl_bssid" "rd ?b 0 = Some 127"
       "rds ?b 1 3 = Some apple_oui" "rd ?b 4 = Some 8" "rd ?b 5 = Some 0x10"
       "rd ?b 6 = Some (act_subtype a')" "rds f 10 6 = Some (act_source a')"
       "read_le32 ?b 8 = Some (act_phy_tx a')" "read_le32 ?b 12 = Some (act_target_tx a')"
       "act_tlv_data a' = Ptr (drop 40 f)" "act_tlv_length a' = length f - 40"
       "act_subtype a' = 0 \<or> act_subtype a' = 3"
       "act_version a' = 0x10"
    by (auto simp: espdrop_awdl_decode_action_def frame_consts Let_def Option.bind_eq_Some_conv
        memcmp_eq_0 rds_length split: if_splits)
  show "act_version a' = 0x10" by (fact *)
  show "wf_action a'"
    using * len by (auto simp: wf_action_def frame_consts dest: rds_length)
  have "f = take 2 f @ drop 2 f" by simp
  also have "take 2 f = [0xd0, f ! 1]"
    using *(1) len take2_drop [of 0 f] by (auto dest: rd_SomeD)
  also have "drop 2 f = take 8 (drop 2 f) @ drop 10 f" using drop_chop [of 2 f 8] by simp
  also have "drop 10 f = act_source a' @ drop 16 f"
    using drop_chop [of 10 f 6] *(8) by (auto simp: rds_def split: if_splits)
  also have "drop 16 f = awdl_bssid @ drop 22 f"
    using drop_chop [of 16 f 6] *(2) by (auto simp: rds_def split: if_splits)
  also have "drop 22 f = take 2 (drop 22 f) @ ?b" using drop_chop [of 22 f 2] by simp
  also have "?b = take 1 ?b @ drop 25 f" using drop_chop [of 24 f 1] by simp
  also have "take 1 ?b = [127]" using *(3) len by (auto simp: rd_def take_Suc_conv_app_nth)
  also have "drop 25 f = apple_oui @ drop 28 f"
    using drop_chop [of 25 f 3] *(4) by (auto simp: rds_def split: if_splits)
  also have "drop 28 f = take 4 (drop 28 f) @ drop 32 f" using drop_chop [of 28 f 4] by simp
  also have "take 4 (drop 28 f) = [8, 0x10, act_subtype a', f ! 31]"
    using *(5,6,7) len by (simp add: take4_drop rd_drop rd_in)
  also have "drop 32 f = put_le32 (act_phy_tx a') @ drop 36 f"
    using drop_chop [of 32 f 4] le32.enc_dec [OF *(9)] by simp
  also have "drop 36 f = put_le32 (act_target_tx a') @ drop 40 f"
    using drop_chop [of 36 f 4] le32.enc_dec [OF *(10)] by simp
  finally have "f = action_frame (f ! 1) (take 8 (drop 2 f)) (act_source a') (take 2 (drop 22 f))
      (act_subtype a') (f ! 31) (act_phy_tx a') (act_target_tx a') (deref (act_tlv_data a'))"
    using *(11) by (simp add: action_frame_def)
  moreover have "length (take 8 (drop 2 f)) = 8" "length (take 2 (drop 22 f)) = 2" using len by simp_all
  ultimately show "\<exists>flags durdst sctl reserved. length durdst = 8 \<and> length sctl = 2 \<and>
      f = action_frame flags durdst (act_source a') sctl (act_subtype a') reserved
            (act_phy_tx a') (act_target_tx a') (deref (act_tlv_data a'))"
    by blast
qed

lemma decode_action_defined:
  "\<exists>ok a'. espdrop_awdl_decode_action frame action = Some (ok, a') \<and> (\<not> ok \<longrightarrow> a' = action)"
proof (cases "frame = NULL \<or> action = NULL \<or> length (deref frame) < 40")
  case True
  then show ?thesis by (auto simp: espdrop_awdl_decode_action_def frame_consts)
next
  case False
  then obtain f a where fa: "frame = Ptr f" "action = Ptr a" "40 \<le> length f"
    by (metis leI ptr.exhaust_sel)
  have room: "8 + 4 \<le> length (drop 24 f)" "12 + 4 \<le> length (drop 24 f)"
    using fa(3) by simp_all
  obtain phy where phy: "read_le32 (drop 24 f) 8 = Some phy"
    using le32.dec_defined [OF room(1)] by blast
  obtain tt where tt: "read_le32 (drop 24 f) 12 = Some tt"
    using le32.dec_defined [OF room(2)] by blast
  have "f \<noteq> []" "24 < length f" using fa(3) by auto
  with fa phy tt show ?thesis
    by (auto simp: espdrop_awdl_decode_action_def frame_consts Let_def rd_in rds_in)
qed

text \<open>
  C6. The AWDL action decoder accepts exactly the frames of the AWDL action format,
  for every input and without reading outside the frame: it returns true with the
  decoded fields if and only if the bytes are an 802.11 action frame on the AWDL
  BSSID with Apple's OUI, action type 8, version 1.0 and subtype PSF or MIF, and the
  fields are those of that frame; otherwise it returns false and leaves the output
  unchanged.
\<close>

theorem decode_action_correct:
  "(\<exists>ok a'. espdrop_awdl_decode_action frame action = Some (ok, a') \<and> (ok \<or> a' = action)) \<and>
   (espdrop_awdl_decode_action (Ptr f) (Ptr a) = Some (True, Ptr a') \<longleftrightarrow>
      wf_action a' \<and> act_version a' = 0x10 \<and>
      (\<exists>flags durdst sctl reserved. length durdst = 8 \<and> length sctl = 2 \<and>
         f = action_frame flags durdst (act_source a') sctl (act_subtype a') reserved
               (act_phy_tx a') (act_target_tx a') (deref (act_tlv_data a'))))"
proof (rule conjI)
  show "\<exists>ok a'. espdrop_awdl_decode_action frame action = Some (ok, a') \<and> (ok \<or> a' = action)"
    using decode_action_defined by blast
  let ?r = "wf_action a' \<and> act_version a' = 0x10 \<and>
      (\<exists>flags durdst sctl reserved. length durdst = 8 \<and> length sctl = 2 \<and>
         f = action_frame flags durdst (act_source a') sctl (act_subtype a') reserved
               (act_phy_tx a') (act_target_tx a') (deref (act_tlv_data a')))"
  show "(espdrop_awdl_decode_action (Ptr f) (Ptr a) = Some (True, Ptr a')) = ?r"
  proof
    assume "espdrop_awdl_decode_action (Ptr f) (Ptr a) = Some (True, Ptr a')"
    then show ?r
      using decode_action_sound [of f a a'] by blast
  next
    assume ?r
    then show "espdrop_awdl_decode_action (Ptr f) (Ptr a) = Some (True, Ptr a')"
      by (auto simp: wf_action_def decode_action_frame)
  qed
qed

end
