(* ===== verification/Awdl_Tlv.thy ===== *)
theory Awdl_Tlv
  imports Awdl_Frame
begin

text \<open>
  The AWDL TLV area (\<^verbatim>\<open>core/src/awdl_tlv.c\<close>): the TLV iterator, the parsers of the
  five TLVs espDrop interprets, and the master indication frame (MIF) parser that
  runs them over a received action frame. The iterator is shared with the service
  scanner, so its contract is stated once as the locale \<open>tlv_consumer\<close>.
\<close>

section \<open>Data\<close>

definition ESPDROP_AWDL_MAX_CHANNELS :: nat where
  "ESPDROP_AWDL_MAX_CHANNELS = 16"

datatype parse_result =
    PARSE_OK | PARSE_END | PARSE_INVALID_ARGUMENT | PARSE_TRUNCATED
  | PARSE_UNSUPPORTED | PARSE_INVALID_VALUE

record tlv_iterator =
  it_data :: "bytes ptr"
  it_length :: nat
  it_offset :: nat

record tlv_view =
  tv_type :: byte
  tv_value :: bytes
  tv_length :: u16
  tv_frame_offset :: nat

record channel_sequence =
  cs_count :: byte
  cs_encoding :: byte
  cs_duplicate_count :: byte
  cs_step_count :: byte
  cs_fill_channel :: u16
  cs_channels :: bytes
  cs_operating_classes :: bytes

record sync_parameters =
  sp_next_aw_channel :: byte
  sp_tx_down_counter :: u16
  sp_master_channel :: byte
  sp_guard_time :: byte
  sp_aw_period_tu :: u16
  sp_action_frame_period_tu :: u16
  sp_flags :: u16
  sp_extended_aw_length_tu :: u16
  sp_common_aw_length_tu :: u16
  sp_remaining_aw_length_tu :: u16
  sp_minimum_extension :: byte
  sp_maximum_multicast_extension :: byte
  sp_maximum_unicast_extension :: byte
  sp_maximum_action_frame_extension :: byte
  sp_master :: mac
  sp_presence_mode :: byte
  sp_next_aw_sequence :: u16
  sp_ap_alignment :: u16
  sp_has_embedded_channel_sequence :: bool
  sp_embedded_channel_sequence :: channel_sequence

record election_v1 =
  e1_flags :: byte
  e1_identifier :: u16
  e1_distance_to_master :: byte
  e1_master :: mac
  e1_master_metric :: u32
  e1_self_metric :: u32

record election_v2 =
  e2_master :: mac
  e2_sync_master :: mac
  e2_master_counter :: u32
  e2_distance_to_master :: u32
  e2_master_metric :: u32
  e2_self_metric :: u32
  e2_self_counter :: u32

record awdl_version =
  ver_version :: byte
  ver_device_class :: byte

record mif =
  mif_tlv_count :: u16
  mif_has_sync :: bool
  mif_has_channel_sequence :: bool
  mif_has_election_v1 :: bool
  mif_has_election_v2 :: bool
  mif_has_version :: bool
  mif_sync :: sync_parameters
  mif_channel_sequence :: channel_sequence
  mif_election_v1 :: election_v1
  mif_election_v2 :: election_v2
  mif_version :: awdl_version

text \<open>Zero-initialised structures (\<^verbatim>\<open>memset(p, 0, sizeof *p)\<close>).\<close>

definition channel_sequence_zero :: channel_sequence where
  "channel_sequence_zero = \<lparr>cs_count = 0, cs_encoding = 0, cs_duplicate_count = 0, cs_step_count = 0,
     cs_fill_channel = 0, cs_channels = replicate 16 0, cs_operating_classes = replicate 16 0\<rparr>"

definition sync_parameters_zero :: sync_parameters where
  "sync_parameters_zero = \<lparr>sp_next_aw_channel = 0, sp_tx_down_counter = 0, sp_master_channel = 0,
     sp_guard_time = 0, sp_aw_period_tu = 0, sp_action_frame_period_tu = 0, sp_flags = 0,
     sp_extended_aw_length_tu = 0, sp_common_aw_length_tu = 0, sp_remaining_aw_length_tu = 0,
     sp_minimum_extension = 0, sp_maximum_multicast_extension = 0, sp_maximum_unicast_extension = 0,
     sp_maximum_action_frame_extension = 0, sp_master = replicate 6 0, sp_presence_mode = 0,
     sp_next_aw_sequence = 0, sp_ap_alignment = 0, sp_has_embedded_channel_sequence = False,
     sp_embedded_channel_sequence = channel_sequence_zero\<rparr>"

definition election_v1_zero :: election_v1 where
  "election_v1_zero = \<lparr>e1_flags = 0, e1_identifier = 0, e1_distance_to_master = 0,
     e1_master = replicate 6 0, e1_master_metric = 0, e1_self_metric = 0\<rparr>"

definition election_v2_zero :: election_v2 where
  "election_v2_zero = \<lparr>e2_master = replicate 6 0, e2_sync_master = replicate 6 0,
     e2_master_counter = 0, e2_distance_to_master = 0, e2_master_metric = 0, e2_self_metric = 0,
     e2_self_counter = 0\<rparr>"

definition mif_zero :: mif where
  "mif_zero = \<lparr>mif_tlv_count = 0, mif_has_sync = False, mif_has_channel_sequence = False,
     mif_has_election_v1 = False, mif_has_election_v2 = False, mif_has_version = False,
     mif_sync = sync_parameters_zero, mif_channel_sequence = channel_sequence_zero,
     mif_election_v1 = election_v1_zero, mif_election_v2 = election_v2_zero,
     mif_version = \<lparr>ver_version = 0, ver_device_class = 0\<rparr>\<rparr>"

definition tlv_view_zero :: tlv_view where
  "tlv_view_zero = \<lparr>tv_type = 0, tv_value = [], tv_length = 0, tv_frame_offset = 0\<rparr>"

section \<open>The iterator\<close>

definition espdrop_awdl_tlv_iterator_init ::
  "tlv_iterator ptr \<Rightarrow> bytes ptr \<Rightarrow> nat \<Rightarrow> tlv_iterator ptr" where
  "espdrop_awdl_tlv_iterator_init iterator data len =
     (if iterator = NULL then NULL
      else Ptr \<lparr>it_data = data, it_length = (if data = NULL then 0 else len), it_offset = 0\<rparr>)"

definition espdrop_awdl_tlv_next ::
  "tlv_iterator ptr \<Rightarrow> tlv_view ptr \<Rightarrow> (parse_result \<times> tlv_iterator ptr \<times> tlv_view ptr) option" where
  "espdrop_awdl_tlv_next iterator view =
     (let it = deref iterator in
      if iterator = NULL \<or> view = NULL \<or> (it_data it = NULL \<and> it_length it \<noteq> 0) \<or>
         it_offset it > it_length it
      then Some (PARSE_INVALID_ARGUMENT, iterator, view)
      else if it_offset it = it_length it then Some (PARSE_END, iterator, view)
      else
        let remaining = it_length it - it_offset it in
        if remaining < 3 then Some (PARSE_TRUNCATED, iterator, view)
        else do {
          let header = drop (it_offset it) (deref (it_data it));
          value_length \<leftarrow> read_le16 header 1;
          if unat value_length > remaining - 3 then Some (PARSE_TRUNCATED, iterator, view)
          else do {
            header0 \<leftarrow> rd header 0;
            value \<leftarrow> rds header 3 (unat value_length);
            Some (PARSE_OK,
                  Ptr (it\<lparr>it_offset := it_offset it + 3 + unat value_length\<rparr>),
                  Ptr \<lparr>tv_type = header0, tv_value = value, tv_length = value_length,
                       tv_frame_offset = it_offset it\<rparr>)
          }
        })"

section \<open>TLV value parsers\<close>

definition channel_encoding_size :: "byte \<Rightarrow> nat" where
  "channel_encoding_size encoding =
     (if encoding = 0 then 1 else if encoding = 1 \<or> encoding = 3 then 2 else 0)"

text \<open>The copy loop: \<open>index\<close> runs up to \<open>channel_count\<close>, which is at most 16 here.\<close>

function read_channels ::
  "bytes \<Rightarrow> nat \<Rightarrow> nat \<Rightarrow> nat \<Rightarrow> channel_sequence \<Rightarrow> channel_sequence option" where
  "read_channels value encoded_size index channel_count sequence =
     (if index < channel_count then do {
        let encoded = drop (6 + index * encoded_size) value;
        channel \<leftarrow> rd encoded 0;
        let sequence1 = sequence\<lparr>cs_channels := (cs_channels sequence)[index := channel]\<rparr>;
        if cs_encoding sequence1 = 3 then do {
          operating_class \<leftarrow> rd encoded 1;
          read_channels value encoded_size (Suc index) channel_count
            (sequence1\<lparr>cs_operating_classes := (cs_operating_classes sequence1)[index := operating_class]\<rparr>)
        }
        else read_channels value encoded_size (Suc index) channel_count sequence1
      }
      else Some sequence)"
  by pat_completeness auto
termination
  by (relation "measure (\<lambda>(value, sz, index, n, s). n - index)") auto

declare read_channels.simps [simp del]

definition espdrop_awdl_parse_channel_sequence ::
  "bytes ptr \<Rightarrow> channel_sequence ptr \<Rightarrow> (parse_result \<times> channel_sequence ptr) option" where
  "espdrop_awdl_parse_channel_sequence vp sequence =
     (if vp = NULL \<or> sequence = NULL then Some (PARSE_INVALID_ARGUMENT, sequence)
      else let value = deref vp in
      if length value < 6 then Some (PARSE_TRUNCATED, sequence)
      else do {
        value0 \<leftarrow> rd value 0;
        value1 \<leftarrow> rd value 1;
        let channel_count = unat value0 + 1;
        let encoded_size = channel_encoding_size value1;
        if channel_count = 0 \<or> channel_count > ESPDROP_AWDL_MAX_CHANNELS
        then Some (PARSE_INVALID_VALUE, sequence)
        else if encoded_size = 0 then Some (PARSE_UNSUPPORTED, sequence)
        else if channel_count > (SIZE_MAX - 6) div encoded_size \<or>
                length value < 6 + channel_count * encoded_size
        then Some (PARSE_TRUNCATED, sequence)
        else do {
          value2 \<leftarrow> rd value 2;
          value3 \<leftarrow> rd value 3;
          fill \<leftarrow> read_le16 value 4;
          s \<leftarrow> read_channels value encoded_size 0 channel_count
                (channel_sequence_zero\<lparr>cs_count := of_nat channel_count, cs_encoding := value1,
                   cs_duplicate_count := value2, cs_step_count := value3, cs_fill_channel := fill\<rparr>);
          Some (PARSE_OK, Ptr s)
        }
      })"

definition espdrop_awdl_parse_sync_parameters ::
  "bytes ptr \<Rightarrow> sync_parameters ptr \<Rightarrow> (parse_result \<times> sync_parameters ptr) option" where
  "espdrop_awdl_parse_sync_parameters vp parameters =
     (if vp = NULL \<or> parameters = NULL then Some (PARSE_INVALID_ARGUMENT, parameters)
      else let value = deref vp in
      if length value < 33 then Some (PARSE_TRUNCATED, parameters)
      else do {
        next_aw_channel \<leftarrow> rd value 0;
        tx_down_counter \<leftarrow> read_le16 value 1;
        master_channel \<leftarrow> rd value 3;
        guard_time \<leftarrow> rd value 4;
        aw_period_tu \<leftarrow> read_le16 value 5;
        action_frame_period_tu \<leftarrow> read_le16 value 7;
        flags \<leftarrow> read_le16 value 9;
        extended_aw_length_tu \<leftarrow> read_le16 value 11;
        common_aw_length_tu \<leftarrow> read_le16 value 13;
        remaining_aw_length_tu \<leftarrow> read_le16 value 15;
        minimum_extension \<leftarrow> rd value 17;
        maximum_multicast_extension \<leftarrow> rd value 18;
        maximum_unicast_extension \<leftarrow> rd value 19;
        maximum_action_frame_extension \<leftarrow> rd value 20;
        master \<leftarrow> rds value 21 6;
        presence_mode \<leftarrow> rd value 27;
        next_aw_sequence \<leftarrow> read_le16 value 29;
        ap_alignment \<leftarrow> read_le16 value 31;
        let p = \<lparr>
          sp_next_aw_channel = next_aw_channel,
          sp_tx_down_counter = tx_down_counter,
          sp_master_channel = master_channel,
          sp_guard_time = guard_time,
          sp_aw_period_tu = aw_period_tu,
          sp_action_frame_period_tu = action_frame_period_tu,
          sp_flags = flags,
          sp_extended_aw_length_tu = extended_aw_length_tu,
          sp_common_aw_length_tu = common_aw_length_tu,
          sp_remaining_aw_length_tu = remaining_aw_length_tu,
          sp_minimum_extension = minimum_extension,
          sp_maximum_multicast_extension = maximum_multicast_extension,
          sp_maximum_unicast_extension = maximum_unicast_extension,
          sp_maximum_action_frame_extension = maximum_action_frame_extension,
          sp_master = master,
          sp_presence_mode = presence_mode,
          sp_next_aw_sequence = next_aw_sequence,
          sp_ap_alignment = ap_alignment,
          sp_has_embedded_channel_sequence = False,
          sp_embedded_channel_sequence = channel_sequence_zero \<rparr>;
        if length value > 33 then do {
          (result, s) \<leftarrow> espdrop_awdl_parse_channel_sequence (Ptr (drop 33 value))
                            (Ptr (sp_embedded_channel_sequence p));
          let p1 = p\<lparr>sp_embedded_channel_sequence := deref s\<rparr>;
          if result \<noteq> PARSE_OK then Some (result, Ptr p1)
          else Some (PARSE_OK, Ptr (p1\<lparr>sp_has_embedded_channel_sequence := True\<rparr>))
        }
        else Some (PARSE_OK, Ptr p)
      })"

definition espdrop_awdl_parse_election_v1 ::
  "bytes ptr \<Rightarrow> election_v1 ptr \<Rightarrow> (parse_result \<times> election_v1 ptr) option" where
  "espdrop_awdl_parse_election_v1 vp election =
     (if vp = NULL \<or> election = NULL then Some (PARSE_INVALID_ARGUMENT, election)
      else let value = deref vp in
      if length value < 21 then Some (PARSE_TRUNCATED, election)
      else do {
        flags \<leftarrow> rd value 0;
        identifier \<leftarrow> read_le16 value 1;
        distance \<leftarrow> rd value 3;
        master \<leftarrow> rds value 5 6;
        master_metric \<leftarrow> read_le32 value 11;
        self_metric \<leftarrow> read_le32 value 15;
        Some (PARSE_OK, Ptr \<lparr>e1_flags = flags, e1_identifier = identifier,
          e1_distance_to_master = distance, e1_master = master,
          e1_master_metric = master_metric, e1_self_metric = self_metric\<rparr>)
      })"

definition espdrop_awdl_parse_election_v2 ::
  "bytes ptr \<Rightarrow> election_v2 ptr \<Rightarrow> (parse_result \<times> election_v2 ptr) option" where
  "espdrop_awdl_parse_election_v2 vp election =
     (if vp = NULL \<or> election = NULL then Some (PARSE_INVALID_ARGUMENT, election)
      else let value = deref vp in
      if length value < 40 then Some (PARSE_TRUNCATED, election)
      else do {
        master \<leftarrow> rds value 0 6;
        sync_master \<leftarrow> rds value 6 6;
        master_counter \<leftarrow> read_le32 value 12;
        distance \<leftarrow> read_le32 value 16;
        master_metric \<leftarrow> read_le32 value 20;
        self_metric \<leftarrow> read_le32 value 24;
        self_counter \<leftarrow> read_le32 value 36;
        Some (PARSE_OK, Ptr \<lparr>e2_master = master, e2_sync_master = sync_master,
          e2_master_counter = master_counter, e2_distance_to_master = distance,
          e2_master_metric = master_metric, e2_self_metric = self_metric,
          e2_self_counter = self_counter\<rparr>)
      })"

definition espdrop_awdl_parse_version ::
  "bytes ptr \<Rightarrow> awdl_version ptr \<Rightarrow> (parse_result \<times> awdl_version ptr) option" where
  "espdrop_awdl_parse_version vp version =
     (if vp = NULL \<or> version = NULL then Some (PARSE_INVALID_ARGUMENT, version)
      else let value = deref vp in
      if length value < 2 then Some (PARSE_TRUNCATED, version)
      else do {
        v0 \<leftarrow> rd value 0;
        v1 \<leftarrow> rd value 1;
        Some (PARSE_OK, Ptr \<lparr>ver_version = v0, ver_device_class = v1\<rparr>)
      })"

definition espdrop_awdl_mif_peer_valid :: "mif ptr \<Rightarrow> bool" where
  "espdrop_awdl_mif_peer_valid mp \<longleftrightarrow>
     mp \<noteq> NULL \<and> mif_has_version (deref mp) \<and> ver_version (mif_version (deref mp)) \<noteq> 0 \<and>
     ver_device_class (mif_version (deref mp)) \<noteq> 0"

section \<open>The MIF parser\<close>

text \<open>The body of the loop after \<^verbatim>\<open>++mif->tlv_count\<close>: the \<^verbatim>\<open>switch\<close> on the TLV type.\<close>

definition mif_switch :: "tlv_view \<Rightarrow> mif \<Rightarrow> (parse_result \<times> mif) option" where
  "mif_switch view m =
     (if tv_type view = 4 then do {
        (parsed, p) \<leftarrow> espdrop_awdl_parse_sync_parameters (Ptr (tv_value view)) (Ptr (mif_sync m));
        Some (parsed, m\<lparr>mif_sync := deref p, mif_has_sync := (parsed = PARSE_OK)\<rparr>)
      }
      else if tv_type view = 18 then do {
        (parsed, p) \<leftarrow> espdrop_awdl_parse_channel_sequence (Ptr (tv_value view)) (Ptr (mif_channel_sequence m));
        Some (parsed, m\<lparr>mif_channel_sequence := deref p, mif_has_channel_sequence := (parsed = PARSE_OK)\<rparr>)
      }
      else if tv_type view = 5 then do {
        (parsed, p) \<leftarrow> espdrop_awdl_parse_election_v1 (Ptr (tv_value view)) (Ptr (mif_election_v1 m));
        Some (parsed, m\<lparr>mif_election_v1 := deref p, mif_has_election_v1 := (parsed = PARSE_OK)\<rparr>)
      }
      else if tv_type view = 24 then do {
        (parsed, p) \<leftarrow> espdrop_awdl_parse_election_v2 (Ptr (tv_value view)) (Ptr (mif_election_v2 m));
        Some (parsed, m\<lparr>mif_election_v2 := deref p, mif_has_election_v2 := (parsed = PARSE_OK)\<rparr>)
      }
      else if tv_type view = 21 then do {
        (parsed, p) \<leftarrow> espdrop_awdl_parse_version (Ptr (tv_value view)) (Ptr (mif_version m));
        Some (parsed, m\<lparr>mif_version := deref p, mif_has_version := (parsed = PARSE_OK)\<rparr>)
      }
      else Some (PARSE_OK, m))"

text \<open>One successful call of the iterator moves strictly forward and stays in bounds.\<close>

lemma tlv_next_OK_progress:
  assumes "espdrop_awdl_tlv_next (Ptr it) vp = Some (PARSE_OK, itp, vp')"
  shows "\<exists>it' v. itp = Ptr it' \<and> vp' = Ptr v \<and> it_data it' = it_data it \<and> it_length it' = it_length it \<and>
           it_offset it < it_offset it' \<and> it_offset it' \<le> it_length it"
  using assms
  by (auto simp: espdrop_awdl_tlv_next_def Let_def Option.bind_eq_Some_conv split: if_splits)

function parse_mif_loop :: "tlv_iterator \<Rightarrow> mif \<Rightarrow> (parse_result \<times> mif) option" where
  "parse_mif_loop iterator m = do {
     (result, iterator', view) \<leftarrow> espdrop_awdl_tlv_next (Ptr iterator) (Ptr tlv_view_zero);
     if result = PARSE_END then Some (PARSE_OK, m)
     else if result \<noteq> PARSE_OK then Some (result, m)
     else do {
       (parsed, m') \<leftarrow> mif_switch (deref view) (m\<lparr>mif_tlv_count := mif_tlv_count m + 1\<rparr>);
       if parsed \<noteq> PARSE_OK then Some (parsed, m')
       else parse_mif_loop (deref iterator') m'
     }
   }"
  by pat_completeness auto
termination
  by (relation "measure (\<lambda>(it, m). it_length it - it_offset it)")
    (auto dest!: tlv_next_OK_progress)

declare parse_mif_loop.simps [simp del]

definition espdrop_awdl_parse_mif :: "awdl_action ptr \<Rightarrow> mif ptr \<Rightarrow> (parse_result \<times> mif ptr) option" where
  "espdrop_awdl_parse_mif action mp =
     (let a = deref action in
      if action = NULL \<or> mp = NULL \<or> act_tlv_data a = NULL \<or>
         act_subtype a \<noteq> ESPDROP_AWDL_ACTION_MIF
      then Some (PARSE_INVALID_ARGUMENT, mp)
      else do {
        let iterator = espdrop_awdl_tlv_iterator_init
              (Ptr \<lparr>it_data = NULL, it_length = 0, it_offset = 0\<rparr>) (act_tlv_data a) (act_tlv_length a);
        (result, m) \<leftarrow> parse_mif_loop (deref iterator) mif_zero;
        Some (result, Ptr m)
      })"

section \<open>The iterator as an interface\<close>

text \<open>The encoding of one TLV, of a TLV area, and the views an iterator produces on it.\<close>

definition tlv_enc :: "byte \<Rightarrow> bytes \<Rightarrow> bytes" where
  "tlv_enc t v = t # put_le16 (of_nat (length v)) @ v"

fun tlv_area :: "(byte \<times> bytes) list \<Rightarrow> bytes" where
  "tlv_area [] = []"
| "tlv_area ((t, v) # ts) = tlv_enc t v @ tlv_area ts"

fun tlv_views :: "nat \<Rightarrow> (byte \<times> bytes) list \<Rightarrow> tlv_view list" where
  "tlv_views off [] = []"
| "tlv_views off ((t, v) # ts) =
     \<lparr>tv_type = t, tv_value = v, tv_length = of_nat (length v), tv_frame_offset = off\<rparr>
       # tlv_views (off + 3 + length v) ts"

definition tlvs_fit :: "(byte \<times> bytes) list \<Rightarrow> bool" where
  "tlvs_fit ts \<longleftrightarrow> (\<forall>(t, v) \<in> set ts. length v < 2 ^ 16)"

definition wf_iterator :: "tlv_iterator \<Rightarrow> bool" where
  [wf_simps]: "wf_iterator it \<longleftrightarrow> it_offset it \<le> it_length it \<and>
     (it_length it \<noteq> 0 \<longrightarrow> it_data it \<noteq> NULL) \<and>
     (it_data it \<noteq> NULL \<longrightarrow> it_length it \<le> length (deref (it_data it)))"

lemma length_tlv_enc [simp]: "length (tlv_enc t v) = 3 + length v"
  by (simp add: tlv_enc_def)

lemma tlv_area_append: "tlv_area (xs @ ys) = tlv_area xs @ tlv_area ys"
  by (induction xs rule: tlv_area.induct) auto

lemma unat_of_nat_u16: "n < 2 ^ 16 \<Longrightarrow> unat (of_nat n :: u16) = n"
  by (simp add: unat_of_nat)

lemma tlv_next_enc:
  assumes "it_data it = Ptr (pre @ tlv_enc t v @ post)" and "it_offset it = length pre"
    and "it_length it = length (pre @ tlv_enc t v @ post)" and "length v < 2 ^ 16"
  shows "espdrop_awdl_tlv_next (Ptr it) (Ptr w) =
    Some (PARSE_OK, Ptr (it\<lparr>it_offset := length pre + 3 + length v\<rparr>),
      Ptr \<lparr>tv_type = t, tv_value = v, tv_length = of_nat (length v), tv_frame_offset = length pre\<rparr>)"
proof -
  let ?h = "tlv_enc t v @ post"
  have len: "read_le16 ?h 1 = Some (of_nat (length v))"
    using le16.dec_at_offset [of 1 "[t]" "of_nat (length v)" "v @ post"] by (simp add: tlv_enc_def)
  have val: "rds ?h 3 (length v) = Some v" "rd ?h 0 = Some t"
    by (simp_all add: tlv_enc_def rds_def put_le16_def)
  show ?thesis
    using assms len val by (simp add: espdrop_awdl_tlv_next_def Let_def unat_of_nat_u16)
qed

lemma tlv_next_defined:
  assumes "wf_iterator it"
  shows "\<exists>r itp' vp'. espdrop_awdl_tlv_next (Ptr it) (Ptr w) = Some (r, itp', vp') \<and>
           (r = PARSE_OK \<longrightarrow> wf_iterator (deref itp'))"
proof (cases "it_length it - it_offset it < 3")
  case True
  with assms show ?thesis
    by (cases "it_offset it = it_length it") (auto simp: espdrop_awdl_tlv_next_def Let_def wf_iterator_def)
next
  case False
  with assms obtain d where d: "it_data it = Ptr d" "it_length it \<le> length d"
    by (cases "it_data it") (auto simp: wf_iterator_def)
  let ?h = "drop (it_offset it) d"
  have "1 + 2 \<le> length ?h" using False d by simp
  then obtain n where n: "read_le16 ?h 1 = Some n" using le16.dec_defined by blast
  have "0 < length ?h" using False d by simp
  then show ?thesis
    using assms False d n
    by (auto simp: espdrop_awdl_tlv_next_def Let_def wf_iterator_def rd_in rds_in)
qed

primrec tlv_fold ::
  "(tlv_view \<Rightarrow> 's \<Rightarrow> ('r + 's) option) \<Rightarrow> ('s \<Rightarrow> 'r) \<Rightarrow> tlv_view list \<Rightarrow> 's \<Rightarrow> 'r option" where
  "tlv_fold step finish [] s = Some (finish s)"
| "tlv_fold step finish (v # vs) s = do {
     x \<leftarrow> step v s;
     case x of Inl r \<Rightarrow> Some r | Inr s' \<Rightarrow> tlv_fold step finish vs s' }"

text \<open>
  A loop that drives \<open>espdrop_awdl_tlv_next\<close> to the end of its area: \<open>step\<close> handles one
  TLV and either stops with a result or continues with a new state, \<open>finish\<close> is the
  result at the end of the area, \<open>stop\<close> the result of an iterator error. Any such
  loop terminates without a fault on a well-formed iterator, and on the encoding of a
  list of TLVs it is the fold of \<open>step\<close> over exactly those TLVs, in order.
\<close>

locale tlv_consumer =
  fixes loop :: "tlv_iterator \<Rightarrow> 's \<Rightarrow> 'r option"
    and step :: "tlv_view \<Rightarrow> 's \<Rightarrow> ('r + 's) option"
    and finish :: "'s \<Rightarrow> 'r"
    and stop :: "parse_result \<Rightarrow> 's \<Rightarrow> 'r"
  assumes loop_unfold: "loop it s = do {
      (r, it', v) \<leftarrow> espdrop_awdl_tlv_next (Ptr it) (Ptr tlv_view_zero);
      if r = PARSE_END then Some (finish s)
      else if r \<noteq> PARSE_OK then Some (stop r s)
      else do {
        x \<leftarrow> step (deref v) s;
        case x of Inl r' \<Rightarrow> Some r' | Inr s' \<Rightarrow> loop (deref it') s' } }"
    and step_defined: "step v s \<noteq> None"
begin

lemma loop_defined: "wf_iterator it \<Longrightarrow> \<exists>r. loop it s = Some r"
proof (induction "it_length it - it_offset it" arbitrary: it s rule: less_induct)
  case less
  obtain r itp vp where nx: "espdrop_awdl_tlv_next (Ptr it) (Ptr tlv_view_zero) = Some (r, itp, vp)"
    and wf: "r = PARSE_OK \<longrightarrow> wf_iterator (deref itp)"
    using tlv_next_defined [OF less.prems] by blast
  show ?case
  proof (cases "r = PARSE_OK")
    case False
    then show ?thesis by (subst loop_unfold) (auto simp: nx)
  next
    case True
    obtain x where x: "step (deref vp) s = Some x" using step_defined by blast
    from tlv_next_OK_progress [OF nx [unfolded True]] less.prems
    have "it_length (deref itp) - it_offset (deref itp) < it_length it - it_offset it"
      by auto
    from less.hyps [OF this] wf True have "\<exists>r. loop (deref itp) s' = Some r" for s' by blast
    then show ?thesis
      by (subst loop_unfold) (auto simp: nx True x split: sum.splits)
  qed
qed

lemma loop_area:
  "tlvs_fit ts \<Longrightarrow>
     loop \<lparr>it_data = Ptr (pre @ tlv_area ts), it_length = length (pre @ tlv_area ts), it_offset = length pre\<rparr> s
       = tlv_fold step finish (tlv_views (length pre) ts) s"
proof (induction ts arbitrary: pre s)
  case Nil
  then show ?case
    by (subst loop_unfold) (simp add: espdrop_awdl_tlv_next_def Let_def)
next
  case (Cons tv ts)
  obtain t v where tv: "tv = (t, v)" by force
  let ?it = "\<lparr>it_data = Ptr (pre @ tlv_area (tv # ts)), it_length = length (pre @ tlv_area (tv # ts)),
     it_offset = length pre\<rparr>"
  have nx: "espdrop_awdl_tlv_next (Ptr ?it) (Ptr tlv_view_zero) =
     Some (PARSE_OK, Ptr (?it\<lparr>it_offset := length pre + 3 + length v\<rparr>),
       Ptr \<lparr>tv_type = t, tv_value = v, tv_length = of_nat (length v), tv_frame_offset = length pre\<rparr>)"
    by (rule tlv_next_enc [where post = "tlv_area ts"]) (use Cons.prems tv in \<open>auto simp: tlvs_fit_def\<close>)
  have rest: "loop (?it\<lparr>it_offset := length pre + 3 + length v\<rparr>)
      = tlv_fold step finish (tlv_views (length pre + 3 + length v) ts)"
    using Cons.IH [of "pre @ tlv_enc t v"] Cons.prems tv
    by (intro ext) (simp add: tlvs_fit_def add.assoc)
  show ?case
    by (subst loop_unfold, subst nx) (simp add: tv rest [simplified tv, simplified])
qed

lemma loop_area_start:
  "tlvs_fit ts \<Longrightarrow> loop \<lparr>it_data = Ptr (tlv_area ts), it_length = length (tlv_area ts), it_offset = 0\<rparr> s
     = tlv_fold step finish (tlv_views 0 ts) s"
  using loop_area [of ts "[]" s] by simp

end

section \<open>The value parsers never fault\<close>

lemma read_channels_spec:
  assumes "i \<le> n" and "n \<le> 16" and "6 + n * sz \<le> length v"
    and "1 \<le> sz" and "cs_encoding s = 3 \<longrightarrow> sz = 2"
    and "length (cs_channels s) = 16" and "length (cs_operating_classes s) = 16"
  shows "read_channels v sz i n s = Some (s\<lparr>
     cs_channels := take i (cs_channels s) @ map (\<lambda>k. v ! (6 + k * sz)) [i..<n] @ drop n (cs_channels s),
     cs_operating_classes := (if cs_encoding s = 3
        then take i (cs_operating_classes s) @ map (\<lambda>k. v ! (6 + k * sz + 1)) [i..<n]
               @ drop n (cs_operating_classes s)
        else cs_operating_classes s)\<rparr>)"
  using assms
proof (induction v sz i n s rule: read_channels.induct)
  case (1 v sz i n s)
  show ?case
  proof (cases "i < n")
    case False
    with "1.prems" show ?thesis by (subst read_channels.simps) simp
  next
    case True
    then have up: "[i..<n] = i # [Suc i..<n]" by (simp add: upt_conv_Cons)
    have "Suc i * sz \<le> n * sz" using True by (intro mult_le_mono1) simp
    then have room: "i * sz + sz \<le> length v - 6" "6 + i * sz < length v"
      using "1.prems"(3,4) by auto
    have c0: "rd (drop (6 + i * sz) v) 0 = Some (v ! (6 + i * sz))"
      using room by (simp add: rd_drop rd_in)
    let ?s1 = "s\<lparr>cs_channels := (cs_channels s)[i := v ! (6 + i * sz)]\<rparr>"
    have t: "take (Suc i) ((xs :: bytes)[i := x]) = take i xs @ [x]" "drop n (xs[i := x]) = drop n xs"
      if "length xs = 16" for xs x
      using that True "1.prems"(2) by (simp_all add: take_Suc_conv_app_nth)
    show ?thesis
    proof (cases "cs_encoding s = 3")
      case enc: True
      then have c1: "rd (drop (6 + i * sz) v) 1 = Some (v ! (6 + i * sz + 1))"
        using room "1.prems"(5) by (simp add: rd_drop rd_in)
      let ?s2 = "?s1\<lparr>cs_operating_classes := (cs_operating_classes ?s1)[i := v ! (6 + i * sz + 1)]\<rparr>"
      have step: "read_channels v sz i n s = read_channels v sz (Suc i) n ?s2"
        by (subst read_channels.simps) (simp add: True c0 c1 [simplified] enc Let_def)
      have "read_channels v sz (Suc i) n ?s2 = Some (?s2\<lparr>
         cs_channels := take (Suc i) (cs_channels ?s2) @ map (\<lambda>k. v ! (6 + k * sz)) [Suc i..<n] @ drop n (cs_channels ?s2),
         cs_operating_classes := take (Suc i) (cs_operating_classes ?s2) @ map (\<lambda>k. v ! (6 + k * sz + 1)) [Suc i..<n]
               @ drop n (cs_operating_classes ?s2)\<rparr>)"
        by (subst "1.IH"(1) [OF True refl c0 refl _ c1]) (use "1.prems" True enc in auto)
      then show ?thesis
        unfolding step up using enc "1.prems"(6,7) by (simp add: t)
    next
      case enc: False
      have step: "read_channels v sz i n s = read_channels v sz (Suc i) n ?s1"
        by (subst read_channels.simps) (simp add: True c0 enc Let_def)
      have "read_channels v sz (Suc i) n ?s1 = Some (?s1\<lparr>
         cs_channels := take (Suc i) (cs_channels ?s1) @ map (\<lambda>k. v ! (6 + k * sz)) [Suc i..<n] @ drop n (cs_channels ?s1)\<rparr>)"
        by (subst "1.IH"(2) [OF True refl c0 refl]) (use "1.prems" True enc in auto)
      then show ?thesis
        unfolding step up using enc "1.prems"(6,7) by (simp add: t)
    qed
  qed
qed

text \<open>What the channel sequence parser computes, without the loop.\<close>

definition channel_sequence_spec :: "bytes \<Rightarrow> parse_result + channel_sequence" where
  "channel_sequence_spec v =
     (if length v < 6 then Inl PARSE_TRUNCATED
      else let n = unat (v ! 0) + 1; sz = channel_encoding_size (v ! 1) in
      if n > 16 then Inl PARSE_INVALID_VALUE
      else if v ! 1 \<notin> {0, 1, 3} then Inl PARSE_UNSUPPORTED
      else if length v < 6 + n * sz then Inl PARSE_TRUNCATED
      else Inr \<lparr>cs_count = v ! 0 + 1, cs_encoding = v ! 1, cs_duplicate_count = v ! 2,
        cs_step_count = v ! 3, cs_fill_channel = ucast (v ! 4) OR push_bit 8 (ucast (v ! 5)),
        cs_channels = map (\<lambda>k. v ! (6 + k * sz)) [0..<n] @ replicate (16 - n) 0,
        cs_operating_classes = (if v ! 1 = 3 then map (\<lambda>k. v ! (6 + k * sz + 1)) [0..<n] @ replicate (16 - n) 0
                                else replicate 16 0)\<rparr>)"

lemma channel_encoding_size_simps:
  "channel_encoding_size e = 0 \<longleftrightarrow> e \<notin> {0, 1, 3}"
  "e = 3 \<Longrightarrow> channel_encoding_size e = 2"
  "channel_encoding_size e \<le> 2"
  by (auto simp: channel_encoding_size_def)

lemma channel_size_guard: "n \<le> 16 \<Longrightarrow> 1 \<le> sz \<Longrightarrow> sz \<le> 2 \<Longrightarrow> \<not> (SIZE_MAX - 6) div sz < n"
  by (cases "sz = 1 \<or> sz = 2") (auto simp: SIZE_MAX_def)

lemma parse_channel_sequence_eq:
  "espdrop_awdl_parse_channel_sequence (Ptr v) (Ptr s) =
     Some (case channel_sequence_spec v of Inl e \<Rightarrow> (e, Ptr s) | Inr q \<Rightarrow> (PARSE_OK, Ptr q))"
proof (cases "length v < 6")
  case True
  then show ?thesis
    by (simp add: espdrop_awdl_parse_channel_sequence_def channel_sequence_spec_def)
next
  case False
  let ?n = "unat (v ! 0) + 1" and ?sz = "channel_encoding_size (v ! 1)"
  have r: "rd v 0 = Some (v ! 0)" "rd v 1 = Some (v ! 1)" "rd v 2 = Some (v ! 2)" "rd v 3 = Some (v ! 3)"
    "read_le16 v 4 = Some (ucast (v ! 4) OR push_bit 8 (ucast (v ! 5)))"
    using False by (simp_all add: rd_below [of 6] read_le16_def)
  show ?thesis
  proof (cases "?n > 16 \<or> v ! 1 \<notin> {0, 1, 3} \<or> length v < 6 + ?n * ?sz")
    case True
    then show ?thesis
      using False r
      by (auto simp: espdrop_awdl_parse_channel_sequence_def channel_sequence_spec_def Let_def
          ESPDROP_AWDL_MAX_CHANNELS_def channel_encoding_size_simps)
  next
    case ok: False
    then have sz: "1 \<le> ?sz" "?sz \<le> 2" using channel_encoding_size_simps(1,3) [of "v ! 1"] by (metis less_one not_less, simp)
    define n sz where "n = ?n" and "sz = ?sz"
    define q where "q = channel_sequence_zero\<lparr>cs_count := v ! 0 + 1, cs_encoding := v ! 1,
        cs_duplicate_count := v ! 2, cs_step_count := v ! 3,
        cs_fill_channel := ucast (v ! 4) OR push_bit 8 (ucast (v ! 5))\<rparr>"
    note defs = n_def [symmetric] sz_def [symmetric]
    have n: "n \<le> 16" "n \<noteq> 0" "6 + n * sz \<le> length v" "v ! 1 \<in> {0, 1, 3}" "of_nat n = v ! 0 + 1"
      "\<not> 15 < unat (v ! 0)"
      using ok by (auto simp: n_def sz_def)
    have guard: "\<not> n > (SIZE_MAX - 6) div sz" "sz \<noteq> 0" using channel_size_guard n sz by (simp_all add: sz_def)
    have "read_channels v sz 0 n q = Some (q\<lparr>
        cs_channels := map (\<lambda>k. v ! (6 + k * sz)) [0..<n] @ replicate (16 - n) 0,
        cs_operating_classes := (if v ! 1 = 3 then map (\<lambda>k. v ! (6 + k * sz + 1)) [0..<n]
          @ replicate (16 - n) 0 else replicate 16 0)\<rparr>)" (is "_ = Some ?q'")
      using n sz by (subst read_channels_spec)
        (simp_all add: q_def channel_sequence_zero_def channel_encoding_size_simps(2) sz_def)
    then have "espdrop_awdl_parse_channel_sequence (Ptr v) (Ptr s) = Some (PARSE_OK, Ptr ?q')"
      using False n guard
      by (simp add: espdrop_awdl_parse_channel_sequence_def Let_def r [simplified] ESPDROP_AWDL_MAX_CHANNELS_def
          defs [simplified] q_def)
    moreover have "channel_sequence_spec v = Inr ?q'"
      using False n by (simp add: channel_sequence_spec_def Let_def defs [simplified] q_def channel_sequence_zero_def)
    ultimately show ?thesis by simp
  qed
qed

lemma parse_channel_sequence_defined:
  "\<exists>r q. espdrop_awdl_parse_channel_sequence (Ptr v) (Ptr s) = Some (r, Ptr q)"
  unfolding parse_channel_sequence_eq by (cases "channel_sequence_spec v") auto

lemma read_le16_below: "n \<le> length xs \<Longrightarrow> i + 1 < n \<Longrightarrow> \<exists>v. read_le16 xs i = Some v"
  by (rule le16.dec_defined) simp

lemma read_le32_below: "n \<le> length xs \<Longrightarrow> i + 3 < n \<Longrightarrow> \<exists>v. read_le32 xs i = Some v"
  by (rule le32.dec_defined) simp

lemma parse_version_defined:
  "\<exists>r q. espdrop_awdl_parse_version (Ptr v) (Ptr s) = Some (r, Ptr q)"
  by (cases "length v < 2") (simp_all add: espdrop_awdl_parse_version_def rd_below [of 2])

lemma parse_election_v1_defined:
  "\<exists>r q. espdrop_awdl_parse_election_v1 (Ptr v) (Ptr s) = Some (r, Ptr q)"
proof (cases "length v < 21")
  case False
  then have len: "21 \<le> length v" by simp
  obtain a b c where "read_le16 v 1 = Some a" "read_le32 v 11 = Some b" "read_le32 v 15 = Some c"
    using read_le16_below [OF len, of 1] read_le32_below [OF len, of 11] read_le32_below [OF len, of 15]
    by auto
  with len show ?thesis by (simp add: espdrop_awdl_parse_election_v1_def rd_below [OF len] rds_in)
qed (simp add: espdrop_awdl_parse_election_v1_def)

lemma parse_election_v2_defined:
  "\<exists>r q. espdrop_awdl_parse_election_v2 (Ptr v) (Ptr s) = Some (r, Ptr q)"
proof (cases "length v < 40")
  case False
  then have len: "40 \<le> length v" by simp
  obtain a b c d e where "read_le32 v 12 = Some a" "read_le32 v 16 = Some b" "read_le32 v 20 = Some c"
    "read_le32 v 24 = Some d" "read_le32 v 36 = Some e"
    using read_le32_below [OF len, of 12] read_le32_below [OF len, of 16] read_le32_below [OF len, of 20]
      read_le32_below [OF len, of 24] read_le32_below [OF len, of 36]
    by auto
  with len show ?thesis by (simp add: espdrop_awdl_parse_election_v2_def rds_in)
qed (simp add: espdrop_awdl_parse_election_v2_def)

lemma parse_sync_parameters_defined:
  "\<exists>r q. espdrop_awdl_parse_sync_parameters (Ptr v) (Ptr s) = Some (r, Ptr q)"
proof (cases "length v < 33")
  case False
  then have len: "33 \<le> length v" by simp
  obtain a b c d e f g where "read_le16 v 1 = Some a" "read_le16 v 5 = Some b" "read_le16 v 7 = Some c"
    "read_le16 v 9 = Some d" "read_le16 v 11 = Some e" "read_le16 v 13 = Some f" "read_le16 v 15 = Some g"
    using read_le16_below [OF len, of 1] read_le16_below [OF len, of 5] read_le16_below [OF len, of 7]
      read_le16_below [OF len, of 9] read_le16_below [OF len, of 11] read_le16_below [OF len, of 13]
      read_le16_below [OF len, of 15]
    by auto
  moreover obtain h i where "read_le16 v 29 = Some h" "read_le16 v 31 = Some i"
    using read_le16_below [OF len, of 29] read_le16_below [OF len, of 31] by auto
  moreover obtain r q where
    "espdrop_awdl_parse_channel_sequence (Ptr (drop 33 v)) (Ptr channel_sequence_zero) = Some (r, Ptr q)"
    using parse_channel_sequence_defined by blast
  ultimately show ?thesis
    using len by (auto simp: espdrop_awdl_parse_sync_parameters_def Let_def rd_below [OF len] rds_in)
qed (simp add: espdrop_awdl_parse_sync_parameters_def)

lemma mif_switch_defined: "\<exists>r m'. mif_switch v m = Some (r, m')"
proof -
  obtain r1 q1 where "espdrop_awdl_parse_sync_parameters (Ptr (tv_value v)) (Ptr (mif_sync m)) = Some (r1, Ptr q1)"
    using parse_sync_parameters_defined by blast
  moreover obtain r2 q2 where
    "espdrop_awdl_parse_channel_sequence (Ptr (tv_value v)) (Ptr (mif_channel_sequence m)) = Some (r2, Ptr q2)"
    using parse_channel_sequence_defined by blast
  moreover obtain r3 q3 where "espdrop_awdl_parse_election_v1 (Ptr (tv_value v)) (Ptr (mif_election_v1 m)) = Some (r3, Ptr q3)"
    using parse_election_v1_defined by blast
  moreover obtain r4 q4 where "espdrop_awdl_parse_election_v2 (Ptr (tv_value v)) (Ptr (mif_election_v2 m)) = Some (r4, Ptr q4)"
    using parse_election_v2_defined by blast
  moreover obtain r5 q5 where "espdrop_awdl_parse_version (Ptr (tv_value v)) (Ptr (mif_version m)) = Some (r5, Ptr q5)"
    using parse_version_defined by blast
  ultimately show ?thesis by (simp add: mif_switch_def)
qed

text \<open>One round of the MIF loop as a step of a TLV consumer.\<close>

definition mif_step :: "tlv_view \<Rightarrow> mif \<Rightarrow> ((parse_result \<times> mif) + mif) option" where
  "mif_step v m = do {
     (parsed, m') \<leftarrow> mif_switch v (m\<lparr>mif_tlv_count := mif_tlv_count m + 1\<rparr>);
     Some (if parsed \<noteq> PARSE_OK then Inl (parsed, m') else Inr m') }"

interpretation mif_tlvs: tlv_consumer parse_mif_loop mif_step "\<lambda>m. (PARSE_OK, m)" "\<lambda>r m. (r, m)"
proof unfold_locales
  show "parse_mif_loop it s = do {
      (r, it', v) \<leftarrow> espdrop_awdl_tlv_next (Ptr it) (Ptr tlv_view_zero);
      if r = PARSE_END then Some (PARSE_OK, s)
      else if r \<noteq> PARSE_OK then Some (r, s)
      else do {
        x \<leftarrow> mif_step (deref v) s;
        case x of Inl r' \<Rightarrow> Some r' | Inr s' \<Rightarrow> parse_mif_loop (deref it') s' } }" for it s
    by (subst parse_mif_loop.simps)
      (auto simp: mif_step_def split: Option.bind_splits)
  show "mif_step v s \<noteq> None" for v s
    using mif_switch_defined [of v "s\<lparr>mif_tlv_count := mif_tlv_count s + 1\<rparr>"] by (auto simp: mif_step_def)
qed

section \<open>Properties\<close>

lemma parse_mif_defined:
  assumes "wf_action a"
  shows "\<exists>r m'. espdrop_awdl_parse_mif (Ptr a) (Ptr m) = Some (r, Ptr m')"
proof (cases "act_subtype a = ESPDROP_AWDL_ACTION_MIF")
  case True
  from assms obtain d where d: "act_tlv_data a = Ptr d" "act_tlv_length a = length d"
    by (cases "act_tlv_data a") (auto simp: wf_action_def)
  have "wf_iterator \<lparr>it_data = Ptr d, it_length = length d, it_offset = 0\<rparr>"
    by (simp add: wf_iterator_def)
  from mif_tlvs.loop_defined [OF this, of mif_zero] True d show ?thesis
    by (auto simp: espdrop_awdl_parse_mif_def espdrop_awdl_tlv_iterator_init_def)
qed (simp add: espdrop_awdl_parse_mif_def)

text \<open>
  C7. Receiving a MIF is total and memory-safe for every byte string the radio can
  deliver: decoding the action frame and parsing its TLV area always terminates, never
  reads outside the received frame (no read is \<open>None\<close>), and returns a result code.
\<close>

theorem receive_mif_total:
  "\<exists>r m'. do {
     (ok, a) \<leftarrow> espdrop_awdl_decode_action (Ptr f) (Ptr a0);
     if ok then espdrop_awdl_parse_mif a (Ptr m) else Some (PARSE_INVALID_ARGUMENT, Ptr m) } = Some (r, Ptr m')"
proof -
  obtain ok ap where d: "espdrop_awdl_decode_action (Ptr f) (Ptr a0) = Some (ok, ap)" and
    same: "\<not> ok \<longrightarrow> ap = Ptr a0"
    using decode_action_defined by blast
  show ?thesis
  proof (cases ok)
    case False
    then show ?thesis by (simp add: d)
  next
    case True
    from d have "ap \<noteq> NULL"
      by (auto simp: espdrop_awdl_decode_action_def Let_def Option.bind_eq_Some_conv split: if_splits)
    then obtain a where a: "ap = Ptr a" by (cases ap) auto
    from decode_action_sound(1) [of f a0 a] d True a have "wf_action a" by simp
    from parse_mif_defined [OF this] show ?thesis by (simp add: d True a)
  qed
qed

text \<open>
  C8. The MIF parser visits exactly the TLVs that were encoded, once each and in order:
  on the encoding of a list of TLVs its result is the fold of the per-TLV switch over
  that list, starting from the zeroed MIF, stopping at the first value that does not
  parse, and ending with \<open>PARSE_OK\<close> otherwise.
\<close>

theorem parse_mif_visits_all_tlvs:
  assumes "tlvs_fit ts" and "act_subtype a = ESPDROP_AWDL_ACTION_MIF"
    and "act_tlv_data a = Ptr (tlv_area ts)" and "act_tlv_length a = length (tlv_area ts)"
  shows "espdrop_awdl_parse_mif (Ptr a) (Ptr m) =
     map_option (\<lambda>(r, m'). (r, Ptr m')) (tlv_fold mif_step (\<lambda>m. (PARSE_OK, m)) (tlv_views 0 ts) mif_zero)"
  using assms
  by (simp add: espdrop_awdl_parse_mif_def espdrop_awdl_tlv_iterator_init_def Let_def
      mif_tlvs.loop_area_start Option.map_conv_bind_option case_prod_beta' comp_def)

theorem parse_mif_visits_all_tlvs_witness:
  "\<exists>m'. espdrop_awdl_parse_mif
       (Ptr \<lparr>act_source = replicate 6 1, act_version = 0x10, act_subtype = ESPDROP_AWDL_ACTION_MIF,
         act_phy_tx = 0, act_target_tx = 0, act_tlv_data = Ptr (tlv_area [(21, [0x34, 2]), (99, [1])]),
         act_tlv_length = length (tlv_area [(21, [0x34, 2]), (99, [1])])\<rparr>) (Ptr mif_zero) = Some (PARSE_OK, Ptr m') \<and>
     mif_tlv_count m' = 2 \<and> espdrop_awdl_mif_peer_valid (Ptr m')"
proof -
  let ?ts = "[(21, [0x34, 2]), (99, [1])] :: (byte \<times> bytes) list"
  let ?a = "\<lparr>act_source = replicate 6 1, act_version = 0x10, act_subtype = ESPDROP_AWDL_ACTION_MIF,
         act_phy_tx = 0, act_target_tx = 0, act_tlv_data = Ptr (tlv_area ?ts),
         act_tlv_length = length (tlv_area ?ts)\<rparr>"
  have "tlvs_fit ?ts" by (simp add: tlvs_fit_def)
  then have "espdrop_awdl_parse_mif (Ptr ?a) (Ptr mif_zero) =
     map_option (\<lambda>(r, m'). (r, Ptr m')) (tlv_fold mif_step (\<lambda>m. (PARSE_OK, m)) (tlv_views 0 ?ts) mif_zero)"
    by (rule parse_mif_visits_all_tlvs) simp_all
  then show ?thesis
    by (simp add: mif_step_def mif_switch_def espdrop_awdl_parse_version_def mif_zero_def
        espdrop_awdl_mif_peer_valid_def)
qed

text \<open>
  The channel sequence parser computes exactly the declarative decoding on every
  input: fewer than six bytes or a short list is \<open>TRUNCATED\<close>, more than sixteen channels
  \<open>INVALID_VALUE\<close>, an encoding other than 0, 1 or 3 \<open>UNSUPPORTED\<close>, each leaving the
  output unchanged; otherwise channel \<open>k\<close> is the byte at \<open>6 + k * size\<close>, the operating class
  (encoding 3) the byte after it, and the unused slots of the 16-entry arrays are zero.
\<close>

theorem parse_channel_sequence_correct:
  "espdrop_awdl_parse_channel_sequence (Ptr v) (Ptr s) =
     Some (case channel_sequence_spec v of Inl e \<Rightarrow> (e, Ptr s) | Inr q \<Rightarrow> (PARSE_OK, Ptr q))"
  by (rule parse_channel_sequence_eq)

end
