(* ===== verification/Tables.thy ===== *)
theory Tables
  imports Prelude
begin

text \<open>
  The contract of a bounded table of peers, which the election and the peer table
  both provide: entries with distinct keys in a fixed-size array, lookup by key,
  expiry of stale entries, and insertion-or-update. The laws are stated over an
  abstraction \<open>entries\<close> of the array to the list of its used entries.
\<close>

locale keyed_table =
  fixes entries :: "'t \<Rightarrow> 'e list"
    and key :: "'e \<Rightarrow> 'k"
    and invar :: "'t \<Rightarrow> bool"
    and capacity :: nat
    and okey :: "'k \<Rightarrow> bool"
    and lookup :: "'t \<Rightarrow> 'k \<Rightarrow> 'e option"
  assumes keys_distinct: "invar t \<Longrightarrow> distinct (map key (entries t))"
    and bounded: "invar t \<Longrightarrow> length (entries t) \<le> capacity"
    and lookup_entries: "invar t \<Longrightarrow> okey k \<Longrightarrow> lookup t k = find (\<lambda>e. key e = k) (entries t)"
begin

lemma lookup_Some_iff:
  assumes "invar t" and "okey k"
  shows "lookup t k = Some e \<longleftrightarrow> e \<in> set (entries t) \<and> key e = k"
proof
  assume "lookup t k = Some e"
  with assms show "e \<in> set (entries t) \<and> key e = k"
    by (auto simp: lookup_entries find_Some_iff)
next
  assume e: "e \<in> set (entries t) \<and> key e = k"
  then obtain d where d: "find (\<lambda>e. key e = k) (entries t) = Some d"
    by (cases "find (\<lambda>e. key e = k) (entries t)") (auto simp: find_None_iff)
  then have "d \<in> set (entries t)" "key d = k"
    by (auto simp: find_Some_iff)
  with e keys_distinct [OF assms(1)] have "d = e"
    by (auto simp: distinct_map inj_on_def)
  with d assms show "lookup t k = Some e" by (simp add: lookup_entries)
qed

lemma lookup_None_iff: "invar t \<Longrightarrow> okey k \<Longrightarrow> lookup t k = None \<longleftrightarrow> k \<notin> key ` set (entries t)"
  by (auto simp: lookup_entries find_None_iff)

end

locale expiring_table = keyed_table +
  fixes fresh :: "'t \<Rightarrow> 'c \<Rightarrow> 'e \<Rightarrow> bool"
    and expire :: "'t \<Rightarrow> 'c \<Rightarrow> 't"
  assumes expire_invar: "invar t \<Longrightarrow> invar (expire t c)"
    and expire_entries: "invar t \<Longrightarrow> entries (expire t c) = filter (fresh t c) (entries t)"
begin

lemma lookup_expire:
  assumes "invar t" and "okey k"
  shows "lookup (expire t c) k =
     (case lookup t k of None \<Rightarrow> None | Some e \<Rightarrow> if fresh t c e then Some e else None)"
proof (cases "lookup t k")
  case None
  with assms have "k \<notin> key ` set (entries (expire t c))"
    by (auto simp: lookup_None_iff expire_entries)
  then have "lookup (expire t c) k = None" using assms by (simp add: lookup_None_iff expire_invar)
  with None show ?thesis by simp
next
  case (Some e)
  with assms have e: "e \<in> set (entries t)" "key e = k" by (simp_all add: lookup_Some_iff)
  show ?thesis
  proof (cases "fresh t c e")
    case True
    with e assms have "lookup (expire t c) k = Some e"
      by (simp add: lookup_Some_iff expire_invar expire_entries)
    with Some True show ?thesis by simp
  next
    case False
    have "d = e" if "d \<in> set (entries t)" "key d = k" for d
      using that e keys_distinct [OF assms(1)] by (auto simp: distinct_map inj_on_def)
    with False have "k \<notin> key ` set (entries (expire t c))"
      using assms by (auto simp: expire_entries)
    then have "lookup (expire t c) k = None"
      using assms by (simp add: lookup_None_iff expire_invar)
    with Some False show ?thesis by simp
  qed
qed

lemma expire_length: "invar t \<Longrightarrow> length (entries (expire t c)) \<le> length (entries t)"
  by (simp add: expire_entries)

end

locale upserting_table = keyed_table +
  fixes upsert :: "'t \<Rightarrow> 'o \<Rightarrow> 't option"
    and obs_key :: "'o \<Rightarrow> 'k"
    and merge :: "'o \<Rightarrow> 'e option \<Rightarrow> 'e"
    and admissible :: "'o \<Rightarrow> bool"
  assumes upsert_invar: "invar t \<Longrightarrow> admissible ob \<Longrightarrow> upsert t ob = Some t' \<Longrightarrow> invar t'"
    and upsert_hit: "invar t \<Longrightarrow> admissible ob \<Longrightarrow> lookup t (obs_key ob) = Some e \<Longrightarrow>
        \<exists>t' xs ys. upsert t ob = Some t' \<and> entries t = xs @ e # ys \<and> entries t' = xs @ merge ob (Some e) # ys"
    and upsert_miss: "invar t \<Longrightarrow> admissible ob \<Longrightarrow> lookup t (obs_key ob) = None \<Longrightarrow>
        length (entries t) < capacity \<Longrightarrow>
        \<exists>t'. upsert t ob = Some t' \<and> entries t' = entries t @ [merge ob None]"
    and upsert_full: "invar t \<Longrightarrow> admissible ob \<Longrightarrow> lookup t (obs_key ob) = None \<Longrightarrow>
        length (entries t) = capacity \<Longrightarrow> upsert t ob = None"
    and obs_key_ok: "admissible ob \<Longrightarrow> okey (obs_key ob)"
    and merge_key: "admissible ob \<Longrightarrow> (\<And>e'. eo = Some e' \<Longrightarrow> key e' = obs_key ob) \<Longrightarrow> key (merge ob eo) = obs_key ob"
begin

text \<open>An accepted observation is a map update at its key, and nothing else changes.\<close>

lemma lookup_upsert:
  assumes inv: "invar t" and adm: "admissible ob" and up: "upsert t ob = Some t'" and ok: "okey k"
  shows "lookup t' k = ((lookup t)(obs_key ob \<mapsto> merge ob (lookup t (obs_key ob)))) k"
proof -
  note oko = obs_key_ok [OF adm]
  have inv': "invar t'" using upsert_invar [OF inv adm up] .
  show "lookup t' k = ((lookup t)(obs_key ob \<mapsto> merge ob (lookup t (obs_key ob)))) k"
  proof (cases "lookup t (obs_key ob)")
    case (Some e)
    with inv oko have ke: "key e = obs_key ob" by (simp add: lookup_Some_iff)
    then have km: "key (merge ob (Some e)) = obs_key ob" using merge_key [OF adm] by blast
    obtain xs ys where e: "entries t = xs @ e # ys" "entries t' = xs @ merge ob (Some e) # ys"
      using upsert_hit [OF inv adm Some] up by auto
    show ?thesis
    proof (cases "k = obs_key ob")
      case True
      then show ?thesis using Some km e inv' oko by (simp add: lookup_Some_iff)
    next
      case False
      have "find (\<lambda>e. key e = k) (xs @ a # ys) = find (\<lambda>e. key e = k) (xs @ b # ys)"
        if "key a \<noteq> k" "key b \<noteq> k" for a b
        using that by (induction xs) auto
      with False ke km e inv inv' ok show ?thesis by (simp add: lookup_entries)
    qed
  next
    case None
    then have nin: "obs_key ob \<notin> key ` set (entries t)" using inv oko by (simp add: lookup_None_iff)
    have "length (entries t) \<noteq> capacity" using upsert_full [OF inv adm None] up by auto
    with bounded [OF inv] have "length (entries t) < capacity" by simp
    then have e: "entries t' = entries t @ [merge ob None]"
      using upsert_miss [OF inv adm None] up by auto
    have km: "key (merge ob None) = obs_key ob" using merge_key [OF adm, of None] by simp
    show ?thesis
    proof (cases "k = obs_key ob")
      case True
      then show ?thesis using None km e inv' oko by (simp add: lookup_Some_iff)
    next
      case False
      have "find (\<lambda>e. key e = k) (xs @ [a]) = find (\<lambda>e. key e = k) xs" if "key a \<noteq> k" for a xs
        using that by (induction xs) auto
      with False km e inv inv' ok show ?thesis by (simp add: lookup_entries)
    qed
  qed
qed

lemma upsert_found: "invar t \<Longrightarrow> admissible ob \<Longrightarrow> upsert t ob = Some t' \<Longrightarrow> lookup t' (obs_key ob) \<noteq> None"
  by (simp add: lookup_upsert obs_key_ok)

lemma upsert_None_iff:
  assumes "invar t" and "admissible ob"
  shows "upsert t ob = None \<longleftrightarrow> lookup t (obs_key ob) = None \<and> length (entries t) = capacity"
proof (cases "lookup t (obs_key ob)")
  case None
  show ?thesis
  proof (cases "length (entries t) < capacity")
    case True
    then show ?thesis using upsert_miss [OF assms None] by auto
  next
    case False
    with bounded [OF assms(1)] have "length (entries t) = capacity" by simp
    then show ?thesis using None upsert_full [OF assms None] by simp
  qed
next
  case (Some e)
  then show ?thesis using upsert_hit [OF assms Some] by auto
qed

end

end
