(* ===== verification/Awdl_Election.thy ===== *)
theory Awdl_Election
  imports Awdl_Tlv Tables
begin

text \<open>
  AWDL master election (\<^verbatim>\<open>core/src/awdl_election.c\<close>): the table of recently heard
  peers, expiry, and the election that picks the peer to synchronise with. The
  comparison of the code is shown to be a linear order, the election loop to compute
  its maximum, and every operation to keep the table and the elected state consistent.
\<close>

section \<open>Data\<close>

definition ESPDROP_AWDL_ELECTION_MAX_PEERS :: nat where
  "ESPDROP_AWDL_ELECTION_MAX_PEERS = 16"

definition ESPDROP_AWDL_ELECTION_TREE_MAX_HEIGHT :: u32 where
  "ESPDROP_AWDL_ELECTION_TREE_MAX_HEIGHT = 10"

definition ESPDROP_AWDL_ELECTION_METRIC_INITIAL :: u32 where
  "ESPDROP_AWDL_ELECTION_METRIC_INITIAL = 60"

definition ESPDROP_AWDL_ELECTION_COUNTER_INITIAL :: u32 where
  "ESPDROP_AWDL_ELECTION_COUNTER_INITIAL = 0"

definition ESPDROP_AWDL_ELECTION_PEER_TIMEOUT_US :: u64 where
  "ESPDROP_AWDL_ELECTION_PEER_TIMEOUT_US = 2000000"

record election_state =
  es_self :: mac
  es_master :: mac
  es_sync_master :: mac
  es_distance_to_master :: u32
  es_master_metric :: u32
  es_self_metric :: u32
  es_master_counter :: u32
  es_self_counter :: u32

record election_peer =
  ep_valid :: bool
  ep_address :: mac
  ep_master :: mac
  ep_sync_master :: mac
  ep_last_seen_us :: u64
  ep_distance_to_master :: u32
  ep_master_metric :: u32
  ep_self_metric :: u32
  ep_master_counter :: u32
  ep_self_counter :: u32

record election =
  el_state :: election_state
  el_peers :: "election_peer list"
  el_peer_count :: nat
  el_peer_timeout_us :: u64

definition election_peer_zero :: election_peer where
  "election_peer_zero = \<lparr>ep_valid = False, ep_address = replicate 6 0, ep_master = replicate 6 0,
     ep_sync_master = replicate 6 0, ep_last_seen_us = 0, ep_distance_to_master = 0,
     ep_master_metric = 0, ep_self_metric = 0, ep_master_counter = 0, ep_self_counter = 0\<rparr>"

section \<open>Operations\<close>

text \<open>
  The code compares the two structures with \<^verbatim>\<open>memcmp\<close>; the two padding bytes after the three
  addresses are zero from \<^verbatim>\<open>memset\<close> on and never written.
\<close>

definition state_equal :: "election_state \<Rightarrow> election_state \<Rightarrow> bool" where
  [simp]: "state_equal left right \<longleftrightarrow> left = right"

definition reset_to_self :: "election_state \<Rightarrow> election_state" where
  "reset_to_self s = s\<lparr>es_master := es_self s, es_sync_master := es_self s,
     es_distance_to_master := 0, es_master_metric := es_self_metric s,
     es_master_counter := es_self_counter s\<rparr>"

definition compare_u32 :: "u32 \<Rightarrow> u32 \<Rightarrow> int" where
  "compare_u32 left right = (if left < right then -1 else if left > right then 1 else 0)"

definition compare_peer_to_candidate :: "election_peer \<Rightarrow> election_state \<Rightarrow> election_peer ptr \<Rightarrow> int" where
  "compare_peer_to_candidate peer state selected =
     (let candidate_counter = (if selected = NULL then es_master_counter state else ep_master_counter (deref selected));
          candidate_metric = (if selected = NULL then es_master_metric state else ep_master_metric (deref selected));
          candidate_distance = (if selected = NULL then es_distance_to_master state
                                else ep_distance_to_master (deref selected));
          candidate_address = (if selected = NULL then es_self state else ep_address (deref selected));
          comparison0 = compare_u32 (ep_master_counter peer) candidate_counter;
          comparison = (if comparison0 = 0 then compare_u32 (ep_master_metric peer) candidate_metric
                        else comparison0) in
      if comparison \<noteq> 0 then comparison
      else if ep_distance_to_master peer < candidate_distance then 1
      else if ep_distance_to_master peer > candidate_distance then -1
      else memcmp (ep_address peer) candidate_address 6)"

text \<open>The loop over the used peers; \<open>selected\<close> is \<^verbatim>\<open>NULL\<close> while self is the candidate.\<close>

fun run_election_loop :: "election_state \<Rightarrow> election_peer ptr \<Rightarrow> election_peer list \<Rightarrow> election_peer ptr" where
  "run_election_loop state selected [] = selected"
| "run_election_loop state selected (peer # rest) =
     (if \<not> ep_valid peer \<or>
         ep_distance_to_master peer \<ge> ESPDROP_AWDL_ELECTION_TREE_MAX_HEIGHT \<or>
         memcmp (ep_sync_master peer) (es_self state) 6 = 0
      then run_election_loop state selected rest
      else if compare_peer_to_candidate peer state selected \<le> 0
      then run_election_loop state selected rest
      else run_election_loop state (Ptr peer) rest)"

definition run_election :: "election \<Rightarrow> bool \<times> election" where
  "run_election e =
     (let previous = el_state e;
          state = reset_to_self (el_state e);
          selected = run_election_loop state NULL (take (el_peer_count e) (el_peers e));
          state' = (if selected \<noteq> NULL
                    then state\<lparr>es_master := ep_master (deref selected),
                               es_sync_master := ep_address (deref selected),
                               es_distance_to_master := ep_distance_to_master (deref selected) + 1,
                               es_master_metric := ep_master_metric (deref selected),
                               es_master_counter := ep_master_counter (deref selected)\<rparr>
                    else state) in
      (\<not> state_equal previous state', e\<lparr>el_state := state'\<rparr>))"

definition espdrop_awdl_election_init :: "election ptr \<Rightarrow> mac ptr \<Rightarrow> bool \<times> election ptr" where
  "espdrop_awdl_election_init ep selfp =
     (if ep = NULL \<or> selfp = NULL \<or> mac_is_zero (deref selfp) then (False, ep)
      else (True, Ptr \<lparr>
        el_state = reset_to_self \<lparr>
          es_self = deref selfp, es_master = replicate 6 0, es_sync_master = replicate 6 0,
          es_distance_to_master = 0, es_master_metric = 0,
          es_self_metric = ESPDROP_AWDL_ELECTION_METRIC_INITIAL, es_master_counter = 0,
          es_self_counter = ESPDROP_AWDL_ELECTION_COUNTER_INITIAL\<rparr>,
        el_peers = replicate ESPDROP_AWDL_ELECTION_MAX_PEERS election_peer_zero,
        el_peer_count = 0,
        el_peer_timeout_us = ESPDROP_AWDL_ELECTION_PEER_TIMEOUT_US\<rparr>))"

definition espdrop_awdl_election_set_peer_timeout :: "election ptr \<Rightarrow> u64 \<Rightarrow> bool \<times> election ptr" where
  "espdrop_awdl_election_set_peer_timeout ep timeout_us =
     (if ep = NULL \<or> timeout_us = 0 then (False, ep)
      else (True, Ptr ((deref ep)\<lparr>el_peer_timeout_us := timeout_us\<rparr>)))"

text \<open>The returned pointer is the index of the entry.\<close>

definition find_peer :: "election \<Rightarrow> mac \<Rightarrow> nat option" where
  "find_peer e address =
     find_index (\<lambda>p. memcmp (ep_address p) address 6 = 0) (take (el_peer_count e) (el_peers e))"

definition espdrop_awdl_election_touch :: "election ptr \<Rightarrow> mac ptr \<Rightarrow> u64 \<Rightarrow> bool \<times> election ptr" where
  "espdrop_awdl_election_touch ep sourcep observed_at_us =
     (if ep = NULL \<or> sourcep = NULL then (False, ep)
      else let e = deref ep in
      case find_peer e (deref sourcep) of
        None \<Rightarrow> (False, ep)
      | Some i \<Rightarrow>
          if \<not> ep_valid (el_peers e ! i) then (False, ep)
          else (True, Ptr (e\<lparr>el_peers := (el_peers e)[i := (el_peers e ! i)\<lparr>ep_last_seen_us := observed_at_us\<rparr>]\<rparr>)))"

definition election_fresh :: "u64 \<Rightarrow> u64 \<Rightarrow> election_peer \<Rightarrow> bool" where
  "election_fresh now_us timeout_us peer \<longleftrightarrow>
     ep_last_seen_us peer > now_us \<or> now_us - ep_last_seen_us peer \<le> timeout_us"

definition espdrop_awdl_election_expire ::
  "election ptr \<Rightarrow> u64 \<Rightarrow> bool ptr \<Rightarrow> nat \<times> election ptr \<times> bool ptr" where
  "espdrop_awdl_election_expire ep now_us changed =
     (let changed0 = (if changed \<noteq> NULL then Ptr False else NULL) in
      if ep = NULL then (0, ep, changed0)
      else
        let e = deref ep;
            previous_count = el_peer_count e;
            (peers, write_index) = compact (election_fresh now_us (el_peer_timeout_us e)) election_peer_zero
                                     (el_peers e) previous_count;
            (state_changed, e') = run_election (e\<lparr>el_peers := peers, el_peer_count := write_index\<rparr>) in
        (previous_count - write_index, Ptr e', if changed \<noteq> NULL then Ptr state_changed else NULL))"

text \<open>The part of \<open>espdrop_awdl_election_observe\<close> that claims a slot and fills it in.\<close>

definition observed_peer :: "election_v2 \<Rightarrow> u64 \<Rightarrow> election_peer \<Rightarrow> election_peer" where
  "observed_peer peer_state observed_at_us peer = peer\<lparr>
     ep_valid := True,
     ep_master := e2_master peer_state,
     ep_sync_master := e2_sync_master peer_state,
     ep_last_seen_us := observed_at_us,
     ep_distance_to_master := e2_distance_to_master peer_state,
     ep_master_metric := e2_master_metric peer_state,
     ep_self_metric := e2_self_metric peer_state,
     ep_master_counter := e2_master_counter peer_state,
     ep_self_counter := e2_self_counter peer_state\<rparr>"

definition store_observation :: "election \<Rightarrow> mac \<Rightarrow> election_v2 \<Rightarrow> u64 \<Rightarrow> election option" where
  "store_observation e source peer_state observed_at_us =
     (case find_peer e source of
        Some i \<Rightarrow> Some (e\<lparr>el_peers := (el_peers e)[i := observed_peer peer_state observed_at_us (el_peers e ! i)]\<rparr>)
      | None \<Rightarrow>
          if el_peer_count e \<ge> ESPDROP_AWDL_ELECTION_MAX_PEERS then None
          else Some (e\<lparr>el_peer_count := el_peer_count e + 1,
                       el_peers := (el_peers e)[el_peer_count e :=
                         observed_peer peer_state observed_at_us (election_peer_zero\<lparr>ep_address := source\<rparr>)]\<rparr>))"

definition espdrop_awdl_election_observe ::
  "election ptr \<Rightarrow> mac ptr \<Rightarrow> election_v2 ptr \<Rightarrow> u64 \<Rightarrow> bool ptr \<Rightarrow> bool \<times> election ptr \<times> bool ptr" where
  "espdrop_awdl_election_observe ep sourcep peer_statep observed_at_us changed =
     (let changed0 = (if changed \<noteq> NULL then Ptr False else NULL);
          source = deref sourcep;
          peer_state = deref peer_statep in
      if ep = NULL \<or> sourcep = NULL \<or> peer_statep = NULL \<or> mac_is_zero source \<or>
         mac_is_zero (e2_master peer_state) \<or> mac_is_zero (e2_sync_master peer_state) \<or>
         memcmp source (es_self (el_state (deref ep))) 6 = 0
      then (False, ep, changed0)
      else
        let (_, ep1, expired_changed) = espdrop_awdl_election_expire ep observed_at_us (Ptr False);
            e1 = deref ep1 in
        case store_observation e1 source peer_state observed_at_us of
          None \<Rightarrow> (False, Ptr e1, changed0)
        | Some e2 \<Rightarrow>
            let (observed_changed, e3) = run_election e2 in
            (True, Ptr e3,
             if changed \<noteq> NULL then Ptr (deref expired_changed \<or> observed_changed) else NULL))"

definition espdrop_awdl_election_state :: "election ptr \<Rightarrow> election_state ptr" where
  "espdrop_awdl_election_state ep = (if ep = NULL then NULL else Ptr (el_state (deref ep)))"

definition espdrop_awdl_election_sync_peer :: "election ptr \<Rightarrow> election_peer ptr" where
  "espdrop_awdl_election_sync_peer ep =
     (let e = deref ep in
      if ep = NULL \<or> memcmp (es_sync_master (el_state e)) (es_self (el_state e)) 6 = 0 then NULL
      else case find_index (\<lambda>p. ep_valid p \<and> memcmp (ep_address p) (es_sync_master (el_state e)) 6 = 0)
                  (take (el_peer_count e) (el_peers e)) of
             None \<Rightarrow> NULL
           | Some i \<Rightarrow> Ptr (el_peers e ! i))"

section \<open>The candidate order\<close>

text \<open>
  Larger master counter first, then larger metric, then smaller distance to the
  master, then larger address: the order \<open>compare_peer_to_candidate\<close> decides.
\<close>

datatype candidate = Candidate (cand_counter: u32) (cand_metric: u32) (cand_distance: u32) (cand_address: mac)

instantiation candidate :: linorder
begin

definition less_candidate :: "candidate \<Rightarrow> candidate \<Rightarrow> bool" where
  "less_candidate a b \<longleftrightarrow> cand_counter a < cand_counter b \<or> cand_counter a = cand_counter b \<and>
     (cand_metric a < cand_metric b \<or> cand_metric a = cand_metric b \<and>
       (cand_distance b < cand_distance a \<or> cand_distance a = cand_distance b \<and> cand_address a < cand_address b))"

definition less_eq_candidate :: "candidate \<Rightarrow> candidate \<Rightarrow> bool" where
  "less_eq_candidate a b \<longleftrightarrow> (a :: candidate) < b \<or> a = b"

instance
proof
  fix a b c :: candidate
  show "a < b \<longleftrightarrow> a \<le> b \<and> \<not> b \<le> a"
    by (auto simp: less_candidate_def less_eq_candidate_def)
  show "a \<le> a" by (simp add: less_eq_candidate_def)
  show "a \<le> b \<Longrightarrow> b \<le> c \<Longrightarrow> a \<le> c"
    by (auto simp: less_candidate_def less_eq_candidate_def)
  show "a \<le> b \<Longrightarrow> b \<le> a \<Longrightarrow> a = b"
    by (auto simp: less_candidate_def less_eq_candidate_def)
  show "a \<le> b \<or> b \<le> a"
    by (cases a; cases b) (auto simp: less_candidate_def less_eq_candidate_def not_less_iff_gr_or_eq)
qed

end

definition peer_candidate :: "election_peer \<Rightarrow> candidate" where
  "peer_candidate p = Candidate (ep_master_counter p) (ep_master_metric p) (ep_distance_to_master p) (ep_address p)"

definition self_candidate :: "election_state \<Rightarrow> candidate" where
  "self_candidate s = Candidate (es_self_counter s) (es_self_metric s) 0 (es_self s)"

lemma compare_peer_to_candidate_pos:
  assumes "length (ep_address p) = 6" and "length (es_self s) = 6"
    and "sel \<noteq> NULL \<longrightarrow> length (ep_address (deref sel)) = 6"
  shows "0 < compare_peer_to_candidate p (reset_to_self s) sel \<longleftrightarrow>
     (case sel of NULL \<Rightarrow> self_candidate s | Ptr q \<Rightarrow> peer_candidate q) < peer_candidate p"
  using assms
  by (cases sel)
    (auto simp: compare_peer_to_candidate_def Let_def compare_u32_def reset_to_self_def less_candidate_def
      self_candidate_def peer_candidate_def memcmp_pos word_gt_0)

section \<open>What the election computes\<close>

definition used_peers :: "election \<Rightarrow> election_peer list" where
  "used_peers e = take (el_peer_count e) (el_peers e)"

definition eligible :: "election_state \<Rightarrow> election_peer \<Rightarrow> bool" where
  "eligible s p \<longleftrightarrow> ep_distance_to_master p < ESPDROP_AWDL_ELECTION_TREE_MAX_HEIGHT \<and> ep_sync_master p \<noteq> es_self s"

definition adopt :: "election_state \<Rightarrow> election_peer \<Rightarrow> election_state" where
  "adopt s p = s\<lparr>es_master := ep_master p, es_sync_master := ep_address p,
     es_distance_to_master := ep_distance_to_master p + 1,
     es_master_metric := ep_master_metric p, es_master_counter := ep_master_counter p\<rparr>"

definition wins :: "election_state \<Rightarrow> election_peer list \<Rightarrow> election_peer \<Rightarrow> bool" where
  "wins s ps p \<longleftrightarrow> p \<in> set ps \<and> eligible s p \<and> self_candidate s < peer_candidate p \<and>
     (\<forall>q\<in>set ps. eligible s q \<longrightarrow> peer_candidate q \<le> peer_candidate p)"

definition elects :: "election_state \<Rightarrow> election_peer list \<Rightarrow> election_state \<Rightarrow> bool" where
  "elects s ps s' \<longleftrightarrow>
     (\<exists>p. wins s ps p \<and> s' = adopt s p) \<or>
     ((\<forall>q\<in>set ps. eligible s q \<longrightarrow> peer_candidate q \<le> self_candidate s) \<and> s' = reset_to_self s)"

definition wf_peer :: "election_state \<Rightarrow> election_peer \<Rightarrow> bool" where
  "wf_peer s p \<longleftrightarrow> ep_valid p \<and> length (ep_address p) = 6 \<and> length (ep_master p) = 6 \<and>
     length (ep_sync_master p) = 6 \<and> ep_address p \<noteq> es_self s"

definition wf_election :: "election \<Rightarrow> bool" where
  "wf_election e \<longleftrightarrow>
     length (el_peers e) = ESPDROP_AWDL_ELECTION_MAX_PEERS \<and>
     el_peer_count e \<le> ESPDROP_AWDL_ELECTION_MAX_PEERS \<and>
     length (es_self (el_state e)) = 6 \<and>
     distinct (map ep_address (used_peers e)) \<and>
     (\<forall>p\<in>set (used_peers e). wf_peer (el_state e) p)"

definition best_of :: "election_state \<Rightarrow> election_peer ptr \<Rightarrow> candidate" where
  "best_of s sel = (case sel of NULL \<Rightarrow> self_candidate s | Ptr q \<Rightarrow> peer_candidate q)"

text \<open>The loop keeps the largest candidate seen so far.\<close>

lemma run_election_loop_max:
  assumes "\<forall>p\<in>set ps. wf_peer s p" and "length (es_self s) = 6"
    and "sel \<noteq> NULL \<longrightarrow> length (ep_address (deref sel)) = 6"
    and "run_election_loop (reset_to_self s) sel ps = r"
  shows "best_of s sel \<le> best_of s r \<and>
     (r = sel \<or> (\<exists>p\<in>set ps. eligible s p \<and> r = Ptr p \<and> best_of s sel < peer_candidate p)) \<and>
     (\<forall>q\<in>set ps. eligible s q \<longrightarrow> peer_candidate q \<le> best_of s r)"
  using assms
proof (induction ps arbitrary: sel)
  case Nil
  then show ?case by simp
next
  case (Cons p ps)
  have p: "wf_peer s p" using Cons.prems by simp
  have self [simp]: "es_self (reset_to_self s) = es_self s" by (simp add: reset_to_self_def)
  have skip: "(\<not> ep_valid p \<or> ESPDROP_AWDL_ELECTION_TREE_MAX_HEIGHT \<le> ep_distance_to_master p \<or>
       memcmp (ep_sync_master p) (es_self s) 6 = 0) \<longleftrightarrow> \<not> eligible s p"
    using p Cons.prems(2) by (auto simp: wf_peer_def eligible_def memcmp_eq_0 not_less)
  have cmp: "compare_peer_to_candidate p (reset_to_self s) sel \<le> 0 \<longleftrightarrow> \<not> best_of s sel < peer_candidate p"
    using compare_peer_to_candidate_pos [of p s sel] p Cons.prems(2,3)
    by (auto simp: wf_peer_def best_of_def)
  show ?case
  proof (cases "eligible s p \<and> best_of s sel < peer_candidate p")
    case True
    then have "run_election_loop (reset_to_self s) (Ptr p) ps = r"
      using Cons.prems(4) skip cmp by (auto split: if_splits)
    then show ?thesis
      using Cons.IH [of "Ptr p"] Cons.prems p True by (auto simp: wf_peer_def best_of_def)
  next
    case False
    then have "run_election_loop (reset_to_self s) sel ps = r"
      using Cons.prems(4) skip cmp by (auto split: if_splits)
    then show ?thesis
      using Cons.IH [of sel] Cons.prems False by auto
  qed
qed

lemma run_election_elects:
  assumes "wf_election e" and "run_election e = (ch, e')"
  shows "elects (el_state e) (used_peers e) (el_state e') \<and> e' = e\<lparr>el_state := el_state e'\<rparr> \<and>
     (ch \<longleftrightarrow> el_state e \<noteq> el_state e')"
proof -
  let ?s = "el_state e" and ?r = "run_election_loop (reset_to_self (el_state e)) NULL (used_peers e)"
  have r: "(?r = NULL \<or> (\<exists>p\<in>set (used_peers e). eligible ?s p \<and> ?r = Ptr p \<and> self_candidate ?s < peer_candidate p)) \<and>
     (\<forall>q\<in>set (used_peers e). eligible ?s q \<longrightarrow> peer_candidate q \<le> best_of ?s ?r)"
    using run_election_loop_max [of "used_peers e" ?s NULL ?r] assms(1)
    by (auto simp: wf_election_def best_of_def)
  have adopt: "(reset_to_self ?s)\<lparr>es_master := ep_master p, es_sync_master := ep_address p,
       es_distance_to_master := ep_distance_to_master p + 1, es_master_metric := ep_master_metric p,
       es_master_counter := ep_master_counter p\<rparr> = adopt ?s p" for p
    by (simp add: reset_to_self_def adopt_def)
  have e': "e' = e\<lparr>el_state := if ?r \<noteq> NULL then adopt ?s (deref ?r) else reset_to_self ?s\<rparr>"
    and ch: "ch \<longleftrightarrow> ?s \<noteq> el_state e'"
    using assms(2) by (auto simp: run_election_def Let_def used_peers_def adopt)
  show ?thesis
  proof (cases ?r)
    case NULL
    then show ?thesis using r e' ch by (auto simp: elects_def best_of_def)
  next
    case (Ptr p)
    with r have "wins ?s (used_peers e) p" by (auto simp: wins_def best_of_def)
    then show ?thesis using Ptr e' ch by (auto simp: elects_def)
  qed
qed

text \<open>The winner is unique, so the outcome depends on the set of peers only.\<close>

lemma wins_unique:
  assumes "wins s ps p" and "wins s qs q" and "set ps = set qs" and "distinct (map ep_address ps)"
  shows "p = q"
proof -
  have "peer_candidate p = peer_candidate q"
    using assms(1-3) by (auto simp: wins_def intro: antisym)
  then have "ep_address p = ep_address q" by (simp add: peer_candidate_def)
  moreover have "p \<in> set ps" "q \<in> set ps" using assms(1-3) by (auto simp: wins_def)
  ultimately show ?thesis using assms(4) by (auto simp: distinct_map inj_on_def)
qed

lemma elects_unique:
  assumes "elects s ps s1" and "elects s qs s2" and "set ps = set qs" and "distinct (map ep_address ps)"
  shows "s1 = s2"
  using assms wins_unique [OF _ _ assms(3,4)] unfolding elects_def
  by (metis leD wins_def)

text \<open>An election only rewrites the fields it recomputes, so it is idempotent.\<close>

definition same_self :: "election_state \<Rightarrow> election_state \<Rightarrow> bool" where
  "same_self s t \<longleftrightarrow> es_self s = es_self t \<and> es_self_metric s = es_self_metric t \<and> es_self_counter s = es_self_counter t"

lemma same_self_elects:
  assumes "same_self s t"
  shows "elects s ps r \<longleftrightarrow> elects t ps r"
proof -
  have "eligible s = eligible t" "self_candidate s = self_candidate t" "adopt s = adopt t"
    "reset_to_self s = reset_to_self t"
    using assms
    by (auto simp: same_self_def eligible_def self_candidate_def adopt_def reset_to_self_def
        intro!: ext election_state.equality)
  then show ?thesis by (simp add: elects_def wins_def)
qed

lemma elects_same_self: "elects s ps r \<Longrightarrow> same_self s r"
  by (auto simp: elects_def same_self_def adopt_def reset_to_self_def)

section \<open>The peer list as a table\<close>

definition peer_of :: "election \<Rightarrow> mac \<Rightarrow> election_peer option" where
  "peer_of e k = map_option (\<lambda>i. el_peers e ! i) (find_peer e k)"

definition expire_peers :: "election \<Rightarrow> u64 \<Rightarrow> election" where
  "expire_peers e now = (case espdrop_awdl_election_expire (Ptr e) now NULL of (_, ep, _) \<Rightarrow> deref ep)"

definition wf_election_v2 :: "election_v2 \<Rightarrow> bool" where
  "wf_election_v2 st \<longleftrightarrow> length (e2_master st) = 6 \<and> length (e2_sync_master st) = 6"

lemma used_nth: "i < length (used_peers e) \<Longrightarrow> used_peers e ! i = el_peers e ! i"
  by (simp add: used_peers_def)

lemma length_used: "wf_election e \<Longrightarrow> length (used_peers e) = el_peer_count e"
  by (simp add: used_peers_def wf_election_def)

lemma find_peer_used:
  assumes "wf_election e" and "length k = 6"
  shows "find_peer e k = find_index (\<lambda>p. ep_address p = k) (used_peers e)"
proof -
  have "find_index (\<lambda>p. memcmp (ep_address p) k 6 = 0) ps = find_index (\<lambda>p. ep_address p = k) ps"
    if "\<forall>p\<in>set ps. length (ep_address p) = 6" for ps
    using that assms(2) by (induction ps) (auto simp: memcmp_eq_0)
  then show ?thesis
    using assms(1) by (auto simp: find_peer_def used_peers_def wf_election_def wf_peer_def)
qed

interpretation election_table: keyed_table used_peers ep_address wf_election
  ESPDROP_AWDL_ELECTION_MAX_PEERS "\<lambda>k. length k = 6" peer_of
proof unfold_locales
  fix e k assume wf: "wf_election e" and k: "length (k::mac) = 6"
  show "peer_of e k = find (\<lambda>p. ep_address p = k) (used_peers e)"
    unfolding peer_of_def find_peer_used [OF wf k] find_via_index
    by (cases "find_index (\<lambda>p. ep_address p = k) (used_peers e)")
      (auto dest: find_index_SomeD simp: used_nth)
qed (auto simp: wf_election_def used_peers_def)

lemma wf_peer_same_self: "same_self s t \<Longrightarrow> wf_peer s = wf_peer t"
  by (auto simp: wf_peer_def same_self_def)

text \<open>Running the election keeps the table and makes the state the elected one.\<close>

definition consistent :: "election \<Rightarrow> bool" where
  "consistent e \<longleftrightarrow> wf_election e \<and> elects (el_state e) (used_peers e) (el_state e)"

lemma run_election_consistent:
  assumes "wf_election e" and "run_election e = (ch, e')"
  shows "consistent e'" and "used_peers e' = used_peers e" and "same_self (el_state e) (el_state e')"
    and "el_peer_timeout_us e' = el_peer_timeout_us e"
proof -
  note r = run_election_elects [OF assms]
  then have el: "elects (el_state e) (used_peers e) (el_state e')" and e': "e' = e\<lparr>el_state := el_state e'\<rparr>"
    by auto
  show same: "same_self (el_state e) (el_state e')" using elects_same_self [OF el] .
  show used: "used_peers e' = used_peers e" by (subst e') (simp add: used_peers_def)
  show "el_peer_timeout_us e' = el_peer_timeout_us e" by (subst e') simp
  have "length (el_peers e') = length (el_peers e)" "el_peer_count e' = el_peer_count e"
    by (subst e', simp)+
  then have "wf_election e'"
    using assms(1) same used wf_peer_same_self [OF same] by (simp add: wf_election_def same_self_def)
  with el same used show "consistent e'" by (simp add: consistent_def same_self_elects)
qed

lemma run_election_quiet:
  assumes "consistent e" and "run_election e = (ch, e')"
  shows "e' = e \<and> \<not> ch"
proof -
  have r: "elects (el_state e) (used_peers e) (el_state e')" "e' = e\<lparr>el_state := el_state e'\<rparr>"
    "ch \<longleftrightarrow> el_state e \<noteq> el_state e'"
    using run_election_elects [OF _ assms(2)] assms(1) by (auto simp: consistent_def)
  have "el_state e' = el_state e"
    using elects_unique [OF r(1)] assms(1) by (auto simp: consistent_def wf_election_def)
  with r show ?thesis by simp
qed

lemma expire_wf_table:
  assumes "wf_election e" and "compact (election_fresh now (el_peer_timeout_us e)) election_peer_zero (el_peers e) (el_peer_count e) = (ps, w)"
  shows "wf_election (e\<lparr>el_peers := ps, el_peer_count := w\<rparr>)"
    and "used_peers (e\<lparr>el_peers := ps, el_peer_count := w\<rparr>) = filter (election_fresh now (el_peer_timeout_us e)) (used_peers e)"
    and "w \<le> el_peer_count e"
proof -
  have c: "length ps = length (el_peers e)" "w \<le> el_peer_count e"
    "take w ps = filter (election_fresh now (el_peer_timeout_us e)) (take (el_peer_count e) (el_peers e))"
    using compact_spec [OF assms(2)] assms(1) by (auto simp: wf_election_def)
  then show u: "used_peers (e\<lparr>el_peers := ps, el_peer_count := w\<rparr>) = filter (election_fresh now (el_peer_timeout_us e)) (used_peers e)"
    by (simp add: used_peers_def)
  show "w \<le> el_peer_count e" using c by simp
  show "wf_election (e\<lparr>el_peers := ps, el_peer_count := w\<rparr>)"
    using assms(1) c u by (auto simp: wf_election_def distinct_map_filter)
qed

lemma expire_expire_peers:
  "espdrop_awdl_election_expire (Ptr e) now changed =
     (el_peer_count e - el_peer_count (expire_peers e now), Ptr (expire_peers e now),
      if changed \<noteq> NULL then Ptr (el_state (expire_peers e now) \<noteq> el_state e) else NULL)"
  by (auto simp: espdrop_awdl_election_expire_def expire_peers_def Let_def run_election_def split: prod.splits)

lemma expire_peers_table:
  assumes "wf_election e"
  shows "consistent (expire_peers e now)"
    and "used_peers (expire_peers e now) = filter (election_fresh now (el_peer_timeout_us e)) (used_peers e)"
    and "same_self (el_state e) (el_state (expire_peers e now))"
    and "el_peer_timeout_us (expire_peers e now) = el_peer_timeout_us e"
proof -
  obtain ps w where c: "compact (election_fresh now (el_peer_timeout_us e)) election_peer_zero (el_peers e) (el_peer_count e) = (ps, w)"
    by force
  let ?e = "e\<lparr>el_peers := ps, el_peer_count := w\<rparr>"
  obtain ch e' where r: "run_election ?e = (ch, e')" by force
  have ex: "expire_peers e now = e'"
    using c r by (simp add: expire_peers_def espdrop_awdl_election_expire_def Let_def)
  note t = expire_wf_table [OF assms c]
  from run_election_consistent [OF t(1) r] t(2) ex
  show "consistent (expire_peers e now)"
    and "used_peers (expire_peers e now) = filter (election_fresh now (el_peer_timeout_us e)) (used_peers e)"
    and "same_self (el_state e) (el_state (expire_peers e now))"
    and "el_peer_timeout_us (expire_peers e now) = el_peer_timeout_us e"
    by simp_all
qed

interpretation election_expiry: expiring_table used_peers ep_address wf_election
  ESPDROP_AWDL_ELECTION_MAX_PEERS "\<lambda>k. length k = 6" peer_of
  "\<lambda>e now. election_fresh now (el_peer_timeout_us e)" expire_peers
  by unfold_locales (use expire_peers_table in \<open>auto simp: consistent_def\<close>)

text \<open>An observation as the table sees it: source, advertised state, time.\<close>

type_synonym observation = "mac \<times> election_v2 \<times> u64"

definition admissible_observation :: "mac \<Rightarrow> observation \<Rightarrow> bool" where
  "admissible_observation self ob \<longleftrightarrow>
     length (fst ob) = 6 \<and> wf_election_v2 (fst (snd ob)) \<and> fst ob \<noteq> self"

definition merge_observation :: "observation \<Rightarrow> election_peer option \<Rightarrow> election_peer" where
  "merge_observation ob old = observed_peer (fst (snd ob)) (snd (snd ob))
     (case old of Some p \<Rightarrow> p | None \<Rightarrow> election_peer_zero\<lparr>ep_address := fst ob\<rparr>)"

definition store_ob :: "election \<Rightarrow> observation \<Rightarrow> election option" where
  "store_ob e ob = store_observation e (fst ob) (fst (snd ob)) (snd (snd ob))"

lemma wf_observed_peer:
  "wf_election_v2 st \<Longrightarrow> length (ep_address p) = 6 \<Longrightarrow> ep_address p \<noteq> es_self s \<Longrightarrow>
     wf_peer s (observed_peer st now p)"
  by (simp add: wf_peer_def observed_peer_def wf_election_v2_def)

lemma observed_peer_address [simp]: "ep_address (observed_peer st now p) = ep_address p"
  by (simp add: observed_peer_def)

text \<open>An observation of a known peer updates its entry in place.\<close>

lemma store_observation_hit:
  assumes wf: "wf_election e" and ob: "length src = 6" "wf_election_v2 st"
    and hit: "peer_of e src = Some p"
  shows "\<exists>e' xs ys. store_observation e src st now = Some e' \<and> used_peers e = xs @ p # ys \<and>
     used_peers e' = xs @ observed_peer st now p # ys \<and> wf_election e' \<and> el_state e' = el_state e"
proof -
  obtain i where i: "find_peer e src = Some i" "el_peers e ! i = p"
    using hit by (auto simp: peer_of_def)
  then have iu: "i < length (used_peers e)" "ep_address (used_peers e ! i) = src"
    using find_index_SomeD [of _ "used_peers e" i] find_peer_used [OF wf ob(1)] by auto
  have up: "used_peers e ! i = p" using iu i by (simp add: used_nth)
  let ?q = "observed_peer st now p"
  let ?e = "e\<lparr>el_peers := (el_peers e)[i := ?q]\<rparr>"
  have st: "store_observation e src st now = Some ?e"
    using i by (simp add: store_observation_def)
  have u: "used_peers ?e = (used_peers e)[i := ?q]"
    using iu by (simp add: used_peers_def take_update_swap)
  have "map ep_address (used_peers ?e) = map ep_address (used_peers e)"
    using iu up by (simp add: u map_update list_update_same_conv)
  moreover have "\<forall>p\<in>set (used_peers ?e). wf_peer (el_state e) p"
  proof
    fix r assume "r \<in> set (used_peers ?e)"
    then have "r = ?q \<or> r \<in> set (used_peers e)" using u set_update_subset_insert by fastforce
    moreover have "wf_peer (el_state e) p" using wf iu up by (auto simp: wf_election_def)
    then have "wf_peer (el_state e) ?q" using ob by (intro wf_observed_peer) (auto simp: wf_peer_def)
    ultimately show "wf_peer (el_state e) r" using wf by (auto simp: wf_election_def)
  qed
  ultimately have "wf_election ?e" using wf by (simp add: wf_election_def)
  moreover have "used_peers e = take i (used_peers e) @ p # drop (Suc i) (used_peers e)"
    using iu up id_take_nth_drop by force
  moreover have "used_peers ?e = take i (used_peers e) @ ?q # drop (Suc i) (used_peers e)"
    using iu by (simp add: u upd_conv_take_nth_drop)
  ultimately show ?thesis using st by (intro exI [of _ ?e] exI) auto
qed

text \<open>An unknown peer is appended while there is room and refused when there is none.\<close>

lemma store_observation_miss:
  assumes wf: "wf_election e" and ob: "length src = 6" "wf_election_v2 st" "src \<noteq> es_self (el_state e)"
    and miss: "peer_of e src = None"
    and room: "length (used_peers e) < ESPDROP_AWDL_ELECTION_MAX_PEERS"
  shows "\<exists>e'. store_observation e src st now = Some e' \<and>
     used_peers e' = used_peers e @ [observed_peer st now (election_peer_zero\<lparr>ep_address := src\<rparr>)] \<and>
     wf_election e' \<and> el_state e' = el_state e"
proof -
  let ?q = "observed_peer st now (election_peer_zero\<lparr>ep_address := src\<rparr>)"
  let ?n = "el_peer_count e"
  let ?e = "e\<lparr>el_peer_count := ?n + 1, el_peers := (el_peers e)[?n := ?q]\<rparr>"
  have n: "?n < length (el_peers e)" using room wf by (simp add: length_used wf_election_def)
  have st: "store_observation e src st now = Some ?e"
    using miss room by (simp add: store_observation_def peer_of_def length_used [OF wf])
  have u: "used_peers ?e = used_peers e @ [?q]"
    using n by (simp add: used_peers_def take_Suc_conv_app_nth)
  have nin: "src \<notin> ep_address ` set (used_peers e)"
    using miss election_table.lookup_None_iff [OF wf, of src] ob by simp
  have "wf_peer (el_state e) ?q" using ob by (intro wf_observed_peer) auto
  with u nin wf n have "wf_election ?e" by (auto simp: wf_election_def)
  with st u show ?thesis by auto
qed

lemma store_observation_full:
  assumes "wf_election e" and "peer_of e src = None"
    and "length (used_peers e) = ESPDROP_AWDL_ELECTION_MAX_PEERS"
  shows "store_observation e src st now = None"
  using assms by (simp add: store_observation_def peer_of_def length_used)

lemma store_observation_cases:
  assumes wf: "wf_election e" and ob: "length src = 6" "wf_election_v2 st" "src \<noteq> es_self (el_state e)"
    and st: "store_observation e src st now = Some e'"
  shows "wf_election e' \<and> el_state e' = el_state e"
proof (cases "peer_of e src")
  case None
  have "length (used_peers e) < ESPDROP_AWDL_ELECTION_MAX_PEERS"
    using store_observation_full [OF wf None] st election_table.bounded [OF wf]
    by (metis le_neq_implies_less option.distinct(1))
  then show ?thesis using store_observation_miss [OF wf ob None, of now] st by auto
next
  case (Some p)
  then show ?thesis using store_observation_hit [OF wf ob(1,2), of p now] st by auto
qed

interpretation election_upsert: upserting_table used_peers ep_address
  "\<lambda>e. wf_election e \<and> es_self (el_state e) = self"
  ESPDROP_AWDL_ELECTION_MAX_PEERS "\<lambda>k. length k = 6" peer_of
  store_ob fst merge_observation "admissible_observation self"
  for self :: mac
proof unfold_locales
  fix e e' and ob :: observation
  assume e: "wf_election e \<and> es_self (el_state e) = self" and ob: "admissible_observation self ob"
  obtain src st now where o1: "ob = (src, st, now)" by (cases ob)
  have wf: "wf_election e" and adm: "length src = 6" "wf_election_v2 st" "src \<noteq> es_self (el_state e)"
    using e ob o1 by (auto simp: admissible_observation_def)
  have st: "store_ob e ob = store_observation e src st now" by (simp add: store_ob_def o1)
  show "wf_election e' \<and> es_self (el_state e') = self" if "store_ob e ob = Some e'"
    using store_observation_cases [OF wf adm] that e st by simp
  show "\<exists>e' xs ys. store_ob e ob = Some e' \<and> used_peers e = xs @ p # ys \<and>
      used_peers e' = xs @ merge_observation ob (Some p) # ys"
    if "peer_of e (fst ob) = Some p" for p
    using store_observation_hit [OF wf adm(1,2), of p now] that
    by (simp add: store_ob_def o1 merge_observation_def) blast
  show "\<exists>e'. store_ob e ob = Some e' \<and> used_peers e' = used_peers e @ [merge_observation ob None]"
    if "peer_of e (fst ob) = None" "length (used_peers e) < ESPDROP_AWDL_ELECTION_MAX_PEERS"
    using store_observation_miss [OF wf adm, of now] that
    by (auto simp: store_ob_def o1 merge_observation_def)
  show "store_ob e ob = None"
    if "peer_of e (fst ob) = None" "length (used_peers e) = ESPDROP_AWDL_ELECTION_MAX_PEERS"
    using store_observation_full [OF wf] that by (simp add: store_ob_def o1)
qed (auto simp: election_table.keys_distinct election_table.bounded election_table.lookup_entries
    admissible_observation_def merge_observation_def split: option.splits)

section \<open>Every reachable election\<close>

text \<open>The states a client can reach: it initialises once and then calls the operations in any order.\<close>

inductive reachable_election :: "election \<Rightarrow> bool" where
  init: "espdrop_awdl_election_init (Ptr e0) (Ptr self) = (True, Ptr e) \<Longrightarrow> length self = 6 \<Longrightarrow> reachable_election e"
| set_timeout: "reachable_election e \<Longrightarrow> espdrop_awdl_election_set_peer_timeout (Ptr e) t = (r, Ptr e') \<Longrightarrow>
    reachable_election e'"
| touch: "reachable_election e \<Longrightarrow> length src = 6 \<Longrightarrow>
    espdrop_awdl_election_touch (Ptr e) (Ptr src) now = (r, Ptr e') \<Longrightarrow> reachable_election e'"
| expire: "reachable_election e \<Longrightarrow> espdrop_awdl_election_expire (Ptr e) now ch = (n, Ptr e', ch') \<Longrightarrow>
    reachable_election e'"
| observe: "reachable_election e \<Longrightarrow> length src = 6 \<Longrightarrow> wf_election_v2 st \<Longrightarrow>
    espdrop_awdl_election_observe (Ptr e) (Ptr src) (Ptr st) now ch = (r, Ptr e', ch') \<Longrightarrow> reachable_election e'"

lemma init_consistent:
  assumes "espdrop_awdl_election_init (Ptr e0) (Ptr self) = (True, Ptr e)" and "length self = 6"
  shows "consistent e"
  using assms
  by (auto simp: espdrop_awdl_election_init_def consistent_def wf_election_def used_peers_def elects_def
      reset_to_self_def ESPDROP_AWDL_ELECTION_MAX_PEERS_def split: if_splits)

text \<open>Replacing an entry by one that differs only in when it was last seen changes no election.\<close>

lemma touch_consistent:
  assumes "consistent e" and "length src = 6"
    and "espdrop_awdl_election_touch (Ptr e) (Ptr src) now = (r, Ptr e')"
  shows "consistent e' \<and> el_state e' = el_state e"
proof (cases "find_peer e src")
  case None
  with assms show ?thesis by (simp add: espdrop_awdl_election_touch_def Let_def)
next
  case (Some i)
  have wf: "wf_election e" using assms(1) by (simp add: consistent_def)
  have i: "i < length (used_peers e)"
    using Some find_peer_used [OF wf assms(2)] find_index_SomeD [of _ "used_peers e" i] by auto
  let ?p = "used_peers e ! i"
  let ?q = "?p\<lparr>ep_last_seen_us := now\<rparr>"
  have pin: "?p \<in> set (used_peers e)" using i by simp
  then have p: "wf_peer (el_state e) ?p" using wf by (auto simp: wf_election_def)
  then have e': "e' = e\<lparr>el_peers := (el_peers e)[i := ?q]\<rparr>"
    using assms(3) Some i by (auto simp: espdrop_awdl_election_touch_def Let_def used_nth wf_peer_def)
  have u: "used_peers e' = (used_peers e)[i := ?q]"
    using i by (simp add: e' used_peers_def take_update_swap)
  define f where "f = (\<lambda>p :: election_peer. p\<lparr>ep_last_seen_us := 0\<rparr>)"
  have fu: "map f (used_peers e') = map f (used_peers e)"
    using i by (simp add: u map_update f_def list_update_same_conv)
  have set_f: "f ` set (used_peers e') = f ` set (used_peers e)"
    using fu by (metis list.set_map)
  have g: "eligible s (f p) = eligible s p" "peer_candidate (f p) = peer_candidate p"
    "adopt s (f p) = adopt s p" "wf_peer s (f p) = wf_peer s p" "ep_address (f p) = ep_address p" for s p
    by (simp_all add: f_def eligible_def peer_candidate_def adopt_def wf_peer_def)
  have ball: "(\<forall>p\<in>set ps. P p) \<longleftrightarrow> (\<forall>p\<in>f ` set ps. P p)" if "\<And>p. P (f p) = P p" for P ps
    using that by auto
  have elects: "elects s ps r \<longleftrightarrow>
      (\<exists>p\<in>f ` set ps. eligible s p \<and> self_candidate s < peer_candidate p \<and>
         (\<forall>q\<in>f ` set ps. eligible s q \<longrightarrow> peer_candidate q \<le> peer_candidate p) \<and> r = adopt s p) \<or>
      ((\<forall>q\<in>f ` set ps. eligible s q \<longrightarrow> peer_candidate q \<le> self_candidate s) \<and> r = reset_to_self s)" for s ps r
    unfolding elects_def wins_def by (auto simp: g)
  have "map ep_address (used_peers e') = map ep_address (used_peers e)"
    using i by (simp add: u map_update list_update_same_conv)
  moreover have "\<forall>p\<in>set (used_peers e'). wf_peer (el_state e) p"
    unfolding ball [of "wf_peer (el_state e)", OF g(4)] set_f
    unfolding ball [of "wf_peer (el_state e)", OF g(4), symmetric]
    using wf by (simp add: wf_election_def)
  ultimately have "wf_election e'" using wf by (simp add: wf_election_def e')
  then show ?thesis
    using assms(1) by (simp add: consistent_def elects set_f) (simp add: e')
qed

lemma observe_eq:
  "espdrop_awdl_election_observe (Ptr e) (Ptr src) (Ptr st) now ch =
     (let quiet = (if ch \<noteq> NULL then Ptr False else NULL) in
      if mac_is_zero src \<or> mac_is_zero (e2_master st) \<or> mac_is_zero (e2_sync_master st) \<or>
         memcmp src (es_self (el_state e)) 6 = 0
      then (False, Ptr e, quiet)
      else case store_observation (expire_peers e now) src st now of
        None \<Rightarrow> (False, Ptr (expire_peers e now), quiet)
      | Some e2 \<Rightarrow> (True, Ptr (snd (run_election e2)),
          if ch \<noteq> NULL then Ptr (el_state (expire_peers e now) \<noteq> el_state e \<or> fst (run_election e2)) else NULL))"
  by (simp add: espdrop_awdl_election_observe_def Let_def expire_expire_peers split_beta split: option.split)

lemma observe_cases:
  assumes "espdrop_awdl_election_observe (Ptr e) (Ptr src) (Ptr st) now ch = (r, Ptr e', ch')"
  obtains (invalid) "r = False" "e' = e" "ch \<noteq> NULL \<longrightarrow> ch' = Ptr False"
      "mac_is_zero src \<or> mac_is_zero (e2_master st) \<or> mac_is_zero (e2_sync_master st) \<or>
       memcmp src (es_self (el_state e)) 6 = 0"
  | (full) "r = False" "store_observation (expire_peers e now) src st now = None" "e' = expire_peers e now"
      "ch \<noteq> NULL \<longrightarrow> ch' = Ptr False" "memcmp src (es_self (el_state e)) 6 \<noteq> 0"
  | (stored) e2 c where "r = True" "store_observation (expire_peers e now) src st now = Some e2"
      "run_election e2 = (c, e')" "memcmp src (es_self (el_state e)) 6 \<noteq> 0"
      "ch \<noteq> NULL \<longrightarrow> ch' = Ptr (el_state (expire_peers e now) \<noteq> el_state e \<or> c)"
proof (cases "mac_is_zero src \<or> mac_is_zero (e2_master st) \<or> mac_is_zero (e2_sync_master st) \<or>
       memcmp src (es_self (el_state e)) 6 = 0")
  case True
  with assms show thesis by (intro invalid) (auto simp: observe_eq Let_def)
next
  case False
  then show thesis
  proof (cases "store_observation (expire_peers e now) src st now")
    case None
    with assms False show thesis by (intro full) (auto simp: observe_eq Let_def)
  next
    case (Some e2)
    with assms False show thesis
      by (intro stored [of e2 "fst (run_election e2)"]) (auto simp: observe_eq Let_def)
  qed
qed

lemma observe_consistent:
  assumes con: "consistent e" and src: "length src = 6" and st: "wf_election_v2 st"
    and obs: "espdrop_awdl_election_observe (Ptr e) (Ptr src) (Ptr st) now ch = (r, Ptr e', ch')"
  shows "consistent e' \<and> same_self (el_state e) (el_state e')"
proof -
  have wf: "wf_election e" using con by (simp add: consistent_def)
  note x = expire_peers_table [OF wf, of now]
  from obs show ?thesis
  proof (cases rule: observe_cases)
    case invalid
    then show ?thesis using con by (simp add: same_self_def)
  next
    case full
    then show ?thesis using x by simp
  next
    case (stored e2 c)
    have "src \<noteq> es_self (el_state (expire_peers e now))"
      using stored(4) src wf x(3) by (auto simp: memcmp_eq_0 wf_election_def same_self_def)
    then have "wf_election e2" "el_state e2 = el_state (expire_peers e now)"
      using store_observation_cases [OF _ src st _ stored(2)] x(1) by (auto simp: consistent_def)
    then show ?thesis
      using run_election_consistent [OF _ stored(3)] x(3) by (auto simp: same_self_def)
  qed
qed

lemma reachable_consistent: "reachable_election e \<Longrightarrow> consistent e"
proof (induction rule: reachable_election.induct)
  case (set_timeout e t r e')
  then show ?case
    by (auto simp: espdrop_awdl_election_set_peer_timeout_def consistent_def wf_election_def used_peers_def
        split: if_splits)
next
  case (expire e now ch n e' ch')
  then have "e' = expire_peers e now" by (simp add: expire_expire_peers)
  then show ?case using expire.IH expire_peers_table(1) by (simp add: consistent_def)
qed (use init_consistent touch_consistent observe_consistent in blast)+

lemma reset_fields [simp]:
  "es_self (reset_to_self s) = es_self s" "es_sync_master (reset_to_self s) = es_self s"
  "es_distance_to_master (reset_to_self s) = 0"
  by (simp_all add: reset_to_self_def)

lemma adopt_fields [simp]:
  "es_self (adopt s p) = es_self s" "es_sync_master (adopt s p) = ep_address p"
  "es_distance_to_master (adopt s p) = ep_distance_to_master p + 1"
  by (simp_all add: adopt_def)

lemma height_bound: "d < ESPDROP_AWDL_ELECTION_TREE_MAX_HEIGHT \<Longrightarrow> d + 1 \<le> ESPDROP_AWDL_ELECTION_TREE_MAX_HEIGHT"
  unfolding ESPDROP_AWDL_ELECTION_TREE_MAX_HEIGHT_def by unat_arith

lemma sync_peer_lookup:
  assumes "wf_election e" and "es_sync_master (el_state e) \<noteq> es_self (el_state e)"
    and "p \<in> set (used_peers e)" and "ep_address p = es_sync_master (el_state e)"
  shows "espdrop_awdl_election_sync_peer (Ptr e) = Ptr p"
proof -
  have p: "wf_peer (el_state e) p" and all: "\<forall>q\<in>set (used_peers e). wf_peer (el_state e) q"
    using assms(1,3) by (auto simp: wf_election_def)
  have same: "q = p" if "q \<in> set (used_peers e)" "ep_address q = ep_address p" for q
    using that assms(1,3) by (auto simp: wf_election_def distinct_map inj_on_def)
  let ?P = "\<lambda>p. ep_valid p \<and> memcmp (ep_address p) (es_sync_master (el_state e)) 6 = 0"
  have len: "length (es_sync_master (el_state e)) = 6" using p assms(4) by (simp add: wf_peer_def)
  obtain i where i: "find_index ?P (used_peers e) = Some i"
    using assms(3,4) p find_index_None [of ?P "used_peers e"]
    by (cases "find_index ?P (used_peers e)") (auto simp: wf_peer_def)
  then have "i < length (used_peers e)" "?P (used_peers e ! i)" using find_index_SomeD [OF i] by auto
  moreover from this all have "ep_address (used_peers e ! i) = ep_address p"
    using len assms(4) by (auto simp: memcmp_eq_0 wf_peer_def)
  ultimately have "el_peers e ! i = p" using same [of "used_peers e ! i"] nth_mem used_nth by metis
  with i assms(1,2) len show ?thesis
    by (simp add: espdrop_awdl_election_sync_peer_def Let_def memcmp_eq_0 wf_election_def used_peers_def)
qed

section \<open>Properties\<close>

text \<open>
  C9. In every state reachable from initialisation by any sequence of observe, touch,
  expire and set-timeout calls (failing calls included), the peer array is well formed
  with distinct addresses, and the published state is the one the election order
  elects from the peers in the table. The distance to the master never exceeds the
  maximum tree height; when another station is the synchronisation master, the sync-peer
  accessor finds its entry, that peer does not itself synchronise to us (no
  two-node loop), and our distance is its distance plus one.
\<close>
theorem reachable_election_invariant:
  assumes "reachable_election e"
  shows "wf_election e \<and> elects (el_state e) (used_peers e) (el_state e) \<and>
     es_distance_to_master (el_state e) \<le> ESPDROP_AWDL_ELECTION_TREE_MAX_HEIGHT \<and>
     (es_sync_master (el_state e) \<noteq> es_self (el_state e) \<longrightarrow>
       (\<exists>p. espdrop_awdl_election_sync_peer (Ptr e) = Ptr p \<and> p \<in> set (used_peers e) \<and>
          ep_sync_master p \<noteq> es_self (el_state e) \<and>
          es_distance_to_master (el_state e) = ep_distance_to_master p + 1))"
proof -
  have wf: "wf_election e" and el: "elects (el_state e) (used_peers e) (el_state e)"
    using reachable_consistent [OF assms] by (simp_all add: consistent_def)
  from el consider (peer) p where "wins (el_state e) (used_peers e) p" "el_state e = adopt (el_state e) p"
    | (self) "el_state e = reset_to_self (el_state e)"
    by (auto simp: elects_def)
  then show ?thesis
  proof cases
    case (peer p)
    then have p: "p \<in> set (used_peers e)" "eligible (el_state e) p" by (auto simp: wins_def)
    have f: "es_sync_master (el_state e) = ep_address p"
      "es_distance_to_master (el_state e) = ep_distance_to_master p + 1"
      by (subst peer(2), simp)+
    have "es_distance_to_master (el_state e) \<le> ESPDROP_AWDL_ELECTION_TREE_MAX_HEIGHT"
      unfolding f(2) using p by (intro height_bound) (simp add: eligible_def)
    moreover have "espdrop_awdl_election_sync_peer (Ptr e) = Ptr p"
      if "es_sync_master (el_state e) \<noteq> es_self (el_state e)"
      using sync_peer_lookup [OF wf that p(1)] f by simp
    ultimately show ?thesis using wf el p f by (auto simp: eligible_def)
  next
    case self
    then have "es_sync_master (el_state e) = es_self (el_state e)" "es_distance_to_master (el_state e) = 0"
      by (metis reset_fields(2), metis reset_fields(3))
    then show ?thesis using wf el by simp
  qed
qed

definition ex_self :: mac where
  "ex_self = [2, 0, 0, 0, 0, 1]"

definition ex_init :: election where
  "ex_init = deref (snd (espdrop_awdl_election_init
     (Ptr \<lparr>el_state = \<lparr>es_self = [], es_master = [], es_sync_master = [], es_distance_to_master = 0,
        es_master_metric = 0, es_self_metric = 0, es_master_counter = 0, es_self_counter = 0\<rparr>,
        el_peers = [], el_peer_count = 0, el_peer_timeout_us = 0\<rparr>) (Ptr ex_self)))"

definition ex_advert :: election_v2 where
  "ex_advert = \<lparr>e2_master = [2, 0, 0, 0, 0, 9], e2_sync_master = [2, 0, 0, 0, 0, 9],
     e2_master_counter = 7, e2_distance_to_master = 1, e2_master_metric = 500,
     e2_self_metric = 60, e2_self_counter = 0\<rparr>"

definition ex_observed :: election where
  "ex_observed = deref (fst (snd (espdrop_awdl_election_observe (Ptr ex_init) (Ptr [2, 0, 0, 0, 0, 5])
     (Ptr ex_advert) 1000 (Ptr False))))"

lemma ex_init_reachable: "reachable_election ex_init"
proof (rule reachable_election.init)
  show "espdrop_awdl_election_init
     (Ptr \<lparr>el_state = \<lparr>es_self = [], es_master = [], es_sync_master = [], es_distance_to_master = 0,
        es_master_metric = 0, es_self_metric = 0, es_master_counter = 0, es_self_counter = 0\<rparr>,
        el_peers = [], el_peer_count = 0, el_peer_timeout_us = 0\<rparr>) (Ptr ex_self) = (True, Ptr ex_init)"
    by (simp add: ex_init_def espdrop_awdl_election_init_def ex_self_def mac_is_zero_iff numeral_eq_Suc)
qed (simp add: ex_self_def)

lemma ex_observe:
  "espdrop_awdl_election_observe (Ptr ex_init) (Ptr [2, 0, 0, 0, 0, 5]) (Ptr ex_advert) 1000 (Ptr False) =
     (True, Ptr ex_observed, Ptr True)"
  by code_simp

lemma ex_observed_reachable: "reachable_election ex_observed"
  by (rule reachable_election.observe [OF ex_init_reachable _ _ ex_observe])
    (simp_all add: wf_election_v2_def ex_advert_def)

theorem reachable_election_invariant_witness:
  "es_sync_master (el_state ex_observed) = [2, 0, 0, 0, 0, 5] \<and>
   (\<exists>p. espdrop_awdl_election_sync_peer (Ptr ex_observed) = Ptr p \<and>
      ep_sync_master p \<noteq> ex_self \<and> es_distance_to_master (el_state ex_observed) = ep_distance_to_master p + 1)"
proof -
  have "es_sync_master (el_state ex_observed) = [2, 0, 0, 0, 0, 5]" "es_self (el_state ex_observed) = ex_self"
    by code_simp+
  then show ?thesis
    using reachable_election_invariant [OF ex_observed_reachable] by (auto simp: ex_self_def)
qed

text \<open>
  C11. The outcome of an election depends only on the set of peers heard, not on the order
  in which their entries ended up in the array: two well-formed tables with the same peers
  and the same own state elect the same state.
\<close>
theorem election_order_independent:
  assumes "wf_election e1" and "wf_election e2" and "el_state e1 = el_state e2"
    and "set (used_peers e1) = set (used_peers e2)"
  shows "el_state (snd (run_election e1)) = el_state (snd (run_election e2))"
proof -
  have "elects (el_state e1) (used_peers e1) (el_state (snd (run_election e1)))"
    "elects (el_state e1) (used_peers e2) (el_state (snd (run_election e2)))"
    using run_election_elects [OF assms(1), of "fst (run_election e1)" "snd (run_election e1)"]
      run_election_elects [OF assms(2), of "fst (run_election e2)" "snd (run_election e2)"] assms(3)
    by simp_all
  then show ?thesis using elects_unique assms(1,4) by (auto simp: wf_election_def)
qed

definition ex_two :: election where
  "ex_two = deref (fst (snd (espdrop_awdl_election_observe (Ptr ex_observed) (Ptr [2, 0, 0, 0, 0, 6])
     (Ptr (ex_advert\<lparr>e2_master_metric := 400\<rparr>)) 2000 NULL)))"

definition ex_two_swapped :: election where
  "ex_two_swapped = ex_two\<lparr>el_peers := [el_peers ex_two ! 1, el_peers ex_two ! 0] @ drop 2 (el_peers ex_two)\<rparr>"

lemma ex_two_wf: "wf_election ex_two \<and> wf_election ex_two_swapped \<and> el_peers ex_two \<noteq> el_peers ex_two_swapped"
  by code_simp

theorem election_order_independent_witness:
  "el_peers ex_two \<noteq> el_peers ex_two_swapped \<and>
   el_state (snd (run_election ex_two)) = el_state (snd (run_election ex_two_swapped))"
proof -
  have "el_state ex_two = el_state ex_two_swapped" "set (used_peers ex_two) = set (used_peers ex_two_swapped)"
    by code_simp+
  then show ?thesis using election_order_independent [of ex_two ex_two_swapped] ex_two_wf by simp
qed

text \<open>
  No state change goes unreported: in any reachable state, if an observation leaves a
  published state different from the one before it, the caller's \<open>changed\<close> flag is set,
  although the function clears the flag again on the path where it first expires
  peers and then finds the table full.
\<close>
theorem observe_reports_change:
  assumes "reachable_election e" and "length src = 6" and "wf_election_v2 st"
    and "espdrop_awdl_election_observe (Ptr e) (Ptr src) (Ptr st) now (Ptr c) = (r, Ptr e', Ptr c')"
    and "el_state e' \<noteq> el_state e"
  shows "c'"
proof -
  have con: "consistent e" using reachable_consistent [OF assms(1)] .
  then have wf: "wf_election e" by (simp add: consistent_def)
  note x = expire_peers_table [OF wf, of now]
  from assms(4) show ?thesis
  proof (cases rule: observe_cases)
    case invalid
    then show ?thesis using assms(5) by simp
  next
    case full
    let ?f = "election_fresh now (el_peer_timeout_us e)"
    have "\<not> el_peer_count (expire_peers e now) < ESPDROP_AWDL_ELECTION_MAX_PEERS"
      using full(2) by (auto simp: store_observation_def split: option.splits if_splits)
    moreover have "wf_election (expire_peers e now)" using x(1) by (simp add: consistent_def)
    ultimately have "\<not> length (filter ?f (used_peers e)) < ESPDROP_AWDL_ELECTION_MAX_PEERS"
      using x(2) by (metis length_used)
    then have "filter ?f (used_peers e) = used_peers e"
      using election_table.bounded [OF wf] length_filter_le [of ?f "used_peers e"]
      by (metis filter_id_conv length_filter_less linorder_neqE_nat order_less_le_trans not_le)
    then have "elects (el_state e) (used_peers e) (el_state (expire_peers e now))"
      using x(1-3) same_self_elects [OF x(3)] by (simp add: consistent_def)
    then have "el_state (expire_peers e now) = el_state e"
      using elects_unique con by (auto simp: consistent_def wf_election_def)
    then show ?thesis using full assms(5) by simp
  next
    case (stored e2 d)
    have "src \<noteq> es_self (el_state (expire_peers e now))"
      using stored(4) assms(2) wf x(3) by (auto simp: memcmp_eq_0 wf_election_def same_self_def)
    then have "wf_election e2" "el_state e2 = el_state (expire_peers e now)"
      using store_observation_cases [OF _ assms(2,3) _ stored(2)] x(1) by (auto simp: consistent_def)
    then show ?thesis
      using run_election_elects [OF _ stored(3)] stored(5) assms(5) by auto
  qed
qed

theorem observe_reports_change_witness:
  "el_state ex_observed \<noteq> el_state ex_init \<and>
   deref (snd (snd (espdrop_awdl_election_observe (Ptr ex_init) (Ptr [2, 0, 0, 0, 0, 5])
     (Ptr ex_advert) 1000 (Ptr False))))" (is "?changed \<and> deref (snd (snd ?call))")
proof -
  have ch: ?changed by code_simp
  have "?call = (True, Ptr ex_observed, Ptr (deref (snd (snd ?call))))" by (simp add: ex_observe)
  from observe_reports_change [OF ex_init_reachable _ _ this ch] ch show ?thesis
    by (simp add: wf_election_v2_def ex_advert_def)
qed

text \<open>
  C10. Recording an observation is exactly a map update after expiry: when the call
  succeeds, looking up any address gives the observed entry at the source, and everywhere
  else the old entry if it is still fresh and nothing otherwise; it fails, on valid
  arguments, only when the source is unknown and sixteen fresh peers fill the table.
\<close>
theorem observe_is_map_update:
  assumes "reachable_election e" and "length src = 6" and "wf_election_v2 st" and "length k = 6"
    and "\<not> mac_is_zero src" and "\<not> mac_is_zero (e2_master st)" and "\<not> mac_is_zero (e2_sync_master st)"
    and "src \<noteq> es_self (el_state e)"
    and "espdrop_awdl_election_observe (Ptr e) (Ptr src) (Ptr st) now ch = (r, Ptr e', ch')"
  shows "(r \<longrightarrow> peer_of e' k =
       (if k = src then Some (merge_observation (src, st, now) (peer_of (expire_peers e now) src))
        else case peer_of e k of
               Some p \<Rightarrow> if election_fresh now (el_peer_timeout_us e) p then Some p else None
             | None \<Rightarrow> None)) \<and>
     (r = False \<longleftrightarrow> peer_of (expire_peers e now) src = None \<and>
        length (filter (election_fresh now (el_peer_timeout_us e)) (used_peers e)) = ESPDROP_AWDL_ELECTION_MAX_PEERS)"
proof -
  let ?self = "es_self (el_state e)" and ?ob = "(src, st, now)"
  have wf: "wf_election e" using reachable_consistent [OF assms(1)] by (simp add: consistent_def)
  note x = expire_peers_table [OF wf, of now]
  have x1: "wf_election (expire_peers e now) \<and> es_self (el_state (expire_peers e now)) = ?self"
    using x(1,3) by (simp add: consistent_def same_self_def)
  have adm: "admissible_observation ?self ?ob" using assms(2,3,8) by (simp add: admissible_observation_def)
  have guard: "memcmp src ?self 6 \<noteq> 0" using assms(2,8) wf by (simp add: memcmp_eq_0 wf_election_def)
  have full: "store_ob (expire_peers e now) ?ob = None \<longleftrightarrow> peer_of (expire_peers e now) src = None \<and>
      length (filter (election_fresh now (el_peer_timeout_us e)) (used_peers e)) = ESPDROP_AWDL_ELECTION_MAX_PEERS"
    using election_upsert.upsert_None_iff [OF x1 adm] x(2) by simp
  show ?thesis
  proof (cases "store_ob (expire_peers e now) ?ob")
    case None
    then have "r = False" using assms(5-7,9) guard by (simp add: observe_eq store_ob_def Let_def)
    with None full show ?thesis by simp
  next
    case (Some e2)
    then have r: "r" and e': "e' = snd (run_election e2)"
      using assms(5-7,9) guard by (auto simp: observe_eq store_ob_def Let_def)
    have up: "peer_of e2 k = ((peer_of (expire_peers e now))(src \<mapsto>
        merge_observation ?ob (peer_of (expire_peers e now) src))) k"
      using election_upsert.lookup_upsert [OF x1 adm Some assms(4)] by simp
    have wf2: "wf_election e2" using election_upsert.upsert_invar [OF x1 adm Some] by simp
    then have "consistent e'" "used_peers e' = used_peers e2"
      using run_election_consistent(1,2) [of e2 "fst (run_election e2)" e'] e' by simp_all
    then have "peer_of e' k = peer_of e2 k"
      using wf2 assms(4) by (simp add: election_table.lookup_entries consistent_def)
    with up r full Some election_expiry.lookup_expire [OF wf assms(4), of now]
    show ?thesis by simp
  qed
qed

theorem observe_is_map_update_witness:
  "peer_of ex_observed [2, 0, 0, 0, 0, 5] = Some (merge_observation ([2, 0, 0, 0, 0, 5], ex_advert, 1000) None)"
proof -
  have "peer_of (expire_peers ex_init 1000) [2, 0, 0, 0, 0, 5] = None" "[2, 0, 0, 0, 0, 5] \<noteq> es_self (el_state ex_init)"
    "\<not> mac_is_zero [2, 0, 0, 0, 0, 5]" "\<not> mac_is_zero (e2_master ex_advert)" "\<not> mac_is_zero (e2_sync_master ex_advert)"
    by code_simp+
  then show ?thesis
    using observe_is_map_update [OF ex_init_reachable, of "[2, 0, 0, 0, 0, 5]" ex_advert "[2, 0, 0, 0, 0, 5]"] ex_observe
    by (simp add: wf_election_v2_def ex_advert_def)
qed

end
