(* ===== verification/Peer_Table.thy ===== *)
theory Peer_Table
  imports Tables
begin

text \<open>
  The table of nearby peers (\<^verbatim>\<open>core/src/peer_table.c\<close>, \<^verbatim>\<open>types.h\<close>): merging of BLE, AWDL
  and AirDrop observations by peer identifier, expiry, the completion of AirDrop endpoints,
  and the three selections of a transfer target. A returned peer pointer is the index of the
  entry in the array. The 16-bit signed RSSI values are integers.
\<close>

section \<open>Data\<close>

definition ESPDROP_PEER_ID_MAX_BYTES :: nat where
  "ESPDROP_PEER_ID_MAX_BYTES = 16"

definition ESPDROP_PEER_NAME_MAX_BYTES :: nat where
  "ESPDROP_PEER_NAME_MAX_BYTES = 64"

definition ESPDROP_SERVICE_ID_MAX_BYTES :: nat where
  "ESPDROP_SERVICE_ID_MAX_BYTES = 64"

definition ESPDROP_IPV6_BYTES :: nat where
  "ESPDROP_IPV6_BYTES = 16"

definition ESPDROP_MAX_PEERS :: nat where
  "ESPDROP_MAX_PEERS = 16"

definition ESPDROP_PEER_SIGNAL_NONE :: u32 where
  "ESPDROP_PEER_SIGNAL_NONE = 0"

definition ESPDROP_PEER_SIGNAL_BLE :: u32 where
  "ESPDROP_PEER_SIGNAL_BLE = 1"

definition ESPDROP_PEER_SIGNAL_AWDL :: u32 where
  "ESPDROP_PEER_SIGNAL_AWDL = 2"

definition ESPDROP_PEER_SIGNAL_AIRDROP :: u32 where
  "ESPDROP_PEER_SIGNAL_AIRDROP = 4"

datatype table_result = TABLE_OK | TABLE_INVALID_ARGUMENT | TABLE_FULL | TABLE_NOT_FOUND | TABLE_AMBIGUOUS

record peer_id =
  pid_bytes :: bytes
  pid_length :: byte

record awdl_peer_state =
  aps_mif_seen :: bool
  aps_protocol_version :: byte
  aps_device_class :: byte
  aps_peer_valid :: bool
  aps_master :: mac
  aps_sync_master :: mac
  aps_master_channel :: byte
  aps_presence_mode :: byte
  aps_aw_period_tu :: u16
  aps_tx_down_counter_tu :: u16
  aps_next_aw_sequence :: u16
  aps_distance_to_master :: u32
  aps_master_metric :: u32
  aps_self_metric :: u32
  aps_master_counter :: u32
  aps_self_counter :: u32
  aps_channel_count :: byte
  aps_channels :: bytes
  aps_operating_classes :: bytes
  aps_service_record_count :: u16
  aps_malformed_service_record_count :: u16
  aps_advertises_airdrop :: bool
  aps_advertises_asquic :: bool

record espdrop_peer =
  pr_id :: peer_id
  pr_signals :: u32
  pr_ble_rssi :: int
  pr_awdl_rssi :: int
  pr_first_seen_ms :: u64
  pr_last_seen_ms :: u64
  pr_ble_seen_ms :: u64
  pr_awdl_seen_ms :: u64
  pr_airdrop_seen_ms :: u64
  pr_awdl_mac :: mac
  pr_ipv6 :: bytes
  pr_airdrop_port :: u16
  pr_airdrop_endpoint_complete :: bool
  pr_awdl :: awdl_peer_state
  pr_service_id :: bytes
  pr_display_name :: bytes

record peer_observation =
  po_id :: peer_id
  po_signals :: u32
  po_rssi :: int
  po_seen_ms :: u64
  po_awdl_mac :: "mac ptr"
  po_ipv6 :: "bytes ptr"
  po_service_id :: "bytes ptr"
  po_display_name :: "bytes ptr"

record peer_table =
  pt_peers :: "espdrop_peer list"
  pt_count :: nat

definition awdl_peer_state_zero :: awdl_peer_state where
  "awdl_peer_state_zero = \<lparr>aps_mif_seen = False, aps_protocol_version = 0, aps_device_class = 0,
     aps_peer_valid = False, aps_master = replicate 6 0, aps_sync_master = replicate 6 0,
     aps_master_channel = 0, aps_presence_mode = 0, aps_aw_period_tu = 0, aps_tx_down_counter_tu = 0,
     aps_next_aw_sequence = 0, aps_distance_to_master = 0, aps_master_metric = 0, aps_self_metric = 0,
     aps_master_counter = 0, aps_self_counter = 0, aps_channel_count = 0, aps_channels = replicate 16 0,
     aps_operating_classes = replicate 16 0, aps_service_record_count = 0,
     aps_malformed_service_record_count = 0, aps_advertises_airdrop = False, aps_advertises_asquic = False\<rparr>"

definition espdrop_peer_zero :: espdrop_peer where
  "espdrop_peer_zero = \<lparr>pr_id = \<lparr>pid_bytes = replicate 16 0, pid_length = 0\<rparr>, pr_signals = 0,
     pr_ble_rssi = 0, pr_awdl_rssi = 0, pr_first_seen_ms = 0, pr_last_seen_ms = 0, pr_ble_seen_ms = 0,
     pr_awdl_seen_ms = 0, pr_airdrop_seen_ms = 0, pr_awdl_mac = replicate 6 0, pr_ipv6 = replicate 16 0,
     pr_airdrop_port = 0, pr_airdrop_endpoint_complete = False, pr_awdl = awdl_peer_state_zero,
     pr_service_id = [], pr_display_name = []\<rparr>"

section \<open>Operations\<close>

definition peer_id_valid :: "peer_id ptr \<Rightarrow> bool" where
  "peer_id_valid ident \<longleftrightarrow> ident \<noteq> NULL \<and> pid_length (deref ident) > 0 \<and>
     unat (pid_length (deref ident)) \<le> ESPDROP_PEER_ID_MAX_BYTES"

definition espdrop_peer_id_equal :: "peer_id ptr \<Rightarrow> peer_id ptr \<Rightarrow> bool" where
  "espdrop_peer_id_equal left right \<longleftrightarrow> peer_id_valid left \<and> peer_id_valid right \<and>
     pid_length (deref left) = pid_length (deref right) \<and>
     memcmp (pid_bytes (deref left)) (pid_bytes (deref right)) (unat (pid_length (deref left))) = 0"

definition espdrop_peer_table_init :: "peer_table ptr \<Rightarrow> peer_table ptr" where
  "espdrop_peer_table_init table =
     (if table \<noteq> NULL then Ptr \<lparr>pt_peers = replicate ESPDROP_MAX_PEERS espdrop_peer_zero, pt_count = 0\<rparr>
      else NULL)"

definition find_mutable :: "peer_table \<Rightarrow> peer_id \<Rightarrow> nat option" where
  "find_mutable table ident =
     find_index (\<lambda>p. espdrop_peer_id_equal (Ptr (pr_id p)) (Ptr ident)) (take (pt_count table) (pt_peers table))"

definition espdrop_peer_table_find :: "peer_table ptr \<Rightarrow> peer_id ptr \<Rightarrow> nat option" where
  "espdrop_peer_table_find table ident =
     (if table = NULL \<or> \<not> peer_id_valid ident then None
      else find_index (\<lambda>p. espdrop_peer_id_equal (Ptr (pr_id p)) ident)
             (take (pt_count (deref table)) (pt_peers (deref table))))"

text \<open>
  The loop shared by the unique selections and by the endpoint match: it remembers the first
  index that qualifies and gives up (\<open>None\<close>) at the second.
\<close>

fun unique_match :: "('a \<Rightarrow> bool) \<Rightarrow> 'a list \<Rightarrow> nat \<Rightarrow> nat option \<Rightarrow> nat option option" where
  "unique_match q [] index match = Some match"
| "unique_match q (candidate # rest) index match =
     (if \<not> q candidate then unique_match q rest (Suc index) match
      else if match \<noteq> None then None
      else unique_match q rest (Suc index) (Some index))"

definition airdrop_fresh :: "u64 \<Rightarrow> u64 \<Rightarrow> espdrop_peer \<Rightarrow> bool" where
  "airdrop_fresh now_ms max_age_ms p \<longleftrightarrow>
     pr_signals p AND ESPDROP_PEER_SIGNAL_AIRDROP \<noteq> 0 \<and>
     pr_airdrop_seen_ms p \<le> now_ms \<and> now_ms - pr_airdrop_seen_ms p \<le> max_age_ms"

definition espdrop_peer_table_select_unique_airdrop ::
  "peer_table ptr \<Rightarrow> u64 \<Rightarrow> u64 \<Rightarrow> nat option ptr \<Rightarrow> table_result \<times> nat option ptr" where
  "espdrop_peer_table_select_unique_airdrop table now_ms max_age_ms peer =
     (if table = NULL \<or> peer = NULL then (TABLE_INVALID_ARGUMENT, peer)
      else case unique_match (airdrop_fresh now_ms max_age_ms)
                  (take (pt_count (deref table)) (pt_peers (deref table))) 0 None of
        None \<Rightarrow> (TABLE_AMBIGUOUS, Ptr None)
      | Some found \<Rightarrow> (if found = None then TABLE_NOT_FOUND else TABLE_OK, Ptr found))"

definition copy_text :: "bytes \<Rightarrow> nat \<Rightarrow> bytes ptr \<Rightarrow> bytes" where
  "copy_text destination capacity source =
     (if source = NULL \<or> capacity = 0 then destination
      else let length0 = length (deref source);
               len = (if length0 \<ge> capacity then capacity - 1 else length0) in
           take len (deref source))"

definition endpoint_match :: "bytes \<Rightarrow> espdrop_peer \<Rightarrow> bool" where
  "endpoint_match ipv6 p \<longleftrightarrow> pr_signals p AND ESPDROP_PEER_SIGNAL_AWDL \<noteq> 0 \<and>
     memcmp (pr_ipv6 p) ipv6 ESPDROP_IPV6_BYTES = 0"

definition espdrop_peer_table_apply_airdrop_endpoint ::
  "peer_table ptr \<Rightarrow> bytes ptr \<Rightarrow> u16 \<Rightarrow> bytes ptr \<Rightarrow> u64 \<Rightarrow> nat option ptr \<Rightarrow>
     table_result \<times> peer_table ptr \<times> nat option ptr" where
  "espdrop_peer_table_apply_airdrop_endpoint table ipv6 port service_id seen_ms peer =
     (if table = NULL \<or> ipv6 = NULL \<or> port = 0 \<or> service_id = NULL \<or> deref service_id = []
      then (TABLE_INVALID_ARGUMENT, table, peer)
      else
        let t = deref table;
            peer0 = (if peer \<noteq> NULL then Ptr None else NULL) in
        case unique_match (endpoint_match (deref ipv6)) (take (pt_count t) (pt_peers t)) 0 None of
          None \<Rightarrow> (TABLE_AMBIGUOUS, table, peer0)
        | Some None \<Rightarrow> (TABLE_NOT_FOUND, table, peer0)
        | Some (Some i) \<Rightarrow>
            let m = pt_peers t ! i;
                m1 = m\<lparr>pr_signals := pr_signals m OR ESPDROP_PEER_SIGNAL_AIRDROP, pr_airdrop_seen_ms := seen_ms\<rparr>;
                m2 = (if seen_ms > pr_last_seen_ms m1 then m1\<lparr>pr_last_seen_ms := seen_ms\<rparr> else m1);
                m3 = m2\<lparr>pr_ipv6 := deref ipv6, pr_airdrop_port := port, pr_airdrop_endpoint_complete := True,
                        pr_service_id := copy_text (pr_service_id m2) ESPDROP_SERVICE_ID_MAX_BYTES service_id\<rparr> in
            (TABLE_OK, Ptr (t\<lparr>pt_peers := (pt_peers t)[i := m3]\<rparr>),
             if peer \<noteq> NULL then Ptr (Some i) else NULL))"

definition endpoint_fresh :: "u64 \<Rightarrow> u64 \<Rightarrow> espdrop_peer \<Rightarrow> bool" where
  "endpoint_fresh now_ms max_age_ms p \<longleftrightarrow>
     \<not> (\<not> pr_airdrop_endpoint_complete p \<or> pr_airdrop_seen_ms p > now_ms \<or>
        now_ms - pr_airdrop_seen_ms p > max_age_ms)"

definition espdrop_peer_table_select_unique_airdrop_endpoint ::
  "peer_table ptr \<Rightarrow> u64 \<Rightarrow> u64 \<Rightarrow> nat option ptr \<Rightarrow> table_result \<times> nat option ptr" where
  "espdrop_peer_table_select_unique_airdrop_endpoint table now_ms max_age_ms peer =
     (if table = NULL \<or> peer = NULL then (TABLE_INVALID_ARGUMENT, peer)
      else case unique_match (endpoint_fresh now_ms max_age_ms)
                  (take (pt_count (deref table)) (pt_peers (deref table))) 0 None of
        None \<Rightarrow> (TABLE_AMBIGUOUS, Ptr None)
      | Some found \<Rightarrow> (if found = None then TABLE_NOT_FOUND else TABLE_OK, Ptr found))"

definition proximity_candidate :: "u64 \<Rightarrow> u64 \<Rightarrow> int \<Rightarrow> bool \<Rightarrow> espdrop_peer \<Rightarrow> bool" where
  "proximity_candidate now_ms max_age_ms min_rssi require_complete_endpoint p \<longleftrightarrow>
     \<not> (pr_signals p AND (ESPDROP_PEER_SIGNAL_AWDL OR ESPDROP_PEER_SIGNAL_AIRDROP) \<noteq>
          (ESPDROP_PEER_SIGNAL_AWDL OR ESPDROP_PEER_SIGNAL_AIRDROP) \<or>
        \<not> aps_peer_valid (pr_awdl p) \<or>
        (require_complete_endpoint \<and> \<not> pr_airdrop_endpoint_complete p) \<or>
        pr_awdl_seen_ms p > now_ms \<or> pr_airdrop_seen_ms p > now_ms \<or>
        now_ms - pr_awdl_seen_ms p > max_age_ms \<or> now_ms - pr_airdrop_seen_ms p > max_age_ms \<or>
        pr_awdl_rssi p < min_rssi)"

text \<open>\<open>best\<close> and \<open>runner_up\<close> are indices into the whole list \<open>all\<close> of used entries.\<close>

fun proximity_loop ::
  "(espdrop_peer \<Rightarrow> bool) \<Rightarrow> espdrop_peer list \<Rightarrow> nat list \<Rightarrow> nat option \<times> nat option \<Rightarrow> nat option \<times> nat option" where
  "proximity_loop q all [] (best, runner_up) = (best, runner_up)"
| "proximity_loop q all (index # rest) (best, runner_up) =
     (let candidate = all ! index in
      if \<not> q candidate then proximity_loop q all rest (best, runner_up)
      else if best = None \<or> pr_awdl_rssi candidate > pr_awdl_rssi (all ! the best)
      then proximity_loop q all rest (Some index, best)
      else if runner_up = None \<or> pr_awdl_rssi candidate > pr_awdl_rssi (all ! the runner_up)
      then proximity_loop q all rest (best, Some index)
      else proximity_loop q all rest (best, runner_up))"

definition espdrop_peer_table_select_airdrop_proximity ::
  "peer_table ptr \<Rightarrow> u64 \<Rightarrow> u64 \<Rightarrow> int \<Rightarrow> int \<Rightarrow> bool \<Rightarrow> nat option ptr \<Rightarrow> table_result \<times> nat option ptr" where
  "espdrop_peer_table_select_airdrop_proximity table now_ms max_age_ms min_rssi min_margin_db
       require_complete_endpoint peer =
     (if table = NULL \<or> peer = NULL \<or> min_rssi < -127 \<or> min_rssi > 0 \<or> min_margin_db < 0
      then (TABLE_INVALID_ARGUMENT, peer)
      else
        let used = take (pt_count (deref table)) (pt_peers (deref table));
            (best, runner_up) =
              proximity_loop (proximity_candidate now_ms max_age_ms min_rssi require_complete_endpoint)
                used [0..<length used] (None, None) in
        if best = None then (TABLE_NOT_FOUND, Ptr None)
        else if runner_up \<noteq> None \<and>
                pr_awdl_rssi (used ! the best) - pr_awdl_rssi (used ! the runner_up) < min_margin_db
        then (TABLE_AMBIGUOUS, Ptr None)
        else (TABLE_OK, Ptr best))"

text \<open>The update of the target entry at the end of \<open>espdrop_peer_table_observe\<close>.\<close>

definition merge_signals :: "peer_observation \<Rightarrow> espdrop_peer \<Rightarrow> espdrop_peer" where
  "merge_signals ob target =
     (let t1 = target\<lparr>pr_signals := pr_signals target OR po_signals ob\<rparr>;
          t2 = (if po_seen_ms ob > pr_last_seen_ms t1 then t1\<lparr>pr_last_seen_ms := po_seen_ms ob\<rparr> else t1);
          t3 = (if po_signals ob AND ESPDROP_PEER_SIGNAL_BLE \<noteq> 0
                then t2\<lparr>pr_ble_seen_ms := po_seen_ms ob, pr_ble_rssi := po_rssi ob\<rparr> else t2);
          t4 = (if po_signals ob AND ESPDROP_PEER_SIGNAL_AWDL \<noteq> 0
                then let u1 = t3\<lparr>pr_awdl_seen_ms := po_seen_ms ob, pr_awdl_rssi := po_rssi ob\<rparr>;
                         u2 = (if po_awdl_mac ob \<noteq> NULL then u1\<lparr>pr_awdl_mac := deref (po_awdl_mac ob)\<rparr> else u1);
                         u3 = (if po_ipv6 ob \<noteq> NULL then u2\<lparr>pr_ipv6 := deref (po_ipv6 ob)\<rparr> else u2) in u3
                else t3) in
      if po_signals ob AND ESPDROP_PEER_SIGNAL_AIRDROP \<noteq> 0
      then t4\<lparr>pr_airdrop_seen_ms := po_seen_ms ob,
              pr_service_id := copy_text (pr_service_id t4) ESPDROP_SERVICE_ID_MAX_BYTES (po_service_id ob),
              pr_display_name := copy_text (pr_display_name t4) ESPDROP_PEER_NAME_MAX_BYTES (po_display_name ob)\<rparr>
      else t4)"

definition new_peer :: "peer_observation \<Rightarrow> espdrop_peer" where
  "new_peer ob = espdrop_peer_zero\<lparr>pr_id := po_id ob, pr_first_seen_ms := po_seen_ms ob,
     pr_ble_rssi := -127, pr_awdl_rssi := -127\<rparr>"

definition espdrop_peer_table_observe ::
  "peer_table ptr \<Rightarrow> peer_observation ptr \<Rightarrow> nat option ptr \<Rightarrow> table_result \<times> peer_table ptr \<times> nat option ptr" where
  "espdrop_peer_table_observe table observation peer =
     (if table = NULL \<or> observation = NULL \<or> \<not> peer_id_valid (Ptr (po_id (deref observation))) \<or>
         po_signals (deref observation) = ESPDROP_PEER_SIGNAL_NONE
      then (TABLE_INVALID_ARGUMENT, table, peer)
      else
        let t = deref table; ob = deref observation in
        case find_mutable t (po_id ob) of
          Some i \<Rightarrow>
            (TABLE_OK, Ptr (t\<lparr>pt_peers := (pt_peers t)[i := merge_signals ob (pt_peers t ! i)]\<rparr>),
             if peer \<noteq> NULL then Ptr (Some i) else NULL)
        | None \<Rightarrow>
            if pt_count t \<ge> ESPDROP_MAX_PEERS then (TABLE_FULL, table, peer)
            else (TABLE_OK,
                  Ptr (t\<lparr>pt_peers := (pt_peers t)[pt_count t := merge_signals ob (new_peer ob)],
                         pt_count := pt_count t + 1\<rparr>),
                  if peer \<noteq> NULL then Ptr (Some (pt_count t)) else NULL))"

definition peer_fresh :: "u64 \<Rightarrow> u64 \<Rightarrow> espdrop_peer \<Rightarrow> bool" where
  "peer_fresh now_ms max_age_ms candidate \<longleftrightarrow>
     pr_last_seen_ms candidate > now_ms \<or> now_ms - pr_last_seen_ms candidate \<le> max_age_ms"

definition espdrop_peer_table_expire :: "peer_table ptr \<Rightarrow> u64 \<Rightarrow> u64 \<Rightarrow> nat \<times> peer_table ptr" where
  "espdrop_peer_table_expire table now_ms max_age_ms =
     (if table = NULL then (0, table)
      else
        let t = deref table;
            old_count = pt_count t;
            (peers, write_index) = compact (peer_fresh now_ms max_age_ms) espdrop_peer_zero (pt_peers t) old_count in
        (old_count - write_index, Ptr (t\<lparr>pt_peers := peers, pt_count := write_index\<rparr>)))"

section \<open>Identifiers and well-formed tables\<close>

definition pid_key :: "peer_id \<Rightarrow> bytes" where
  "pid_key i = take (unat (pid_length i)) (pid_bytes i)"

definition okey :: "bytes \<Rightarrow> bool" where
  "okey k \<longleftrightarrow> 0 < length k \<and> length k \<le> ESPDROP_PEER_ID_MAX_BYTES"

definition mk_id :: "bytes \<Rightarrow> peer_id" where
  "mk_id k = \<lparr>pid_bytes = k @ replicate (ESPDROP_PEER_ID_MAX_BYTES - length k) 0, pid_length = of_nat (length k)\<rparr>"

definition wf_id :: "peer_id \<Rightarrow> bool" where
  "wf_id i \<longleftrightarrow> length (pid_bytes i) = ESPDROP_PEER_ID_MAX_BYTES \<and> peer_id_valid (Ptr i)"

definition key_of :: "espdrop_peer \<Rightarrow> bytes" where
  "key_of p = pid_key (pr_id p)"

text \<open>
  What every stored entry satisfies: a valid identifier, terminated strings that fit their
  arrays, a last-seen time no older than any per-signal time, and a complete endpoint only with
  a port and both radio signals.
\<close>

definition wf_entry :: "espdrop_peer \<Rightarrow> bool" where
  "wf_entry p \<longleftrightarrow> wf_id (pr_id p) \<and> length (pr_awdl_mac p) = 6 \<and> length (pr_ipv6 p) = ESPDROP_IPV6_BYTES \<and>
     length (pr_service_id p) < ESPDROP_SERVICE_ID_MAX_BYTES \<and>
     length (pr_display_name p) < ESPDROP_PEER_NAME_MAX_BYTES \<and>
     pr_first_seen_ms p \<le> pr_last_seen_ms p \<and> pr_ble_seen_ms p \<le> pr_last_seen_ms p \<and>
     pr_awdl_seen_ms p \<le> pr_last_seen_ms p \<and> pr_airdrop_seen_ms p \<le> pr_last_seen_ms p \<and>
     (pr_airdrop_endpoint_complete p \<longrightarrow> pr_airdrop_port p \<noteq> 0 \<and>
        pr_signals p AND ESPDROP_PEER_SIGNAL_AWDL \<noteq> 0 \<and> pr_signals p AND ESPDROP_PEER_SIGNAL_AIRDROP \<noteq> 0)"

definition used_entries :: "peer_table \<Rightarrow> espdrop_peer list" where
  "used_entries t = take (pt_count t) (pt_peers t)"

definition wf_table :: "peer_table \<Rightarrow> bool" where
  "wf_table t \<longleftrightarrow> length (pt_peers t) = ESPDROP_MAX_PEERS \<and> pt_count t \<le> ESPDROP_MAX_PEERS \<and>
     distinct (map key_of (used_entries t)) \<and> (\<forall>p\<in>set (used_entries t). wf_entry p)"

definition wf_observation :: "peer_observation \<Rightarrow> bool" where
  "wf_observation ob \<longleftrightarrow> wf_id (po_id ob) \<and> po_signals ob \<noteq> ESPDROP_PEER_SIGNAL_NONE \<and>
     (po_awdl_mac ob \<noteq> NULL \<longrightarrow> length (deref (po_awdl_mac ob)) = 6) \<and>
     (po_ipv6 ob \<noteq> NULL \<longrightarrow> length (deref (po_ipv6 ob)) = ESPDROP_IPV6_BYTES)"

lemma length_pid_key: "wf_id i \<Longrightarrow> length (pid_key i) = unat (pid_length i)"
  by (simp add: pid_key_def wf_id_def peer_id_valid_def)

lemma okey_pid_key: "wf_id i \<Longrightarrow> okey (pid_key i)"
  by (auto simp: okey_def length_pid_key) (simp_all add: wf_id_def peer_id_valid_def unat_gt_0 word_gt_0)

lemma unat_key_length: "okey k \<Longrightarrow> unat (of_nat (length k) :: byte) = length k"
  by (simp add: okey_def ESPDROP_PEER_ID_MAX_BYTES_def unat_of_nat)

lemma wf_mk_id: "okey k \<Longrightarrow> wf_id (mk_id k)"
  using unat_key_length [of k]
  by (auto simp: okey_def wf_id_def mk_id_def peer_id_valid_def word_gt_0 unat_gt_0 [symmetric])

lemma pid_key_mk_id: "okey k \<Longrightarrow> pid_key (mk_id k) = k"
  by (simp add: pid_key_def mk_id_def unat_key_length)

lemma peer_id_equal_iff:
  assumes "wf_id i" and "wf_id j"
  shows "espdrop_peer_id_equal (Ptr i) (Ptr j) \<longleftrightarrow> pid_key i = pid_key j"
proof
  assume "espdrop_peer_id_equal (Ptr i) (Ptr j)"
  then show "pid_key i = pid_key j"
    using assms length_pid_key [of i] length_pid_key [of j]
    by (auto simp: espdrop_peer_id_equal_def memcmp_def pid_key_def bytes_cmp_eq_0)
next
  assume eq: "pid_key i = pid_key j"
  then have "pid_length i = pid_length j"
    using assms by (metis length_pid_key word_eq_iff_unsigned)
  with eq assms show "espdrop_peer_id_equal (Ptr i) (Ptr j)"
    by (simp add: espdrop_peer_id_equal_def memcmp_def pid_key_def wf_id_def)
qed

lemma find_mutable_used:
  assumes "wf_table t" and "wf_id i"
  shows "find_mutable t i = find_index (\<lambda>p. key_of p = pid_key i) (used_entries t)"
  unfolding find_mutable_def used_entries_def [symmetric]
  by (rule find_index_cong) (use assms in \<open>auto simp: wf_table_def wf_entry_def peer_id_equal_iff key_of_def\<close>)

lemma table_find_used:
  "wf_table t \<Longrightarrow> wf_id i \<Longrightarrow> espdrop_peer_table_find (Ptr t) (Ptr i) = find_mutable t i"
  by (simp add: espdrop_peer_table_find_def find_mutable_def wf_id_def)

lemma nth_used_entries: "i < length (used_entries t) \<Longrightarrow> used_entries t ! i = pt_peers t ! i"
  by (simp add: used_entries_def)

lemma length_used_entries: "wf_table t \<Longrightarrow> length (used_entries t) = pt_count t"
  by (simp add: used_entries_def wf_table_def)

lemma find_mutable_Some:
  assumes "wf_table t" and "wf_id i" and "find_mutable t i = Some n"
  shows "n < length (used_entries t) \<and> key_of (pt_peers t ! n) = pid_key i"
  using find_index_SomeD [of _ "used_entries t" n] assms find_mutable_used [OF assms(1,2)]
    nth_used_entries [of n t] by auto

section \<open>The table contract\<close>

text \<open>The client's view: a peer by its identifier bytes.\<close>

definition peer_at :: "peer_table \<Rightarrow> bytes \<Rightarrow> espdrop_peer option" where
  "peer_at t k = map_option (\<lambda>i. pt_peers t ! i) (espdrop_peer_table_find (Ptr t) (Ptr (mk_id k)))"

interpretation peers: keyed_table used_entries key_of wf_table ESPDROP_MAX_PEERS okey peer_at
proof unfold_locales
  fix t k assume wf: "wf_table t" and k: "okey k"
  note f = table_find_used [OF wf wf_mk_id [OF k]] find_mutable_used [OF wf wf_mk_id [OF k]] pid_key_mk_id [OF k]
  show "peer_at t k = find (\<lambda>e. key_of e = k) (used_entries t)"
    unfolding peer_at_def f find_via_index
    by (cases "find_index (\<lambda>p. key_of p = k) (used_entries t)")
      (auto dest: find_index_SomeD simp: nth_used_entries)
qed (auto simp: wf_table_def used_entries_def)

definition expire_table :: "peer_table \<Rightarrow> u64 \<times> u64 \<Rightarrow> peer_table" where
  "expire_table t c = deref (snd (espdrop_peer_table_expire (Ptr t) (fst c) (snd c)))"

lemma expire_table_correct:
  assumes "wf_table t"
  shows "wf_table (expire_table t c)"
    and "used_entries (expire_table t c) = filter (peer_fresh (fst c) (snd c)) (used_entries t)"
proof -
  obtain ps w where co: "compact (peer_fresh (fst c) (snd c)) espdrop_peer_zero (pt_peers t) (pt_count t) = (ps, w)"
    by force
  then have e: "expire_table t c = t\<lparr>pt_peers := ps, pt_count := w\<rparr>"
    by (simp add: expire_table_def espdrop_peer_table_expire_def Let_def)
  have c: "length ps = length (pt_peers t)" "w \<le> pt_count t"
    "take w ps = filter (peer_fresh (fst c) (snd c)) (used_entries t)"
    using compact_spec [OF co] assms by (auto simp: wf_table_def used_entries_def)
  then show u: "used_entries (expire_table t c) = filter (peer_fresh (fst c) (snd c)) (used_entries t)"
    by (simp add: e used_entries_def)
  show "wf_table (expire_table t c)"
    using assms c u by (auto simp: wf_table_def e distinct_map_filter)
qed

interpretation peer_expiry: expiring_table used_entries key_of wf_table ESPDROP_MAX_PEERS okey peer_at
  "\<lambda>t c. peer_fresh (fst c) (snd c)" expire_table
  by unfold_locales (simp_all add: expire_table_correct)

lemma copy_text_length: "length d < n \<Longrightarrow> length (copy_text d n src) < n"
  by (auto simp: copy_text_def Let_def)

lemma or_keeps: "(a::u32) AND m \<noteq> 0 \<Longrightarrow> (a OR b) AND m \<noteq> 0"
  by (metis bit.conj_disj_distrib2 or_eq_0_iff)

lemma key_merge [simp]: "key_of (merge_signals ob p) = key_of p"
  by (simp add: merge_signals_def Let_def key_of_def)

lemma key_new [simp]: "key_of (new_peer ob) = pid_key (po_id ob)"
  by (simp add: new_peer_def key_of_def)

lemma merge_last_seen: "pr_last_seen_ms (merge_signals ob p) = max (pr_last_seen_ms p) (po_seen_ms ob)"
  by (auto simp: merge_signals_def Let_def max_def)

lemma merge_kept [simp]:
  "pr_first_seen_ms (merge_signals ob p) = pr_first_seen_ms p"
  "pr_signals (merge_signals ob p) = pr_signals p OR po_signals ob"
  "pr_airdrop_endpoint_complete (merge_signals ob p) = pr_airdrop_endpoint_complete p"
  "pr_airdrop_port (merge_signals ob p) = pr_airdrop_port p" "pr_id (merge_signals ob p) = pr_id p"
  by (simp_all add: merge_signals_def Let_def)

lemma merge_times:
  assumes "pr_ble_seen_ms p \<le> m" and "pr_awdl_seen_ms p \<le> m" and "pr_airdrop_seen_ms p \<le> m"
  shows "pr_ble_seen_ms (merge_signals ob p) \<le> max m (po_seen_ms ob) \<and>
     pr_awdl_seen_ms (merge_signals ob p) \<le> max m (po_seen_ms ob) \<and>
     pr_airdrop_seen_ms (merge_signals ob p) \<le> max m (po_seen_ms ob)"
  using assms by (simp add: merge_signals_def Let_def le_max_iff_disj)

lemma merge_lengths:
  assumes "wf_observation ob" and "length (pr_awdl_mac p) = 6" and "length (pr_ipv6 p) = ESPDROP_IPV6_BYTES"
    and "length (pr_service_id p) < ESPDROP_SERVICE_ID_MAX_BYTES"
    and "length (pr_display_name p) < ESPDROP_PEER_NAME_MAX_BYTES"
  shows "length (pr_awdl_mac (merge_signals ob p)) = 6 \<and>
     length (pr_ipv6 (merge_signals ob p)) = ESPDROP_IPV6_BYTES \<and>
     length (pr_service_id (merge_signals ob p)) < ESPDROP_SERVICE_ID_MAX_BYTES \<and>
     length (pr_display_name (merge_signals ob p)) < ESPDROP_PEER_NAME_MAX_BYTES"
  using assms by (simp add: merge_signals_def Let_def wf_observation_def copy_text_length)

lemma wf_merge: "wf_entry p \<Longrightarrow> wf_observation ob \<Longrightarrow> wf_entry (merge_signals ob p)"
  using merge_lengths [of ob p] merge_times [of p "pr_last_seen_ms p" ob] or_keeps
  by (auto simp: wf_entry_def merge_last_seen le_max_iff_disj)

lemma wf_new: "wf_observation ob \<Longrightarrow> wf_entry (merge_signals ob (new_peer ob))"
  using merge_lengths [of ob "new_peer ob"] merge_times [of "new_peer ob" 0 ob]
  by (simp add: wf_entry_def merge_last_seen le_max_iff_disj new_peer_def espdrop_peer_zero_def
      wf_observation_def ESPDROP_IPV6_BYTES_def ESPDROP_SERVICE_ID_MAX_BYTES_def
      ESPDROP_PEER_NAME_MAX_BYTES_def)

text \<open>Replacing a used entry by one with the same key keeps the table well formed.\<close>

lemma wf_table_update:
  assumes wf: "wf_table t" and i: "i < length (used_entries t)"
    and q: "wf_entry q" "key_of q = key_of (pt_peers t ! i)"
  shows "wf_table (t\<lparr>pt_peers := (pt_peers t)[i := q]\<rparr>)"
    and "used_entries (t\<lparr>pt_peers := (pt_peers t)[i := q]\<rparr>) = (used_entries t)[i := q]"
proof -
  show u: "used_entries (t\<lparr>pt_peers := (pt_peers t)[i := q]\<rparr>) = (used_entries t)[i := q]"
    using i by (simp add: used_entries_def take_update_swap)
  have "map key_of ((used_entries t)[i := q]) = map key_of (used_entries t)"
    using i q by (simp add: map_update list_update_same_conv nth_used_entries)
  moreover have "\<forall>p\<in>set ((used_entries t)[i := q]). wf_entry p"
    using wf q set_update_subset_insert [of "used_entries t" i q] by (auto simp: wf_table_def)
  ultimately show "wf_table (t\<lparr>pt_peers := (pt_peers t)[i := q]\<rparr>)"
    unfolding wf_table_def u using wf by (simp add: wf_table_def)
qed

definition observe_table :: "peer_table \<Rightarrow> peer_observation \<Rightarrow> peer_table option" where
  "observe_table t ob = (case espdrop_peer_table_observe (Ptr t) (Ptr ob) NULL of
     (TABLE_OK, t', _) \<Rightarrow> Some (deref t') | _ \<Rightarrow> None)"

definition merge_ob :: "peer_observation \<Rightarrow> espdrop_peer option \<Rightarrow> espdrop_peer" where
  "merge_ob ob old = merge_signals ob (case old of Some p \<Rightarrow> p | None \<Rightarrow> new_peer ob)"

lemma observe_table_eq:
  assumes "wf_observation ob"
  shows "observe_table t ob =
    (case find_mutable t (po_id ob) of
       Some i \<Rightarrow> Some (t\<lparr>pt_peers := (pt_peers t)[i := merge_signals ob (pt_peers t ! i)]\<rparr>)
     | None \<Rightarrow> if pt_count t \<ge> ESPDROP_MAX_PEERS then None
               else Some (t\<lparr>pt_peers := (pt_peers t)[pt_count t := merge_signals ob (new_peer ob)],
                            pt_count := pt_count t + 1\<rparr>))"
  using assms
  by (auto simp: observe_table_def espdrop_peer_table_observe_def Let_def wf_observation_def wf_id_def
      split: option.splits)

lemma peer_at_find:
  assumes "wf_table t" and "wf_id i"
  shows "peer_at t (pid_key i) = map_option (\<lambda>n. pt_peers t ! n) (find_mutable t i)"
  unfolding peer_at_def
  using assms okey_pid_key [OF assms(2)]
  by (simp add: table_find_used wf_mk_id find_mutable_used pid_key_mk_id)

lemma observe_table_miss:
  assumes wf: "wf_table t" and ob: "wf_observation ob"
    and miss: "find_mutable t (po_id ob) = None" and room: "pt_count t < ESPDROP_MAX_PEERS"
    and t': "t' = t\<lparr>pt_peers := (pt_peers t)[pt_count t := merge_signals ob (new_peer ob)], pt_count := pt_count t + 1\<rparr>"
  shows "wf_table t' \<and> used_entries t' = used_entries t @ [merge_signals ob (new_peer ob)]"
proof -
  have id: "wf_id (po_id ob)" using ob by (simp add: wf_observation_def)
  have n: "pt_count t < length (pt_peers t)" using room wf by (simp add: wf_table_def)
  have u: "used_entries t' = used_entries t @ [merge_signals ob (new_peer ob)]"
    using n by (simp add: t' used_entries_def take_Suc_conv_app_nth)
  have nin: "pid_key (po_id ob) \<notin> key_of ` set (used_entries t)"
    using miss find_mutable_used [OF wf id] by (auto simp: find_index_None)
  have "length (pt_peers t') = ESPDROP_MAX_PEERS" "pt_count t' \<le> ESPDROP_MAX_PEERS"
    using wf room by (simp_all add: t' wf_table_def)
  then show ?thesis using u nin wf wf_new [OF ob] by (simp add: wf_table_def)
qed

interpretation peer_upsert: upserting_table used_entries key_of wf_table ESPDROP_MAX_PEERS okey peer_at
  observe_table "\<lambda>ob. pid_key (po_id ob)" merge_ob wf_observation
proof unfold_locales
  fix t t' and ob :: peer_observation
  assume wf: "wf_table t" and ob: "wf_observation ob"
  have id: "wf_id (po_id ob)" using ob by (simp add: wf_observation_def)
  note eq = observe_table_eq [OF ob, of t]
  have hit: "wf_table (t\<lparr>pt_peers := (pt_peers t)[i := merge_signals ob (pt_peers t ! i)]\<rparr>) \<and>
      i < length (used_entries t) \<and>
      used_entries (t\<lparr>pt_peers := (pt_peers t)[i := merge_signals ob (pt_peers t ! i)]\<rparr>) =
        (used_entries t)[i := merge_signals ob (pt_peers t ! i)]"
    if "find_mutable t (po_id ob) = Some i" for i
  proof -
    have i: "i < length (used_entries t)" using find_mutable_Some [OF wf id that] by simp
    then have "wf_entry (pt_peers t ! i)" using wf nth_mem [OF i] by (simp add: wf_table_def nth_used_entries)
    then show ?thesis using wf_table_update [OF wf i wf_merge [OF _ ob]] i by simp
  qed
  show "wf_table t'" if "observe_table t ob = Some t'"
    using that hit observe_table_miss [OF wf ob] by (auto simp: eq split: option.splits if_splits)
  show "\<exists>t' xs ys. observe_table t ob = Some t' \<and> used_entries t = xs @ p # ys \<and>
      used_entries t' = xs @ merge_ob ob (Some p) # ys"
    if at: "peer_at t (pid_key (po_id ob)) = Some p" for p
  proof -
    obtain i where i: "find_mutable t (po_id ob) = Some i" "pt_peers t ! i = p"
      using at peer_at_find [OF wf id] by auto
    with hit [OF i(1)] show ?thesis
      using id_take_nth_drop [of i "used_entries t"]
      by (intro exI [of _ "t\<lparr>pt_peers := (pt_peers t)[i := merge_signals ob (pt_peers t ! i)]\<rparr>"]
          exI [of _ "take i (used_entries t)"] exI [of _ "drop (Suc i) (used_entries t)"])
        (simp add: eq merge_ob_def upd_conv_take_nth_drop nth_used_entries)
  qed
  show "\<exists>t'. observe_table t ob = Some t' \<and> used_entries t' = used_entries t @ [merge_ob ob None]"
    if "peer_at t (pid_key (po_id ob)) = None" "length (used_entries t) < ESPDROP_MAX_PEERS"
    using that peer_at_find [OF wf id] observe_table_miss [OF wf ob _ _ refl]
    by (simp add: eq merge_ob_def length_used_entries [OF wf])
  show "observe_table t ob = None"
    if "peer_at t (pid_key (po_id ob)) = None" "length (used_entries t) = ESPDROP_MAX_PEERS"
    using that peer_at_find [OF wf id] by (simp add: eq length_used_entries [OF wf])
qed (auto simp: merge_ob_def okey_pid_key wf_observation_def split: option.splits)

section \<open>Unique and proximity selection\<close>

lemma unique_match_acc:
  "unique_match q xs n (Some m) = (if \<exists>x\<in>set xs. q x then None else Some (Some m))"
  by (induction xs arbitrary: n) auto

lemma unique_match_first:
  "unique_match q xs n None =
     (case find_index q xs of
        None \<Rightarrow> Some None
      | Some i \<Rightarrow> if \<exists>x\<in>set (drop (Suc i) xs). q x then None else Some (Some (n + i)))"
  by (induction xs arbitrary: n) (auto simp: unique_match_acc split: option.splits)

lemma unique_match_none: "unique_match q xs 0 None = Some None \<longleftrightarrow> (\<forall>j<length xs. \<not> q (xs ! j))"
  by (auto simp: unique_match_first find_index_None all_set_conv_all_nth split: option.splits)
    (metis find_index_SomeD)+

lemma unique_match_one:
  "unique_match q xs 0 None = Some (Some i) \<longleftrightarrow>
     i < length xs \<and> q (xs ! i) \<and> (\<forall>j<length xs. q (xs ! j) \<longrightarrow> j = i)"
proof
  assume u: "unique_match q xs 0 None = Some (Some i)"
  then have f: "find_index q xs = Some i" and later: "\<And>x. x \<in> set (drop (Suc i) xs) \<Longrightarrow> \<not> q x"
    by (auto simp: unique_match_first split: option.splits if_splits)
  from find_index_SomeD [OF f] have i: "i < length xs" "q (xs ! i)" "\<And>j. j < i \<Longrightarrow> \<not> q (xs ! j)" by auto
  have "j = i" if "j < length xs" "q (xs ! j)" for j
  proof (rule ccontr)
    assume "j \<noteq> i"
    then have "i < j" using i(3) [of j] that by (cases "j < i") auto
    then have "xs ! j \<in> set (drop (Suc i) xs)"
      using that by (auto simp: in_set_conv_nth intro!: exI [of _ "j - Suc i"])
    with later that show False by blast
  qed
  with i show "i < length xs \<and> q (xs ! i) \<and> (\<forall>j<length xs. q (xs ! j) \<longrightarrow> j = i)" by blast
next
  assume i: "i < length xs \<and> q (xs ! i) \<and> (\<forall>j<length xs. q (xs ! j) \<longrightarrow> j = i)"
  then have "\<not> q (xs ! j)" if "j < i" for j using that by (metis less_trans nat_neq_iff)
  with i have "find_index q xs = Some i" by (intro find_index_SomeI) simp_all
  moreover have "\<not> q x" if x: "x \<in> set (drop (Suc i) xs)" for x
  proof -
    obtain k where k: "k < length xs - Suc i" "x = xs ! (Suc i + k)"
      using x by (auto simp: in_set_conv_nth)
    have "q (xs ! (Suc i + k)) \<Longrightarrow> Suc i + k = i" using i k(1) by (metis less_diff_conv add.commute)
    with k(2) show ?thesis by auto
  qed
  ultimately show "unique_match q xs 0 None = Some (Some i)"
    by (auto simp: unique_match_first)
qed

definition top_two :: "(espdrop_peer \<Rightarrow> bool) \<Rightarrow> espdrop_peer list \<Rightarrow> nat set \<Rightarrow> nat option \<Rightarrow> nat option \<Rightarrow> bool" where
  "top_two q all S best run \<longleftrightarrow>
     (let C = {i\<in>S. q (all ! i)}; r = (\<lambda>i. pr_awdl_rssi (all ! i)) in
      (best = None \<longleftrightarrow> C = {}) \<and>
      (\<forall>b. best = Some b \<longrightarrow> b \<in> C \<and> (\<forall>i\<in>C. r i \<le> r b) \<and> (run = None \<longleftrightarrow> C = {b}) \<and>
         (\<forall>s. run = Some s \<longrightarrow> s \<in> C \<and> s \<noteq> b \<and> (\<forall>i\<in>C - {b}. r i \<le> r s))) \<and>
      (best = None \<longrightarrow> run = None))"

lemma proximity_loop_top_two:
  assumes "top_two q all S best run" and "distinct js" and "S \<inter> set js = {}"
    and "proximity_loop q all js (best, run) = (best', run')"
  shows "top_two q all (S \<union> set js) best' run'"
  using assms
proof (induction js arbitrary: S best run)
  case Nil
  then show ?case by simp
next
  case (Cons i js)
  obtain b1 r1 where step: "proximity_loop q all (i # js) (best, run) = proximity_loop q all js (b1, r1)"
    and t: "top_two q all (insert i S) b1 r1"
  proof -
    have i: "i \<notin> S" using Cons.prems(3) by auto
    have C: "{j \<in> insert i S. q (all ! j)} = (if q (all ! i) then insert i {j \<in> S. q (all ! j)} else {j \<in> S. q (all ! j)})"
      by auto
    consider (skip) "\<not> q (all ! i)"
      | (best) "q (all ! i)" "best = None \<or> pr_awdl_rssi (all ! i) > pr_awdl_rssi (all ! the best)"
      | (run) b where "q (all ! i)" "best = Some b" "\<not> pr_awdl_rssi (all ! i) > pr_awdl_rssi (all ! b)"
          "run = None \<or> pr_awdl_rssi (all ! i) > pr_awdl_rssi (all ! the run)"
      | (keep) b s where "q (all ! i)" "best = Some b" "\<not> pr_awdl_rssi (all ! i) > pr_awdl_rssi (all ! b)"
          "run = Some s" "\<not> pr_awdl_rssi (all ! i) > pr_awdl_rssi (all ! s)"
      by (cases best; cases run) auto
    then show thesis
    proof cases
      case skip
      then have "top_two q all (insert i S) best run"
        using Cons.prems(1) unfolding top_two_def Let_def C by simp
      then show thesis using skip by (intro that [of best run]) (simp_all add: Let_def)
    next
      case best
      have "top_two q all (insert i S) (Some i) best"
        using Cons.prems(1) best i unfolding top_two_def Let_def C by (cases best) auto
      then show thesis using best by (intro that [of "Some i" best]) (auto simp: Let_def)
    next
      case (run b)
      have "top_two q all (insert i S) (Some b) (Some i)"
        using Cons.prems(1) run i unfolding top_two_def Let_def C by (cases run) (auto, force)
      then show thesis using run by (intro that [of "Some b" "Some i"]) (auto simp: Let_def)
    next
      case (keep b s)
      have "top_two q all (insert i S) (Some b) (Some s)"
        using Cons.prems(1) keep i unfolding top_two_def Let_def C by auto
      then show thesis using keep by (intro that [of "Some b" "Some s"]) (auto simp: Let_def)
    qed
  qed
  show ?case
    using Cons.IH [OF t] Cons.prems(2,3,4) step by simp
qed

section \<open>Reachable tables\<close>

inductive reachable_table :: "peer_table \<Rightarrow> bool" where
  init: "espdrop_peer_table_init (Ptr t0) = Ptr t \<Longrightarrow> reachable_table t"
| observe: "reachable_table t \<Longrightarrow> wf_id (po_id ob) \<Longrightarrow> po_awdl_mac ob \<noteq> NULL \<longrightarrow> length (deref (po_awdl_mac ob)) = 6 \<Longrightarrow>
    po_ipv6 ob \<noteq> NULL \<longrightarrow> length (deref (po_ipv6 ob)) = ESPDROP_IPV6_BYTES \<Longrightarrow>
    espdrop_peer_table_observe (Ptr t) (Ptr ob) out = (r, Ptr t', out') \<Longrightarrow> reachable_table t'"
| endpoint: "reachable_table t \<Longrightarrow> length ipv6 = ESPDROP_IPV6_BYTES \<Longrightarrow>
    espdrop_peer_table_apply_airdrop_endpoint (Ptr t) (Ptr ipv6) port (Ptr sid) now out = (r, Ptr t', out') \<Longrightarrow>
    reachable_table t'"
| expire: "reachable_table t \<Longrightarrow> espdrop_peer_table_expire (Ptr t) now age = (n, Ptr t') \<Longrightarrow> reachable_table t'"

lemma observe_wf:
  assumes "wf_table t" and "wf_id (po_id ob)" and "po_awdl_mac ob \<noteq> NULL \<longrightarrow> length (deref (po_awdl_mac ob)) = 6"
    and "po_ipv6 ob \<noteq> NULL \<longrightarrow> length (deref (po_ipv6 ob)) = ESPDROP_IPV6_BYTES"
    and "espdrop_peer_table_observe (Ptr t) (Ptr ob) out = (r, Ptr t', out')"
  shows "wf_table t'"
proof (cases "r = TABLE_OK")
  case True
  have "po_signals ob \<noteq> ESPDROP_PEER_SIGNAL_NONE"
    using assms(5) True by (auto simp: espdrop_peer_table_observe_def)
  then have ob: "wf_observation ob" using assms(2-4) by (simp add: wf_observation_def)
  have "observe_table t ob = Some t'"
    using assms(5) True
    by (auto simp: observe_table_def espdrop_peer_table_observe_def Let_def split: if_splits option.splits)
  then show ?thesis using peer_upsert.upsert_invar [OF assms(1) ob] by blast
next
  case False
  then have "t' = t" using assms(5)
    by (auto simp: espdrop_peer_table_observe_def Let_def split: if_splits option.splits)
  then show ?thesis using assms(1) by simp
qed

definition completed :: "bytes \<Rightarrow> u16 \<Rightarrow> bytes \<Rightarrow> u64 \<Rightarrow> espdrop_peer \<Rightarrow> espdrop_peer" where
  "completed ipv6 port sid now p = p\<lparr>pr_signals := pr_signals p OR ESPDROP_PEER_SIGNAL_AIRDROP,
     pr_airdrop_seen_ms := now, pr_last_seen_ms := max (pr_last_seen_ms p) now, pr_ipv6 := ipv6,
     pr_airdrop_port := port, pr_airdrop_endpoint_complete := True, pr_service_id := take 63 sid\<rparr>"

text \<open>The endpoint update on every branch.\<close>

lemma apply_endpoint_cases:
  assumes "length ipv6 = ESPDROP_IPV6_BYTES"
  shows "espdrop_peer_table_apply_airdrop_endpoint (Ptr t) (Ptr ipv6) port (Ptr sid) now out =
     (if port = 0 \<or> sid = [] then (TABLE_INVALID_ARGUMENT, Ptr t, out)
      else let none = (if out \<noteq> NULL then Ptr None else NULL) in
        case unique_match (endpoint_match ipv6) (used_entries t) 0 None of
          None \<Rightarrow> (TABLE_AMBIGUOUS, Ptr t, none)
        | Some None \<Rightarrow> (TABLE_NOT_FOUND, Ptr t, none)
        | Some (Some i) \<Rightarrow> (TABLE_OK, Ptr (t\<lparr>pt_peers := (pt_peers t)[i := completed ipv6 port sid now (pt_peers t ! i)]\<rparr>),
             if out \<noteq> NULL then Ptr (Some i) else NULL))"
proof -
  have str: "copy_text d ESPDROP_SERVICE_ID_MAX_BYTES (Ptr sid) = take 63 sid" for d
    by (simp add: copy_text_def Let_def ESPDROP_SERVICE_ID_MAX_BYTES_def)
  show ?thesis
    by (simp add: espdrop_peer_table_apply_airdrop_endpoint_def Let_def used_entries_def str completed_def
        max_def not_less split: option.split)
qed

lemma wf_completed:
  assumes "wf_entry p" and "length ipv6 = ESPDROP_IPV6_BYTES" and "port \<noteq> 0"
    and "pr_signals p AND ESPDROP_PEER_SIGNAL_AWDL \<noteq> 0"
  shows "wf_entry (completed ipv6 port sid now p)"
proof -
  have "(pr_signals p OR ESPDROP_PEER_SIGNAL_AIRDROP) AND ESPDROP_PEER_SIGNAL_AIRDROP = ESPDROP_PEER_SIGNAL_AIRDROP"
    by (rule bit_word_eqI) (auto simp: bit_simps)
  then show ?thesis
    using assms or_keeps [OF assms(4)]
    by (auto simp: wf_entry_def completed_def le_max_iff_disj ESPDROP_PEER_SIGNAL_AIRDROP_def
        ESPDROP_SERVICE_ID_MAX_BYTES_def)
qed

lemma endpoint_wf:
  assumes "wf_table t" and "length ipv6 = ESPDROP_IPV6_BYTES"
    and "espdrop_peer_table_apply_airdrop_endpoint (Ptr t) (Ptr ipv6) port (Ptr sid) now out = (r, Ptr t', out')"
  shows "wf_table t'"
proof -
  have same: ?thesis if "t' = t" using that assms(1) by simp
  show ?thesis
  proof (cases "\<exists>i. unique_match (endpoint_match ipv6) (used_entries t) 0 None = Some (Some i) \<and> port \<noteq> 0 \<and> sid \<noteq> []")
    case True
    then obtain i where i: "unique_match (endpoint_match ipv6) (used_entries t) 0 None = Some (Some i)"
      and port: "port \<noteq> 0" "sid \<noteq> []" by blast
    from i have m: "i < length (used_entries t)" "endpoint_match ipv6 (pt_peers t ! i)"
      using unique_match_one [THEN iffD1, OF i] nth_used_entries [of i t] by simp_all
    then have p: "wf_entry (pt_peers t ! i)"
      using assms(1) nth_mem [OF m(1)] by (simp add: wf_table_def nth_used_entries)
    have c: "wf_entry (completed ipv6 port sid now (pt_peers t ! i))"
      using wf_completed [OF p assms(2) port(1)] m(2) by (simp add: endpoint_match_def)
    have "t' = t\<lparr>pt_peers := (pt_peers t)[i := completed ipv6 port sid now (pt_peers t ! i)]\<rparr>"
      using assms(3) i port by (simp add: apply_endpoint_cases [OF assms(2)] Let_def)
    then show ?thesis
      using wf_table_update(1) [OF assms(1) m(1) c] by (simp add: completed_def key_of_def)
  next
    case False
    then show ?thesis
      using assms(3) same by (auto simp: apply_endpoint_cases [OF assms(2)] Let_def split: if_splits option.splits)
  qed
qed

lemma reachable_wf_table: "reachable_table t \<Longrightarrow> wf_table t"
proof (induction rule: reachable_table.induct)
  case (init t0 t)
  then show ?case
    by (auto simp: espdrop_peer_table_init_def wf_table_def used_entries_def)
next
  case (expire t now age n t')
  then have "t' = expire_table t (now, age)" by (simp add: expire_table_def)
  then show ?case using expire.IH expire_table_correct(1) by simp
qed (use observe_wf endpoint_wf in blast)+

definition decisive :: "espdrop_peer list \<Rightarrow> nat set \<Rightarrow> int \<Rightarrow> nat \<Rightarrow> bool" where
  "decisive all C margin i \<longleftrightarrow> i \<in> C \<and> (\<forall>j\<in>C - {i}. pr_awdl_rssi (all ! j) + margin \<le> pr_awdl_rssi (all ! i))"

definition candidates :: "(espdrop_peer \<Rightarrow> bool) \<Rightarrow> espdrop_peer list \<Rightarrow> nat set" where
  "candidates q all = {i \<in> {0..<length all}. q (all ! i)}"

lemma top_two_decisive:
  assumes "top_two q all {0..<length all} (Some b) run" and "0 \<le> margin"
  shows "(run \<noteq> None \<and> pr_awdl_rssi (all ! b) - pr_awdl_rssi (all ! the run) < margin \<longrightarrow>
           \<not> (\<exists>i. decisive all (candidates q all) margin i)) \<and>
         (\<not> (run \<noteq> None \<and> pr_awdl_rssi (all ! b) - pr_awdl_rssi (all ! the run) < margin) \<longrightarrow>
           decisive all (candidates q all) margin b)"
proof (cases run)
  case None
  then have "candidates q all = {b}"
    using assms(1) by (simp add: top_two_def Let_def candidates_def)
  with None show ?thesis by (simp add: decisive_def)
next
  case (Some s)
  then have b: "b \<in> candidates q all" "\<And>i. i \<in> candidates q all \<Longrightarrow> pr_awdl_rssi (all ! i) \<le> pr_awdl_rssi (all ! b)"
    and s: "s \<in> candidates q all" "s \<noteq> b"
      "\<And>i. i \<in> candidates q all - {b} \<Longrightarrow> pr_awdl_rssi (all ! i) \<le> pr_awdl_rssi (all ! s)"
    using assms(1) by (auto simp: top_two_def Let_def candidates_def)
  have "decisive all (candidates q all) margin b" if "pr_awdl_rssi (all ! s) + margin \<le> pr_awdl_rssi (all ! b)"
    using that b(1) s(3) unfolding decisive_def by fastforce
  moreover have "\<not> decisive all (candidates q all) margin i"
    if "pr_awdl_rssi (all ! b) < pr_awdl_rssi (all ! s) + margin" for i
  proof
    assume i: "decisive all (candidates q all) margin i"
    show False
    proof (cases "i = b")
      case True
      then have "pr_awdl_rssi (all ! s) + margin \<le> pr_awdl_rssi (all ! b)"
        using i s(1,2) by (auto simp: decisive_def)
      then show False using that by simp
    next
      case False
      then have "pr_awdl_rssi (all ! b) + margin \<le> pr_awdl_rssi (all ! i)" "i \<in> candidates q all - {b}"
        using i b(1) by (auto simp: decisive_def)
      then show False using s(3) [of i] that b(2) [OF s(1)] assms(2) by linarith
    qed
  qed
  ultimately show ?thesis using Some by auto
qed

section \<open>Properties\<close>

text \<open>
  C12. Proximity selection is decisive. For valid thresholds, the selection fails with
  \<^verbatim>\<open>NOT_FOUND\<close> exactly when no entry qualifies (both radio signals, fresh, valid AWDL
  state, strong enough, endpoint complete if required); it succeeds exactly when some qualifying
  entry exceeds every other one by the required margin and then returns such an entry;
  otherwise it reports ambiguity and returns no peer.
\<close>
theorem proximity_selection_decisive:
  fixes t now age min_rssi margin req
  defines "C \<equiv> candidates (proximity_candidate now age min_rssi req) (used_entries t)"
  assumes "-127 \<le> min_rssi" and "min_rssi \<le> 0" and "0 \<le> margin"
    and "espdrop_peer_table_select_airdrop_proximity (Ptr t) now age min_rssi margin req (Ptr old) = (r, Ptr out)"
  shows "(r = TABLE_NOT_FOUND \<longleftrightarrow> C = {}) \<and>
     (r = TABLE_OK \<longleftrightarrow> (\<exists>i. decisive (used_entries t) C margin i)) \<and>
     (r = TABLE_OK \<longrightarrow> (\<exists>i. out = Some i \<and> decisive (used_entries t) C margin i)) \<and>
     (r \<noteq> TABLE_OK \<longrightarrow> out = None) \<and> r \<in> {TABLE_OK, TABLE_NOT_FOUND, TABLE_AMBIGUOUS}"
proof -
  let ?all = "used_entries t" and ?q = "proximity_candidate now age min_rssi req"
  obtain best run where l: "proximity_loop ?q ?all [0..<length ?all] (None, None) = (best, run)" by force
  have "top_two ?q ?all {} None None" by (simp add: top_two_def)
  from proximity_loop_top_two [OF this _ _ l]
  have t: "top_two ?q ?all {0..<length ?all} best run" by simp
  have none: "best = None \<longleftrightarrow> C = {}"
    using t unfolding C_def candidates_def top_two_def Let_def by blast
  have r: "(r, Ptr out) = (if best = None then (TABLE_NOT_FOUND, Ptr None)
      else if run \<noteq> None \<and> pr_awdl_rssi (?all ! the best) - pr_awdl_rssi (?all ! the run) < margin
      then (TABLE_AMBIGUOUS, Ptr None) else (TABLE_OK, Ptr best))"
    using assms(2-5) l
    by (auto simp: espdrop_peer_table_select_airdrop_proximity_def Let_def used_entries_def [symmetric])
  show ?thesis
  proof (cases best)
    case None
    then show ?thesis using r none by (auto simp: decisive_def)
  next
    case (Some b)
    with none have "C \<noteq> {}" by simp
    then show ?thesis
      using r Some top_two_decisive [OF t [unfolded Some] assms(4)] unfolding C_def [symmetric]
      by (auto split: if_splits)
  qed
qed

definition ex_ob :: "byte \<Rightarrow> int \<Rightarrow> u64 \<Rightarrow> peer_observation" where
  "ex_ob n rssi ms = \<lparr>po_id = \<lparr>pid_bytes = n # replicate 15 0, pid_length = 6\<rparr>, po_signals = 6,
     po_rssi = rssi, po_seen_ms = ms, po_awdl_mac = Ptr [2, 0, 0, 0, 0, n],
     po_ipv6 = Ptr (replicate 15 0 @ [n]), po_service_id = Ptr (ascii ''abc''), po_display_name = NULL\<rparr>"

definition ex_table0 :: peer_table where
  "ex_table0 = deref (espdrop_peer_table_init (Ptr \<lparr>pt_peers = [], pt_count = 0\<rparr>))"

definition ex_table1 :: peer_table where
  "ex_table1 = deref (fst (snd (espdrop_peer_table_observe (Ptr ex_table0) (Ptr (ex_ob 1 (-40) 100)) NULL)))"

definition ex_valid :: "espdrop_peer \<Rightarrow> espdrop_peer" where
  "ex_valid p = p\<lparr>pr_awdl := (pr_awdl p)\<lparr>aps_peer_valid := True\<rparr>\<rparr>"

definition ex_table2 :: peer_table where
  "ex_table2 = (let t = deref (fst (snd (espdrop_peer_table_observe (Ptr ex_table1) (Ptr (ex_ob 2 (-70) 120)) NULL)))
                in t\<lparr>pt_peers := map ex_valid (pt_peers t)\<rparr>)"

lemma ex_select: "espdrop_peer_table_select_airdrop_proximity (Ptr ex_table2) 200 1000 (-80) 20 False (Ptr None) =
    (TABLE_OK, Ptr (Some 0))"
  by code_simp

theorem proximity_selection_decisive_witness:
  "decisive (used_entries ex_table2)
     (candidates (proximity_candidate 200 1000 (-80) False) (used_entries ex_table2)) 20 0"
  using proximity_selection_decisive [OF _ _ _ ex_select] by simp

text \<open>
  The two unique selections: with a valid table and output pointer, each returns \<^verbatim>\<open>OK\<close>
  and entry \<open>i\<close> exactly when \<open>i\<close> is the only fresh AirDrop peer (respectively the only fresh
  complete endpoint), \<^verbatim>\<open>NOT_FOUND\<close> exactly when there is none, and never leaves a peer
  behind when it reports ambiguity.
\<close>
theorem unique_selection_correct:
  assumes "f = espdrop_peer_table_select_unique_airdrop \<and> q = airdrop_fresh now age \<or>
           f = espdrop_peer_table_select_unique_airdrop_endpoint \<and> q = endpoint_fresh now age"
  shows "(f (Ptr t) now age (Ptr old) = (TABLE_OK, Ptr (Some i)) \<longleftrightarrow>
            i < length (used_entries t) \<and> q (used_entries t ! i) \<and>
            (\<forall>j<length (used_entries t). q (used_entries t ! j) \<longrightarrow> j = i)) \<and>
         (f (Ptr t) now age (Ptr old) = (TABLE_NOT_FOUND, Ptr None) \<longleftrightarrow>
            (\<forall>j<length (used_entries t). \<not> q (used_entries t ! j))) \<and>
         (f (Ptr t) now age (Ptr old) = (TABLE_AMBIGUOUS, Ptr None) \<longleftrightarrow>
            (\<exists>j k. j < k \<and> k < length (used_entries t) \<and> q (used_entries t ! j) \<and> q (used_entries t ! k)))"
proof -
  let ?u = "unique_match q (used_entries t) 0 None"
  have f: "f (Ptr t) now age (Ptr old) =
     (case ?u of None \<Rightarrow> (TABLE_AMBIGUOUS, Ptr None)
      | Some found \<Rightarrow> (if found = None then TABLE_NOT_FOUND else TABLE_OK, Ptr found))"
    using assms
    by (auto simp: espdrop_peer_table_select_unique_airdrop_def
        espdrop_peer_table_select_unique_airdrop_endpoint_def used_entries_def)
  have ok: "f (Ptr t) now age (Ptr old) = (TABLE_OK, Ptr (Some i)) \<longleftrightarrow> ?u = Some (Some i)"
    by (auto simp: f split: option.splits)
  have nf: "f (Ptr t) now age (Ptr old) = (TABLE_NOT_FOUND, Ptr None) \<longleftrightarrow> ?u = Some None"
    by (auto simp: f split: option.splits)
  have am: "f (Ptr t) now age (Ptr old) = (TABLE_AMBIGUOUS, Ptr None) \<longleftrightarrow> ?u = None"
    by (auto simp: f split: option.splits)
  have "?u = None \<longleftrightarrow>
      (\<exists>j k. j < k \<and> k < length (used_entries t) \<and> q (used_entries t ! j) \<and> q (used_entries t ! k))"
  proof
    assume u: "?u = None"
    then obtain j where j: "j < length (used_entries t)" "q (used_entries t ! j)"
      using unique_match_none [of q "used_entries t"] by auto
    with u obtain k where "k < length (used_entries t)" "q (used_entries t ! k)" "k \<noteq> j"
      using unique_match_one [of q "used_entries t" j] by auto
    with j show "\<exists>j k. j < k \<and> k < length (used_entries t) \<and> q (used_entries t ! j) \<and> q (used_entries t ! k)"
      by (metis nat_neq_iff)
  next
    assume "\<exists>j k. j < k \<and> k < length (used_entries t) \<and> q (used_entries t ! j) \<and> q (used_entries t ! k)"
    then obtain j k where jk: "j < k" "k < length (used_entries t)" "q (used_entries t ! j)" "q (used_entries t ! k)"
      by blast
    show "?u = None"
    proof (cases ?u)
      case (Some m)
      show ?thesis
      proof (cases m)
        case None
        with Some show ?thesis using unique_match_none [of q "used_entries t"] jk by auto
      next
        case (Some i)
        with \<open>?u = Some m\<close> have "j = i" "k = i"
          using unique_match_one [THEN iffD1, of q "used_entries t" i] jk by (metis less_trans)+
        with jk show ?thesis by simp
      qed
    qed
  qed
  with ok nf am show ?thesis by (simp add: unique_match_one unique_match_none)
qed

theorem unique_selection_correct_witness:
  "espdrop_peer_table_select_unique_airdrop (Ptr ex_table2) 200 1000 (Ptr (Some 9)) = (TABLE_AMBIGUOUS, Ptr None)"
proof -
  have "0 < (1::nat) \<and> 1 < length (used_entries ex_table2) \<and> airdrop_fresh 200 1000 (used_entries ex_table2 ! 0) \<and>
      airdrop_fresh 200 1000 (used_entries ex_table2 ! 1)"
    by code_simp
  then show ?thesis
    using unique_selection_correct [of espdrop_peer_table_select_unique_airdrop "airdrop_fresh 200 1000" 200 1000 ex_table2 "Some 9"]
    by blast
qed


lemma ex_table0_reachable: "reachable_table ex_table0"
  by (rule reachable_table.init [of "\<lparr>pt_peers = [], pt_count = 0\<rparr>"]) (simp add: ex_table0_def espdrop_peer_table_init_def)

lemma ex_observe_table:
  "espdrop_peer_table_observe (Ptr ex_table0) (Ptr (ex_ob 1 (-40) 100)) NULL = (TABLE_OK, Ptr ex_table1, NULL)"
  by code_simp

lemma ex_ob_wf: "wf_observation (ex_ob 1 (-40) 100)"
  by code_simp


text \<open>
  Observing refines a map update: a successful observation replaces the entry of its
  identifier by the merge with the old entry (or with a fresh one) and changes no other
  peer; it is refused as full exactly when the identifier is new and sixteen peers are
  stored, and then the table is unchanged.
\<close>
theorem peer_observe_is_map_update:
  assumes "reachable_table t" and "wf_observation ob" and "okey k"
    and "espdrop_peer_table_observe (Ptr t) (Ptr ob) out = (r, Ptr t', out')"
  shows "(r = TABLE_OK \<or> r = TABLE_FULL) \<and>
     (r = TABLE_OK \<longrightarrow> peer_at t' k =
        (if k = pid_key (po_id ob) then Some (merge_ob ob (peer_at t k)) else peer_at t k)) \<and>
     (r = TABLE_FULL \<longleftrightarrow> peer_at t (pid_key (po_id ob)) = None \<and> length (used_entries t) = ESPDROP_MAX_PEERS) \<and>
     (r = TABLE_FULL \<longrightarrow> t' = t)"
proof -
  have wf: "wf_table t" using reachable_wf_table [OF assms(1)] .
  have o1: "observe_table t ob = (if r = TABLE_OK then Some t' else None)" and
    r: "(r = TABLE_OK \<or> r = TABLE_FULL) \<and> (r = TABLE_FULL \<longrightarrow> t' = t)"
    using assms(2,4)
    by (auto simp: observe_table_def espdrop_peer_table_observe_def Let_def wf_observation_def wf_id_def
        split: if_splits option.splits)
  have "peer_at t' k = ((peer_at t)(pid_key (po_id ob) \<mapsto> merge_ob ob (peer_at t (pid_key (po_id ob))))) k"
    if "r = TABLE_OK"
    using peer_upsert.lookup_upsert [OF wf assms(2) _ assms(3)] o1 that by simp
  moreover have "r = TABLE_FULL \<longleftrightarrow> observe_table t ob = None" using o1 r by auto
  ultimately show ?thesis using r peer_upsert.upsert_None_iff [OF wf assms(2)] by simp
qed

theorem peer_observe_is_map_update_witness:
  "peer_at ex_table1 (1 # replicate 5 0) = Some (merge_ob (ex_ob 1 (-40) 100) None)"
proof -
  have "okey (1 # replicate 5 0)" "peer_at ex_table0 (1 # replicate 5 0) = None"
    "pid_key (po_id (ex_ob 1 (-40) 100)) = 1 # replicate 5 0"
    by code_simp+
  then show ?thesis
    using peer_observe_is_map_update [OF ex_table0_reachable ex_ob_wf _ ex_observe_table, of "1 # replicate 5 0"]
    by simp
qed

text \<open>
  Completing an AirDrop endpoint: on valid arguments the only AWDL peer with that IPv6
  address gets the port, service identifier (cut to 63 characters), signal and times, every
  other entry is untouched; with no such peer or several, the table is unchanged and
  the result says which.
\<close>
theorem apply_endpoint_correct:
  assumes "length ipv6 = ESPDROP_IPV6_BYTES" and "port \<noteq> 0" and "sid \<noteq> []" and "wf_table t"
    and "espdrop_peer_table_apply_airdrop_endpoint (Ptr t) (Ptr ipv6) port (Ptr sid) now (Ptr old) = (r, Ptr t', Ptr out)"
  shows "(\<forall>i. out = Some i \<longrightarrow> r = TABLE_OK \<and> i < length (used_entries t) \<and>
            endpoint_match ipv6 (used_entries t ! i) \<and>
            (\<forall>j<length (used_entries t). endpoint_match ipv6 (used_entries t ! j) \<longrightarrow> j = i) \<and>
            used_entries t' = (used_entries t)[i := completed ipv6 port sid now (used_entries t ! i)]) \<and>
     (r = TABLE_NOT_FOUND \<longleftrightarrow> (\<forall>j<length (used_entries t). \<not> endpoint_match ipv6 (used_entries t ! j))) \<and>
     (out = None \<longleftrightarrow> r \<noteq> TABLE_OK) \<and> (r \<noteq> TABLE_OK \<longrightarrow> t' = t) \<and> r \<in> {TABLE_OK, TABLE_NOT_FOUND, TABLE_AMBIGUOUS}"
proof -
  let ?u = "unique_match (endpoint_match ipv6) (used_entries t) 0 None"
  note c = assms(5) [unfolded apply_endpoint_cases [OF assms(1)] Let_def]
  consider (amb) "?u = None" | (none) "?u = Some None" | (one) i where "?u = Some (Some i)"
    by (metis option.exhaust)
  then show ?thesis
  proof cases
    case amb
    then show ?thesis using c assms(2,3) unique_match_none [of "endpoint_match ipv6" "used_entries t"] by auto
  next
    case none
    then show ?thesis using c assms(2,3) unique_match_none [of "endpoint_match ipv6" "used_entries t"] by auto
  next
    case (one i)
    note i = unique_match_one [THEN iffD1, OF one]
    have eq: "r = TABLE_OK" "out = Some i"
      "t' = t\<lparr>pt_peers := (pt_peers t)[i := completed ipv6 port sid now (pt_peers t ! i)]\<rparr>"
      using c one assms(2,3) by simp_all
    have "used_entries t' = (used_entries t)[i := completed ipv6 port sid now (used_entries t ! i)]"
      using i by (simp add: eq(3) used_entries_def take_update_swap)
    then show ?thesis using i eq(1,2) by (metis insertI1 option.distinct(1) option.inject table_result.distinct(5))
  qed
qed

theorem apply_endpoint_correct_witness:
  "used_entries (deref (fst (snd (espdrop_peer_table_apply_airdrop_endpoint (Ptr ex_table2)
      (Ptr (replicate 15 0 @ [2])) 8770 (Ptr (ascii ''svc'')) 300 (Ptr None))))) =
   (used_entries ex_table2)[1 := completed (replicate 15 0 @ [2]) 8770 (ascii ''svc'') 300 (used_entries ex_table2 ! 1)]"
  (is "used_entries (deref (fst (snd ?call))) = _")
proof -
  have "?call = (TABLE_OK, Ptr (deref (fst (snd ?call))), Ptr (Some 1))" "wf_table ex_table2"
    by code_simp+
  then show ?thesis
    using apply_endpoint_correct [of "replicate 15 0 @ [2]" 8770 "ascii ''svc''" ex_table2]
    by (simp add: ESPDROP_IPV6_BYTES_def ascii_def)
qed

end
