(* ===== verification/Tapdrop.thy ===== *)
theory Tapdrop
  imports Peer_Table
begin

text \<open>
  Tap-to-share (\<^verbatim>\<open>tapdrop/src/correlation.c\<close>, \<^verbatim>\<open>tapdrop/src/tapdrop.c\<close>): an NFC field event opens a
  session, and the peers heard around it are scored to decide which one tapped. Scores
  are C \<^verbatim>\<open>int\<close>; the bound proved for them shows that their sums and differences never
  overflow. The GPIO driver and the timer are outside the repository: their results are arguments.
\<close>

section \<open>Correlation\<close>

definition INT_MIN :: int where
  "INT_MIN = - (2 ^ 31)"

record correlation_policy =
  cp_session_window_ms :: u32
  cp_pre_tap_grace_ms :: u32
  cp_minimum_score :: int
  cp_ambiguity_margin :: int

datatype correlation_status = CORRELATION_NONE | CORRELATION_MATCH | CORRELATION_AMBIGUOUS | CORRELATION_EXPIRED

record correlation_result =
  cr_status :: correlation_status
  cr_peer :: "nat option"
  cr_best_score :: int
  cr_runner_up_score :: int
  cr_candidates :: nat

definition clamp :: "int \<Rightarrow> int \<Rightarrow> int \<Rightarrow> int" where
  "clamp x minimum maximum = (if x < minimum then minimum else if x > maximum then maximum else x)"

definition within_window :: "u64 \<Rightarrow> u64 \<Rightarrow> u32 \<Rightarrow> u32 \<Rightarrow> bool" where
  "within_window timestamp_ms tap_ms before_ms after_ms \<longleftrightarrow>
     (if timestamp_ms \<ge> tap_ms then timestamp_ms - tap_ms \<le> ucast after_ms
      else tap_ms - timestamp_ms \<le> ucast before_ms)"

definition recency_score :: "u64 \<Rightarrow> u64 \<Rightarrow> u64 \<Rightarrow> int" where
  "recency_score last_seen_ms tap_ms now_ms =
     (let reference_ms = (if last_seen_ms > tap_ms then last_seen_ms else tap_ms) in
      if reference_ms > now_ms then 0
      else let age_ms = now_ms - reference_ms in
        if age_ms \<ge> 5000 then 0
        else 200 - uint ((age_ms * 200) div 5000))"

definition rssi_score :: "int \<Rightarrow> int \<Rightarrow> int" where
  "rssi_score rssi maximum =
     (if rssi \<le> -100 then 0
      else let normalized = clamp rssi (-100) (-20) + 100 in (normalized * maximum) div 80)"

definition score_peer :: "espdrop_peer \<Rightarrow> u64 \<Rightarrow> u64 \<Rightarrow> correlation_policy \<Rightarrow> int" where
  "score_peer peer tap_ms now_ms policy =
     (if pr_signals peer AND ESPDROP_PEER_SIGNAL_AIRDROP = 0 \<or>
         \<not> within_window (pr_last_seen_ms peer) tap_ms (cp_pre_tap_grace_ms policy) (cp_session_window_ms policy)
      then INT_MIN
      else
        let s1 = (if pr_first_seen_ms peer \<ge> tap_ms \<and>
                     pr_first_seen_ms peer - tap_ms \<le> ucast (cp_session_window_ms policy) then 320
                  else if within_window (pr_first_seen_ms peer) tap_ms (cp_pre_tap_grace_ms policy) 0 then 80
                  else 0);
            s2 = s1 + recency_score (pr_last_seen_ms peer) tap_ms now_ms;
            ble = (pr_signals peer AND ESPDROP_PEER_SIGNAL_BLE \<noteq> 0);
            awdl = (pr_signals peer AND ESPDROP_PEER_SIGNAL_AWDL \<noteq> 0);
            s3 = (if ble \<and> awdl then s2 + 180 else if awdl then s2 + 100 else if ble then s2 + 80 else s2);
            s4 = (if ble \<and> within_window (pr_ble_seen_ms peer) tap_ms (cp_pre_tap_grace_ms policy)
                            (cp_session_window_ms policy)
                  then s3 + rssi_score (pr_ble_rssi peer) 120 else s3) in
        if awdl \<and> within_window (pr_awdl_seen_ms peer) tap_ms (cp_pre_tap_grace_ms policy)
                     (cp_session_window_ms policy)
        then s4 + rssi_score (pr_awdl_rssi peer) 80 else s4)"

text \<open>The scoring loop; the index of the peer stands for its address.\<close>

fun correlate_loop ::
  "(espdrop_peer \<Rightarrow> int) \<Rightarrow> espdrop_peer list \<Rightarrow> nat \<Rightarrow> correlation_result \<Rightarrow> correlation_result" where
  "correlate_loop sc [] index result = result"
| "correlate_loop sc (p # rest) index result =
     (let score = sc p in
      if score = INT_MIN then correlate_loop sc rest (Suc index) result
      else
        let r1 = result\<lparr>cr_candidates := cr_candidates result + 1\<rparr> in
        if score > cr_best_score r1
        then correlate_loop sc rest (Suc index)
               (r1\<lparr>cr_runner_up_score := cr_best_score r1, cr_best_score := score, cr_peer := Some index\<rparr>)
        else if score > cr_runner_up_score r1
        then correlate_loop sc rest (Suc index) (r1\<lparr>cr_runner_up_score := score\<rparr>)
        else correlate_loop sc rest (Suc index) r1)"

definition correlation_start :: correlation_result where
  "correlation_start = \<lparr>cr_status = CORRELATION_NONE, cr_peer = None, cr_best_score = INT_MIN,
     cr_runner_up_score = INT_MIN, cr_candidates = 0\<rparr>"

definition tapdrop_correlate ::
  "espdrop_peer list ptr \<Rightarrow> nat \<Rightarrow> u64 \<Rightarrow> u64 \<Rightarrow> correlation_policy ptr \<Rightarrow> correlation_result" where
  "tapdrop_correlate peers peer_count tap_ms now_ms policyp =
     (let result = correlation_start; policy = deref policyp in
      if policyp = NULL \<or> tap_ms = 0 \<or> (peers = NULL \<and> peer_count \<noteq> 0) then result
      else if now_ms \<ge> tap_ms \<and> now_ms - tap_ms > ucast (cp_session_window_ms policy)
      then result\<lparr>cr_status := CORRELATION_EXPIRED\<rparr>
      else
        let used = (if peers = NULL then [] else take peer_count (deref peers));
            r = correlate_loop (\<lambda>p. score_peer p tap_ms now_ms policy) used 0 result in
        if cr_peer r = None \<or> cr_best_score r < cp_minimum_score policy
        then r\<lparr>cr_status := CORRELATION_NONE\<rparr>
        else if cr_runner_up_score r \<noteq> INT_MIN \<and>
                cr_best_score r - cr_runner_up_score r < cp_ambiguity_margin policy
        then r\<lparr>cr_status := CORRELATION_AMBIGUOUS, cr_peer := None\<rparr>
        else r\<lparr>cr_status := CORRELATION_MATCH\<rparr>)"

section \<open>Sessions\<close>

type_synonym esp_err = int

definition ESP_OK :: esp_err where "ESP_OK = 0"
definition ESP_ERR_INVALID_ARG :: esp_err where "ESP_ERR_INVALID_ARG = 258"
definition ESP_ERR_INVALID_STATE :: esp_err where "ESP_ERR_INVALID_STATE = 259"

record tapdrop_config =
  tc_field_gpio :: int
  tc_active_level :: int
  tc_session_window_ms :: u32
  tc_minimum_score :: int
  tc_ambiguity_margin :: int

record tapdrop_session =
  ts_generation :: u32
  ts_tap_ms :: u64
  ts_expires_ms :: u64
  ts_active :: bool

text \<open>The static variables of \<^verbatim>\<open>tapdrop.c\<close>.\<close>

record tapdrop_module =
  td_active_config :: tapdrop_config
  td_session :: tapdrop_session
  td_initialized :: bool

text \<open>Results of the three GPIO driver calls made by initialisation.\<close>

record gpio_results =
  gpio_config_result :: esp_err
  gpio_install_isr_service_result :: esp_err
  gpio_isr_handler_add_result :: esp_err

text \<open>\<open>timer_us\<close> is what \<^verbatim>\<open>esp_timer_get_time\<close> returns, microseconds since boot.\<close>

definition monotonic_ms :: "int \<Rightarrow> u64" where
  "monotonic_ms timer_us = of_int (timer_us div 1000)"

definition session_zero :: tapdrop_session where
  "session_zero = \<lparr>ts_generation = 0, ts_tap_ms = 0, ts_expires_ms = 0, ts_active = False\<rparr>"

definition open_session :: "u64 \<Rightarrow> tapdrop_module \<Rightarrow> tapdrop_module" where
  "open_session tap_ms m = m\<lparr>td_session := (td_session m)\<lparr>
     ts_generation := ts_generation (td_session m) + 1,
     ts_tap_ms := tap_ms,
     ts_expires_ms := tap_ms + ucast (tc_session_window_ms (td_active_config m)),
     ts_active := True\<rparr>\<rparr>"

definition field_isr :: "int \<Rightarrow> tapdrop_module \<Rightarrow> tapdrop_module" where
  "field_isr timer_us m = open_session (monotonic_ms timer_us) m"

definition tapdrop_init ::
  "tapdrop_config ptr \<Rightarrow> gpio_results \<Rightarrow> tapdrop_module \<Rightarrow> esp_err \<times> tapdrop_module" where
  "tapdrop_init configp gpio m =
     (let config = deref configp in
      if configp = NULL \<or> tc_active_level config < 0 \<or> tc_active_level config > 1 \<or>
         tc_session_window_ms config = 0 \<or> tc_minimum_score config < 0 \<or> tc_ambiguity_margin config < 0
      then (ESP_ERR_INVALID_ARG, m)
      else
        let m1 = m\<lparr>td_active_config := config, td_session := session_zero\<rparr> in
        if tc_field_gpio config \<ge> 0 then
          if gpio_config_result gpio \<noteq> ESP_OK then (gpio_config_result gpio, m1)
          else if gpio_install_isr_service_result gpio \<noteq> ESP_OK \<and>
                  gpio_install_isr_service_result gpio \<noteq> ESP_ERR_INVALID_STATE
          then (gpio_install_isr_service_result gpio, m1)
          else if gpio_isr_handler_add_result gpio \<noteq> ESP_OK then (gpio_isr_handler_add_result gpio, m1)
          else (ESP_OK, m1\<lparr>td_initialized := True\<rparr>)
        else (ESP_OK, m1\<lparr>td_initialized := True\<rparr>))"

definition tapdrop_signal_tap :: "u64 \<Rightarrow> int \<Rightarrow> tapdrop_module \<Rightarrow> esp_err \<times> tapdrop_module" where
  "tapdrop_signal_tap timestamp_ms timer_us m =
     (if \<not> td_initialized m then (ESP_ERR_INVALID_STATE, m)
      else (ESP_OK, open_session (if timestamp_ms = 0 then monotonic_ms timer_us else timestamp_ms) m))"

definition tapdrop_current_session :: "int \<Rightarrow> tapdrop_module \<Rightarrow> tapdrop_session" where
  "tapdrop_current_session timer_us m =
     (let snapshot = td_session m in
      if ts_active snapshot \<and> monotonic_ms timer_us > ts_expires_ms snapshot
      then snapshot\<lparr>ts_active := False\<rparr> else snapshot)"

definition tapdrop_select_peer :: "peer_table ptr \<Rightarrow> u64 \<Rightarrow> int \<Rightarrow> tapdrop_module \<Rightarrow> correlation_result" where
  "tapdrop_select_peer table now_ms timer_us m =
     (let snapshot = tapdrop_current_session timer_us m in
      if \<not> ts_active snapshot \<or> table = NULL
      then \<lparr>cr_status = (if ts_tap_ms snapshot \<noteq> 0 then CORRELATION_EXPIRED else CORRELATION_NONE),
            cr_peer = None, cr_best_score = 0, cr_runner_up_score = 0, cr_candidates = 0\<rparr>
      else
        let policy = \<lparr>cp_session_window_ms = tc_session_window_ms (td_active_config m),
                      cp_pre_tap_grace_ms = 1500,
                      cp_minimum_score = tc_minimum_score (td_active_config m),
                      cp_ambiguity_margin = tc_ambiguity_margin (td_active_config m)\<rparr> in
        tapdrop_correlate (Ptr (pt_peers (deref table))) (pt_count (deref table)) (ts_tap_ms snapshot)
          now_ms (Ptr policy))"

section \<open>Score bounds\<close>

lemma recency_score_bounds: "0 \<le> recency_score a b c \<and> recency_score a b c \<le> 200"
proof -
  have "uint ((d * 200) div 5000) \<le> 199" if "d < 5000" for d :: u64
  proof -
    have "uint d < 5000" using that by (simp add: word_less_def)
    then have "uint (d * 200) = uint d * 200"
      by (simp add: uint_word_ariths)
    then have "uint (d * 200) \<le> 4999 * 200" using \<open>uint d < 5000\<close> by simp
    then show ?thesis by (simp add: uint_div)
  qed
  from this [of "c - a"] this [of "c - b"] show ?thesis
    by (auto simp: recency_score_def Let_def not_le)
qed

lemma rssi_score_bounds: "0 \<le> m \<Longrightarrow> 0 \<le> rssi_score r m \<and> rssi_score r m \<le> m"
proof -
  assume m: "0 \<le> m"
  have "(x * m) div 80 \<le> m \<and> 0 \<le> (x * m) div 80" if "0 \<le> x" "x \<le> 80" for x
  proof -
    have "x * m \<le> 80 * m" using that m by (intro mult_right_mono) auto
    then have "(x * m) div 80 \<le> (80 * m) div 80" by (rule zdiv_mono1) simp
    moreover have "0 \<le> x * m" using that m by simp
    ultimately show ?thesis by (simp add: pos_imp_zdiv_nonneg_iff)
  qed
  then show ?thesis using m by (simp add: rssi_score_def Let_def clamp_def)
qed

lemma score_peer_bounds:
  "score_peer p tap now pol \<noteq> INT_MIN \<Longrightarrow> 0 \<le> score_peer p tap now pol \<and> score_peer p tap now pol \<le> 900"
  using recency_score_bounds [of "pr_last_seen_ms p" tap now] rssi_score_bounds [of 120 "pr_ble_rssi p"]
    rssi_score_bounds [of 80 "pr_awdl_rssi p"]
  by (auto simp: score_peer_def Let_def)

section \<open>The scoring loop\<close>

text \<open>What the loop has established after the peers \<open>ps\<close>.\<close>

definition scored :: "(espdrop_peer \<Rightarrow> int) \<Rightarrow> espdrop_peer list \<Rightarrow> correlation_result \<Rightarrow> bool" where
  "scored sc ps r \<longleftrightarrow>
     cr_candidates r = length (filter (\<lambda>p. sc p \<noteq> INT_MIN) ps) \<and>
     (case cr_peer r of
        None \<Rightarrow> cr_best_score r = INT_MIN \<and> cr_runner_up_score r = INT_MIN \<and> (\<forall>p\<in>set ps. sc p = INT_MIN)
      | Some i \<Rightarrow> i < length ps \<and> cr_best_score r = sc (ps ! i) \<and> sc (ps ! i) \<noteq> INT_MIN \<and>
          (\<forall>j<length ps. sc (ps ! j) \<le> sc (ps ! i)) \<and>
          (\<forall>j<length ps. j \<noteq> i \<longrightarrow> sc (ps ! j) \<le> cr_runner_up_score r) \<and>
          (cr_runner_up_score r \<noteq> INT_MIN \<longrightarrow> (\<exists>j<length ps. j \<noteq> i \<and> sc (ps ! j) = cr_runner_up_score r)))"

text \<open>One more peer: it is skipped, becomes the best, becomes the runner-up, or changes nothing.\<close>

lemma scored_snoc_skip: "scored sc ps r \<Longrightarrow> sc p = INT_MIN \<Longrightarrow> (\<forall>q. INT_MIN \<le> sc q) \<Longrightarrow> INT_MIN \<le> cr_runner_up_score r \<Longrightarrow> scored sc (ps @ [p]) r"
  by (auto simp: scored_def nth_append less_Suc_eq split: option.splits)

lemma scored_snoc_best:
  assumes "scored sc ps r" and "sc p \<noteq> INT_MIN" and "\<forall>q. INT_MIN \<le> sc q" and "cr_best_score r < sc p"
  shows "scored sc (ps @ [p]) (r\<lparr>cr_candidates := cr_candidates r + 1, cr_runner_up_score := cr_best_score r,
           cr_best_score := sc p, cr_peer := Some (length ps)\<rparr>)"
proof (cases "cr_peer r")
  case None
  with assms show ?thesis by (auto simp: scored_def nth_append less_Suc_eq)
next
  case (Some i)
  with assms have i: "i < length ps" "cr_best_score r = sc (ps ! i)" "\<forall>j<length ps. sc (ps ! j) \<le> sc (ps ! i)"
    "cr_candidates r = length (filter (\<lambda>p. sc p \<noteq> INT_MIN) ps)"
    by (auto simp: scored_def)
  then have "\<forall>j<length ps. sc (ps ! j) \<le> sc p" using assms(4) by (metis less_le_not_le order_trans)
  moreover have "\<exists>j<Suc (length ps). j \<noteq> length ps \<and> sc ((ps @ [p]) ! j) = sc (ps ! i)"
    using i(1) by (intro exI [of _ i]) (auto simp: nth_append)
  ultimately show ?thesis using i assms(2) by (auto simp: scored_def nth_append less_Suc_eq)
qed

lemma scored_has_peer:
  "scored sc ps r \<Longrightarrow> sc p \<noteq> INT_MIN \<Longrightarrow> (\<forall>q. INT_MIN \<le> sc q) \<Longrightarrow> \<not> cr_best_score r < sc p \<Longrightarrow> cr_peer r \<noteq> None"
  by (cases "cr_peer r") (auto simp: scored_def order_less_le)

lemma scored_snoc_runner:
  assumes "scored sc ps r" and "sc p \<noteq> INT_MIN" and "\<forall>q. INT_MIN \<le> sc q"
    and "\<not> cr_best_score r < sc p" and "cr_runner_up_score r < sc p"
  shows "scored sc (ps @ [p]) (r\<lparr>cr_candidates := cr_candidates r + 1, cr_runner_up_score := sc p\<rparr>)"
proof -
  obtain i where i: "cr_peer r = Some i" using scored_has_peer [OF assms(1-4)] by blast
  with assms(1) have "\<forall>j<length ps. j \<noteq> i \<longrightarrow> sc (ps ! j) \<le> cr_runner_up_score r" by (simp add: scored_def)
  then have "\<forall>j<length ps. j \<noteq> i \<longrightarrow> sc (ps ! j) \<le> sc p" using assms(5) by (meson less_imp_le order_trans)
  then show ?thesis using i assms by (auto simp: scored_def nth_append less_Suc_eq)
qed

lemma scored_snoc_keep:
  assumes "scored sc ps r" and "sc p \<noteq> INT_MIN" and "\<forall>q. INT_MIN \<le> sc q"
    and "\<not> cr_best_score r < sc p" and "\<not> cr_runner_up_score r < sc p"
  shows "scored sc (ps @ [p]) (r\<lparr>cr_candidates := cr_candidates r + 1\<rparr>)"
proof -
  obtain i where i: "cr_peer r = Some i" using scored_has_peer [OF assms(1-4)] by blast
  then show ?thesis using assms by (auto simp: scored_def nth_append less_Suc_eq)
qed

lemma correlate_loop_scored:
  assumes "scored sc ps r" and "\<forall>q. INT_MIN \<le> sc q" and "n = length ps" and "INT_MIN \<le> cr_runner_up_score r" 
  shows "scored sc (ps @ rest) (correlate_loop sc rest n r)"
  using assms
proof (induction rest arbitrary: ps n r)
  case Nil
  then show ?case by simp
next
  case (Cons p rest)
  note bound = Cons.prems(2)
  have step: "scored sc (ps @ p # rest) (correlate_loop sc rest (Suc n) r')"
    if "scored sc (ps @ [p]) r'" "INT_MIN \<le> cr_runner_up_score r'" for r'
    using Cons.IH [OF that(1) bound _ that(2), of "Suc n"] Cons.prems(3) by simp
  have best: "INT_MIN \<le> cr_best_score r"
    using Cons.prems(1) bound by (auto simp: scored_def split: option.splits)
  consider (skip) "sc p = INT_MIN" | (best) "sc p \<noteq> INT_MIN" "cr_best_score r < sc p"
    | (run) "sc p \<noteq> INT_MIN" "\<not> cr_best_score r < sc p" "cr_runner_up_score r < sc p"
    | (keep) "sc p \<noteq> INT_MIN" "\<not> cr_best_score r < sc p" "\<not> cr_runner_up_score r < sc p"
    by blast
  then show ?case
  proof cases
    case skip
    then show ?thesis using step [OF scored_snoc_skip [OF Cons.prems(1) skip bound Cons.prems(4)]] Cons.prems(4) by simp
  next
    case best
    then show ?thesis
      using step [OF scored_snoc_best [OF Cons.prems(1) best(1) bound best(2)]] Cons.prems(3) \<open>INT_MIN \<le> cr_best_score r\<close>
      by (simp add: Let_def)
  next
    case run
    then show ?thesis
      using step [OF scored_snoc_runner [OF Cons.prems(1) run(1) bound run(2,3)]] bound by (simp add: Let_def)
  next
    case keep
    then show ?thesis
      using step [OF scored_snoc_keep [OF Cons.prems(1) keep(1) bound keep(2,3)]] Cons.prems(4) by (simp add: Let_def)
  qed
qed

section \<open>Properties\<close>

text \<open>The peer at \<open>i\<close> is good enough and ahead of every other candidate by the margin.\<close>

definition clear_match :: "(espdrop_peer \<Rightarrow> int) \<Rightarrow> correlation_policy \<Rightarrow> espdrop_peer list \<Rightarrow> nat \<Rightarrow> bool" where
  "clear_match sc pol ps i \<longleftrightarrow> i < length ps \<and> sc (ps ! i) \<noteq> INT_MIN \<and> cp_minimum_score pol \<le> sc (ps ! i) \<and>
     (\<forall>j<length ps. j \<noteq> i \<longrightarrow> sc (ps ! j) \<noteq> INT_MIN \<longrightarrow> sc (ps ! j) + cp_ambiguity_margin pol \<le> sc (ps ! i))"

lemma score_peer_min: "INT_MIN \<le> score_peer p tap now pol"
  using score_peer_bounds [of p tap now pol]
  by (cases "score_peer p tap now pol = INT_MIN") (auto simp: INT_MIN_def)

lemma clear_match_unique_best:
  assumes "scored sc ps r" and "cr_peer r = Some i" and "0 \<le> cp_ambiguity_margin pol" and "\<forall>q. INT_MIN \<le> sc q"
  shows "(\<exists>k. clear_match sc pol ps k) \<longleftrightarrow> cp_minimum_score pol \<le> cr_best_score r \<and>
           (cr_runner_up_score r = INT_MIN \<or> cp_ambiguity_margin pol \<le> cr_best_score r - cr_runner_up_score r)"
    and "cp_minimum_score pol \<le> cr_best_score r \<Longrightarrow>
           cr_runner_up_score r = INT_MIN \<or> cp_ambiguity_margin pol \<le> cr_best_score r - cr_runner_up_score r \<Longrightarrow>
           clear_match sc pol ps i"
proof -
  have i: "i < length ps" "cr_best_score r = sc (ps ! i)" "sc (ps ! i) \<noteq> INT_MIN"
    and best: "\<And>j. j < length ps \<Longrightarrow> sc (ps ! j) \<le> sc (ps ! i)"
    and run: "\<And>j. j < length ps \<Longrightarrow> j \<noteq> i \<Longrightarrow> sc (ps ! j) \<le> cr_runner_up_score r"
    and att: "cr_runner_up_score r \<noteq> INT_MIN \<Longrightarrow> \<exists>j<length ps. j \<noteq> i \<and> sc (ps ! j) = cr_runner_up_score r"
    using assms(1,2) by (auto simp: scored_def)
  show good: "clear_match sc pol ps i" if min: "cp_minimum_score pol \<le> cr_best_score r"
    and marg: "cr_runner_up_score r = INT_MIN \<or> cp_ambiguity_margin pol \<le> cr_best_score r - cr_runner_up_score r"
  proof -
    have "sc (ps ! j) + cp_ambiguity_margin pol \<le> sc (ps ! i)" if "j < length ps" "j \<noteq> i" "sc (ps ! j) \<noteq> INT_MIN" for j
      using run [OF that(1,2)] marg i(2) that(3) assms(4) by (smt (verit, best))
    then show ?thesis using i min by (simp add: clear_match_def)
  qed
  have "cp_minimum_score pol \<le> cr_best_score r \<and>
      (cr_runner_up_score r = INT_MIN \<or> cp_ambiguity_margin pol \<le> cr_best_score r - cr_runner_up_score r)"
    if k: "clear_match sc pol ps k" for k
  proof -
    have kk: "k < length ps" "cp_minimum_score pol \<le> sc (ps ! k)" using k by (auto simp: clear_match_def)
    have "cp_ambiguity_margin pol \<le> cr_best_score r - cr_runner_up_score r" if ne: "cr_runner_up_score r \<noteq> INT_MIN"
    proof (cases "k = i")
      case True
      obtain j where "j < length ps" "j \<noteq> i" "sc (ps ! j) = cr_runner_up_score r" using att [OF ne] by blast
      then show ?thesis using k True i(2) ne by (auto simp: clear_match_def)
    next
      case False
      have "sc (ps ! i) + cp_ambiguity_margin pol \<le> sc (ps ! k)" using k i False by (auto simp: clear_match_def)
      moreover have "cr_runner_up_score r \<le> sc (ps ! i)" using att [OF ne] best by metis
      ultimately show ?thesis using best [OF kk(1)] i(2) by linarith
    qed
    then show ?thesis using kk best [OF kk(1)] i(2) by auto
  qed
  with good show "(\<exists>k. clear_match sc pol ps k) \<longleftrightarrow> cp_minimum_score pol \<le> cr_best_score r \<and>
      (cr_runner_up_score r = INT_MIN \<or> cp_ambiguity_margin pol \<le> cr_best_score r - cr_runner_up_score r)"
    by blast
qed

text \<open>
  C14. Tap correlation is unambiguous. For a tap inside its session window and a non-negative
  margin, the result is a match exactly when some peer scores at least the
  minimum and leads every other candidate by the margin, and then the reported peer is
  such a peer; it is \<^verbatim>\<open>NONE\<close> exactly when no candidate reaches the minimum, and ambiguous
  otherwise, with no peer reported. Every score lies between 0 and 900, so the \<^verbatim>\<open>int\<close> arithmetic
  of the comparison cannot overflow.
\<close>
theorem tap_correlation_correct:
  fixes peers count tap now pol
  defines "sc \<equiv> \<lambda>p. score_peer p tap now pol" and "ps \<equiv> take count peers"
    and "r \<equiv> tapdrop_correlate (Ptr peers) count tap now (Ptr pol)"
  assumes "tap \<noteq> 0" and "\<not> (tap \<le> now \<and> ucast (cp_session_window_ms pol) < now - tap)"
    and "0 \<le> cp_ambiguity_margin pol"
  shows "(cr_status r = CORRELATION_MATCH \<longleftrightarrow> (\<exists>i. clear_match sc pol ps i)) \<and>
     (cr_status r = CORRELATION_MATCH \<longrightarrow> (\<exists>i. cr_peer r = Some i \<and> clear_match sc pol ps i)) \<and>
     (cr_status r = CORRELATION_NONE \<longleftrightarrow> (\<forall>p\<in>set ps. sc p = INT_MIN \<or> sc p < cp_minimum_score pol)) \<and>
     (cr_status r = CORRELATION_AMBIGUOUS \<longrightarrow> cr_peer r = None) \<and> cr_status r \<noteq> CORRELATION_EXPIRED \<and>
     cr_candidates r = length (filter (\<lambda>p. sc p \<noteq> INT_MIN) ps) \<and>
     (\<forall>p. sc p \<noteq> INT_MIN \<longrightarrow> 0 \<le> sc p \<and> sc p \<le> 900)"
proof -
  define l where "l = correlate_loop sc ps 0 correlation_start"
  have bound: "\<forall>q. INT_MIN \<le> sc q" by (simp add: sc_def score_peer_min)
  have l: "scored sc ps l"
    using correlate_loop_scored [of sc "[]" correlation_start 0 ps] bound
    by (simp add: l_def scored_def correlation_start_def)
  have r: "r = (if cr_peer l = None \<or> cr_best_score l < cp_minimum_score pol then l\<lparr>cr_status := CORRELATION_NONE\<rparr>
      else if cr_runner_up_score l \<noteq> INT_MIN \<and> cr_best_score l - cr_runner_up_score l < cp_ambiguity_margin pol
      then l\<lparr>cr_status := CORRELATION_AMBIGUOUS, cr_peer := None\<rparr> else l\<lparr>cr_status := CORRELATION_MATCH\<rparr>)"
    using assms(4)
    by (simp add: r_def tapdrop_correlate_def Let_def l_def sc_def ps_def if_not_P [OF assms(5)])
  have score: "\<forall>p. sc p \<noteq> INT_MIN \<longrightarrow> 0 \<le> sc p \<and> sc p \<le> 900"
    by (simp add: sc_def score_peer_bounds)
  have cand: "cr_candidates r = length (filter (\<lambda>p. sc p \<noteq> INT_MIN) ps)"
    using l by (simp add: r scored_def)
  show ?thesis
  proof (cases "cr_peer l")
    case None
    then have "\<forall>p\<in>set ps. sc p = INT_MIN" using l by (simp add: scored_def)
    moreover from this have "\<not> clear_match sc pol ps i" for i by (auto simp: clear_match_def)
    ultimately show ?thesis using None r score cand by simp
  next
    case (Some i)
    have i: "i < length ps" "cr_best_score l = sc (ps ! i)" "sc (ps ! i) \<noteq> INT_MIN"
      "\<forall>j<length ps. sc (ps ! j) \<le> sc (ps ! i)"
      using l Some by (auto simp: scored_def)
    have none: "cr_best_score l < cp_minimum_score pol \<longleftrightarrow> (\<forall>p\<in>set ps. sc p = INT_MIN \<or> sc p < cp_minimum_score pol)"
      using i by (auto simp: all_set_conv_all_nth)
    note c = clear_match_unique_best [OF l Some assms(6) bound]
    show ?thesis using r Some score cand none c by (auto simp: not_less not_le)
  qed
qed

definition ex_policy :: correlation_policy where
  "ex_policy = \<lparr>cp_session_window_ms = 5000, cp_pre_tap_grace_ms = 1500, cp_minimum_score = 300, cp_ambiguity_margin = 20\<rparr>"

theorem tap_correlation_correct_witness:
  "cr_status (tapdrop_correlate (Ptr (pt_peers ex_table2)) 2 90 200 (Ptr ex_policy)) = CORRELATION_MATCH \<and>
   cr_peer (tapdrop_correlate (Ptr (pt_peers ex_table2)) 2 90 200 (Ptr ex_policy)) = Some 0"
proof -
  have h: "(90::u64) \<noteq> 0" "\<not> ((90::u64) \<le> 200 \<and> ucast (cp_session_window_ms ex_policy) < (200::u64) - 90)"
    "0 \<le> cp_ambiguity_margin ex_policy"
    by code_simp+
  have "clear_match (\<lambda>p. score_peer p 90 200 ex_policy) ex_policy (take 2 (pt_peers ex_table2)) 0"
    "\<not> clear_match (\<lambda>p. score_peer p 90 200 ex_policy) ex_policy (take 2 (pt_peers ex_table2)) 1"
    by code_simp+
  moreover have "i < 2 \<Longrightarrow> i = 0 \<or> i = 1" for i :: nat by auto
  moreover have "clear_match sc pol (take 2 ps) i \<Longrightarrow> i < 2" for sc pol ps i by (simp add: clear_match_def)
  ultimately show ?thesis
    using tap_correlation_correct [OF h, of "pt_peers ex_table2" 2] by metis
qed

text \<open>
  C15. The life of a tap session. On an initialised module a tap at a non-zero time whose window
  does not wrap the 64-bit clock succeeds and increments the generation; until the window has passed,
  selecting a peer is the correlation of the table with this tap under the configured
  window, minimum score and margin; afterwards every selection reports an expired
  session and no peer.
\<close>
theorem tap_session_lifecycle:
  fixes ts timer m
  defines "t \<equiv> (if ts = 0 then monotonic_ms timer else ts)" and "cfg \<equiv> td_active_config m"
  assumes "td_initialized m" and "t \<noteq> 0" and "unat t + unat (tc_session_window_ms cfg) < 2 ^ 64"
    and "tapdrop_signal_tap ts timer m = (e, m')"
  shows "e = ESP_OK \<and> ts_generation (td_session m') = ts_generation (td_session m) + 1 \<and>
     tapdrop_select_peer (Ptr table) now timer2 m' =
       (if unat (monotonic_ms timer2) \<le> unat t + unat (tc_session_window_ms cfg)
        then tapdrop_correlate (Ptr (pt_peers table)) (pt_count table) t now
               (Ptr \<lparr>cp_session_window_ms = tc_session_window_ms cfg, cp_pre_tap_grace_ms = 1500,
                     cp_minimum_score = tc_minimum_score cfg, cp_ambiguity_margin = tc_ambiguity_margin cfg\<rparr>)
        else \<lparr>cr_status = CORRELATION_EXPIRED, cr_peer = None, cr_best_score = 0, cr_runner_up_score = 0,
              cr_candidates = 0\<rparr>)"
proof -
  have m': "e = ESP_OK" "m' = open_session t m"
    using assms(3,6) by (auto simp: tapdrop_signal_tap_def t_def)
  have w: "unat (ucast (tc_session_window_ms cfg) :: u64) = unat (tc_session_window_ms cfg)"
    by (rule unat_ucast_u32_u64)
  have ex: "unat (t + ucast (tc_session_window_ms cfg)) = unat t + unat (tc_session_window_ms cfg)"
    using assms(5) w by (simp add: unat_word_ariths)
  have "monotonic_ms timer2 > t + ucast (tc_session_window_ms cfg) \<longleftrightarrow>
      \<not> unat (monotonic_ms timer2) \<le> unat t + unat (tc_session_window_ms cfg)"
    by (simp add: word_less_nat_alt ex not_le)
  then show ?thesis
    using m' assms(4)
    by (simp add: tapdrop_select_peer_def tapdrop_current_session_def open_session_def Let_def cfg_def)
qed

definition ex_module :: tapdrop_module where
  "ex_module = snd (tapdrop_init (Ptr \<lparr>tc_field_gpio = -1, tc_active_level = 0, tc_session_window_ms = 5000,
     tc_minimum_score = 300, tc_ambiguity_margin = 60\<rparr>)
     \<lparr>gpio_config_result = 0, gpio_install_isr_service_result = 0, gpio_isr_handler_add_result = 0\<rparr>
     \<lparr>td_active_config = \<lparr>tc_field_gpio = 0, tc_active_level = 0, tc_session_window_ms = 0,
        tc_minimum_score = 0, tc_ambiguity_margin = 0\<rparr>, td_session = session_zero, td_initialized = False\<rparr>)"

theorem tap_session_lifecycle_witness:
  "cr_status (tapdrop_select_peer (Ptr ex_table2) 6000 5091000 (snd (tapdrop_signal_tap 90 0 ex_module))) = CORRELATION_EXPIRED"
proof -
  have "td_initialized ex_module" "(90::u64) \<noteq> 0"
    "unat (90::u64) + unat (tc_session_window_ms (td_active_config ex_module)) < 2 ^ 64"
    "\<not> unat (monotonic_ms 5091000) \<le> unat (90::u64) + unat (tc_session_window_ms (td_active_config ex_module))"
    by (simp_all add: ex_module_def tapdrop_init_def monotonic_ms_def)
  then show ?thesis
    using tap_session_lifecycle [of ex_module 90 0 "fst (tapdrop_signal_tap 90 0 ex_module)"
        "snd (tapdrop_signal_tap 90 0 ex_module)" ex_table2 6000 5091000]
    by simp
qed

end
