(* ===== verification/Awdl_Tx.thy ===== *)
theory Awdl_Tx
  imports Awdl_Election
begin

text \<open>
  AWDL transmission (\<^verbatim>\<open>core/src/awdl_tx.c\<close>): the transmit state derived from a received
  MIF, the channel-window schedulers, and the construction of PSF and MIF action frames. A
  frame is built as the concatenation of the TLVs in the order the code appends them; the
  caller's buffer then holds it at its start.
\<close>

section \<open>Data\<close>

definition AWDL_TU_US :: u64 where
  "AWDL_TU_US = 1024"

definition ESPDROP_AWDL_TX_FRAME_CAPACITY :: nat where
  "ESPDROP_AWDL_TX_FRAME_CAPACITY = 384"

definition ESPDROP_AWDL_TX_NAME_BYTES :: nat where
  "ESPDROP_AWDL_TX_NAME_BYTES = 32"

definition AWDL_SYNC_VALUE_BYTES :: nat where "AWDL_SYNC_VALUE_BYTES = 73"
definition AWDL_CHANNEL_VALUE_BYTES :: nat where "AWDL_CHANNEL_VALUE_BYTES = 41"
definition AWDL_ELECTION_V1_VALUE_BYTES :: nat where "AWDL_ELECTION_V1_VALUE_BYTES = 21"
definition AWDL_ELECTION_V2_VALUE_BYTES :: nat where "AWDL_ELECTION_V2_VALUE_BYTES = 40"
definition AWDL_SERVICE_VALUE_BYTES :: nat where "AWDL_SERVICE_VALUE_BYTES = 11"
definition AWDL_HT_VALUE_BYTES :: nat where "AWDL_HT_VALUE_BYTES = 9"
definition AWDL_DATA_PATH_VALUE_BYTES :: nat where "AWDL_DATA_PATH_VALUE_BYTES = 15"
definition AWDL_VERSION_VALUE_BYTES :: nat where "AWDL_VERSION_VALUE_BYTES = 2"

datatype build_result = BUILD_OK | BUILD_INVALID_ARGUMENT | BUILD_INVALID_STATE | BUILD_NO_SPACE

text \<open>\<open>tx_name\<close> is the whole 32-byte array, terminator and padding included.\<close>

record tx_state =
  tx_self :: mac
  tx_master :: mac
  tx_sync_master :: mac
  tx_name :: bytes
  tx_sync_reference_us :: u64
  tx_peer_time_observed_us :: u64
  tx_peer_time_reference :: u32
  tx_aw_sequence_base :: u16
  tx_aw_period_tu :: u16
  tx_action_frame_period_tu :: u16
  tx_presence_mode :: byte
  tx_channel :: byte
  tx_peer_channel_count :: byte
  tx_peer_channel_encoding :: byte
  tx_peer_channel_duplicate_count :: byte
  tx_peer_channel_step_count :: byte
  tx_peer_channel_fill :: u16
  tx_peer_channels :: bytes
  tx_peer_operating_classes :: bytes
  tx_distance_to_master :: u32
  tx_master_metric :: u32
  tx_self_metric :: u32
  tx_master_counter :: u32
  tx_self_counter :: u32
  tx_advertise_airdrop_tcp :: bool
  tx_airdrop_port :: u16

definition tx_state_zero :: tx_state where
  "tx_state_zero = \<lparr>tx_self = replicate 6 0, tx_master = replicate 6 0, tx_sync_master = replicate 6 0,
     tx_name = replicate 32 0, tx_sync_reference_us = 0, tx_peer_time_observed_us = 0,
     tx_peer_time_reference = 0, tx_aw_sequence_base = 0, tx_aw_period_tu = 0,
     tx_action_frame_period_tu = 0, tx_presence_mode = 0, tx_channel = 0, tx_peer_channel_count = 0,
     tx_peer_channel_encoding = 0, tx_peer_channel_duplicate_count = 0, tx_peer_channel_step_count = 0,
     tx_peer_channel_fill = 0, tx_peer_channels = replicate 16 0, tx_peer_operating_classes = replicate 16 0,
     tx_distance_to_master = 0, tx_master_metric = 0, tx_self_metric = 0, tx_master_counter = 0,
     tx_self_counter = 0, tx_advertise_airdrop_tcp = False, tx_airdrop_port = 0\<rparr>"

section \<open>State\<close>

definition espdrop_awdl_tx_state_from_mif ::
  "tx_state ptr \<Rightarrow> mac ptr \<Rightarrow> mac ptr \<Rightarrow> bytes ptr \<Rightarrow> u32 \<Rightarrow> mif ptr \<Rightarrow> u64 \<Rightarrow> bool \<times> tx_state ptr" where
  "espdrop_awdl_tx_state_from_mif statep selfp sourcep namep peer_phy_tx mifp observation_us =
     (let m = deref mifp; sync = mif_sync m; e2 = mif_election_v2 m in
      if statep = NULL \<or> selfp = NULL \<or> sourcep = NULL \<or> namep = NULL \<or> mifp = NULL \<or>
         \<not> mif_has_sync m \<or> \<not> mif_has_election_v2 m \<or> sp_aw_period_tu sync = 0 \<or>
         sp_presence_mode sync = 0 \<or> unat (sp_presence_mode sync) > ESPDROP_AWDL_MAX_CHANNELS \<or>
         mac_is_zero (deref selfp) \<or> mac_is_zero (e2_master e2) \<or> mac_is_zero (e2_sync_master e2)
      then (False, statep)
      else
        let eaw_period_tu = (ucast (sp_aw_period_tu sync) * ucast (sp_presence_mode sync) :: u32) in
        if eaw_period_tu = 0 then (False, statep)
        else
          let down_tu = ucast (sp_tx_down_counter sync) mod eaw_period_tu;
              elapsed_in_eaw_tu = (if down_tu = 0 then 0 else eaw_period_tu - down_tu);
              elapsed_us = ucast elapsed_in_eaw_tu * AWDL_TU_US;
              base = tx_state_zero\<lparr>
                tx_self := deref selfp,
                tx_master := e2_master e2,
                tx_sync_master := deref sourcep,
                tx_name := take 31 (deref namep) @ replicate (32 - min 31 (length (deref namep))) 0,
                tx_sync_reference_us := (if observation_us \<ge> elapsed_us then observation_us - elapsed_us else 0),
                tx_peer_time_observed_us := observation_us,
                tx_peer_time_reference := peer_phy_tx,
                tx_aw_sequence_base := sp_next_aw_sequence sync AND NOT (ucast (sp_presence_mode sync) - 1),
                tx_aw_period_tu := sp_aw_period_tu sync,
                tx_action_frame_period_tu :=
                  (if sp_action_frame_period_tu sync = 0 then 110 else sp_action_frame_period_tu sync),
                tx_presence_mode := sp_presence_mode sync,
                tx_channel := (if sp_master_channel sync = 0 then 6 else sp_master_channel sync)\<rparr>;
              peer_sequence = (if mif_has_channel_sequence m then Ptr (mif_channel_sequence m)
                               else if sp_has_embedded_channel_sequence sync
                               then Ptr (sp_embedded_channel_sequence sync) else NULL);
              q = deref peer_sequence;
              state = (if peer_sequence \<noteq> NULL
                       then base\<lparr>
                         tx_peer_channel_count := cs_count q,
                         tx_peer_channel_encoding := cs_encoding q,
                         tx_peer_channel_duplicate_count := cs_duplicate_count q,
                         tx_peer_channel_step_count := cs_step_count q,
                         tx_peer_channel_fill := cs_fill_channel q,
                         tx_peer_channels := cs_channels q,
                         tx_peer_operating_classes := cs_operating_classes q\<rparr>
                       else base) in
          (True, Ptr (state\<lparr>
             tx_distance_to_master := e2_distance_to_master e2 + 1,
             tx_master_metric := e2_master_metric e2,
             tx_self_metric := ESPDROP_AWDL_ELECTION_METRIC_INITIAL,
             tx_master_counter := e2_master_counter e2,
             tx_self_counter := ESPDROP_AWDL_ELECTION_COUNTER_INITIAL\<rparr>)))"

definition espdrop_awdl_tx_state_apply_election ::
  "tx_state ptr \<Rightarrow> election_state ptr \<Rightarrow> bool \<times> tx_state ptr" where
  "espdrop_awdl_tx_state_apply_election statep electionp =
     (let s = deref statep; e = deref electionp in
      if statep = NULL \<or> electionp = NULL \<or> memcmp (tx_self s) (es_self e) 6 \<noteq> 0 \<or>
         mac_is_zero (es_master e) \<or> mac_is_zero (es_sync_master e) \<or>
         es_distance_to_master e > ESPDROP_AWDL_ELECTION_TREE_MAX_HEIGHT
      then (False, statep)
      else (True, Ptr (s\<lparr>
        tx_master := es_master e,
        tx_sync_master := es_sync_master e,
        tx_distance_to_master := es_distance_to_master e,
        tx_master_metric := es_master_metric e,
        tx_self_metric := es_self_metric e,
        tx_master_counter := es_master_counter e,
        tx_self_counter := es_self_counter e\<rparr>)))"

definition state_is_valid :: "tx_state ptr \<Rightarrow> bool" where
  "state_is_valid statep \<longleftrightarrow>
     (let s = deref statep in
      statep \<noteq> NULL \<and> \<not> mac_is_zero (tx_self s) \<and> \<not> mac_is_zero (tx_master s) \<and>
      \<not> mac_is_zero (tx_sync_master s) \<and> tx_aw_period_tu s \<noteq> 0 \<and> tx_presence_mode s \<noteq> 0 \<and>
      unat (tx_presence_mode s) \<le> ESPDROP_AWDL_MAX_CHANNELS \<and>
      unat (tx_peer_channel_count s) = ESPDROP_AWDL_MAX_CHANNELS \<and>
      tx_peer_channel_encoding s = 3 \<and> tx_channel s \<ge> 1 \<and> tx_channel s \<le> 13)"

section \<open>Channel windows\<close>

text \<open>\<^verbatim>\<open>(uint64_t)aw_period_tu * presence_mode * AWDL_TU_US\<close>\<close>

definition eaw_us :: "tx_state \<Rightarrow> u64" where
  "eaw_us s = ucast (tx_aw_period_tu s) * ucast (tx_presence_mode s) * AWDL_TU_US"

definition sequence_base :: "tx_state \<Rightarrow> u64" where
  "sequence_base s = ucast (tx_aw_sequence_base s div ucast (tx_presence_mode s))"

function next_window_loop ::
  "tx_state \<Rightarrow> byte \<Rightarrow> u64 \<Rightarrow> u32 \<Rightarrow> u64 \<Rightarrow> u64 \<Rightarrow> nat \<Rightarrow> u64 option" where
  "next_window_loop s channel now_us guard_us elapsed_eaws current_start offset =
     (if offset \<le> unat (tx_peer_channel_count s) then
        let index = unat ((sequence_base s + elapsed_eaws + of_nat offset) mod ucast (tx_peer_channel_count s)) in
        if tx_peer_channels s ! index \<noteq> channel
        then next_window_loop s channel now_us guard_us elapsed_eaws current_start (Suc offset)
        else
          let candidate = current_start + of_nat offset * eaw_us s + ucast guard_us in
          if candidate \<ge> now_us then Some candidate
          else next_window_loop s channel now_us guard_us elapsed_eaws current_start (Suc offset)
      else None)"
  by pat_completeness auto
termination
  by (relation "measure (\<lambda>(s, c, n, g, e, cs, off). Suc (unat (tx_peer_channel_count s)) - off)") auto

declare next_window_loop.simps [simp del]

definition espdrop_awdl_next_channel_window_us ::
  "tx_state ptr \<Rightarrow> byte \<Rightarrow> u64 \<Rightarrow> u32 \<Rightarrow> u64 ptr \<Rightarrow> bool \<times> u64 ptr" where
  "espdrop_awdl_next_channel_window_us statep channel now_us guard_us scheduled_us =
     (let s = deref statep in
      if \<not> state_is_valid statep \<or> scheduled_us = NULL \<or> channel = 0 \<or> tx_peer_channel_count s = 0 \<or>
         unat (tx_peer_channel_count s) > ESPDROP_AWDL_MAX_CHANNELS \<or> now_us < tx_sync_reference_us s
      then (False, scheduled_us)
      else if eaw_us s = 0 \<or> ucast guard_us \<ge> eaw_us s then (False, scheduled_us)
      else
        let elapsed_eaws = (now_us - tx_sync_reference_us s) div eaw_us s;
            current_start = tx_sync_reference_us s + elapsed_eaws * eaw_us s in
        case next_window_loop s channel now_us guard_us elapsed_eaws current_start 0 of
          Some candidate \<Rightarrow> (True, Ptr candidate)
        | None \<Rightarrow> (False, scheduled_us))"

record channel_window =
  win_start_us :: u64
  win_end_us :: u64
  win_channel :: byte

definition channel_window_at :: "tx_state ptr \<Rightarrow> u64 \<Rightarrow> channel_window option" where
  "channel_window_at statep at_us =
     (let s = deref statep in
      if \<not> state_is_valid statep \<or> at_us < tx_sync_reference_us s then None
      else if eaw_us s = 0 then None
      else
        let elapsed_eaws = (at_us - tx_sync_reference_us s) div eaw_us s in
        if elapsed_eaws > (- 1 - tx_sync_reference_us s) div eaw_us s then None
        else
          let start_us = tx_sync_reference_us s + elapsed_eaws * eaw_us s in
          if start_us > - 1 - eaw_us s then None
          else
            let index = unat ((sequence_base s + elapsed_eaws) mod ucast (tx_peer_channel_count s)) in
            Some \<lparr>win_start_us = start_us, win_end_us = start_us + eaw_us s,
                  win_channel = tx_peer_channels s ! index\<rparr>)"

fun common_window_loop ::
  "tx_state \<Rightarrow> tx_state \<Rightarrow> byte \<Rightarrow> u64 \<Rightarrow> u32 \<Rightarrow> nat \<Rightarrow> u64 \<Rightarrow> u64 option" where
  "common_window_loop local peer channel now_us guard_us 0 cursor_us = None"
| "common_window_loop local peer channel now_us guard_us (Suc boundaries) cursor_us =
     (case (channel_window_at (Ptr local) cursor_us, channel_window_at (Ptr peer) cursor_us) of
        (Some local_window, Some peer_window) \<Rightarrow>
          let safe_start0 = win_start_us local_window + ucast guard_us;
              peer_safe_start = win_start_us peer_window + ucast guard_us;
              safe_start_us = (if safe_start0 < peer_safe_start then peer_safe_start else safe_start0);
              local_safe_end = win_end_us local_window - ucast guard_us;
              peer_safe_end = win_end_us peer_window - ucast guard_us;
              safe_end_us = (if local_safe_end < peer_safe_end then local_safe_end else peer_safe_end) in
          if win_channel local_window = channel \<and> win_channel peer_window = channel \<and>
             safe_start_us \<ge> now_us \<and> safe_start_us \<le> safe_end_us
          then Some safe_start_us
          else
            let next_boundary_us = (if win_end_us local_window < win_end_us peer_window
                                    then win_end_us local_window else win_end_us peer_window) in
            if next_boundary_us \<le> cursor_us then None
            else common_window_loop local peer channel now_us guard_us boundaries next_boundary_us
      | _ \<Rightarrow> None)"

definition espdrop_awdl_next_common_channel_window_us ::
  "tx_state ptr \<Rightarrow> tx_state ptr \<Rightarrow> byte \<Rightarrow> u64 \<Rightarrow> u32 \<Rightarrow> u64 ptr \<Rightarrow> bool \<times> u64 ptr" where
  "espdrop_awdl_next_common_channel_window_us localp peerp channel now_us guard_us scheduled_us =
     (let l = deref localp; p = deref peerp in
      if \<not> state_is_valid localp \<or> \<not> state_is_valid peerp \<or> scheduled_us = NULL \<or> channel = 0 \<or>
         now_us < tx_sync_reference_us l \<or> now_us < tx_sync_reference_us p
      then (False, scheduled_us)
      else if eaw_us l \<noteq> eaw_us p \<or> ucast guard_us * 2 \<ge> eaw_us l \<or> ucast guard_us * 2 \<ge> eaw_us p
      then (False, scheduled_us)
      else
        let boundary_limit = 2 * (unat (tx_peer_channel_count l) + unat (tx_peer_channel_count p)) + 2 in
        case common_window_loop l p channel now_us guard_us boundary_limit now_us of
          Some t \<Rightarrow> (True, Ptr t)
        | None \<Rightarrow> (False, scheduled_us))"

section \<open>Frame construction\<close>

definition broadcast :: mac where
  "broadcast = replicate 6 0xff"

definition bounded_string_length :: "bytes \<Rightarrow> nat \<Rightarrow> nat" where
  "bounded_string_length str maximum = length (takeWhile (\<lambda>c. c \<noteq> 0) (take maximum str))"

text \<open>The encoded channel sequence followed by \<open>padding\<close> zero bytes; \<open>None\<close> when the code returns false.\<close>

definition make_channel_sequence :: "nat \<Rightarrow> tx_state \<Rightarrow> bytes option" where
  "make_channel_sequence padding s =
     (if unat (tx_peer_channel_count s) \<noteq> ESPDROP_AWDL_MAX_CHANNELS \<or> tx_peer_channel_encoding s \<noteq> 3 then None
      else Some ([tx_peer_channel_count s - 1, tx_peer_channel_encoding s, tx_peer_channel_duplicate_count s,
                  tx_peer_channel_step_count s] @ put_le16 (tx_peer_channel_fill s) @
                 concat (map (\<lambda>i. [tx_peer_channels s ! i, tx_peer_operating_classes s ! i])
                   [0..<unat (tx_peer_channel_count s)]) @ replicate padding 0))"

text \<open>\<open>append_tlv\<close> writes type and length and clears the value; the value is then filled in.\<close>

definition append_tlv :: "byte \<Rightarrow> bytes \<Rightarrow> bytes" where
  "append_tlv t v = [t] @ put_le16 (of_nat (length v)) @ v"

definition hex_digit :: "byte \<Rightarrow> byte" where
  "hex_digit v = (if v < 10 then 0x30 + v else 0x61 + v - 10)"

definition write_service_id :: "mac \<Rightarrow> bytes" where
  "write_service_id m = concat (map (\<lambda>b. [hex_digit (drop_bit 4 b), hex_digit (b AND 0x0f)]) m)"

definition append_airdrop_service_response :: "bytes \<Rightarrow> byte \<Rightarrow> bytes \<Rightarrow> bytes" where
  "append_airdrop_service_response owner record_type data =
     append_tlv 2 (put_le16 (of_nat (length owner + 1)) @ owner @ [record_type] @
       put_le16 (of_nat (length data)) @ put_le16 0 @ data)"

definition airdrop_instance :: "tx_state \<Rightarrow> bytes" where
  "airdrop_instance s = [12] @ write_service_id (tx_self s) @ [0xc0, 0x07]"

definition append_airdrop_service_responses :: "tx_state \<Rightarrow> nat \<Rightarrow> bytes" where
  "append_airdrop_service_responses s host_name_length =
     (let ptr_data = [12] @ write_service_id (tx_self s) @ [0xc0, 0x00];
          srv_data = [0, 0, 0, 0, ucast (drop_bit 8 (tx_airdrop_port s)), ucast (tx_airdrop_port s),
                      of_nat host_name_length] @ take host_name_length (tx_name s) @ [0xc0, 0x0c] in
      append_airdrop_service_response [0xc0, 0x07] 12 ptr_data @
      append_airdrop_service_response (airdrop_instance s) 33 srv_data @
      append_airdrop_service_response (airdrop_instance s) 16 [0])"

text \<open>Timing fields of the synchronisation TLV.\<close>

record tx_timing =
  tt_tx_down_tu :: u16
  tt_current_aw :: u16
  tt_remaining_aw :: u16

definition tx_timing_at :: "tx_state \<Rightarrow> u64 \<Rightarrow> tx_timing" where
  "tx_timing_at s now_us =
     (let elapsed_tu = (now_us - tx_sync_reference_us s) div AWDL_TU_US;
          eaw_period_tu = (ucast (tx_aw_period_tu s) * ucast (tx_presence_mode s) :: u32);
          phase_tu = (ucast (elapsed_tu mod ucast eaw_period_tu) :: u32);
          tx_down_tu = (ucast (eaw_period_tu - phase_tu) :: u16);
          elapsed_eaws = (ucast (elapsed_tu div ucast eaw_period_tu) :: u32);
          current_aw = ucast (ucast (tx_aw_sequence_base s) + elapsed_eaws * ucast (tx_presence_mode s) +
                              phase_tu div ucast (tx_aw_period_tu s));
          elapsed_current_eaw = eaw_period_tu - ucast tx_down_tu in
      \<lparr>tt_tx_down_tu = tx_down_tu, tt_current_aw = current_aw,
       tt_remaining_aw = (if elapsed_current_eaw < ucast (tx_aw_period_tu s)
                          then ucast (ucast (tx_aw_period_tu s) - elapsed_current_eaw) else 0)\<rparr>)"

definition ieee80211_header :: "tx_state \<Rightarrow> u16 \<Rightarrow> bytes" where
  "ieee80211_header s sequence_number =
     [0xd0, 0, 0, 0] @ broadcast @ tx_self s @ awdl_bssid @ put_le16 (push_bit 4 (sequence_number AND 0x0fff))"

definition awdl_action_header :: "tx_state \<Rightarrow> byte \<Rightarrow> u64 \<Rightarrow> bytes" where
  "awdl_action_header s subtype now_us =
     (let peer_now = tx_peer_time_reference s + ucast (now_us - tx_peer_time_observed_us s) in
      [127, 0x00, 0x17, 0xf2, 8, 0x10, subtype, 0] @ put_le32 peer_now @ put_le32 peer_now)"

text \<open>The first 33 bytes of the synchronisation value; the channel sequence follows.\<close>

definition sync_value_head :: "tx_state \<Rightarrow> u64 \<Rightarrow> bytes" where
  "sync_value_head s now_us =
     (let t = tx_timing_at s now_us; ext = tx_presence_mode s - 1 in
      [tx_channel s] @ put_le16 (tt_tx_down_tu t) @ [tx_channel s, 0] @ put_le16 (tx_aw_period_tu s) @
      put_le16 (tx_action_frame_period_tu s) @ put_le16 0x1800 @ put_le16 (tx_aw_period_tu s) @
      put_le16 (tx_aw_period_tu s) @ put_le16 (tt_remaining_aw t) @ [ext, ext, ext, ext] @ tx_master s @
      [tx_presence_mode s, 0] @ put_le16 (tt_current_aw t) @ put_le16 (tt_current_aw t))"

definition election_v1_value :: "tx_state \<Rightarrow> bytes" where
  "election_v1_value s =
     [0, 0, 0, if tx_distance_to_master s > 255 then 255 else ucast (tx_distance_to_master s), 0] @
     tx_master s @ put_le32 (tx_master_metric s) @ put_le32 (tx_self_metric s) @ [0, 0]"

definition election_v2_value :: "tx_state \<Rightarrow> bytes" where
  "election_v2_value s =
     tx_master s @ tx_sync_master s @ put_le32 (tx_master_counter s) @ put_le32 (tx_distance_to_master s) @
     put_le32 (tx_master_metric s) @ put_le32 (tx_self_metric s) @ replicate 8 0 @ put_le32 (tx_self_counter s)"

definition ht_value :: bytes where
  "ht_value = [0, 0, 0x6f, 0, 0x1f, 0xff, 0xff, 0, 0]"

definition arpa_value :: "tx_state \<Rightarrow> nat \<Rightarrow> bytes" where
  "arpa_value s name_length = [3, of_nat name_length] @ take name_length (tx_name s) @ [0xc0, 0x0c]"

definition data_path_value :: "tx_state \<Rightarrow> bytes" where
  "data_path_value s = put_le16 0x8f24 @ [0x58, 0x30, 0] @ put_le16 1 @ tx_self s @ put_le16 0"

definition required_bytes :: "tx_state \<Rightarrow> byte \<Rightarrow> nat \<Rightarrow> nat" where
  "required_bytes s subtype name_length =
     (let arpa_value_length = 4 + name_length;
          airdrop_service_bytes =
            (if subtype = ESPDROP_AWDL_ACTION_MIF \<and> tx_advertise_airdrop_tcp s then 87 + name_length else 0) in
      IEEE80211_HEADER_BYTES + AWDL_ACTION_HEADER_BYTES + (3 + AWDL_SYNC_VALUE_BYTES) +
      (3 + AWDL_ELECTION_V1_VALUE_BYTES) + (3 + AWDL_CHANNEL_VALUE_BYTES) +
      (3 + AWDL_ELECTION_V2_VALUE_BYTES) + (3 + AWDL_SERVICE_VALUE_BYTES) +
      (if subtype = ESPDROP_AWDL_ACTION_MIF then (3 + AWDL_HT_VALUE_BYTES) + (3 + arpa_value_length) else 0) +
      (3 + AWDL_DATA_PATH_VALUE_BYTES) + (3 + AWDL_VERSION_VALUE_BYTES) + airdrop_service_bytes)"

text \<open>The TLVs after the two channel-sequence ones, from the second election TLV on.\<close>

definition tail_tlvs :: "tx_state \<Rightarrow> byte \<Rightarrow> nat \<Rightarrow> bytes" where
  "tail_tlvs s subtype name_length =
     append_tlv 24 (election_v2_value s) @ append_tlv 6 (replicate AWDL_SERVICE_VALUE_BYTES 0) @
     (if subtype = ESPDROP_AWDL_ACTION_MIF
      then append_tlv 7 ht_value @ append_tlv 16 (arpa_value s name_length) else []) @
     append_tlv 12 (data_path_value s) @ append_tlv 21 [0xa0, 1] @
     (if subtype = ESPDROP_AWDL_ACTION_MIF \<and> tx_advertise_airdrop_tcp s
      then append_airdrop_service_responses s name_length else [])"

text \<open>
  The buffer after writing \<open>written\<close> into the cleared first \<open>required\<close> bytes, which is also what
  an early return after that point leaves behind.
\<close>

definition write_frame :: "bytes \<Rightarrow> nat \<Rightarrow> bytes \<Rightarrow> bytes" where
  "write_frame frame required written =
     store (store frame 0 (replicate required 0)) 0 written"

definition espdrop_awdl_build_action ::
  "bytes ptr \<Rightarrow> nat \<Rightarrow> nat ptr \<Rightarrow> tx_state ptr \<Rightarrow> byte \<Rightarrow> u64 \<Rightarrow> u16 \<Rightarrow> build_result \<times> bytes ptr \<times> nat ptr" where
  "espdrop_awdl_build_action frame capacity len statep subtype now_us sequence_number =
     (let s = deref statep in
      if frame = NULL \<or> len = NULL \<or> statep = NULL \<or>
         (subtype \<noteq> ESPDROP_AWDL_ACTION_PSF \<and> subtype \<noteq> ESPDROP_AWDL_ACTION_MIF)
      then (BUILD_INVALID_ARGUMENT, frame, len)
      else if \<not> state_is_valid statep \<or> now_us < tx_sync_reference_us s then (BUILD_INVALID_STATE, frame, len)
      else if tx_advertise_airdrop_tcp s \<and> tx_airdrop_port s = 0 then (BUILD_INVALID_STATE, frame, len)
      else
        let name_length = bounded_string_length (tx_name s) ESPDROP_AWDL_TX_NAME_BYTES;
            required = required_bytes s subtype name_length in
        if capacity < required \<or> required > ESPDROP_AWDL_TX_FRAME_CAPACITY then (BUILD_NO_SPACE, frame, len)
        else
          let headers = ieee80211_header s sequence_number @ awdl_action_header s subtype now_us;
              sync_head = [4] @ put_le16 (of_nat AWDL_SYNC_VALUE_BYTES) @ sync_value_head s now_us in
          case make_channel_sequence 2 s of
            None \<Rightarrow> (BUILD_INVALID_STATE, Ptr (write_frame (deref frame) required (headers @ sync_head)), len)
          | Some embedded \<Rightarrow>
              let upto_v1 = headers @ sync_head @ embedded @ append_tlv 5 (election_v1_value s) in
              case make_channel_sequence 3 s of
                None \<Rightarrow> (BUILD_INVALID_STATE,
                   Ptr (write_frame (deref frame) required
                     (upto_v1 @ [18] @ put_le16 (of_nat AWDL_CHANNEL_VALUE_BYTES))), len)
              | Some channels \<Rightarrow>
                  let built = upto_v1 @ append_tlv 18 channels @ tail_tlvs s subtype name_length in
                  (if length built = required then BUILD_OK else BUILD_INVALID_STATE,
                   Ptr (write_frame (deref frame) required built), Ptr (length built)))"

section \<open>Round trip of a built frame\<close>

definition wf_tx_state :: "tx_state \<Rightarrow> bool" where
  "wf_tx_state s \<longleftrightarrow> length (tx_self s) = 6 \<and> length (tx_master s) = 6 \<and> length (tx_sync_master s) = 6 \<and>
     length (tx_name s) = 32 \<and> length (tx_peer_channels s) = 16 \<and> length (tx_peer_operating_classes s) = 16"

lemma append_tlv_enc: "append_tlv t v = tlv_enc t v"
  by (simp add: append_tlv_def tlv_enc_def)

lemma name_length_bound: "bounded_string_length nm 32 \<le> 32"
  unfolding bounded_string_length_def using length_takeWhile_le [of _ "take 32 nm"] by (metis length_take min.bounded_iff le_trans)

lemma length_concat_pairs: "length (concat (map (\<lambda>i. [f i, g i]) xs)) = 2 * length xs"
  by (induction xs) auto

lemma length_write_service_id: "length (write_service_id m) = 2 * length m"
  by (simp add: write_service_id_def length_concat_pairs)

lemma make_channel_sequence_valid:
  assumes "state_is_valid (Ptr s)"
  shows "make_channel_sequence n s = Some ([15, 3, tx_peer_channel_duplicate_count s, tx_peer_channel_step_count s] @
     put_le16 (tx_peer_channel_fill s) @
     concat (map (\<lambda>i. [tx_peer_channels s ! i, tx_peer_operating_classes s ! i]) [0..<16]) @ replicate n 0)"
proof -
  have c: "unat (tx_peer_channel_count s) = 16" "tx_peer_channel_encoding s = 3"
    using assms by (simp_all add: state_is_valid_def Let_def ESPDROP_AWDL_MAX_CHANNELS_def)
  have "tx_peer_channel_count s = of_nat (unat (tx_peer_channel_count s))" by simp
  then have "tx_peer_channel_count s = 16" unfolding c(1) by simp
  with c show ?thesis by (simp add: make_channel_sequence_def ESPDROP_AWDL_MAX_CHANNELS_def)
qed

text \<open>The TLVs a valid state sends, as type-value pairs.\<close>

definition sent_channels :: "nat \<Rightarrow> tx_state \<Rightarrow> bytes" where
  "sent_channels n s = [15, 3, tx_peer_channel_duplicate_count s, tx_peer_channel_step_count s] @
     put_le16 (tx_peer_channel_fill s) @
     concat (map (\<lambda>i. [tx_peer_channels s ! i, tx_peer_operating_classes s ! i]) [0..<16]) @ replicate n 0"

definition service_value :: "bytes \<Rightarrow> byte \<Rightarrow> bytes \<Rightarrow> bytes" where
  "service_value owner rtype data = put_le16 (of_nat (length owner + 1)) @ owner @ [rtype] @
     put_le16 (of_nat (length data)) @ put_le16 0 @ data"

definition sent_services :: "tx_state \<Rightarrow> nat \<Rightarrow> (byte \<times> bytes) list" where
  "sent_services s n =
     [(2, service_value [0xc0, 0x07] 12 ([12] @ write_service_id (tx_self s) @ [0xc0, 0x00])),
      (2, service_value (airdrop_instance s) 33
            ([0, 0, 0, 0, ucast (drop_bit 8 (tx_airdrop_port s)), ucast (tx_airdrop_port s), of_nat n] @
             take n (tx_name s) @ [0xc0, 0x0c])),
      (2, service_value (airdrop_instance s) 16 [0])]"

definition sent_tlvs :: "tx_state \<Rightarrow> byte \<Rightarrow> u64 \<Rightarrow> nat \<Rightarrow> (byte \<times> bytes) list" where
  "sent_tlvs s subtype now n =
     [(4, sync_value_head s now @ sent_channels 2 s), (5, election_v1_value s), (18, sent_channels 3 s),
      (24, election_v2_value s), (6, replicate 11 0)] @
     (if subtype = ESPDROP_AWDL_ACTION_MIF then [(7, ht_value), (16, arpa_value s n)] else []) @
     [(12, data_path_value s), (21, [0xa0, 1])] @
     (if subtype = ESPDROP_AWDL_ACTION_MIF \<and> tx_advertise_airdrop_tcp s then sent_services s n else [])"

lemma length_sent_channels [simp]: "length (sent_channels n s) = 38 + n"
  by (simp add: sent_channels_def length_concat_pairs del: upt_rec_numeral)

lemma value_lengths:
  assumes "wf_tx_state s" and "n \<le> 32"
  shows "length (sync_value_head s now) = 33" "length (election_v1_value s) = 21" "length (election_v2_value s) = 40"
    "length ht_value = 9" "length (arpa_value s n) = 4 + n" "length (data_path_value s) = 15"
    "length (airdrop_instance s) = 15" "length (take n (tx_name s)) = n"
  using assms
  by (simp_all add: wf_tx_state_def sync_value_head_def election_v1_value_def election_v2_value_def ht_value_def
      arpa_value_def data_path_value_def airdrop_instance_def length_write_service_id Let_def)

lemma length_service_value [simp]: "length (service_value ow t d) = 7 + length ow + length d"
  by (simp add: service_value_def)

lemma sent_tlvs_length:
  assumes "wf_tx_state s" and "n \<le> 32" and "subtype = ESPDROP_AWDL_ACTION_PSF \<or> subtype = ESPDROP_AWDL_ACTION_MIF"
  shows "40 + length (tlv_area (sent_tlvs s subtype now n)) = required_bytes s subtype n"
  using assms value_lengths [OF assms(1,2)]
  by (simp add: sent_tlvs_def required_bytes_def Let_def sent_services_def frame_consts wf_tx_state_def
      AWDL_SYNC_VALUE_BYTES_def AWDL_CHANNEL_VALUE_BYTES_def AWDL_ELECTION_V1_VALUE_BYTES_def
      AWDL_ELECTION_V2_VALUE_BYTES_def AWDL_SERVICE_VALUE_BYTES_def AWDL_HT_VALUE_BYTES_def
      AWDL_DATA_PATH_VALUE_BYTES_def AWDL_VERSION_VALUE_BYTES_def length_write_service_id)

text \<open>A valid state always builds exactly the required number of bytes.\<close>

lemma build_action_eq:
  assumes wf: "wf_tx_state s" and valid: "state_is_valid (Ptr s)" and now: "tx_sync_reference_us s \<le> now"
    and port: "tx_advertise_airdrop_tcp s \<longrightarrow> tx_airdrop_port s \<noteq> 0"
    and sub: "subtype = ESPDROP_AWDL_ACTION_PSF \<or> subtype = ESPDROP_AWDL_ACTION_MIF"
  defines "n \<equiv> bounded_string_length (tx_name s) 32"
    and "pn \<equiv> tx_peer_time_reference s + ucast (now - tx_peer_time_observed_us s)"
  shows "espdrop_awdl_build_action (Ptr buf) cap (Ptr l) (Ptr s) subtype now seq =
     (if cap < required_bytes s subtype n \<or> required_bytes s subtype n > 384 then (BUILD_NO_SPACE, Ptr buf, Ptr l)
      else (BUILD_OK, Ptr (write_frame buf (required_bytes s subtype n)
              (action_frame 0 ([0, 0] @ broadcast) (tx_self s) (put_le16 (push_bit 4 (seq AND 0x0fff))) subtype 0 pn pn
                 (tlv_area (sent_tlvs s subtype now n)))),
            Ptr (required_bytes s subtype n)))"
proof -
  have n: "n \<le> 32" unfolding n_def by (rule name_length_bound)
  define tlvs where "tlvs = tlv_area (sent_tlvs s subtype now n)"
  define fr where "fr = action_frame 0 ([0, 0] @ broadcast) (tx_self s) (put_le16 (push_bit 4 (seq AND 0x0fff))) subtype 0 pn pn tlvs"
  have built: "(ieee80211_header s seq @ awdl_action_header s subtype now) @
      ([4] @ put_le16 (of_nat AWDL_SYNC_VALUE_BYTES) @ sync_value_head s now) @ sent_channels 2 s @
      append_tlv 5 (election_v1_value s) @ append_tlv 18 (sent_channels 3 s) @ tail_tlvs s subtype n = fr"
    using value_lengths(1) [OF wf n, of now]
    by (simp add: fr_def tlvs_def action_frame_def ieee80211_header_def awdl_action_header_def Let_def pn_def
        apple_oui_def sent_tlvs_def append_tlv_enc tlv_enc_def tail_tlvs_def AWDL_SYNC_VALUE_BYTES_def
        AWDL_SERVICE_VALUE_BYTES_def append_airdrop_service_responses_def append_airdrop_service_response_def
        sent_services_def service_value_def)
  have len: "length fr = required_bytes s subtype n"
    using sent_tlvs_length [OF wf n sub, of now] wf
    by (simp add: fr_def tlvs_def action_frame_def broadcast_def wf_tx_state_def)
  have cs: "make_channel_sequence k s = Some (sent_channels k s)" for k
    using make_channel_sequence_valid [OF valid] by (simp add: sent_channels_def)
  have guards: "(subtype \<noteq> ESPDROP_AWDL_ACTION_PSF \<and> subtype \<noteq> ESPDROP_AWDL_ACTION_MIF) = False"
    "(now < tx_sync_reference_us s) = False" "(tx_advertise_airdrop_tcp s \<and> tx_airdrop_port s = 0) = False"
    using sub now port by auto
  have built': "ieee80211_header s seq @ awdl_action_header s subtype now @ 4 # put_le16 (of_nat AWDL_SYNC_VALUE_BYTES) @
      sync_value_head s now @ sent_channels 2 s @ append_tlv 5 (election_v1_value s) @
      append_tlv 18 (sent_channels 3 s) @ tail_tlvs s subtype n = fr"
    using built by simp
  show ?thesis
    unfolding espdrop_awdl_build_action_def Let_def ptr.sel guards cs option.case append_assoc append.simps
      n_def [symmetric] tlvs_def [symmetric] fr_def [symmetric] ESPDROP_AWDL_TX_NAME_BYTES_def
      ESPDROP_AWDL_TX_FRAME_CAPACITY_def built'
    by (simp add: valid len) (simp add: fr_def)
qed

section \<open>What a receiver reads\<close>

text \<open>The structures the parsers deliver for a state's frame.\<close>

definition sent_channel_sequence :: "tx_state \<Rightarrow> channel_sequence" where
  "sent_channel_sequence s = \<lparr>cs_count = 16, cs_encoding = 3,
     cs_duplicate_count = tx_peer_channel_duplicate_count s, cs_step_count = tx_peer_channel_step_count s,
     cs_fill_channel = tx_peer_channel_fill s, cs_channels = tx_peer_channels s,
     cs_operating_classes = tx_peer_operating_classes s\<rparr>"

definition sent_sync :: "tx_state \<Rightarrow> u64 \<Rightarrow> sync_parameters" where
  "sent_sync s now = (let t = tx_timing_at s now; ext = tx_presence_mode s - 1 in
     \<lparr>sp_next_aw_channel = tx_channel s, sp_tx_down_counter = tt_tx_down_tu t, sp_master_channel = tx_channel s,
      sp_guard_time = 0, sp_aw_period_tu = tx_aw_period_tu s,
      sp_action_frame_period_tu = tx_action_frame_period_tu s, sp_flags = 0x1800,
      sp_extended_aw_length_tu = tx_aw_period_tu s, sp_common_aw_length_tu = tx_aw_period_tu s,
      sp_remaining_aw_length_tu = tt_remaining_aw t, sp_minimum_extension = ext,
      sp_maximum_multicast_extension = ext, sp_maximum_unicast_extension = ext,
      sp_maximum_action_frame_extension = ext, sp_master = tx_master s, sp_presence_mode = tx_presence_mode s,
      sp_next_aw_sequence = tt_current_aw t, sp_ap_alignment = tt_current_aw t,
      sp_has_embedded_channel_sequence = True, sp_embedded_channel_sequence = sent_channel_sequence s\<rparr>)"

definition sent_election_v2 :: "tx_state \<Rightarrow> election_v2" where
  "sent_election_v2 s = \<lparr>e2_master = tx_master s, e2_sync_master = tx_sync_master s,
     e2_master_counter = tx_master_counter s, e2_distance_to_master = tx_distance_to_master s,
     e2_master_metric = tx_master_metric s, e2_self_metric = tx_self_metric s,
     e2_self_counter = tx_self_counter s\<rparr>"

lemma concat_pairs_nth:
  assumes "k < length xs"
  shows "concat (map (\<lambda>i. [f i, g i]) xs) ! (2 * k) = f (xs ! k)"
    and "concat (map (\<lambda>i. [f i, g i]) xs) ! (2 * k + 1) = g (xs ! k)"
  using assms
proof (induction xs arbitrary: k)
  case (Cons i js)
  { case 1 with Cons.IH(1) [of "k - 1"] show ?case by (cases k) auto }
  { case 2 with Cons.IH(2) [of "k - 1"] show ?case by (cases k) auto }
qed simp_all

lemma parse_sent_channels:
  assumes "wf_tx_state s"
  shows "espdrop_awdl_parse_channel_sequence (Ptr (sent_channels n s)) (Ptr q) = Some (PARSE_OK, Ptr (sent_channel_sequence s))"
proof -
  let ?v = "sent_channels n s"
  let ?body = "concat (map (\<lambda>i. [tx_peer_channels s ! i, tx_peer_operating_classes s ! i]) [0..<16])"
  have v: "?v = 15 # 3 # tx_peer_channel_duplicate_count s # tx_peer_channel_step_count s #
      ucast (tx_peer_channel_fill s) # ucast (drop_bit 8 (tx_peer_channel_fill s)) # ?body @ replicate n 0"
    by (simp add: sent_channels_def put_le16_def del: upt_rec_numeral)
  have at: "?v ! (6 + k) = ?body ! k" if "k < 32" for k
    using that by (simp add: v nth_append length_concat_pairs del: upt_rec_numeral)
  have ch: "?v ! (6 + k * 2) = tx_peer_channels s ! k" "?v ! (6 + k * 2 + 1) = tx_peer_operating_classes s ! k" if "k < 16" for k
    using at [of "2 * k"] at [of "2 * k + 1"] concat_pairs_nth [of k "[0..<16]"] that
    by (simp_all add: mult.commute del: upt_rec_numeral)
  have m: "map (\<lambda>k. ?v ! (6 + k * 2)) [0..<16] = tx_peer_channels s" "map (\<lambda>k. ?v ! (6 + k * 2 + 1)) [0..<16] = tx_peer_operating_classes s"
    using assms ch by (auto intro!: nth_equalityI simp: wf_tx_state_def simp del: upt_rec_numeral)
  have "channel_sequence_spec ?v = Inr (sent_channel_sequence s)"
    using m by (simp add: channel_sequence_spec_def v channel_encoding_size_def sent_channel_sequence_def
        length_concat_pairs le16_join Let_def del: upt_rec_numeral)
  then show ?thesis by (simp add: parse_channel_sequence_eq)
qed

lemma parse_sent_sync:
  assumes "wf_tx_state s"
  shows "espdrop_awdl_parse_sync_parameters (Ptr (sync_value_head s now @ sent_channels n s)) (Ptr q) =
     Some (PARSE_OK, Ptr (sent_sync s now))"
proof -
  have len: "length (sync_value_head s now) = 33" using value_lengths(1) [OF assms, of 0] by simp
  have m: "length (tx_master s) = 6" using assms by (simp add: wf_tx_state_def)
  show ?thesis
    unfolding espdrop_awdl_parse_sync_parameters_def
    using len parse_sent_channels [OF assms] m
    by (simp add: sync_value_head_def Let_def wire_simps sent_sync_def)
qed

lemma parse_sent_election_v2:
  assumes "wf_tx_state s"
  shows "espdrop_awdl_parse_election_v2 (Ptr (election_v2_value s)) (Ptr q) = Some (PARSE_OK, Ptr (sent_election_v2 s))"
  using assms value_lengths(3) [OF assms, of 0]
  unfolding espdrop_awdl_parse_election_v2_def
  by (simp add: election_v2_value_def wire_simps wf_tx_state_def sent_election_v2_def)

definition sent_election_v1 :: "tx_state \<Rightarrow> election_v1" where
  "sent_election_v1 s = \<lparr>e1_flags = 0, e1_identifier = 0,
     e1_distance_to_master = (if tx_distance_to_master s > 255 then 255 else ucast (tx_distance_to_master s)),
     e1_master = tx_master s, e1_master_metric = tx_master_metric s, e1_self_metric = tx_self_metric s\<rparr>"

definition sent_mif :: "tx_state \<Rightarrow> u64 \<Rightarrow> mif" where
  "sent_mif s now = \<lparr>mif_tlv_count = (if tx_advertise_airdrop_tcp s then 12 else 9), mif_has_sync = True,
     mif_has_channel_sequence = True, mif_has_election_v1 = True, mif_has_election_v2 = True,
     mif_has_version = True, mif_sync = sent_sync s now, mif_channel_sequence = sent_channel_sequence s,
     mif_election_v1 = sent_election_v1 s, mif_election_v2 = sent_election_v2 s,
     mif_version = \<lparr>ver_version = 0xa0, ver_device_class = 1\<rparr>\<rparr>"

lemma parse_sent_election_v1:
  assumes "wf_tx_state s"
  shows "espdrop_awdl_parse_election_v1 (Ptr (election_v1_value s)) (Ptr q) = Some (PARSE_OK, Ptr (sent_election_v1 s))"
  using assms value_lengths(2) [OF assms, of 0]
  unfolding espdrop_awdl_parse_election_v1_def
  by (simp add: election_v1_value_def wire_simps wf_tx_state_def sent_election_v1_def read_le16_def)

lemma mif_fold_sent:
  assumes "wf_tx_state s"
  shows "tlv_fold mif_step (\<lambda>m. (PARSE_OK, m)) (tlv_views 0 (sent_tlvs s ESPDROP_AWDL_ACTION_MIF now n)) mif_zero =
     Some (PARSE_OK, sent_mif s now)"
  using parse_sent_channels [OF assms, of 3] parse_sent_sync [OF assms, of now 2]
    parse_sent_election_v1 [OF assms] parse_sent_election_v2 [OF assms]
  by (simp add: sent_tlvs_def sent_services_def mif_step_def mif_switch_def espdrop_awdl_parse_version_def
      mif_zero_def sent_mif_def)

lemma sent_tlvs_fit:
  assumes "wf_tx_state s" and "n \<le> 32"
  shows "tlvs_fit (sent_tlvs s subtype now n)"
  using value_lengths [OF assms] assms
  by (auto simp: tlvs_fit_def sent_tlvs_def sent_services_def length_write_service_id wf_tx_state_def)

lemma write_frame_prefix:
  assumes "length w = r" and "r \<le> length buf"
  shows "take r (write_frame buf r w) = w"
  using assms by (simp add: write_frame_def store_def)

section \<open>The schedule as time slots\<close>

text \<open>
  Extended availability window \<open>k\<close> of a schedule starts \<open>k\<close> periods after the reference and
  is on the channel the sequence gives for it.
\<close>

definition slot_start :: "tx_state \<Rightarrow> nat \<Rightarrow> nat" where
  "slot_start s k = unat (tx_sync_reference_us s) + k * unat (eaw_us s)"

definition slot_channel :: "tx_state \<Rightarrow> nat \<Rightarrow> byte" where
  "slot_channel s k = tx_peer_channels s ! ((unat (sequence_base s) + k) mod 16)"

definition slot_of :: "tx_state \<Rightarrow> nat \<Rightarrow> nat" where
  "slot_of s t = (t - unat (tx_sync_reference_us s)) div unat (eaw_us s)"

lemma eaw_us_value: "unat (eaw_us s) = unat (tx_aw_period_tu s) * unat (tx_presence_mode s) * 1024"
proof -
  have a: "unat (tx_aw_period_tu s) < 2 ^ 16" "unat (tx_presence_mode s) < 2 ^ 8"
    using unat_bound [of "tx_aw_period_tu s"] unat_bound [of "tx_presence_mode s"] by simp_all
  then have "unat (tx_aw_period_tu s) * unat (tx_presence_mode s) < 2 ^ 16 * 2 ^ 8"
    by (rule mult_strict_mono) simp_all
  then have m: "unat (tx_aw_period_tu s) * unat (tx_presence_mode s) * 1024 < 2 ^ 34" by simp
  have "eaw_us s = of_nat (unat (tx_aw_period_tu s) * unat (tx_presence_mode s) * 1024)"
    by (simp add: eaw_us_def AWDL_TU_US_def)
  then show ?thesis using m by (simp add: unat_of_nat del: of_nat_mult)
qed

lemma eaw_us_bounds:
  assumes "state_is_valid (Ptr s)"
  shows "0 < unat (eaw_us s)" and "unat (eaw_us s) < 2 ^ 34"
proof -
  have "tx_aw_period_tu s \<noteq> 0" "tx_presence_mode s \<noteq> 0"
    using assms by (simp_all add: state_is_valid_def Let_def)
  then show "0 < unat (eaw_us s)" by (simp add: eaw_us_value unat_gt_0)
  have "unat (tx_aw_period_tu s) * unat (tx_presence_mode s) < 2 ^ 16 * 2 ^ 8"
    using unat_bound [of "tx_aw_period_tu s"] unat_bound [of "tx_presence_mode s"]
    by (intro mult_strict_mono) simp_all
  then show "unat (eaw_us s) < 2 ^ 34" by (simp add: eaw_us_value)
qed

lemma slot_of_bounds:
  assumes "state_is_valid (Ptr s)" and "unat (tx_sync_reference_us s) \<le> t"
  shows "slot_start s (slot_of s t) \<le> t" and "t < slot_start s (Suc (slot_of s t))"
proof -
  let ?E = "unat (eaw_us s)" and ?d = "t - unat (tx_sync_reference_us s)"
  have E: "0 < ?E" using eaw_us_bounds [OF assms(1)] by simp
  have d: "?d div ?E * ?E \<le> ?d" "?d < ?d div ?E * ?E + ?E"
    using E by (simp_all add: dividend_less_div_times add.commute)
  show "slot_start s (slot_of s t) \<le> t"
    unfolding slot_start_def slot_of_def using d(1) assms(2) by linarith
  show "t < slot_start s (Suc (slot_of s t))" using d assms(2) by (simp add: slot_start_def slot_of_def)
qed

lemma slot_start_mono: "j \<le> k \<Longrightarrow> slot_start s j \<le> slot_start s k"
  by (simp add: slot_start_def)

lemma channel_count_16:
  assumes "state_is_valid (Ptr s)"
  shows "tx_peer_channel_count s = 16" "unat (tx_peer_channel_count s) = 16"
proof -
  show u: "unat (tx_peer_channel_count s) = 16"
    using assms by (simp add: state_is_valid_def Let_def ESPDROP_AWDL_MAX_CHANNELS_def)
  have "tx_peer_channel_count s = of_nat (unat (tx_peer_channel_count s))" by simp
  then show "tx_peer_channel_count s = 16" unfolding u by simp
qed

lemma slot_index:
  assumes "k < 2 ^ 63"
  shows "unat ((sequence_base s + of_nat k) mod 16) = (unat (sequence_base s) + k) mod 16"
proof -
  have b: "unat (sequence_base s) < 2 ^ 16"
  proof -
    have "unat (ucast (w :: u16) :: u64) < 2 ^ 16" for w
      using unat_bound [of w] by (simp add: unsigned_ucast_eq take_bit_nat_eq_self)
    then show ?thesis by (simp add: sequence_base_def)
  qed
  have "sequence_base s + of_nat k = of_nat (unat (sequence_base s) + k)" by simp
  then have "unat (sequence_base s + of_nat k) = unat (sequence_base s) + k"
    using b assms by (simp add: unat_of_nat del: of_nat_add)
  then show ?thesis by (simp add: unat_mod)
qed

lemma slot_word:
  "tx_sync_reference_us s + of_nat k * eaw_us s + of_nat off * eaw_us s + ucast (g :: u32) =
     of_nat (slot_start s (k + off) + unat g)"
  by (simp add: slot_start_def ring_distribs)

text \<open>The loop finds the first of the seventeen windows that is on the channel and not over.\<close>

definition window_ok :: "tx_state \<Rightarrow> byte \<Rightarrow> nat \<Rightarrow> nat \<Rightarrow> nat \<Rightarrow> bool" where
  "window_ok s channel now g k \<longleftrightarrow> slot_channel s k = channel \<and> now \<le> slot_start s k + g"

lemma next_window_loop_find:
  assumes valid: "state_is_valid (Ptr s)" and k: "k < 2 ^ 62" and start: "slot_start s k < 2 ^ 63"
    and off: "off \<le> 17"
  shows "next_window_loop s channel now g (of_nat k) (tx_sync_reference_us s + of_nat k * eaw_us s) off =
     map_option (\<lambda>d. of_nat (slot_start s (k + d) + unat g))
       (find (\<lambda>d. window_ok s channel (unat now) (unat g) (k + d)) [off..<17])"
  using off
proof (induction "17 - off" arbitrary: off)
  case 0
  then have "off = 17" by simp
  then show ?case by (subst next_window_loop.simps) (simp add: channel_count_16 [OF valid])
next
  case (Suc m)
  then have lt: "off < 17" by simp
  then have up: "[off..<17] = off # [Suc off..<17]" by (simp add: upt_conv_Cons)
  have IH: "next_window_loop s channel now g (of_nat k) (tx_sync_reference_us s + of_nat k * eaw_us s) (Suc off) =
     map_option (\<lambda>d. of_nat (slot_start s (k + d) + unat g))
       (find (\<lambda>d. window_ok s channel (unat now) (unat g) (k + d)) [Suc off..<17])"
    using Suc.hyps(1) [of "Suc off"] Suc.hyps(2) lt by simp
  have idx: "unat ((sequence_base s + of_nat k + of_nat off) mod 16) = (unat (sequence_base s) + (k + off)) mod 16"
    using slot_index [of "k + off" s] k lt by (simp add: add.assoc)
  have "off * unat (eaw_us s) \<le> 17 * 2 ^ 34"
    using lt eaw_us_bounds(2) [OF valid] by (intro mult_le_mono) simp_all
  then have "slot_start s (k + off) \<le> slot_start s k + 17 * 2 ^ 34" by (simp add: slot_start_def ring_distribs)
  then have "slot_start s (k + off) + unat g < 2 ^ 64" using start unat_bound [of g] by simp
  then have u: "unat (of_nat (slot_start s (k + off) + unat g) :: u64) = slot_start s (k + off) + unat g"
    by (simp add: unat_of_nat del: of_nat_add)
  have ge: "now \<le> (of_nat (slot_start s (k + off) + unat g) :: u64) \<longleftrightarrow> unat now \<le> slot_start s (k + off) + unat g"
    unfolding word_le_nat_alt u ..
  have "ucast (tx_peer_channel_count s) = (16 :: u64)" using channel_count_16(1) [OF valid] by simp
  then show ?case
    unfolding up
    using lt channel_count_16(2) [OF valid]
    by (subst next_window_loop.simps)
      (simp add: Let_def IH slot_word ge idx window_ok_def slot_channel_def del: of_nat_add)
qed

lemma slot_channel_cycle:
  assumes "length (tx_peer_channels s) = 16"
  shows "channel \<in> set (tx_peer_channels s) \<longleftrightarrow> (\<exists>d\<in>{1..16}. slot_channel s (k + d) = channel)"
proof
  assume "channel \<in> set (tx_peer_channels s)"
  then obtain i where i: "i < 16" "tx_peer_channels s ! i = channel"
    using assms by (auto simp: in_set_conv_nth)
  let ?b = "(unat (sequence_base s) + k) mod 16"
  define d where "d = (if i > ?b then i - ?b else 16 + i - ?b)"
  have b: "?b < 16" by simp
  have "(?b + d) mod 16 = i" "d \<in> {1..16}" using i(1) b by (auto simp: d_def)
  moreover have "(unat (sequence_base s) + (k + d)) mod 16 = (?b + d) mod 16"
    by (simp add: mod_add_left_eq add.assoc)
  ultimately have "slot_channel s (k + d) = channel" "d \<in> {1..16}"
    using i(2) by (simp_all add: slot_channel_def)
  then show "\<exists>d\<in>{1..16}. slot_channel s (k + d) = channel" by blast
next
  assume "\<exists>d\<in>{1..16}. slot_channel s (k + d) = channel"
  then show "channel \<in> set (tx_peer_channels s)"
    using assms by (auto simp: slot_channel_def)
qed

lemma find_upt_least:
  assumes "find P [a..<b] = Some d"
  shows "P d" "a \<le> d" "d < b" "\<And>e. a \<le> e \<Longrightarrow> P e \<Longrightarrow> d \<le> e"
proof -
  obtain i where i: "i < b - a" "P (a + i)" "d = a + i" "\<forall>j<i. \<not> P (a + j)"
    using assms by (auto simp: find_Some_iff)
  then show "P d" "a \<le> d" "d < b" by auto
  show "d \<le> e" if "a \<le> e" "P e" for e
    using i(3,4) that by (metis le_add_diff_inverse linorder_not_le nat_add_left_cancel_less)
qed

lemma next_window_earliest:
  assumes valid: "state_is_valid (Ptr s)" and ref: "unat (tx_sync_reference_us s) \<le> now" and g: "g < unat (eaw_us s)"
    and f: "find (\<lambda>d. window_ok s channel now g (slot_of s now + d)) [0..<17] = Some d"
    and j: "window_ok s channel now g j"
  shows "slot_start s (slot_of s now + d) \<le> slot_start s j"
proof -
  let ?k = "slot_of s now"
  have "?k \<le> j"
  proof (rule ccontr)
    assume "\<not> ?k \<le> j"
    then have "Suc j \<le> ?k" by simp
    then have "slot_start s (Suc j) \<le> now"
      using slot_start_mono [of "Suc j" ?k s] slot_of_bounds(1) [OF valid ref] by simp
    with j g show False by (simp add: window_ok_def slot_start_def)
  qed
  then have "d \<le> j - ?k" using find_upt_least(4) [OF f, of "j - ?k"] j by simp
  then show ?thesis using \<open>?k \<le> j\<close> by (intro slot_start_mono) simp
qed

section \<open>Common windows of two schedules\<close>

text \<open>The window that contains a time, in numbers.\<close>

lemma channel_window_at_eq:
  assumes valid: "state_is_valid (Ptr s)" and ref: "tx_sync_reference_us s \<le> at" and small: "unat at < 2 ^ 63"
  shows "\<exists>w. channel_window_at (Ptr s) at = Some w \<and> unat (win_start_us w) = slot_start s (slot_of s (unat at)) \<and>
     unat (win_end_us w) = slot_start s (Suc (slot_of s (unat at))) \<and>
     win_channel w = slot_channel s (slot_of s (unat at))"
proof -
  let ?R = "tx_sync_reference_us s" and ?E = "unat (eaw_us s)"
  define k where "k = slot_of s (unat at)"
  have refn: "unat ?R \<le> unat at" using ref by (simp add: word_le_nat_alt)
  have E: "0 < ?E" "?E < 2 ^ 34" using eaw_us_bounds [OF valid] by simp_all
  note b = slot_of_bounds [OF valid refn, folded k_def]
  define el where "el = (at - ?R) div eaw_us s"
  have u: "unat el = k" using ref by (simp add: el_def unat_div unat_sub k_def slot_of_def)
  have "el = of_nat (unat el)" by simp
  then have el: "el = of_nat k" by (simp only: u)
  have kE: "unat ?R + k * ?E \<le> unat at" using b(1) by (simp add: slot_start_def)
  have "1024 \<le> ?E" using E(1) by (simp add: eaw_us_value)
  then have "k * 1024 \<le> k * ?E" by (rule mult_le_mono2)
  then have k: "k < 2 ^ 63" using kE small by linarith
  have "?R + el * eaw_us s = of_nat (unat ?R + k * ?E)" by (simp add: el)
  then have start: "unat (?R + el * eaw_us s) = slot_start s k"
    using kE small by (simp add: unat_of_nat slot_start_def del: of_nat_add of_nat_mult)
  have "?R + el * eaw_us s + eaw_us s = of_nat (unat ?R + k * ?E + ?E)" by (simp add: el)
  then have fin: "unat (?R + el * eaw_us s + eaw_us s) = slot_start s (Suc k)"
    using kE small E by (simp add: unat_of_nat slot_start_def add.assoc del: of_nat_add of_nat_mult)
  have top: "unat (- 1 - w :: u64) = 2 ^ 64 - 1 - unat w" for w :: u64
  proof -
    have "w \<le> - 1" by simp
    then show ?thesis by (simp add: unat_sub unsigned_minus_1_eq_mask mask_eq_exp_minus_1)
  qed
  have g1: "\<not> el > (- 1 - ?R) div eaw_us s"
  proof -
    have "k * ?E \<le> 2 ^ 64 - 1 - unat ?R" using kE small by simp
    then have "k \<le> (2 ^ 64 - 1 - unat ?R) div ?E" using E(1) by (simp add: less_eq_div_iff_mult_less_eq)
    then show ?thesis by (simp add: word_less_nat_alt unat_div top u not_less)
  qed
  have g2: "\<not> ?R + el * eaw_us s > - 1 - eaw_us s"
    using start b(1) small E(2) by (simp add: word_less_nat_alt top not_less)
  have idx: "unat ((sequence_base s + el) mod ucast (tx_peer_channel_count s)) = (unat (sequence_base s) + k) mod 16"
    using slot_index [OF k, of s] channel_count_16 [OF valid] by (simp add: el)
  have z: "eaw_us s \<noteq> 0" using E(1) by auto
  have "channel_window_at (Ptr s) at = Some \<lparr>win_start_us = ?R + el * eaw_us s,
      win_end_us = ?R + el * eaw_us s + eaw_us s, win_channel = slot_channel s k\<rparr>"
    unfolding channel_window_at_def Let_def ptr.sel el_def [symmetric]
    using valid ref g1 g2 z idx by (simp add: slot_channel_def not_less)
  then show ?thesis using start fin by (simp add: k_def)
qed

text \<open>A guarded common window: both schedules on the channel, the time inside both guarded slots.\<close>

definition common_at :: "tx_state \<Rightarrow> tx_state \<Rightarrow> byte \<Rightarrow> nat \<Rightarrow> nat \<Rightarrow> nat \<Rightarrow> nat \<Rightarrow> bool" where
  "common_at l p channel g t k j \<longleftrightarrow> slot_channel l k = channel \<and> slot_channel p j = channel \<and>
     slot_start l k + g \<le> t \<and> t + g \<le> slot_start l (Suc k) \<and> t < slot_start l (Suc k) \<and>
     slot_start p j + g \<le> t \<and> t + g \<le> slot_start p (Suc j) \<and> t < slot_start p (Suc j)"

lemma slot_of_unique:
  assumes "state_is_valid (Ptr s)" and "slot_start s k \<le> t" and "t < slot_start s (Suc k)"
  shows "slot_of s t = k"
proof -
  let ?E = "unat (eaw_us s)" and ?R = "unat (tx_sync_reference_us s)"
  have E: "0 < ?E" using eaw_us_bounds [OF assms(1)] by simp
  have "k * ?E \<le> t - ?R" "t - ?R < Suc k * ?E" using assms(2,3) E by (auto simp: slot_start_def)
  then show ?thesis unfolding slot_of_def by (metis div_nat_eqI mult.commute)
qed

text \<open>One round of the search in numbers.\<close>

lemma common_window_step:
  assumes valid: "state_is_valid (Ptr l)" "state_is_valid (Ptr p)"
    and ref: "tx_sync_reference_us l \<le> c" "tx_sync_reference_us p \<le> c" and small: "unat c < 2 ^ 63"
    and g: "2 * unat g < unat (eaw_us l)" "eaw_us l = eaw_us p"
  defines "k \<equiv> slot_of l (unat c)" and "j \<equiv> slot_of p (unat c)"
  defines "safe \<equiv> max (slot_start l k) (slot_start p j) + unat g"
    and "nxt \<equiv> min (slot_start l (Suc k)) (slot_start p (Suc j))"
  shows "common_window_loop l p channel now g (Suc n) c =
    (if slot_channel l k = channel \<and> slot_channel p j = channel \<and> unat now \<le> safe \<and> safe + unat g \<le> nxt
     then Some (of_nat safe) else common_window_loop l p channel now g n (of_nat nxt))"
    and "unat c < nxt" and "nxt \<le> unat c + unat (eaw_us l)" and "safe < 2 ^ 64"
    and "safe \<le> unat c + unat g"
proof -
  obtain wl where wl: "channel_window_at (Ptr l) c = Some wl" "unat (win_start_us wl) = slot_start l k"
    "unat (win_end_us wl) = slot_start l (Suc k)" "win_channel wl = slot_channel l k"
    using channel_window_at_eq [OF valid(1) ref(1) small] by (auto simp: k_def)
  obtain wp where wp: "channel_window_at (Ptr p) c = Some wp" "unat (win_start_us wp) = slot_start p j"
    "unat (win_end_us wp) = slot_start p (Suc j)" "win_channel wp = slot_channel p j"
    using channel_window_at_eq [OF valid(2) ref(2) small] by (auto simp: j_def)
  have refn: "unat (tx_sync_reference_us l) \<le> unat c" "unat (tx_sync_reference_us p) \<le> unat c"
    using ref by (simp_all add: word_le_nat_alt)
  note bl = slot_of_bounds [OF valid(1) refn(1), folded k_def]
  note bp = slot_of_bounds [OF valid(2) refn(2), folded j_def]
  have E: "unat (eaw_us l) < 2 ^ 34" using eaw_us_bounds [OF valid(1)] by simp
  have suc: "slot_start l (Suc k) = slot_start l k + unat (eaw_us l)" "slot_start p (Suc j) = slot_start p j + unat (eaw_us l)"
    using g(2) by (simp_all add: slot_start_def)
  show lt: "unat c < nxt" using bl bp by (simp add: nxt_def)
  show le: "nxt \<le> unat c + unat (eaw_us l)" using bl bp suc by (simp add: nxt_def)
  have gs: "unat (ucast g :: u64) = unat g" by (rule unat_ucast_u32_u64)
  have s1: "unat (win_start_us wl + ucast g) = slot_start l k + unat g" "unat (win_start_us wp + ucast g) = slot_start p j + unat g"
    using wl(2) wp(2) bl(1) bp(1) small gs g(1) E by (simp_all add: unat_word_ariths)
  have e1: "unat (win_end_us wl - ucast g) = slot_start l (Suc k) - unat g" "unat (win_end_us wp - ucast g) = slot_start p (Suc j) - unat g"
    using wl(3) wp(3) gs g(1) suc by (simp_all add: unat_sub word_le_nat_alt)
  show "safe \<le> unat c + unat g" using bl(1) bp(1) by (simp add: safe_def)
  show sf: "safe < 2 ^ 64" using bl(1) bp(1) small g(1) E by (simp add: safe_def)
  define sw where "sw = (if win_start_us wl + ucast g < win_start_us wp + ucast g
      then win_start_us wp + ucast g else win_start_us wl + ucast g)"
  define ew where "ew = (if win_end_us wl - ucast g < win_end_us wp - ucast g
      then win_end_us wl - ucast g else win_end_us wp - ucast g)"
  define nw where "nw = (if win_end_us wl < win_end_us wp then win_end_us wl else win_end_us wp)"
  have sw: "unat sw = safe" using s1 by (simp add: sw_def safe_def word_less_nat_alt max_def)
  have ew: "unat ew + unat g = nxt"
    using e1 suc g(1) by (simp add: ew_def nxt_def word_less_nat_alt min_def) arith
  have nw: "unat nw = nxt" using wl(3) wp(3) by (simp add: nw_def nxt_def word_less_nat_alt min_def)
  have words: "sw = of_nat safe" "nw = of_nat nxt" using sw nw by (metis of_nat_unat ucast_id)+
  have cmp: "now \<le> sw \<longleftrightarrow> unat now \<le> safe" "sw \<le> ew \<longleftrightarrow> safe + unat g \<le> nxt" "\<not> nw \<le> c"
    using sw ew nw lt by (auto simp: word_le_nat_alt)
  show "common_window_loop l p channel now g (Suc n) c =
    (if slot_channel l k = channel \<and> slot_channel p j = channel \<and> unat now \<le> safe \<and> safe + unat g \<le> nxt
     then Some (of_nat safe) else common_window_loop l p channel now g n (of_nat nxt))"
    unfolding common_window_loop.simps wl(1) wp(1) prod.case option.case Let_def
      sw_def [symmetric] ew_def [symmetric] nw_def [symmetric] wl(4) wp(4)
    using cmp words by simp
qed

lemma unat_of_nat_partial: "a + b < 2 ^ 63 \<Longrightarrow> unat (of_nat a :: u64) = a"
  by (rule unat_of_nat_u64) simp

text \<open>Whatever the search returns is a common window that is not in the past.\<close>

lemma common_window_sound:
  assumes valid: "state_is_valid (Ptr l)" "state_is_valid (Ptr p)"
    and ref: "tx_sync_reference_us l \<le> c" "tx_sync_reference_us p \<le> c"
    and small: "unat c + n * unat (eaw_us l) < 2 ^ 63"
    and g: "2 * unat g < unat (eaw_us l)" "eaw_us l = eaw_us p"
    and r: "common_window_loop l p channel now g n c = Some t"
  shows "now \<le> t \<and> (\<exists>k j. common_at l p channel (unat g) (unat t) k j)"
  using ref small r
proof (induction n arbitrary: c)
  case 0
  then show ?case by simp
next
  case (Suc n)
  let ?k = "slot_of l (unat c)" and ?j = "slot_of p (unat c)"
  let ?safe = "max (slot_start l ?k) (slot_start p ?j) + unat g"
    and ?nxt = "min (slot_start l (Suc ?k)) (slot_start p (Suc ?j))"
  have c: "unat c < 2 ^ 63" using Suc.prems(3) by simp
  note st = common_window_step [OF valid Suc.prems(1,2) c g]
  show ?case
  proof (cases "slot_channel l ?k = channel \<and> slot_channel p ?j = channel \<and> unat now \<le> ?safe \<and> ?safe + unat g \<le> ?nxt")
    case True
    then have t: "t = of_nat ?safe" using st(1) [of channel now n] Suc.prems(4) by simp
    have "unat t = ?safe" using st(4) by (simp add: t unat_of_nat del: of_nat_add of_nat_max)
    moreover have "?safe < ?nxt" using True st(2,5) by (cases "unat g = 0") linarith+
    ultimately show ?thesis using True
      by (intro conjI exI [of _ ?k] exI [of _ ?j]) (auto simp: common_at_def word_le_nat_alt)
  next
    case False
    then have rest: "common_window_loop l p channel now g n (of_nat ?nxt) = Some t"
      using st(1) [of channel now n] Suc.prems(4) by (simp only: if_False)
    have "?nxt + n * unat (eaw_us l) < 2 ^ 63" using st(3) Suc.prems(3) by simp
    then have u: "unat (of_nat ?nxt :: u64) = ?nxt"
      by (rule unat_of_nat_partial)
    show ?thesis
    proof (rule Suc.IH [OF _ _ _ rest])
      show "tx_sync_reference_us l \<le> of_nat ?nxt" "tx_sync_reference_us p \<le> of_nat ?nxt"
        using Suc.prems(1,2) st(2) u unfolding word_le_nat_alt by linarith+
      show "unat (of_nat ?nxt :: u64) + n * unat (eaw_us l) < 2 ^ 63"
        using \<open>?nxt + n * unat (eaw_us l) < 2 ^ 63\<close> unfolding u .
    qed
  qed
qed

text \<open>
  The search does not miss a common window: it visits every pair of overlapping slots up to a
  target pair, because each boundary step enters a new slot of at least one schedule.
\<close>

lemma common_window_reaches:
  assumes valid: "state_is_valid (Ptr l)" "state_is_valid (Ptr p)"
    and g: "2 * unat g < unat (eaw_us l)" "eaw_us l = eaw_us p"
    and target: "slot_channel l K = channel" "slot_channel p J = channel"
      "max (slot_start l K) (slot_start p J) + 2 * unat g \<le> min (slot_start l (Suc K)) (slot_start p (Suc J))"
      "max (slot_start l K) (slot_start p J) < min (slot_start l (Suc K)) (slot_start p (Suc J))"
      "unat now \<le> max (slot_start l K) (slot_start p J)" "max (slot_start l K) (slot_start p J) < 2 ^ 63"
    and ref: "tx_sync_reference_us l \<le> c" "tx_sync_reference_us p \<le> c"
    and before: "unat c \<le> max (slot_start l K) (slot_start p J)"
    and fuel: "K + J < slot_of l (unat c) + slot_of p (unat c) + n"
  shows "common_window_loop l p channel now g n c \<noteq> None"
  using ref before fuel
proof (induction n arbitrary: c)
  case 0
  define \<tau> where "\<tau> = max (slot_start l K) (slot_start p J)"
  have in_slots: "slot_start l K \<le> \<tau>" "\<tau> < slot_start l (Suc K)" "slot_start p J \<le> \<tau>" "\<tau> < slot_start p (Suc J)"
    using target(4) by (auto simp: \<tau>_def)
  then have "slot_of l \<tau> = K" "slot_of p \<tau> = J" using slot_of_unique valid by blast+
  moreover have "slot_of l (unat c) \<le> slot_of l \<tau>" "slot_of p (unat c) \<le> slot_of p \<tau>"
    using "0.prems"(3) by (auto simp: slot_of_def \<tau>_def intro!: div_le_mono diff_le_mono)
  ultimately show ?case using "0.prems"(4) by simp
next
  case (Suc n)
  define \<tau> where "\<tau> = max (slot_start l K) (slot_start p J)"
  let ?k = "slot_of l (unat c)" and ?j = "slot_of p (unat c)"
  let ?safe = "max (slot_start l ?k) (slot_start p ?j) + unat g"
    and ?nxt = "min (slot_start l (Suc ?k)) (slot_start p (Suc ?j))"
  have c: "unat c \<le> \<tau>" "unat c < 2 ^ 63"
    using Suc.prems(3) le_less_trans [OF Suc.prems(3) target(6)] by (simp_all add: \<tau>_def)
  have refn: "unat (tx_sync_reference_us l) \<le> unat c" "unat (tx_sync_reference_us p) \<le> unat c"
    using Suc.prems(1,2) by (simp_all add: word_le_nat_alt)
  note st = common_window_step [OF valid Suc.prems(1,2) c(2) g]
  note bl = slot_of_bounds [OF valid(1) refn(1)] and bp = slot_of_bounds [OF valid(2) refn(2)]
  have E: "0 < unat (eaw_us l)" using eaw_us_bounds [OF valid(1)] by simp
  have in_slots: "slot_start l K \<le> \<tau>" "\<tau> < slot_start l (Suc K)" "slot_start p J \<le> \<tau>" "\<tau> < slot_start p (Suc J)"
    using target(4) by (auto simp: \<tau>_def)
  show ?case
  proof (cases "slot_channel l ?k = channel \<and> slot_channel p ?j = channel \<and> unat now \<le> ?safe \<and> ?safe + unat g \<le> ?nxt")
    case True
    then show ?thesis using st(1) [of channel now n] by simp
  next
    case False
    then have step: "common_window_loop l p channel now g (Suc n) c = common_window_loop l p channel now g n (of_nat ?nxt)"
      using st(1) [of channel now n] by (simp only: if_False)
    have le: "?nxt \<le> \<tau>"
    proof (rule ccontr)
      assume "\<not> ?nxt \<le> \<tau>"
      then have t: "\<tau> < slot_start l (Suc ?k)" "\<tau> < slot_start p (Suc ?j)" by simp_all
      have "slot_of l \<tau> = ?k" by (rule slot_of_unique [OF valid(1)]) (use bl c t in auto)
      moreover have "slot_of p \<tau> = ?j" by (rule slot_of_unique [OF valid(2)]) (use bp c t in auto)
      moreover have "slot_of l \<tau> = K" "slot_of p \<tau> = J" using slot_of_unique valid in_slots by blast+
      ultimately have "?k = K" "?j = J" by simp_all
      then show False using False target by simp
    qed
    then have "?nxt + 0 < 2 ^ 63" unfolding \<tau>_def add_0_right using target(6) by (rule le_less_trans)
    then have u: "unat (of_nat ?nxt :: u64) = ?nxt" by (rule unat_of_nat_partial)
    have adv: "?k + ?j < slot_of l ?nxt + slot_of p ?nxt"
    proof -
      have "?k \<le> slot_of l ?nxt" "?j \<le> slot_of p ?nxt"
        using st(2) by (auto simp: slot_of_def intro!: div_le_mono diff_le_mono)
      moreover have "?k < slot_of l ?nxt \<or> ?j < slot_of p ?nxt"
      proof (cases "slot_start l (Suc ?k) \<le> slot_start p (Suc ?j)")
        case True
        then have "slot_of l ?nxt = Suc ?k"
          using E by (intro slot_of_unique [OF valid(1)]) (simp_all add: min_absorb1, simp add: slot_start_def)
        then show ?thesis by simp
      next
        case False
        then have "slot_of p ?nxt = Suc ?j"
          using E g(2) by (intro slot_of_unique [OF valid(2)]) (simp_all add: min_absorb2, simp add: slot_start_def)
        then show ?thesis by simp
      qed
      ultimately show ?thesis by linarith
    qed
    have "common_window_loop l p channel now g n (of_nat ?nxt) \<noteq> None"
    proof (rule Suc.IH)
      show "tx_sync_reference_us l \<le> of_nat ?nxt" "tx_sync_reference_us p \<le> of_nat ?nxt"
        using refn st(2) u unfolding word_le_nat_alt by linarith+
      show "unat (of_nat ?nxt :: u64) \<le> max (slot_start l K) (slot_start p J)" using le unfolding u \<tau>_def .
      show "K + J < slot_of l (unat (of_nat ?nxt :: u64)) + slot_of p (unat (of_nat ?nxt :: u64)) + n"
        unfolding u using adv Suc.prems(4) by linarith
    qed
    then show ?thesis using step by simp
  qed
qed

lemma common_window_call:
  assumes "state_is_valid (Ptr l)" and "state_is_valid (Ptr p)" and "channel \<noteq> 0"
    and "tx_sync_reference_us l \<le> now" and "tx_sync_reference_us p \<le> now"
    and "eaw_us l = eaw_us p" and "2 * unat guard < unat (eaw_us l)"
  shows "espdrop_awdl_next_common_channel_window_us (Ptr l) (Ptr p) channel now guard (Ptr old) =
     (case common_window_loop l p channel now guard 66 now of Some c \<Rightarrow> (True, Ptr c) | None \<Rightarrow> (False, Ptr old))"
proof -
  have "(ucast guard :: u64) * 2 = of_nat (unat guard * 2)" by simp
  moreover have "unat guard * 2 < 2 ^ 64" using unat_bound [of guard] by simp
  ultimately have "unat ((ucast guard :: u64) * 2) = unat guard * 2" by (metis unat_of_nat_u64)
  then have g: "(eaw_us p \<le> (ucast guard :: u64) * 2) = False"
    using assms(6,7) by (simp add: word_le_nat_alt mult.commute)
  have refs: "(now < tx_sync_reference_us l) = False" "(now < tx_sync_reference_us p) = False"
    using assms(4,5) by auto
  show ?thesis
    using assms(1-3,6) channel_count_16(2)
    by (simp add: espdrop_awdl_next_common_channel_window_us_def Let_def g refs)
qed

text \<open>A common window that exists at all recurs within the next sixteen slots.\<close>

lemma common_window_complete:
  assumes valid: "state_is_valid (Ptr l)" "state_is_valid (Ptr p)"
    and ref: "tx_sync_reference_us l \<le> now" "tx_sync_reference_us p \<le> now" and small: "unat now < 2 ^ 62"
    and g: "eaw_us l = eaw_us p" "2 * unat guard < unat (eaw_us l)"
    and u: "unat now \<le> u" and common: "common_at l p channel (unat guard) u k j"
  shows "common_window_loop l p channel now guard 66 now \<noteq> None"
proof -
  let ?E = "unat (eaw_us l)"
  define k0 j0 where "k0 = slot_of l (unat now)" and "j0 = slot_of p (unat now)"
  have refn: "unat (tx_sync_reference_us l) \<le> unat now" "unat (tx_sync_reference_us p) \<le> unat now"
    using ref by (simp_all add: word_le_nat_alt)
  note bl = slot_of_bounds [OF valid(1) refn(1), folded k0_def]
    and bp = slot_of_bounds [OF valid(2) refn(2), folded j0_def]
  have E: "0 < ?E" "?E < 2 ^ 34" using eaw_us_bounds [OF valid(1)] by simp_all
  have uk: "slot_of l u = k" "slot_of p u = j"
    using common slot_of_unique [OF valid(1), of k u] slot_of_unique [OF valid(2), of j u]
    by (auto simp: common_at_def)
  have ge: "k0 \<le> k" "j0 \<le> j"
    using u unfolding uk [symmetric] k0_def j0_def slot_of_def by (auto intro!: div_le_mono diff_le_mono)
  have sl: "slot_start l a = unat (tx_sync_reference_us l) + a * ?E" "slot_start p a = unat (tx_sync_reference_us p) + a * ?E" for a
    using g(1) by (simp_all add: slot_start_def)
  have cyc: "slot_channel s (a + 16 * i) = slot_channel s a" for s a i
    by (simp add: slot_channel_def add.assoc [symmetric])
  obtain K J where KJ: "slot_channel l K = channel" "slot_channel p J = channel" "k0 < K" "K \<le> k0 + 16"
    "\<exists>i. (K = k + 16 * i \<and> J = j + 16 * i) \<or> (k = K + 16 * i \<and> j = J + 16 * i)"
  proof (cases "k = k0")
    case True
    have "slot_channel l (k + 16 * 1) = channel" "slot_channel p (j + 16 * 1) = channel"
      unfolding cyc using common by (simp_all add: common_at_def)
    then show thesis using True by (intro that [of "k + 16 * 1" "j + 16 * 1"]) auto
  next
    case False
    define i where "i = (k - k0 - 1) div 16"
    have i: "16 * i \<le> k - k0 - 1" "k - k0 - 1 < 16 * i + 16"
      by (simp_all add: i_def dividend_less_times_div)
    then have K: "k0 < k - 16 * i" "k - 16 * i \<le> k0 + 16" "k = (k - 16 * i) + 16 * i" using ge False by linarith+
    have "16 * i \<le> j"
    proof -
      have "Suc (k0 + 16 * i) \<le> k" using K(1,3) by linarith
      then have "Suc (k0 + 16 * i) * ?E \<le> k * ?E" by (rule mult_le_mono1)
      then have "slot_start l (Suc k0) + 16 * i * ?E \<le> slot_start l k"
        unfolding sl by (simp add: ring_distribs)
      then have "unat now + 16 * i * ?E < slot_start p (Suc j)"
        using bl(2) common by (simp add: common_at_def)
      then have "16 * i * ?E < Suc j * ?E" using refn(2) unfolding sl by linarith
      then show ?thesis by (simp only: mult_less_cancel2 less_Suc_eq_le)
    qed
    then have J: "j = (j - 16 * i) + 16 * i" by simp
    have "slot_channel l (k - 16 * i) = channel" "slot_channel p (j - 16 * i) = channel"
      using cyc [of l "k - 16 * i" i] cyc [of p "j - 16 * i" i] K(3) J common by (simp_all add: common_at_def)
    moreover have "\<exists>i'. (k - 16 * i = k + 16 * i' \<and> j - 16 * i = j + 16 * i') \<or>
        (k = (k - 16 * i) + 16 * i' \<and> j = (j - 16 * i) + 16 * i')"
      using K(3) J by (intro exI [of _ i]) blast
    ultimately show thesis using K(1,2) that by blast
  qed
  from KJ(5) obtain i where shift: "(K = k + 16 * i \<and> J = j + 16 * i) \<or> (k = K + 16 * i \<and> j = J + 16 * i)" by blast
  have over: "max (slot_start l K) (slot_start p J) + 2 * unat guard \<le> min (slot_start l (Suc K)) (slot_start p (Suc J))"
    "max (slot_start l K) (slot_start p J) < min (slot_start l (Suc K)) (slot_start p (Suc J))"
    using shift common unfolding common_at_def sl by (auto simp: ring_distribs)
  have after: "unat now \<le> max (slot_start l K) (slot_start p J)"
    using bl(2) slot_start_mono [of "Suc k0" K l] KJ(3) by simp
  have "slot_start l K \<le> slot_start l (k0 + 16)" using KJ(4) by (rule slot_start_mono)
  then have Kt: "slot_start l (Suc K) \<le> unat now + 17 * ?E" using bl(1) unfolding sl by (simp add: ring_distribs)
  have "J * ?E < (j0 + 18) * ?E"
    using over(2) Kt bp(2) unfolding sl by (simp add: ring_distribs)
  then have J: "J < j0 + 18" by (simp only: mult_less_cancel2)
  have lim: "max (slot_start l K) (slot_start p J) < 2 ^ 63"
  proof -
    have "max (slot_start l K) (slot_start p J) < unat now + 17 * ?E" using over(2) Kt by simp
    also have "\<dots> < 2 ^ 63" using small E by simp
    finally show ?thesis .
  qed
  show ?thesis
    by (rule common_window_reaches [OF valid g(2,1) KJ(1,2) over after lim ref after])
      (use KJ(4) J in \<open>simp add: k0_def [symmetric] j0_def [symmetric]\<close>)
qed

section \<open>Properties\<close>

text \<open>
  C16. What we transmit is what a receiver understands. For every valid transmit state, time and
  buffer large enough, building a MIF succeeds whenever it fits the 384-byte frame limit, the
  reported length is exact, the written bytes decode as an AWDL action frame from our address,
  and parsing its TLVs succeeds and yields precisely our synchronisation,
  channel sequence, both election records and version, with every TLV counted.
\<close>
theorem build_action_roundtrip:
  fixes s now
  defines "n \<equiv> bounded_string_length (tx_name s) 32"
  assumes "wf_tx_state s" and "state_is_valid (Ptr s)" and "tx_sync_reference_us s \<le> now"
    and "tx_advertise_airdrop_tcp s \<longrightarrow> tx_airdrop_port s \<noteq> 0"
    and "required_bytes s ESPDROP_AWDL_ACTION_MIF n \<le> 384" and "384 \<le> length buf"
  shows "\<exists>frame len a. espdrop_awdl_build_action (Ptr buf) (length buf) (Ptr l) (Ptr s) ESPDROP_AWDL_ACTION_MIF now seq =
       (BUILD_OK, Ptr frame, Ptr len) \<and> length frame = length buf \<and>
     espdrop_awdl_decode_action (Ptr (take len frame)) (Ptr a0) = Some (True, Ptr a) \<and> act_source a = tx_self s \<and>
     espdrop_awdl_parse_mif (Ptr a) (Ptr m0) = Some (PARSE_OK, Ptr (sent_mif s now))"
proof -
  let ?sub = "ESPDROP_AWDL_ACTION_MIF"
  have n: "n \<le> 32" unfolding n_def by (rule name_length_bound)
  let ?pn = "tx_peer_time_reference s + ucast (now - tx_peer_time_observed_us s)"
  let ?tlvs = "tlv_area (sent_tlvs s ?sub now n)"
  define fr where "fr = action_frame 0 ([0, 0] @ broadcast) (tx_self s) (put_le16 (push_bit 4 (seq AND 0x0fff))) ?sub 0 ?pn ?pn ?tlvs"
  have self: "length (tx_self s) = 6" using assms(2) by (simp add: wf_tx_state_def)
  have len: "length fr = required_bytes s ?sub n"
    using sent_tlvs_length [OF assms(2) n, of ?sub now] self
    by (simp add: fr_def action_frame_def broadcast_def)
  let ?frame = "write_frame buf (required_bytes s ?sub n) fr"
  have build: "espdrop_awdl_build_action (Ptr buf) (length buf) (Ptr l) (Ptr s) ?sub now seq =
      (BUILD_OK, Ptr ?frame, Ptr (required_bytes s ?sub n))"
    using build_action_eq [OF assms(2-5), of ?sub buf "length buf" l seq] assms(6,7)
    by (simp add: n_def [symmetric] fr_def)
  have pre: "take (required_bytes s ?sub n) ?frame = fr"
    using write_frame_prefix [OF len, of buf] assms(6,7) by simp
  have flen: "length ?frame = length buf" using len assms(6,7) by (simp add: write_frame_def)
  let ?a = "\<lparr>act_source = tx_self s, act_version = 0x10, act_subtype = ?sub, act_phy_tx = ?pn, act_target_tx = ?pn,
       act_tlv_data = Ptr ?tlvs, act_tlv_length = length ?tlvs\<rparr>"
  have dec: "espdrop_awdl_decode_action (Ptr fr) (Ptr a0) = Some (True, Ptr ?a)"
    unfolding fr_def by (rule decode_action_frame) (simp_all add: broadcast_def self)
  have "parse_mif_loop \<lparr>it_data = Ptr ?tlvs, it_length = length ?tlvs, it_offset = 0\<rparr> mif_zero = Some (PARSE_OK, sent_mif s now)"
    using mif_tlvs.loop_area_start [OF sent_tlvs_fit [OF assms(2) n]] mif_fold_sent [OF assms(2)] by simp
  then have "espdrop_awdl_parse_mif (Ptr ?a) (Ptr m0) = Some (PARSE_OK, Ptr (sent_mif s now))"
    by (simp add: espdrop_awdl_parse_mif_def espdrop_awdl_tlv_iterator_init_def)
  with build pre flen dec show ?thesis by (intro exI [of _ ?frame] exI [of _ "required_bytes s ?sub n"] exI [of _ ?a]) simp
qed

definition ex_tx :: tx_state where
  "ex_tx = tx_state_zero\<lparr>tx_self := [2, 0, 0, 0, 0, 1], tx_master := [2, 0, 0, 0, 0, 9], tx_sync_master := [2, 0, 0, 0, 0, 9],
     tx_name := ascii ''espDrop'' @ replicate 25 0, tx_sync_reference_us := 1000, tx_aw_period_tu := 16,
     tx_action_frame_period_tu := 110, tx_presence_mode := 4, tx_channel := 6, tx_peer_channel_count := 16,
     tx_peer_channel_encoding := 3, tx_peer_channels := replicate 8 6 @ replicate 8 44,
     tx_peer_operating_classes := replicate 16 81, tx_advertise_airdrop_tcp := True, tx_airdrop_port := 8771\<rparr>"

lemma ex_tx_ok: "wf_tx_state ex_tx \<and> state_is_valid (Ptr ex_tx) \<and> tx_airdrop_port ex_tx \<noteq> 0 \<and> tx_sync_reference_us ex_tx \<le> 500000"
  by code_simp

lemma ex_tx_required: "required_bytes ex_tx ESPDROP_AWDL_ACTION_MIF (bounded_string_length (tx_name ex_tx) 32) = 384"
  by code_simp

definition ex_buffer :: bytes where
  "ex_buffer = replicate 384 0"

definition ex_action :: awdl_action where
  "ex_action = \<lparr>act_source = [], act_version = 0, act_subtype = 0, act_phy_tx = 0, act_target_tx = 0,
     act_tlv_data = NULL, act_tlv_length = 0\<rparr>"

theorem build_action_roundtrip_witness:
  "\<exists>frame len a. espdrop_awdl_build_action (Ptr ex_buffer) (length ex_buffer) (Ptr 0) (Ptr ex_tx)
       ESPDROP_AWDL_ACTION_MIF 500000 7 = (BUILD_OK, Ptr frame, Ptr len) \<and> length frame = length ex_buffer \<and>
     espdrop_awdl_decode_action (Ptr (take len frame)) (Ptr ex_action) = Some (True, Ptr a) \<and> act_source a = tx_self ex_tx \<and>
     espdrop_awdl_parse_mif (Ptr a) (Ptr mif_zero) = Some (PARSE_OK, Ptr (sent_mif ex_tx 500000))"
  by (rule build_action_roundtrip) (use ex_tx_ok ex_tx_required in \<open>simp_all add: ex_buffer_def\<close>)

text \<open>
  C18. The channel-window scheduler is exact. For a valid schedule, a guard shorter than a window
  and a clock below \<open>2 ^ 63\<close> microseconds, it finds a window if and only if the channel occurs in
  the peer's sequence, and the time it returns is the guarded start of a window on that
  channel, not in the past, and the earliest such time.
\<close>
theorem next_channel_window_correct:
  assumes "state_is_valid (Ptr s)" and "length (tx_peer_channels s) = 16" and "channel \<noteq> 0"
    and "tx_sync_reference_us s \<le> now" and "ucast guard < eaw_us s" and "unat now < 2 ^ 63"
    and "espdrop_awdl_next_channel_window_us (Ptr s) channel now guard (Ptr old) = (found, Ptr t)"
  shows "(found \<longleftrightarrow> channel \<in> set (tx_peer_channels s)) \<and> (\<not> found \<longrightarrow> t = old) \<and>
     (found \<longrightarrow> (\<exists>k. slot_channel s k = channel \<and> unat t = slot_start s k + unat guard) \<and> now \<le> t \<and>
        (\<forall>j. slot_channel s j = channel \<longrightarrow> unat now \<le> slot_start s j + unat guard \<longrightarrow>
           unat t \<le> slot_start s j + unat guard))"
proof -
  let ?E = "unat (eaw_us s)" and ?g = "unat guard" and ?n = "unat now"
  define k where "k = slot_of s ?n"
  have ref: "unat (tx_sync_reference_us s) \<le> ?n" using assms(4) by (simp add: word_le_nat_alt)
  have g: "?g < ?E" using assms(5) by (simp add: word_less_nat_alt unat_ucast_u32_u64)
  have E: "0 < ?E" "?E < 2 ^ 34" using eaw_us_bounds [OF assms(1)] by simp_all
  have start: "slot_start s k \<le> ?n" "?n < slot_start s (Suc k)"
    using slot_of_bounds [OF assms(1) ref] by (simp_all add: k_def)
  have "1024 \<le> ?E" using E(1) by (simp add: eaw_us_value)
  then have "k * 1024 \<le> k * ?E" by (rule mult_le_mono2)
  then have "k * 1024 < 2 ^ 63" using start(1) assms(6) unfolding slot_start_def by linarith
  then have kb: "k < 2 ^ 62" by simp
  have el: "(now - tx_sync_reference_us s) div eaw_us s = of_nat k"
  proof -
    have u: "unat ((now - tx_sync_reference_us s) div eaw_us s) = k"
      using assms(4) by (simp add: unat_div unat_sub k_def slot_of_def)
    have "(now - tx_sync_reference_us s) div eaw_us s = of_nat (unat ((now - tx_sync_reference_us s) div eaw_us s))"
      by simp
    also have "\<dots> = of_nat k" by (simp only: u)
    finally show ?thesis .
  qed
  let ?f = "find (\<lambda>d. window_ok s channel ?n ?g (k + d)) [0..<17]"
  have loop: "next_window_loop s channel now guard (of_nat k) (tx_sync_reference_us s + of_nat k * eaw_us s) 0 =
      map_option (\<lambda>d. of_nat (slot_start s (k + d) + ?g)) ?f"
    using next_window_loop_find [OF assms(1) kb, of 0] start(1) assms(6) by simp
  have call: "(found, Ptr t) = (case map_option (\<lambda>d. of_nat (slot_start s (k + d) + ?g)) ?f of
      Some c \<Rightarrow> (True, Ptr c) | None \<Rightarrow> (False, Ptr old))"
  proof -
    have guards: "(eaw_us s = 0) = False" "(now < tx_sync_reference_us s) = False" "(eaw_us s \<le> ucast guard) = False"
      using E(1) assms(4,5) by auto
    show ?thesis
      using assms(1,3,7) channel_count_16 [OF assms(1)] loop el
      by (simp add: espdrop_awdl_next_channel_window_us_def Let_def ESPDROP_AWDL_MAX_CHANNELS_def guards o_def
          del: of_nat_add)
  qed
  have ex: "?f \<noteq> None \<longleftrightarrow> channel \<in> set (tx_peer_channels s)"
  proof
    assume "?f \<noteq> None"
    then obtain d where "window_ok s channel ?n ?g (k + d)" by (auto simp: find_Some_iff)
    then show "channel \<in> set (tx_peer_channels s)"
      using assms(2) by (auto simp: window_ok_def slot_channel_def)
  next
    assume "channel \<in> set (tx_peer_channels s)"
    then obtain d where d: "d \<in> {1..16}" "slot_channel s (k + d) = channel"
      using slot_channel_cycle [OF assms(2)] by blast
    then have "slot_start s (Suc k) \<le> slot_start s (k + d)" by (intro slot_start_mono) simp
    with start(2) d have "window_ok s channel ?n ?g (k + d)" "d \<in> set [0..<17]" by (auto simp: window_ok_def)
    then show "?f \<noteq> None" by (auto simp: find_None_iff)
  qed
  show ?thesis
  proof (cases ?f)
    case None
    then show ?thesis using call ex by simp
  next
    case (Some d)
    have ok: "window_ok s channel ?n ?g (k + d)" "d < 17" using find_upt_least [OF Some] by auto
    have "d * ?E \<le> 17 * 2 ^ 34" using ok(2) E(2) by (intro mult_le_mono) simp_all
    then have "slot_start s (k + d) + ?g < 2 ^ 64"
      using start(1) assms(6) unat_bound [of guard] by (simp add: slot_start_def ring_distribs)
    then have t: "unat t = slot_start s (k + d) + ?g" "found"
      using call Some by (simp_all add: unat_of_nat del: of_nat_add)
    have "slot_start s (k + d) \<le> slot_start s j" if "window_ok s channel ?n ?g j" for j
      using next_window_earliest [OF assms(1) ref g Some [unfolded k_def] that] by (simp add: k_def)
    then show ?thesis using t ok ex Some by (auto simp: window_ok_def word_le_nat_alt)
  qed
qed

theorem next_channel_window_correct_witness:
  "fst (espdrop_awdl_next_channel_window_us (Ptr ex_tx) 44 500000 3000 (Ptr 0)) \<and>
   \<not> fst (espdrop_awdl_next_channel_window_us (Ptr ex_tx) 149 500000 3000 (Ptr 0))"
proof -
  have h: "state_is_valid (Ptr ex_tx)" "length (tx_peer_channels ex_tx) = 16" "tx_sync_reference_us ex_tx \<le> 500000"
    "ucast (3000 :: u32) < eaw_us ex_tx" "unat (500000 :: u64) < 2 ^ 63"
    using ex_tx_ok by (simp_all add: wf_tx_state_def, simp add: ex_tx_def eaw_us_def tx_state_zero_def AWDL_TU_US_def)
  have s: "espdrop_awdl_next_channel_window_us (Ptr ex_tx) c 500000 3000 (Ptr 0) =
      (fst (espdrop_awdl_next_channel_window_us (Ptr ex_tx) c 500000 3000 (Ptr 0)),
       Ptr (deref (snd (espdrop_awdl_next_channel_window_us (Ptr ex_tx) c 500000 3000 (Ptr 0)))))" for c
    by (simp add: espdrop_awdl_next_channel_window_us_def Let_def split: option.split)
  have "44 \<in> set (tx_peer_channels ex_tx)" "149 \<notin> set (tx_peer_channels ex_tx)" by code_simp+
  then show ?thesis
    using next_channel_window_correct [OF h(1,2) _ h(3-5) s, of 44]
      next_channel_window_correct [OF h(1,2) _ h(3-5) s, of 149] by simp
qed

text \<open>
  C17. The common-window search is sound and complete. For two valid schedules with equal windows, a
  guard below half a window and a clock below \<open>2 ^ 62\<close> microseconds, a returned time is not in
  the past and lies inside a slot of each schedule that is on the requested channel, at
  least the guard away from both ends of both slots; and the search reports failure only if
  there is no such time at all from now on. The bound of 66 boundaries is therefore enough
  for every pair of phases.
\<close>
theorem common_channel_window_correct:
  assumes "state_is_valid (Ptr l)" and "state_is_valid (Ptr p)" and "channel \<noteq> 0"
    and "tx_sync_reference_us l \<le> now" and "tx_sync_reference_us p \<le> now" and "unat now < 2 ^ 62"
    and "eaw_us l = eaw_us p" and "2 * unat guard < unat (eaw_us l)"
    and "espdrop_awdl_next_common_channel_window_us (Ptr l) (Ptr p) channel now guard (Ptr old) = (found, Ptr t)"
  shows "(found \<longrightarrow> now \<le> t \<and> (\<exists>k j. common_at l p channel (unat guard) (unat t) k j)) \<and>
     (\<not> found \<longrightarrow> t = old \<and> \<not> (\<exists>u k j. unat now \<le> u \<and> common_at l p channel (unat guard) u k j))"
proof -
  let ?loop = "common_window_loop l p channel now guard 66 now"
  have call: "(found, Ptr t) = (case ?loop of Some c \<Rightarrow> (True, Ptr c) | None \<Rightarrow> (False, Ptr old))"
    using common_window_call [OF assms(1-5,7,8)] assms(9) by simp
  have E: "unat (eaw_us l) < 2 ^ 34" using eaw_us_bounds [OF assms(1)] by simp
  show ?thesis
  proof (cases ?loop)
    case (Some c)
    have "unat now + 66 * unat (eaw_us l) < 2 ^ 63" using assms(6) E by simp
    from common_window_sound [OF assms(1,2,4,5) this assms(8,7) Some] show ?thesis
      using call Some by simp
  next
    case None
    have "\<not> common_at l p channel (unat guard) u k j" if "unat now \<le> u" for u k j
      using common_window_complete [OF assms(1,2,4-8) that] None by blast
    then show ?thesis using call None by simp
  qed
qed

theorem common_channel_window_correct_witness:
  "\<exists>k j. common_at ex_tx ex_tx 44 3000
     (unat (deref (snd (espdrop_awdl_next_common_channel_window_us (Ptr ex_tx) (Ptr ex_tx) 44 500000 3000 (Ptr 0))))) k j"
proof -
  let ?call = "espdrop_awdl_next_common_channel_window_us (Ptr ex_tx) (Ptr ex_tx) 44 500000 3000 (Ptr 0)"
  have c: "?call = (True, Ptr (deref (snd ?call)))" by code_simp
  have h: "state_is_valid (Ptr ex_tx)" "tx_sync_reference_us ex_tx \<le> 500000" "unat (500000 :: u64) < 2 ^ 62"
    "2 * unat (3000 :: u32) < unat (eaw_us ex_tx)"
    using ex_tx_ok by (simp_all add: ex_tx_def eaw_us_def tx_state_zero_def AWDL_TU_US_def)
  show ?thesis
    using common_channel_window_correct [OF h(1,1) _ h(2,2,3) refl h(4) c] by simp
qed

text \<open>
  C19. The frame limit caps the advertised name. Advertising the AirDrop service repeats the
  host name, so with a name longer than seven bytes a MIF never fits the 384-byte limit: building
  it reports no space for every buffer, although the name field admits 31 characters.
\<close>
theorem advertised_name_limit:
  assumes "wf_tx_state s" and "state_is_valid (Ptr s)" and "tx_sync_reference_us s \<le> now"
    and "tx_advertise_airdrop_tcp s" and "tx_airdrop_port s \<noteq> 0"
  shows "(\<exists>frame len. espdrop_awdl_build_action (Ptr buf) (length buf) (Ptr l) (Ptr s) ESPDROP_AWDL_ACTION_MIF now seq =
            (BUILD_OK, Ptr frame, Ptr len)) \<longleftrightarrow>
         bounded_string_length (tx_name s) 32 \<le> 7 \<and>
         370 + 2 * bounded_string_length (tx_name s) 32 \<le> length buf"
proof -
  have "required_bytes s ESPDROP_AWDL_ACTION_MIF n = 370 + 2 * n" for n
    using assms(4)
    by (simp add: required_bytes_def Let_def frame_consts AWDL_SYNC_VALUE_BYTES_def AWDL_CHANNEL_VALUE_BYTES_def
        AWDL_ELECTION_V1_VALUE_BYTES_def AWDL_ELECTION_V2_VALUE_BYTES_def AWDL_SERVICE_VALUE_BYTES_def
        AWDL_HT_VALUE_BYTES_def AWDL_DATA_PATH_VALUE_BYTES_def AWDL_VERSION_VALUE_BYTES_def)
  then show ?thesis
    using build_action_eq [OF assms(1-3), of ESPDROP_AWDL_ACTION_MIF buf "length buf" l seq] assms(5)
    by auto
qed

definition ex_long_name :: tx_state where
  "ex_long_name = ex_tx\<lparr>tx_name := ascii ''espDrop2'' @ replicate 24 0\<rparr>"

theorem advertised_name_limit_witness:
  "\<not> (\<exists>frame len. espdrop_awdl_build_action (Ptr ex_buffer) (length ex_buffer) (Ptr 0) (Ptr ex_long_name)
        ESPDROP_AWDL_ACTION_MIF 500000 7 = (BUILD_OK, Ptr frame, Ptr len))"
proof -
  have "wf_tx_state ex_long_name \<and> state_is_valid (Ptr ex_long_name) \<and> tx_sync_reference_us ex_long_name \<le> 500000 \<and>
      tx_advertise_airdrop_tcp ex_long_name \<and> tx_airdrop_port ex_long_name \<noteq> 0"
    "\<not> bounded_string_length (tx_name ex_long_name) 32 \<le> 7"
    by code_simp+
  then show ?thesis using advertised_name_limit [of ex_long_name 500000 ex_buffer 0 7] by blast
qed

end
