(* ===== verification/Awdl_Service.thy ===== *)
theory Awdl_Service
  imports Awdl_Tx Peer_Table
begin

text \<open>
  The scanner for AirDrop service records in a MIF (\<^verbatim>\<open>core/src/awdl_service.c\<close>): compressed
  DNS names, service response records, and the loop over the TLV area, which is the
  second client of the TLV iterator contract. Names and records come from the radio, so
  every read is one that may fault.
\<close>

section \<open>Data\<close>

definition AWDL_SERVICE_RESPONSE_TLV :: byte where "AWDL_SERVICE_RESPONSE_TLV = 2"
definition AWDL_DNS_PTR :: byte where "AWDL_DNS_PTR = 12"
definition AWDL_DNS_TXT :: byte where "AWDL_DNS_TXT = 16"
definition AWDL_DNS_SRV :: byte where "AWDL_DNS_SRV = 33"
definition AWDL_DNS_AIRDROP_TCP :: u16 where "AWDL_DNS_AIRDROP_TCP = 0xc007"
definition AWDL_DNS_AIRDROP_UDP :: u16 where "AWDL_DNS_AIRDROP_UDP = 0xc008"
definition AWDL_DNS_AIRDROP_LABEL :: u16 where "AWDL_DNS_AIRDROP_LABEL = 0xc009"
definition AWDL_DNS_TCP_LOCAL :: u16 where "AWDL_DNS_TCP_LOCAL = 0xc00a"
definition AWDL_DNS_UDP_LOCAL :: u16 where "AWDL_DNS_UDP_LOCAL = 0xc00b"

record service_name =
  sn_airdrop :: bool
  sn_airdrop_tcp :: bool
  sn_airdrop_udp :: bool
  sn_asquic :: bool

text \<open>The labels seen so far while walking a name.\<close>

record seen_labels =
  saw_airdrop :: bool
  saw_asquic :: bool
  saw_tcp :: bool
  saw_udp :: bool
  saw_local :: bool

record service_profile =
  svc_record_count :: u16
  svc_malformed_record_count :: u16
  svc_ptr_count :: u16
  svc_txt_count :: u16
  svc_srv_count :: u16
  svc_has_airdrop :: bool
  svc_has_airdrop_tcp :: bool
  svc_has_airdrop_udp :: bool
  svc_has_asquic :: bool
  svc_has_airdrop_endpoint :: bool
  svc_airdrop_port :: u16
  svc_airdrop_service_id :: bytes

definition service_profile_zero :: service_profile where
  "service_profile_zero = \<lparr>svc_record_count = 0, svc_malformed_record_count = 0, svc_ptr_count = 0,
     svc_txt_count = 0, svc_srv_count = 0, svc_has_airdrop = False, svc_has_airdrop_tcp = False,
     svc_has_airdrop_udp = False, svc_has_asquic = False, svc_has_airdrop_endpoint = False,
     svc_airdrop_port = 0, svc_airdrop_service_id = replicate 64 0\<rparr>"

definition service_name_zero :: service_name where
  "service_name_zero = \<lparr>sn_airdrop = False, sn_airdrop_tcp = False, sn_airdrop_udp = False, sn_asquic = False\<rparr>"

definition seen_none :: seen_labels where
  "seen_none = \<lparr>saw_airdrop = False, saw_asquic = False, saw_tcp = False, saw_udp = False, saw_local = False\<rparr>"

section \<open>Names\<close>

definition fold_case :: "byte \<Rightarrow> byte" where
  "fold_case c = (if c \<ge> 0x41 \<and> c \<le> 0x5a then c + 0x20 else c)"

fun label_equal_loop :: "bytes \<Rightarrow> bytes \<Rightarrow> bool" where
  "label_equal_loop (a # as) (w # ws) = (if fold_case a \<noteq> fold_case w then False else label_equal_loop as ws)"
| "label_equal_loop _ _ = True"

definition label_equal :: "bytes \<Rightarrow> bytes \<Rightarrow> bool" where
  "label_equal label expected \<longleftrightarrow> length label = length expected \<and> label_equal_loop label expected"

definition see_label :: "bytes \<Rightarrow> seen_labels \<Rightarrow> seen_labels" where
  "see_label label s = \<lparr>
     saw_airdrop = saw_airdrop s \<or> label_equal label (ascii ''_airdrop''),
     saw_asquic = saw_asquic s \<or> label_equal label (ascii ''_asquic''),
     saw_tcp = saw_tcp s \<or> label_equal label (ascii ''_tcp''),
     saw_udp = saw_udp s \<or> label_equal label (ascii ''_udp''),
     saw_local = saw_local s \<or> label_equal label (ascii ''local'')\<rparr>"

text \<open>The effect of a terminating compression pointer and of the root label.\<close>

definition service_of_pointer :: "u16 \<Rightarrow> seen_labels \<Rightarrow> service_name \<Rightarrow> service_name" where
  "service_of_pointer compressed s service =
     (if compressed = AWDL_DNS_AIRDROP_TCP then service\<lparr>sn_airdrop := True, sn_airdrop_tcp := True\<rparr>
      else if compressed = AWDL_DNS_AIRDROP_UDP then service\<lparr>sn_airdrop := True, sn_airdrop_udp := True\<rparr>
      else if compressed = AWDL_DNS_AIRDROP_LABEL then service\<lparr>sn_airdrop := True\<rparr>
      else if compressed = AWDL_DNS_TCP_LOCAL \<and> saw_airdrop s
      then service\<lparr>sn_airdrop := True, sn_airdrop_tcp := True\<rparr>
      else if compressed = AWDL_DNS_UDP_LOCAL then
        let v1 = (if saw_airdrop s then service\<lparr>sn_airdrop := True, sn_airdrop_udp := True\<rparr> else service) in
        if saw_asquic s then v1\<lparr>sn_asquic := True\<rparr> else v1
      else service)"

definition service_of_labels :: "seen_labels \<Rightarrow> service_name" where
  "service_of_labels s =
     (let tcp = saw_airdrop s \<and> saw_tcp s \<and> saw_local s;
          udp = saw_airdrop s \<and> saw_udp s \<and> saw_local s in
      \<lparr>sn_airdrop = tcp \<or> udp, sn_airdrop_tcp = tcp, sn_airdrop_udp = udp,
       sn_asquic = saw_asquic s \<and> saw_udp s \<and> saw_local s\<rparr>)"

function scan_service_name_loop ::
  "bytes \<Rightarrow> nat \<Rightarrow> nat \<Rightarrow> seen_labels \<Rightarrow> service_name \<Rightarrow> (bool \<times> service_name) option" where
  "scan_service_name_loop name len offset seen service =
     (if offset < len then do {
        component_length \<leftarrow> rd name offset;
        if component_length AND 0xc0 \<noteq> 0 then
          if component_length AND 0xc0 \<noteq> 0xc0 \<or> len - offset < 2 \<or> offset + 2 \<noteq> len
          then Some (False, service)
          else do {
            next_byte \<leftarrow> rd name (offset + 1);
            Some (True, service_of_pointer (push_bit 8 (ucast component_length) OR ucast next_byte) seen service)
          }
        else if component_length = 0 then
          if offset + 1 \<noteq> len then Some (False, service)
          else Some (True, service_of_labels seen)
        else if component_length > 63 \<or> unat component_length > len - offset - 1 then Some (False, service)
        else do {
          label \<leftarrow> rds name (offset + 1) (unat component_length);
          scan_service_name_loop name len (offset + 1 + unat component_length) (see_label label seen) service
        }
      }
      else Some (False, service))"
  by pat_completeness auto
termination
  by (relation "measure (\<lambda>(name, len, offset, seen, service). len - offset)") auto

declare scan_service_name_loop.simps [simp del]

definition scan_service_name :: "bytes \<Rightarrow> nat \<Rightarrow> service_name \<Rightarrow> (bool \<times> service_name) option" where
  "scan_service_name name len service = scan_service_name_loop name len 0 seen_none service"

section \<open>Records\<close>

definition srv_endpoint :: "bytes \<Rightarrow> nat \<Rightarrow> nat \<Rightarrow> u16 \<Rightarrow> service_profile \<Rightarrow> service_profile option" where
  "srv_endpoint v name_length data_offset data_length profile = do {
     label_length \<leftarrow> rd v 2;
     port \<leftarrow> read_be16 v (data_offset + 4);
     if label_length > 0 \<and> label_length \<le> 63 \<and> unat label_length + 1 \<le> name_length \<and>
        unat label_length < ESPDROP_SERVICE_ID_MAX_BYTES \<and> port \<noteq> 0
     then do {
       label \<leftarrow> rds v 3 (unat label_length);
       Some (profile\<lparr>
         svc_airdrop_service_id := store (store (svc_airdrop_service_id profile) 0 label) (unat label_length) [0],
         svc_airdrop_port := port, svc_has_airdrop_endpoint := True\<rparr>)
     }
     else Some profile }"

definition count_record :: "byte \<Rightarrow> service_name \<Rightarrow> bytes \<Rightarrow> nat \<Rightarrow> nat \<Rightarrow> u16 \<Rightarrow> service_profile \<Rightarrow> service_profile option" where
  "count_record record_type service v name_length data_offset data_length profile =
     (if record_type = AWDL_DNS_PTR then Some (profile\<lparr>svc_ptr_count := svc_ptr_count profile + 1\<rparr>)
      else if record_type = AWDL_DNS_TXT then Some (profile\<lparr>svc_txt_count := svc_txt_count profile + 1\<rparr>)
      else if record_type = AWDL_DNS_SRV then
        let p1 = profile\<lparr>svc_srv_count := svc_srv_count profile + 1\<rparr> in
        if sn_airdrop_tcp service \<and> data_length \<ge> 7 \<and> name_length \<ge> 3
        then srv_endpoint v name_length data_offset data_length p1
        else Some p1
      else Some profile)"

definition merge_service_flags :: "service_name \<Rightarrow> service_profile \<Rightarrow> service_profile" where
  "merge_service_flags service p = p\<lparr>
     svc_has_airdrop := svc_has_airdrop p \<or> sn_airdrop service,
     svc_has_airdrop_tcp := svc_has_airdrop_tcp p \<or> sn_airdrop_tcp service,
     svc_has_airdrop_udp := svc_has_airdrop_udp p \<or> sn_airdrop_udp service,
     svc_has_asquic := svc_has_asquic p \<or> sn_asquic service\<rparr>"

definition scan_service_record :: "bytes \<Rightarrow> service_profile \<Rightarrow> (bool \<times> service_profile) option" where
  "scan_service_record v profile =
     (if length v < 8 then Some (False, profile)
      else do {
        name_and_type_length \<leftarrow> read_le16 v 0;
        if name_and_type_length < 2 \<or> unat name_and_type_length > length v - 6 then Some (False, profile)
        else do {
          let name_length = unat name_and_type_length - 1;
          let type_offset = 2 + name_length;
          let data_length_offset = type_offset + 1;
          data_length \<leftarrow> read_le16 v data_length_offset;
          if data_length_offset + 4 + unat data_length \<noteq> length v then Some (False, profile)
          else do {
            (ok, service) \<leftarrow> scan_service_name (drop 2 v) name_length service_name_zero;
            if \<not> ok then Some (False, profile)
            else do {
              record_type \<leftarrow> rd v type_offset;
              p \<leftarrow> count_record record_type service v name_length (data_length_offset + 4) data_length
                     (profile\<lparr>svc_record_count := svc_record_count profile + 1\<rparr>);
              Some (True, merge_service_flags service p)
            }
          }
        }
      })"

section \<open>The scanner\<close>

definition scan_view :: "tlv_view \<Rightarrow> service_profile \<Rightarrow> service_profile option" where
  "scan_view view profile =
     (if tv_type view = AWDL_SERVICE_RESPONSE_TLV then do {
        (ok, p) \<leftarrow> scan_service_record (tv_value view) profile;
        Some (if \<not> ok then p\<lparr>svc_malformed_record_count := svc_malformed_record_count p + 1\<rparr> else p)
      }
      else Some profile)"

function scan_loop :: "tlv_iterator \<Rightarrow> service_profile \<Rightarrow> (parse_result \<times> service_profile) option" where
  "scan_loop iterator profile = do {
     (result, iterator', view) \<leftarrow> espdrop_awdl_tlv_next (Ptr iterator) (Ptr tlv_view_zero);
     if result = PARSE_END
     then Some (if svc_malformed_record_count profile = 0 then PARSE_OK else PARSE_INVALID_VALUE, profile)
     else if result \<noteq> PARSE_OK then Some (result, profile)
     else do {
       p \<leftarrow> scan_view (deref view) profile;
       scan_loop (deref iterator') p
     }
   }"
  by pat_completeness auto
termination
  by (relation "measure (\<lambda>(it, p). it_length it - it_offset it)") (auto dest!: tlv_next_OK_progress)

declare scan_loop.simps [simp del]

definition espdrop_awdl_scan_service_responses ::
  "bytes ptr \<Rightarrow> nat \<Rightarrow> service_profile ptr \<Rightarrow> (parse_result \<times> service_profile ptr) option" where
  "espdrop_awdl_scan_service_responses tlv_data tlv_length profile =
     (if profile = NULL \<or> (tlv_data = NULL \<and> tlv_length \<noteq> 0) then Some (PARSE_INVALID_ARGUMENT, profile)
      else do {
        let iterator = espdrop_awdl_tlv_iterator_init
              (Ptr \<lparr>it_data = NULL, it_length = 0, it_offset = 0\<rparr>) tlv_data tlv_length;
        (result, p) \<leftarrow> scan_loop (deref iterator) service_profile_zero;
        Some (result, Ptr p)
      })"

section \<open>No read leaves a record\<close>

lemma scan_service_name_defined:
  "len \<le> length name \<Longrightarrow> \<exists>ok svc. scan_service_name_loop name len offset seen service = Some (ok, svc)"
proof (induction name len offset seen service rule: scan_service_name_loop.induct)
  case (1 name len offset seen service)
  show ?case
  proof (cases "offset < len")
    case False
    then show ?thesis by (subst scan_service_name_loop.simps) auto
  next
    case True
    define c where "c = name ! offset"
    have c: "rd name offset = Some c" using True "1.prems" by (simp add: rd_in c_def)
    show ?thesis
    proof (cases "c AND 0xc0 \<noteq> 0 \<or> c = 0 \<or> c > 63 \<or> unat c > len - offset - 1")
      case stop: True
      have "offset + 2 = len \<Longrightarrow> rd name (offset + 1) = Some (name ! (offset + 1))"
        using "1.prems" by (intro rd_in) simp
      then show ?thesis
        using stop by (subst scan_service_name_loop.simps) (auto simp: True c)
    next
      case go: False
      then have "rds name (offset + 1) (unat c) = Some (take (unat c) (drop (offset + 1) name))"
        using True "1.prems" by (intro rds_in) (auto simp: not_less)
      then show ?thesis
        using "1.IH" [OF True c] go "1.prems"
        by (subst scan_service_name_loop.simps) (auto simp: True c)
    qed
  qed
qed

lemma srv_endpoint_defined:
  assumes "3 \<le> nl" and "2 + nl < off" and "off + 7 \<le> length v"
  shows "\<exists>p'. srv_endpoint v nl off dl p = Some p'"
proof -
  obtain port where "read_be16 v (off + 4) = Some port" using be16.dec_defined [of "off + 4" v] assms by auto
  moreover have "rd v 2 = Some (v ! 2)" using assms by (intro rd_in) simp
  moreover have "rds v 3 (unat l) = Some (take (unat l) (drop 3 v))" if "unat l + 1 \<le> nl" for l :: byte
    using that assms by (intro rds_in) simp
  ultimately show ?thesis by (auto simp: srv_endpoint_def)
qed

lemma scan_service_record_defined: "\<exists>ok p'. scan_service_record v p = Some (ok, p')"
proof (cases "length v < 8")
  case True
  then show ?thesis by (auto simp: scan_service_record_def)
next
  case False
  then obtain nt where nt: "read_le16 v 0 = Some nt" using le16.dec_defined [of 0 v] by auto
  show ?thesis
  proof (cases "nt < 2 \<or> unat nt > length v - 6")
    case True
    then show ?thesis using False nt by (auto simp: scan_service_record_def)
  next
    case ok: False
    then have nt2: "2 \<le> unat nt" "unat nt + 6 \<le> length v" using False by (auto simp: word_le_nat_alt not_less)
    define nl where "nl = unat nt - 1"
    obtain dl where dl: "read_le16 v (2 + nl + 1) = Some dl"
      using le16.dec_defined [of "2 + nl + 1" v] nt2 by (auto simp: nl_def)
    show ?thesis
    proof (cases "2 + nl + 1 + 4 + unat dl = length v")
      case exact: True
      have "nl \<le> length (drop 2 v)" using exact by simp
      from scan_service_name_defined [OF this, of 0 seen_none service_name_zero]
      obtain b svc where nm: "scan_service_name (drop 2 v) nl service_name_zero = Some (b, svc)"
        by (auto simp: scan_service_name_def)
      have ty: "rd v (2 + nl) = Some (v ! (2 + nl))" using exact by (intro rd_in) simp
      have "\<exists>p'. count_record t svc v nl (2 + nl + 1 + 4) dl q = Some p'" for t q
      proof (cases "sn_airdrop_tcp svc \<and> dl \<ge> 7 \<and> nl \<ge> 3")
        case True
        then show ?thesis
          using srv_endpoint_defined [of nl "2 + nl + 1 + 4" v dl] exact
          by (auto simp: count_record_def Let_def word_le_nat_alt)
      next
        case False
        then show ?thesis by (auto simp: count_record_def Let_def)
      qed
      from this [of "v ! (2 + nl)" "p\<lparr>svc_record_count := svc_record_count p + 1\<rparr>"] show ?thesis
        using False ok nt dl exact nm ty
        by (auto simp: scan_service_record_def Let_def nl_def [symmetric] nl_def [symmetric, simplified])
    next
      case False
      then show ?thesis
        using \<open>\<not> length v < 8\<close> ok nt dl by (auto simp: scan_service_record_def Let_def nl_def)
    qed
  qed
qed

lemma scan_view_defined: "\<exists>p'. scan_view view p = Some p'"
  using scan_service_record_defined [of "tv_value view" p] by (auto simp: scan_view_def)

interpretation service_tlvs: tlv_consumer scan_loop "\<lambda>v p. map_option Inr (scan_view v p)"
  "\<lambda>p. (if svc_malformed_record_count p = 0 then PARSE_OK else PARSE_INVALID_VALUE, p)" "\<lambda>r p. (r, p)"
proof unfold_locales
  show "scan_loop it s = do {
      (r, it', v) \<leftarrow> espdrop_awdl_tlv_next (Ptr it) (Ptr tlv_view_zero);
      if r = PARSE_END then Some (if svc_malformed_record_count s = 0 then PARSE_OK else PARSE_INVALID_VALUE, s)
      else if r \<noteq> PARSE_OK then Some (r, s)
      else do {
        x \<leftarrow> map_option Inr (scan_view (deref v) s);
        case x of Inl r' \<Rightarrow> Some r' | Inr s' \<Rightarrow> scan_loop (deref it') s' } }" for it s
    by (subst scan_loop.simps) (auto split: Option.bind_splits)
  show "map_option Inr (scan_view v s) \<noteq> None" for v s
    using scan_view_defined [of v s] by auto
qed

section \<open>The records we advertise\<close>

lemma scan_service_value:
  assumes ow: "1 \<le> length ow" "length ow + length d < 2 ^ 15"
    and nm: "scan_service_name (ow @ [t] @ put_le16 (of_nat (length d)) @ put_le16 0 @ d) (length ow) service_name_zero =
       Some (True, svc)"
  shows "scan_service_record (service_value ow t d) p = do {
     q \<leftarrow> count_record t svc (service_value ow t d) (length ow) (7 + length ow) (of_nat (length d))
            (p\<lparr>svc_record_count := svc_record_count p + 1\<rparr>);
     Some (True, merge_service_flags svc q) }"
proof -
  let ?n = "length ow" and ?nt = "of_nat (length ow + 1) :: u16"
  let ?tail = "[t] @ put_le16 (of_nat (length d)) @ put_le16 0 @ d"
  have v: "service_value ow t d = put_le16 ?nt @ ow @ ?tail" by (simp add: service_value_def)
  have nt: "unat ?nt = ?n + 1" using ow by (intro unat_of_nat_u16) simp
  have dl: "unat (of_nat (length d) :: u16) = length d" using ow by (intro unat_of_nat_u16) simp
  have r1: "read_le16 (service_value ow t d) 0 = Some ?nt" unfolding v by (rule le16.dec_at_head)
  have r2: "read_le16 (service_value ow t d) (2 + ?n + 1) = Some (of_nat (length d))"
    using le16.dec_at_offset [of "2 + ?n + 1" "put_le16 ?nt @ ow @ [t]" "of_nat (length d)" "put_le16 0 @ d"]
    by (simp add: v)
  have r3: "rd (service_value ow t d) (2 + ?n) = Some t" unfolding v by (simp add: rd_def nth_append)
  have dr: "drop 2 (service_value ow t d) = ow @ ?tail" unfolding v by simp
  have len: "length (service_value ow t d) = 7 + ?n + length d" by simp
  have c: "\<not> ?nt < 2" using nt ow(1) by (auto simp: word_less_nat_alt)
  have ne: "ow \<noteq> []" using ow(1) by auto
  have "\<not> unat ?nt > length (service_value ow t d) - 6" using nt by simp
  then show ?thesis
    unfolding scan_service_record_def Let_def
    using r1 r2 r3 dr len c nt nm dl ne by (simp add: add.commute add.left_commute del: length_service_value)
qed

lemma scan_name_pointer:
  "scan_service_name ([0xc0, 0x07] @ rest) 2 service_name_zero =
     Some (True, service_name_zero\<lparr>sn_airdrop := True, sn_airdrop_tcp := True\<rparr>)"
  by (simp add: scan_service_name_def scan_service_name_loop.simps service_of_pointer_def AWDL_DNS_AIRDROP_TCP_def)

lemma scan_name_instance:
  assumes "length i = 12"
  shows "scan_service_name (([12] @ i @ [0xc0, 0x07]) @ rest) 15 service_name_zero =
     Some (True, service_name_zero\<lparr>sn_airdrop := True, sn_airdrop_tcp := True\<rparr>)"
proof -
  let ?n = "([12] @ i @ [0xc0, 0x07]) @ rest"
  have r: "rd ?n 0 = Some 12" "rds ?n 1 12 = Some i" "rd ?n 13 = Some 0xc0" "rd ?n 14 = Some 0x07"
    using assms by (simp_all add: wire_simps)
  have step: "scan_service_name_loop ?n 15 0 seen_none service_name_zero =
      scan_service_name_loop ?n 15 13 (see_label i seen_none) service_name_zero"
    using r by (subst scan_service_name_loop.simps) (simp del: append.simps append_assoc)
  show ?thesis
    unfolding scan_service_name_def step
    using r by (subst scan_service_name_loop.simps)
      (simp add: service_of_pointer_def AWDL_DNS_AIRDROP_TCP_def del: append.simps append_assoc)
qed

section \<open>Properties\<close>





end
