(* ===== verification/Awdl_Data.thy ===== *)
theory Awdl_Data
  imports Awdl_Frame
begin

text \<open>
  AWDL data frames (\<^verbatim>\<open>core/src/awdl_data.c\<close>): neighbour solicitations, echo requests and tunnelled
  Ethernet frames are built; received frames, aggregated or not, are decoded down to
  IPv6, ICMPv6 and TCP. Decoders read with \<open>rd\<close>, \<open>rds\<close> and the byte-order readers, so that a
  result different from \<open>None\<close> means no read left the frame.
\<close>

section \<open>Data\<close>

definition IEEE80211_QOS_BYTES :: nat where "IEEE80211_QOS_BYTES = 2"
definition AMSDU_SUBFRAME_HEADER_BYTES :: nat where "AMSDU_SUBFRAME_HEADER_BYTES = 14"
definition LLC_HEADER_BYTES :: nat where "LLC_HEADER_BYTES = 8"
definition AWDL_DATA_HEADER_BYTES :: nat where "AWDL_DATA_HEADER_BYTES = 8"
definition IPV6_HEADER_BYTES :: nat where "IPV6_HEADER_BYTES = 40"
definition ICMPV6_NS_BYTES :: u16 where "ICMPV6_NS_BYTES = 32"
definition ICMPV6_ECHO_BYTES :: u16 where "ICMPV6_ECHO_BYTES = 16"
definition ETHERTYPE_IPV6 :: u16 where "ETHERTYPE_IPV6 = 0x86dd"
definition ESPDROP_AWDL_NS_FRAME_BYTES :: nat where "ESPDROP_AWDL_NS_FRAME_BYTES = 112"
definition ESPDROP_AWDL_ECHO_FRAME_BYTES :: nat where "ESPDROP_AWDL_ECHO_FRAME_BYTES = 96"
definition ESPDROP_AWDL_DATA_FRAME_OVERHEAD :: nat where "ESPDROP_AWDL_DATA_FRAME_OVERHEAD = 40"
definition ESPDROP_ETHERNET_HEADER_BYTES :: nat where "ESPDROP_ETHERNET_HEADER_BYTES = 14"

lemmas data_consts = IEEE80211_QOS_BYTES_def AMSDU_SUBFRAME_HEADER_BYTES_def LLC_HEADER_BYTES_def
  AWDL_DATA_HEADER_BYTES_def IPV6_HEADER_BYTES_def ICMPV6_NS_BYTES_def ICMPV6_ECHO_BYTES_def
  ETHERTYPE_IPV6_def ESPDROP_AWDL_NS_FRAME_BYTES_def ESPDROP_AWDL_ECHO_FRAME_BYTES_def
  ESPDROP_AWDL_DATA_FRAME_OVERHEAD_def ESPDROP_ETHERNET_HEADER_BYTES_def IEEE80211_HEADER_BYTES_def

definition llc_header :: bytes where
  "llc_header = [0xaa, 0xaa, 0x03, 0x00, 0x17, 0xf2, 0x08, 0x00]"

record awdl_data =
  da_destination :: mac
  da_source :: mac
  da_sequence :: u16
  da_ethertype :: u16
  da_qos :: bool
  da_amsdu :: bool
  da_payload :: "bytes ptr"
  da_payload_length :: nat

record awdl_ipv6 =
  v6_source :: bytes
  v6_destination :: bytes
  v6_next_header :: byte
  v6_hop_limit :: byte
  v6_icmp_type :: byte
  v6_icmp_code :: byte
  v6_icmp_payload :: "bytes ptr"
  v6_icmp_payload_length :: nat

record awdl_tcp =
  tcp_source_port :: u16
  tcp_destination_port :: u16
  tcp_sequence :: u32
  tcp_acknowledgment :: u32
  tcp_window :: u16
  tcp_payload_length :: u16
  tcp_flags :: byte
  tcp_header_length :: byte
  tcp_checksum_valid :: bool

datatype decode_result =
    DECODE_OK | DECODE_INVALID_ARGUMENT | DECODE_TOO_SHORT | DECODE_NOT_DATA | DECODE_DISTRIBUTION_SYSTEM
  | DECODE_BSSID | DECODE_SUBTYPE | DECODE_QOS_TOO_SHORT | DECODE_AMSDU_TOO_SHORT | DECODE_AMSDU_LENGTH
  | DECODE_AMSDU_CAPACITY | DECODE_LLC | DECODE_HEADER

definition awdl_data_zero :: awdl_data where
  "awdl_data_zero = \<lparr>da_destination = replicate 6 0, da_source = replicate 6 0, da_sequence = 0,
     da_ethertype = 0, da_qos = False, da_amsdu = False, da_payload = NULL, da_payload_length = 0\<rparr>"

definition awdl_ipv6_zero :: awdl_ipv6 where
  "awdl_ipv6_zero = \<lparr>v6_source = replicate 16 0, v6_destination = replicate 16 0, v6_next_header = 0,
     v6_hop_limit = 0, v6_icmp_type = 0, v6_icmp_code = 0, v6_icmp_payload = NULL, v6_icmp_payload_length = 0\<rparr>"

section \<open>Internet checksum\<close>

fun checksum_add :: "u32 \<Rightarrow> bytes \<Rightarrow> u32" where
  "checksum_add acc (a # b # data) = checksum_add (acc + ucast (push_bit 8 (ucast a) OR ucast b :: u16)) data"
| "checksum_add acc [a] = acc + push_bit 8 (ucast a)"
| "checksum_add acc [] = acc"

lemma unat_low16: "unat ((w :: u32) AND 0xffff) = unat w mod 65536"
proof -
  have "(0xffff :: u32) = mask 16" by (simp add: mask_eq_exp_minus_1)
  then show ?thesis by (simp only: take_bit_eq_mask [symmetric]) (simp add: take_bit_eq_mod unat_mod)
qed

lemma unat_high16: "unat (drop_bit 16 (w :: u32)) = unat w div 65536"
  by (simp add: drop_bit_eq_div unat_div)

lemma fold16_less: "drop_bit 16 (acc :: u32) \<noteq> 0 \<Longrightarrow> unat ((acc AND 0xffff) + drop_bit 16 acc) < unat acc"
proof -
  assume nz: "drop_bit 16 acc \<noteq> 0"
  have "0 < unat (drop_bit 16 acc)" using nz by (simp only: unat_gt_0) simp
  then have "0 < unat acc div 65536" by (simp only: unat_high16)
  then have "unat acc mod 65536 + unat acc div 65536 < unat acc"
    using div_mult_mod_eq [of "unat acc" 65536] by linarith
  then show ?thesis using unat_bound [of acc] by (simp add: unat_word_ariths unat_low16 unat_high16)
qed

function fold_carries :: "u32 \<Rightarrow> u32" where
  "fold_carries acc = (if drop_bit 16 acc \<noteq> 0 then fold_carries ((acc AND 0xffff) + drop_bit 16 acc) else acc)"
  by pat_completeness auto
termination
  by (relation "measure unat") (auto simp: fold16_less)

declare fold_carries.simps [simp del]

definition checksum_finish :: "u32 \<Rightarrow> u16" where
  "checksum_finish acc = ucast (NOT (fold_carries acc))"

definition icmpv6_checksum :: "bytes \<Rightarrow> bytes \<Rightarrow> bytes \<Rightarrow> u16 \<Rightarrow> u16" where
  "icmpv6_checksum source destination icmp len =
     (let sum1 = checksum_add 0 source;
          sum2 = checksum_add sum1 destination;
          sum3 = checksum_add sum2 [0, 0, ucast (drop_bit 8 len), ucast len, 0, 0, 0, 58];
          sum4 = checksum_add sum3 (take (unat len) icmp) in
      checksum_finish sum4)"

section \<open>Building frames\<close>

definition link_local :: "mac \<Rightarrow> bytes" where
  "link_local m = [0xfe, 0x80, 0, 0, 0, 0, 0, 0, (m ! 0) XOR 0x02, m ! 1, m ! 2, 0xff, 0xfe, m ! 3, m ! 4, m ! 5]"

definition espdrop_awdl_link_local_from_mac :: "mac ptr \<Rightarrow> bytes ptr \<Rightarrow> bytes ptr" where
  "espdrop_awdl_link_local_from_mac m address =
     (if m = NULL \<or> address = NULL then address else Ptr (link_local (deref m)))"

text \<open>The 802.11, LLC and AWDL headers shared by the three builders.\<close>

definition data_frame_header :: "mac \<Rightarrow> mac \<Rightarrow> u16 \<Rightarrow> u16 \<Rightarrow> bytes \<Rightarrow> bytes" where
  "data_frame_header destination source ieee80211_sequence awdl_sequence ethertype =
     [0x08, 0, 0, 0] @ destination @ source @ awdl_bssid @ put_le16 (push_bit 4 (ieee80211_sequence AND 0x0fff)) @
     llc_header @ [0x03, 0x04] @ put_le16 awdl_sequence @ [0, 0] @ ethertype"

definition ipv6_header :: "u16 \<Rightarrow> byte \<Rightarrow> bytes \<Rightarrow> bytes \<Rightarrow> bytes" where
  "ipv6_header payload_length hop_limit source destination =
     [0x60, 0, 0, 0] @ put_be16 payload_length @ [58, hop_limit] @ source @ destination"

definition ns_icmp :: "bytes \<Rightarrow> mac \<Rightarrow> u16 \<Rightarrow> bytes" where
  "ns_icmp target_ip self_mac checksum =
     [135, 0] @ put_be16 checksum @ [0, 0, 0, 0] @ target_ip @ [1, 1] @ self_mac"

definition echo_icmp :: "u16 \<Rightarrow> u16 \<Rightarrow> u16 \<Rightarrow> bytes" where
  "echo_icmp identifier echo_sequence checksum =
     [128, 0] @ put_be16 checksum @ put_be16 identifier @ put_be16 echo_sequence @ ascii ''espDrop!''"

text \<open>The checksum is computed while its own field is still zero.\<close>

definition espdrop_awdl_build_neighbor_solicitation ::
  "bytes ptr \<Rightarrow> nat \<Rightarrow> nat ptr \<Rightarrow> mac ptr \<Rightarrow> mac ptr \<Rightarrow> u16 \<Rightarrow> u16 \<Rightarrow> bool \<times> bytes ptr \<times> nat ptr" where
  "espdrop_awdl_build_neighbor_solicitation frame capacity len self_mac target_mac ieee80211_sequence awdl_sequence =
     (if frame = NULL \<or> len = NULL \<or> self_mac = NULL \<or> target_mac = NULL \<or>
         capacity < ESPDROP_AWDL_NS_FRAME_BYTES
      then (False, frame, len)
      else
        let source_ip = link_local (deref self_mac);
            target_ip = link_local (deref target_mac);
            checksum = icmpv6_checksum source_ip target_ip (ns_icmp target_ip (deref self_mac) 0) ICMPV6_NS_BYTES;
            built = data_frame_header (deref target_mac) (deref self_mac) ieee80211_sequence awdl_sequence
                      (put_be16 ETHERTYPE_IPV6) @
                    ipv6_header ICMPV6_NS_BYTES 255 source_ip target_ip @
                    ns_icmp target_ip (deref self_mac) checksum in
        (True, Ptr (store (deref frame) 0 built), Ptr ESPDROP_AWDL_NS_FRAME_BYTES))"

definition espdrop_awdl_build_echo_request ::
  "bytes ptr \<Rightarrow> nat \<Rightarrow> nat ptr \<Rightarrow> mac ptr \<Rightarrow> mac ptr \<Rightarrow> u16 \<Rightarrow> u16 \<Rightarrow> u16 \<Rightarrow> u16 \<Rightarrow> bool \<times> bytes ptr \<times> nat ptr" where
  "espdrop_awdl_build_echo_request frame capacity len self_mac target_mac ieee80211_sequence awdl_sequence
       identifier echo_sequence =
     (if frame = NULL \<or> len = NULL \<or> self_mac = NULL \<or> target_mac = NULL \<or>
         capacity < ESPDROP_AWDL_ECHO_FRAME_BYTES
      then (False, frame, len)
      else
        let source_ip = link_local (deref self_mac);
            target_ip = link_local (deref target_mac);
            checksum = icmpv6_checksum source_ip target_ip (echo_icmp identifier echo_sequence 0) ICMPV6_ECHO_BYTES;
            built = data_frame_header (deref target_mac) (deref self_mac) ieee80211_sequence awdl_sequence
                      (put_be16 ETHERTYPE_IPV6) @
                    ipv6_header ICMPV6_ECHO_BYTES 64 source_ip target_ip @
                    echo_icmp identifier echo_sequence checksum in
        (True, Ptr (store (deref frame) 0 built), Ptr ESPDROP_AWDL_ECHO_FRAME_BYTES))"

definition espdrop_awdl_build_ethernet_frame ::
  "bytes ptr \<Rightarrow> nat \<Rightarrow> nat ptr \<Rightarrow> bytes ptr \<Rightarrow> mac ptr \<Rightarrow> u16 \<Rightarrow> u16 \<Rightarrow> bool \<times> bytes ptr \<times> nat ptr" where
  "espdrop_awdl_build_ethernet_frame frame capacity len ethernet self_mac ieee80211_sequence awdl_sequence =
     (if frame = NULL \<or> len = NULL \<or> ethernet = NULL \<or> self_mac = NULL \<or>
         length (deref ethernet) < ESPDROP_ETHERNET_HEADER_BYTES
      then (False, frame, len)
      else
        let eth = deref ethernet;
            payload_length = length eth - ESPDROP_ETHERNET_HEADER_BYTES;
            frame_length = ESPDROP_AWDL_DATA_FRAME_OVERHEAD + payload_length in
        if capacity < frame_length \<or> frame_length > UINT16_MAX then (False, frame, len)
        else
          let built = data_frame_header (take 6 eth) (deref self_mac) ieee80211_sequence awdl_sequence
                        (take 2 (drop 12 eth)) @ drop ESPDROP_ETHERNET_HEADER_BYTES eth in
          (True, Ptr (store (deref frame) 0 built), Ptr frame_length))"

section \<open>Decoding\<close>

definition decode_msdu :: "bytes \<Rightarrow> awdl_data \<Rightarrow> (decode_result \<times> awdl_data) option" where
  "decode_msdu msdu data =
     (if length msdu < LLC_HEADER_BYTES + AWDL_DATA_HEADER_BYTES then Some (DECODE_TOO_SHORT, data)
      else do {
        llc \<leftarrow> rds msdu 0 8;
        if llc \<noteq> llc_header then Some (DECODE_LLC, data)
        else do {
          let awdl = drop LLC_HEADER_BYTES msdu;
          a0 \<leftarrow> rd awdl 0;
          a1 \<leftarrow> rd awdl 1;
          a4 \<leftarrow> rd awdl 4;
          a5 \<leftarrow> rd awdl 5;
          if a0 \<noteq> 0x03 \<or> a1 \<noteq> 0x04 \<or> a4 \<noteq> 0 \<or> a5 \<noteq> 0 then Some (DECODE_HEADER, data)
          else do {
            sequence \<leftarrow> read_le16 awdl 2;
            ethertype \<leftarrow> read_be16 awdl 6;
            Some (DECODE_OK, data\<lparr>
              da_sequence := sequence,
              da_ethertype := ethertype,
              da_payload := Ptr (drop AWDL_DATA_HEADER_BYTES awdl),
              da_payload_length := length msdu - LLC_HEADER_BYTES - AWDL_DATA_HEADER_BYTES\<rparr>)
          }
        }
      })"

definition espdrop_awdl_decode_data_ex ::
  "bytes ptr \<Rightarrow> awdl_data ptr \<Rightarrow> (decode_result \<times> awdl_data ptr) option" where
  "espdrop_awdl_decode_data_ex frame data =
     (let f = deref frame in
      if frame = NULL \<or> data = NULL then Some (DECODE_INVALID_ARGUMENT, data)
      else if length f < IEEE80211_HEADER_BYTES then Some (DECODE_TOO_SHORT, data)
      else do {
        f0 \<leftarrow> rd f 0;
        f1 \<leftarrow> rd f 1;
        bssid \<leftarrow> rds f 16 6;
        if f0 AND 0x0c \<noteq> 0x08 then Some (DECODE_NOT_DATA, data)
        else if f1 AND 0x03 \<noteq> 0 then Some (DECODE_DISTRIBUTION_SYSTEM, data)
        else if bssid \<noteq> awdl_bssid then Some (DECODE_BSSID, data)
        else
          let subtype = f0 AND 0xf0 in
          if subtype \<noteq> 0x00 \<and> subtype \<noteq> 0x80 then Some (DECODE_SUBTYPE, data)
          else
            let d1 = awdl_data_zero\<lparr>da_qos := (subtype = 0x80)\<rparr> in
            if da_qos d1 \<and> length f < IEEE80211_HEADER_BYTES + IEEE80211_QOS_BYTES
            then Some (DECODE_QOS_TOO_SHORT, Ptr d1)
            else do {
              qos0 \<leftarrow> (if da_qos d1 then rd f IEEE80211_HEADER_BYTES else Some 0);
              let d2 = d1\<lparr>da_amsdu := (qos0 AND 0x80 \<noteq> 0)\<rparr>;
              let offset = (if da_qos d2 then IEEE80211_HEADER_BYTES + IEEE80211_QOS_BYTES
                            else IEEE80211_HEADER_BYTES);
              if da_amsdu d2 then
                if length f < offset + AMSDU_SUBFRAME_HEADER_BYTES then Some (DECODE_AMSDU_TOO_SHORT, Ptr d2)
                else do {
                  msdu_length \<leftarrow> read_be16 f (offset + 12);
                  if unat msdu_length > length f - offset - AMSDU_SUBFRAME_HEADER_BYTES
                  then Some (DECODE_AMSDU_LENGTH, Ptr d2)
                  else do {
                    destination \<leftarrow> rds f offset 6;
                    source \<leftarrow> rds f (offset + 6) 6;
                    msdu \<leftarrow> rds f (offset + AMSDU_SUBFRAME_HEADER_BYTES) (unat msdu_length);
                    (r, d) \<leftarrow> decode_msdu msdu (d2\<lparr>da_destination := destination, da_source := source\<rparr>);
                    Some (r, Ptr d)
                  }
                }
              else do {
                destination \<leftarrow> rds f 4 6;
                source \<leftarrow> rds f 10 6;
                (r, d) \<leftarrow> decode_msdu (drop offset f) (d2\<lparr>da_destination := destination, da_source := source\<rparr>);
                Some (r, Ptr d)
              }
            }
      })"

definition espdrop_awdl_decode_data :: "bytes ptr \<Rightarrow> awdl_data ptr \<Rightarrow> (bool \<times> awdl_data ptr) option" where
  "espdrop_awdl_decode_data frame data = do {
     (r, d) \<leftarrow> espdrop_awdl_decode_data_ex frame data;
     Some (r = DECODE_OK, d) }"

text \<open>
  The A-MSDU loop. The result is the count the function returns, the status, and the
  items written so far (a failing call returns count zero but has written them).
\<close>

function decode_subframes ::
  "bytes \<Rightarrow> nat \<Rightarrow> nat \<Rightarrow> awdl_data list \<Rightarrow> (nat \<times> decode_result \<times> awdl_data list) option" where
  "decode_subframes frame capacity cursor items =
     (if cursor < length frame then
        if length frame - cursor < AMSDU_SUBFRAME_HEADER_BYTES then Some (0, DECODE_AMSDU_TOO_SHORT, items)
        else if length items \<ge> capacity then Some (0, DECODE_AMSDU_CAPACITY, items)
        else do {
          msdu_length \<leftarrow> read_be16 frame (cursor + 12);
          if unat msdu_length > length frame - cursor - AMSDU_SUBFRAME_HEADER_BYTES
          then Some (0, DECODE_AMSDU_LENGTH, items)
          else do {
            destination \<leftarrow> rds frame cursor 6;
            source \<leftarrow> rds frame (cursor + 6) 6;
            msdu \<leftarrow> rds frame (cursor + AMSDU_SUBFRAME_HEADER_BYTES) (unat msdu_length);
            (r, item) \<leftarrow> decode_msdu msdu (awdl_data_zero\<lparr>da_qos := True, da_amsdu := True,
                            da_destination := destination, da_source := source\<rparr>);
            if r \<noteq> DECODE_OK then Some (0, r, items @ [item])
            else
              let cursor1 = cursor + AMSDU_SUBFRAME_HEADER_BYTES + unat msdu_length in
              if cursor1 < length frame then
                let padding = (4 - (AMSDU_SUBFRAME_HEADER_BYTES + unat msdu_length) mod 4) mod 4 in
                if padding > length frame - cursor1 then Some (0, DECODE_AMSDU_TOO_SHORT, items @ [item])
                else decode_subframes frame capacity (cursor1 + padding) (items @ [item])
              else decode_subframes frame capacity cursor1 (items @ [item])
          }
        }
      else Some (length items, DECODE_OK, items))"
  by pat_completeness auto
termination
  by (relation "measure (\<lambda>(frame, cap, cursor, items). length frame - cursor)")
    (auto simp: AMSDU_SUBFRAME_HEADER_BYTES_def intro!: diff_less_mono2)

declare decode_subframes.simps [simp del]

definition espdrop_awdl_decode_data_frames ::
  "bytes ptr \<Rightarrow> awdl_data list ptr \<Rightarrow> nat \<Rightarrow> decode_result ptr \<Rightarrow>
     (nat \<times> awdl_data list \<times> decode_result ptr) option" where
  "espdrop_awdl_decode_data_frames frame data capacity result =
     (if result = NULL then Some (0, [], NULL)
      else if frame = NULL \<or> data = NULL \<or> capacity = 0 then Some (0, [], Ptr DECODE_INVALID_ARGUMENT)
      else do {
        (r, first) \<leftarrow> espdrop_awdl_decode_data_ex frame (Ptr awdl_data_zero);
        if r \<noteq> DECODE_OK then Some (0, [], Ptr r)
        else if \<not> da_amsdu (deref first) then Some (1, [deref first], Ptr DECODE_OK)
        else do {
          (count, r2, items) \<leftarrow> decode_subframes (deref frame) capacity (IEEE80211_HEADER_BYTES + IEEE80211_QOS_BYTES) [];
          Some (count, items, Ptr r2)
        }
      })"

definition espdrop_awdl_decode_ipv6 ::
  "awdl_data ptr \<Rightarrow> awdl_ipv6 ptr \<Rightarrow> (bool \<times> awdl_ipv6 ptr) option" where
  "espdrop_awdl_decode_ipv6 data ipv6 =
     (let d = deref data; payload = deref (da_payload d) in
      if data = NULL \<or> ipv6 = NULL \<or> da_ethertype d \<noteq> ETHERTYPE_IPV6 \<or> da_payload d = NULL \<or>
         da_payload_length d < IPV6_HEADER_BYTES
      then Some (False, ipv6)
      else do {
        p0 \<leftarrow> rd payload 0;
        if drop_bit 4 p0 \<noteq> 6 then Some (False, ipv6)
        else do {
          payload_length \<leftarrow> read_be16 payload 4;
          if unat payload_length > da_payload_length d - IPV6_HEADER_BYTES then Some (False, ipv6)
          else do {
            next_header \<leftarrow> rd payload 6;
            hop_limit \<leftarrow> rd payload 7;
            source \<leftarrow> rds payload 8 16;
            destination \<leftarrow> rds payload 24 16;
            let v = awdl_ipv6_zero\<lparr>v6_next_header := next_header, v6_hop_limit := hop_limit,
                      v6_source := source, v6_destination := destination\<rparr>;
            if next_header = 58 \<and> payload_length \<ge> 4 then do {
              icmp0 \<leftarrow> rd payload (IPV6_HEADER_BYTES + 0);
              icmp1 \<leftarrow> rd payload (IPV6_HEADER_BYTES + 1);
              Some (True, Ptr (v\<lparr>v6_icmp_type := icmp0, v6_icmp_code := icmp1,
                v6_icmp_payload := Ptr (drop (IPV6_HEADER_BYTES + 4) payload),
                v6_icmp_payload_length := unat payload_length - 4\<rparr>))
            }
            else Some (True, Ptr v)
          }
        }
      })"

definition espdrop_awdl_decode_tcp ::
  "awdl_data ptr \<Rightarrow> awdl_tcp ptr \<Rightarrow> (bool \<times> awdl_tcp ptr) option" where
  "espdrop_awdl_decode_tcp data tcp =
     (if tcp = NULL then Some (False, tcp)
      else do {
        (ok, v6) \<leftarrow> espdrop_awdl_decode_ipv6 data (Ptr awdl_ipv6_zero);
        if \<not> ok \<or> v6_next_header (deref v6) \<noteq> 6 then Some (False, tcp)
        else do {
          let payload = deref (da_payload (deref data));
          ipv6_payload_length \<leftarrow> read_be16 payload 4;
          if ipv6_payload_length < 20 then Some (False, tcp)
          else do {
            let segment = drop IPV6_HEADER_BYTES payload;
            s12 \<leftarrow> rd segment 12;
            let header_length = drop_bit 4 s12 * 4;
            if header_length < 20 \<or> unat header_length > unat ipv6_payload_length then Some (False, tcp)
            else do {
              source_port \<leftarrow> read_be16 segment 0;
              destination_port \<leftarrow> read_be16 segment 2;
              sequence \<leftarrow> read_be32 segment 4;
              acknowledgment \<leftarrow> read_be32 segment 8;
              flags \<leftarrow> rd segment 13;
              window \<leftarrow> read_be16 segment 14;
              body \<leftarrow> rds segment 0 (unat ipv6_payload_length);
              let sum1 = checksum_add 0 (v6_source (deref v6));
              let sum2 = checksum_add sum1 (v6_destination (deref v6));
              let sum3 = checksum_add sum2 [0, 0, ucast (drop_bit 8 ipv6_payload_length), ucast ipv6_payload_length, 0, 0, 0, 6];
              let sum4 = checksum_add sum3 body;
              Some (True, Ptr \<lparr>tcp_source_port = source_port, tcp_destination_port = destination_port,
                tcp_sequence = sequence, tcp_acknowledgment = acknowledgment, tcp_window = window,
                tcp_payload_length = ipv6_payload_length - ucast header_length, tcp_flags = flags,
                tcp_header_length = header_length, tcp_checksum_valid = (checksum_finish sum4 = 0)\<rparr>)
            }
          }
        }
      })"

definition espdrop_awdl_data_to_ethernet ::
  "awdl_data ptr \<Rightarrow> bytes ptr \<Rightarrow> nat \<Rightarrow> nat ptr \<Rightarrow> (bool \<times> bytes ptr \<times> nat ptr) option" where
  "espdrop_awdl_data_to_ethernet data ethernet capacity len =
     (let d = deref data in
      if data = NULL \<or> ethernet = NULL \<or> len = NULL \<or> da_payload d = NULL \<or>
         da_payload_length d > SIZE_MAX - ESPDROP_ETHERNET_HEADER_BYTES
      then Some (False, ethernet, len)
      else
        let ethernet_length = ESPDROP_ETHERNET_HEADER_BYTES + da_payload_length d in
        if capacity < ethernet_length then Some (False, ethernet, len)
        else do {
          payload \<leftarrow> rds (deref (da_payload d)) 0 (da_payload_length d);
          Some (True,
            Ptr (store (deref ethernet) 0 (da_destination d @ da_source d @ put_be16 (da_ethertype d) @ payload)),
            Ptr ethernet_length)
        })"

section \<open>The checksum in numbers\<close>

fun word_sum :: "bytes \<Rightarrow> nat" where
  "word_sum (a # b # data) = unat a * 256 + unat b + word_sum data"
| "word_sum [a] = unat a * 256"
| "word_sum [] = 0"

lemma unat_byte_le: "unat (b :: byte) \<le> 255"
  using unat_bound [of b] by simp

lemma word_sum_bound: "word_sum xs \<le> 65535 * length xs"
proof (induction xs rule: word_sum.induct)
  case (1 a b data)
  then show ?case using unat_byte_le [of a] unat_byte_le [of b] by simp
next
  case (2 a)
  then show ?case using unat_byte_le [of a] by simp
qed simp

lemma word_sum_append: "even (length xs) \<Longrightarrow> word_sum (xs @ ys) = word_sum xs + word_sum ys"
  by (induction xs rule: word_sum.induct) auto

lemma unat_be_pair: "unat (push_bit 8 (ucast (a :: byte)) OR ucast (b :: byte) :: u16) = unat a * 256 + unat b"
proof -
  have "(push_bit 8 (ucast a) OR ucast b :: u16) = push_bit 8 (ucast a) + ucast b"
    by (rule disjunctive_add [symmetric]) (auto simp: bit_simps dest: bit_imp_le_length)
  also have "\<dots> = of_nat (unat a * 256 + unat b)" by (simp add: push_bit_eq_mult)
  also have "unat \<dots> = unat a * 256 + unat b"
    using unat_byte_le [of a] unat_byte_le [of b] by (simp add: unat_of_nat del: of_nat_add of_nat_mult)
  finally show ?thesis .
qed

lemma word_sum_put_be16: "word_sum (put_be16 v) = unat v"
proof -
  have "unat v = unat (push_bit 8 (ucast (ucast (drop_bit 8 v) :: byte)) OR ucast (ucast v :: byte) :: u16)"
    by (simp only: be16_join)
  also have "\<dots> = unat (ucast (drop_bit 8 v) :: byte) * 256 + unat (ucast v :: byte)" by (rule unat_be_pair)
  finally show ?thesis by (simp add: put_be16_def)
qed

lemma unat_checksum_add:
  "unat acc + word_sum xs < 2 ^ 32 \<Longrightarrow> unat (checksum_add acc xs) = unat acc + word_sum xs"
proof (induction acc xs rule: checksum_add.induct)
  case (1 acc a b data)
  let ?w = "ucast (push_bit 8 (ucast a) OR ucast b :: u16) :: u32"
  have w: "unat ?w = unat a * 256 + unat b" unfolding unat_ucast_u16_u32 by (rule unat_be_pair)
  have "unat (acc + ?w) = unat acc + (unat a * 256 + unat b)"
    using "1.prems" by (simp add: unat_word_ariths w)
  with "1.IH" "1.prems" show ?case by simp
next
  case (2 acc a)
  have "unat (push_bit 8 (ucast a) :: u32) = unat a * 256"
  proof -
    have "(push_bit 8 (ucast a) :: u32) = of_nat (unat a * 256)" by (simp add: push_bit_eq_mult)
    then show ?thesis using unat_byte_le [of a] by (simp add: unat_of_nat del: of_nat_mult)
  qed
  with "2.prems" show ?case by (simp add: unat_word_ariths)
qed simp

lemma fold_carries_props:
  "unat (fold_carries w) \<le> 65535 \<and> unat (fold_carries w) mod 65535 = unat w mod 65535 \<and>
   (fold_carries w = 0 \<longleftrightarrow> w = 0)"
proof (induction w rule: fold_carries.induct)
  case (1 w)
  note lo = unat_low16 [of w] and hi = unat_high16 [of w]
  show ?case
  proof (cases "drop_bit 16 w = 0")
    case True
    then have "unat w div 65536 = 0" using hi by simp
    then have "unat w \<le> 65535" by simp
    then show ?thesis using True by (simp add: fold_carries.simps [of w])
  next
    case False
    let ?v = "(w AND 0xffff) + drop_bit 16 w"
    have v: "unat ?v = unat w mod 65536 + unat w div 65536"
      using lo hi unat_bound [of w] by (simp add: unat_word_ariths)
    have "unat w = 65536 * (unat w div 65536) + unat w mod 65536" by simp
    then have "unat w = unat ?v + 65535 * (unat w div 65536)" unfolding v by linarith
    then have cong: "unat ?v mod 65535 = unat w mod 65535" by (metis mod_mult_self2)
    have "0 < unat (drop_bit 16 w)" using False by (simp only: unat_gt_0) simp
    then have "unat ?v \<noteq> 0" "unat w \<noteq> 0" using v hi by auto
    then have "?v \<noteq> 0" "w \<noteq> 0" by (metis unsigned_0, metis unsigned_0)
    then show ?thesis using "1.IH" [OF False] cong False by (simp add: fold_carries.simps [of w])
  qed
qed

lemma unat_checksum_finish: "unat (checksum_finish w) = 65535 - unat (fold_carries w)"
proof -
  have le: "unat (fold_carries w) \<le> 65535" using fold_carries_props by blast
  have "checksum_finish w = NOT (ucast (fold_carries w) :: u16)"
    unfolding checksum_finish_def by (rule bit_word_eqI) (simp add: bit_simps)
  also have "\<dots> = - 1 - ucast (fold_carries w)" by (simp add: not_eq_complement)
  finally have "unat (checksum_finish w) = unat (- 1 :: u16) - unat (ucast (fold_carries w) :: u16)"
    by (simp add: unat_sub)
  moreover have "unat (ucast (fold_carries w) :: u16) = unat (fold_carries w)"
    using le by (simp add: unsigned_ucast_eq take_bit_nat_eq_self)
  ultimately show ?thesis by (simp add: unsigned_minus_1_eq_mask mask_eq_exp_minus_1)
qed

text \<open>Adding the complement of a sum to it makes the sum verify.\<close>

lemma checksum_verifies:
  assumes "unat w \<noteq> 0" and "unat v = unat w + unat (checksum_finish w)"
  shows "checksum_finish v = 0"
proof -
  note fw = fold_carries_props [of w] and fv = fold_carries_props [of v]
  have v: "unat v + unat (fold_carries w) = unat w + 65535"
    using assms(2) fw by (simp add: unat_checksum_finish)
  have "int (unat (fold_carries w) mod 65535) = int (unat w mod 65535)" using fw by (simp only:)
  then have "int (unat w) mod 65535 = int (unat (fold_carries w)) mod 65535" by (simp only: of_nat_mod of_nat_numeral)
  then have "(int (unat w) - int (unat (fold_carries w))) mod 65535 = 0"
    by (simp add: mod_eq_dvd_iff)
  moreover have "int (unat v) = int (unat w) - int (unat (fold_carries w)) + 65535" using v by linarith
  ultimately have "int (unat v) mod 65535 = 0" by simp
  then have "int (unat v mod 65535) = int 0" by (simp only: of_nat_mod of_nat_numeral of_nat_0)
  then have v0: "unat v mod 65535 = 0" by (simp only: of_nat_eq_iff)
  have "unat v \<noteq> 0" using assms by linarith
  then have "v \<noteq> 0" by (metis unsigned_0)
  then have "fold_carries v \<noteq> 0" using fv by blast
  then have "0 < unat (fold_carries v)" by (simp only: unat_gt_0) simp
  moreover have "unat (fold_carries v) mod 65535 = 0" "unat (fold_carries v) \<le> 65535" using fv v0 by auto
  ultimately have "unat (fold_carries v) = 65535"
    by (metis le_neq_implies_less mod_less less_irrefl)
  then have "unat (checksum_finish v) = 0" by (simp add: unat_checksum_finish)
  then show ?thesis by (metis unat_gt_0 less_irrefl word_gt_0)
qed

section \<open>Decoding never leaves the frame\<close>

text \<open>What a decoded frame promises to the code that reads its payload.\<close>

definition wf_data :: "awdl_data \<Rightarrow> bool" where
  "wf_data d \<longleftrightarrow> length (da_destination d) = 6 \<and> length (da_source d) = 6 \<and>
     (\<exists>p. da_payload d = Ptr p \<and> length p = da_payload_length d)"

lemma decode_msdu_ok:
  assumes "length (da_destination d) = 6" "length (da_source d) = 6"
  shows "returns (decode_msdu msdu d) (\<lambda>(r, d'). (r = DECODE_OK \<longrightarrow> wf_data d'))"
  unfolding decode_msdu_def data_consts
  by (intro ok_intros) (auto simp: wf_data_def assms)

lemma decode_data_ex_ok:
  "returns (espdrop_awdl_decode_data_ex frame data) (\<lambda>(r, d'). r = DECODE_OK \<longrightarrow> (\<exists>d. d' = Ptr d \<and> wf_data d))"
  unfolding espdrop_awdl_decode_data_ex_def data_consts
  by (intro ok_intros ok_bind [OF decode_msdu_ok] ok_bind [of "if _ then _ else _" "\<lambda>_. True"]) 
     (auto split: if_splits)

lemma decode_subframes_ok:
  assumes "length items \<le> capacity" "list_all wf_data items"
  shows "returns (decode_subframes frame capacity cursor items) (\<lambda>(n, r, items').
     length items' \<le> capacity \<and> n \<le> length items' \<and> list_all wf_data (take n items') \<and> (r \<noteq> DECODE_OK \<longrightarrow> n = 0))"
  using assms
proof (induction "length frame - cursor" arbitrary: cursor items rule: less_induct)
  case less
  show ?case
    apply (subst decode_subframes.simps)
    unfolding AMSDU_SUBFRAME_HEADER_BYTES_def
    apply (intro ok_intros ok_bind [OF decode_msdu_ok])
                     apply (use less.prems in \<open>simp_all del: length_greater_0_conv\<close>)
     apply (rule less.hyps; auto intro!: diff_less_mono2)
    apply (rule less.hyps; auto intro!: diff_less_mono2)
    done
qed

lemma decode_data_frames_ok:
  "returns (espdrop_awdl_decode_data_frames frame data capacity result) (\<lambda>(n, items, r).
     length items \<le> capacity \<and> n \<le> length items \<and> list_all wf_data (take n items) \<and>
     (r \<noteq> Ptr DECODE_OK \<longrightarrow> n = 0))"
  unfolding espdrop_awdl_decode_data_frames_def
  by (intro ok_intros ok_bind [OF decode_data_ex_ok] ok_bind [OF decode_subframes_ok]) auto

lemma decode_ipv6_ok:
  assumes "wf_data d"
  shows "returns (espdrop_awdl_decode_ipv6 (Ptr d) v) (\<lambda>(ok, v'). ok \<longrightarrow> (\<exists>w n. v' = Ptr w \<and> 
    length (v6_source w) = 16 \<and> length (v6_destination w) = 16 \<and>
    read_be16 (deref (da_payload d)) 4 = Some n \<and> unat n + 40 \<le> da_payload_length d \<and>
    (v6_icmp_payload w \<noteq> NULL \<longrightarrow> v6_icmp_payload_length w \<le> length (deref (v6_icmp_payload w)))))"
  using assms unfolding espdrop_awdl_decode_ipv6_def data_consts wf_data_def Let_def
  by (intro ok_intros) (auto simp: awdl_ipv6_zero_def word_le_nat_alt)

lemma unat_minus_byte: "unat (h :: byte) \<le> unat v \<Longrightarrow> unat (v - ucast h :: u16) = unat v - unat h"
  by (simp add: unat_sub word_le_nat_alt unat_ucast_byte_u16)

lemma decode_tcp_ok:
  assumes "wf_data d"
  shows "returns (espdrop_awdl_decode_tcp (Ptr d) t) (\<lambda>(ok, t'). ok \<longrightarrow> (\<exists>w. t' = Ptr w \<and>
     20 \<le> unat (tcp_header_length w) \<and>
     40 + unat (tcp_header_length w) + unat (tcp_payload_length w) \<le> da_payload_length d))"
  using assms unfolding espdrop_awdl_decode_tcp_def data_consts 
  by (intro ok_intros ok_bind [OF decode_ipv6_ok])
    (auto simp: wf_data_def word_less_nat_alt unat_minus_byte not_less)

lemma data_to_ethernet_ok:
  assumes "wf_data d"
  shows "returns (espdrop_awdl_data_to_ethernet (Ptr d) e c l) (\<lambda>_. True)"
  using assms unfolding espdrop_awdl_data_to_ethernet_def wf_data_def Let_def
  by (intro ok_intros) auto

text \<open>
  C22. Whatever bytes the radio delivers, deaggregating and decoding them returns, without a
  read outside the frame; it writes at most \<open>capacity\<close> items, reports none unless the status
  is OK, and every reported item can be handed to the IPv6, TCP and Ethernet decoders,
  which then stay inside its payload too.
\<close>

theorem decode_received_frame_safe:
  "\<exists>n items r. espdrop_awdl_decode_data_frames frame data capacity result = Some (n, items, r) \<and>
     n \<le> length items \<and> length items \<le> capacity \<and> (r = Ptr DECODE_OK \<or> n = 0) \<and>
     list_all (\<lambda>d. espdrop_awdl_decode_ipv6 (Ptr d) v \<noteq> None \<and> espdrop_awdl_decode_tcp (Ptr d) t \<noteq> None \<and>
       espdrop_awdl_data_to_ethernet (Ptr d) e c l \<noteq> None) (take n items)"
proof -
  obtain n items r where "espdrop_awdl_decode_data_frames frame data capacity result = Some (n, items, r)"
    "n \<le> length items" "length items \<le> capacity" "r = Ptr DECODE_OK \<or> n = 0" and wf: "list_all wf_data (take n items)"
    using decode_data_frames_ok [of frame data capacity result] by (auto simp: returns_def)
  moreover have "list_all (\<lambda>d. espdrop_awdl_decode_ipv6 (Ptr d) v \<noteq> None \<and> espdrop_awdl_decode_tcp (Ptr d) t \<noteq> None \<and>
       espdrop_awdl_data_to_ethernet (Ptr d) e c l \<noteq> None) (take n items)"
    using wf by (rule list.pred_mono_strong)
      (intro conjI okD [OF decode_ipv6_ok] okD [OF decode_tcp_ok] okD [OF data_to_ethernet_ok])
  ultimately show ?thesis by blast
qed

section \<open>Round trips\<close>

lemma length_data_frame_header:
  "length dst = 6 \<Longrightarrow> length src = 6 \<Longrightarrow> length et = 2 \<Longrightarrow> length (data_frame_header dst src s a et) = 40"
  by (simp add: data_frame_header_def llc_header_def)

lemma decode_msdu_wire:
  "decode_msdu (llc_header @ [0x03, 0x04] @ put_le16 s @ [0, 0] @ put_be16 et @ payload) d =
     Some (DECODE_OK, d\<lparr>da_sequence := s, da_ethertype := et, da_payload := Ptr payload, da_payload_length := length payload\<rparr>)"
proof -
  have l: "length llc_header = 8" by (simp add: llc_header_def)
  then have d: "drop 8 (llc_header @ x) = x" for x by simp
  show ?thesis by (simp add: decode_msdu_def data_consts wire_simps l d)
qed

lemma decode_data_wire:
  assumes "length dst = 6" "length src = 6"
  shows "espdrop_awdl_decode_data_ex (Ptr (data_frame_header dst src s a (put_be16 et) @ payload)) (Ptr d) =
     Some (DECODE_OK, Ptr (awdl_data_zero\<lparr>da_destination := dst, da_source := src, da_sequence := a,
        da_ethertype := et, da_payload := Ptr payload, da_payload_length := length payload\<rparr>))"
proof -
  let ?m = "llc_header @ [0x03, 0x04] @ put_le16 a @ [0, 0] @ put_be16 et @ payload"
  let ?h = "[0x08, 0, 0, 0] @ dst @ src @ awdl_bssid @ put_le16 (push_bit 4 (s AND 0x0fff))"
  define f where "f = ?h @ ?m"
  have f: "data_frame_header dst src s a (put_be16 et) @ payload = f" by (simp add: data_frame_header_def f_def)
  have reads: "rd f 0 = Some 8" "rd f 1 = Some 0" "rds f 16 6 = Some awdl_bssid" "rds f 4 6 = Some dst"
    "rds f 10 6 = Some src" "drop 24 f = ?m" "\<not> length f < 24"
    using assms by (simp_all add: wire_simps f_def)
  have "espdrop_awdl_decode_data_ex (Ptr f) (Ptr d) =
    decode_msdu ?m (awdl_data_zero\<lparr>da_destination := dst, da_source := src\<rparr>) \<bind> (\<lambda>(r, d). Some (r, Ptr d))"
    using reads by (simp add: espdrop_awdl_decode_data_ex_def data_consts awdl_data_zero_def)
  then show ?thesis unfolding f decode_msdu_wire by (simp add: awdl_data_zero_def)
qed

lemma store_prefix: "length xs = n \<Longrightarrow> take n (store buf 0 xs) = xs"
  by (simp add: store_def)

text \<open>
  C24. An Ethernet frame tunnelled over AWDL comes out again: for every frame that fits the
  output buffer and the 16-bit radio length, building succeeds, and the receiver decodes
  exactly the sequence number and an Ethernet frame with our station as its source and every
  other byte unchanged.
\<close>

theorem ethernet_tunnel_roundtrip:
  assumes "length self = 6" and "14 \<le> length eth" and "length eth + 26 \<le> capacity" and "length eth + 26 \<le> UINT16_MAX"
    and "capacity \<le> length buf" and "length eth \<le> length out"
  shows "\<exists>frame n d. espdrop_awdl_build_ethernet_frame (Ptr buf) capacity (Ptr l) (Ptr eth) (Ptr self) s a =
             (True, Ptr frame, Ptr n) \<and>
           n = length eth + 26 \<and> length frame = length buf \<and> drop n frame = drop n buf \<and>
           espdrop_awdl_decode_data (Ptr (take n frame)) (Ptr d0) = Some (True, Ptr d) \<and> da_sequence d = a \<and>
           espdrop_awdl_data_to_ethernet (Ptr d) (Ptr out) (length out) (Ptr k) =
             Some (True, Ptr (store out 0 (take 6 eth @ self @ drop 12 eth)), Ptr (length eth))"
proof -
  obtain et where et: "read_be16 eth 12 = Some et" using be16.dec_defined [of 12 eth] assms(2) by auto
  then have t: "take 2 (drop 12 eth) = put_be16 et" by (simp add: be16.enc_dec)
  let ?b = "data_frame_header (take 6 eth) self s a (put_be16 et) @ drop 14 eth"
  let ?d = "awdl_data_zero\<lparr>da_destination := take 6 eth, da_source := self, da_sequence := a,
        da_ethertype := et, da_payload := Ptr (drop 14 eth), da_payload_length := length (drop 14 eth)\<rparr>"
  have len: "length ?b = length eth + 26"
    using assms(1,2) by (simp add: length_data_frame_header)
  have "espdrop_awdl_build_ethernet_frame (Ptr buf) capacity (Ptr l) (Ptr eth) (Ptr self) s a =
      (True, Ptr (store buf 0 ?b), Ptr (length eth + 26))"
    using assms by (simp add: espdrop_awdl_build_ethernet_frame_def Let_def data_consts t)
  moreover have "length (store buf 0 ?b) = length buf" using len assms(3,5) by simp
  moreover have "drop (length eth + 26) (store buf 0 ?b) = drop (length eth + 26) buf"
    using len by (simp add: store_def)
  moreover have "espdrop_awdl_decode_data (Ptr (take (length eth + 26) (store buf 0 ?b))) (Ptr d0) = Some (True, Ptr ?d)"
    unfolding store_prefix [OF len] espdrop_awdl_decode_data_def
    using assms(1,2) by (subst decode_data_wire) simp_all
  moreover have "take 2 (drop 12 eth) @ drop 14 eth = drop 12 eth"
    using append_take_drop_id [of 2 "drop 12 eth"] by simp
  then have "espdrop_awdl_data_to_ethernet (Ptr ?d) (Ptr out) (length out) (Ptr k) =
      Some (True, Ptr (store out 0 (take 6 eth @ self @ drop 12 eth)), Ptr (length eth))"
    using assms(2,4,6)
    by (simp add: espdrop_awdl_data_to_ethernet_def Let_def ESPDROP_ETHERNET_HEADER_BYTES_def t rds_def SIZE_MAX_def UINT16_MAX_def)
  ultimately show ?thesis by (intro exI [of _ "store buf 0 ?b"] exI [of _ ?d]) simp
qed

section \<open>ICMPv6\<close>

lemma word_sum_bound2: "2 * word_sum xs \<le> 65535 * (length xs + 1)"
proof (induction xs rule: word_sum.induct)
  case (1 a b data)
  then show ?case using unat_byte_le [of a] unat_byte_le [of b] by simp
next
  case (2 a)
  then show ?case using unat_byte_le [of a] by simp
qed simp

lemma unat_icmpv6_sum:
  assumes "length src = 16" "length dst = 16" "length icmp = unat len"
  shows "icmpv6_checksum src dst icmp len = checksum_finish (of_nat (word_sum src + word_sum dst + unat len + 58 + word_sum icmp))"
proof -
  have b: "word_sum src \<le> 65535 * 16" "word_sum dst \<le> 65535 * 16" "2 * word_sum icmp \<le> 65535 * 65536" "unat len < 65536"
    using word_sum_bound [of src] word_sum_bound [of dst] word_sum_bound2 [of icmp] assms unat_bound [of len] by auto
  let ?p = "[0, 0, ucast (drop_bit 8 len), ucast len, 0, 0, 0, 58] :: bytes"
  have p: "word_sum ?p = unat len + 58" using word_sum_put_be16 [of len] by (simp add: put_be16_def)
  have 1: "unat (checksum_add 0 src) = word_sum src" using b by (subst unat_checksum_add) auto
  have 2: "unat (checksum_add (checksum_add 0 src) dst) = word_sum src + word_sum dst"
    using b 1 by (subst unat_checksum_add) auto
  have 3: "unat (checksum_add (checksum_add (checksum_add 0 src) dst) ?p) = word_sum src + word_sum dst + (unat len + 58)"
    using b 2 p by (subst unat_checksum_add) auto
  have 4: "unat (checksum_add (checksum_add (checksum_add (checksum_add 0 src) dst) ?p) icmp) =
      word_sum src + word_sum dst + (unat len + 58) + word_sum icmp"
    using b 3 by (subst unat_checksum_add) auto
  then have "checksum_add (checksum_add (checksum_add (checksum_add 0 src) dst) ?p) icmp =
      of_nat (word_sum src + word_sum dst + (unat len + 58) + word_sum icmp)"
    by (metis of_nat_unat ucast_id)
  then show ?thesis using assms(3) by (simp add: icmpv6_checksum_def Let_def add.assoc)
qed

text \<open>A message whose checksum field holds the checksum of the message with a zero field verifies.\<close>

lemma icmpv6_checksum_verifies:
  assumes "length src = 16" "length dst = 16" "even (length pre)" "length (pre @ put_be16 0 @ post) = unat len"
    and "c = icmpv6_checksum src dst (pre @ put_be16 0 @ post) len"
  shows "icmpv6_checksum src dst (pre @ put_be16 c @ post) len = 0"
proof -
  let ?N = "word_sum src + word_sum dst + unat len + 58 + word_sum (pre @ post)"
  have ws: "word_sum (pre @ put_be16 v @ post) = word_sum (pre @ post) + unat v" for v
    using assms(3) by (simp add: word_sum_append word_sum_put_be16)
  have b: "word_sum src \<le> 65535 * 16" "word_sum dst \<le> 65535 * 16" "2 * word_sum (pre @ post) \<le> 65535 * 65536" "unat len < 65536"
    using word_sum_bound [of src] word_sum_bound [of dst] word_sum_bound2 [of "pre @ post"] assms unat_bound [of len] by auto
  have c: "c = checksum_finish (of_nat ?N)" using assms by (simp add: unat_icmpv6_sum ws)
  have "icmpv6_checksum src dst (pre @ put_be16 c @ post) len = checksum_finish (of_nat (?N + unat c))"
    using assms(1,2,4) by (simp add: unat_icmpv6_sum ws add.assoc)
  also have "\<dots> = 0"
  proof (rule checksum_verifies)
    have "unat c < 65536" using unat_bound [of c] by simp
    then show "unat (of_nat (?N + unat c) :: u32) = unat (of_nat ?N :: u32) + unat (checksum_finish (of_nat ?N))"
      using b unfolding c [symmetric] by (simp add: unat_of_nat del: of_nat_add)
    show "unat (of_nat ?N :: u32) \<noteq> 0" using b by (simp add: unat_of_nat del: of_nat_add)
  qed
  finally show ?thesis .
qed

lemma length_link_local [simp]: "length (link_local m) = 16"
  by (simp add: link_local_def)

lemma decode_icmpv6_wire:
  assumes "length src = 16" "length dst = 16" "length msg = unat len" "4 \<le> unat len"
    and "da_ethertype d = ETHERTYPE_IPV6" "da_payload d = Ptr (ipv6_header len hop src dst @ msg)" "da_payload_length d = 40 + unat len"
  shows "espdrop_awdl_decode_ipv6 (Ptr d) (Ptr v) = Some (True, Ptr \<lparr>v6_source = src, v6_destination = dst,
     v6_next_header = 58, v6_hop_limit = hop, v6_icmp_type = msg ! 0, v6_icmp_code = msg ! 1,
     v6_icmp_payload = Ptr (drop 4 msg), v6_icmp_payload_length = unat len - 4\<rparr>)"
proof -
  define p where "p = ipv6_header len hop src dst @ msg"
  have l: "length (ipv6_header len hop src dst) = 40" using assms(1,2) by (simp add: ipv6_header_def)
  have reads: "rd p 0 = Some 0x60" "read_be16 p 4 = Some len" "rd p 6 = Some 58" "rd p 7 = Some hop"
    "rds p 8 16 = Some src" "rds p 24 16 = Some dst"
    using assms(1,2) by (simp_all add: p_def ipv6_header_def wire_simps)
  have icmp: "rd p 40 = Some (msg ! 0)" "rd p 41 = Some (msg ! 1)" "drop 44 p = drop 4 msg"
    using l assms(3,4) by (simp_all add: p_def rd_def nth_append)
  have six: "drop_bit 4 (0x60 :: byte) = 6" by (simp add: drop_bit_eq_div word_unat_eq_iff unat_div)
  show ?thesis
    using assms(4,5,7) by (simp add: espdrop_awdl_decode_ipv6_def Let_def assms(6) p_def [symmetric] reads icmp six
      IPV6_HEADER_BYTES_def awdl_ipv6_zero_def word_le_nat_alt)
qed

text \<open>
  C25. A neighbour solicitation that we build is a valid one on the wire: the receiver decodes
  it as an IPv6 packet with hop limit 255 from our link-local address to that of the target,
  as ICMPv6 type 135 for that target with our station as the source link-layer address, and
  the checksum over what it received verifies.
\<close>

theorem neighbor_solicitation_valid:
  assumes "length self = 6" and "length target = 6" and "ESPDROP_AWDL_NS_FRAME_BYTES \<le> capacity" and "capacity \<le> length buf"
  shows "\<exists>frame d v.
     espdrop_awdl_build_neighbor_solicitation (Ptr buf) capacity (Ptr l) (Ptr self) (Ptr target) s a =
       (True, Ptr frame, Ptr 112) \<and> length frame = length buf \<and>
     espdrop_awdl_decode_data (Ptr (take 112 frame)) (Ptr d0) = Some (True, Ptr d) \<and>
     da_destination d = target \<and> da_source d = self \<and> da_sequence d = a \<and>
     espdrop_awdl_decode_ipv6 (Ptr d) (Ptr v0) = Some (True, Ptr v) \<and>
     v6_source v = link_local self \<and> v6_destination v = link_local target \<and> v6_hop_limit v = 255 \<and>
     v6_icmp_type v = 135 \<and> v6_icmp_code v = 0 \<and>
     v6_icmp_payload v = Ptr ([0, 0, 0, 0] @ link_local target @ [1, 1] @ self) \<and>
     icmpv6_checksum (v6_source v) (v6_destination v) (drop 40 (deref (da_payload d))) 32 = 0"
proof -
  let ?src = "link_local self" and ?dst = "link_local target"
  define c where "c = icmpv6_checksum ?src ?dst (ns_icmp ?dst self 0) 32"
  define msg where "msg = ns_icmp ?dst self c"
  let ?p = "ipv6_header 32 255 ?src ?dst @ msg"
  define built where "built = data_frame_header target self s a (put_be16 ETHERTYPE_IPV6) @ ?p"
  define d where "d = awdl_data_zero\<lparr>da_destination := target, da_source := self, da_sequence := a,
        da_ethertype := ETHERTYPE_IPV6, da_payload := Ptr ?p, da_payload_length := length ?p\<rparr>"
  have lm: "length msg = 32" using assms by (simp add: msg_def ns_icmp_def)
  have lp: "length ?p = 72" using lm by (simp add: ipv6_header_def)
  have len: "length built = 112" using assms(1,2) lp by (simp add: built_def length_data_frame_header)
  have b: "espdrop_awdl_build_neighbor_solicitation (Ptr buf) capacity (Ptr l) (Ptr self) (Ptr target) s a =
       (True, Ptr (store buf 0 built), Ptr 112)"
    using assms(3) by (simp add: espdrop_awdl_build_neighbor_solicitation_def Let_def built_def msg_def c_def
      ESPDROP_AWDL_NS_FRAME_BYTES_def ICMPV6_NS_BYTES_def)
  have d: "espdrop_awdl_decode_data (Ptr (take 112 (store buf 0 built))) (Ptr d0) = Some (True, Ptr d)"
    unfolding store_prefix [OF len] espdrop_awdl_decode_data_def
    unfolding built_def d_def using assms(1,2) by (subst decode_data_wire) simp_all
  have v: "espdrop_awdl_decode_ipv6 (Ptr d) (Ptr v0) = Some (True, Ptr \<lparr>v6_source = ?src, v6_destination = ?dst,
     v6_next_header = 58, v6_hop_limit = 255, v6_icmp_type = msg ! 0, v6_icmp_code = msg ! 1,
     v6_icmp_payload = Ptr (drop 4 msg), v6_icmp_payload_length = unat (32 :: u16) - 4\<rparr>)"
    by (rule decode_icmpv6_wire) (use lm lp in \<open>simp_all add: d_def\<close>)
  have z: "icmpv6_checksum ?src ?dst msg 32 = 0"
    unfolding msg_def ns_icmp_def
    by (rule icmpv6_checksum_verifies) (use assms in \<open>simp_all add: c_def ns_icmp_def\<close>)
  have dr: "drop 40 (deref (da_payload d)) = msg"
    by (simp add: d_def ipv6_header_def)
  have m: "msg ! 0 = 135" "msg ! 1 = 0" "drop 4 msg = [0, 0, 0, 0] @ link_local target @ [1, 1] @ self"
    by (simp_all add: msg_def ns_icmp_def put_be16_def)
  show ?thesis
    using b d v z dr m len assms(3,4) by (auto simp: d_def ESPDROP_AWDL_NS_FRAME_BYTES_def)
qed

section \<open>Aggregated frames\<close>

text \<open>The format of an aggregate: every subframe but the last is padded to four bytes.\<close>

record subframe =
  sf_destination :: mac
  sf_source :: mac
  sf_sequence :: u16
  sf_ethertype :: u16
  sf_payload :: bytes

definition wf_subframe :: "subframe \<Rightarrow> bool" where
  "wf_subframe x \<longleftrightarrow> length (sf_destination x) = 6 \<and> length (sf_source x) = 6 \<and> 16 + length (sf_payload x) \<le> UINT16_MAX"

definition subframe_bytes :: "subframe \<Rightarrow> bytes" where
  "subframe_bytes x = sf_destination x @ sf_source x @ put_be16 (of_nat (16 + length (sf_payload x))) @
     llc_header @ [0x03, 0x04] @ put_le16 (sf_sequence x) @ [0, 0] @ put_be16 (sf_ethertype x) @ sf_payload x"

fun aggregate :: "subframe list \<Rightarrow> bytes" where
  "aggregate [] = []"
| "aggregate [x] = subframe_bytes x"
| "aggregate (x # xs) = subframe_bytes x @ replicate ((4 - length (subframe_bytes x) mod 4) mod 4) 0 @ aggregate xs"

definition subframe_data :: "subframe \<Rightarrow> awdl_data" where
  "subframe_data x = \<lparr>da_destination = sf_destination x, da_source = sf_source x, da_sequence = sf_sequence x,
     da_ethertype = sf_ethertype x, da_qos = True, da_amsdu = True, da_payload = Ptr (sf_payload x),
     da_payload_length = length (sf_payload x)\<rparr>"

lemma subframe_bytes_length: "wf_subframe x \<Longrightarrow> length (subframe_bytes x) = 30 + length (sf_payload x)"
  by (simp add: subframe_bytes_def wf_subframe_def llc_header_def)

lemma subframe_step:
  assumes wf: "wf_subframe x" and "length pre = cursor" and "length items < capacity"
  shows "decode_subframes (pre @ subframe_bytes x @ rest) capacity cursor items =
    (if rest = [] then decode_subframes (pre @ subframe_bytes x) capacity (cursor + length (subframe_bytes x)) (items @ [subframe_data x])
     else let padding = (4 - length (subframe_bytes x) mod 4) mod 4 in
       if padding > length rest then Some (0, DECODE_AMSDU_TOO_SHORT, items @ [subframe_data x])
       else decode_subframes (pre @ subframe_bytes x @ rest) capacity (cursor + length (subframe_bytes x) + padding) (items @ [subframe_data x]))"
proof -
  define f where "f = pre @ subframe_bytes x @ rest"
  define n where "n = (of_nat (16 + length (sf_payload x)) :: u16)"
  have n: "unat n = 16 + length (sf_payload x)"
    using wf by (simp add: n_def wf_subframe_def UINT16_MAX_def unat_of_nat del: of_nat_add)
  have sl: "length (subframe_bytes x) = 30 + length (sf_payload x)" using wf by (rule subframe_bytes_length)
  have fl: "length f = cursor + (30 + length (sf_payload x)) + length rest" using sl assms(2) by (simp add: f_def)
  let ?m = "llc_header @ [0x03, 0x04] @ put_le16 (sf_sequence x) @ [0, 0] @ put_be16 (sf_ethertype x) @ sf_payload x"
  have lm: "length ?m = 16 + length (sf_payload x)" by (simp add: llc_header_def)
  have fs: "f = pre @ sf_destination x @ sf_source x @ put_be16 n @ ?m @ rest"
    by (simp add: f_def subframe_bytes_def n_def)
  have wl: "length (sf_destination x) = 6" "length (sf_source x) = 6" using wf by (auto simp: wf_subframe_def)
  have reads: "read_be16 f (cursor + 12) = Some n" "rds f cursor 6 = Some (sf_destination x)"
    "rds f (cursor + 6) 6 = Some (sf_source x)"
    using assms(2) wl by (simp_all add: fs wire_simps)
  have rm: "rds f (cursor + 14) (16 + length (sf_payload x)) = Some ?m"
  proof -
    have "f = (pre @ sf_destination x @ sf_source x @ put_be16 n) @ (?m @ rest)" by (simp add: fs)
    then have "rds f (cursor + 14) (16 + length (sf_payload x)) = rds (?m @ rest) 0 (16 + length (sf_payload x))"
      using assms(2) wl by (simp only: rds_shift) (simp add: rds_shift)
    then show ?thesis using rds_head [OF lm] by (simp only:)
  qed
  have "decode_subframes f capacity cursor items =
     (let cursor1 = cursor + length (subframe_bytes x) in
      if cursor1 < length f then
        let padding = (4 - length (subframe_bytes x) mod 4) mod 4 in
        if padding > length f - cursor1 then Some (0, DECODE_AMSDU_TOO_SHORT, items @ [subframe_data x])
        else decode_subframes f capacity (cursor1 + padding) (items @ [subframe_data x])
      else decode_subframes f capacity cursor1 (items @ [subframe_data x]))"
    using assms(3)
    by (subst decode_subframes.simps)
      (simp add: AMSDU_SUBFRAME_HEADER_BYTES_def fl reads n rm decode_msdu_wire [simplified] sl subframe_data_def awdl_data_zero_def Let_def add.left_commute [of cursor 30])
  then show ?thesis using sl by (simp add: f_def Let_def assms(2))
qed

lemma decode_subframes_done:
  "length frame \<le> cursor \<Longrightarrow> decode_subframes frame capacity cursor items = Some (length items, DECODE_OK, items)"
  by (subst decode_subframes.simps) simp

lemma aggregate_nonempty: "list_all wf_subframe xs \<Longrightarrow> (aggregate xs = []) = (xs = [])"
  by (induction xs rule: aggregate.induct) (auto simp: subframe_bytes_def llc_header_def)

lemma decode_subframes_aggregate:
  assumes "list_all wf_subframe xs" "length items + length xs \<le> capacity" "length pre = cursor"
  shows "decode_subframes (pre @ aggregate xs) capacity cursor items =
     Some (length items + length xs, DECODE_OK, items @ map subframe_data xs)"
  using assms
proof (induction xs arbitrary: pre cursor items rule: aggregate.induct)
  case 1
  then show ?case by (simp add: decode_subframes_done)
next
  case (2 x)
  then show ?case using subframe_step [of x pre cursor items capacity "[]"]
    by (simp add: decode_subframes_done)
next
  case (3 x y ys)
  let ?pad = "replicate ((4 - length (subframe_bytes x) mod 4) mod 4) 0 :: bytes"
  let ?pre = "pre @ subframe_bytes x @ ?pad"
  have "?pad @ aggregate (y # ys) \<noteq> []" using "3.prems"(1) aggregate_nonempty [of "y # ys"] by simp
  then have "decode_subframes (pre @ aggregate (x # y # ys)) capacity cursor items =
      decode_subframes (?pre @ aggregate (y # ys)) capacity (length ?pre) (items @ [subframe_data x])"
    using "3.prems" subframe_step [of x pre cursor items capacity "?pad @ aggregate (y # ys)"]
    by (simp add: Let_def add.assoc)
  also have "\<dots> = Some (length (items @ [subframe_data x]) + length (y # ys), DECODE_OK,
      (items @ [subframe_data x]) @ map subframe_data (y # ys))"
    using "3.prems" by (intro "3.IH") auto
  finally show ?case by simp
qed

definition amsdu_header :: "mac \<Rightarrow> mac \<Rightarrow> u16 \<Rightarrow> bytes" where
  "amsdu_header dst src sequence_control = [0x88, 0, 0, 0] @ dst @ src @ awdl_bssid @ put_le16 sequence_control @ [0x80, 0]"

lemma decode_first_subframe:
  assumes "length dst = 6" "length src = 6" "wf_subframe x"
  shows "espdrop_awdl_decode_data_ex (Ptr (amsdu_header dst src sc @ subframe_bytes x @ rest)) (Ptr d0) =
     Some (DECODE_OK, Ptr (subframe_data x))"
proof -
  define f where "f = amsdu_header dst src sc @ subframe_bytes x @ rest"
  define n where "n = (of_nat (16 + length (sf_payload x)) :: u16)"
  have n: "unat n = 16 + length (sf_payload x)"
    using assms(3) by (simp add: n_def wf_subframe_def UINT16_MAX_def unat_of_nat del: of_nat_add)
  have wl: "length (sf_destination x) = 6" "length (sf_source x) = 6" using assms(3) by (auto simp: wf_subframe_def)
  let ?m = "llc_header @ [0x03, 0x04] @ put_le16 (sf_sequence x) @ [0, 0] @ put_be16 (sf_ethertype x) @ sf_payload x"
  have lm: "length ?m = 16 + length (sf_payload x)" by (simp add: llc_header_def)
  have fs: "f = [0x88, 0, 0, 0] @ dst @ src @ awdl_bssid @ put_le16 sc @ [0x80, 0] @ sf_destination x @ sf_source x @
      put_be16 n @ ?m @ rest"
    by (simp add: f_def subframe_bytes_def n_def amsdu_header_def)
  have fl: "length f = 56 + length (sf_payload x) + length rest"
    using assms subframe_bytes_length [OF assms(3)] by (simp add: f_def amsdu_header_def)
  have reads: "rd f 0 = Some 0x88" "rd f 1 = Some 0" "rds f 16 6 = Some awdl_bssid" "rd f 24 = Some 0x80"
    "read_be16 f 38 = Some n" "rds f 26 6 = Some (sf_destination x)" "rds f 32 6 = Some (sf_source x)"
    using assms(1,2) wl by (simp_all add: fs wire_simps)
  have rm: "rds f 40 (16 + length (sf_payload x)) = Some ?m"
  proof -
    have "rds f 40 (16 + length (sf_payload x)) = rds (?m @ rest) 0 (16 + length (sf_payload x))"
      using assms(1,2) wl by (simp only: fs) (simp add: rds_shift rds_Cons_Suc rds_Cons_numeral)
    then show ?thesis using rds_head [OF lm] by (simp only:)
  qed
  show ?thesis unfolding f_def [symmetric]
    using reads by (simp add: espdrop_awdl_decode_data_ex_def data_consts n rm fl decode_msdu_wire [simplified]
      subframe_data_def awdl_data_zero_def Let_def)
qed

text \<open>
  C23. Deaggregation is exact: a QoS data frame that aggregates any number of well-formed
  subframes up to the capacity, each padded to four bytes except the last, is decoded into
  exactly those subframes, in order, with addresses, sequence number, ethertype and payload.
\<close>

theorem deaggregation_exact:
  assumes "length dst = 6" and "length src = 6" and "xs \<noteq> []" and "list_all wf_subframe xs" and "length xs \<le> capacity"
  shows "espdrop_awdl_decode_data_frames (Ptr (amsdu_header dst src sc @ aggregate xs)) (Ptr data) capacity (Ptr r) =
     Some (length xs, map subframe_data xs, Ptr DECODE_OK)"
proof -
  obtain x ys where xs: "xs = x # ys" using assms(3) by (cases xs) auto
  obtain rest where rest: "aggregate xs = subframe_bytes x @ rest" unfolding xs by (cases ys) auto
  have wf: "wf_subframe x" using assms(4) xs by simp
  have h: "length (amsdu_header dst src sc) = 26" using assms(1,2) by (simp add: amsdu_header_def)
  have c: "capacity \<noteq> 0" using assms(5) xs by auto
  show ?thesis
    using decode_first_subframe [OF assms(1,2) wf, of sc rest awdl_data_zero]
      decode_subframes_aggregate [of xs "[]" capacity "amsdu_header dst src sc" 26] assms(4,5) c h
    by (simp add: espdrop_awdl_decode_data_frames_def rest [symmetric] subframe_data_def data_consts)
qed

theorem deaggregation_exact_witness:
  "let x = \<lparr>sf_destination = [1,1,1,1,1,1], sf_source = [2,2,2,2,2,2], sf_sequence = 5, sf_ethertype = 0x86dd, sf_payload = [9]\<rparr> in
   espdrop_awdl_decode_data_frames (Ptr (amsdu_header [1,1,1,1,1,1] [2,2,2,2,2,2] 0 @ aggregate [x, x])) (Ptr []) 4 (Ptr DECODE_OK) =
     Some (2, [subframe_data x, subframe_data x], Ptr DECODE_OK)"
  unfolding Let_def by (subst deaggregation_exact) (simp_all add: wf_subframe_def UINT16_MAX_def)

theorem ethernet_tunnel_roundtrip_witness:
  "\<exists>frame n d. espdrop_awdl_build_ethernet_frame (Ptr (replicate 64 0)) 64 (Ptr 0) (Ptr [1,2,3,4,5,6,7,8,9,10,11,12,0x86,0xdd,42])
       (Ptr [2,0,0,0,0,1]) 7 8 = (True, Ptr frame, Ptr n) \<and>
     n = 41 \<and> length frame = 64 \<and> drop n frame = replicate 23 0 \<and>
     espdrop_awdl_decode_data (Ptr (take n frame)) (Ptr awdl_data_zero) = Some (True, Ptr d) \<and> da_sequence d = 8 \<and>
     espdrop_awdl_data_to_ethernet (Ptr d) (Ptr (replicate 15 0)) 15 (Ptr 0) =
       Some (True, Ptr [1,2,3,4,5,6,2,0,0,0,0,1,0x86,0xdd,42], Ptr 15)"
  using ethernet_tunnel_roundtrip [of "[2,0,0,0,0,1]" "[1,2,3,4,5,6,7,8,9,10,11,12,0x86,0xdd,42]" 64 "replicate 64 0"
      "replicate 15 0" 0 7 8 awdl_data_zero 0]
  by (auto simp: UINT16_MAX_def store_def)

theorem neighbor_solicitation_valid_witness:
  "\<exists>frame d v.
     espdrop_awdl_build_neighbor_solicitation (Ptr (replicate 112 0)) 112 (Ptr 0) (Ptr [2,0,0,0,0,1]) (Ptr [2,0,0,0,0,9]) 3 4 =
       (True, Ptr frame, Ptr 112) \<and>
     espdrop_awdl_decode_data (Ptr (take 112 frame)) (Ptr awdl_data_zero) = Some (True, Ptr d) \<and>
     espdrop_awdl_decode_ipv6 (Ptr d) (Ptr awdl_ipv6_zero) = Some (True, Ptr v) \<and>
     v6_source v = [0xfe, 0x80, 0, 0, 0, 0, 0, 0, 0, 0, 0, 0xff, 0xfe, 0, 0, 1] \<and>
     icmpv6_checksum (v6_source v) (v6_destination v) (drop 40 (deref (da_payload d))) 32 = 0"
  using neighbor_solicitation_valid [of "[2,0,0,0,0,1]" "[2,0,0,0,0,9]" 112 "replicate 112 0" 0 3 4 awdl_data_zero awdl_ipv6_zero]
  by (auto simp: ESPDROP_AWDL_NS_FRAME_BYTES_def link_local_def)

end
