(* ===== verification/C_Strings.thy ===== *)
theory C_Strings
  imports Prelude
begin

text \<open>
  What the firmware uses of the C library on text: \<^verbatim>\<open>snprintf\<close> number conversions, reading a
  string at an index up to and including its terminator, and the number parsers of the HTTP
  code in the form of a positional value. A C string is the list of its bytes before the
  terminator.
\<close>

section \<open>Reading a string\<close>

definition cstr_at :: "bytes \<Rightarrow> nat \<Rightarrow> byte" where
  "cstr_at s i = (if i < length s then s ! i else 0)"

section \<open>Printed numbers\<close>

text \<open>The digits \<open>%u\<close>, \<open>%o\<close> and \<open>%x\<close> print, and a field padded with zeros to a minimal width.\<close>

definition digit_char :: "nat \<Rightarrow> byte" where
  "digit_char d = of_nat (if d < 10 then 48 + d else 87 + d)"

function digits :: "nat \<Rightarrow> nat \<Rightarrow> bytes" where
  "digits b n = (if b < 2 \<or> n < b then [digit_char n] else digits b (n div b) @ [digit_char (n mod b)])"
  by pat_completeness auto
termination
  by (relation "measure (\<lambda>(b, n). n)") auto

declare digits.simps [simp del]

definition zero_padded :: "nat \<Rightarrow> bytes \<Rightarrow> bytes" where
  "zero_padded width ds = replicate (width - length ds) 48 @ ds"

lemma digits_small: "n < b \<Longrightarrow> digits b n = [digit_char n]"
  by (simp add: digits.simps)

lemma digits_step: "2 \<le> b \<Longrightarrow> b \<le> n \<Longrightarrow> digits b n = digits b (n div b) @ [digit_char (n mod b)]"
  by (subst digits.simps) simp

lemma digits_nonempty [simp]: "digits b n \<noteq> []"
  by (subst digits.simps) simp

lemma length_digits_pos [simp]: "0 < length (digits b n)"
  by simp

lemma length_digits_le:
  assumes "2 \<le> b" and "n < b ^ k" and "0 < k"
  shows "length (digits b n) \<le> k"
  using assms(2,3)
proof (induction k arbitrary: n)
  case (Suc k)
  show ?case
  proof (cases "n < b")
    case True
    then show ?thesis by (simp add: digits_small)
  next
    case False
    then have k: "0 < k" using Suc.prems(1) by (cases k) auto
    have "n div b < b ^ k" using Suc.prems(1) assms(1) by (simp add: less_mult_imp_div_less mult.commute)
    then have "length (digits b (n div b)) \<le> k" using Suc.IH k by blast
    then show ?thesis using False assms(1) by (simp add: digits_step)
  qed
qed simp

lemma length_zero_padded: "length ds \<le> w \<Longrightarrow> length (zero_padded w ds) = w"
  by (simp add: zero_padded_def)

text \<open>The result of \<^verbatim>\<open>snprintf\<close> into a buffer: the text is stored, cut to the capacity, with a terminator.\<close>

definition snprintf_into :: "bytes \<Rightarrow> nat \<Rightarrow> bytes \<Rightarrow> bytes" where
  "snprintf_into buf capacity t = (if capacity = 0 then buf else store buf 0 (take (capacity - 1) t @ [0]))"

section \<open>Positional value\<close>

text \<open>The number a digit string denotes; \<open>digit_value\<close> accepts both letter cases.\<close>

definition digit_value :: "byte \<Rightarrow> nat option" where
  "digit_value c =
     (if 48 \<le> c \<and> c \<le> 57 then Some (unat c - 48)
      else if 97 \<le> c \<and> c \<le> 102 then Some (unat c - 87)
      else if 65 \<le> c \<and> c \<le> 70 then Some (unat c - 55)
      else None)"

definition positional :: "nat \<Rightarrow> nat list \<Rightarrow> nat" where
  "positional b ds = foldl (\<lambda>acc d. acc * b + d) 0 ds"

lemma positional_snoc [simp]: "positional b (ds @ [d]) = positional b ds * b + d"
  by (simp add: positional_def)

lemma positional_single: "positional b [d] = d"
  by (simp add: positional_def)

lemma positional_zeros: "positional b (replicate k 0 @ ds) = positional b ds"
  by (induction k) (simp_all add: positional_def)

lemma unat_digit_char: "d < 16 \<Longrightarrow> unat (digit_char d) = (if d < 10 then 48 + d else 87 + d)"
  by (simp add: digit_char_def unat_of_nat del: of_nat_add)

lemma digit_value_char: "d < 16 \<Longrightarrow> digit_value (digit_char d) = Some d"
  by (simp add: digit_value_def word_le_nat_alt unat_digit_char)

primrec denotes :: "nat \<Rightarrow> nat list \<Rightarrow> bytes \<Rightarrow> bool" where
  "denotes b ds [] \<longleftrightarrow> ds = []"
| "denotes b ds (c # cs) \<longleftrightarrow> (\<exists>d ds'. ds = d # ds' \<and> d < b \<and> digit_value c = Some d \<and> denotes b ds' cs)"

lemma denotes_append: "denotes b xs as \<Longrightarrow> denotes b ys bs \<Longrightarrow> denotes b (xs @ ys) (as @ bs)"
  by (induction as arbitrary: xs) auto

lemma digits_denote:
  assumes "2 \<le> b" "b \<le> 16"
  shows "\<exists>ds. denotes b ds (digits b n) \<and> positional b ds = n"
proof (induction n rule: less_induct)
  case (less n)
  show ?case
  proof (cases "n < b")
    case True
    then have "denotes b [n] (digits b n)" using assms by (simp add: digits_small digit_value_char)
    then show ?thesis using positional_single by blast
  next
    case False
    then have "n div b < n" using assms(1) by auto
    then obtain ds where ds: "denotes b ds (digits b (n div b))" "positional b ds = n div b"
      using less by blast
    have m: "n mod b < b" "n mod b < 16" using assms mod_less_divisor [of b n] by linarith+
    then have "denotes b (ds @ [n mod b]) (digits b (n div b) @ [digit_char (n mod b)])"
      using ds(1) assms m by (intro denotes_append) (simp_all add: digit_value_char)
    moreover have "positional b (ds @ [n mod b]) = n" by (simp add: ds(2))
    ultimately show ?thesis using False assms(1) by (metis digits_step not_less)
  qed
qed

end
