(* ===== verification/Airdrop_Upload.thy ===== *)
theory Airdrop_Upload
  imports C_Strings
begin

text \<open>
  The upload formats (\<^verbatim>\<open>core/src/airdrop_upload.c\<close>): sender identity fields, the ODC cpio archive,
  its contiguous and its streaming writer, the stored dvzip framing, the exact size plan, and
  the HTTP chunk pieces.

  A source callback takes its context and a capacity and gives back its result, the bytes it
  wrote at the start of the buffer, the byte count it reports, and its new context; a sink
  callback takes its context and bytes and gives back its result and new context. Both are
  parameters of the streaming functions.
\<close>

section \<open>Data\<close>

definition ESPDROP_AIRDROP_DVZIP_BLOCK_HEADER_BYTES :: nat where "ESPDROP_AIRDROP_DVZIP_BLOCK_HEADER_BYTES = 4"
definition ESPDROP_AIRDROP_DVZIP_STREAM_BLOCK_BYTES :: nat where "ESPDROP_AIRDROP_DVZIP_STREAM_BLOCK_BYTES = 131072"
definition ESPDROP_AIRDROP_ODC_HEADER_BYTES :: nat where "ESPDROP_AIRDROP_ODC_HEADER_BYTES = 76"
definition ESPDROP_AIRDROP_ODC_BLOCK_BYTES :: nat where "ESPDROP_AIRDROP_ODC_BLOCK_BYTES = 10240"

lemmas upload_consts = ESPDROP_AIRDROP_DVZIP_BLOCK_HEADER_BYTES_def ESPDROP_AIRDROP_DVZIP_STREAM_BLOCK_BYTES_def
  ESPDROP_AIRDROP_ODC_HEADER_BYTES_def ESPDROP_AIRDROP_ODC_BLOCK_BYTES_def

record upload_identity =
  id_transfer_id :: bytes
  id_sender_pseudonym :: bytes
  id_sender_push_token :: bytes

type_synonym 's source_read = "'s \<Rightarrow> nat \<Rightarrow> bool \<times> bytes \<times> nat \<times> 's"
type_synonym 'w stream_write = "'w \<Rightarrow> bytes \<Rightarrow> bool \<times> 'w"

type_synonym 's source_rewind = "'s \<Rightarrow> bool \<times> 's"

record 's airdrop_source =
  src_context :: 's
  src_size_bytes :: nat
  src_read :: "'s source_read ptr"
  src_rewind :: "'s source_rewind ptr"

text \<open>
  The descriptor of a file to send. Its raw source and the optional host-prepared payload have
  contexts of their own types.
\<close>

record 'q prepared_payload =
  pp_source :: "'q airdrop_source"
  pp_archive_bytes :: nat
  pp_dvzip_blocks :: nat
  pp_file_crc32 :: u32
  pp_stored_blocks :: bool

record ('s, 'q) outgoing_file =
  of_file_name :: "bytes ptr"
  of_file_type :: "bytes ptr"
  of_mtime :: u32
  of_source :: "'s airdrop_source"
  of_prepared_payload :: "'q prepared_payload"

record stream_plan =
  plan_file_bytes :: nat
  plan_archive_bytes :: nat
  plan_dvzip_blocks :: nat
  plan_payload_bytes :: nat

record stream_result =
  sr_source_bytes :: nat
  sr_archive_bytes :: nat
  sr_dvzip_blocks :: nat
  sr_payload_bytes :: nat
  sr_workspace_high_water :: nat
  sr_source_crc32 :: u32

datatype stream_status = STREAM_OK | STREAM_INVALID | STREAM_SIZE | STREAM_SOURCE | STREAM_TRUNCATED
  | STREAM_SINK | STREAM_REWIND | STREAM_COMPRESS

definition stream_result_zero :: stream_result where
  "stream_result_zero = \<lparr>sr_source_bytes = 0, sr_archive_bytes = 0, sr_dvzip_blocks = 0, sr_payload_bytes = 0,
     sr_workspace_high_water = 0, sr_source_crc32 = 0\<rparr>"

section \<open>Identity fields\<close>

definition is_upper_hex :: "byte \<Rightarrow> bool" where
  "is_upper_hex v \<longleftrightarrow> (48 \<le> v \<and> v \<le> 57) \<or> (65 \<le> v \<and> v \<le> 70)"

definition espdrop_airdrop_transfer_id_valid :: "bytes ptr \<Rightarrow> bool" where
  "espdrop_airdrop_transfer_id_valid v \<longleftrightarrow>
     (if v = NULL \<or> length (deref v) \<noteq> 36 then False
      else list_all (\<lambda>index.
             if index = 8 \<or> index = 13 \<or> index = 18 \<or> index = 23 then deref v ! index = 45
             else is_upper_hex (deref v ! index)) [0..<36])"

definition pseudonym_char :: "byte \<Rightarrow> bool" where
  "pseudonym_char b \<longleftrightarrow> (65 \<le> b \<and> b \<le> 90) \<or> (97 \<le> b \<and> b \<le> 122) \<or> (48 \<le> b \<and> b \<le> 57) \<or> b = 45 \<or> b = 95"

definition pseudonym_valid :: "bytes ptr \<Rightarrow> bool" where
  "pseudonym_valid v \<longleftrightarrow>
     (if v = NULL \<or> length (deref v) \<noteq> 28 \<or> memcmp (deref v) (ascii ''pseud:'') 6 \<noteq> 0 then False
      else list_all (\<lambda>index. pseudonym_char (deref v ! index)) [6..<28])"

definition push_token_valid :: "bytes ptr \<Rightarrow> bool" where
  "push_token_valid v \<longleftrightarrow>
     (if v = NULL \<or> length (deref v) \<noteq> 64 then False
      else list_all (\<lambda>index. is_upper_hex (deref v ! index)) [0..<64])"

definition espdrop_airdrop_upload_identity_valid :: "upload_identity ptr \<Rightarrow> bool" where
  "espdrop_airdrop_upload_identity_valid identity \<longleftrightarrow> identity \<noteq> NULL \<and>
     espdrop_airdrop_transfer_id_valid (Ptr (id_transfer_id (deref identity))) \<and>
     pseudonym_valid (Ptr (id_sender_pseudonym (deref identity))) \<and>
     push_token_valid (Ptr (id_sender_push_token (deref identity)))"

definition base64_alphabet :: bytes where
  "base64_alphabet = ascii ''ABCDEFGHIJKLMNOPQRSTUVWXYZabcdefghijklmnopqrstuvwxyz0123456789-_''"

definition base64_char :: "u32 \<Rightarrow> byte" where
  "base64_char v = base64_alphabet ! unat (v AND 0x3f)"

text \<open>Three bytes give four letters; the one byte left after five groups gives two.\<close>

fun pseudonym_letters :: "bytes \<Rightarrow> bytes" where
  "pseudonym_letters (a # b # c # rest) =
     (let v = push_bit 16 (ucast a) OR push_bit 8 (ucast b) OR ucast c :: u32 in
      [base64_char (drop_bit 18 v), base64_char (drop_bit 12 v), base64_char (drop_bit 6 v), base64_char v] @
      pseudonym_letters rest)"
| "pseudonym_letters (a # rest) =
     (let tail = push_bit 16 (ucast a) :: u32 in [base64_char (drop_bit 18 tail), base64_char (drop_bit 12 tail)])"
| "pseudonym_letters [] = []"

definition espdrop_airdrop_format_sender_pseudonym :: "bytes \<Rightarrow> bytes" where
  "espdrop_airdrop_format_sender_pseudonym random_bytes = ascii ''pseud:'' @ pseudonym_letters random_bytes"

definition upper_hex :: bytes where
  "upper_hex = ascii ''0123456789ABCDEF''"

definition espdrop_airdrop_format_sender_push_token :: "bytes \<Rightarrow> bytes" where
  "espdrop_airdrop_format_sender_push_token random_bytes =
     concat (map (\<lambda>b. [upper_hex ! unat (drop_bit 4 b), upper_hex ! unat (b AND 0x0f)]) random_bytes)"

section \<open>The ODC archive\<close>

definition archive_path_valid :: "bytes ptr \<Rightarrow> bool" where
  "archive_path_valid path \<longleftrightarrow>
     (let p = deref path in
      if path = NULL \<or> cstr_at p 0 \<noteq> 46 \<or> cstr_at p 1 \<noteq> 47 then False
      else if length p < 3 \<or> length p > 255 \<or> 47 \<in> set (drop 2 p) \<or> 92 \<in> set p then False
      else if \<not> list_all (\<lambda>b. \<not> (b < 0x20 \<or> b > 0x7e)) (drop 2 p) then False
      else drop 2 p \<noteq> [46] \<and> drop 2 p \<noteq> [46, 46])"

definition octal_field :: "nat \<Rightarrow> nat \<Rightarrow> bytes" where
  "octal_field width n = zero_padded width (digits 8 n)"

definition odc_header_text :: "u32 \<Rightarrow> u32 \<Rightarrow> u32 \<Rightarrow> nat \<Rightarrow> nat \<Rightarrow> bytes" where
  "odc_header_text inode mode mtime name_bytes file_bytes =
     ascii ''070707'' @ octal_field 6 0 @ octal_field 6 (unat inode) @ octal_field 6 (unat mode) @
     octal_field 6 0 @ octal_field 6 0 @ octal_field 6 1 @ octal_field 6 0 @ octal_field 11 (unat mtime) @
     octal_field 6 name_bytes @ octal_field 11 file_bytes"

definition write_odc_header :: "u32 \<Rightarrow> u32 \<Rightarrow> u32 \<Rightarrow> nat \<Rightarrow> nat \<Rightarrow> bytes option" where
  "write_odc_header inode mode mtime name_bytes file_bytes =
     (if name_bytes = 0 \<or> name_bytes > 262143 then None
      else
        let header = odc_header_text inode mode mtime name_bytes file_bytes in
        if length header \<noteq> ESPDROP_AIRDROP_ODC_HEADER_BYTES then None else Some header)"

definition odc_trailer :: bytes where
  "odc_trailer = ascii ''TRAILER!!!'' @ [0]"

definition odc_mode :: u32 where "odc_mode = 33188"

definition odc_fixed_bytes :: "bytes \<Rightarrow> nat" where
  "odc_fixed_bytes path = ESPDROP_AIRDROP_ODC_HEADER_BYTES * 2 + (length path + 1) + length odc_trailer"

definition odc_archive_bytes :: "nat \<Rightarrow> nat" where
  "odc_archive_bytes unpadded =
     (unpadded + ESPDROP_AIRDROP_ODC_BLOCK_BYTES - 1) div ESPDROP_AIRDROP_ODC_BLOCK_BYTES * ESPDROP_AIRDROP_ODC_BLOCK_BYTES"

definition espdrop_airdrop_build_odc_archive ::
  "bytes ptr \<Rightarrow> nat \<Rightarrow> bytes ptr \<Rightarrow> bytes ptr \<Rightarrow> nat \<Rightarrow> u32 \<Rightarrow> nat \<times> bytes ptr" where
  "espdrop_airdrop_build_odc_archive output capacity archive_path file_data file_bytes mtime =
     (if output = NULL \<or> \<not> archive_path_valid archive_path \<or> (file_bytes > 0 \<and> file_data = NULL) then (0, output)
      else
        let path = deref archive_path;
            path_bytes = length path + 1;
            fixed_bytes = odc_fixed_bytes path in
        if file_bytes > SIZE_MAX - fixed_bytes then (0, output)
        else
          let unpadded = fixed_bytes + file_bytes in
          if unpadded > SIZE_MAX - (ESPDROP_AIRDROP_ODC_BLOCK_BYTES - 1) then (0, output)
          else
            let archive_bytes = odc_archive_bytes unpadded in
            if archive_bytes > capacity then (0, output)
            else
              (case write_odc_header 1 odc_mode mtime path_bytes file_bytes of
                 None \<Rightarrow> (0, output)
               | Some header \<Rightarrow>
                   let out1 = store (deref output) 0 header;
                       out2 = store out1 ESPDROP_AIRDROP_ODC_HEADER_BYTES (path @ [0]);
                       offset2 = ESPDROP_AIRDROP_ODC_HEADER_BYTES + path_bytes;
                       (out3, offset3) =
                         (if file_bytes > 0 then (store out2 offset2 (take file_bytes (deref file_data)), offset2 + file_bytes)
                          else (out2, offset2)) in
                   (case write_odc_header 0 0 0 (length odc_trailer) 0 of
                      None \<Rightarrow> (0, Ptr out3)
                    | Some header2 \<Rightarrow>
                        let out4 = store out3 offset3 header2;
                            offset4 = offset3 + ESPDROP_AIRDROP_ODC_HEADER_BYTES;
                            out5 = store out4 offset4 odc_trailer;
                            offset5 = offset4 + length odc_trailer in
                        (archive_bytes, Ptr (store out5 offset5 (replicate (archive_bytes - offset5) 0))))))"

definition espdrop_airdrop_plan_stored_dvzip :: "stream_plan ptr \<Rightarrow> bytes ptr \<Rightarrow> nat \<Rightarrow> bool \<times> stream_plan ptr" where
  "espdrop_airdrop_plan_stored_dvzip plan archive_path file_bytes =
     (if plan = NULL \<or> \<not> archive_path_valid archive_path then (False, plan)
      else
        let fixed_bytes = odc_fixed_bytes (deref archive_path) in
        if file_bytes > SIZE_MAX - fixed_bytes then (False, plan)
        else
          let unpadded = fixed_bytes + file_bytes in
          if unpadded > SIZE_MAX - (ESPDROP_AIRDROP_ODC_BLOCK_BYTES - 1) then (False, plan)
          else
            let archive_bytes = odc_archive_bytes unpadded;
                blocks = (archive_bytes + ESPDROP_AIRDROP_DVZIP_STREAM_BLOCK_BYTES - 1) div
                           ESPDROP_AIRDROP_DVZIP_STREAM_BLOCK_BYTES in
            if blocks > (SIZE_MAX - archive_bytes) div ESPDROP_AIRDROP_DVZIP_BLOCK_HEADER_BYTES then (False, plan)
            else (True, Ptr \<lparr>plan_file_bytes = file_bytes, plan_archive_bytes = archive_bytes, plan_dvzip_blocks = blocks,
              plan_payload_bytes = archive_bytes + blocks * ESPDROP_AIRDROP_DVZIP_BLOCK_HEADER_BYTES\<rparr>))"

definition espdrop_airdrop_should_use_single_zlib_block :: "nat \<Rightarrow> nat \<Rightarrow> bool" where
  "espdrop_airdrop_should_use_single_zlib_block archive_bytes compressed_bytes \<longleftrightarrow>
     archive_bytes > 0 \<and> compressed_bytes > 0 \<and> compressed_bytes < archive_bytes \<and>
     compressed_bytes \<le> ESPDROP_AIRDROP_DVZIP_STREAM_BLOCK_BYTES"

section \<open>The dvzip writer\<close>

definition espdrop_airdrop_build_dvzip_block_header :: "bytes ptr \<Rightarrow> u32 \<Rightarrow> bool \<Rightarrow> bool \<times> bytes ptr" where
  "espdrop_airdrop_build_dvzip_block_header output payload_bytes stored =
     (if output = NULL \<or> payload_bytes = 0 \<or> payload_bytes > 0x7fffffff then (False, output)
      else
        let encoded = payload_bytes OR (if stored then 0x80000000 else 0) in
        (True, Ptr (store (deref output) 0 (put_be32 encoded))))"

record 'w stored_writer =
  sw_context :: 'w
  sw_archive_remaining :: nat
  sw_block_remaining :: nat
  sw_result :: stream_result

text \<open>Opening a block: its size is fixed and its header written when the previous one is full.\<close>

definition open_block :: "'w stream_write \<Rightarrow> 'w stored_writer \<Rightarrow> bool \<times> 'w stored_writer" where
  "open_block write writer =
     (if sw_block_remaining writer = 0 then
        let size = (if sw_archive_remaining writer < ESPDROP_AIRDROP_DVZIP_STREAM_BLOCK_BYTES
                    then sw_archive_remaining writer else ESPDROP_AIRDROP_DVZIP_STREAM_BLOCK_BYTES);
            writer1 = writer\<lparr>sw_block_remaining := size\<rparr>;
            (ok, header) = espdrop_airdrop_build_dvzip_block_header
                             (Ptr (replicate ESPDROP_AIRDROP_DVZIP_BLOCK_HEADER_BYTES 0)) (of_nat size) True in
        if \<not> ok then (False, writer1)
        else
          (case write (sw_context writer1) (deref header) of (written, context) \<Rightarrow>
             let writer2 = writer1\<lparr>sw_context := context\<rparr> in
             if \<not> written then (False, writer2)
             else (True, writer2\<lparr>sw_result := (sw_result writer2)\<lparr>
               sr_dvzip_blocks := sr_dvzip_blocks (sw_result writer2) + 1,
               sr_payload_bytes := sr_payload_bytes (sw_result writer2) + length (deref header)\<rparr>\<rparr>))
      else (True, writer))"

definition write_portion :: "'w stream_write \<Rightarrow> 'w stored_writer \<Rightarrow> bytes \<Rightarrow> bool \<times> 'w stored_writer" where
  "write_portion write writer data =
     (if length data > sw_archive_remaining writer then (False, writer)
      else
        (case write (sw_context writer) data of (written, context) \<Rightarrow>
           let writer1 = writer\<lparr>sw_context := context\<rparr> in
           if \<not> written then (False, writer1)
           else (True, writer1\<lparr>
             sw_block_remaining := sw_block_remaining writer1 - length data,
             sw_archive_remaining := sw_archive_remaining writer1 - length data,
             sw_result := (sw_result writer1)\<lparr>
               sr_archive_bytes := sr_archive_bytes (sw_result writer1) + length data,
               sr_payload_bytes := sr_payload_bytes (sw_result writer1) + length data\<rparr>\<rparr>)))"

lemma open_block_progress:
  "sw_archive_remaining w \<noteq> 0 \<Longrightarrow> open_block write w = (True, w') \<Longrightarrow> 0 < sw_block_remaining w'"
  by (auto simp: open_block_def Let_def upload_consts split: if_splits prod.splits)

function write_stored_archive_bytes :: "'w stream_write \<Rightarrow> 'w stored_writer \<Rightarrow> bytes \<Rightarrow> bool \<times> 'w stored_writer" where
  "write_stored_archive_bytes write writer data =
     (if length data > 0 then
        if sw_archive_remaining writer = 0 then (False, writer)
        else
          (case open_block write writer of (ok, writer1) \<Rightarrow>
             if \<not> ok then (False, writer1)
             else
               let portion = (if length data > sw_block_remaining writer1 then sw_block_remaining writer1 else length data) in
               (case write_portion write writer1 (take portion data) of (ok2, writer2) \<Rightarrow>
                  if \<not> ok2 then (False, writer2)
                  else write_stored_archive_bytes write writer2 (drop portion data)))
      else (True, writer))"
  by pat_completeness auto
termination
proof (relation "measure (\<lambda>(write, writer, data). length data)", goal_cases)
  case (2 wr writer data ok writer1)
  then show ?case using open_block_progress [of writer wr writer1] by auto
qed simp

declare write_stored_archive_bytes.simps [simp del]

definition write_stored_archive_sink :: "'w stream_write \<Rightarrow> 'w stored_writer stream_write" where
  "write_stored_archive_sink write context data = write_stored_archive_bytes write context data"

section \<open>Streaming\<close>

definition crc32_bit :: "u32 \<Rightarrow> u32" where
  "crc32_bit crc = (let mask = - (crc AND 1) in drop_bit 1 crc XOR (0xedb88320 AND mask))"

definition crc32_byte :: "u32 \<Rightarrow> byte \<Rightarrow> u32" where
  "crc32_byte crc b = (crc32_bit ^^ 8) (crc XOR ucast b)"

definition crc32_update :: "u32 \<Rightarrow> bytes \<Rightarrow> u32" where
  "crc32_update crc data = foldl crc32_byte crc data"

record 'w odc_writer =
  ow_context :: 'w
  ow_remaining :: nat
  ow_emitted :: nat

definition write_odc_bytes :: "'w stream_write \<Rightarrow> 'w odc_writer \<Rightarrow> bytes \<Rightarrow> bool \<times> 'w odc_writer" where
  "write_odc_bytes write writer data =
     (if length data > ow_remaining writer then (False, writer)
      else
        (case write (ow_context writer) data of (written, context) \<Rightarrow>
           if \<not> written then (False, writer\<lparr>ow_context := context\<rparr>)
           else (True, writer\<lparr>ow_context := context, ow_remaining := ow_remaining writer - length data,
                              ow_emitted := ow_emitted writer + length data\<rparr>)))"

text \<open>The inner loop fills the workspace up to the requested size.\<close>

function fill_workspace :: "'s source_read \<Rightarrow> 's \<Rightarrow> bytes \<Rightarrow> nat \<Rightarrow> nat \<Rightarrow> stream_status \<times> 's \<times> bytes" where
  "fill_workspace read context workspace buffered requested =
     (if buffered < requested then
        (case read context (requested - buffered) of (ok, data, bytes_read, context1) \<Rightarrow>
           let workspace1 = store workspace buffered data in
           if \<not> ok \<or> bytes_read > requested - buffered then (STREAM_SOURCE, context1, workspace1)
           else if bytes_read = 0 then (STREAM_TRUNCATED, context1, workspace1)
           else fill_workspace read context1 workspace1 (buffered + bytes_read) requested)
      else (STREAM_OK, context, workspace))"
  by pat_completeness auto
termination
  by (relation "measure (\<lambda>(read, context, workspace, buffered, requested). requested - buffered)") auto

declare fill_workspace.simps [simp del]

record ('s, 'w) stream_state =
  st_source :: 's
  st_writer :: "'w odc_writer"
  st_workspace :: bytes
  st_result :: stream_result

text \<open>
  The outer loop; \<open>crc\<close> is its local accumulator. The function that calls it has rejected an
  empty workspace, so the second conjunct of the guard only serves termination (here and in
  the padding loop).
\<close>

function copy_source ::
  "'s source_read \<Rightarrow> 'w stream_write \<Rightarrow> nat \<Rightarrow> nat \<Rightarrow> u32 \<Rightarrow> ('s, 'w) stream_state \<Rightarrow> stream_status \<times> ('s, 'w) stream_state" where
  "copy_source read write workspace_bytes remaining crc st =
     (if remaining > 0 \<and> workspace_bytes > 0 then
        let requested = (if remaining < workspace_bytes then remaining else workspace_bytes) in
        (case fill_workspace read (st_source st) (st_workspace st) 0 requested of (status, context, workspace) \<Rightarrow>
           let st1 = st\<lparr>st_source := context, st_workspace := workspace\<rparr> in
           if status \<noteq> STREAM_OK then (status, st1)
           else
             let crc1 = crc32_update crc (take requested workspace);
                 res = st_result st1;
                 st2 = st1\<lparr>st_result := res\<lparr>
                   sr_source_bytes := sr_source_bytes res + requested,
                   sr_source_crc32 := crc1 XOR 0xffffffff,
                   sr_workspace_high_water := (if requested > sr_workspace_high_water res then requested
                                               else sr_workspace_high_water res)\<rparr>\<rparr> in
             (case write_odc_bytes write (st_writer st2) (take requested workspace) of (ok, writer) \<Rightarrow>
                let st3 = st2\<lparr>st_writer := writer\<rparr> in
                if \<not> ok then (STREAM_SINK, st3)
                else copy_source read write workspace_bytes (remaining - requested) crc1 st3))
      else (STREAM_OK, st))"
  by pat_completeness auto
termination
  by (relation "measure (\<lambda>(read, write, workspace_bytes, remaining, crc, st). remaining)") auto

declare copy_source.simps [simp del]

text \<open>The padding loop writes zeros from the cleared workspace.\<close>

function write_padding :: "'w stream_write \<Rightarrow> nat \<Rightarrow> 'w odc_writer \<Rightarrow> bool \<times> 'w odc_writer" where
  "write_padding write workspace_bytes writer =
     (if ow_remaining writer > 0 \<and> workspace_bytes > 0 then
        let bytes = (if ow_remaining writer < workspace_bytes then ow_remaining writer else workspace_bytes) in
        (case write_odc_bytes write writer (replicate bytes 0) of (ok, writer1) \<Rightarrow>
           if \<not> ok then (False, writer1) else write_padding write workspace_bytes writer1)
      else (True, writer))"
  by pat_completeness auto
termination
  by (relation "measure (\<lambda>(write, workspace_bytes, writer). ow_remaining writer)")
    (auto simp: write_odc_bytes_def split: if_splits prod.splits)

declare write_padding.simps [simp del]

type_synonym ('s, 'w) stream_outcome = "stream_status \<times> 's airdrop_source ptr \<times> bytes ptr \<times> 'w \<times> stream_result ptr"

text \<open>A sequence of writes that stops at the first refusal, as \<open>||\<close> does.\<close>

fun write_all :: "'w stream_write \<Rightarrow> 'w odc_writer \<Rightarrow> bytes list \<Rightarrow> bool \<times> 'w odc_writer" where
  "write_all write writer [] = (True, writer)"
| "write_all write writer (d # ds) =
     (case write_odc_bytes write writer d of (ok, writer1) \<Rightarrow>
        if \<not> ok then (False, writer1) else write_all write writer1 ds)"

definition espdrop_airdrop_stream_odc ::
  "'s airdrop_source ptr \<Rightarrow> bytes ptr \<Rightarrow> u32 \<Rightarrow> bytes ptr \<Rightarrow> nat \<Rightarrow> 'w stream_write ptr \<Rightarrow> 'w \<Rightarrow> stream_result ptr \<Rightarrow>
     ('s, 'w) stream_outcome" where
  "espdrop_airdrop_stream_odc source archive_path mtime workspace workspace_bytes write write_context result =
     (if source = NULL \<or> src_read (deref source) = NULL \<or> workspace = NULL \<or> workspace_bytes = 0 \<or>
         write = NULL \<or> result = NULL
      then (STREAM_INVALID, source, workspace, write_context, result)
      else
        let s = deref source; wr = deref write; path = deref archive_path in
        (case espdrop_airdrop_plan_stored_dvzip
                (Ptr \<lparr>plan_file_bytes = 0, plan_archive_bytes = 0, plan_dvzip_blocks = 0, plan_payload_bytes = 0\<rparr>)
                archive_path (src_size_bytes s) of (planned, plan_ptr) \<Rightarrow>
         if \<not> planned then (STREAM_SIZE, source, workspace, write_context, Ptr stream_result_zero)
         else
           let plan = deref plan_ptr;
               writer = \<lparr>ow_context = write_context, ow_remaining = plan_archive_bytes plan, ow_emitted = 0\<rparr> in
           (case write_odc_header 1 odc_mode mtime (length path + 1) (src_size_bytes s) of
              None \<Rightarrow> (STREAM_SINK, source, workspace, write_context, Ptr stream_result_zero)
            | Some header \<Rightarrow>
                (case write_all wr writer [header, path @ [0]] of (ok, writer1) \<Rightarrow>
                 if \<not> ok then (STREAM_SINK, source, workspace, ow_context writer1, Ptr stream_result_zero)
                 else
                   (case copy_source (deref (src_read s)) wr workspace_bytes (src_size_bytes s) 0xffffffff
                           \<lparr>st_source = src_context s, st_writer = writer1, st_workspace = deref workspace,
                            st_result = stream_result_zero\<rparr> of (status, st) \<Rightarrow>
                    let source1 = Ptr (s\<lparr>src_context := st_source st\<rparr>) in
                    if status \<noteq> STREAM_OK
                    then (status, source1, Ptr (st_workspace st), ow_context (st_writer st), Ptr (st_result st))
                    else
                      (case write_odc_header 0 0 0 (length odc_trailer) 0 of
                         None \<Rightarrow> (STREAM_SINK, source1, Ptr (st_workspace st), ow_context (st_writer st), Ptr (st_result st))
                       | Some header2 \<Rightarrow>
                           (case write_all wr (st_writer st) [header2, odc_trailer] of (ok2, writer2) \<Rightarrow>
                            if \<not> ok2
                            then (STREAM_SINK, source1, Ptr (st_workspace st), ow_context writer2, Ptr (st_result st))
                            else
                              let workspace1 = store (st_workspace st) 0 (replicate workspace_bytes 0) in
                              (case write_padding wr workspace_bytes writer2 of (ok3, writer3) \<Rightarrow>
                               if \<not> ok3
                               then (STREAM_SINK, source1, Ptr workspace1, ow_context writer3, Ptr (st_result st))
                               else
                                 let res = (st_result st)\<lparr>sr_archive_bytes := ow_emitted writer3,
                                             sr_payload_bytes := ow_emitted writer3\<rparr> in
                                 (if sr_source_bytes res \<noteq> plan_file_bytes plan \<or> sr_archive_bytes res \<noteq> plan_archive_bytes plan
                                  then STREAM_SIZE else STREAM_OK,
                                  source1, Ptr workspace1, ow_context writer3, Ptr res)))))))))"

definition espdrop_airdrop_stream_stored_dvzip ::
  "'s airdrop_source ptr \<Rightarrow> bytes ptr \<Rightarrow> u32 \<Rightarrow> bytes ptr \<Rightarrow> nat \<Rightarrow> 'w stream_write ptr \<Rightarrow> 'w \<Rightarrow> stream_result ptr \<Rightarrow>
     ('s, 'w) stream_outcome" where
  "espdrop_airdrop_stream_stored_dvzip source archive_path mtime workspace workspace_bytes write write_context result =
     (if source = NULL \<or> src_read (deref source) = NULL \<or> workspace = NULL \<or> workspace_bytes = 0 \<or>
         write = NULL \<or> result = NULL
      then (STREAM_INVALID, source, workspace, write_context, result)
      else
        (case espdrop_airdrop_plan_stored_dvzip
                (Ptr \<lparr>plan_file_bytes = 0, plan_archive_bytes = 0, plan_dvzip_blocks = 0, plan_payload_bytes = 0\<rparr>)
                archive_path (src_size_bytes (deref source)) of (planned, plan_ptr) \<Rightarrow>
         if \<not> planned then (STREAM_SIZE, source, workspace, write_context, Ptr stream_result_zero)
         else
           let plan = deref plan_ptr;
               writer = \<lparr>sw_context = write_context, sw_archive_remaining = plan_archive_bytes plan,
                         sw_block_remaining = 0, sw_result = stream_result_zero\<rparr> in
           (case espdrop_airdrop_stream_odc source archive_path mtime workspace workspace_bytes
                   (Ptr (write_stored_archive_sink (deref write))) writer (Ptr stream_result_zero)
              of (status, source1, workspace1, writer1, archive) \<Rightarrow>
              let res = (sw_result writer1)\<lparr>sr_source_bytes := sr_source_bytes (deref archive),
                          sr_workspace_high_water := sr_workspace_high_water (deref archive),
                          sr_source_crc32 := sr_source_crc32 (deref archive)\<rparr> in
              (if status \<noteq> STREAM_OK then status
               else if sw_archive_remaining writer1 \<noteq> 0 \<or> sw_block_remaining writer1 \<noteq> 0 \<or>
                       sr_archive_bytes res \<noteq> plan_archive_bytes plan \<or> sr_dvzip_blocks res \<noteq> plan_dvzip_blocks plan \<or>
                       sr_payload_bytes res \<noteq> plan_payload_bytes plan
               then STREAM_SIZE
               else STREAM_OK,
               source1, workspace1, sw_context writer1, Ptr res))))"

section \<open>HTTP pieces\<close>

definition upload_head_text :: "upload_identity \<Rightarrow> nat \<Rightarrow> bytes" where
  "upload_head_text identity total_bytes =
     ascii ''POST /Upload HTTP/1.1'' @ [13, 10] @
     ascii ''User-Agent: AirDrop/1.0'' @ [13, 10] @
     ascii ''TotalBytes: '' @ digits 10 total_bytes @ [13, 10] @
     ascii ''Content-Type: application/x-dvzip'' @ [13, 10] @
     ascii ''SenderPseudonym: '' @ id_sender_pseudonym identity @ [13, 10] @
     ascii ''SenderPushToken: '' @ id_sender_push_token identity @ [13, 10] @
     ascii ''TransferID: '' @ id_transfer_id identity @ [13, 10] @
     ascii ''Connection: keep-alive'' @ [13, 10] @
     ascii ''Transfer-Encoding: chunked'' @ [13, 10, 13, 10]"

definition espdrop_airdrop_build_upload_head ::
  "bytes ptr \<Rightarrow> nat \<Rightarrow> upload_identity ptr \<Rightarrow> nat \<Rightarrow> nat \<times> bytes ptr" where
  "espdrop_airdrop_build_upload_head output capacity identity total_bytes =
     (if output = NULL \<or> capacity = 0 \<or> total_bytes = 0 \<or> \<not> espdrop_airdrop_upload_identity_valid identity
      then (0, output)
      else
        let t = upload_head_text (deref identity) total_bytes in
        (if length t \<ge> capacity then 0 else length t, Ptr (snprintf_into (deref output) capacity t)))"

definition espdrop_airdrop_build_chunk_prefix :: "bytes ptr \<Rightarrow> nat \<Rightarrow> nat \<Rightarrow> nat \<times> bytes ptr" where
  "espdrop_airdrop_build_chunk_prefix output capacity payload_bytes =
     (if output = NULL \<or> capacity = 0 \<or> payload_bytes = 0 then (0, output)
      else
        let t = digits 16 payload_bytes @ [13, 10] in
        (if length t \<ge> capacity then 0 else length t, Ptr (snprintf_into (deref output) capacity t)))"

definition chunk_terminator :: bytes where
  "chunk_terminator = [48, 13, 10, 13, 10]"

definition espdrop_airdrop_build_chunk_terminator :: "bytes ptr \<Rightarrow> nat \<Rightarrow> nat \<times> bytes ptr" where
  "espdrop_airdrop_build_chunk_terminator output capacity =
     (if output = NULL \<or> capacity < length chunk_terminator then (0, output)
      else (length chunk_terminator, Ptr (store (deref output) 0 chunk_terminator)))"

section \<open>Anonymous identities\<close>

lemma alphabet_valid: "list_all pseudonym_char base64_alphabet" "length base64_alphabet = 64"
  by (simp_all add: base64_alphabet_def ascii_def pseudonym_char_def)

lemma mask6_less: "unat ((v :: u32) AND 0x3f) < 64"
proof -
  have "(0x3f :: u32) = mask 6" by (simp add: mask_eq_exp_minus_1)
  then have "unat (v AND 0x3f) = unat v mod 64"
    by (simp only: take_bit_eq_mask [symmetric]) (simp add: take_bit_eq_mod unat_mod)
  then show ?thesis by simp
qed

lemma base64_char_valid: "pseudonym_char (base64_char v)"
  using alphabet_valid mask6_less [of v] by (simp add: base64_char_def list_all_length)

lemma pseudonym_letters_valid: "list_all pseudonym_char (pseudonym_letters xs)"
  by (induction xs rule: pseudonym_letters.induct) (auto simp: base64_char_valid Let_def)

lemma length_pseudonym_letters: "length xs = 3 * k + 1 \<Longrightarrow> length (pseudonym_letters xs) = 4 * k + 2"
proof (induction k arbitrary: xs)
  case 0
  then show ?case by (cases xs) (auto simp: Let_def)
next
  case (Suc k)
  then have "length xs = Suc (Suc (Suc (3 * k + 1)))" by simp
  then obtain a b c ys where xs: "xs = a # b # c # ys" unfolding length_Suc_conv by blast
  with Suc show ?case by (simp add: Let_def)
qed

lemma upper_hex_valid: "list_all is_upper_hex upper_hex" "length upper_hex = 16"
  by (simp_all add: upper_hex_def ascii_def is_upper_hex_def)

lemma unat_low4: "unat ((b :: byte) AND 0x0f) < 16"
proof -
  have "(0x0f :: byte) = mask 4" by (simp add: mask_eq_exp_minus_1)
  then have "unat (b AND 0x0f) = unat b mod 16"
    by (simp only: take_bit_eq_mask [symmetric]) (simp add: take_bit_eq_mod unat_mod)
  then show ?thesis by simp
qed

lemma unat_high4: "unat (drop_bit 4 (b :: byte)) < 16"
  using unat_bound [of b] by (simp add: drop_bit_eq_div unat_div)

lemma push_token_chars:
  "list_all is_upper_hex (espdrop_airdrop_format_sender_push_token rs)"
  "length (espdrop_airdrop_format_sender_push_token rs) = 2 * length rs"
proof -
  have "is_upper_hex (upper_hex ! unat (drop_bit 4 b))" "is_upper_hex (upper_hex ! unat (b AND 15))" for b :: byte
    using upper_hex_valid unat_low4 [of b] unat_high4 [of b] by (simp_all add: list_all_length)
  then show "list_all is_upper_hex (espdrop_airdrop_format_sender_push_token rs)"
    by (induction rs) (simp_all add: espdrop_airdrop_format_sender_push_token_def)
  show "length (espdrop_airdrop_format_sender_push_token rs) = 2 * length rs"
    by (induction rs) (simp_all add: espdrop_airdrop_format_sender_push_token_def)
qed

lemma all_indices: "list_all p xs \<Longrightarrow> j \<le> length xs \<Longrightarrow> list_all (\<lambda>i. p (xs ! i)) [k..<j]"
  by (simp add: list_all_iff)

lemma format_sender_pseudonym_valid: "length r = 16 \<Longrightarrow> pseudonym_valid (Ptr (espdrop_airdrop_format_sender_pseudonym r))"
proof -
  assume r: "length r = 16"
  let ?l = "pseudonym_letters r"
  have l: "length ?l = 22" using length_pseudonym_letters [of r 5] r by simp
  have "list_all (\<lambda>i. pseudonym_char ((ascii ''pseud:'' @ ?l) ! i)) [6..<28]"
    using pseudonym_letters_valid [of r] l by (simp add: list_all_iff nth_append)
  moreover have "memcmp (ascii ''pseud:'' @ ?l) (ascii ''pseud:'') 6 = 0" by (simp add: memcmp_def)
  ultimately show ?thesis using l by (simp add: pseudonym_valid_def espdrop_airdrop_format_sender_pseudonym_def)
qed

lemma format_sender_push_token_valid: "length r = 32 \<Longrightarrow> push_token_valid (Ptr (espdrop_airdrop_format_sender_push_token r))"
  using push_token_chars [of r] by (simp add: push_token_valid_def all_indices)

definition anonymous_identity :: "bytes \<Rightarrow> bytes \<Rightarrow> bytes \<Rightarrow> upload_identity" where
  "anonymous_identity transfer_id r1 r2 = \<lparr>id_transfer_id = transfer_id,
     id_sender_pseudonym = espdrop_airdrop_format_sender_pseudonym r1,
     id_sender_push_token = espdrop_airdrop_format_sender_push_token r2\<rparr>"

text \<open>
  The identity fields the sender makes up always pass the sender's own validation, and the
  request head always fits: with any random bytes and a valid transfer identifier, the head for
  any announced size up to the largest \<^verbatim>\<open>size_t\<close> is built whole in the 512-byte buffer; without a
  valid identity or with nothing to send no head is built.
\<close>

theorem upload_head_builds:
  assumes "length r1 = 16" and "length r2 = 32" and "0 < total_bytes" and "total_bytes \<le> SIZE_MAX" and "length buf = 512"
  shows "espdrop_airdrop_build_upload_head (Ptr buf) 512 (Ptr (anonymous_identity tid r1 r2)) total_bytes =
     (if espdrop_airdrop_transfer_id_valid (Ptr tid)
      then (length (upload_head_text (anonymous_identity tid r1 r2) total_bytes),
            Ptr (upload_head_text (anonymous_identity tid r1 r2) total_bytes @ [0] @
                 drop (length (upload_head_text (anonymous_identity tid r1 r2) total_bytes) + 1) buf))
      else (0, Ptr buf))"
proof -
  have v: "espdrop_airdrop_upload_identity_valid (Ptr (anonymous_identity tid r1 r2)) = espdrop_airdrop_transfer_id_valid (Ptr tid)"
    using format_sender_pseudonym_valid [OF assms(1)] format_sender_push_token_valid [OF assms(2)]
    by (simp add: espdrop_airdrop_upload_identity_valid_def anonymous_identity_def)
  show ?thesis
  proof (cases "espdrop_airdrop_transfer_id_valid (Ptr tid)")
    case False
    then show ?thesis using v by (simp add: espdrop_airdrop_build_upload_head_def)
  next
    case True
    have t: "length tid = 36" using True by (simp add: espdrop_airdrop_transfer_id_valid_def split: if_splits)
    have p: "length (espdrop_airdrop_format_sender_pseudonym r1) = 28"
      using format_sender_pseudonym_valid [OF assms(1)] by (simp add: pseudonym_valid_def split: if_splits)
    have k: "length (espdrop_airdrop_format_sender_push_token r2) = 64" using push_token_chars(2) assms(2) by simp
    have d: "length (digits 10 total_bytes) \<le> 10" using assms(4) by (intro length_digits_le) (simp_all add: SIZE_MAX_def)
    define t0 where "t0 = upload_head_text (anonymous_identity tid r1 r2) total_bytes"
    have l: "length t0 < 512" using t p k d by (simp add: t0_def upload_head_text_def anonymous_identity_def)
    then have "take 511 t0 = t0" by simp
    with l True v assms(3,5) show ?thesis
      by (simp add: espdrop_airdrop_build_upload_head_def snprintf_into_def store_def t0_def [symmetric])
  qed
qed

theorem upload_head_builds_witness:
  "espdrop_airdrop_build_upload_head (Ptr (replicate 512 0)) 512
     (Ptr (anonymous_identity (ascii ''01234567-89AB-CDEF-0123-456789ABCDEF'') (replicate 16 7) (replicate 32 9))) 4096 =
   (let t = upload_head_text (anonymous_identity (ascii ''01234567-89AB-CDEF-0123-456789ABCDEF'') (replicate 16 7) (replicate 32 9)) 4096
    in (length t, Ptr (t @ [0] @ drop (length t + 1) (replicate 512 0))))"
proof -
  have "espdrop_airdrop_transfer_id_valid (Ptr (ascii ''01234567-89AB-CDEF-0123-456789ABCDEF''))" by code_simp
  then show ?thesis
    using upload_head_builds [of "replicate 16 7" "replicate 32 9" 4096 "replicate 512 0" "ascii ''01234567-89AB-CDEF-0123-456789ABCDEF''"]
    by (simp only: if_True Let_def) (simp add: SIZE_MAX_def)
qed

end
