(* ===== verification/Upload_Stream.thy ===== *)
theory Upload_Stream
  imports Airdrop_Upload
begin

text \<open>
  Correctness of the upload payload: the contiguous ODC writer, the streaming ODC writer over
  the interfaces \<open>byte_source\<close> and \<open>byte_sink\<close>, and the stored dvzip writer, which is a sink of
  archive bytes over any sink of payload bytes (\<open>stored_sink\<close>, a sublocale). Reference readers of
  both formats show that a receiver recovers the path and the file.
\<close>

section \<open>Headers and sizes\<close>

lemma length_octal_field: "n < 8 ^ w \<Longrightarrow> 0 < w \<Longrightarrow> length (octal_field w n) = w"
  by (simp add: octal_field_def length_zero_padded length_digits_le)

lemma write_odc_header_Some:
  assumes "0 < name_bytes" "name_bytes \<le> 262143" "unat inode < 262144" "unat mode < 262144" "file_bytes \<le> SIZE_MAX"
  shows "write_odc_header inode mode mtime name_bytes file_bytes = Some (odc_header_text inode mode mtime name_bytes file_bytes)"
    and "length (odc_header_text inode mode mtime name_bytes file_bytes) = 76"
proof -
  have m: "unat mtime < 8589934592" using unat_bound [of mtime] by simp
  show l: "length (odc_header_text inode mode mtime name_bytes file_bytes) = 76"
    using assms m by (simp add: odc_header_text_def length_octal_field SIZE_MAX_def)
  show "write_odc_header inode mode mtime name_bytes file_bytes = Some (odc_header_text inode mode mtime name_bytes file_bytes)"
    using assms l by (simp add: write_odc_header_def ESPDROP_AIRDROP_ODC_HEADER_BYTES_def)
qed

definition trailer_header :: bytes where
  "trailer_header = odc_header_text 0 0 0 11 0"

lemma length_odc_trailer [simp]: "length odc_trailer = 11"
  by (simp add: odc_trailer_def)

lemma write_trailer_header: "write_odc_header 0 0 0 (length odc_trailer) 0 = Some trailer_header" "length trailer_header = 76"
  using write_odc_header_Some [of 11 0 0 0 0] by (simp_all add: trailer_header_def)

lemma odc_archive_bytes_ge: "n \<le> odc_archive_bytes n"
proof -
  have "n + 10239 = (n + 10239) div 10240 * 10240 + (n + 10239) mod 10240" by simp
  moreover have "(n + 10239) mod 10240 < 10240" by simp
  ultimately show ?thesis unfolding odc_archive_bytes_def upload_consts by simp
qed

lemma odc_archive_bytes_less: "odc_archive_bytes n < n + 10240"
  unfolding odc_archive_bytes_def upload_consts
  using div_times_less_eq_dividend [of "n + 10240 - 1" 10240] by simp

lemma archive_path_length: "archive_path_valid (Ptr p) \<Longrightarrow> 3 \<le> length p \<and> length p \<le> 255"
  by (auto simp: archive_path_valid_def Let_def split: if_splits)

section \<open>The archive a file becomes\<close>

definition odc_body :: "bytes \<Rightarrow> u32 \<Rightarrow> bytes \<Rightarrow> bytes" where
  "odc_body path mtime file =
     odc_header_text 1 odc_mode mtime (length path + 1) (length file) @ path @ [0] @ file @ trailer_header @ odc_trailer"

definition odc_archive :: "bytes \<Rightarrow> u32 \<Rightarrow> bytes \<Rightarrow> bytes" where
  "odc_archive path mtime file =
     (let body = odc_body path mtime file in body @ replicate (odc_archive_bytes (length body) - length body) 0)"

text \<open>The size guards of the planner, the contiguous and the streaming writer.\<close>

definition upload_fits :: "bytes \<Rightarrow> nat \<Rightarrow> bool" where
  "upload_fits path n \<longleftrightarrow> n \<le> SIZE_MAX - odc_fixed_bytes path \<and>
     odc_fixed_bytes path + n \<le> SIZE_MAX - (ESPDROP_AIRDROP_ODC_BLOCK_BYTES - 1)"

lemma odc_fixed_bytes_eq: "odc_fixed_bytes path = 164 + length path"
  by (simp add: odc_fixed_bytes_def upload_consts)

lemma upload_fits_iff: "length path \<le> 255 \<Longrightarrow> upload_fits path n \<longleftrightarrow> 164 + length path + n \<le> 4294957056"
  by (auto simp: upload_fits_def odc_fixed_bytes_eq upload_consts SIZE_MAX_def)

lemma file_header_Some:
  assumes "length path \<le> 255" "upload_fits path n"
  shows "write_odc_header 1 odc_mode mtime (Suc (length path)) n = Some (odc_header_text 1 odc_mode mtime (length path + 1) n)"
    and "length (odc_header_text 1 odc_mode mtime (length path + 1) n) = 76"
proof -
  have n: "n \<le> SIZE_MAX" using assms(2) unfolding upload_fits_def by linarith
  show "write_odc_header 1 odc_mode mtime (Suc (length path)) n = Some (odc_header_text 1 odc_mode mtime (length path + 1) n)"
    and "length (odc_header_text 1 odc_mode mtime (length path + 1) n) = 76"
    using write_odc_header_Some [of "length path + 1" 1 odc_mode n mtime] assms(1) n
    by (simp_all add: odc_mode_def)
qed

lemma length_odc_body:
  "length path \<le> 255 \<Longrightarrow> upload_fits path (length file) \<Longrightarrow> length (odc_body path mtime file) = odc_fixed_bytes path + length file"
  using file_header_Some(2) [of path "length file" mtime] write_trailer_header(2)
  by (simp add: odc_body_def odc_fixed_bytes_eq)

lemma length_odc_archive:
  "length path \<le> 255 \<Longrightarrow> upload_fits path (length file) \<Longrightarrow>
     length (odc_archive path mtime file) = odc_archive_bytes (odc_fixed_bytes path + length file)"
  using odc_archive_bytes_ge by (simp add: odc_archive_def length_odc_body Let_def)

lemma store_store_append: "length xs = k \<Longrightarrow> k \<le> length buf \<Longrightarrow> store (store buf 0 xs) k ys = store buf 0 (xs @ ys)"
  by (simp add: store_def add.commute)

lemma build_odc_archive_eq:
  assumes valid: "archive_path_valid (Ptr path)" and fits: "upload_fits path (length file)"
    and cap: "odc_archive_bytes (odc_fixed_bytes path + length file) \<le> capacity" "capacity \<le> length buf"
  shows "espdrop_airdrop_build_odc_archive (Ptr buf) capacity (Ptr path) (Ptr file) (length file) mtime =
     (odc_archive_bytes (odc_fixed_bytes path + length file), Ptr (store buf 0 (odc_archive path mtime file)))"
proof -
  have p: "length path \<le> 255" using archive_path_length [OF valid] by simp
  let ?A = "odc_archive_bytes (odc_fixed_bytes path + length file)"
  let ?h = "odc_header_text 1 odc_mode mtime (length path + 1) (length file)"
  note h = file_header_Some [OF p fits, of mtime]
  have ge: "164 + length path + length file \<le> ?A" using odc_archive_bytes_ge [of "odc_fixed_bytes path + length file"]
    by (simp add: odc_fixed_bytes_eq)
  then have room: "164 + length path + length file \<le> length buf" using cap by linarith
  have s3: "store (store buf 0 (?h @ path @ [0])) (76 + (length path + 1)) file =
      store buf 0 (?h @ path @ [0] @ file)"
    using h(2) room by (simp add: store_store_append)
  have s2: "store (store buf 0 ?h) 76 (path @ [0]) = store buf 0 (?h @ path @ [0])"
    using h(2) room by (simp add: store_store_append)
  have s5: "store (store (store (store buf 0 (?h @ path @ [0] @ file)) (76 + (length path + 1) + length file) trailer_header)
      (76 + (length path + 1) + length file + 76) odc_trailer) (76 + (length path + 1) + length file + 76 + 11)
      (replicate (?A - (76 + (length path + 1) + length file + 76 + 11)) 0) = store buf 0 (odc_archive path mtime file)"
    using h(2) room write_trailer_header(2)
    by (simp add: store_store_append odc_archive_def odc_body_def Let_def odc_fixed_bytes_eq ac_simps)
  have write_file: "(if 0 < length file then (store b k (take (length file) file), k + length file) else (b, k)) =
      (store b k file, k + length file)" for b k
    by (cases "file") auto
  show ?thesis
    using valid cap fits h(1) write_trailer_header(1)
    unfolding espdrop_airdrop_build_odc_archive_def Let_def
    by (simp only: ptr.sel write_file ptr.distinct upload_fits_def not_less [symmetric] ESPDROP_AIRDROP_ODC_HEADER_BYTES_def
        option.case prod.case simp_thms if_False s2 s3 s5 length_odc_trailer Suc_eq_plus1)
qed

section \<open>Sources and sinks\<close>

text \<open>
  What the streaming writer relies on. A source delivers a prefix of what it has pending, at
  least one byte while something is requested and pending; a sink that reports success has
  appended the bytes to what it accepted.
\<close>

locale byte_source =
  fixes get :: "'s source_read"
    and pending :: "'s \<Rightarrow> bytes \<Rightarrow> bool"
  assumes get_delivers: "pending s xs \<Longrightarrow> 0 < n \<Longrightarrow> n \<le> length xs \<Longrightarrow>
    \<exists>k s'. get s n = (True, take k xs, k, s') \<and> 0 < k \<and> k \<le> n \<and> pending s' (drop k xs)"
begin

lemma fill_workspace_delivers:
  "pending s xs \<Longrightarrow> buffered \<le> requested \<Longrightarrow> requested - buffered \<le> length xs \<Longrightarrow> requested \<le> length ws \<Longrightarrow>
     \<exists>s' ws'. fill_workspace get s ws buffered requested = (STREAM_OK, s', ws') \<and> length ws' = length ws \<and>
       take requested ws' = take buffered ws @ take (requested - buffered) xs \<and> pending s' (drop (requested - buffered) xs)"
proof (induction "requested - buffered" arbitrary: s xs ws buffered rule: less_induct)
  case less
  show ?case
  proof (cases "buffered < requested")
    case False
    then show ?thesis using less.prems by (simp add: fill_workspace.simps)
  next
    case True
    then obtain k s1 where k: "get s (requested - buffered) = (True, take k xs, k, s1)" "0 < k" "k \<le> requested - buffered"
      "pending s1 (drop k xs)"
      using get_delivers [of s xs "requested - buffered"] less.prems by auto
    let ?ws = "store ws buffered (take k xs)"
    have len: "length ?ws = length ws" using k(3) less.prems True by simp
    have pre: "take (buffered + k) ?ws = take buffered ws @ take k xs"
      using k(3) less.prems True by (simp add: store_def min_absorb2)
    have step: "requested - (buffered + k) < requested - buffered" "buffered + k \<le> requested"
      "requested - (buffered + k) \<le> length (drop k xs)" "requested \<le> length ?ws"
      using k(2,3) less.prems True len by simp_all
    obtain s' ws' where r: "fill_workspace get s1 ?ws (buffered + k) requested = (STREAM_OK, s', ws')" "length ws' = length ?ws"
      "take requested ws' = take (buffered + k) ?ws @ take (requested - (buffered + k)) (drop k xs)"
      "pending s' (drop (requested - (buffered + k)) (drop k xs))"
      using less.hyps [OF step(1) k(4) step(2-4)] by blast
    have "take (requested - buffered) xs = take k xs @ take (requested - (buffered + k)) (drop k xs)"
      using k(3) by (metis add_diff_inverse_nat diff_diff_left not_less take_add)
    then show ?thesis
      using r k True len pre by (simp add: fill_workspace.simps [of get s])
  qed
qed

end

locale byte_sink =
  fixes put :: "'w stream_write"
    and accepted :: "'w \<Rightarrow> bytes \<Rightarrow> bool"
  assumes put_accepts: "accepted w xs \<Longrightarrow> put w d = (True, w') \<Longrightarrow> accepted w' (xs @ d)"
begin

text \<open>A sink is willing up to a limit when it refuses nothing below it.\<close>

definition willing :: "nat \<Rightarrow> bool" where
  "willing limit \<longleftrightarrow> (\<forall>w xs d. accepted w xs \<and> length xs + length d \<le> limit \<longrightarrow> fst (put w d))"

text \<open>The writer has emitted \<open>ys\<close> after the base \<open>pre\<close> and has room for the rest of \<open>total\<close> bytes.\<close>

definition writer_at :: "bytes \<Rightarrow> nat \<Rightarrow> 'w odc_writer \<Rightarrow> bytes \<Rightarrow> bool" where
  "writer_at pre total_bytes w ys \<longleftrightarrow> accepted (ow_context w) (pre @ ys) \<and> ow_emitted w = length ys \<and>
     ow_remaining w + length ys = total_bytes"

lemma write_odc_bytes_at:
  assumes at: "writer_at pre n w ys" and room: "length ys + length d \<le> n"
  shows "(\<exists>w'. write_odc_bytes put w d = (True, w') \<and> writer_at pre n w' (ys @ d)) \<or>
    (\<exists>w'. write_odc_bytes put w d = (False, w') \<and> \<not> willing (length pre + n))"
proof -
  obtain g c where p: "put (ow_context w) d = (g, c)" by force
  have r: "\<not> ow_remaining w < length d" using at room by (auto simp: writer_at_def)
  show ?thesis
  proof (cases g)
    case True
    then have "accepted c ((pre @ ys) @ d)" using put_accepts [of "ow_context w" "pre @ ys" d c] at p by (simp add: writer_at_def)
    then show ?thesis using at room p r True by (auto simp: write_odc_bytes_def writer_at_def)
  next
    case False
    have "\<not> willing (length pre + n)"
    proof
      assume "willing (length pre + n)"
      moreover have "accepted (ow_context w) (pre @ ys) \<and> length (pre @ ys) + length d \<le> length pre + n"
        using at room by (simp add: writer_at_def)
      ultimately have "fst (put (ow_context w) d)" unfolding willing_def by blast
      then show False using p False by simp
    qed
    then show ?thesis using p r False by (auto simp: write_odc_bytes_def)
  qed
qed

lemma write_all_at:
  "writer_at pre n w ys \<Longrightarrow> length ys + length (concat ds) \<le> n \<Longrightarrow>
    (\<exists>w'. write_all put w ds = (True, w') \<and> writer_at pre n w' (ys @ concat ds)) \<or>
    (\<exists>w'. write_all put w ds = (False, w') \<and> \<not> willing (length pre + n))"
proof (induction ds arbitrary: w ys)
  case Nil
  then show ?case by simp
next
  case (Cons d ds)
  then have "length ys + length d \<le> n" by simp
  from write_odc_bytes_at [OF Cons.prems(1) this] show ?case
  proof (elim disjE exE conjE)
    fix w1 assume w1: "write_odc_bytes put w d = (True, w1)" "writer_at pre n w1 (ys @ d)"
    then show ?thesis using Cons.IH [OF w1(2)] Cons.prems(2) by auto
  qed auto
qed

lemma write_padding_at:
  "writer_at pre n w ys \<Longrightarrow> 0 < workspace_bytes \<Longrightarrow>
    (\<exists>w'. write_padding put workspace_bytes w = (True, w') \<and> writer_at pre n w' (ys @ replicate (n - length ys) 0)) \<or>
    (\<exists>w'. write_padding put workspace_bytes w = (False, w') \<and> \<not> willing (length pre + n))"
proof (induction "ow_remaining w" arbitrary: w ys rule: less_induct)
  case less
  have n: "n - length ys = ow_remaining w" "length ys \<le> n" using less.prems(1) by (auto simp: writer_at_def)
  show ?case
  proof (cases "ow_remaining w > 0")
    case False
    then show ?thesis using less.prems n by (simp add: write_padding.simps)
  next
    case True
    define k where "k = (if ow_remaining w < workspace_bytes then ow_remaining w else workspace_bytes)"
    have k: "0 < k" "k \<le> ow_remaining w" using True less.prems(2) by (auto simp: k_def)
    have "length ys + length (replicate k (0 :: byte)) \<le> n" using k n by simp
    from write_odc_bytes_at [OF less.prems(1) this] show ?thesis
    proof (elim disjE exE conjE)
      fix w1 assume w1: "write_odc_bytes put w (replicate k 0) = (True, w1)" "writer_at pre n w1 (ys @ replicate k 0)"
      have lt: "ow_remaining w1 < ow_remaining w" using w1(2) less.prems(1) k by (auto simp: writer_at_def)
      have "(ys @ replicate k 0) @ replicate (n - length (ys @ replicate k (0 :: byte))) 0 = ys @ replicate (n - length ys) (0 :: byte)"
        using k n by (simp add: replicate_add [symmetric])
      with less.hyps [OF lt w1(2) less.prems(2)] show ?thesis
        using w1(1) True less.prems(2) by (simp add: write_padding.simps [of put workspace_bytes w] k_def [symmetric])
    next
      fix w1 assume "write_odc_bytes put w (replicate k 0) = (False, w1)" "\<not> willing (length pre + n)"
      then show ?thesis
        using True less.prems(2) by (simp add: write_padding.simps [of put workspace_bytes w] k_def [symmetric])
    qed
  qed
qed

end

declare write_all.simps [simp del]

lemma crc32_update_append: "crc32_update c (xs @ ys) = crc32_update (crc32_update c xs) ys"
  by (simp add: crc32_update_def)

definition crc32 :: "bytes \<Rightarrow> u32" where
  "crc32 data = crc32_update 0xffffffff data XOR 0xffffffff"

lemma crc32_Nil [simp]: "crc32 [] = 0"
  by (simp add: crc32_def crc32_update_def)

text \<open>The planner's answer when the path is valid and the file fits.\<close>

definition upload_plan :: "bytes \<Rightarrow> nat \<Rightarrow> stream_plan" where
  "upload_plan path n =
     (let archive_bytes = odc_archive_bytes (odc_fixed_bytes path + n);
          blocks = (131071 + archive_bytes) div 131072 in
      \<lparr>plan_file_bytes = n, plan_archive_bytes = archive_bytes, plan_dvzip_blocks = blocks,
       plan_payload_bytes = archive_bytes + blocks * 4\<rparr>)"

definition planned_size :: "bytes \<Rightarrow> nat \<Rightarrow> bool" where
  "planned_size path n \<longleftrightarrow> archive_path_valid (Ptr path) \<and> upload_fits path n \<and>
     plan_payload_bytes (upload_plan path n) \<le> SIZE_MAX"

lemma odc_archive_bytes_max: "upload_fits path n \<Longrightarrow> length path \<le> 255 \<Longrightarrow> odc_archive_bytes (odc_fixed_bytes path + n) \<le> SIZE_MAX"
  using odc_archive_bytes_less [of "odc_fixed_bytes path + n"]
  by (simp add: upload_fits_iff odc_fixed_bytes_eq SIZE_MAX_def)

lemma plan_stored_dvzip_eq:
  "espdrop_airdrop_plan_stored_dvzip (Ptr p0) (Ptr path) n =
     (if planned_size path n then (True, Ptr (upload_plan path n)) else (False, Ptr p0))"
proof (cases "archive_path_valid (Ptr path) \<and> upload_fits path n")
  case False
  then show ?thesis
    by (auto simp: espdrop_airdrop_plan_stored_dvzip_def planned_size_def upload_fits_def Let_def not_le)
next
  case True
  then have le: "odc_archive_bytes (odc_fixed_bytes path + n) \<le> SIZE_MAX"
    using odc_archive_bytes_max archive_path_length by blast
  have "(b \<le> (SIZE_MAX - a) div 4) = (a + b * 4 \<le> SIZE_MAX)" if "a \<le> SIZE_MAX" for a b
    using that by (simp add: less_eq_div_iff_mult_less_eq) linarith
  from this [OF le] True show ?thesis
    by (simp add: espdrop_airdrop_plan_stored_dvzip_def planned_size_def upload_plan_def upload_fits_def Let_def
        ESPDROP_AIRDROP_DVZIP_BLOCK_HEADER_BYTES_def ESPDROP_AIRDROP_DVZIP_STREAM_BLOCK_BYTES_def not_le [symmetric])
qed

locale upload_stream = src: byte_source get pending + snk: byte_sink put accepted
  for get :: "'s source_read" and pending :: "'s \<Rightarrow> bytes \<Rightarrow> bool"
    and put :: "'w stream_write" and accepted :: "'w \<Rightarrow> bytes \<Rightarrow> bool"
begin

lemma copy_source_at:
  assumes "pending (st_source st) xs" "remaining \<le> length xs" "0 < workspace_bytes" "workspace_bytes \<le> length (st_workspace st)"
    "snk.writer_at pre n (st_writer st) ys" "length ys + remaining \<le> n" "sr_source_crc32 (st_result st) = crc XOR 0xffffffff"
    "sr_workspace_high_water (st_result st) \<le> workspace_bytes"
  shows "(\<exists>st'. copy_source get put workspace_bytes remaining crc st = (STREAM_OK, st') \<and>
      snk.writer_at pre n (st_writer st') (ys @ take remaining xs) \<and> pending (st_source st') (drop remaining xs) \<and>
      length (st_workspace st') = length (st_workspace st) \<and>
      sr_source_bytes (st_result st') = sr_source_bytes (st_result st) + remaining \<and>
      sr_workspace_high_water (st_result st') \<le> workspace_bytes \<and>
      sr_source_crc32 (st_result st') = crc32_update crc (take remaining xs) XOR 0xffffffff) \<or>
    (\<exists>st'. copy_source get put workspace_bytes remaining crc st = (STREAM_SINK, st') \<and> \<not> snk.willing (length pre + n))"
  using assms
proof (induction remaining arbitrary: crc st xs ys rule: less_induct)
  case (less remaining)
  show ?case
  proof (cases "remaining = 0")
    case True
    then show ?thesis using less.prems by (simp add: copy_source.simps crc32_update_def)
  next
    case False
    define r where "r = (if remaining < workspace_bytes then remaining else workspace_bytes)"
    have r: "0 < r" "r \<le> remaining" "r \<le> workspace_bytes" using False less.prems(3) by (auto simp: r_def)
    then obtain c ws where f: "fill_workspace get (st_source st) (st_workspace st) 0 r = (STREAM_OK, c, ws)"
      "length ws = length (st_workspace st)" "take r ws = take r xs" "pending c (drop r xs)"
      using src.fill_workspace_delivers [OF less.prems(1), of 0 r "st_workspace st"] less.prems(2,4) by auto
    define res where "res = (st_result st)\<lparr>sr_source_bytes := sr_source_bytes (st_result st) + r,
       sr_source_crc32 := crc32_update crc (take r xs) XOR 0xffffffff,
       sr_workspace_high_water := (if r > sr_workspace_high_water (st_result st) then r else sr_workspace_high_water (st_result st))\<rparr>"
    have room: "length ys + length (take r xs) \<le> n" using r less.prems(2,6) by simp
    have unfold: "copy_source get put workspace_bytes remaining crc st =
       (case write_odc_bytes put (st_writer st) (take r xs) of (ok, writer) \<Rightarrow>
          let st3 = st\<lparr>st_source := c, st_workspace := ws, st_result := res, st_writer := writer\<rparr> in
          if \<not> ok then (STREAM_SINK, st3)
          else copy_source get put workspace_bytes (remaining - r) (crc32_update crc (take r xs)) st3)"
      using False less.prems(3) f(1,3)
      by (simp add: copy_source.simps [of get put workspace_bytes remaining] r_def [symmetric] res_def Let_def split: prod.split)
    from snk.write_odc_bytes_at [OF less.prems(5) room] show ?thesis
    proof (elim disjE exE conjE)
      fix w1 assume w1: "write_odc_bytes put (st_writer st) (take r xs) = (True, w1)" "snk.writer_at pre n w1 (ys @ take r xs)"
      let ?st = "st\<lparr>st_source := c, st_workspace := ws, st_result := res, st_writer := w1\<rparr>"
      have "take r xs @ take (remaining - r) (drop r xs) = take remaining xs" "drop (remaining - r) (drop r xs) = drop remaining xs"
        using r by (simp_all add: take_add [symmetric])
      moreover have "remaining - r < remaining" using r by simp
      ultimately show ?thesis
        using less.IH [of "remaining - r" ?st "drop r xs" "ys @ take r xs" "crc32_update crc (take r xs)"] w1 f r less.prems
        by (simp add: unfold Let_def res_def crc32_update_append [symmetric])
    next
      fix w1 assume "write_odc_bytes put (st_writer st) (take r xs) = (False, w1)" "\<not> snk.willing (length pre + n)"
      then show ?thesis by (simp add: unfold Let_def)
    qed
  qed
qed

lemma stream_odc_at:
  assumes plan: "planned_size path (src_size_bytes s)" and rd: "src_read s = Ptr get"
    and pend: "pending (src_context s) content" "src_size_bytes s \<le> length content"
    and ws: "0 < workspace_bytes" "workspace_bytes \<le> length ws" and acc: "accepted c pre"
    and archive_def: "archive = odc_archive path mtime (take (src_size_bytes s) content)"
  shows "(\<exists>s' ws' c' r. espdrop_airdrop_stream_odc (Ptr s) (Ptr path) mtime (Ptr ws) workspace_bytes (Ptr put) c (Ptr r0) =
        (STREAM_OK, Ptr s', Ptr ws', c', Ptr r) \<and> accepted c' (pre @ archive) \<and>
        pending (src_context s') (drop (src_size_bytes s) content) \<and> sr_source_bytes r = src_size_bytes s \<and>
        sr_archive_bytes r = length archive \<and> sr_source_crc32 r = crc32 (take (src_size_bytes s) content) \<and>
        sr_workspace_high_water r \<le> workspace_bytes) \<or>
    (\<exists>s' ws' c' r. espdrop_airdrop_stream_odc (Ptr s) (Ptr path) mtime (Ptr ws) workspace_bytes (Ptr put) c (Ptr r0) =
        (STREAM_SINK, Ptr s', Ptr ws', c', Ptr r)) \<and> \<not> snk.willing (length pre + length archive)"
proof -
  let ?n = "src_size_bytes s" and ?file = "take (src_size_bytes s) content"
  have p: "length path \<le> 255" "upload_fits path ?n" using plan archive_path_length by (auto simp: planned_size_def)
  have fl: "length ?file = ?n" using pend(2) by simp
  define head where "head = odc_header_text 1 odc_mode mtime (length path + 1) ?n"
  note h = file_header_Some [OF p, of mtime, folded head_def]
  let ?A = "odc_archive_bytes (odc_fixed_bytes path + ?n)"
  have la: "length archive = ?A" using length_odc_archive [of path ?file mtime] p fl by (simp add: archive_def)
  have A: "164 + length path + ?n \<le> ?A" using odc_archive_bytes_ge [of "odc_fixed_bytes path + ?n"] by (simp add: odc_fixed_bytes_eq)
  have body: "archive = head @ path @ [0] @ ?file @ trailer_header @ odc_trailer @ replicate (?A - (164 + length path + ?n)) 0"
  proof -
    have "length (odc_body path mtime ?file) = 164 + length path + ?n"
      using length_odc_body [of path ?file mtime] p fl by (simp add: odc_fixed_bytes_eq)
    then have "archive = odc_body path mtime ?file @ replicate (?A - (164 + length path + ?n)) 0"
      by (simp add: archive_def odc_archive_def Let_def odc_fixed_bytes_eq)
    then show ?thesis using fl by (simp add: odc_body_def head_def)
  qed
  define w0 where "w0 = \<lparr>ow_context = c, ow_remaining = ?A, ow_emitted = 0\<rparr>"
  have w0: "snk.writer_at pre ?A w0 []" using acc by (simp add: w0_def snk.writer_at_def)
  have pl: "plan_archive_bytes (upload_plan path ?n) = ?A" "plan_file_bytes (upload_plan path ?n) = ?n"
    by (simp_all add: upload_plan_def Let_def)
  note start = espdrop_airdrop_stream_odc_def plan_stored_dvzip_eq plan rd ws(1) h(1) pl w0_def [symmetric]
  have "length ([] :: bytes) + length (concat [head, path @ [0]]) \<le> ?A" using h(2) A by simp
  from snk.write_all_at [OF w0 this] show ?thesis
  proof (elim disjE exE conjE)
    fix w1 assume "write_all put w0 [head, path @ [0]] = (False, w1)" "\<not> snk.willing (length pre + ?A)"
    then show ?thesis by (simp add: start Let_def la)
  next
    fix w1 assume w1: "write_all put w0 [head, path @ [0]] = (True, w1)" "snk.writer_at pre ?A w1 ([] @ concat [head, path @ [0]])"
    define st0 where "st0 = \<lparr>st_source = src_context s, st_writer = w1, st_workspace = ws, st_result = stream_result_zero\<rparr>"
    have "length ([] @ concat [head, path @ [0]]) + ?n \<le> ?A" using h(2) A by simp
    with copy_source_at [of st0 content ?n workspace_bytes pre ?A "[] @ concat [head, path @ [0]]" "0xffffffff"]
    have cp: "(\<exists>st'. copy_source get put workspace_bytes ?n 0xffffffff st0 = (STREAM_OK, st') \<and>
        snk.writer_at pre ?A (st_writer st') (head @ path @ [0] @ ?file) \<and> pending (st_source st') (drop ?n content) \<and>
        length (st_workspace st') = length ws \<and> sr_source_bytes (st_result st') = ?n \<and>
        sr_workspace_high_water (st_result st') \<le> workspace_bytes \<and> sr_source_crc32 (st_result st') = crc32 ?file) \<or>
      (\<exists>st'. copy_source get put workspace_bytes ?n 0xffffffff st0 = (STREAM_SINK, st') \<and> \<not> snk.willing (length pre + ?A))"
      using pend ws w1(2) by (simp add: st0_def stream_result_zero_def crc32_def)
    note copied = start w1(1) st0_def [symmetric] Let_def
    from cp show ?thesis
    proof (elim disjE exE conjE)
      fix st' assume "copy_source get put workspace_bytes ?n 0xffffffff st0 = (STREAM_SINK, st')" "\<not> snk.willing (length pre + ?A)"
      then show ?thesis by (simp add: copied la)
    next
      fix st' assume st: "copy_source get put workspace_bytes ?n 0xffffffff st0 = (STREAM_OK, st')"
        "snk.writer_at pre ?A (st_writer st') (head @ path @ [0] @ ?file)" "pending (st_source st') (drop ?n content)"
        "length (st_workspace st') = length ws" "sr_source_bytes (st_result st') = ?n"
        "sr_workspace_high_water (st_result st') \<le> workspace_bytes" "sr_source_crc32 (st_result st') = crc32 ?file"
      let ?ys = "head @ path @ [0] @ ?file"
      have "length ?ys + length (concat [trailer_header, odc_trailer]) \<le> ?A" using h(2) A fl write_trailer_header(2) by simp
      from snk.write_all_at [OF st(2) this] show ?thesis
      proof (elim disjE exE conjE)
        fix w2 assume "write_all put (st_writer st') [trailer_header, odc_trailer] = (False, w2)" "\<not> snk.willing (length pre + ?A)"
        then show ?thesis using st(1) write_trailer_header(1) by (simp add: copied la)
      next
        fix w2 assume w2: "write_all put (st_writer st') [trailer_header, odc_trailer] = (True, w2)"
          "snk.writer_at pre ?A w2 (?ys @ concat [trailer_header, odc_trailer])"
        have full: "(?ys @ concat [trailer_header, odc_trailer]) @ replicate (?A - length (?ys @ concat [trailer_header, odc_trailer])) 0 = archive"
          using body h(2) fl write_trailer_header(2) by simp
        from snk.write_padding_at [OF w2(2) ws(1)] show ?thesis unfolding full
        proof (elim disjE exE conjE)
          fix w3 assume "write_padding put workspace_bytes w2 = (False, w3)" "\<not> snk.willing (length pre + ?A)"
          then show ?thesis using st(1) write_trailer_header(1) w2(1) by (simp add: copied la)
        next
          fix w3 assume w3: "write_padding put workspace_bytes w2 = (True, w3)" "snk.writer_at pre ?A w3 archive"
          then show ?thesis using st write_trailer_header(1) w2(1) by (simp add: copied la snk.writer_at_def)
        qed
      qed
    qed
  qed
qed

end

section \<open>The dvzip framing\<close>

text \<open>The reference: the archive is cut into blocks of 128 KiB, each behind its four-byte header.\<close>

definition stored_header :: "nat \<Rightarrow> bytes" where
  "stored_header n = put_be32 (of_nat n OR 0x80000000)"

function dvzip_stored :: "bytes \<Rightarrow> bytes" where
  "dvzip_stored xs =
     (if xs = [] then []
      else stored_header (length (take 131072 xs)) @ take 131072 xs @ dvzip_stored (drop 131072 xs))"
  by pat_completeness auto
termination
  by (relation "measure length") auto

declare dvzip_stored.simps [simp del]

text \<open>
  The same stream byte by byte, from a state with \<open>a\<close> archive bytes left and \<open>b\<close> bytes left in
  the open block.
\<close>

definition block_left :: "nat \<Rightarrow> nat \<Rightarrow> nat" where
  "block_left a b = (if b = 0 then min a 131072 else b)"

fun framed :: "nat \<Rightarrow> nat \<Rightarrow> bytes \<Rightarrow> bytes" where
  "framed a b [] = []"
| "framed a b (x # xs) = (if b = 0 then stored_header (min a 131072) else []) @ x # framed (a - 1) (block_left a b - 1) xs"

fun framed_left :: "nat \<Rightarrow> nat \<Rightarrow> bytes \<Rightarrow> nat" where
  "framed_left a b [] = b"
| "framed_left a b (x # xs) = framed_left (a - 1) (block_left a b - 1) xs"

lemma framed_append: "framed a b (xs @ ys) = framed a b xs @ framed (a - length xs) (framed_left a b xs) ys"
  by (induction a b xs rule: framed.induct) auto

lemma framed_left_append: "framed_left a b (xs @ ys) = framed_left (a - length xs) (framed_left a b xs) ys"
  by (induction a b xs rule: framed_left.induct) auto

lemma framed_inside: "length xs \<le> b \<Longrightarrow> framed a b xs = xs"
  by (induction xs arbitrary: a b) (auto simp: block_left_def)

lemma framed_left_inside: "length xs \<le> b \<Longrightarrow> framed_left a b xs = b - length xs"
  by (induction xs arbitrary: a b) (auto simp: block_left_def)

lemma framed_open:
  assumes a: "0 < a" "xs \<noteq> []"
  shows "framed a 0 xs = stored_header (min a 131072) @ framed a (min a 131072) xs"
    and "framed_left a 0 xs = framed_left a (min a 131072) xs"
proof -
  obtain y ys where xs: "xs = y # ys" using a(2) by (cases xs) auto
  define m where "m = min a 131072"
  have m: "0 < m" using a(1) by (simp add: m_def)
  then show "framed a 0 xs = stored_header (min a 131072) @ framed a (min a 131072) xs"
    and "framed_left a 0 xs = framed_left a (min a 131072) xs"
    unfolding m_def [symmetric] xs by (simp_all add: block_left_def m_def [symmetric])
qed

lemma framed_portion:
  fixes n xs p
  defines "m \<equiv> block_left (n - length xs) (framed_left n 0 xs)"
  assumes "length xs < n" "p \<noteq> []" "length p \<le> m"
  shows "framed n 0 (xs @ p) = framed n 0 xs @ (if framed_left n 0 xs = 0 then stored_header m else []) @ p"
    and "framed_left n 0 (xs @ p) = m - length p"
  using assms framed_open [of "n - length xs" p]
  by (auto simp: framed_append framed_left_append block_left_def framed_inside framed_left_inside)

lemma framed_whole: "framed (length xs) 0 xs = dvzip_stored xs \<and> framed_left (length xs) 0 xs = 0"
proof (induction xs rule: dvzip_stored.induct)
  case (1 xs)
  show ?case
  proof (cases "xs = []")
    case True
    then show ?thesis by (simp add: dvzip_stored.simps)
  next
    case False
    let ?b = "take 131072 xs" and ?r = "drop 131072 xs"
    have split: "xs = ?b @ ?r" by simp
    have lb: "length ?b = min (length xs) 131072" by simp
    have "framed (length xs) 0 xs = stored_header (length ?b) @ framed (length xs) (length ?b) (?b @ ?r)"
      using False lb by (simp add: framed_open(1))
    also have "framed (length xs) (length ?b) (?b @ ?r) = ?b @ framed (length ?r) 0 ?r"
      by (simp only: framed_append) (simp add: framed_inside framed_left_inside min_def)
    finally have f: "framed (length xs) 0 xs = dvzip_stored xs"
      using "1.IH" False by (simp add: dvzip_stored.simps [of xs])
    have "framed_left (length xs) 0 xs = framed_left (length xs) (length ?b) (?b @ ?r)"
      using False lb by (simp add: framed_open(2))
    also have "\<dots> = framed_left (length ?r) 0 ?r"
      by (simp only: framed_left_append) (simp add: framed_left_inside min_def)
    finally show ?thesis using f "1.IH" False by simp
  qed
qed

lemma length_stored_header [simp]: "length (stored_header n) = 4"
  by (simp add: stored_header_def)

lemma length_dvzip_stored: "length (dvzip_stored xs) = length xs + (131071 + length xs) div 131072 * 4"
proof (induction xs rule: dvzip_stored.induct)
  case (1 xs)
  show ?case
  proof (cases "length xs \<le> 131072")
    case True
    then have "(131071 + length xs) div 131072 = (if xs = [] then 0 else 1)"
      by (cases "xs = []") (auto intro!: div_nat_eqI simp: Suc_le_eq)
    then show ?thesis using True by (subst dvzip_stored.simps) (simp add: dvzip_stored.simps [of "[]"])
  next
    case False
    then have "(131071 + length xs) div 131072 = Suc ((131071 + (length xs - 131072)) div 131072)"
      by (simp add: le_div_geq)
    with 1 False show ?thesis by (subst dvzip_stored.simps) auto
  qed
qed

lemma framed_length_le: "length xs \<le> n \<Longrightarrow> length (framed n 0 xs) \<le> n + (131071 + n) div 131072 * 4"
proof -
  assume le: "length xs \<le> n"
  let ?ys = "xs @ replicate (n - length xs) 0"
  have "length ?ys = n" using le by simp
  then have "length (framed n 0 ?ys) = n + (131071 + n) div 131072 * 4"
    using framed_whole [of ?ys] length_dvzip_stored [of ?ys] by simp
  then show ?thesis by (simp add: framed_append)
qed

lemma build_stored_header:
  "0 < n \<Longrightarrow> n \<le> 131072 \<Longrightarrow>
     espdrop_airdrop_build_dvzip_block_header (Ptr (replicate 4 0)) (of_nat n) True = (True, Ptr (stored_header n))"
proof -
  assume n: "0 < n" "n \<le> 131072"
  then have u: "unat (of_nat n :: u32) = n" by (simp add: unat_of_nat)
  then have nz: "(of_nat n :: u32) \<noteq> 0" using n(1) by (metis less_irrefl unsigned_0)
  have "\<not> (of_nat n :: u32) > 0x7fffffff" using u n(2) by (simp add: word_less_nat_alt)
  then show ?thesis using nz by (simp add: espdrop_airdrop_build_dvzip_block_header_def stored_header_def Let_def store_def)
qed

text \<open>
  The stored writer is itself a sink of archive bytes, over any sink of payload bytes: having
  accepted \<open>xs\<close> of \<open>total\<close> archive bytes it has handed exactly their framing to the sink below.
\<close>

definition stored_accepts :: "('w \<Rightarrow> bytes \<Rightarrow> bool) \<Rightarrow> bytes \<Rightarrow> nat \<Rightarrow> 'w stored_writer \<Rightarrow> bytes \<Rightarrow> bool" where
  "stored_accepts accepted base n w xs \<longleftrightarrow>
     length xs \<le> n \<and> sw_archive_remaining w = n - length xs \<and> sw_block_remaining w = framed_left n 0 xs \<and>
     accepted (sw_context w) (base @ framed n 0 xs) \<and>
     sr_archive_bytes (sw_result w) = length xs \<and> sr_payload_bytes (sw_result w) = length (framed n 0 xs) \<and>
     length (framed n 0 xs) = length xs + 4 * sr_dvzip_blocks (sw_result w)"

locale stored_sink = below: byte_sink put accepted
  for put :: "'w stream_write" and accepted :: "'w \<Rightarrow> bytes \<Rightarrow> bool" +
  fixes base :: bytes and n :: nat
begin

abbreviation at :: "'w stored_writer \<Rightarrow> bytes \<Rightarrow> bool" where
  "at \<equiv> stored_accepts accepted base n"

abbreviation payload_limit :: nat where
  "payload_limit \<equiv> length base + (n + (131071 + n) div 131072 * 4)"

lemma below_put:
  assumes "accepted c (base @ ys)" "length (ys @ d) \<le> n + (131071 + n) div 131072 * 4"
  shows "(\<exists>c'. put c d = (True, c') \<and> accepted c' (base @ ys @ d)) \<or> (\<exists>c'. put c d = (False, c')) \<and> \<not> below.willing payload_limit"
proof (cases "put c d")
  case (Pair g c')
  show ?thesis
  proof (cases g)
    case True
    then show ?thesis using below.put_accepts [OF assms(1), of d c'] Pair by simp
  next
    case False
    moreover have "length (base @ ys) + length d \<le> payload_limit" using assms(2) by simp
    ultimately have "\<not> below.willing payload_limit" using assms(1) Pair unfolding below.willing_def by (metis fst_conv)
    then show ?thesis using Pair False by simp
  qed
qed

text \<open>One round of the loop: open a block if none is open, then write a portion inside it.\<close>

lemma open_block_at:
  assumes at: "at w xs" and more: "length xs < n"
  defines "m \<equiv> block_left (n - length xs) (framed_left n 0 xs)"
  shows "(\<exists>w'. open_block put w = (True, w') \<and> sw_archive_remaining w' = n - length xs \<and> sw_block_remaining w' = m \<and> 0 < m \<and>
      accepted (sw_context w') (base @ framed n 0 xs @ (if framed_left n 0 xs = 0 then stored_header m else [])) \<and>
      sr_archive_bytes (sw_result w') = length xs \<and>
      sr_payload_bytes (sw_result w') = length (framed n 0 xs) + (if framed_left n 0 xs = 0 then 4 else 0) \<and>
      length (framed n 0 xs) + (if framed_left n 0 xs = 0 then 4 else 0) = length xs + 4 * sr_dvzip_blocks (sw_result w')) \<or>
    (\<exists>w'. open_block put w = (False, w')) \<and> \<not> below.willing payload_limit"
proof (cases "framed_left n 0 xs = 0")
  case False
  then show ?thesis using at by (simp add: open_block_def stored_accepts_def m_def block_left_def)
next
  case True
  have m: "m = min (n - length xs) 131072" "0 < m" "m \<le> 131072" using True more by (auto simp: m_def block_left_def)
  have size: "(if n - length xs < 131072 then n - length xs else 131072) = m" by (simp add: m)
  have "length (framed n 0 xs @ stored_header m) \<le> length (framed n 0 (xs @ [0]))"
    using True m by (simp add: framed_append)
  also have "\<dots> \<le> n + (131071 + n) div 131072 * 4" using more by (intro framed_length_le) simp
  finally have room: "length (framed n 0 xs @ stored_header m) \<le> n + (131071 + n) div 131072 * 4" .
  have acc: "accepted (sw_context w) (base @ framed n 0 xs)" using at by (simp add: stored_accepts_def)
  have unfold: "open_block put w =
     (case put (sw_context w) (stored_header m) of (written, context) \<Rightarrow>
        let writer2 = w\<lparr>sw_block_remaining := m, sw_context := context\<rparr> in
        if \<not> written then (False, writer2)
        else (True, writer2\<lparr>sw_result := (sw_result w)\<lparr>sr_dvzip_blocks := sr_dvzip_blocks (sw_result w) + 1,
           sr_payload_bytes := sr_payload_bytes (sw_result w) + 4\<rparr>\<rparr>))"
    using at True m by (simp add: open_block_def stored_accepts_def upload_consts size build_stored_header Let_def split: prod.split)
  from below_put [OF acc room] show ?thesis
    using at True m by (auto simp: unfold stored_accepts_def Let_def)
qed

lemma write_portion_at:
  assumes at: "at w xs" and opened: "open_block put w = (True, w1)" and p: "p \<noteq> []" "length xs + length p \<le> n"
    and le: "length p \<le> block_left (n - length xs) (framed_left n 0 xs)"
  shows "(\<exists>w2. write_portion put w1 p = (True, w2) \<and> at w2 (xs @ p)) \<or>
    (\<exists>w2. write_portion put w1 p = (False, w2)) \<and> \<not> below.willing payload_limit"
proof -
  let ?m = "block_left (n - length xs) (framed_left n 0 xs)" and ?z = "framed_left n 0 xs = 0"
  have more: "length xs < n" using p by (cases p) auto
  from open_block_at [OF at more] opened
  have w1: "sw_archive_remaining w1 = n - length xs" "sw_block_remaining w1 = ?m"
    "accepted (sw_context w1) (base @ framed n 0 xs @ (if ?z then stored_header ?m else []))"
    "sr_archive_bytes (sw_result w1) = length xs"
    "sr_payload_bytes (sw_result w1) = length (framed n 0 xs) + (if ?z then 4 else 0)"
    "length (framed n 0 xs) + (if ?z then 4 else 0) = length xs + 4 * sr_dvzip_blocks (sw_result w1)"
    by simp_all
  note fp = framed_portion [OF more p(1) le]
  have "length (framed n 0 (xs @ p)) \<le> n + (131071 + n) div 131072 * 4"
    using p(2) by (intro framed_length_le) simp
  then have room: "length ((framed n 0 xs @ (if ?z then stored_header ?m else [])) @ p) \<le> n + (131071 + n) div 131072 * 4"
    unfolding fp(1) by simp
  have unfold: "write_portion put w1 p =
     (case put (sw_context w1) p of (written, context) \<Rightarrow>
        let writer1 = w1\<lparr>sw_context := context\<rparr> in
        if \<not> written then (False, writer1)
        else (True, writer1\<lparr>sw_block_remaining := ?m - length p, sw_archive_remaining := n - length xs - length p,
           sw_result := (sw_result w1)\<lparr>sr_archive_bytes := sr_archive_bytes (sw_result w1) + length p,
             sr_payload_bytes := sr_payload_bytes (sw_result w1) + length p\<rparr>\<rparr>))"
  proof -
    have "\<not> n - length xs < length p" using p(2) by simp
    then show ?thesis using w1(1,2) by (simp add: write_portion_def Let_def split: prod.split)
  qed
  from below_put [OF w1(3) room] show ?thesis
  proof (elim disjE exE conjE)
    fix c' assume c': "put (sw_context w1) p = (True, c')"
      "accepted c' (base @ (framed n 0 xs @ (if ?z then stored_header ?m else [])) @ p)"
    have "at (w1\<lparr>sw_context := c', sw_block_remaining := ?m - length p, sw_archive_remaining := n - length xs - length p,
           sw_result := (sw_result w1)\<lparr>sr_archive_bytes := sr_archive_bytes (sw_result w1) + length p,
             sr_payload_bytes := sr_payload_bytes (sw_result w1) + length p\<rparr>\<rparr>) (xs @ p)"
      unfolding stored_accepts_def fp using c'(2) w1(4-6) p(2) by auto
    then show ?thesis using c'(1) by (simp add: unfold Let_def)
  next
    fix c' assume "put (sw_context w1) p = (False, c')" "\<not> below.willing payload_limit"
    then show ?thesis by (simp add: unfold Let_def)
  qed
qed

lemma stored_step:
  assumes "sw_archive_remaining w \<noteq> 0" "d \<noteq> []" "open_block put w = (True, w1)" "sw_block_remaining w1 = m"
  shows "write_stored_archive_bytes put w d = (case write_portion put w1 (take (if length d > m then m else length d) d) of
      (ok2, w2) \<Rightarrow> if \<not> ok2 then (False, w2) else write_stored_archive_bytes put w2 (drop (if length d > m then m else length d) d))"
  using assms by (subst write_stored_archive_bytes.simps) (simp add: Let_def split: prod.split)

lemma write_stored_at:
  "at w xs \<Longrightarrow> length xs + length d \<le> n \<Longrightarrow>
    (\<exists>w'. write_stored_archive_bytes put w d = (True, w') \<and> at w' (xs @ d)) \<or>
    (\<exists>w'. write_stored_archive_bytes put w d = (False, w')) \<and> \<not> below.willing payload_limit"
proof (induction "length d" arbitrary: w xs d rule: less_induct)
  case less
  show ?case
  proof (cases "d = []")
    case True
    then show ?thesis using less.prems by (simp add: write_stored_archive_bytes.simps)
  next
    case False
    let ?m = "block_left (n - length xs) (framed_left n 0 xs)"
    have more: "length xs < n" using less.prems(2) False by (cases d) auto
    have ar: "sw_archive_remaining w \<noteq> 0" using less.prems(1) more by (simp add: stored_accepts_def)
    from open_block_at [OF less.prems(1) more] show ?thesis
    proof (elim disjE exE conjE)
      fix w1 assume "open_block put w = (False, w1)" "\<not> below.willing payload_limit"
      then show ?thesis using ar False by (simp add: write_stored_archive_bytes.simps [of put w])
    next
      fix w1 assume w1: "open_block put w = (True, w1)" "sw_block_remaining w1 = ?m" "0 < ?m"
      define k where "k = (if length d > ?m then ?m else length d)"
      have k: "0 < k" "k \<le> length d" "k \<le> ?m" using w1(3) False by (auto simp: k_def)
      note unfold = stored_step [OF ar False w1(1,2), folded k_def]
      have "take k d \<noteq> []" "length xs + length (take k d) \<le> n" "length (take k d) \<le> ?m" using k less.prems(2) False by auto
      from write_portion_at [OF less.prems(1) w1(1) this] show ?thesis
      proof (elim disjE exE conjE)
        fix w2 assume "write_portion put w1 (take k d) = (False, w2)" "\<not> below.willing payload_limit"
        then show ?thesis by (simp add: unfold)
      next
        fix w2 assume w2: "write_portion put w1 (take k d) = (True, w2)" "at w2 (xs @ take k d)"
        have "length (drop k d) < length d" "length (xs @ take k d) + length (drop k d) \<le> n" using k less.prems(2) by auto
        from less.hyps [OF this(1) w2(2) this(2)] w2(1) show ?thesis by (simp add: unfold)
      qed
    qed
  qed
qed

lemma write_stored_refuses_excess:
  "at w xs \<Longrightarrow> write_stored_archive_bytes put w d = (True, w') \<Longrightarrow> length xs + length d \<le> n"
proof (induction "length d" arbitrary: w xs d rule: less_induct)
  case less
  show ?case
  proof (cases "d = []")
    case True
    then show ?thesis using less.prems(1) by (simp add: stored_accepts_def)
  next
    case False
    have ar: "sw_archive_remaining w \<noteq> 0"
      using less.prems(2) False by (auto simp: write_stored_archive_bytes.simps [of put w] split: if_splits)
    then have more: "length xs < n" using less.prems(1) by (auto simp: stored_accepts_def)
    let ?m = "block_left (n - length xs) (framed_left n 0 xs)"
    obtain g w1 where o: "open_block put w = (g, w1)" by force
    have g: "g" using less.prems(2) ar False o by (auto simp: write_stored_archive_bytes.simps [of put w] split: if_splits)
    then have w1: "sw_block_remaining w1 = ?m" "sw_archive_remaining w1 = n - length xs" "0 < ?m"
      using open_block_at [OF less.prems(1) more] o by auto
    define k where "k = (if length d > ?m then ?m else length d)"
    have k: "0 < k" "k \<le> length d" "k \<le> ?m" using w1(3) False by (auto simp: k_def)
    note unfold = stored_step [OF ar False _ w1(1), folded k_def]
    obtain g2 w2 where p: "write_portion put w1 (take k d) = (g2, w2)" by force
    have g2: "g2" and rest: "write_stored_archive_bytes put w2 (drop k d) = (True, w')"
      using less.prems(2) unfold o g p by (auto split: if_splits)
    have le: "k \<le> n - length xs" using p g2 w1(2) k(2) by (auto simp: write_portion_def split: if_splits)
    have "take k d \<noteq> []" "length xs + length (take k d) \<le> n" "length (take k d) \<le> ?m" using k le more False by auto
    then have "at w2 (xs @ take k d)"
      using write_portion_at [OF less.prems(1), of w1 "take k d"] o g p g2 by auto
    from less.hyps [OF _ this rest] k show ?thesis by simp
  qed
qed

lemma stored_put_accepts:
  "at w xs \<Longrightarrow> write_stored_archive_sink put w d = (True, w') \<Longrightarrow> at w' (xs @ d)"
  unfolding write_stored_archive_sink_def
  using write_stored_refuses_excess write_stored_at by (metis Pair_inject)

end

sublocale stored_sink \<subseteq> stored: byte_sink "write_stored_archive_sink put" at
  by unfold_locales (rule stored_put_accepts)

context stored_sink
begin

lemma stored_willing: "below.willing payload_limit \<Longrightarrow> stored.willing n"
  unfolding stored.willing_def write_stored_archive_sink_def
  using write_stored_at by (metis fst_conv)

lemma stored_complete:
  assumes "at w xs" "length xs = n"
  shows "sw_archive_remaining w = 0" "sw_block_remaining w = 0" "accepted (sw_context w) (base @ dvzip_stored xs)"
    "sr_payload_bytes (sw_result w) = n + (131071 + n) div 131072 * 4"
    "sr_dvzip_blocks (sw_result w) = (131071 + n) div 131072" "sr_archive_bytes (sw_result w) = n"
proof -
  note f = framed_whole [of xs, unfolded assms(2)]
  have l: "length (dvzip_stored xs) = n + (131071 + n) div 131072 * 4"
    using length_dvzip_stored [of xs] assms(2) by simp
  show "sw_archive_remaining w = 0" "sw_block_remaining w = 0" "accepted (sw_context w) (base @ dvzip_stored xs)"
    "sr_payload_bytes (sw_result w) = n + (131071 + n) div 131072 * 4" "sr_archive_bytes (sw_result w) = n"
    using assms f l by (simp_all add: stored_accepts_def)
  show "sr_dvzip_blocks (sw_result w) = (131071 + n) div 131072" using assms f l by (simp add: stored_accepts_def)
qed

end

section \<open>The upload payload\<close>

lemma stored_dvzip_streams:
  assumes source: "byte_source get pending" and sink: "byte_sink put accepted"
    and plan: "planned_size path (src_size_bytes s)" and rd: "src_read s = Ptr get"
    and pend: "pending (src_context s) content" "src_size_bytes s \<le> length content"
    and ws: "0 < workspace_bytes" "workspace_bytes \<le> length ws" and acc: "accepted c base"
  shows "\<exists>status s' ws' c' r. espdrop_airdrop_stream_stored_dvzip (Ptr s) (Ptr path) mtime (Ptr ws) workspace_bytes (Ptr put) c (Ptr r0) =
        (status, Ptr s', Ptr ws', c', Ptr r) \<and>
      (status = STREAM_OK \<and>
       accepted c' (base @ dvzip_stored (odc_archive path mtime (take (src_size_bytes s) content))) \<and>
       espdrop_airdrop_plan_stored_dvzip (Ptr p0) (Ptr path) (src_size_bytes s) =
         (True, Ptr \<lparr>plan_file_bytes = sr_source_bytes r, plan_archive_bytes = sr_archive_bytes r,
            plan_dvzip_blocks = sr_dvzip_blocks r, plan_payload_bytes = sr_payload_bytes r\<rparr>) \<and>
       sr_payload_bytes r = length (dvzip_stored (odc_archive path mtime (take (src_size_bytes s) content))) \<and>
       sr_source_crc32 r = crc32 (take (src_size_bytes s) content) \<or>
       status = STREAM_SINK \<and>
       (\<exists>w xs d. accepted w xs \<and> length xs + length d \<le> length base + plan_payload_bytes (upload_plan path (src_size_bytes s)) \<and>
         fst (put w d) = False))"
proof -
  let ?n = "src_size_bytes s" and ?file = "take (src_size_bytes s) content"
  define n where "n = odc_archive_bytes (odc_fixed_bytes path + ?n)"
  define archive where "archive = odc_archive path mtime ?file"
  have p: "length path \<le> 255" "upload_fits path ?n" using plan archive_path_length by (auto simp: planned_size_def)
  have la: "length archive = n" using length_odc_archive [of path ?file mtime] p pend(2) by (simp add: archive_def n_def min_absorb2)
  have ss: "stored_sink put accepted" using sink by (rule stored_sink.intro)
  have sb: "byte_sink (write_stored_archive_sink put) (stored_accepts accepted base n)"
    by unfold_locales (rule stored_sink.stored_put_accepts [OF ss])
  have us: "upload_stream get pending (write_stored_archive_sink put) (stored_accepts accepted base n)"
    using source sb by (rule upload_stream.intro)
  define w0 where "w0 = \<lparr>sw_context = c, sw_archive_remaining = n, sw_block_remaining = 0, sw_result = stream_result_zero\<rparr>"
  have w0: "stored_accepts accepted base n w0 []" using acc by (simp add: w0_def stored_accepts_def stream_result_zero_def)
  have pl: "upload_plan path ?n = \<lparr>plan_file_bytes = ?n, plan_archive_bytes = n, plan_dvzip_blocks = (131071 + n) div 131072,
      plan_payload_bytes = n + (131071 + n) div 131072 * 4\<rparr>"
    by (simp add: upload_plan_def n_def Let_def)
  let ?odc = "espdrop_airdrop_stream_odc (Ptr s) (Ptr path) mtime (Ptr ws) workspace_bytes (Ptr (write_stored_archive_sink put)) w0 (Ptr stream_result_zero)"
  note unfold = espdrop_airdrop_stream_stored_dvzip_def rd ws(1) plan_stored_dvzip_eq plan pl Let_def w0_def [symmetric]
  from upload_stream.stream_odc_at [OF us plan rd pend ws w0 archive_def, of stream_result_zero] show ?thesis
  proof (elim disjE exE conjE)
    fix s' ws' w' r assume ok: "?odc = (STREAM_OK, Ptr s', Ptr ws', w', Ptr r)" "stored_accepts accepted base n w' ([] @ archive)"
      "sr_source_bytes r = ?n" "sr_source_crc32 r = crc32 ?file"
    note fin = stored_sink.stored_complete [OF ss ok(2) [simplified] la]
    show ?thesis
      using ok(1,3,4) fin la by (simp add: unfold archive_def [symmetric] length_dvzip_stored)
  next
    fix s' ws' w' r assume o: "?odc = (STREAM_SINK, Ptr s', Ptr ws', w', Ptr r)"
    assume "\<not> byte_sink.willing (write_stored_archive_sink put) (stored_accepts accepted base n) (length ([] :: bytes) + length archive)"
    then have "\<not> byte_sink.willing put accepted (length base + (n + (131071 + n) div 131072 * 4))"
      using stored_sink.stored_willing [OF ss] la by auto
    then have "\<exists>w xs d. accepted w xs \<and> length xs + length d \<le> length base + plan_payload_bytes (upload_plan path ?n) \<and> fst (put w d) = False"
      unfolding byte_sink.willing_def [OF sink] pl by auto
    then show ?thesis using o by (simp add: unfold)
  qed
qed

text \<open>
  C2. Streaming is exact, for every source that delivers its content in chunks of its own
  choosing and every sink: when the path is valid and the planned size fits, the streamed
  upload either hands the sink exactly the framing of the archive of the file, with the counts
  of the plan and the checksum of the file, or reports that the sink refused, which a sink
  that takes the planned number of bytes never does.
\<close>

theorem stream_stored_dvzip_correct:
  assumes source: "byte_source get pending" and sink: "byte_sink put accepted"
    and plan: "planned_size path (src_size_bytes s)" and rd: "src_read s = Ptr get"
    and pend: "pending (src_context s) content" "src_size_bytes s \<le> length content"
    and ws: "0 < workspace_bytes" "workspace_bytes \<le> length ws" and acc: "accepted c base"
  shows "\<exists>status s' ws' c' r. espdrop_airdrop_stream_stored_dvzip (Ptr s) (Ptr path) mtime (Ptr ws) workspace_bytes (Ptr put) c (Ptr r0) =
        (status, Ptr s', Ptr ws', c', Ptr r) \<and>
      (status = STREAM_OK \<and>
       accepted c' (base @ dvzip_stored (odc_archive path mtime (take (src_size_bytes s) content))) \<and>
       espdrop_airdrop_plan_stored_dvzip (Ptr p0) (Ptr path) (src_size_bytes s) =
         (True, Ptr \<lparr>plan_file_bytes = sr_source_bytes r, plan_archive_bytes = sr_archive_bytes r,
            plan_dvzip_blocks = sr_dvzip_blocks r, plan_payload_bytes = sr_payload_bytes r\<rparr>) \<and>
       sr_payload_bytes r = length (dvzip_stored (odc_archive path mtime (take (src_size_bytes s) content))) \<and>
       sr_source_crc32 r = crc32 (take (src_size_bytes s) content) \<or>
       status = STREAM_SINK \<and>
       (\<exists>w xs d. accepted w xs \<and> length xs + length d \<le> length base + plan_payload_bytes (upload_plan path (src_size_bytes s)) \<and>
         fst (put w d) = False))"
  using assms by (rule stored_dvzip_streams)

section \<open>The fixture source\<close>

text \<open>The in-memory source of the sender's built-in test file (\<^verbatim>\<open>core/src/airdrop_tls.c\<close>).\<close>

record fixture_source =
  fx_data :: bytes
  fx_offset :: nat

definition read_fixture_source :: "fixture_source source_read" where
  "read_fixture_source source capacity =
     (let available = length (fx_data source) - fx_offset source;
          bytes = (if available < capacity then available else capacity) in
      if bytes > 0
      then (True, take bytes (drop (fx_offset source) (fx_data source)), bytes, source\<lparr>fx_offset := fx_offset source + bytes\<rparr>)
      else (True, [], bytes, source))"

definition rewind_fixture_source :: "fixture_source \<Rightarrow> bool \<times> fixture_source" where
  "rewind_fixture_source source = (True, source\<lparr>fx_offset := 0\<rparr>)"

definition fixture_pending :: "fixture_source \<Rightarrow> bytes \<Rightarrow> bool" where
  "fixture_pending s xs \<longleftrightarrow> fx_offset s \<le> length (fx_data s) \<and> xs = drop (fx_offset s) (fx_data s)"

interpretation fixture: byte_source read_fixture_source fixture_pending
proof
  fix s xs and n :: nat
  assume p: "fixture_pending s xs" and n: "0 < n" "n \<le> length xs"
  let ?s = "s\<lparr>fx_offset := fx_offset s + n\<rparr>"
  have "read_fixture_source s n = (True, take n xs, n, ?s)"
    using p n by (simp add: fixture_pending_def read_fixture_source_def Let_def)
  moreover have "fixture_pending ?s (drop n xs)" using p n by (auto simp: fixture_pending_def add.commute)
  ultimately show "\<exists>k s'. read_fixture_source s n = (True, take k xs, k, s') \<and> 0 < k \<and> k \<le> n \<and> fixture_pending s' (drop k xs)"
    using n by blast
qed

theorem stream_stored_dvzip_correct_witness:
  "\<exists>s' ws' c' r. espdrop_airdrop_stream_stored_dvzip
       (Ptr \<lparr>src_context = \<lparr>fx_data = [104, 105], fx_offset = 0\<rparr>, src_size_bytes = 2, src_read = Ptr read_fixture_source,
       src_rewind = Ptr rewind_fixture_source\<rparr>)
       (Ptr [46, 47, 97]) 0 (Ptr (replicate 16 0)) 16 (Ptr (\<lambda>w d. (True, w @ d))) [] (Ptr stream_result_zero) =
       (STREAM_OK, Ptr s', Ptr ws', c', Ptr r) \<and>
     c' = dvzip_stored (odc_archive [46, 47, 97] 0 [104, 105]) \<and> sr_source_crc32 r = crc32 [104, 105]"
proof -
  let ?s = "\<lparr>src_context = \<lparr>fx_data = [104, 105], fx_offset = 0\<rparr>, src_size_bytes = 2, src_read = Ptr read_fixture_source,
       src_rewind = Ptr rewind_fixture_source\<rparr>"
  have src: "byte_source read_fixture_source fixture_pending" by (rule fixture.byte_source_axioms)
  have snk: "byte_sink (\<lambda>w d. (True, w @ d)) (\<lambda>w xs. w = xs)" by unfold_locales simp
  have plan: "planned_size [46, 47, 97] (src_size_bytes ?s)"
    by (simp add: planned_size_def upload_fits_iff upload_plan_def archive_path_valid_def cstr_at_def Let_def
        odc_archive_bytes_def odc_fixed_bytes_eq upload_consts SIZE_MAX_def)
  have pend: "fixture_pending (src_context ?s) [104, 105]" by (simp add: fixture_pending_def)
  have len: "src_size_bytes ?s \<le> length [104, 105 :: byte]" by simp
  have rd: "src_read ?s = Ptr read_fixture_source" by simp
  have ws: "(0 :: nat) < 16" "16 \<le> length (replicate 16 (0 :: byte))" by simp_all
  have base: "([] :: bytes) = []" by simp
  show ?thesis
    using stream_stored_dvzip_correct [OF src snk plan rd pend len ws base, of 0 stream_result_zero "upload_plan [] 0"] by auto
qed

section \<open>Reading the formats back\<close>

text \<open>Reference readers: stored dvzip blocks, and the first member of an ODC archive.\<close>

function dvzip_read :: "bytes \<Rightarrow> bytes option" where
  "dvzip_read xs =
     (if xs = [] then Some []
      else do {
        h \<leftarrow> read_be32 xs 0;
        if h AND 0x80000000 = 0 then None
        else do {
          block \<leftarrow> rds xs 4 (unat (h AND 0x7fffffff));
          rest \<leftarrow> dvzip_read (drop (4 + unat (h AND 0x7fffffff)) xs);
          Some (block @ rest)
        }
      })"
  by pat_completeness auto
termination
  by (relation "measure length") auto

declare dvzip_read.simps [simp del]

definition octal_value :: "bytes \<Rightarrow> nat" where
  "octal_value ds = positional 8 (map (\<lambda>d. the (digit_value d)) ds)"

definition odc_read :: "bytes \<Rightarrow> (bytes \<times> bytes) option" where
  "odc_read xs = do {
     magic \<leftarrow> rds xs 0 6;
     name_field \<leftarrow> rds xs 59 6;
     file_field \<leftarrow> rds xs 65 11;
     path \<leftarrow> rds xs 76 (octal_value name_field - 1);
     file \<leftarrow> rds xs (76 + octal_value name_field) (octal_value file_field);
     if magic = ascii ''070707'' then Some (path, file) else None }"

lemma denotes_values: "denotes b ds cs \<Longrightarrow> map (\<lambda>d. the (digit_value d)) cs = ds"
  by (induction cs arbitrary: ds) auto

lemma octal_value_field: "octal_value (octal_field w n) = n"
proof -
  obtain ds where ds: "denotes 8 ds (digits 8 n)" "positional 8 ds = n" using digits_denote [of 8 n] by auto
  have "digit_value 48 = Some 0" by (simp add: digit_value_def)
  then have "octal_value (octal_field w n) = positional 8 (replicate (w - length (digits 8 n)) 0 @ ds)"
    using denotes_values [OF ds(1)] by (simp add: octal_value_def octal_field_def zero_padded_def)
  then show ?thesis using ds(2) by (simp add: positional_zeros)
qed

lemma odc_read_body:
  assumes p: "length path \<le> 255" and fits: "upload_fits path (length file)"
  shows "odc_read (odc_body path mtime file @ rest) = Some (path, file)"
proof -
  let ?F = "octal_field"
  let ?pre = "?F 6 0 @ ?F 6 1 @ ?F 6 33188 @ ?F 6 0 @ ?F 6 0 @ ?F 6 1 @ ?F 6 0 @ ?F 11 (unat mtime)"
  have m: "unat mtime < 8589934592" using unat_bound [of mtime] by simp
  have n: "length file < 8589934592" "length path + 1 < 262144" using fits p by (auto simp: upload_fits_iff)
  have lp: "length ?pre = 53" using m by (simp add: length_octal_field)
  define x where "x = odc_body path mtime file @ rest"
  have x: "x = ascii ''070707'' @ ?pre @ ?F 6 (length path + 1) @ ?F 11 (length file) @ path @ [0] @ file @ trailer_header @ odc_trailer @ rest"
    by (simp add: x_def odc_body_def odc_header_text_def odc_mode_def)
  have l: "length (?F 6 (length path + 1)) = 6" "length (?F 11 (length file)) = 11" using n by (simp_all add: length_octal_field)
  have "rds x 0 6 = Some (ascii ''070707'')" by (simp add: x rds_def)
  moreover have "rds x 59 6 = Some (?F 6 (length path + 1))"
    unfolding x by (subst rds_shift, simp, subst rds_shift) (use lp l in \<open>simp_all add: rds_head\<close>)
  moreover have "rds x 65 11 = Some (?F 11 (length file))"
    unfolding x by (subst rds_shift, simp, subst rds_shift, use lp in simp, subst rds_shift) (use lp l in \<open>simp_all add: rds_head\<close>)
  moreover have d: "drop 76 x = path @ [0] @ file @ trailer_header @ odc_trailer @ rest"
  proof -
    have "x = (ascii ''070707'' @ ?pre @ ?F 6 (length path + 1) @ ?F 11 (length file)) @ (path @ [0] @ file @ trailer_header @ odc_trailer @ rest)"
      unfolding x by simp
    then show ?thesis using lp l by (simp only: drop_append_exact) (rule drop_append_exact, simp)
  qed
  moreover have len: "76 + Suc (length path) + length file \<le> length x" unfolding x using lp l by simp
  have "rds x 76 (length path) = Some path" using d len by (simp add: rds_def)
  moreover have "rds x (76 + Suc (length path)) (length file) = Some file"
  proof -
    have "drop (Suc (length path)) (drop 76 x) = file @ trailer_header @ odc_trailer @ rest" unfolding d by simp
    then have "drop (76 + Suc (length path)) x = file @ trailer_header @ odc_trailer @ rest" by (simp add: add.commute)
    then show ?thesis using len by (simp add: rds_def)
  qed
  ultimately show ?thesis
    unfolding odc_read_def x_def [symmetric] by (simp add: octal_value_field)
qed

lemma header_flag: "n < 2147483648 \<Longrightarrow> (of_nat n OR 0x80000000 :: u32) AND 0x80000000 \<noteq> 0"
proof -
  have "bit (((of_nat n :: u32) OR 0x80000000) AND 0x80000000) 31"
    by (simp add: bit_simps bit_numeral_rec)
  then show ?thesis by (metis bit_0_eq bot_apply bot_bool_def)
qed

lemma header_size:
  assumes "n < 2147483648"
  shows "unat ((of_nat n OR 0x80000000 :: u32) AND 0x7fffffff) = n"
proof -
  have m: "(0x7fffffff :: u32) = mask 31" by (simp add: mask_eq_exp_minus_1)
  have "take_bit 31 (0x80000000 :: u32) = 0" by (simp add: take_bit_eq_mod)
  then have "(of_nat n OR 0x80000000 :: u32) AND 0x7fffffff = take_bit 31 (of_nat n)"
    unfolding m take_bit_eq_mask [symmetric] by (simp only: take_bit_or or.right_neutral)
  also have "\<dots> = of_nat n" using assms by (simp add: take_bit_of_nat take_bit_nat_eq_self)
  finally show ?thesis using assms by (simp add: unat_of_nat)
qed

lemma dvzip_read_stored: "dvzip_read (dvzip_stored xs) = Some xs"
proof (induction xs rule: dvzip_stored.induct)
  case (1 xs)
  show ?case
  proof (cases "xs = []")
    case True
    then show ?thesis by (simp add: dvzip_stored.simps dvzip_read.simps)
  next
    case False
    let ?b = "take 131072 xs"
    define n where "n = length ?b"
    have n: "n < 2147483648" by (simp add: n_def)
    define h where "h = (of_nat n OR 0x80000000 :: u32)"
    have h: "h AND 0x80000000 \<noteq> 0" "unat (h AND 0x7fffffff) = n"
      using header_flag [OF n] header_size [OF n] by (simp_all add: h_def)
    have "dvzip_stored xs = put_be32 h @ ?b @ dvzip_stored (drop 131072 xs)"
      using False by (simp add: dvzip_stored.simps [of xs] stored_header_def n_def h_def)
    moreover have "dvzip_read (put_be32 h @ ?b @ ys) = (do { rest \<leftarrow> dvzip_read ys; Some (?b @ rest) })" for ys
    proof -
      have "put_be32 h @ ?b @ ys \<noteq> []" using False by simp
      moreover have "rds (put_be32 h @ ?b @ ys) 4 n = Some ?b" by (simp add: rds_shift rds_head n_def)
      moreover have "drop (4 + n) (put_be32 h @ ?b @ ys) = ys" by (simp add: n_def)
      ultimately show ?thesis using h False by (subst dvzip_read.simps) (simp add: be32.dec_at_head)
    qed
    ultimately show ?thesis using "1.IH" False by simp
  qed
qed

text \<open>
  C26. The contiguous archive writer and the stream agree, and the archive can be read back:
  for a valid path and a file that fits, the writer fills the front of the buffer with exactly
  the archive that the stream emits, leaves the rest alone, and a reader of the ODC format
  finds the path and the file in it; with too small a buffer nothing is written.
\<close>

theorem build_odc_archive_correct:
  assumes "archive_path_valid (Ptr path)" and "upload_fits path (length file)" and "capacity \<le> length buf"
  shows "\<exists>n out. espdrop_airdrop_build_odc_archive (Ptr buf) capacity (Ptr path) (Ptr file) (length file) mtime = (n, Ptr out) \<and>
     (if capacity < odc_archive_bytes (odc_fixed_bytes path + length file) then n = 0 \<and> out = buf
      else take n out = odc_archive path mtime file \<and> drop n out = drop n buf \<and> length out = length buf \<and>
        odc_read (take n out) = Some (path, file))"
proof (cases "capacity < odc_archive_bytes (odc_fixed_bytes path + length file)")
  case True
  then show ?thesis using assms(1,2)
    by (simp add: espdrop_airdrop_build_odc_archive_def upload_fits_def Let_def not_less)
next
  case False
  have p: "length path \<le> 255" using archive_path_length [OF assms(1)] by simp
  have r: "odc_read (odc_archive path mtime file) = Some (path, file)"
    using odc_read_body [OF p assms(2)] by (simp add: odc_archive_def Let_def)
  show ?thesis
    using build_odc_archive_eq [OF assms(1,2) _ assms(3), of mtime] length_odc_archive [OF p assms(2), of mtime] r False assms(3)
    by (simp add: store_def)
qed

theorem build_odc_archive_correct_witness:
  "\<exists>n out. espdrop_airdrop_build_odc_archive (Ptr (replicate 10240 0)) 10240 (Ptr [46, 47, 97]) (Ptr [104, 105]) 2 0 = (n, Ptr out) \<and>
     odc_read (take n out) = Some ([46, 47, 97], [104, 105])"
proof -
  have v: "archive_path_valid (Ptr [46, 47, 97])" by (simp add: archive_path_valid_def cstr_at_def)
  have f: "upload_fits [46, 47, 97] (length [104, 105 :: byte])" by (simp add: upload_fits_iff)
  have l: "length [104, 105 :: byte] = 2" by simp
  have n: "\<not> 10240 < odc_archive_bytes (odc_fixed_bytes [46, 47, 97] + length [104, 105 :: byte])"
    by (simp add: odc_archive_bytes_def odc_fixed_bytes_eq upload_consts)
  show ?thesis
    using build_odc_archive_correct [OF v f, of 10240 "replicate 10240 0" 0] n unfolding l by auto
qed

end
