(* ===== verification/Airdrop_Http.thy ===== *)
theory Airdrop_Http
  imports C_Strings "HOL-Library.Sublist"
begin

text \<open>
  The HTTP side of AirDrop (\<^verbatim>\<open>core/src/airdrop_http.c\<close>): the \<open>/Discover\<close> request and the
  incremental parser of one response accumulated in memory. Every access to the response goes
  through \<open>rd\<close> or \<open>rds\<close>. The header value fields of the result hold the bytes that were copied
  into the array, before its terminator.
\<close>

section \<open>Data\<close>

definition ESPDROP_AIRDROP_DISCOVER_BODY_BYTES :: nat where "ESPDROP_AIRDROP_DISCOVER_BODY_BYTES = 42"
definition ESPDROP_AIRDROP_HTTP_CONTENT_TYPE_BYTES :: nat where "ESPDROP_AIRDROP_HTTP_CONTENT_TYPE_BYTES = 48"
definition ESPDROP_AIRDROP_HTTP_CONTENT_ENCODING_BYTES :: nat where "ESPDROP_AIRDROP_HTTP_CONTENT_ENCODING_BYTES = 24"

datatype http_parse = HTTP_INVALID | HTTP_INCOMPLETE | HTTP_COMPLETE

record http_result =
  hr_status_code :: nat
  hr_header_bytes :: nat
  hr_body_bytes :: nat
  hr_content_length :: nat
  hr_has_content_length :: bool
  hr_chunked :: bool
  hr_binary_plist :: bool
  hr_receiver_computer_name_key :: bool
  hr_ids_session_id_key :: bool
  hr_receiver_pseudonym_key :: bool
  hr_receiver_push_token_key :: bool
  hr_content_type :: bytes
  hr_content_encoding :: bytes

definition http_result_zero :: http_result where
  "http_result_zero = \<lparr>hr_status_code = 0, hr_header_bytes = 0, hr_body_bytes = 0, hr_content_length = 0,
     hr_has_content_length = False, hr_chunked = False, hr_binary_plist = False,
     hr_receiver_computer_name_key = False, hr_ids_session_id_key = False, hr_receiver_pseudonym_key = False,
     hr_receiver_push_token_key = False, hr_content_type = [], hr_content_encoding = []\<rparr>"

definition discover_body :: bytes where
  "discover_body =
     [0x62, 0x70, 0x6c, 0x69, 0x73, 0x74, 0x30, 0x30, 0xd0, 0x08, 0x00,
      0x00, 0x00, 0x00, 0x00, 0x00, 0x01, 0x01, 0x00, 0x00, 0x00, 0x00,
      0x00, 0x00, 0x00, 0x01, 0x00, 0x00, 0x00, 0x00, 0x00, 0x00, 0x00,
      0x00, 0x00, 0x00, 0x00, 0x00, 0x00, 0x00, 0x00, 0x09]"

definition key_name :: bytes where "key_name = ascii ''ReceiverComputerName''"
definition key_session :: bytes where "key_session = ascii ''IDSSessionID''"
definition key_pseudonym :: bytes where "key_pseudonym = ascii ''ReceiverPseudonym''"
definition key_token :: bytes where "key_token = ascii ''ReceiverPushToken''"
definition bplist_magic :: bytes where "bplist_magic = ascii ''bplist00''"

lemmas key_defs = key_name_def key_session_def key_pseudonym_def key_token_def bplist_magic_def

section \<open>Text helpers\<close>

definition ascii_lower :: "byte \<Rightarrow> byte" where
  "ascii_lower v = (if 65 \<le> v \<and> v \<le> 90 then v + 32 else v)"

definition ascii_equal :: "bytes \<Rightarrow> bytes \<Rightarrow> bool" where
  "ascii_equal v t \<longleftrightarrow>
     (if length v \<noteq> length t then False
      else list_all (\<lambda>index. ascii_lower (v ! index) = ascii_lower (t ! index)) [0..<length v])"

function contains_from :: "bytes \<Rightarrow> bytes \<Rightarrow> nat \<Rightarrow> bool" where
  "contains_from v needle offset =
     (if offset + length needle \<le> length v then
        if memcmp (drop offset v) needle (length needle) = 0 then True
        else contains_from v needle (offset + 1)
      else False)"
  by pat_completeness auto
termination
  by (relation "measure (\<lambda>(v, needle, offset). Suc (length v) - offset)") auto

declare contains_from.simps [simp del]

definition contains_bytes :: "bytes \<Rightarrow> bytes \<Rightarrow> bool" where
  "contains_bytes v needle \<longleftrightarrow>
     (if length needle = 0 \<or> length needle > length v then False else contains_from v needle 0)"

definition copy_header_value :: "nat \<Rightarrow> bytes \<Rightarrow> bytes \<Rightarrow> bytes" where
  "copy_header_value capacity output v =
     (if capacity = 0 then output else take (if length v \<ge> capacity then capacity - 1 else length v) v)"

fun parse_decimal_loop :: "bytes \<Rightarrow> nat \<Rightarrow> nat option" where
  "parse_decimal_loop [] number = Some number"
| "parse_decimal_loop (c # cs) number =
     (if c < 48 \<or> c > 57 then None
      else
        let digit = unat (c - 48) in
        if number > (SIZE_MAX - digit) div 10 then None
        else parse_decimal_loop cs (number * 10 + digit))"

definition parse_decimal :: "bytes \<Rightarrow> nat ptr \<Rightarrow> bool \<times> nat ptr" where
  "parse_decimal v parsed =
     (if length v = 0 \<or> parsed = NULL then (False, parsed)
      else (case parse_decimal_loop v 0 of None \<Rightarrow> (False, parsed) | Some number \<Rightarrow> (True, Ptr number)))"

definition hex_digit :: "byte \<Rightarrow> int" where
  "hex_digit v =
     (if 48 \<le> v \<and> v \<le> 57 then int (unat v) - 48
      else
        let w = ascii_lower v in
        if 97 \<le> w \<and> w \<le> 102 then int (unat w) - 97 + 10 else -1)"

definition match_stream_byte :: "bytes \<Rightarrow> nat \<Rightarrow> byte \<Rightarrow> nat" where
  "match_stream_byte needle matched b =
     (if matched \<ge> length needle then matched
      else if b = needle ! matched then matched + 1
      else if b = needle ! 0 then 1 else 0)"

section \<open>Chunked bodies\<close>

record chunk_scan =
  cs_prefix :: bytes
  cs_name_match :: nat
  cs_session_match :: nat
  cs_pseudonym_match :: nat
  cs_token_match :: nat
  cs_decoded :: nat

definition chunk_scan_zero :: chunk_scan where
  "chunk_scan_zero = \<lparr>cs_prefix = [], cs_name_match = 0, cs_session_match = 0, cs_pseudonym_match = 0,
     cs_token_match = 0, cs_decoded = 0\<rparr>"

definition finish_chunked_result :: "http_result \<Rightarrow> chunk_scan \<Rightarrow> http_result" where
  "finish_chunked_result result st = result\<lparr>
     hr_body_bytes := cs_decoded st,
     hr_binary_plist := (length (cs_prefix st) = 8 \<and> memcmp (cs_prefix st) bplist_magic 8 = 0),
     hr_receiver_computer_name_key := (cs_name_match st = length key_name),
     hr_ids_session_id_key := (cs_session_match st = length key_session),
     hr_receiver_pseudonym_key := (cs_pseudonym_match st = length key_pseudonym),
     hr_receiver_push_token_key := (cs_token_match st = length key_token)\<rparr>"

definition scan_body_byte :: "chunk_scan \<Rightarrow> byte \<Rightarrow> chunk_scan" where
  "scan_body_byte st b = st\<lparr>
     cs_prefix := (if length (cs_prefix st) < 8 then cs_prefix st @ [b] else cs_prefix st),
     cs_name_match := match_stream_byte key_name (cs_name_match st) b,
     cs_session_match := match_stream_byte key_session (cs_session_match st) b,
     cs_pseudonym_match := match_stream_byte key_pseudonym (cs_pseudonym_match st) b,
     cs_token_match := match_stream_byte key_token (cs_token_match st) b\<rparr>"

text \<open>The first index from \<open>i\<close> at which CR LF starts, or the first \<open>i\<close> with \<open>i + 1 \<ge> limit\<close>.\<close>

function scan_crlf :: "bytes \<Rightarrow> nat \<Rightarrow> nat \<Rightarrow> nat option" where
  "scan_crlf f limit i =
     (if i + 1 < limit then do {
        a \<leftarrow> rd f i;
        b \<leftarrow> rd f (i + 1);
        if a = 13 \<and> b = 10 then Some i else scan_crlf f limit (i + 1)
      }
      else Some i)"
  by pat_completeness auto
termination
  by (relation "measure (\<lambda>(f, limit, i). limit - i)") auto

text \<open>The first index from \<open>i\<close> below \<open>limit\<close> that holds \<open>c\<close>, or \<open>limit\<close>.\<close>

function scan_byte :: "bytes \<Rightarrow> byte \<Rightarrow> nat \<Rightarrow> nat \<Rightarrow> nat option" where
  "scan_byte f c limit i =
     (if i < limit then do {
        a \<leftarrow> rd f i;
        if a = c then Some i else scan_byte f c limit (i + 1)
      }
      else Some i)"
  by pat_completeness auto
termination
  by (relation "measure (\<lambda>(f, c, limit, i). limit - i)") auto

text \<open>The first index from \<open>i\<close> at which CR LF CR LF starts.\<close>

function find_blank_line :: "bytes \<Rightarrow> nat \<Rightarrow> nat \<Rightarrow> nat option option" where
  "find_blank_line f limit i =
     (if i + 3 < limit then do {
        m \<leftarrow> rds f i 4;
        if m = [13, 10, 13, 10] then Some (Some i) else find_blank_line f limit (i + 1)
      }
      else Some None)"
  by pat_completeness auto
termination
  by (relation "measure (\<lambda>(f, limit, i). limit - i)") auto

declare scan_crlf.simps [simp del] scan_byte.simps [simp del] find_blank_line.simps [simp del]

fun chunk_size_loop :: "bytes \<Rightarrow> nat \<Rightarrow> nat option" where
  "chunk_size_loop [] chunk_bytes = Some chunk_bytes"
| "chunk_size_loop (c # cs) chunk_bytes =
     (let digit = hex_digit c in
      if digit < 0 \<or> chunk_bytes > (SIZE_MAX - nat digit) div 16 then None
      else chunk_size_loop cs (chunk_bytes * 16 + nat digit))"

definition unfinished :: "bool \<Rightarrow> http_parse" where
  "unfinished end_of_stream = (if end_of_stream then HTTP_INVALID else HTTP_INCOMPLETE)"

lemma scan_crlf_ge: "scan_crlf f limit i = Some k \<Longrightarrow> i \<le> k"
proof (induction f limit i rule: scan_crlf.induct)
  case (1 f limit i)
  show ?case
  proof (cases "i + 1 < limit")
    case False
    then show ?thesis using "1.prems" by (simp add: scan_crlf.simps)
  next
    case True
    then obtain a b where ab: "rd f i = Some a" "rd f (i + 1) = Some b"
      using "1.prems" by (auto simp: scan_crlf.simps [of f limit i] bind_eq_Some_conv)
    show ?thesis
    proof (cases "a = 13 \<and> b = 10")
      case True
      then show ?thesis using "1.prems" ab \<open>i + 1 < limit\<close> by (simp add: scan_crlf.simps [of f limit i])
    next
      case False
      then have "scan_crlf f limit (i + 1) = Some k" using "1.prems" ab \<open>i + 1 < limit\<close>
        by (auto simp: scan_crlf.simps [of f limit i])
      then show ?thesis using "1.IH" [OF True ab False] by simp
    qed
  qed
qed

function parse_chunked_loop ::
  "bytes \<Rightarrow> bool \<Rightarrow> nat \<Rightarrow> chunk_scan \<Rightarrow> http_result \<Rightarrow> (http_parse \<times> http_result) option" where
  "parse_chunked_loop f end_of_stream offset st result =
     (if offset < length f then do {
        line_end \<leftarrow> scan_crlf f (length f) offset;
        if line_end + 1 \<ge> length f then Some (unfinished end_of_stream, result)
        else do {
          digits_end \<leftarrow> scan_byte f 59 line_end offset;
          if digits_end = offset then Some (HTTP_INVALID, result)
          else do {
            size_text \<leftarrow> rds f offset (digits_end - offset);
            case chunk_size_loop size_text 0 of
              None \<Rightarrow> Some (HTTP_INVALID, result)
            | Some chunk_bytes \<Rightarrow>
                let offset1 = line_end + 2 in
                if chunk_bytes = 0 then do {
                  tail \<leftarrow> (if offset1 + 2 \<le> length f then rds f offset1 2 else Some []);
                  if tail = [13, 10] then Some (HTTP_COMPLETE, finish_chunked_result result st)
                  else do {
                    blank \<leftarrow> find_blank_line f (length f) offset1;
                    Some (if blank \<noteq> None then (HTTP_COMPLETE, finish_chunked_result result st)
                          else (unfinished end_of_stream, result))
                  }
                }
                else if chunk_bytes > length f - offset1 \<or> chunk_bytes + 2 > length f - offset1
                then Some (unfinished end_of_stream, result)
                else do {
                  chunk \<leftarrow> rds f offset1 chunk_bytes;
                  let st1 = (foldl scan_body_byte st chunk)\<lparr>cs_decoded := cs_decoded st + chunk_bytes\<rparr>;
                  let offset2 = offset1 + chunk_bytes;
                  end_bytes \<leftarrow> rds f offset2 2;
                  if end_bytes \<noteq> [13, 10] then Some (HTTP_INVALID, result)
                  else parse_chunked_loop f end_of_stream (offset2 + 2) st1 result
                }
          }
        }
      }
      else Some (unfinished end_of_stream, result))"
  by pat_completeness auto
termination
  by (relation "measure (\<lambda>(f, eos, offset, st, result). length f - offset)")
    (auto dest: scan_crlf_ge)

declare parse_chunked_loop.simps [simp del]

definition parse_chunked_body :: "bytes \<Rightarrow> nat \<Rightarrow> bool \<Rightarrow> http_result \<Rightarrow> (http_parse \<times> http_result) option" where
  "parse_chunked_body response offset end_of_stream result =
     parse_chunked_loop response end_of_stream offset chunk_scan_zero result"

section \<open>The request\<close>

definition discover_head :: "bytes \<Rightarrow> u16 \<Rightarrow> bytes" where
  "discover_head host port =
     ascii ''POST /Discover HTTP/1.1'' @ [13, 10] @
     ascii ''Host: '' @ host @ [58] @ digits 10 (unat port) @ [13, 10] @
     ascii ''Content-Type: application/octet-stream'' @ [13, 10] @
     ascii ''Connection: keep-alive'' @ [13, 10] @
     ascii ''Accept: */*'' @ [13, 10] @
     ascii ''User-Agent: AirDrop/1.0'' @ [13, 10] @
     ascii ''Accept-Language: en-us'' @ [13, 10] @
     ascii ''Accept-Encoding: br, gzip, deflate'' @ [13, 10] @
     ascii ''Content-Length: '' @ digits 10 ESPDROP_AIRDROP_DISCOVER_BODY_BYTES @ [13, 10, 13, 10]"

definition espdrop_airdrop_build_discover_request :: "bytes ptr \<Rightarrow> nat \<Rightarrow> bytes ptr \<Rightarrow> u16 \<Rightarrow> nat \<times> bytes ptr" where
  "espdrop_airdrop_build_discover_request output capacity host port =
     (if output = NULL \<or> host = NULL \<or> deref host = [] \<or> port = 0 then (0, output)
      else
        let t = discover_head (deref host) port;
            out1 = snprintf_into (deref output) capacity t in
        if length t \<ge> capacity \<or> length t + length discover_body > capacity then (0, Ptr out1)
        else (length t + length discover_body, Ptr (store out1 (length t) discover_body)))"

section \<open>The response\<close>

definition is_decimal :: "byte \<Rightarrow> bool" where
  "is_decimal b \<longleftrightarrow> \<not> (b < 48 \<or> b > 57)"

function skip_blanks :: "bytes \<Rightarrow> nat \<Rightarrow> nat \<Rightarrow> nat option" where
  "skip_blanks f limit i =
     (if i < limit then do {
        a \<leftarrow> rd f i;
        if a = 32 \<or> a = 9 then skip_blanks f limit (i + 1) else Some i
      }
      else Some i)"
  by pat_completeness auto
termination
  by (relation "measure (\<lambda>(f, limit, i). limit - i)") auto

fun trim_blanks :: "bytes \<Rightarrow> nat \<Rightarrow> nat \<Rightarrow> nat option" where
  "trim_blanks f start 0 = Some 0"
| "trim_blanks f start (Suc k) =
     (if Suc k > start then do {
        a \<leftarrow> rd f k;
        if a = 32 \<or> a = 9 then trim_blanks f start k else Some (Suc k)
      }
      else Some (Suc k))"

declare skip_blanks.simps [simp del]

text \<open>One header line \<open>[offset, end)\<close>; \<open>None\<close> inside the option stands for \<^verbatim>\<open>INVALID\<close>.\<close>

definition parse_header_line :: "bytes \<Rightarrow> nat \<Rightarrow> nat \<Rightarrow> http_result \<Rightarrow> (bool \<times> http_result) option" where
  "parse_header_line f offset line_end result = do {
     colon \<leftarrow> scan_byte f 58 line_end offset;
     if colon = line_end then Some (False, result)
     else do {
       start \<leftarrow> skip_blanks f line_end (colon + 1);
       value_end \<leftarrow> trim_blanks f start line_end;
       name \<leftarrow> rds f offset (colon - offset);
       v \<leftarrow> rds f start (value_end - start);
       Some (
         if ascii_equal name (ascii ''Content-Length'') then
           (case parse_decimal v (Ptr (hr_content_length result)) of (ok, n) \<Rightarrow>
              if \<not> ok then (False, result)
              else (True, result\<lparr>hr_content_length := deref n, hr_has_content_length := True\<rparr>))
         else if ascii_equal name (ascii ''Content-Type'') then
           (True, result\<lparr>hr_content_type :=
              copy_header_value ESPDROP_AIRDROP_HTTP_CONTENT_TYPE_BYTES (hr_content_type result) v\<rparr>)
         else if ascii_equal name (ascii ''Content-Encoding'') then
           (True, result\<lparr>hr_content_encoding :=
              copy_header_value ESPDROP_AIRDROP_HTTP_CONTENT_ENCODING_BYTES (hr_content_encoding result) v\<rparr>)
         else if ascii_equal name (ascii ''Transfer-Encoding'') \<and> ascii_equal v (ascii ''chunked'') then
           (True, result\<lparr>hr_chunked := True\<rparr>)
         else (True, result))
     }
   }"

function parse_headers :: "bytes \<Rightarrow> nat \<Rightarrow> nat \<Rightarrow> http_result \<Rightarrow> (bool \<times> http_result) option" where
  "parse_headers f header_bytes offset result =
     (if offset + 2 < header_bytes then do {
        line_end \<leftarrow> scan_crlf f header_bytes offset;
        if line_end = offset then Some (True, result)
        else do {
          (ok, r) \<leftarrow> parse_header_line f offset line_end result;
          if \<not> ok then Some (False, r) else parse_headers f header_bytes (line_end + 2) r
        }
      }
      else Some (True, result))"
  by pat_completeness auto
termination
  by (relation "measure (\<lambda>(f, header_bytes, offset, result). header_bytes - offset)")
    (auto dest: scan_crlf_ge)

declare parse_headers.simps [simp del]

definition parse_status_line :: "bytes \<Rightarrow> nat \<Rightarrow> nat option option" where
  "parse_status_line f line_end =
     (if line_end < 12 then Some None
      else do {
        magic \<leftarrow> rds f 0 7;
        b8 \<leftarrow> rd f 8;
        b9 \<leftarrow> rd f 9;
        b10 \<leftarrow> rd f 10;
        b11 \<leftarrow> rd f 11;
        if magic \<noteq> ascii ''HTTP/1.'' \<or> b8 \<noteq> 32 \<or> \<not> is_decimal b9 \<or> \<not> is_decimal b10 \<or> \<not> is_decimal b11
        then Some None
        else Some (Some (unat (b9 - 48) * 100 + unat (b10 - 48) * 10 + unat (b11 - 48)))
      })"

definition finish_plain_result :: "bytes \<Rightarrow> http_result \<Rightarrow> http_result" where
  "finish_plain_result body result = result\<lparr>
     hr_binary_plist := (length body \<ge> 8 \<and> memcmp body bplist_magic 8 = 0),
     hr_receiver_computer_name_key := contains_bytes body key_name,
     hr_ids_session_id_key := contains_bytes body key_session,
     hr_receiver_pseudonym_key := contains_bytes body key_pseudonym,
     hr_receiver_push_token_key := contains_bytes body key_token\<rparr>"

definition parse_plain_body :: "bytes \<Rightarrow> nat \<Rightarrow> nat \<Rightarrow> http_result \<Rightarrow> (http_parse \<times> http_result) option" where
  "parse_plain_body f header_bytes body_bytes result = do {
     body \<leftarrow> rds f header_bytes body_bytes;
     Some (HTTP_COMPLETE, finish_plain_result body (result\<lparr>hr_body_bytes := body_bytes\<rparr>)) }"

definition espdrop_airdrop_parse_discover_response ::
  "bytes ptr \<Rightarrow> bool \<Rightarrow> http_result ptr \<Rightarrow> (http_parse \<times> http_result ptr) option" where
  "espdrop_airdrop_parse_discover_response response end_of_stream result =
     (if response = NULL \<or> result = NULL then Some (HTTP_INVALID, result)
      else
        let f = deref response in
        do {
          blank \<leftarrow> find_blank_line f (length f) 0;
          case blank of
            None \<Rightarrow> Some (unfinished end_of_stream, Ptr http_result_zero)
          | Some index \<Rightarrow>
              let header_bytes = index + 4 in
              do {
                line_end \<leftarrow> scan_crlf f header_bytes 0;
                status \<leftarrow> (if line_end + 1 < header_bytes then parse_status_line f line_end else Some None);
                case status of
                  None \<Rightarrow> Some (HTTP_INVALID, Ptr http_result_zero)
                | Some status_code \<Rightarrow> do {
                    (ok, r) \<leftarrow> parse_headers f header_bytes (line_end + 2)
                      (http_result_zero\<lparr>hr_status_code := status_code, hr_header_bytes := header_bytes\<rparr>);
                    if \<not> ok then Some (HTTP_INVALID, Ptr r)
                    else
                      let available_body = length f - header_bytes in
                      do {
                        (p, r1) \<leftarrow>
                          (if hr_has_content_length r then
                             if available_body < hr_content_length r then Some (unfinished end_of_stream, r)
                             else parse_plain_body f header_bytes (hr_content_length r) r
                           else if hr_chunked r then parse_chunked_body f header_bytes end_of_stream r
                           else if \<not> end_of_stream then Some (HTTP_INCOMPLETE, r)
                           else parse_plain_body f header_bytes available_body r);
                        Some (p, Ptr r1)
                      }
                  }
              }
        })"

definition espdrop_airdrop_parse_ask_response ::
  "bytes ptr \<Rightarrow> bool \<Rightarrow> http_result ptr \<Rightarrow> (http_parse \<times> http_result ptr) option" where
  "espdrop_airdrop_parse_ask_response response end_of_stream result =
     espdrop_airdrop_parse_discover_response response end_of_stream result"

definition espdrop_airdrop_parse_upload_response ::
  "bytes ptr \<Rightarrow> bool \<Rightarrow> http_result ptr \<Rightarrow> (http_parse \<times> http_result ptr) option" where
  "espdrop_airdrop_parse_upload_response response end_of_stream result =
     espdrop_airdrop_parse_discover_response response end_of_stream result"

section \<open>The parser stays inside the response\<close>

lemma scan_crlf_ok: "limit \<le> length f \<Longrightarrow> i \<le> limit \<Longrightarrow> returns (scan_crlf f limit i) (\<lambda>k. i \<le> k \<and> k \<le> limit)"
proof (induction "limit - i" arbitrary: i rule: less_induct)
  case less
  have step: "returns (scan_crlf f limit (Suc i)) (\<lambda>k. i \<le> k \<and> k \<le> limit)" if "i < limit"
    by (rule ok_mono [OF less.hyps]) (use that less.prems in auto)
  show ?case
    by (subst scan_crlf.simps, intro ok_intros) (use less.prems step in auto)
qed

lemma scan_byte_ok: "limit \<le> length f \<Longrightarrow> i \<le> limit \<Longrightarrow> returns (scan_byte f c limit i) (\<lambda>k. i \<le> k \<and> k \<le> limit)"
proof (induction "limit - i" arbitrary: i rule: less_induct)
  case less
  have step: "returns (scan_byte f c limit (Suc i)) (\<lambda>k. i \<le> k \<and> k \<le> limit)" if "i < limit"
    by (rule ok_mono [OF less.hyps]) (use that less.prems in auto)
  show ?case
    by (subst scan_byte.simps, intro ok_intros) (use less.prems step in auto)
qed

lemma skip_blanks_ok: "limit \<le> length f \<Longrightarrow> i \<le> limit \<Longrightarrow> returns (skip_blanks f limit i) (\<lambda>k. i \<le> k \<and> k \<le> limit)"
proof (induction "limit - i" arbitrary: i rule: less_induct)
  case less
  have step: "returns (skip_blanks f limit (Suc i)) (\<lambda>k. i \<le> k \<and> k \<le> limit)" if "i < limit"
    by (rule ok_mono [OF less.hyps]) (use that less.prems in auto)
  show ?case
    by (subst skip_blanks.simps, intro ok_intros) (use less.prems step in auto)
qed

lemma trim_blanks_ok: "k \<le> length f \<Longrightarrow> start \<le> k \<Longrightarrow> returns (trim_blanks f start k) (\<lambda>j. start \<le> j \<and> j \<le> k)"
proof (induction k)
  case 0
  then show ?case by (auto intro: ok_intros)
next
  case (Suc k)
  show ?case
    unfolding trim_blanks.simps
    by (intro ok_intros) (use Suc.prems in \<open>auto intro: ok_mono [OF Suc.IH]\<close>)
qed

lemma find_blank_line_ok:
  "limit \<le> length f \<Longrightarrow> returns (find_blank_line f limit i) (\<lambda>r. case r of None \<Rightarrow> True | Some k \<Rightarrow> i \<le> k \<and> k + 3 < limit)"
proof (induction "limit - i" arbitrary: i rule: less_induct)
  case less
  have step: "returns (find_blank_line f limit (Suc i)) (\<lambda>r. case r of None \<Rightarrow> True | Some k \<Rightarrow> i \<le> k \<and> k + 3 < limit)" if "i + 3 < limit"
    by (rule ok_mono [OF less.hyps]) (use that less.prems in \<open>auto split: option.splits\<close>)
  show ?case
    by (subst find_blank_line.simps, intro ok_intros) (use less.prems step in auto)
qed

lemma parse_chunked_loop_ok: "returns (parse_chunked_loop f eos offset st result) (\<lambda>_. True)"
proof (induction "length f - offset" arbitrary: offset st rule: less_induct)
  case less
  show ?case
    by (subst parse_chunked_loop.simps, intro ok_intros ok_bind [OF scan_crlf_ok] ok_bind [OF scan_byte_ok]
        ok_bind [OF find_blank_line_ok] ok_bind [of "if _ then _ else _" "\<lambda>_. True"])
      (auto intro: less.hyps)
qed

lemma parse_header_line_ok:
  "line_end \<le> length f \<Longrightarrow> offset \<le> line_end \<Longrightarrow> returns (parse_header_line f offset line_end r) (\<lambda>_. True)"
  unfolding parse_header_line_def
  by (intro ok_intros ok_bind [OF scan_byte_ok] ok_bind [OF skip_blanks_ok] ok_bind [OF trim_blanks_ok]) auto

lemma parse_headers_ok: "header_bytes \<le> length f \<Longrightarrow> returns (parse_headers f header_bytes offset r) (\<lambda>_. True)"
proof (induction "header_bytes - offset" arbitrary: offset r rule: less_induct)
  case less
  show ?case
    by (subst parse_headers.simps, intro ok_intros ok_bind [OF scan_crlf_ok] ok_bind [OF parse_header_line_ok])
      (use less.prems in \<open>auto intro!: less.hyps\<close>)
qed

lemma parse_status_line_ok: "line_end \<le> length f \<Longrightarrow> returns (parse_status_line f line_end) (\<lambda>_. True)"
  unfolding parse_status_line_def by (intro ok_intros) auto

lemma parse_plain_body_ok: "h + n \<le> length f \<Longrightarrow> returns (parse_plain_body f h n r) (\<lambda>_. True)"
  unfolding parse_plain_body_def by (intro ok_intros) auto

lemma parse_response_returns:
  "returns (espdrop_airdrop_parse_discover_response (Ptr response) end_of_stream (Ptr r0)) (\<lambda>(p, r). r \<noteq> NULL)"
  unfolding espdrop_airdrop_parse_discover_response_def parse_chunked_body_def
  by (intro ok_intros ok_bind [OF scan_crlf_ok] ok_bind [OF find_blank_line_ok] ok_bind [OF parse_headers_ok]
      ok_bind [of "if _ then _ else _" "\<lambda>_. True"] parse_chunked_loop_ok parse_plain_body_ok ok_mono [OF parse_status_line_ok])
     auto

text \<open>
  C28. Parsing a response never leaves it and always ends: for every byte string received so far,
  complete or not, the parser returns a verdict, and it keeps no verdict of an earlier call.
\<close>

theorem parse_response_total:
  "\<exists>verdict r. espdrop_airdrop_parse_discover_response (Ptr response) end_of_stream (Ptr r0) = Some (verdict, Ptr r) \<and>
     espdrop_airdrop_parse_discover_response (Ptr response) end_of_stream (Ptr r1) = Some (verdict, Ptr r)"
proof -
  from parse_response_returns [of response end_of_stream r0]
  obtain verdict r where r: "espdrop_airdrop_parse_discover_response (Ptr response) end_of_stream (Ptr r0) = Some (verdict, r)"
    "r \<noteq> NULL" by (auto simp: returns_def)
  then obtain r' where r': "r = Ptr r'" by (cases r) auto
  have "espdrop_airdrop_parse_discover_response (Ptr response) end_of_stream (Ptr r1) =
      espdrop_airdrop_parse_discover_response (Ptr response) end_of_stream (Ptr r0)"
    by (simp add: espdrop_airdrop_parse_discover_response_def)
  with r r' show ?thesis by simp
qed

section \<open>Numbers\<close>

text \<open>The overflow guards compare exactly with the largest \<^verbatim>\<open>size_t\<close>.\<close>

lemma guard_exact: "0 < b \<Longrightarrow> d \<le> SIZE_MAX \<Longrightarrow> (n > (SIZE_MAX - d) div b) = (n * b + d > SIZE_MAX)"
proof -
  assume b: "0 < b" and d: "d \<le> SIZE_MAX"
  have "(n \<le> (SIZE_MAX - d) div b) = (n * b \<le> SIZE_MAX - d)" using b by (simp add: less_eq_div_iff_mult_less_eq)
  also have "\<dots> = (n * b + d \<le> SIZE_MAX)" using d by linarith
  finally show ?thesis by linarith
qed

definition radix_value :: "nat \<Rightarrow> nat \<Rightarrow> nat list \<Rightarrow> nat" where
  "radix_value b acc ds = foldl (\<lambda>a d. a * b + d) acc ds"

lemma radix_value_mono: "0 < b \<Longrightarrow> acc \<le> radix_value b acc ds"
proof (induction ds arbitrary: acc)
  case (Cons d ds)
  have "acc \<le> acc * b + d" using Cons.prems by (simp add: trans_le_add1)
  also have "\<dots> \<le> radix_value b (acc * b + d) ds" using Cons by blast
  finally show ?case by (simp add: radix_value_def)
qed (simp add: radix_value_def)

lemma decimal_digit: "digit_value c = Some d \<Longrightarrow> d < 10 \<Longrightarrow> \<not> (c < 48 \<or> c > 57) \<and> unat (c - 48) = d"
  by (auto simp: digit_value_def word_le_nat_alt word_less_nat_alt unat_sub split: if_splits)

lemma parse_decimal_loop_value:
  "denotes 10 ds cs \<Longrightarrow> acc \<le> SIZE_MAX \<Longrightarrow>
     parse_decimal_loop cs acc = (if radix_value 10 acc ds \<le> SIZE_MAX then Some (radix_value 10 acc ds) else None)"
proof (induction cs arbitrary: ds acc)
  case Nil
  then show ?case by (simp add: radix_value_def)
next
  case (Cons c cs)
  then obtain d ds' where d: "ds = d # ds'" "d < 10" "digit_value c = Some d" "denotes 10 ds' cs" by auto
  have ds: "d \<le> SIZE_MAX" using d(2) by (simp add: SIZE_MAX_def)
  have rv: "radix_value 10 acc ds = radix_value 10 (acc * 10 + d) ds'" by (simp add: d(1) radix_value_def)
  show ?case
  proof (cases "acc * 10 + d > SIZE_MAX")
    case True
    then have "radix_value 10 acc ds > SIZE_MAX" unfolding rv using radix_value_mono [of 10 "acc * 10 + d" ds'] by linarith
    then show ?thesis using decimal_digit [OF d(3,2)] guard_exact [of 10 d acc] ds True by (simp add: Let_def)
  next
    case False
    then show ?thesis using decimal_digit [OF d(3,2)] guard_exact [of 10 d acc] ds Cons.IH [OF d(4)] rv by (simp add: Let_def)
  qed
qed

lemma uint_lower: "unat (c :: byte) \<le> 70 \<Longrightarrow> uint (c + 32) = 32 + uint c"
proof -
  assume "unat c \<le> 70"
  moreover have "uint c = int (unat c)" by simp
  ultimately have "uint c \<le> 70" by linarith
  then show ?thesis by (simp add: uint_word_ariths)
qed

lemma hex_digit_value: "digit_value c = Some d \<Longrightarrow> hex_digit c = int d"
  by (auto simp: digit_value_def hex_digit_def ascii_lower_def Let_def word_le_nat_alt unat_word_ariths uint_lower split: if_splits)

lemma digit_value_small: "digit_value c = Some d \<Longrightarrow> d < 16"
  by (auto simp: digit_value_def word_le_nat_alt split: if_splits)

lemma chunk_size_loop_value:
  "denotes 16 ds cs \<Longrightarrow> acc \<le> SIZE_MAX \<Longrightarrow>
     chunk_size_loop cs acc = (if radix_value 16 acc ds \<le> SIZE_MAX then Some (radix_value 16 acc ds) else None)"
proof (induction cs arbitrary: ds acc)
  case Nil
  then show ?case by (simp add: radix_value_def)
next
  case (Cons c cs)
  then obtain d ds' where d: "ds = d # ds'" "digit_value c = Some d" "denotes 16 ds' cs" by auto
  have ds: "d \<le> SIZE_MAX" using digit_value_small [OF d(2)] by (simp add: SIZE_MAX_def)
  have rv: "radix_value 16 acc ds = radix_value 16 (acc * 16 + d) ds'" by (simp add: d(1) radix_value_def)
  show ?case
  proof (cases "acc * 16 + d > SIZE_MAX")
    case True
    then have "radix_value 16 acc ds > SIZE_MAX" unfolding rv using radix_value_mono [of 16 "acc * 16 + d" ds'] by linarith
    then show ?thesis using hex_digit_value [OF d(2)] guard_exact [of 16 d acc] ds True by (simp add: Let_def)
  next
    case False
    then show ?thesis using hex_digit_value [OF d(2)] guard_exact [of 16 d acc] ds Cons.IH [OF d(3)] rv by (simp add: Let_def)
  qed
qed

lemma chunk_size_digits: "n \<le> SIZE_MAX \<Longrightarrow> chunk_size_loop (digits 16 n) 0 = Some n"
proof -
  assume n: "n \<le> SIZE_MAX"
  obtain ds where ds: "denotes 16 ds (digits 16 n)" "positional 16 ds = n" using digits_denote [of 16 n] by auto
  then have "radix_value 16 0 ds = n" by (simp add: radix_value_def positional_def)
  with chunk_size_loop_value [OF ds(1), of 0] n show ?thesis by simp
qed

lemma parse_decimal_digits: "n \<le> SIZE_MAX \<Longrightarrow> parse_decimal (digits 10 n) (Ptr m) = (True, Ptr n)"
proof -
  assume n: "n \<le> SIZE_MAX"
  obtain ds where ds: "denotes 10 ds (digits 10 n)" "positional 10 ds = n" using digits_denote [of 10 n] by auto
  then have "radix_value 10 0 ds = n" by (simp add: radix_value_def positional_def)
  with parse_decimal_loop_value [OF ds(1), of 0] n show ?thesis by (simp add: parse_decimal_def)
qed

section \<open>Streaming search\<close>

text \<open>
  The streaming matcher drops back to the first letter on a mismatch. That is exact for a needle
  in which no longer partial match can survive: at every position, the letter after a proper
  border equals the letter that just failed.
\<close>

definition restartable :: "bytes \<Rightarrow> bool" where
  "restartable needle \<longleftrightarrow> needle \<noteq> [] \<and>
     list_all (\<lambda>k. list_all (\<lambda>j. take j needle = drop (k - j) (take k needle) \<longrightarrow> needle ! j = needle ! k) [1..<k]) [0..<length needle]"

lemma keys_restartable: "restartable key_name" "restartable key_session" "restartable key_pseudonym" "restartable key_token"
  by code_simp+

definition partial_match :: "bytes \<Rightarrow> bytes \<Rightarrow> nat \<Rightarrow> bool" where
  "partial_match needle xs j \<longleftrightarrow> j \<le> length needle \<and> suffix (take j needle) xs"

lemma partial_match_snoc:
  "j < length needle \<Longrightarrow> partial_match needle (xs @ [b]) (Suc j) \<longleftrightarrow> partial_match needle xs j \<and> needle ! j = b"
  by (auto simp: partial_match_def take_Suc_conv_app_nth)

lemma partial_match_0 [simp]: "partial_match needle xs 0"
  by (simp add: partial_match_def)

text \<open>The matcher holds the longest partial match, until the first full one.\<close>

definition longest :: "bytes \<Rightarrow> bytes \<Rightarrow> nat \<Rightarrow> bool" where
  "longest needle xs m \<longleftrightarrow> partial_match needle xs m \<and> (\<forall>j. partial_match needle xs j \<longrightarrow> j \<le> m)"

lemma longest_step:
  assumes r: "restartable needle" and l: "longest needle xs m" and m: "m < length needle"
  shows "longest needle (xs @ [b]) (match_stream_byte needle m b)"
proof -
  have pos: "0 < length needle" using m by linarith
  have pm: "partial_match needle xs m" and mx: "partial_match needle xs j \<Longrightarrow> j \<le> m" for j
    using l by (auto simp: longest_def)
  have border: "needle ! j = needle ! m" if "partial_match needle xs j" "0 < j" "j < m" for j
  proof -
    have "suffix (take j needle) (take m needle)"
      using that pm m by (auto simp: partial_match_def intro: suffix_length_suffix)
    then obtain zs where z: "take m needle = zs @ take j needle" by (auto simp: suffix_def)
    have "length zs + j = m" using arg_cong [OF z, of length] that(3) m by simp
    then have "take j needle = drop (m - j) (take m needle)" unfolding z by (metis add_diff_cancel_right' drop_append_exact)
    moreover have "m \<in> set [0..<length needle]" "j \<in> set [1..<m]" using that m by auto
    ultimately show ?thesis using r unfolding restartable_def list_all_iff by blast
  qed
  have snoc: "partial_match needle (xs @ [b]) k \<longleftrightarrow> k = 0 \<or> (\<exists>j. k = Suc j \<and> j < length needle \<and> partial_match needle xs j \<and> needle ! j = b)" for k
  proof (cases k)
    case (Suc j)
    then show ?thesis using partial_match_snoc [of j needle xs b]
      by (cases "j < length needle") (simp_all add: partial_match_def [of _ _ "Suc j"])
  qed simp
  show ?thesis
  proof (cases "b = needle ! m")
    case True
    then show ?thesis unfolding longest_def snoc using m pm mx by (auto simp: match_stream_byte_def)
  next
    case False
    have only: "j = 0" if "partial_match needle xs j" "needle ! j = b" for j
      using border [of j] mx [OF that(1)] that False by (metis gr0I le_neq_implies_less)
    show ?thesis unfolding longest_def snoc using m pos False only by (auto simp: match_stream_byte_def)
  qed
qed

lemma sublist_snoc: "needle \<noteq> [] \<Longrightarrow> sublist needle (xs @ [b]) \<longleftrightarrow> sublist needle xs \<or> suffix needle (xs @ [b])"
proof
  assume n: "needle \<noteq> []" and "sublist needle (xs @ [b])"
  then obtain ps ss where e: "xs @ [b] = ps @ needle @ ss" by (auto simp: sublist_def)
  show "sublist needle xs \<or> suffix needle (xs @ [b])"
  proof (cases ss rule: rev_cases)
    case Nil
    then show ?thesis using e by (simp add: suffix_def)
  next
    case (snoc ss' b')
    then have "xs = ps @ needle @ ss'" using e by simp
    then show ?thesis by (auto simp: sublist_def)
  qed
next
  assume "sublist needle xs \<or> suffix needle (xs @ [b])"
  then show "sublist needle (xs @ [b])"
  proof
    assume "sublist needle xs"
    then obtain ps ss where "xs = ps @ needle @ ss" by (auto simp: sublist_def)
    then have "xs @ [b] = ps @ needle @ (ss @ [b])" by simp
    then show ?thesis unfolding sublist_def by blast
  qed (rule suffix_imp_sublist)
qed

lemma longest_full:
  assumes l: "longest needle xs m"
  shows "m = length needle \<longleftrightarrow> suffix needle xs"
proof
  assume "m = length needle"
  then show "suffix needle xs" using l by (simp add: longest_def partial_match_def)
next
  assume "suffix needle xs"
  then have "partial_match needle xs (length needle)" by (simp add: partial_match_def)
  then have "length needle \<le> m" using l unfolding longest_def by blast
  then show "m = length needle" using l by (simp add: longest_def partial_match_def)
qed

lemma longest_le: "longest needle xs m \<Longrightarrow> m \<le> length needle"
  by (simp add: longest_def partial_match_def)

lemma match_stream_state:
  assumes r: "restartable needle"
  shows "(sublist needle xs \<longrightarrow> foldl (match_stream_byte needle) 0 xs = length needle) \<and>
     (\<not> sublist needle xs \<longrightarrow> longest needle xs (foldl (match_stream_byte needle) 0 xs))"
proof (induction xs rule: rev_induct)
  case Nil
  have "needle \<noteq> []" using r by (simp add: restartable_def)
  then show ?case by (auto simp: longest_def partial_match_def)
next
  case (snoc b xs)
  let ?m = "foldl (match_stream_byte needle) 0 xs"
  have ne: "needle \<noteq> []" using r by (simp add: restartable_def)
  show ?case
  proof (cases "sublist needle xs")
    case True
    then show ?thesis using snoc.IH ne by (simp add: match_stream_byte_def sublist_snoc)
  next
    case False
    then have l: "longest needle xs ?m" using snoc.IH by blast
    have "\<not> suffix needle xs" using False suffix_imp_sublist by blast
    then have "?m < length needle" using longest_full [OF l] longest_le [OF l] by linarith
    from longest_step [OF r l this] have l': "longest needle (xs @ [b]) (match_stream_byte needle ?m b)" .
    then show ?thesis using longest_full [OF l'] False ne by (simp add: sublist_snoc)
  qed
qed

lemma match_stream_correct:
  "restartable needle \<Longrightarrow> foldl (match_stream_byte needle) 0 xs = length needle \<longleftrightarrow> sublist needle xs"
  using match_stream_state [of needle xs] longest_full [of needle xs] suffix_imp_sublist by blast

lemma contains_from_iff:
  "contains_from v needle k \<longleftrightarrow> (\<exists>i\<ge>k. i + length needle \<le> length v \<and> take (length needle) (drop i v) = needle)"
proof (induction v needle k rule: contains_from.induct)
  case (1 v needle k)
  show ?case
  proof (cases "k + length needle \<le> length v")
    case False
    then show ?thesis by (auto simp: contains_from.simps [of v needle k])
  next
    case True
    have "memcmp (drop k v) needle (length needle) = 0 \<longleftrightarrow> take (length needle) (drop k v) = needle"
      using True by (simp add: memcmp_def bytes_cmp_eq_0)
    moreover have "(\<exists>i\<ge>k. P i) \<longleftrightarrow> P k \<or> (\<exists>i\<ge>k + 1. P i)" for P :: "nat \<Rightarrow> bool"
      by (metis Suc_eq_plus1 Suc_leD le_antisym not_less_eq_eq order_refl)
    ultimately show ?thesis
      using 1 [OF True] True by (simp add: contains_from.simps [of v needle k])
  qed
qed

lemma contains_bytes_iff: "needle \<noteq> [] \<Longrightarrow> contains_bytes v needle \<longleftrightarrow> sublist needle v"
proof -
  assume ne: "needle \<noteq> []"
  have "(\<exists>i. i + length needle \<le> length v \<and> take (length needle) (drop i v) = needle) \<longleftrightarrow> sublist needle v"
  proof
    assume "\<exists>i. i + length needle \<le> length v \<and> take (length needle) (drop i v) = needle"
    then obtain i where "take (length needle) (drop i v) = needle" by blast
    then have "v = take i v @ needle @ drop (length needle) (drop i v)" by (metis append_take_drop_id)
    then show "sublist needle v" unfolding sublist_def by blast
  next
    assume "sublist needle v"
    then obtain ps ss where "v = ps @ needle @ ss" by (auto simp: sublist_def)
    then show "\<exists>i. i + length needle \<le> length v \<and> take (length needle) (drop i v) = needle"
      by (intro exI [of _ "length ps"]) simp
  qed
  moreover have "sublist needle v \<Longrightarrow> length needle \<le> length v" by (rule sublist_length_le)
  ultimately show ?thesis using ne by (auto simp: contains_bytes_def contains_from_iff)
qed

section \<open>Chunked and plain bodies agree\<close>

definition chunk_bytes :: "bytes \<Rightarrow> bytes" where
  "chunk_bytes c = digits 16 (length c) @ [13, 10] @ c @ [13, 10]"

lemma foldl_scan_body_byte:
  "length (cs_prefix st) \<le> 8 \<Longrightarrow> foldl scan_body_byte st xs = st\<lparr>
     cs_prefix := take 8 (cs_prefix st @ xs),
     cs_name_match := foldl (match_stream_byte key_name) (cs_name_match st) xs,
     cs_session_match := foldl (match_stream_byte key_session) (cs_session_match st) xs,
     cs_pseudonym_match := foldl (match_stream_byte key_pseudonym) (cs_pseudonym_match st) xs,
     cs_token_match := foldl (match_stream_byte key_token) (cs_token_match st) xs\<rparr>"
proof (induction xs arbitrary: st)
  case (Cons x xs)
  show ?case
  proof (cases "length (cs_prefix st) < 8")
    case True
    then show ?thesis using Cons.IH [of "scan_body_byte st x"] by (simp add: scan_body_byte_def)
  next
    case False
    then have "length (cs_prefix st) = 8" using Cons.prems by simp
    then show ?thesis using Cons.IH [of "scan_body_byte st x"] by (simp add: scan_body_byte_def)
  qed
qed simp

text \<open>The state of the scan after the body bytes \<open>xs\<close>.\<close>

definition scanned :: "bytes \<Rightarrow> chunk_scan" where
  "scanned xs = \<lparr>cs_prefix = take 8 xs,
     cs_name_match = foldl (match_stream_byte key_name) 0 xs,
     cs_session_match = foldl (match_stream_byte key_session) 0 xs,
     cs_pseudonym_match = foldl (match_stream_byte key_pseudonym) 0 xs,
     cs_token_match = foldl (match_stream_byte key_token) 0 xs, cs_decoded = length xs\<rparr>"

lemma scanned_append:
  "(foldl scan_body_byte (scanned xs) ys)\<lparr>cs_decoded := cs_decoded (scanned xs) + length ys\<rparr> = scanned (xs @ ys)"
  by (subst foldl_scan_body_byte) (simp_all add: scanned_def min_def)

lemma finish_scanned: "finish_chunked_result r (scanned xs) = finish_plain_result xs (r\<lparr>hr_body_bytes := length xs\<rparr>)"
proof -
  have k: "foldl (match_stream_byte key_name) 0 xs = length key_name \<longleftrightarrow> contains_bytes xs key_name"
    "foldl (match_stream_byte key_session) 0 xs = length key_session \<longleftrightarrow> contains_bytes xs key_session"
    "foldl (match_stream_byte key_pseudonym) 0 xs = length key_pseudonym \<longleftrightarrow> contains_bytes xs key_pseudonym"
    "foldl (match_stream_byte key_token) 0 xs = length key_token \<longleftrightarrow> contains_bytes xs key_token"
    using keys_restartable by (auto simp: match_stream_correct contains_bytes_iff restartable_def)
  have "length (take 8 xs) = 8 \<and> memcmp (take 8 xs) bplist_magic 8 = 0 \<longleftrightarrow> 8 \<le> length xs \<and> memcmp xs bplist_magic 8 = 0"
    by (auto simp: memcmp_def)
  then show ?thesis by (simp add: finish_chunked_result_def finish_plain_result_def scanned_def k)
qed

lemma scan_crlf_at:
  "list_all (\<lambda>c. c \<noteq> 13) ds \<Longrightarrow> length pre + length ds + 1 < limit \<Longrightarrow>
     scan_crlf (pre @ ds @ 13 # 10 # rest) limit (length pre) = Some (length pre + length ds)"
proof (induction ds arbitrary: pre)
  case Nil
  then show ?case by (subst scan_crlf.simps) (simp add: rd_def nth_append)
next
  case (Cons d ds)
  have "rd (pre @ (d # ds) @ 13 # 10 # rest) (length pre) = Some d" by (simp add: rd_def)
  moreover obtain b where "rd (pre @ (d # ds) @ 13 # 10 # rest) (Suc (length pre)) = Some b" by (auto simp: rd_def)
  ultimately show ?case using Cons.prems Cons.IH [of "pre @ [d]"] by (subst scan_crlf.simps) simp
qed

lemma scan_byte_none:
  "list_all (\<lambda>x. x \<noteq> c) ds \<Longrightarrow> scan_byte (pre @ ds @ rest) c (length pre + length ds) (length pre) = Some (length pre + length ds)"
proof (induction ds arbitrary: pre)
  case Nil
  then show ?case by (subst scan_byte.simps) simp
next
  case (Cons d ds)
  have "rd (pre @ (d # ds) @ rest) (length pre) = Some d" by (simp add: rd_def)
  then show ?case using Cons.prems Cons.IH [of "pre @ [d]"] by (subst scan_byte.simps) simp
qed

lemma denotes_safe: "denotes b ds cs \<Longrightarrow> list_all (\<lambda>c. c \<noteq> 13 \<and> c \<noteq> 59) cs"
  by (induction cs arbitrary: ds) (auto simp: digit_value_def)

lemma digits_safe: "list_all (\<lambda>c. c \<noteq> 13) (digits 16 n)" "list_all (\<lambda>c. c \<noteq> 59) (digits 16 n)"
  using digits_denote [of 16 n] denotes_safe by (auto simp: list_all_iff)

lemma chunk_step:
  assumes c: "c \<noteq> []" "length c + 2 \<le> SIZE_MAX" and f: "f = pre @ chunk_bytes c @ rest"
  shows "parse_chunked_loop f eos (length pre) (scanned xs) r =
     parse_chunked_loop f eos (length pre + length (chunk_bytes c)) (scanned (xs @ c)) r"
proof -
  let ?d = "digits 16 (length c)"
  have fd: "f = pre @ ?d @ 13 # 10 # (c @ [13, 10] @ rest)" by (simp add: f chunk_bytes_def)
  define le where "le = length pre + length ?d"
  have len: "length f = le + 4 + length c + length rest" by (simp add: fd le_def)
  have s1: "scan_crlf f (length f) (length pre) = Some le"
    unfolding fd le_def by (rule scan_crlf_at) (simp_all add: digits_safe)
  have s2: "scan_byte f 59 le (length pre) = Some le"
    unfolding fd le_def by (rule scan_byte_none) (simp add: digits_safe)
  have s3: "rds f (length pre) (le - length pre) = Some ?d"
    unfolding fd le_def by (simp add: rds_def)
  have s4: "chunk_size_loop ?d 0 = Some (length c)" using c(2) by (intro chunk_size_digits) simp
  have s5: "rds f (le + 2) (length c) = Some c" "rds f (le + 2 + length c) 2 = Some [13, 10]"
    unfolding fd le_def by (simp_all add: rds_def)
  have ne: "le \<noteq> length pre" by (simp add: le_def)
  have e: "le + 2 + length c + 2 = length pre + length (chunk_bytes c)" by (simp add: le_def chunk_bytes_def)
  have "length pre < length f" "\<not> length f \<le> le + 1" "\<not> length c + 2 > length f - (le + 2)" using len by (simp_all add: le_def)
  then show ?thesis
    using c(1) ne s1 s2 s3 s4 s5 e
    by (subst parse_chunked_loop.simps) (simp add: Let_def scanned_append [simplified] flip: scanned_append)
qed

definition chunked :: "bytes list \<Rightarrow> bytes" where
  "chunked cs = concat (map chunk_bytes cs) @ [48, 13, 10, 13, 10]"

lemma terminator_step:
  assumes f: "f = pre @ [48, 13, 10, 13, 10] @ rest"
  shows "parse_chunked_loop f eos (length pre) st r = Some (HTTP_COMPLETE, finish_chunked_result r st)"
proof -
  have f': "f = pre @ [48] @ 13 # 10 # ([13, 10] @ rest)" by (simp add: f)
  define le where "le = length pre + 1"
  have s1: "scan_crlf f (length f) (length pre) = Some le"
    unfolding f' le_def using scan_crlf_at [of "[48]" pre "length f" "[13, 10] @ rest"] by (simp add: f)
  have s2: "scan_byte f 59 le (length pre) = Some le"
    unfolding f' le_def using scan_byte_none [of 59 "[48]" pre "13 # 10 # ([13, 10] @ rest)"] by simp
  have s3: "rds f (length pre) (le - length pre) = Some [48]" "rds f (le + 2) 2 = Some [13, 10]"
    unfolding f le_def by (simp_all add: rds_def)
  have s4: "chunk_size_loop [48] 0 = Some 0" by (simp add: hex_digit_def)
  have "length pre < length f" "\<not> length f \<le> le + 1" "le + 2 + 2 \<le> length f" "le \<noteq> length pre" unfolding f le_def by simp_all
  then show ?thesis using s1 s2 s3 s4 by (subst parse_chunked_loop.simps) (simp add: Let_def)
qed

lemma parse_chunks:
  assumes "list_all (\<lambda>c. c \<noteq> []) cs" "f = pre @ concat (map chunk_bytes cs) @ rest" "length f \<le> SIZE_MAX"
  shows "parse_chunked_loop f eos (length pre) (scanned xs) r =
     parse_chunked_loop f eos (length pre + length (concat (map chunk_bytes cs))) (scanned (xs @ concat cs)) r"
  using assms(1,2)
proof (induction cs arbitrary: pre xs)
  case (Cons c cs)
  have f: "f = pre @ chunk_bytes c @ (concat (map chunk_bytes cs) @ rest)" "f = (pre @ chunk_bytes c) @ concat (map chunk_bytes cs) @ rest"
    using Cons.prems(2) by simp_all
  have "length c + 2 \<le> SIZE_MAX" using assms(3) f(1) by (simp add: chunk_bytes_def)
  from chunk_step [OF _ this f(1), of eos xs r] Cons.prems(1) Cons.IH [OF _ f(2), of "xs @ c"] show ?case by (simp add: add.assoc)
qed simp

text \<open>
  C27. A body sent in chunks is reported exactly as the same body sent whole: for every division
  into non-empty chunks, whatever follows, the incremental search for the four keys across
  chunk borders and the prefix test give the flags that the search over the whole body gives.
\<close>

theorem chunked_body_equals_plain:
  assumes "list_all (\<lambda>c. c \<noteq> []) cs" and "length (head @ chunked cs @ rest) \<le> SIZE_MAX"
  shows "parse_chunked_body (head @ chunked cs @ rest) (length head) end_of_stream r =
     parse_plain_body (head @ concat cs @ rest') (length head) (length (concat cs)) r"
proof -
  let ?f = "head @ chunked cs @ rest"
  have z: "chunk_scan_zero = scanned []" by (simp add: chunk_scan_zero_def scanned_def)
  have f: "?f = head @ concat (map chunk_bytes cs) @ [48, 13, 10, 13, 10] @ rest" by (simp add: chunked_def)
  have t: "?f = (head @ concat (map chunk_bytes cs)) @ [48, 13, 10, 13, 10] @ rest" by (simp add: chunked_def)
  have "parse_chunked_body ?f (length head) end_of_stream r = Some (HTTP_COMPLETE, finish_chunked_result r (scanned (concat cs)))"
    using parse_chunks [OF assms(1) f assms(2), of end_of_stream "[]" r]
      terminator_step [OF t, of end_of_stream "scanned (concat cs)" r]
    by (simp add: parse_chunked_body_def z)
  then show ?thesis by (simp add: finish_scanned parse_plain_body_def rds_def)
qed

theorem chunked_body_equals_plain_witness:
  "parse_chunked_body ([] @ chunked [ascii ''IDSSess'', ascii ''ionID''] @ []) (length ([] :: bytes)) False http_result_zero =
     parse_plain_body ([] @ concat [ascii ''IDSSess'', ascii ''ionID''] @ []) (length ([] :: bytes)) (length (concat [ascii ''IDSSess'', ascii ''ionID''])) http_result_zero"
proof (rule chunked_body_equals_plain)
  show "list_all (\<lambda>c. c \<noteq> []) [ascii ''IDSSess'', ascii ''ionID'']" by (simp add: ascii_def)
  show "length ([] @ chunked [ascii ''IDSSess'', ascii ''ionID''] @ []) \<le> SIZE_MAX"
    by (simp add: chunked_def chunk_bytes_def ascii_def digits_small SIZE_MAX_def)
qed

section \<open>No verdict before the end\<close>

lemma scan_crlf_cut:
  "list_all (\<lambda>c. c \<noteq> 13) ds \<Longrightarrow> tail = [] \<or> tail = [13] \<Longrightarrow>
     \<exists>k. scan_crlf (pre @ ds @ tail) (length (pre @ ds @ tail)) (length pre) = Some k \<and> length (pre @ ds @ tail) \<le> k + 1"
proof (induction ds arbitrary: pre)
  case Nil
  then show ?case by (subst scan_crlf.simps) auto
next
  case (Cons d ds)
  show ?case
  proof (cases "length pre + 1 < length (pre @ (d # ds) @ tail)")
    case False
    then show ?thesis by (subst scan_crlf.simps) auto
  next
    case True
    have "rd (pre @ (d # ds) @ tail) (length pre) = Some d" by (simp add: rd_def)
    moreover obtain b where "rd (pre @ (d # ds) @ tail) (Suc (length pre)) = Some b" using True by (auto simp: rd_def)
    ultimately show ?thesis using True Cons.prems Cons.IH [of "pre @ [d]"] by (subst scan_crlf.simps) simp
  qed
qed

text \<open>A response cut inside the size line of a chunk.\<close>

lemma cut_in_line:
  assumes "list_all (\<lambda>c. c \<noteq> 13) ds" "tail = [] \<or> tail = [13]" "f = pre @ ds @ tail"
  shows "parse_chunked_loop f eos (length pre) st r = Some (unfinished eos, r)"
proof (cases "length pre < length f")
  case False
  then show ?thesis by (subst parse_chunked_loop.simps) simp
next
  case True
  then show ?thesis using scan_crlf_cut [OF assms(1,2), of pre] assms(3) by (subst parse_chunked_loop.simps) auto
qed

lemma cut_in_chunk:
  assumes c: "c \<noteq> []" "length c + 2 \<le> SIZE_MAX" and k: "k < length (chunk_bytes c)" and f: "f = pre @ take k (chunk_bytes c)"
  shows "parse_chunked_loop f eos (length pre) st r = Some (unfinished eos, r)"
proof -
  let ?d = "digits 16 (length c)"
  consider "k \<le> length ?d" | "k = length ?d + 1" | "length ?d + 2 \<le> k" by linarith
  then show ?thesis
  proof cases
    case 1
    have "list_all (\<lambda>c. c \<noteq> 13) (take k ?d)" using digits_safe(1) by (auto simp: list_all_iff dest: in_set_takeD)
    then show ?thesis using 1 f by (intro cut_in_line [of "take k ?d" "[]"]) (simp_all add: chunk_bytes_def)
  next
    case 2
    then show ?thesis using digits_safe(1) f by (intro cut_in_line [of ?d "[13]"]) (simp_all add: chunk_bytes_def)
  next
    case 3
    define y where "y = take (k - (length ?d + 2)) (c @ [13, 10])"
    have fd: "f = pre @ ?d @ 13 # 10 # y"
      using 3 f by (simp add: chunk_bytes_def y_def take_Cons' numeral_2_eq_2)
    define le where "le = length pre + length ?d"
    have s1: "scan_crlf f (length f) (length pre) = Some le"
      unfolding fd le_def by (rule scan_crlf_at) (simp_all add: digits_safe)
    have s2: "scan_byte f 59 le (length pre) = Some le"
      unfolding fd le_def by (rule scan_byte_none) (simp add: digits_safe)
    have s3: "rds f (length pre) (le - length pre) = Some ?d"
      unfolding fd le_def by (simp add: rds_def)
    have s4: "chunk_size_loop ?d 0 = Some (length c)" using c(2) by (intro chunk_size_digits) simp
    have ly: "length y < length c + 2" using k by (simp add: y_def chunk_bytes_def)
    have ne: "le \<noteq> length pre" by (simp add: le_def)
    have "length pre < length f" "\<not> length f \<le> le + 1" "length c + 2 > length f - (le + 2)" using ly unfolding fd le_def by simp_all
    then show ?thesis using c(1) ne s1 s2 s3 s4 by (subst parse_chunked_loop.simps) (simp add: Let_def)
  qed
qed

lemma cut_after_zero:
  assumes "y = [] \<or> y = [13]" "f = pre @ [48, 13, 10] @ y"
  shows "parse_chunked_loop f eos (length pre) st r = Some (unfinished eos, r)"
proof -
  define le where "le = length pre + 1"
  have f': "f = pre @ [48] @ 13 # 10 # y" by (simp add: assms(2))
  have s1: "scan_crlf f (length f) (length pre) = Some le"
    unfolding f' le_def using scan_crlf_at [of "[48]" pre "length f" y] by (simp add: f')
  have s2: "scan_byte f 59 le (length pre) = Some le"
    unfolding f' le_def using scan_byte_none [of 59 "[48]" pre "13 # 10 # y"] by simp
  have s3: "rds f (length pre) (le - length pre) = Some [48]" unfolding f' le_def by (simp add: rds_def)
  have s4: "chunk_size_loop [48] 0 = Some 0" by (simp add: hex_digit_def)
  have l: "length pre < length f" "\<not> length f \<le> le + 1" "\<not> le + 2 + 2 \<le> length f" "le \<noteq> length pre" "\<not> le + 2 + 3 < length f"
    using assms(1) unfolding f' le_def by auto
  have s5: "find_blank_line f (length f) (le + 2) = Some None" using l(5) by (subst find_blank_line.simps) simp
  show ?thesis using l s1 s2 s3 s4 s5 by (subst parse_chunked_loop.simps) (simp add: Let_def)
qed

lemma cut_in_terminator:
  assumes k: "k < 5" and f: "f = pre @ take k [48, 13, 10, 13, 10]"
  shows "parse_chunked_loop f eos (length pre) st r = Some (unfinished eos, r)"
proof -
  consider "k = 0" | "k = 1" | "k = 2" | "k = 3" | "k = 4" using k by linarith
  then show ?thesis
  proof cases
    case 1
    then show ?thesis using f by (intro cut_in_line [of "[]" "[]"]) simp_all
  next
    case 2
    then show ?thesis using f by (intro cut_in_line [of "[48]" "[]"]) simp_all
  next
    case 3
    then show ?thesis using f by (intro cut_in_line [of "[48]" "[13]"]) simp_all
  next
    case 4
    then show ?thesis using cut_after_zero [of "[]"] f by simp
  next
    case 5
    then show ?thesis using cut_after_zero [of "[13]"] f by simp
  qed
qed

text \<open>
  The parser decides only on whole messages: a chunked body cut anywhere before its end is
  reported as incomplete while the stream is open and as invalid once it is closed, and the
  result record is not touched.
\<close>

theorem chunked_body_cut:
  assumes "list_all (\<lambda>c. c \<noteq> []) cs" and "length (head @ chunked cs) \<le> SIZE_MAX" and "k < length (chunked cs)"
  shows "parse_chunked_body (head @ take k (chunked cs)) (length head) end_of_stream r =
     Some (if end_of_stream then HTTP_INVALID else HTTP_INCOMPLETE, r)"
proof -
  have "parse_chunked_loop (head @ take k (chunked cs)) end_of_stream (length head) (scanned xs) r = Some (unfinished end_of_stream, r)" for xs
    using assms
  proof (induction cs arbitrary: head k xs)
    case Nil
    then show ?case by (intro cut_in_terminator) (auto simp: chunked_def)
  next
    case (Cons c cs)
    have c: "c \<noteq> []" "length c + 2 \<le> SIZE_MAX" using Cons.prems(1,2) by (simp_all add: chunked_def chunk_bytes_def)
    have split: "chunked (c # cs) = chunk_bytes c @ chunked cs" by (simp add: chunked_def)
    show ?case
    proof (cases "k < length (chunk_bytes c)")
      case True
      then show ?thesis by (intro cut_in_chunk [OF c True]) (simp add: split)
    next
      case False
      let ?k = "k - length (chunk_bytes c)"
      have f: "head @ take k (chunked (c # cs)) = head @ chunk_bytes c @ take ?k (chunked cs)" using False by (simp add: split)
      have IH: "parse_chunked_loop ((head @ chunk_bytes c) @ take ?k (chunked cs)) end_of_stream (length (head @ chunk_bytes c)) (scanned (xs @ c)) r =
          Some (unfinished end_of_stream, r)"
        using Cons.prems False by (intro Cons.IH) (simp_all add: split)
      show ?thesis unfolding f using chunk_step [OF c refl, of head "take ?k (chunked cs)" end_of_stream xs r] IH by simp
    qed
  qed
  from this [of "[]"] show ?thesis
    by (simp add: parse_chunked_body_def unfinished_def scanned_def chunk_scan_zero_def)
qed

theorem chunked_body_cut_witness:
  "parse_chunked_body ([] @ take 6 (chunked [[1, 2, 3]])) (length ([] :: bytes)) False http_result_zero =
     Some (if False then HTTP_INVALID else HTTP_INCOMPLETE, http_result_zero)"
  by (rule chunked_body_cut) (simp_all add: chunked_def chunk_bytes_def digits_small SIZE_MAX_def)

end
