(* ===== verification/Improv_Codec.thy ===== *)
theory Improv_Codec
  imports Prelude "HOL-Library.Sublist"
begin

text \<open>
  The Improv serial codec of \<^verbatim>\<open>src/main/improv_serial_codec.c\<close>: a packet encoder and an incremental
  parser that is fed one byte of the serial line at a time. The parser's array accesses are
  faulting, so a feed that returns \<open>Some\<close> stayed inside its buffers. The parser is refined by a
  machine over the list of bytes collected since the last synchronisation, from which the two
  properties follow: what an encoder wrote is recognised again after any noise without a packet
  prefix, and only correctly encoded packets are ever reported.
\<close>

section \<open>Types\<close>

definition IMPROV_SERIAL_VERSION :: byte where "IMPROV_SERIAL_VERSION = 1"
definition IMPROV_SERIAL_MAX_DATA :: nat where "IMPROV_SERIAL_MAX_DATA = 255"
definition IMPROV_SERIAL_PACKET_OVERHEAD :: nat where "IMPROV_SERIAL_PACKET_OVERHEAD = 10"
definition IMPROV_SERIAL_MAX_PACKET_SIZE :: nat where
  "IMPROV_SERIAL_MAX_PACKET_SIZE = IMPROV_SERIAL_MAX_DATA + IMPROV_SERIAL_PACKET_OVERHEAD"

lemmas improv_consts = IMPROV_SERIAL_VERSION_def IMPROV_SERIAL_MAX_DATA_def IMPROV_SERIAL_PACKET_OVERHEAD_def
  IMPROV_SERIAL_MAX_PACKET_SIZE_def

datatype improv_serial_parse_result =
  IMPROV_SERIAL_PARSE_NONE | IMPROV_SERIAL_PARSE_PACKET | IMPROV_SERIAL_PARSE_INVALID

record improv_serial_parser =
  ip_bytes :: bytes
  ip_length :: nat
  ip_expected_length :: nat

record improv_serial_packet =
  ik_type :: byte
  ik_length :: byte
  ik_data :: bytes

section \<open>Operations\<close>

text \<open>The bytes of \<^verbatim>\<open>IMPROV\<close>.\<close>

definition improv_header :: bytes where
  "improv_header = [0x49, 0x4d, 0x50, 0x52, 0x4f, 0x56]"

text \<open>A store to one array element, \<open>None\<close> outside the array.\<close>

definition poke :: "bytes \<Rightarrow> nat \<Rightarrow> byte \<Rightarrow> bytes option" where
  "poke xs i v = (if i < length xs then Some (xs[i := v]) else None)"

definition improv_serial_parser_reset :: "improv_serial_parser ptr \<Rightarrow> improv_serial_parser ptr" where
  "improv_serial_parser_reset parser =
     (if parser \<noteq> NULL then Ptr ((deref parser)\<lparr>ip_length := 0, ip_expected_length := 0\<rparr>) else NULL)"

definition restart_with_byte :: "improv_serial_parser ptr \<Rightarrow> byte \<Rightarrow> improv_serial_parser ptr option" where
  "restart_with_byte parser b =
     (let parser1 = improv_serial_parser_reset parser in
      if b = improv_header ! 0 then do {
        bs \<leftarrow> poke (ip_bytes (deref parser1)) 0 b;
        Some (Ptr ((deref parser1)\<lparr>ip_bytes := bs, ip_length := 1\<rparr>))
      }
      else Some parser1)"

text \<open>The expected length becomes known with the ninth byte; a complete packet is checked and copied out.\<close>

definition expected_length_after :: "improv_serial_parser \<Rightarrow> nat option" where
  "expected_length_after p =
     (if ip_length p = 9 then do {
        bytes8 \<leftarrow> rd (ip_bytes p) 8;
        Some (IMPROV_SERIAL_PACKET_OVERHEAD + unat bytes8)
      }
      else Some (ip_expected_length p))"

definition finish_packet ::
  "improv_serial_parser \<Rightarrow> improv_serial_packet ptr \<Rightarrow>
     (improv_serial_parse_result \<times> improv_serial_parser ptr \<times> improv_serial_packet ptr) option" where
  "finish_packet p packet = do {
     let bs = ip_bytes p;
     summed \<leftarrow> rds bs 0 (ip_expected_length p - 1);
     let checksum = foldl (+) 0 summed;
     bytes6 \<leftarrow> rd bs 6;
     last_byte \<leftarrow> rd bs (ip_expected_length p - 1);
     if bytes6 = IMPROV_SERIAL_VERSION \<and> checksum = last_byte then do {
       bytes7 \<leftarrow> rd bs 7;
       bytes8 \<leftarrow> rd bs 8;
       data \<leftarrow> (if bytes8 > 0 then do {
                  source \<leftarrow> rds bs 9 (unat bytes8);
                  Some (store (ik_data (deref packet)) 0 source)
                }
                else Some (ik_data (deref packet)));
       Some (IMPROV_SERIAL_PARSE_PACKET, improv_serial_parser_reset (Ptr p),
             Ptr \<lparr>ik_type = bytes7, ik_length = bytes8, ik_data = data\<rparr>)
     }
     else Some (IMPROV_SERIAL_PARSE_INVALID, improv_serial_parser_reset (Ptr p), packet)
   }"

definition improv_serial_parser_feed ::
  "improv_serial_parser ptr \<Rightarrow> byte \<Rightarrow> improv_serial_packet ptr \<Rightarrow>
     (improv_serial_parse_result \<times> improv_serial_parser ptr \<times> improv_serial_packet ptr) option" where
  "improv_serial_parser_feed parser b packet =
     (if parser = NULL \<or> packet = NULL then Some (IMPROV_SERIAL_PARSE_INVALID, parser, packet)
      else
        let p = deref parser in
        if ip_length p = 0 then do {
          parser1 \<leftarrow> restart_with_byte parser b;
          Some (IMPROV_SERIAL_PARSE_NONE, parser1, packet)
        }
        else if ip_length p < length improv_header then
          if b \<noteq> improv_header ! ip_length p then do {
            parser1 \<leftarrow> restart_with_byte parser b;
            Some (IMPROV_SERIAL_PARSE_NONE, parser1, packet)
          }
          else do {
            bs \<leftarrow> poke (ip_bytes p) (ip_length p) b;
            Some (IMPROV_SERIAL_PARSE_NONE, Ptr (p\<lparr>ip_bytes := bs, ip_length := ip_length p + 1\<rparr>), packet)
          }
        else if ip_length p \<ge> IMPROV_SERIAL_MAX_PACKET_SIZE then do {
          parser1 \<leftarrow> restart_with_byte parser b;
          Some (IMPROV_SERIAL_PARSE_INVALID, parser1, packet)
        }
        else do {
          bs \<leftarrow> poke (ip_bytes p) (ip_length p) b;
          let p1 = p\<lparr>ip_bytes := bs, ip_length := ip_length p + 1\<rparr>;
          expected \<leftarrow> expected_length_after p1;
          let p2 = p1\<lparr>ip_expected_length := expected\<rparr>;
          if expected = 0 \<or> ip_length p2 < expected then Some (IMPROV_SERIAL_PARSE_NONE, Ptr p2, packet)
          else finish_packet p2 packet
        })"

definition improv_serial_encode_packet ::
  "byte \<Rightarrow> bytes ptr \<Rightarrow> nat \<Rightarrow> bytes ptr \<Rightarrow> nat \<Rightarrow> nat \<times> bytes ptr" where
  "improv_serial_encode_packet t data data_length output capacity =
     (if output = NULL \<or> data_length > IMPROV_SERIAL_MAX_DATA \<or> (data_length > 0 \<and> data = NULL) then (0, output)
      else
        let packet_length = IMPROV_SERIAL_PACKET_OVERHEAD + data_length in
        if capacity < packet_length then (0, output)
        else
          let output1 = store (deref output) 0 (improv_header @ [IMPROV_SERIAL_VERSION, t, of_nat data_length]);
              output2 = (if data_length > 0 then store output1 9 (take data_length (deref data)) else output1);
              checksum = foldl (+) 0 (take (packet_length - 1) output2) in
          (packet_length, Ptr (output2[packet_length - 1 := checksum])))"

text \<open>Feeding a whole run of bytes, with the result of every call.\<close>

fun improv_feed_all ::
  "improv_serial_parser ptr \<Rightarrow> improv_serial_packet ptr \<Rightarrow> bytes \<Rightarrow>
     (improv_serial_parse_result list \<times> improv_serial_parser ptr \<times> improv_serial_packet ptr) option" where
  "improv_feed_all parser packet [] = Some ([], parser, packet)"
| "improv_feed_all parser packet (b # bs) = do {
     (r, parser1, packet1) \<leftarrow> improv_serial_parser_feed parser b packet;
     (rs, parser2, packet2) \<leftarrow> improv_feed_all parser1 packet1 bs;
     Some (r # rs, parser2, packet2)
   }"

section \<open>The parser as a machine over the collected bytes\<close>

text \<open>The wire form of a packet.\<close>

definition improv_packet :: "byte \<Rightarrow> bytes \<Rightarrow> bytes" where
  "improv_packet t data =
     (let body = improv_header @ [IMPROV_SERIAL_VERSION, t, of_nat (length data)] @ data in body @ [foldl (+) 0 body])"

text \<open>
  The collected bytes are a prefix of the header, or the header followed by an incomplete
  remainder of a packet; they lie at the start of the parser's buffer.
\<close>

definition collecting :: "bytes \<Rightarrow> bool" where
  "collecting c \<longleftrightarrow> take 6 c = take (length c) improv_header \<and> (9 \<le> length c \<longrightarrow> length c < 10 + unat (c ! 8))"

definition parser_at :: "improv_serial_parser \<Rightarrow> bytes \<Rightarrow> bool" where
  "parser_at p c \<longleftrightarrow> length (ip_bytes p) = 265 \<and> ip_length p = length c \<and> take (length c) (ip_bytes p) = c \<and>
     ip_expected_length p = (if 9 \<le> length c then 10 + unat (c ! 8) else 0) \<and> collecting c"

definition improv_complete :: "bytes \<Rightarrow> bool" where
  "improv_complete c \<longleftrightarrow> 9 < length c \<and> length c = 10 + unat (c ! 8)"

definition improv_good :: "bytes \<Rightarrow> bool" where
  "improv_good c \<longleftrightarrow> c ! 6 = IMPROV_SERIAL_VERSION \<and> foldl (+) 0 (butlast c) = last c"

definition improv_step :: "bytes \<Rightarrow> byte \<Rightarrow> improv_serial_parse_result \<times> bytes" where
  "improv_step c b =
     (if length c < 6 then
        (IMPROV_SERIAL_PARSE_NONE,
         if b = improv_header ! length c then c @ [b] else if b = improv_header ! 0 then [b] else [])
      else if improv_complete (c @ [b]) then
        (if improv_good (c @ [b]) then IMPROV_SERIAL_PARSE_PACKET else IMPROV_SERIAL_PARSE_INVALID, [])
      else (IMPROV_SERIAL_PARSE_NONE, c @ [b]))"

definition packet_of :: "bytes \<Rightarrow> improv_serial_packet \<Rightarrow> improv_serial_packet" where
  "packet_of c k = \<lparr>ik_type = c ! 7, ik_length = c ! 8, ik_data = store (ik_data k) 0 (butlast (drop 9 c))\<rparr>"

lemma length_improv_header [simp]: "length improv_header = 6"
  by (simp add: improv_header_def)

lemma poke_in: "i < length xs \<Longrightarrow> poke xs i v = Some (xs[i := v])"
  by (simp add: poke_def)

lemma restart_at:
  "length (ip_bytes p) = 265 \<Longrightarrow> \<exists>q. restart_with_byte (Ptr p) b = Some (Ptr q) \<and>
     parser_at q (if b = improv_header ! 0 then [b] else [])"
  by (auto simp: restart_with_byte_def improv_serial_parser_reset_def poke_def parser_at_def collecting_def
      improv_header_def take_Suc_conv_app_nth)

lemma reset_at: "length (ip_bytes p) = 265 \<Longrightarrow> \<exists>q. improv_serial_parser_reset (Ptr p) = Ptr q \<and> parser_at q []"
  by (auto simp: improv_serial_parser_reset_def parser_at_def collecting_def)

lemma collecting_bound: "collecting c \<Longrightarrow> length c < 265"
  using unat_bound [of "c ! 8"] by (cases "9 \<le> length c") (auto simp: collecting_def)

lemma take_update_snoc: "length c < length bs \<Longrightarrow> take (length c) bs = c \<Longrightarrow> take (Suc (length c)) (bs[length c := b]) = c @ [b]"
  by (simp add: take_Suc_conv_app_nth)

text \<open>One feed refines one step of the machine, never faults, and reports the packet it collected.\<close>

lemma feed_header:
  assumes at: "parser_at p c" and lt: "length c < 6"
  shows "\<exists>q. improv_serial_parser_feed (Ptr p) b (Ptr k) = Some (fst (improv_step c b), Ptr q, Ptr k) \<and> parser_at q (snd (improv_step c b))"
proof -
  have p: "length (ip_bytes p) = 265" "ip_length p = length c" "take (length c) (ip_bytes p) = c"
    "ip_expected_length p = 0" "c = take (length c) improv_header"
    using at lt by (auto simp: parser_at_def collecting_def)
  obtain r where r: "restart_with_byte (Ptr p) b = Some (Ptr r)" "parser_at r (if b = improv_header ! 0 then [b] else [])"
    using restart_at [OF p(1)] by blast
  show ?thesis
  proof (cases "c = [] \<or> b \<noteq> improv_header ! length c")
    case True
    then show ?thesis using lt p r by (auto simp: improv_serial_parser_feed_def improv_step_def)
  next
    case False
    have "parser_at (p\<lparr>ip_bytes := (ip_bytes p)[length c := b], ip_length := length c + 1\<rparr>) (c @ [b])"
      using p lt False take_update_snoc [of c "ip_bytes p" b]
      by (auto simp: parser_at_def collecting_def take_Suc_conv_app_nth)
    then show ?thesis using False lt p by (auto simp: improv_serial_parser_feed_def improv_step_def poke_def)
  qed
qed

lemma feed_body:
  assumes at: "parser_at p c" and ge: "6 \<le> length c" and k: "length (ik_data k) = 255"
  shows "\<exists>q k'. improv_serial_parser_feed (Ptr p) b (Ptr k) = Some (fst (improv_step c b), Ptr q, Ptr k') \<and>
    parser_at q (snd (improv_step c b)) \<and>
    k' = (if fst (improv_step c b) = IMPROV_SERIAL_PARSE_PACKET then packet_of (c @ [b]) k else k)"
proof -
  have p: "length (ip_bytes p) = 265" "ip_length p = length c" "take (length c) (ip_bytes p) = c" "collecting c"
    "ip_expected_length p = (if 9 \<le> length c then 10 + unat (c ! 8) else 0)"
    using at by (auto simp: parser_at_def)
  have len: "length c < 265" using collecting_bound [OF p(4)] .
  define bs where "bs = (ip_bytes p)[length c := b]"
  define d where "d = c @ [b]"
  have d: "take (length d) bs = d" "length d = Suc (length c)" "length bs = 265" "length d \<le> 265"
    using p(1,3) len take_update_snoc [of c "ip_bytes p" b] by (simp_all add: bs_def d_def)
  have nth: "bs ! i = d ! i" if "i < length d" for i using that d(1) by (metis nth_take)
  have hd: "take 6 d = improv_header" using p(4) ge by (auto simp: collecting_def d_def)
  define e where "e = (if 9 \<le> length d then 10 + unat (d ! 8) else 0)"
  define p2 where "p2 = p\<lparr>ip_bytes := bs, ip_length := length d, ip_expected_length := e\<rparr>"
  have le: "length d \<le> e" if "9 \<le> length d"
    using that p(4) by (cases "length c = 8") (auto simp: collecting_def d_def e_def nth_append)
  have ex: "expected_length_after (p\<lparr>ip_bytes := bs, ip_length := ip_length p + 1\<rparr>) = Some e"
    using p(2,5) d(2,3) nth [of 8] by (auto simp: expected_length_after_def e_def rd_def improv_consts d_def nth_append)
  have g: "ip_length p \<noteq> 0" "\<not> ip_length p < length improv_header" "\<not> IMPROV_SERIAL_MAX_PACKET_SIZE \<le> ip_length p"
    "poke (ip_bytes p) (ip_length p) b = Some bs" "ip_length p + 1 = length d"
    using p(1,2) ge len d(2) by (auto simp: improv_consts poke_def bs_def)
  have feed: "improv_serial_parser_feed (Ptr p) b (Ptr k) =
     (if e = 0 \<or> length d < e then Some (IMPROV_SERIAL_PARSE_NONE, Ptr p2, Ptr k) else finish_packet p2 (Ptr k))"
    unfolding improv_serial_parser_feed_def p2_def
    by (simp add: g Let_def ex [unfolded g(5)] del: One_nat_def length_improv_header add_Suc_right)
  have e265: "e \<le> 265" using unat_bound [of "d ! 8"] by (auto simp: e_def)
  show ?thesis
  proof (cases "improv_complete d")
    case False
    then have inc: "e = 0 \<or> length d < e" using le by (auto simp: improv_complete_def e_def)
    have "parser_at p2 d" using d hd inc ge by (auto simp: parser_at_def collecting_def p2_def e_def)
    then show ?thesis using feed inc False ge by (auto simp: improv_step_def d_def [symmetric])
  next
    case True
    then have c: "length d = e" "9 < length d" "e = 10 + unat (d ! 8)" by (auto simp: improv_complete_def e_def)
    have "d \<noteq> []" by (simp add: d_def)
    then have nths: "bs ! 6 = d ! 6" "bs ! 7 = d ! 7" "bs ! 8 = d ! 8" "bs ! (e - 1) = last d"
      using c nth by (simp_all add: last_conv_nth)
    have sl: "take (e - 1) bs = butlast d" using d(1) c by (metis butlast_take d(3) d(4))
    have "take (unat (d ! 8)) (drop 9 bs) = butlast (drop 9 (take (length d) bs))"
      using c d(3,4) by (simp add: drop_take butlast_take)
    then have pay: "take (unat (d ! 8)) (drop 9 bs) = butlast (drop 9 d)" using d(1) by simp
    have reads: "rd bs 6 = Some (d ! 6)" "rd bs 7 = Some (d ! 7)" "rd bs 8 = Some (d ! 8)"
      "rds bs 0 (e - 1) = Some (butlast d)" "rd bs (e - 1) = Some (last d)"
      "rds bs 9 (unat (d ! 8)) = Some (butlast (drop 9 d))"
      using d(3) e265 c(3) nths sl pay by (simp_all add: rd_def rds_def)
    have "length (ip_bytes p2) = 265" using d(3) by (simp add: p2_def)
    from reset_at [OF this] obtain q where q: "improv_serial_parser_reset (Ptr p2) = Ptr q" "parser_at q []" by blast
    have empty: "butlast (drop 9 d) = []" if "d ! 8 = 0"
    proof -
      have "length (butlast (drop 9 d)) = 0" using that c by simp
      then show ?thesis by (simp only: length_0_conv)
    qed
    have fin: "finish_packet p2 (Ptr k) =
      (if improv_good d then Some (IMPROV_SERIAL_PARSE_PACKET, Ptr q, Ptr (packet_of d k))
       else Some (IMPROV_SERIAL_PARSE_INVALID, Ptr q, Ptr k))"
      unfolding finish_packet_def
      using reads q(1) empty by (auto simp: p2_def improv_good_def packet_of_def Let_def word_gt_0 simp del: One_nat_def)
    show ?thesis using feed fin c True ge q(2) by (auto simp: improv_step_def d_def [symmetric])
  qed
qed

text \<open>The data of a packet record is 255 bytes; what is read of it is the payload.\<close>

definition packet_payload :: "improv_serial_packet \<Rightarrow> bytes" where
  "packet_payload k = take (unat (ik_length k)) (ik_data k)"

lemma complete_split:
  assumes "improv_complete d" "take 6 d = improv_header" "improv_good d" "length (ik_data k) = 255"
  shows "d = improv_packet (ik_type (packet_of d k)) (packet_payload (packet_of d k))"
    and "length (ik_data (packet_of d k)) = 255"
proof -
  define xs where "xs = butlast (drop 9 d)"
  have len: "length d = 10 + unat (d ! 8)" "9 < length d" using assms(1) by (auto simp: improv_complete_def)
  have xs: "length xs = unat (d ! 8)" using len by (simp add: xs_def)
  have l8: "of_nat (length xs) = d ! 8" using xs by simp
  have "unat (d ! 8) < 256" using unat_bound [of "d ! 8"] by simp
  then show l: "length (ik_data (packet_of d k)) = 255" using xs assms(4) by (simp add: packet_of_def xs_def [symmetric])
  have pay: "packet_payload (packet_of d k) = xs"
    using xs by (simp add: packet_payload_def packet_of_def xs_def [symmetric] store_def)
  have "butlast d = take 9 (butlast d) @ drop 9 (butlast d)" by simp
  also have "take 9 (butlast d) = take 9 d" using len by (simp add: take_butlast)
  also have "take 9 d = take 6 d @ [d ! 6, d ! 7, d ! 8]"
    using len by (simp add: take_Suc_conv_app_nth numeral_eq_Suc)
  also have "drop 9 (butlast d) = xs" by (simp add: xs_def drop_butlast)
  finally have b: "butlast d = improv_header @ [IMPROV_SERIAL_VERSION, d ! 7, of_nat (length xs)] @ xs"
    using assms(2,3) l8 by (simp add: improv_good_def)
  have "d = butlast d @ [last d]" using len by (metis append_butlast_last_id list.size(3) not_less_zero)
  also have "last d = foldl (+) 0 (butlast d)" using assms(3) by (simp add: improv_good_def)
  finally show "d = improv_packet (ik_type (packet_of d k)) (packet_payload (packet_of d k))"
    unfolding pay improv_packet_def Let_def b by (simp add: packet_of_def)
qed

text \<open>
  The history invariant: the collected bytes are the last bytes fed, and a reported packet is
  the encoding that the input just ended with.
\<close>

definition reports :: "bytes \<Rightarrow> improv_serial_parse_result \<Rightarrow> improv_serial_packet \<Rightarrow> bool" where
  "reports hist r k \<longleftrightarrow> (r = IMPROV_SERIAL_PARSE_PACKET \<longrightarrow> suffix (improv_packet (ik_type k) (packet_payload k)) hist)"

lemma suffix_snoc: "suffix c hist \<Longrightarrow> suffix (c @ [b]) (hist @ [b])"
  by (auto simp: suffix_def)

lemma improv_step_suffix: "suffix c hist \<Longrightarrow> suffix (snd (improv_step c b)) (hist @ [b])"
  by (auto simp: improv_step_def suffix_snoc suffix_def)

lemma feed_step:
  assumes at: "parser_at p c" and h: "suffix c hist" and k: "length (ik_data k) = 255"
  shows "\<exists>q k'. improv_serial_parser_feed (Ptr p) b (Ptr k) = Some (fst (improv_step c b), Ptr q, Ptr k') \<and>
    parser_at q (snd (improv_step c b)) \<and> suffix (snd (improv_step c b)) (hist @ [b]) \<and> length (ik_data k') = 255 \<and>
    reports (hist @ [b]) (fst (improv_step c b)) k' \<and>
    (fst (improv_step c b) = IMPROV_SERIAL_PARSE_PACKET \<longrightarrow> c @ [b] = improv_packet (ik_type k') (packet_payload k'))"
proof (cases "length c < 6")
  case True
  then have "fst (improv_step c b) \<noteq> IMPROV_SERIAL_PARSE_PACKET" by (simp add: improv_step_def)
  then show ?thesis using feed_header [OF at True, of b k] k improv_step_suffix [OF h, of b] unfolding reports_def by blast
next
  case False
  then have six: "6 \<le> length c" by simp
  have hd: "take 6 (c @ [b]) = improv_header" using at six by (auto simp: parser_at_def collecting_def)
  have pk: "improv_complete (c @ [b]) \<and> improv_good (c @ [b])" if "fst (improv_step c b) = IMPROV_SERIAL_PARSE_PACKET"
    using that False by (auto simp: improv_step_def split: if_splits)
  note cs = complete_split [OF _ hd _ k]
  show ?thesis
    using feed_body [OF at six k, of b] cs pk k improv_step_suffix [OF h] suffix_snoc [OF h, of b]
    by (auto simp: reports_def split: if_splits)
qed

section \<open>Runs of the parser\<close>

lemma feed_all_at:
  "parser_at p c \<Longrightarrow> suffix c hist \<Longrightarrow> length (ik_data k) = 255 \<Longrightarrow>
     \<exists>rs q k' c'. improv_feed_all (Ptr p) (Ptr k) xs = Some (rs, Ptr q, Ptr k') \<and> length rs = length xs \<and>
       parser_at q c' \<and> suffix c' (hist @ xs) \<and> length (ik_data k') = 255 \<and>
       (xs \<noteq> [] \<longrightarrow> reports (hist @ xs) (last rs) k')"
proof (induction xs arbitrary: p c hist k)
  case Nil
  then show ?case by auto
next
  case (Cons b xs)
  obtain q k1 where s: "improv_serial_parser_feed (Ptr p) b (Ptr k) = Some (fst (improv_step c b), Ptr q, Ptr k1)"
    "parser_at q (snd (improv_step c b))" "suffix (snd (improv_step c b)) (hist @ [b])" "length (ik_data k1) = 255"
    "reports (hist @ [b]) (fst (improv_step c b)) k1"
    using feed_step [OF Cons.prems, of b] by blast
  obtain rs q' k' c' where r: "improv_feed_all (Ptr q) (Ptr k1) xs = Some (rs, Ptr q', Ptr k')" "length rs = length xs"
    "parser_at q' c'" "suffix c' ((hist @ [b]) @ xs)" "length (ik_data k') = 255" "xs \<noteq> [] \<longrightarrow> reports ((hist @ [b]) @ xs) (last rs) k'"
    using Cons.IH [OF s(2-4)] by blast
  have "reports (hist @ b # xs) (last (fst (improv_step c b) # rs)) k'"
    using r(1,2,6) s(5) by (cases "xs = []") auto
  then show ?case using s(1) r by auto
qed

lemma feed_all_append:
  "improv_feed_all parser packet (xs @ ys) = do {
     (rs, parser1, packet1) \<leftarrow> improv_feed_all parser packet xs;
     (rs', parser2, packet2) \<leftarrow> improv_feed_all parser1 packet1 ys;
     Some (rs @ rs', parser2, packet2)
   }"
  by (induction parser packet xs rule: improv_feed_all.induct) (auto intro!: Option.bind_cong split: Option.bind_split)

lemma header_restart: "collecting c \<Longrightarrow> length c < 6 \<Longrightarrow> improv_step c 0x49 = (IMPROV_SERIAL_PARSE_NONE, [0x49])"
proof -
  assume c: "collecting c" and l: "length c < 6"
  have "improv_header ! i \<noteq> 0x49" if "0 < i" "i < 6" for i
  proof -
    from that consider "i = 1" | "i = 2" | "i = 3" | "i = 4" | "i = 5" by linarith
    then show ?thesis by cases (simp_all add: improv_header_def)
  qed
  then show ?thesis using l by (cases "c = []") (auto simp: improv_step_def improv_header_def)
qed

lemma length_improv_packet: "length (improv_packet t data) = 10 + length data"
  by (simp add: improv_packet_def Let_def)

lemma packet_prefix:
  assumes "length data \<le> 255" and "0 < i" and "i < 10 + length data"
  shows "improv_step (take i (improv_packet t data)) (improv_packet t data ! i) =
    (if i = 9 + length data then (IMPROV_SERIAL_PARSE_PACKET, [])
     else (IMPROV_SERIAL_PARSE_NONE, take (Suc i) (improv_packet t data)))"
proof -
  let ?e = "improv_packet t data"
  have len: "length ?e = 10 + length data" by (rule length_improv_packet)
  have snoc: "take i ?e @ [?e ! i] = take (Suc i) ?e" using assms(3) len by (simp add: take_Suc_conv_app_nth)
  have hd: "?e ! i = improv_header ! i" if "i < 6" using that by (simp add: improv_packet_def Let_def nth_append)
  have e8: "?e ! 8 = of_nat (length data)" "?e ! 6 = IMPROV_SERIAL_VERSION"
    by (simp_all add: improv_packet_def Let_def nth_append)
  have u: "unat (of_nat (length data) :: byte) = length data" using assms(1) by (intro unat_of_nat_byte) simp
  have good: "improv_good ?e" using e8(2) by (simp add: improv_good_def improv_packet_def Let_def butlast_append)
  have comp: "improv_complete (take (Suc i) ?e) \<longleftrightarrow> i = 9 + length data"
    using assms len e8(1) u by (auto simp: improv_complete_def min_def)
  have "take (Suc i) ?e = ?e" if "i = 9 + length data" using that len by simp
  then show ?thesis
    using snoc hd comp good assms len by (auto simp: improv_step_def min_def)
qed

lemma feed_all_packet:
  assumes at: "parser_at p c" and hunting: "length c < 6" and k: "length (ik_data k) = 255" and d: "length data \<le> 255"
    and i: "0 < i" "i < 10 + length data"
  shows "\<exists>q. improv_feed_all (Ptr p) (Ptr k) (take i (improv_packet t data)) =
      Some (replicate i IMPROV_SERIAL_PARSE_NONE, Ptr q, Ptr k) \<and> parser_at q (take i (improv_packet t data))"
  using i
proof (induction i rule: nat_induct_non_zero)
  case 1
  have "take 1 (improv_packet t data) = [0x49]" by (simp add: improv_packet_def Let_def improv_header_def)
  moreover have "collecting c" using at by (simp add: parser_at_def)
  ultimately show ?case using feed_header [OF at hunting, of "0x49" k] header_restart [OF _ hunting] by auto
next
  case (Suc i)
  let ?e = "improv_packet t data"
  have len: "length ?e = 10 + length data" by (rule length_improv_packet)
  obtain q where q: "improv_feed_all (Ptr p) (Ptr k) (take i ?e) = Some (replicate i IMPROV_SERIAL_PARSE_NONE, Ptr q, Ptr k)"
    "parser_at q (take i ?e)" using Suc by auto
  have st: "improv_step (take i ?e) (?e ! i) = (IMPROV_SERIAL_PARSE_NONE, take (Suc i) ?e)"
    using packet_prefix [OF d, of i t] Suc by simp
  have "\<exists>q'. improv_serial_parser_feed (Ptr q) (?e ! i) (Ptr k) = Some (IMPROV_SERIAL_PARSE_NONE, Ptr q', Ptr k) \<and> parser_at q' (take (Suc i) ?e)"
  proof (cases "i < 6")
    case True
    then show ?thesis using feed_header [OF q(2), of "?e ! i" k] st by simp
  next
    case False
    then show ?thesis using feed_body [OF q(2) _ k, of "?e ! i"] st len Suc by simp
  qed
  moreover have "take (Suc i) ?e = take i ?e @ [?e ! i]" using Suc len by (simp add: take_Suc_conv_app_nth)
  ultimately show ?case using q(1) by (auto simp: feed_all_append replicate_append_same)
qed

lemma packet_inj: "length xs \<le> 255 \<Longrightarrow> length ys \<le> 255 \<Longrightarrow> improv_packet t xs = improv_packet u ys \<Longrightarrow> t = u \<and> xs = ys"
  using length_improv_packet [of t xs] length_improv_packet [of u ys] by (auto simp: improv_packet_def Let_def)

lemma encode_packet_eq:
  assumes "length data \<le> 255" "10 + length data \<le> capacity" "capacity \<le> length out"
  shows "improv_serial_encode_packet t (Ptr data) (length data) (Ptr out) capacity =
    (10 + length data, Ptr (store out 0 (improv_packet t data)))"
proof -
  let ?b = "improv_header @ [IMPROV_SERIAL_VERSION, t, of_nat (length data)]"
  define hd where "hd = ?b"
  have hd: "length hd = 9" by (simp add: hd_def)
  have s: "(if length data > 0 then store (store out 0 hd) 9 (take (length data) data) else store out 0 hd) = store out 0 (hd @ data)"
    using assms hd by (auto simp: store_def add.commute)
  have t: "take (9 + length data) (store out 0 (hd @ data)) = hd @ data" using hd by (simp add: store_def)
  have u: "(store out 0 (hd @ data))[9 + length data := x] = store out 0 (hd @ data @ [x])" for x
    using assms hd by (simp add: store_def list_update_append Cons_nth_drop_Suc [symmetric])
  have packet: "improv_packet t data = hd @ data @ [foldl (+) 0 (hd @ data)]" by (simp add: improv_packet_def hd_def Let_def)
  show ?thesis
    using assms unfolding improv_serial_encode_packet_def Let_def ptr.sel hd_def [symmetric] s packet
    by (simp add: improv_consts t u)
qed

section \<open>Properties\<close>

text \<open>
  C29. Soundness and memory safety of the Improv parser: fed any bytes at all from a reset parser,
  the incremental parser never accesses its packet buffer out of bounds, keeps its length below the
  buffer size, answers every byte, and reports a packet only when the bytes fed so far end with the
  exact encoding of the packet it copied out.
\<close>

theorem improv_parser_sound:
  assumes "length (ip_bytes p) = IMPROV_SERIAL_MAX_PACKET_SIZE" and "length (ik_data k) = IMPROV_SERIAL_MAX_DATA"
  shows "\<exists>rs q k'. improv_feed_all (improv_serial_parser_reset (Ptr p)) (Ptr k) xs = Some (rs, Ptr q, Ptr k') \<and>
    length rs = length xs \<and> length (ip_bytes q) = IMPROV_SERIAL_MAX_PACKET_SIZE \<and>
    ip_length q < IMPROV_SERIAL_MAX_PACKET_SIZE \<and>
    (xs \<noteq> [] \<and> last rs = IMPROV_SERIAL_PARSE_PACKET \<longrightarrow>
      (\<exists>noise. xs = noise @ improv_packet (ik_type k') (packet_payload k')))"
proof -
  obtain q0 where q0: "improv_serial_parser_reset (Ptr p) = Ptr q0" "parser_at q0 []"
    using reset_at [of p] assms by (auto simp: improv_consts)
  obtain rs q k' c where r: "improv_feed_all (Ptr q0) (Ptr k) xs = Some (rs, Ptr q, Ptr k')" "length rs = length xs"
    "parser_at q c" "xs \<noteq> [] \<longrightarrow> reports xs (last rs) k'"
    using feed_all_at [OF q0(2), of "[]" k xs] assms by (auto simp: improv_consts)
  have "length (ip_bytes q) = 265" "ip_length q < 265"
    using r(3) collecting_bound by (auto simp: parser_at_def)
  then show ?thesis using r q0(1) by (auto simp: improv_consts reports_def suffix_def)
qed

theorem improv_parser_sound_witness:
  "let xs = [0x58, 0x49, 0x4d, 0x50, 0x52, 0x4f, 0x56, 1, 3, 1, 0xaa, 0x90] in
    \<exists>rs q k'. improv_feed_all (improv_serial_parser_reset (Ptr \<lparr>ip_bytes = replicate 265 0, ip_length = 7, ip_expected_length = 0\<rparr>))
      (Ptr \<lparr>ik_type = 0, ik_length = 0, ik_data = replicate 255 0\<rparr>) xs = Some (rs, Ptr q, Ptr k') \<and>
    length rs = length xs \<and> length (ip_bytes q) = 265 \<and> ip_length q < 265 \<and>
    (last rs = IMPROV_SERIAL_PARSE_PACKET \<longrightarrow> (\<exists>noise. xs = noise @ improv_packet (ik_type k') (packet_payload k')))"
  using improv_parser_sound [of "\<lparr>ip_bytes = replicate 265 0, ip_length = 7, ip_expected_length = 0\<rparr>"
      "\<lparr>ik_type = 0, ik_length = 0, ik_data = replicate 255 0\<rparr>"
      "[0x58, 0x49, 0x4d, 0x50, 0x52, 0x4f, 0x56, 1, 3, 1, 0xaa, 0x90]"]
  by (simp add: improv_consts Let_def del: improv_feed_all.simps)

text \<open>
  C30. Round trip of the Improv codec: whatever was fed to the parser since its reset, if it is hunting
  for a header (fewer than six bytes collected) then feeding it the output of the encoder reports
  nothing until the last byte and there the packet with the encoded type and payload, and leaves
  the parser reset. The encoder fills exactly ten bytes more than the payload.
\<close>

theorem improv_roundtrip:
  assumes "length (ip_bytes p) = IMPROV_SERIAL_MAX_PACKET_SIZE" "length (ik_data k) = IMPROV_SERIAL_MAX_DATA"
    and "improv_feed_all (improv_serial_parser_reset (Ptr p)) (Ptr k) noise = Some (rs0, Ptr q0, Ptr k0)" "ip_length q0 < 6"
    and "length data \<le> IMPROV_SERIAL_MAX_DATA" "10 + length data \<le> capacity" "capacity \<le> length out"
  shows "\<exists>sent q k'. improv_serial_encode_packet t (Ptr data) (length data) (Ptr out) capacity = (10 + length data, Ptr sent) \<and>
    improv_feed_all (Ptr q0) (Ptr k0) (take (10 + length data) sent) =
      Some (replicate (9 + length data) IMPROV_SERIAL_PARSE_NONE @ [IMPROV_SERIAL_PARSE_PACKET], Ptr q, Ptr k') \<and>
    ik_type k' = t \<and> packet_payload k' = data \<and> ip_length q = 0"
proof -
  let ?e = "improv_packet t data"
  obtain p0 where p0: "improv_serial_parser_reset (Ptr p) = Ptr p0" "parser_at p0 []"
    using reset_at [of p] assms by (auto simp: improv_consts)
  obtain c where c: "parser_at q0 c" "length (ik_data k0) = 255"
    using feed_all_at [OF p0(2), of "[]" k noise] assms(2,3) p0(1) by (auto simp: improv_consts)
  have d: "length data \<le> 255" "length ?e = 10 + length data" using assms(5) length_improv_packet by (simp_all add: improv_consts)
  have hunting: "length c < 6" using c(1) assms(4) by (simp add: parser_at_def)
  obtain q1 where q1: "improv_feed_all (Ptr q0) (Ptr k0) (take (9 + length data) ?e) =
      Some (replicate (9 + length data) IMPROV_SERIAL_PARSE_NONE, Ptr q1, Ptr k0)" "parser_at q1 (take (9 + length data) ?e)"
    using feed_all_packet [OF c(1) hunting c(2) d(1), of "9 + length data" t] by auto
  have st: "improv_step (take (9 + length data) ?e) (?e ! (9 + length data)) = (IMPROV_SERIAL_PARSE_PACKET, [])"
    using packet_prefix [OF d(1), of "9 + length data" t] by simp
  have whole: "take (9 + length data) ?e @ [?e ! (9 + length data)] = ?e"
    using d(2) take_Suc_conv_app_nth [of "9 + length data" ?e] by simp
  obtain q k' where fin: "improv_serial_parser_feed (Ptr q1) (?e ! (9 + length data)) (Ptr k0) = Some (IMPROV_SERIAL_PARSE_PACKET, Ptr q, Ptr k')"
    "parser_at q []" "?e = improv_packet (ik_type k') (packet_payload k')" "length (ik_data k') = 255"
    using feed_step [OF q1(2) suffix_order.refl c(2), of "?e ! (9 + length data)"] st whole by auto
  have "length (packet_payload k') \<le> 255" using fin(4) by (simp add: packet_payload_def)
  then have "ik_type k' = t" "packet_payload k' = data" using packet_inj [OF d(1) _ fin(3)] by auto
  moreover have "improv_feed_all (Ptr q0) (Ptr k0) ?e =
      Some (replicate (9 + length data) IMPROV_SERIAL_PARSE_NONE @ [IMPROV_SERIAL_PARSE_PACKET], Ptr q, Ptr k')"
    using q1(1) fin(1) feed_all_append [of "Ptr q0" "Ptr k0" "take (9 + length data) ?e" "[?e ! (9 + length data)]"] whole by simp
  moreover have "take (10 + length data) (store out 0 ?e) = ?e" using d(2) by (simp add: store_def)
  moreover have "ip_length q = 0" using fin(2) by (simp add: parser_at_def)
  ultimately show ?thesis using encode_packet_eq [OF d(1) assms(6,7)] by auto
qed

theorem improv_roundtrip_witness:
  "\<exists>sent q k'. improv_serial_encode_packet 3 (Ptr [0xaa, 0xbb]) 2 (Ptr (replicate 16 0)) 16 = (12, Ptr sent) \<and>
    improv_feed_all (Ptr \<lparr>ip_bytes = (replicate 265 0)[0 := 0x49], ip_length = 1, ip_expected_length = 0\<rparr>)
        (Ptr \<lparr>ik_type = 0, ik_length = 0, ik_data = replicate 255 0\<rparr>) (take 12 sent) =
      Some (replicate 11 IMPROV_SERIAL_PARSE_NONE @ [IMPROV_SERIAL_PARSE_PACKET], Ptr q, Ptr k') \<and>
    ik_type k' = 3 \<and> packet_payload k' = [0xaa, 0xbb] \<and> ip_length q = 0"
proof -
  let ?p = "\<lparr>ip_bytes = replicate 265 0, ip_length = 0, ip_expected_length = 0\<rparr>"
  let ?k = "\<lparr>ik_type = 0, ik_length = 0, ik_data = replicate 255 0\<rparr>"
  have noise: "improv_feed_all (improv_serial_parser_reset (Ptr ?p)) (Ptr ?k) [0x58, 0x49] =
      Some ([IMPROV_SERIAL_PARSE_NONE, IMPROV_SERIAL_PARSE_NONE],
        Ptr \<lparr>ip_bytes = (replicate 265 0)[0 := 0x49], ip_length = 1, ip_expected_length = 0\<rparr>, Ptr ?k)"
    by (simp add: improv_serial_parser_reset_def improv_serial_parser_feed_def restart_with_byte_def improv_header_def poke_def)
  show ?thesis using improv_roundtrip [OF _ _ noise, of "[0xaa, 0xbb]" 16 "replicate 16 0" 3]
    by (simp add: improv_consts numeral_2_eq_2 [symmetric])
qed

end
