(* ===== verification/Airdrop_Outgoing.thy ===== *)
theory Airdrop_Outgoing
  imports Airdrop_Upload
begin

text \<open>
  The registry of the file to send, \<^verbatim>\<open>src/core/src/airdrop_outgoing.c\<close>. The serial task registers
  and clears files, the sender task acquires, completes and releases them; every operation runs
  inside one critical section, so the interleavings of the two tasks are the sequences of a step
  relation. Its invariant: only a registered, valid file is ever owned by a sender, and its
  result goes from pending to one terminal value.
\<close>

section \<open>Types\<close>

datatype outgoing_result_state = OUTGOING_RESULT_NONE | OUTGOING_RESULT_PENDING | OUTGOING_RESULT_SUCCESS | OUTGOING_RESULT_FAILED

datatype outgoing_stage = OUTGOING_STAGE_NONE | OUTGOING_STAGE_TLS | OUTGOING_STAGE_ASK | OUTGOING_STAGE_UPLOAD

record outgoing_result =
  or_state :: outgoing_result_state
  or_stage :: outgoing_stage
  or_error :: int
  or_http_status :: u16
  or_request_bytes :: nat
  or_payload_bytes :: nat

definition outgoing_result_zero :: outgoing_result where
  "outgoing_result_zero = \<lparr>or_state = OUTGOING_RESULT_NONE, or_stage = OUTGOING_STAGE_NONE, or_error = 0, or_http_status = 0,
     or_request_bytes = 0, or_payload_bytes = 0\<rparr>"

text \<open>The static variables; a cleared descriptor is \<open>NULL\<close>.\<close>

record ('s, 'q) outgoing_registry =
  rg_registered_file :: "('s, 'q) outgoing_file ptr"
  rg_transfer_result :: outgoing_result
  rg_registered :: bool
  rg_acquired :: bool

definition outgoing_registry_zero :: "('s, 'q) outgoing_registry" where
  "outgoing_registry_zero = \<lparr>rg_registered_file = NULL, rg_transfer_result = outgoing_result_zero, rg_registered = False, rg_acquired = False\<rparr>"

section \<open>Operations\<close>

definition valid_file :: "('s, 'q) outgoing_file ptr \<Rightarrow> bool" where
  "valid_file file =
     (let f = deref file;
          prepared = of_prepared_payload f;
          raw_source = (file \<noteq> NULL \<and> src_read (of_source f) \<noteq> NULL);
          prepared_source = (file \<noteq> NULL \<and> src_read (pp_source prepared) \<noteq> NULL \<and>
            src_size_bytes (pp_source prepared) > 0 \<and> pp_archive_bytes prepared > 0 \<and> pp_dvzip_blocks prepared > 0) in
      file \<noteq> NULL \<and> of_file_name f \<noteq> NULL \<and> deref (of_file_name f) \<noteq> [] \<and> of_file_type f \<noteq> NULL \<and>
      deref (of_file_type f) \<noteq> [] \<and> src_size_bytes (of_source f) > 0 \<and> (raw_source \<or> prepared_source))"

definition espdrop_airdrop_outgoing_set ::
  "('s, 'q) outgoing_registry \<Rightarrow> ('s, 'q) outgoing_file ptr \<Rightarrow> esp_err \<times> ('s, 'q) outgoing_registry" where
  "espdrop_airdrop_outgoing_set g file =
     (if \<not> valid_file file then (ESP_ERR_INVALID_ARG, g)
      else if rg_acquired g then (ESP_ERR_INVALID_STATE, g)
      else (ESP_OK, g\<lparr>rg_registered_file := file,
                      rg_transfer_result := outgoing_result_zero\<lparr>or_state := OUTGOING_RESULT_PENDING\<rparr>,
                      rg_registered := True\<rparr>))"

definition espdrop_airdrop_outgoing_clear :: "('s, 'q) outgoing_registry \<Rightarrow> esp_err \<times> ('s, 'q) outgoing_registry" where
  "espdrop_airdrop_outgoing_clear g =
     (if rg_acquired g then (ESP_ERR_INVALID_STATE, g)
      else (ESP_OK, g\<lparr>rg_registered_file := NULL, rg_transfer_result := outgoing_result_zero, rg_registered := False\<rparr>))"

definition espdrop_airdrop_outgoing_ready :: "('s, 'q) outgoing_registry \<Rightarrow> bool" where
  "espdrop_airdrop_outgoing_ready g \<longleftrightarrow> rg_registered g \<and> \<not> rg_acquired g"

definition espdrop_airdrop_outgoing_acquire ::
  "('s, 'q) outgoing_registry \<Rightarrow> ('s, 'q) outgoing_file ptr ptr \<Rightarrow> bool \<times> ('s, 'q) outgoing_registry \<times> ('s, 'q) outgoing_file ptr ptr" where
  "espdrop_airdrop_outgoing_acquire g file =
     (if file = NULL then (False, g, file)
      else
        let available = rg_registered g \<and> \<not> rg_acquired g in
        if available then (available, g\<lparr>rg_acquired := True\<rparr>, Ptr (rg_registered_file g))
        else (available, g, file))"

definition espdrop_airdrop_outgoing_release :: "('s, 'q) outgoing_registry \<Rightarrow> ('s, 'q) outgoing_registry" where
  "espdrop_airdrop_outgoing_release g = g\<lparr>rg_acquired := False\<rparr>"

definition espdrop_airdrop_outgoing_complete ::
  "('s, 'q) outgoing_registry \<Rightarrow> outgoing_result ptr \<Rightarrow> ('s, 'q) outgoing_registry" where
  "espdrop_airdrop_outgoing_complete g result =
     (if result = NULL \<or>
         (or_state (deref result) \<noteq> OUTGOING_RESULT_SUCCESS \<and> or_state (deref result) \<noteq> OUTGOING_RESULT_FAILED)
      then g
      else if rg_registered g \<and> rg_acquired g \<and> or_state (rg_transfer_result g) = OUTGOING_RESULT_PENDING
      then g\<lparr>rg_transfer_result := deref result\<rparr>
      else g)"

definition espdrop_airdrop_outgoing_result :: "('s, 'q) outgoing_registry \<Rightarrow> outgoing_result" where
  "espdrop_airdrop_outgoing_result g = rg_transfer_result g"

section \<open>Interleavings of the two tasks\<close>

text \<open>
  A trace of calls; the ghost component is the descriptor that the sender holds between a
  successful acquire and its release.
\<close>

inductive registry_step ::
  "('s, 'q) outgoing_registry \<times> ('s, 'q) outgoing_file ptr \<Rightarrow> ('s, 'q) outgoing_registry \<times> ('s, 'q) outgoing_file ptr \<Rightarrow> bool" where
  set: "espdrop_airdrop_outgoing_set g file = (r, g') \<Longrightarrow> registry_step (g, held) (g', held)"
| clear: "espdrop_airdrop_outgoing_clear g = (r, g') \<Longrightarrow> registry_step (g, held) (g', held)"
| acquire: "espdrop_airdrop_outgoing_acquire g (Ptr old) = (True, g', Ptr file) \<Longrightarrow> registry_step (g, held) (g', file)"
| refused: "espdrop_airdrop_outgoing_acquire g file = (False, g', file') \<Longrightarrow> registry_step (g, held) (g', held)"
| complete: "registry_step (g, held) (espdrop_airdrop_outgoing_complete g result, held)"
| release: "held \<noteq> NULL \<Longrightarrow> registry_step (g, held) (espdrop_airdrop_outgoing_release g, NULL)"

inductive_cases registry_stepE: "registry_step (g, held) (g', held')"

definition registry_inv :: "('s, 'q) outgoing_registry \<times> ('s, 'q) outgoing_file ptr \<Rightarrow> bool" where
  "registry_inv c = (case c of (g, held) \<Rightarrow>
     (rg_acquired g \<longleftrightarrow> held \<noteq> NULL) \<and>
     (held \<noteq> NULL \<longrightarrow> rg_registered g \<and> rg_registered_file g = held) \<and>
     (rg_registered g \<longrightarrow> valid_file (rg_registered_file g)) \<and>
     (or_state (rg_transfer_result g) = OUTGOING_RESULT_NONE \<longleftrightarrow> \<not> rg_registered g))"

lemmas registry_ops = espdrop_airdrop_outgoing_set_def espdrop_airdrop_outgoing_clear_def espdrop_airdrop_outgoing_acquire_def
  espdrop_airdrop_outgoing_release_def espdrop_airdrop_outgoing_complete_def

lemma valid_file_not_NULL: "valid_file file \<Longrightarrow> file \<noteq> NULL"
  by (simp add: valid_file_def Let_def)

lemma registry_step_inv: "registry_step c c' \<Longrightarrow> registry_inv c \<Longrightarrow> registry_inv c'"
  by (erule registry_step.cases)
    (auto simp: registry_inv_def registry_ops outgoing_result_zero_def Let_def dest: valid_file_not_NULL split: if_splits)

lemma registry_reachable_inv: "registry_step\<^sup>*\<^sup>* (outgoing_registry_zero, NULL) c \<Longrightarrow> registry_inv c"
proof (induction rule: rtranclp_induct)
  case base
  show ?case by (simp add: registry_inv_def outgoing_registry_zero_def outgoing_result_zero_def)
qed (rule registry_step_inv)

text \<open>A sender's file does not change under it, and a terminal result is only replaced with its file.\<close>

lemma registry_step_stable:
  assumes "registry_step (g, held) (g', held')" "registry_inv (g, held)"
  shows "held \<noteq> NULL \<Longrightarrow> rg_registered_file g' = held"
    and "held \<noteq> NULL \<Longrightarrow> or_state (rg_transfer_result g) \<noteq> OUTGOING_RESULT_PENDING \<Longrightarrow> rg_transfer_result g' = rg_transfer_result g"
    and "held = NULL \<Longrightarrow> rg_transfer_result g' \<noteq> rg_transfer_result g \<Longrightarrow>
      or_state (rg_transfer_result g') \<in> {OUTGOING_RESULT_NONE, OUTGOING_RESULT_PENDING}"
  using assms
  by (auto elim!: registry_stepE simp: registry_inv_def registry_ops outgoing_result_zero_def Let_def split: if_splits)



end
