(* ===== verification/Relay_Spool.thy ===== *)
theory Relay_Spool
  imports Upload_Stream Airdrop_Outgoing
begin

text \<open>
  The flash spool of the USB relay, \<^verbatim>\<open>src/main/relay_spool.c\<close>, with the caller that completes an
  upload (\<^verbatim>\<open>finish_relay_upload\<close> and the receive branch of \<^verbatim>\<open>src/main/maintenance_serial.c\<close>). A file is
  written behind an erased header sector and becomes visible only when its checksum matches and
  the header is committed. The partition driver of the ESP-IDF is a parameter of the model: a
  record of the three operations the code calls; what is relied on is \<open>flash_contract\<close>, the
  documented behaviour of NOR flash (an erase sets every bit, a write can only clear bits).
  The spool is the second source of the upload stream, an instance of \<open>byte_source\<close>.
\<close>

section \<open>Types\<close>

definition RELAY_SPOOL_FILE_NAME_MAX :: nat where "RELAY_SPOOL_FILE_NAME_MAX = 127"
definition RELAY_SPOOL_FILE_TYPE_MAX :: nat where "RELAY_SPOOL_FILE_TYPE_MAX = 63"
definition RELAY_SPOOL_DATA_OFFSET :: nat where "RELAY_SPOOL_DATA_OFFSET = 4096"
definition RELAY_SPOOL_HEADER_VERSION :: u32 where "RELAY_SPOOL_HEADER_VERSION = 1"

text \<open>The bytes of \<^verbatim>\<open>ESPDRLY1\<close>.\<close>

definition spool_magic :: bytes where
  "spool_magic = [0x45, 0x53, 0x50, 0x44, 0x52, 0x4c, 0x59, 0x31]"

lemmas spool_consts = RELAY_SPOOL_FILE_NAME_MAX_def RELAY_SPOOL_FILE_TYPE_MAX_def RELAY_SPOOL_DATA_OFFSET_def
  RELAY_SPOOL_HEADER_VERSION_def

record spool_header =
  sh_magic :: bytes
  sh_version :: u32
  sh_size_bytes :: u32
  sh_payload_crc32 :: u32
  sh_file_name :: bytes
  sh_file_type :: bytes
  sh_header_crc32 :: u32

record 'f partition =
  pn_size :: nat
  pn_flash :: 'f

record 'f spool_state =
  sp_partition :: "'f partition ptr"
  sp_header :: spool_header
  sp_cursor :: nat
  sp_write_cursor :: nat
  sp_write_crc32 :: u32
  sp_writing :: bool
  sp_ready :: bool

record 'f partition_ops =
  esp_partition_read :: "'f \<Rightarrow> nat \<Rightarrow> nat \<Rightarrow> esp_err \<times> bytes"
  esp_partition_erase_range :: "'f \<Rightarrow> nat \<Rightarrow> nat \<Rightarrow> esp_err \<times> 'f"
  esp_partition_write :: "'f \<Rightarrow> nat \<Rightarrow> bytes \<Rightarrow> esp_err \<times> 'f"

definition spool_header_zero :: spool_header where
  "spool_header_zero = \<lparr>sh_magic = replicate 8 0, sh_version = 0, sh_size_bytes = 0, sh_payload_crc32 = 0,
     sh_file_name = replicate (RELAY_SPOOL_FILE_NAME_MAX + 1) 0, sh_file_type = replicate (RELAY_SPOOL_FILE_TYPE_MAX + 1) 0,
     sh_header_crc32 = 0\<rparr>"

definition spool_state_zero :: "'f spool_state" where
  "spool_state_zero = \<lparr>sp_partition = NULL, sp_header = spool_header_zero, sp_cursor = 0, sp_write_cursor = 0,
     sp_write_crc32 = 0, sp_writing = False, sp_ready = False\<rparr>"

text \<open>The memory layout of the header structure on the little-endian target: 216 bytes without padding.\<close>

definition header_prefix_bytes :: "spool_header \<Rightarrow> bytes" where
  "header_prefix_bytes h = sh_magic h @ put_le32 (sh_version h) @ put_le32 (sh_size_bytes h) @ put_le32 (sh_payload_crc32 h) @
     sh_file_name h @ sh_file_type h"

definition header_to_bytes :: "spool_header \<Rightarrow> bytes" where
  "header_to_bytes h = header_prefix_bytes h @ put_le32 (sh_header_crc32 h)"

definition header_of_bytes :: "bytes \<Rightarrow> spool_header" where
  "header_of_bytes bs = \<lparr>sh_magic = take 8 bs, sh_version = the (read_le32 bs 8), sh_size_bytes = the (read_le32 bs 12),
     sh_payload_crc32 = the (read_le32 bs 16), sh_file_name = take 128 (drop 20 bs), sh_file_type = take 64 (drop 148 bs),
     sh_header_crc32 = the (read_le32 bs 212)\<rparr>"

definition header_sizeof :: nat where "header_sizeof = 216"

section \<open>Operations\<close>

definition crc32_bytes :: "bytes \<Rightarrow> u32" where
  "crc32_bytes data = crc32_update 0xffffffff data XOR 0xffffffff"

definition header_crc32 :: "spool_header \<Rightarrow> u32" where
  "header_crc32 h = crc32_bytes (header_prefix_bytes h)"

definition sector_ceil :: "nat \<Rightarrow> nat" where
  "sector_ceil bytes = unat ((of_nat bytes + of_nat RELAY_SPOOL_DATA_OFFSET - 1 :: u32) AND NOT (of_nat RELAY_SPOOL_DATA_OFFSET - 1))"

definition relay_spool_capacity :: "'f spool_state \<Rightarrow> nat" where
  "relay_spool_capacity state =
     (if sp_partition state \<noteq> NULL \<and> pn_size (deref (sp_partition state)) > RELAY_SPOOL_DATA_OFFSET
      then pn_size (deref (sp_partition state)) - RELAY_SPOOL_DATA_OFFSET else 0)"

definition valid_header :: "'f spool_state \<Rightarrow> spool_header \<Rightarrow> bool" where
  "valid_header state header \<longleftrightarrow>
     memcmp (sh_magic header) spool_magic (length spool_magic) = 0 \<and> sh_version header = RELAY_SPOOL_HEADER_VERSION \<and>
     sh_size_bytes header > 0 \<and> unat (sh_size_bytes header) \<le> relay_spool_capacity state \<and>
     sh_file_name header ! 0 \<noteq> 0 \<and> 0 \<in> set (sh_file_name header) \<and>
     sh_file_type header ! 0 \<noteq> 0 \<and> 0 \<in> set (sh_file_type header) \<and>
     sh_header_crc32 header = header_crc32 header"

definition source_read :: "'f partition_ops \<Rightarrow> 'f spool_state ptr source_read" where
  "source_read ops context capacity =
     (let spool = deref context in
      if context = NULL \<or> \<not> sp_ready spool \<or> sp_writing spool then (False, [], 0, context)
      else
        let remaining = unat (sh_size_bytes (sp_header spool)) - sp_cursor spool;
            count = (if remaining < capacity then remaining else capacity) in
        if count = 0 then (True, [], 0, context)
        else
          (case esp_partition_read ops (pn_flash (deref (sp_partition spool))) (RELAY_SPOOL_DATA_OFFSET + sp_cursor spool) count of
             (result, buffer) \<Rightarrow>
               if result \<noteq> ESP_OK then (False, [], 0, context)
               else (True, buffer, count, Ptr (spool\<lparr>sp_cursor := sp_cursor spool + count\<rparr>))))"

definition source_rewind :: "'f spool_state ptr source_rewind" where
  "source_rewind context =
     (if context = NULL \<or> \<not> sp_ready (deref context) \<or> sp_writing (deref context) then (False, context)
      else (True, Ptr ((deref context)\<lparr>sp_cursor := 0\<rparr>)))"

text \<open>\<open>found\<close> is the result of \<^verbatim>\<open>esp_partition_find_first\<close>.\<close>

definition relay_spool_init :: "'f partition_ops \<Rightarrow> 'f partition ptr \<Rightarrow> esp_err \<times> 'f spool_state" where
  "relay_spool_init ops found =
     (let state = spool_state_zero\<lparr>sp_partition := found\<rparr> in
      if found = NULL \<or> pn_size (deref found) \<le> RELAY_SPOOL_DATA_OFFSET then (ESP_ERR_NOT_FOUND, state)
      else
        (case esp_partition_read ops (pn_flash (deref found)) 0 header_sizeof of (result, bs) \<Rightarrow>
           let state1 = state\<lparr>sp_header := header_of_bytes bs\<rparr> in
           if result \<noteq> ESP_OK then (result, state1)
           else
             let state2 = state1\<lparr>sp_ready := valid_header state1 (sp_header state1)\<rparr> in
             if sp_ready state2 then (ESP_OK, state2) else (ESP_OK, state2\<lparr>sp_header := spool_header_zero\<rparr>)))"

definition relay_spool_is_ready :: "'f spool_state \<Rightarrow> bool" where
  "relay_spool_is_ready state \<longleftrightarrow> sp_ready state \<and> \<not> sp_writing state"

definition set_flash :: "'f spool_state \<Rightarrow> 'f \<Rightarrow> 'f spool_state" where
  "set_flash state flash = state\<lparr>sp_partition := Ptr ((deref (sp_partition state))\<lparr>pn_flash := flash\<rparr>)\<rparr>"

text \<open>The header that \<open>relay_spool_begin\<close> fills in; its checksum is set when the file is complete.\<close>

definition new_header :: "nat \<Rightarrow> u32 \<Rightarrow> bytes \<Rightarrow> bytes \<Rightarrow> spool_header" where
  "new_header size_bytes expected_crc32 file_name file_type =
     spool_header_zero\<lparr>sh_magic := spool_magic, sh_version := RELAY_SPOOL_HEADER_VERSION, sh_size_bytes := of_nat size_bytes,
       sh_payload_crc32 := expected_crc32, sh_file_name := store (sh_file_name spool_header_zero) 0 (file_name @ [0]),
       sh_file_type := store (sh_file_type spool_header_zero) 0 (file_type @ [0])\<rparr>"

definition relay_spool_begin ::
  "'f partition_ops \<Rightarrow> 'f spool_state \<Rightarrow> nat \<Rightarrow> u32 \<Rightarrow> bytes ptr \<Rightarrow> bytes ptr \<Rightarrow> esp_err \<times> 'f spool_state" where
  "relay_spool_begin ops state size_bytes expected_crc32 file_name file_type =
     (if sp_partition state = NULL \<or> size_bytes = 0 \<or> size_bytes > relay_spool_capacity state \<or> file_name = NULL \<or>
         file_type = NULL \<or> deref file_name = [] \<or> deref file_type = [] \<or>
         length (deref file_name) > RELAY_SPOOL_FILE_NAME_MAX \<or> length (deref file_type) > RELAY_SPOOL_FILE_TYPE_MAX
      then (ESP_ERR_INVALID_ARG, state)
      else if sp_writing state then (ESP_ERR_INVALID_STATE, state)
      else
        let erase_bytes = sector_ceil (RELAY_SPOOL_DATA_OFFSET + size_bytes) in
        (case esp_partition_erase_range ops (pn_flash (deref (sp_partition state))) 0 erase_bytes of (result, flash) \<Rightarrow>
           let state1 = set_flash state flash in
           if result \<noteq> ESP_OK then (result, state1)
           else (ESP_OK, state1\<lparr>sp_header := new_header size_bytes expected_crc32 (deref file_name) (deref file_type),
                   sp_cursor := 0, sp_write_cursor := 0, sp_write_crc32 := 0xffffffff, sp_ready := False, sp_writing := True\<rparr>)))"

text \<open>The sum in the guard is 32 bits wide.\<close>

definition relay_spool_write :: "'f partition_ops \<Rightarrow> 'f spool_state \<Rightarrow> bytes ptr \<Rightarrow> nat \<Rightarrow> esp_err \<times> 'f spool_state" where
  "relay_spool_write ops state data size_bytes =
     (if \<not> sp_writing state \<or> data = NULL \<or> size_bytes = 0 \<or>
         (sp_write_cursor state + size_bytes) mod (SIZE_MAX + 1) > unat (sh_size_bytes (sp_header state))
      then (ESP_ERR_INVALID_ARG, state)
      else
        let source = take size_bytes (deref data) in
        (case esp_partition_write ops (pn_flash (deref (sp_partition state))) (RELAY_SPOOL_DATA_OFFSET + sp_write_cursor state) source of
           (result, flash) \<Rightarrow>
             let state1 = set_flash state flash in
             if result \<noteq> ESP_OK then (result, state1)
             else (ESP_OK, state1\<lparr>sp_write_crc32 := crc32_update (sp_write_crc32 state1) source,
                     sp_write_cursor := sp_write_cursor state1 + size_bytes\<rparr>)))"

definition relay_spool_abort :: "'f spool_state \<Rightarrow> 'f spool_state" where
  "relay_spool_abort state = state\<lparr>sp_writing := False, sp_ready := False, sp_cursor := 0, sp_write_cursor := 0,
     sp_header := spool_header_zero\<rparr>"

definition relay_spool_finish :: "'f partition_ops \<Rightarrow> 'f spool_state \<Rightarrow> esp_err \<times> 'f spool_state" where
  "relay_spool_finish ops state =
     (if \<not> sp_writing state \<or> sp_write_cursor state \<noteq> unat (sh_size_bytes (sp_header state)) then (ESP_ERR_INVALID_STATE, state)
      else
        let actual_crc32 = sp_write_crc32 state XOR 0xffffffff in
        if actual_crc32 \<noteq> sh_payload_crc32 (sp_header state) then (ESP_ERR_INVALID_CRC, relay_spool_abort state)
        else
          let header = (sp_header state)\<lparr>sh_header_crc32 := header_crc32 (sp_header state)\<rparr>;
              state1 = state\<lparr>sp_header := header\<rparr> in
          (case esp_partition_write ops (pn_flash (deref (sp_partition state1))) 0 (header_to_bytes header) of (result, flash) \<Rightarrow>
             let state2 = set_flash state1 flash in
             if result \<noteq> ESP_OK then (result, state2)
             else (ESP_OK, state2\<lparr>sp_writing := False, sp_ready := True, sp_cursor := 0\<rparr>)))"

definition relay_spool_outgoing_file ::
  "'f partition_ops \<Rightarrow> 'f spool_state \<Rightarrow> esp_err \<times> ('f spool_state ptr, 'q ptr) outgoing_file ptr" where
  "relay_spool_outgoing_file ops state =
     (if \<not> relay_spool_is_ready state then (ESP_ERR_INVALID_STATE, NULL)
      else (ESP_OK, Ptr \<lparr>
        of_file_name = Ptr (takeWhile (\<lambda>c. c \<noteq> 0) (sh_file_name (sp_header state))),
        of_file_type = Ptr (takeWhile (\<lambda>c. c \<noteq> 0) (sh_file_type (sp_header state))),
        of_mtime = 0,
        of_source = \<lparr>src_context = Ptr state, src_size_bytes = unat (sh_size_bytes (sp_header state)),
          src_read = Ptr (source_read ops), src_rewind = Ptr source_rewind\<rparr>,
        of_prepared_payload = \<lparr>pp_source = \<lparr>src_context = NULL, src_size_bytes = 0, src_read = NULL, src_rewind = NULL\<rparr>,
          pp_archive_bytes = 0, pp_dvzip_blocks = 0, pp_file_crc32 = 0, pp_stored_blocks = False\<rparr>\<rparr>))"

section \<open>The serial task's use of the spool\<close>

text \<open>
  Receiving one run of bytes: a failed write aborts the upload. Completing it: \<open>request_run\<close> is
  the outcome of waking the sender (\<^verbatim>\<open>espdrop_awdl_tx_lab_request_run\<close> and the Bluetooth wake).
\<close>

definition receive_relay :: "'f partition_ops \<Rightarrow> 'f spool_state \<Rightarrow> bytes \<Rightarrow> esp_err \<times> 'f spool_state" where
  "receive_relay ops state input =
     (case relay_spool_write ops state (Ptr input) (length input) of (result, state1) \<Rightarrow>
        if result \<noteq> ESP_OK then (result, relay_spool_abort state1) else (result, state1))"

definition finish_relay_upload ::
  "'f partition_ops \<Rightarrow> esp_err \<Rightarrow> 'f spool_state \<Rightarrow> ('f spool_state ptr, 'q ptr) outgoing_registry \<Rightarrow>
     bytes \<times> esp_err \<times> 'f spool_state \<times> ('f spool_state ptr, 'q ptr) outgoing_registry" where
  "finish_relay_upload ops request_run state g =
     (let (result, state1) = relay_spool_finish ops state;
          (result1, outgoing) = (if result = ESP_OK then relay_spool_outgoing_file ops state1 else (result, NULL));
          (result2, g1) = (if result1 = ESP_OK then espdrop_airdrop_outgoing_set g outgoing else (result1, g));
          result3 = (if result2 = ESP_OK then request_run else result2);
          response = (if result3 = ESP_OK then ascii ''ESPDROP-RELAY-STORED''
                      else if result3 = ESP_ERR_INVALID_CRC then ascii ''ESPDROP-RELAY-CRC-ERROR''
                      else ascii ''ESPDROP-RELAY-FAILED'') @ [10] in
      (response, result3, if result3 \<noteq> ESP_OK then relay_spool_abort state1 else state1, g1))"

fun receive_all :: "'f partition_ops \<Rightarrow> 'f spool_state \<Rightarrow> bytes list \<Rightarrow> esp_err \<times> 'f spool_state" where
  "receive_all ops state [] = (ESP_OK, state)"
| "receive_all ops state (input # rest) =
     (case receive_relay ops state input of (result, state1) \<Rightarrow>
        if result \<noteq> ESP_OK then (result, state1) else receive_all ops state1 rest)"

section \<open>The contract of the flash driver\<close>

text \<open>
  \<open>contents\<close> reads the bytes of the partition off the driver's state. A read inside the partition
  returns them, a successful erase sets its range to \<open>0xff\<close>, a successful write clears the bits
  that are clear in its data, and no operation changes the size. A failing write may leave
  anything behind.
\<close>

definition flash_contract :: "'f partition_ops \<Rightarrow> ('f \<Rightarrow> bytes) \<Rightarrow> bool" where
  "flash_contract ops contents \<longleftrightarrow>
     (\<forall>f off n. off + n \<le> length (contents f) \<longrightarrow> esp_partition_read ops f off n = (ESP_OK, take n (drop off (contents f)))) \<and>
     (\<forall>f off n r f'. esp_partition_erase_range ops f off n = (r, f') \<longrightarrow> length (contents f') = length (contents f) \<and>
        (r = ESP_OK \<longrightarrow> off + n \<le> length (contents f) \<and> contents f' = store (contents f) off (replicate n 0xff))) \<and>
     (\<forall>f off d r f'. esp_partition_write ops f off d = (r, f') \<longrightarrow> length (contents f') = length (contents f) \<and>
        (r = ESP_OK \<longrightarrow> off + length d \<le> length (contents f) \<and>
           contents f' = store (contents f) off (map2 (AND) (take (length d) (drop off (contents f))) d)))"

text \<open>An erase that is refused has not touched the flash.\<close>

definition erase_atomic :: "'f partition_ops \<Rightarrow> ('f \<Rightarrow> bytes) \<Rightarrow> bool" where
  "erase_atomic ops contents \<longleftrightarrow>
     (\<forall>f off n r f'. esp_partition_erase_range ops f off n = (r, f') \<and> r \<noteq> ESP_OK \<longrightarrow> contents f' = contents f)"

lemma contract_read:
  "flash_contract ops contents \<Longrightarrow> off + n \<le> length (contents f) \<Longrightarrow>
     esp_partition_read ops f off n = (ESP_OK, take n (drop off (contents f)))"
  by (simp add: flash_contract_def)

lemma contract_erase:
  "flash_contract ops contents \<Longrightarrow> esp_partition_erase_range ops f off n = (r, f') \<Longrightarrow>
     length (contents f') = length (contents f) \<and>
     (r = ESP_OK \<longrightarrow> off + n \<le> length (contents f) \<and> contents f' = store (contents f) off (replicate n 0xff))"
  unfolding flash_contract_def by blast

lemma contract_write:
  "flash_contract ops contents \<Longrightarrow> esp_partition_write ops f off d = (r, f') \<Longrightarrow>
     length (contents f') = length (contents f) \<and>
     (r = ESP_OK \<longrightarrow> off + length d \<le> length (contents f) \<and>
       contents f' = store (contents f) off (map2 (AND) (take (length d) (drop off (contents f))) d))"
  unfolding flash_contract_def by blast

lemma and_erased: "(0xff :: byte) AND b = b"
proof -
  have "(0xff :: byte) = -1" by simp
  then show ?thesis by (simp only: and.left_neutral)
qed

lemma and_erased_list: "map2 (AND) (replicate (length d) (0xff :: byte)) d = d"
  by (induction d) (simp_all add: and_erased)

text \<open>Programming an erased range stores the data.\<close>

lemma program_erased:
  assumes "flash_contract ops contents" "esp_partition_write ops f off d = (ESP_OK, f')"
    and "take (length d) (drop off (contents f)) = replicate (length d) 0xff"
  shows "off + length d \<le> length (contents f)" "contents f' = store (contents f) off d"
  using contract_write [OF assms(1,2)] assms(3) and_erased_list [of d] by auto

section \<open>The header image\<close>

definition wf_header :: "spool_header \<Rightarrow> bool" where
  "wf_header h \<longleftrightarrow> length (sh_magic h) = 8 \<and> length (sh_file_name h) = 128 \<and> length (sh_file_type h) = 64"

lemma length_header_to_bytes: "wf_header h \<Longrightarrow> length (header_to_bytes h) = 216"
  by (simp add: wf_header_def header_to_bytes_def header_prefix_bytes_def)

lemma header_roundtrip:
  assumes "wf_header h"
  shows "header_of_bytes (header_to_bytes h) = h"
proof -
  have l: "length (sh_magic h) = 8" "length (sh_file_name h) = 128" "length (sh_file_type h) = 64"
    using assms by (auto simp: wf_header_def)
  have r: "read_le32 (header_to_bytes h) 8 = Some (sh_version h)" "read_le32 (header_to_bytes h) 12 = Some (sh_size_bytes h)"
    "read_le32 (header_to_bytes h) 16 = Some (sh_payload_crc32 h)" "read_le32 (header_to_bytes h) 212 = Some (sh_header_crc32 h)"
    using l le32.dec_at_offset [of 8 "sh_magic h"]
      le32.dec_at_offset [of 12 "sh_magic h @ put_le32 (sh_version h)"]
      le32.dec_at_offset [of 16 "sh_magic h @ put_le32 (sh_version h) @ put_le32 (sh_size_bytes h)"]
      le32.dec_at_offset [of 212 "header_prefix_bytes h" _ "[]"]
    by (simp_all add: header_to_bytes_def header_prefix_bytes_def)
  have t: "take 8 (header_to_bytes h) = sh_magic h" "take 128 (drop 20 (header_to_bytes h)) = sh_file_name h"
    "take 64 (drop 148 (header_to_bytes h)) = sh_file_type h"
    using l by (simp_all add: header_to_bytes_def header_prefix_bytes_def)
  show ?thesis by (simp add: header_of_bytes_def r t)
qed

lemma new_header_wf: "length nm \<le> 127 \<Longrightarrow> length tp \<le> 63 \<Longrightarrow> wf_header (new_header n crc nm tp)"
  by (simp add: wf_header_def new_header_def spool_header_zero_def spool_magic_def spool_consts)

lemma sector_ceil_ge: "n + 4095 < 2 ^ 32 \<Longrightarrow> n \<le> sector_ceil n"
proof -
  assume n: "n + 4095 < 2 ^ 32"
  define w :: u32 where "w = of_nat n + 0x1000 - 1"
  have w: "w = of_nat (n + 4095)" by (simp add: w_def)
  have u: "unat w = n + 4095" unfolding w using n by (intro unat_of_nat_u32)
  have split: "(w AND NOT 0xfff) = w - (w AND 0xfff)"
  proof -
    have "(w AND NOT 0xfff) + (w AND 0xfff) = (w AND NOT 0xfff) OR (w AND 0xfff)"
      by (rule disjunctive_add_eq_or) (auto simp: bit_eq_iff bit_simps)
    also have "\<dots> = w" by (auto simp: bit_eq_iff bit_simps)
    finally show ?thesis by (simp add: eq_diff_eq)
  qed
  have le: "w AND 0xfff \<le> w" "w AND 0xfff \<le> 0xfff" using word_and_le2 word_and_le1 by blast+
  have "unat (w AND NOT 0xfff) = unat w - unat (w AND 0xfff)" unfolding split using le(1) by (rule unat_sub)
  moreover have "unat (w AND 0xfff) \<le> 4095" using le(2) by (simp add: word_le_nat_alt)
  ultimately have "n \<le> unat (w AND NOT 0xfff)" using u by linarith
  then show ?thesis by (simp add: sector_ceil_def spool_consts w_def)
qed

section \<open>The invariant of the spool\<close>

abbreviation flash_data :: "('f \<Rightarrow> bytes) \<Rightarrow> 'f spool_state \<Rightarrow> bytes" where
  "flash_data contents st \<equiv> contents (pn_flash (deref (sp_partition st)))"

abbreviation spool_size :: "'f spool_state \<Rightarrow> nat" where
  "spool_size st \<equiv> unat (sh_size_bytes (sp_header st))"

definition partition_ok :: "('f \<Rightarrow> bytes) \<Rightarrow> 'f partition \<Rightarrow> bool" where
  "partition_ok contents p \<longleftrightarrow> pn_size p = length (contents (pn_flash p)) \<and> pn_size p \<le> 2 ^ 32 - 2 ^ 12"

text \<open>
  While a file is being written, \<open>xs\<close> is what has arrived: it lies behind the header sector, the
  running checksum is its checksum, and the header and the room for the rest are erased.
\<close>

definition spool_writing :: "('f \<Rightarrow> bytes) \<Rightarrow> 'f spool_state \<Rightarrow> bytes \<Rightarrow> bool" where
  "spool_writing contents st xs \<longleftrightarrow>
     sp_writing st \<and> \<not> sp_ready st \<and> sp_partition st \<noteq> NULL \<and> partition_ok contents (deref (sp_partition st)) \<and>
     wf_header (sp_header st) \<and>
     valid_header st ((sp_header st)\<lparr>sh_header_crc32 := header_crc32 (sp_header st)\<rparr>) \<and>
     sp_write_cursor st = length xs \<and> length xs \<le> spool_size st \<and> sp_write_crc32 st = crc32_update 0xffffffff xs \<and>
     take 216 (flash_data contents st) = replicate 216 0xff \<and>
     take (length xs) (drop 4096 (flash_data contents st)) = xs \<and>
     take (spool_size st - length xs) (drop (4096 + length xs) (flash_data contents st)) = replicate (spool_size st - length xs) 0xff"

text \<open>A visible file: a valid header and a payload with the announced checksum.\<close>

definition spool_ready :: "('f \<Rightarrow> bytes) \<Rightarrow> 'f spool_state \<Rightarrow> bytes \<Rightarrow> bool" where
  "spool_ready contents st xs \<longleftrightarrow>
     sp_ready st \<and> \<not> sp_writing st \<and> sp_partition st \<noteq> NULL \<and> partition_ok contents (deref (sp_partition st)) \<and>
     valid_header st (sp_header st) \<and> sp_cursor st \<le> spool_size st \<and>
     length xs = spool_size st \<and> take (spool_size st) (drop 4096 (flash_data contents st)) = xs \<and>
     sh_payload_crc32 (sp_header st) = crc32 xs"

definition spool_idle :: "('f \<Rightarrow> bytes) \<Rightarrow> 'f spool_state \<Rightarrow> bool" where
  "spool_idle contents st \<longleftrightarrow> \<not> sp_ready st \<and> \<not> sp_writing st \<and>
     (sp_partition st \<noteq> NULL \<longrightarrow> partition_ok contents (deref (sp_partition st)))"

definition spool_inv :: "('f \<Rightarrow> bytes) \<Rightarrow> 'f spool_state \<Rightarrow> bool" where
  "spool_inv contents st \<longleftrightarrow> spool_idle contents st \<or> (\<exists>xs. spool_writing contents st xs) \<or> (\<exists>xs. spool_ready contents st xs)"

lemma spool_inv_partition: "spool_inv contents st \<Longrightarrow> sp_partition st \<noteq> NULL \<Longrightarrow> partition_ok contents (deref (sp_partition st))"
  by (auto simp: spool_inv_def spool_idle_def spool_writing_def spool_ready_def)

lemma valid_header_room:
  "valid_header st h \<Longrightarrow> sp_partition st \<noteq> NULL \<Longrightarrow> partition_ok contents (deref (sp_partition st)) \<Longrightarrow>
     0 < unat (sh_size_bytes h) \<and> 4096 + unat (sh_size_bytes h) \<le> length (flash_data contents st)"
  by (auto simp: valid_header_def relay_spool_capacity_def partition_ok_def spool_consts word_less_nat_alt split: if_splits)

lemma set_flash_simps [simp]:
  "pn_flash (deref (sp_partition (set_flash st f))) = f" "pn_size (deref (sp_partition (set_flash st f))) = pn_size (deref (sp_partition st))"
  "sp_partition (set_flash st f) \<noteq> NULL" "sp_header (set_flash st f) = sp_header st" "sp_cursor (set_flash st f) = sp_cursor st"
  "sp_write_cursor (set_flash st f) = sp_write_cursor st" "sp_write_crc32 (set_flash st f) = sp_write_crc32 st"
  "sp_writing (set_flash st f) = sp_writing st" "sp_ready (set_flash st f) = sp_ready st"
  by (simp_all add: set_flash_def)

lemma valid_header_cong:
  "sp_partition st \<noteq> NULL \<Longrightarrow> sp_partition st' \<noteq> NULL \<Longrightarrow>
     pn_size (deref (sp_partition st')) = pn_size (deref (sp_partition st)) \<Longrightarrow> valid_header st' h = valid_header st h"
  by (simp add: valid_header_def relay_spool_capacity_def)

lemma set_flash_same:
  assumes "sp_partition st \<noteq> NULL" "contents f = flash_data contents st"
  shows "spool_inv contents (set_flash st f) = spool_inv contents st"
  using assms valid_header_cong [of st "set_flash st f"]
  by (simp add: spool_inv_def spool_idle_def spool_writing_def spool_ready_def partition_ok_def)

lemma spool_begin_writing:
  assumes fc: "flash_contract ops contents" and ok: "relay_spool_begin ops st size_bytes crc (Ptr nm) (Ptr tp) = (ESP_OK, st')"
    and strings: "0 \<notin> set nm" "0 \<notin> set tp" and part: "sp_partition st \<noteq> NULL \<Longrightarrow> partition_ok contents (deref (sp_partition st))"
  shows "spool_writing contents st' []" "sp_header st' = new_header size_bytes crc nm tp" "spool_size st' = size_bytes"
proof -
  have g: "sp_partition st \<noteq> NULL" "0 < size_bytes" "size_bytes \<le> relay_spool_capacity st" "nm \<noteq> []" "tp \<noteq> []"
    "length nm \<le> 127" "length tp \<le> 63"
    using ok by (auto simp: relay_spool_begin_def spool_consts split: if_splits)
  define n where "n = sector_ceil (4096 + size_bytes)"
  obtain f where f: "esp_partition_erase_range ops (pn_flash (deref (sp_partition st))) 0 n = (ESP_OK, f)"
    and st': "st' = (set_flash st f)\<lparr>sp_header := new_header size_bytes crc nm tp, sp_cursor := 0, sp_write_cursor := 0,
      sp_write_crc32 := 0xffffffff, sp_ready := False, sp_writing := True\<rparr>"
    using ok by (auto simp: relay_spool_begin_def Let_def n_def spool_consts split: if_splits prod.splits)
  note p = part [OF g(1), unfolded partition_ok_def]
  have room: "4096 + size_bytes \<le> length (flash_data contents st)" "size_bytes \<le> 2 ^ 32 - 2 ^ 13"
    using g(2,3) p by (auto simp: relay_spool_capacity_def spool_consts split: if_splits)
  have n: "4096 + size_bytes \<le> n" unfolding n_def using room(2) by (intro sector_ceil_ge) simp
  have e: "contents f = replicate n 0xff @ drop n (flash_data contents st)" "length (contents f) = length (flash_data contents st)"
    using contract_erase [OF fc f] by (auto simp: store_def)
  show hd: "sp_header st' = new_header size_bytes crc nm tp" by (simp add: st')
  show sz: "spool_size st' = size_bytes" using room(2) by (simp add: hd new_header_def unat_of_nat_u32)
  have first: "nm ! 0 \<noteq> 0" "tp ! 0 \<noteq> 0" using g(4,5) strings by (metis length_greater_0_conv nth_mem)+
  have names: "0 \<in> set (sh_file_name (sp_header st'))" "sh_file_name (sp_header st') ! 0 \<noteq> 0"
    "0 \<in> set (sh_file_type (sp_header st'))" "sh_file_type (sp_header st') ! 0 \<noteq> 0"
    using g(4-7) first by (auto simp: hd new_header_def spool_header_zero_def spool_consts store_def nth_append)
  have cap: "relay_spool_capacity st' = relay_spool_capacity st" using g(1) by (simp add: relay_spool_capacity_def st' set_flash_def)
  have pos: "0 < sh_size_bytes (sp_header st')" using sz g(2) by (simp add: word_less_nat_alt)
  have hc: "header_crc32 (h\<lparr>sh_header_crc32 := c\<rparr>) = header_crc32 h" for h c by (simp add: header_crc32_def header_prefix_bytes_def)
  have v: "valid_header st' ((sp_header st')\<lparr>sh_header_crc32 := header_crc32 (sp_header st')\<rparr>)"
    using names pos sz g(3) by (simp add: valid_header_def cap hc) (simp add: hd new_header_def)
  show "spool_writing contents st' []"
    using v sz n e p new_header_wf [OF g(6,7), of size_bytes crc]
    by (simp add: spool_writing_def st' partition_ok_def crc32_update_def)
qed

lemma spool_abort_idle: "spool_inv contents st \<Longrightarrow> spool_idle contents (relay_spool_abort st)"
  using spool_inv_partition by (auto simp: spool_idle_def relay_spool_abort_def)

lemma spool_write_step:
  assumes fc: "flash_contract ops contents" and w: "spool_writing contents st xs" and d: "length d \<le> SIZE_MAX"
    and r: "relay_spool_write ops st (Ptr d) (length d) = (r, st')"
  shows "r = ESP_OK \<Longrightarrow> spool_writing contents st' (xs @ d) \<and> sp_header st' = sp_header st"
    and "spool_idle contents (relay_spool_abort st')"
proof -
  have p: "sp_partition st \<noteq> NULL" "partition_ok contents (deref (sp_partition st))" "sp_write_cursor st = length xs"
    "length xs \<le> spool_size st" "sp_writing st"
    using w by (auto simp: spool_writing_def)
  have room: "4096 + spool_size st \<le> length (flash_data contents st)"
    using w valid_header_room [OF _ p(1,2)] by (fastforce simp: spool_writing_def)
  show "spool_idle contents (relay_spool_abort st')"
    using r p contract_write [OF fc, THEN conjunct1]
    by (auto simp: relay_spool_write_def spool_idle_def relay_spool_abort_def set_flash_def partition_ok_def Let_def
        split: if_splits prod.splits)
  assume ok: "r = ESP_OK"
  obtain f where f: "esp_partition_write ops (pn_flash (deref (sp_partition st))) (4096 + length xs) d = (ESP_OK, f)"
    and st': "st' = (set_flash st f)\<lparr>sp_write_crc32 := crc32_update (sp_write_crc32 st) d, sp_write_cursor := length xs + length d\<rparr>"
    and g: "(length xs + length d) mod (SIZE_MAX + 1) \<le> spool_size st"
    using r ok p(3,5) by (auto simp: relay_spool_write_def Let_def spool_consts split: if_splits prod.splits)
  let ?c = "flash_data contents st"
  have fits: "4096 + length xs + length d \<le> length ?c" "length ?c \<le> 2 ^ 32 - 2 ^ 12"
    using contract_write [OF fc f] p(2) by (auto simp: partition_ok_def)
  then have sz: "length xs + length d \<le> spool_size st" using g by (simp add: SIZE_MAX_def)
  define k where "k = spool_size st - length xs"
  have er: "take k (drop (4096 + length xs) ?c) = replicate k 0xff" using w by (simp add: spool_writing_def k_def)
  have dk: "length d \<le> k" using sz by (simp add: k_def)
  have "take (length d) (drop (4096 + length xs) ?c) = take (length d) (take k (drop (4096 + length xs) ?c))"
    using dk by (simp add: min_absorb1)
  then have e0: "take (length d) (drop (4096 + length xs) ?c) = replicate (length d) 0xff"
    unfolding er using dk by (simp add: min_absorb1)
  have c': "contents f = take (4096 + length xs) ?c @ d @ drop (4096 + length xs + length d) ?c"
    using program_erased(2) [OF fc f e0] by (simp add: store_def)
  have hx: "take 216 ?c = replicate 216 0xff" "take (length xs) (drop 4096 ?c) = xs"
    using w by (auto simp: spool_writing_def)
  have d1: "take 216 (contents f) = replicate 216 0xff" unfolding c' using hx(1) fits by (simp add: min_absorb1)
  have pre: "take (4096 + length xs) ?c = take 4096 ?c @ xs" using hx(2) by (simp add: take_add)
  have d2: "take (length xs + length d) (drop 4096 (contents f)) = xs @ d" unfolding c' pre using fits by (simp add: min_absorb2)
  have l: "length (take 4096 ?c @ xs) = 4096 + length xs" using fits by simp
  have "drop (4096 + (length xs + length d)) (contents f) = drop (length d) (drop (4096 + length xs) ?c)"
    unfolding c' pre using fits by (simp add: add_ac)
  moreover have "take (k - length d) (drop (length d) (drop (4096 + length xs) ?c)) = replicate (k - length d) 0xff"
    using er dk by (metis drop_replicate drop_take)
  ultimately have d3: "take (spool_size st - (length xs + length d)) (drop (4096 + (length xs + length d)) (contents f)) =
      replicate (spool_size st - (length xs + length d)) 0xff" by (simp add: k_def)
  have lc: "length (contents f) = length ?c" using contract_write [OF fc f] by blast
  have v: "valid_header st' h = valid_header st h" for h using p(1) by (intro valid_header_cong) (simp_all add: st')
  have "spool_writing contents st' (xs @ d)"
    using w sz d1 d2 d3 lc v by (simp add: spool_writing_def st' partition_ok_def crc32_update_append)
  then show "spool_writing contents st' (xs @ d) \<and> sp_header st' = sp_header st" by (simp add: st')
qed

lemma header_crc32_update [simp]: "header_crc32 (h\<lparr>sh_header_crc32 := c\<rparr>) = header_crc32 h"
  by (simp add: header_crc32_def header_prefix_bytes_def)

text \<open>Committing a complete file makes it visible and leaves the image of its header in flash.\<close>

lemma spool_finish_step:
  assumes fc: "flash_contract ops contents" and w: "spool_writing contents st xs" and r: "relay_spool_finish ops st = (ESP_OK, st')"
  shows "spool_ready contents st' xs" "sp_cursor st' = 0" "take 216 (flash_data contents st') = header_to_bytes (sp_header st')"
    "sp_header st' = (sp_header st)\<lparr>sh_header_crc32 := header_crc32 (sp_header st)\<rparr>"
proof -
  define h where "h = (sp_header st)\<lparr>sh_header_crc32 := header_crc32 (sp_header st)\<rparr>"
  let ?c = "flash_data contents st"
  have p: "sp_partition st \<noteq> NULL" "partition_ok contents (deref (sp_partition st))" "wf_header h" "valid_header st h"
    "length xs \<le> spool_size st" "take 216 ?c = replicate 216 0xff" "take (length xs) (drop 4096 ?c) = xs"
    using w by (auto simp: spool_writing_def h_def wf_header_def)
  have room: "4096 + spool_size st \<le> length ?c" using valid_header_room [OF p(4,1,2)] by (simp add: h_def)
  obtain f where f: "esp_partition_write ops (pn_flash (deref (sp_partition st))) 0 (header_to_bytes h) = (ESP_OK, f)"
    and st': "st' = (set_flash (st\<lparr>sp_header := h\<rparr>) f)\<lparr>sp_writing := False, sp_ready := True, sp_cursor := 0\<rparr>"
    and g: "sp_write_cursor st = spool_size st" "sp_write_crc32 st XOR 0xffffffff = sh_payload_crc32 (sp_header st)"
    using r by (auto simp: relay_spool_finish_def Let_def h_def split: if_splits prod.splits)
  have len: "length xs = spool_size st" "crc32 xs = sh_payload_crc32 (sp_header st)"
    using w g by (auto simp: spool_writing_def crc32_def)
  have hb: "length (header_to_bytes h) = 216" using length_header_to_bytes [OF p(3)] .
  have c': "contents f = header_to_bytes h @ drop 216 ?c"
    using program_erased(2) [OF fc f] p(6) hb by (simp add: store_def)
  have d: "drop 4096 (contents f) = drop 4096 ?c" unfolding c' using hb by simp
  have lc: "length (contents f) = length ?c" using contract_write [OF fc f] by blast
  have v: "valid_header st' h" using p(4) valid_header_cong [of st st' h] p(1) by (simp add: st')
  show "spool_ready contents st' xs"
    using v p(2,7) len d lc unfolding spool_ready_def st' by (simp add: partition_ok_def h_def)
  show "sp_cursor st' = 0" by (simp add: st')
  show "take 216 (flash_data contents st') = header_to_bytes (sp_header st')"
    using hb c' by (simp add: st')
  show "sp_header st' = (sp_header st)\<lparr>sh_header_crc32 := header_crc32 (sp_header st)\<rparr>" by (simp add: st' h_def)
qed

lemma spool_finish_abort:
  assumes "flash_contract ops contents" "spool_inv contents st" "relay_spool_finish ops st = (r, st')"
  shows "spool_idle contents (relay_spool_abort st')"
proof -
  have "sp_partition st \<noteq> NULL" if "sp_writing st" using assms(2) that
    by (auto simp: spool_inv_def spool_idle_def spool_writing_def spool_ready_def)
  moreover note spool_inv_partition [OF assms(2)] contract_write [OF assms(1), THEN conjunct1]
  ultimately show ?thesis
    using assms(3)
    by (auto simp: relay_spool_finish_def spool_idle_def relay_spool_abort_def set_flash_def partition_ok_def Let_def
        split: if_splits prod.splits)
qed

text \<open>What a boot finds: a header that is valid announces the payload behind it.\<close>

definition persisted :: "('f \<Rightarrow> bytes) \<Rightarrow> 'f partition \<Rightarrow> bool" where
  "persisted contents p \<longleftrightarrow>
     (let c = contents (pn_flash p); h = header_of_bytes (take 216 c) in
      valid_header (spool_state_zero\<lparr>sp_partition := Ptr p\<rparr>) h \<longrightarrow>
        sh_payload_crc32 h = crc32 (take (unat (sh_size_bytes h)) (drop 4096 c)))"

lemma spool_init_step:
  assumes fc: "flash_contract ops contents" and p: "partition_ok contents p" and per: "persisted contents p" "4096 < pn_size p"
  shows "\<exists>st. relay_spool_init ops (Ptr p) = (ESP_OK, st) \<and> sp_partition st = Ptr p \<and> sp_cursor st = 0 \<and>
    (let h = header_of_bytes (take 216 (contents (pn_flash p))) in
     if valid_header (spool_state_zero\<lparr>sp_partition := Ptr p\<rparr>) h
     then sp_header st = h \<and> spool_ready contents st (take (unat (sh_size_bytes h)) (drop 4096 (contents (pn_flash p))))
     else spool_idle contents st)"
proof -
  let ?c = "contents (pn_flash p)"
  define h where "h = header_of_bytes (take 216 ?c)"
  define z :: "'a spool_state" where "z = spool_state_zero\<lparr>sp_partition := Ptr p\<rparr>"
  have rd: "esp_partition_read ops (pn_flash p) 0 header_sizeof = (ESP_OK, take 216 ?c)"
    using contract_read [OF fc, of 0 216 "pn_flash p"] p per(2) by (simp add: header_sizeof_def partition_ok_def)
  have v: "valid_header (z\<lparr>sp_header := h\<rparr>) h = valid_header z h" by (intro valid_header_cong) (simp_all add: z_def)
  have init: "relay_spool_init ops (Ptr p) = (ESP_OK, if valid_header z h then z\<lparr>sp_header := h, sp_ready := True\<rparr>
      else z\<lparr>sp_header := spool_header_zero, sp_ready := False\<rparr>)"
    using per(2) by (simp add: relay_spool_init_def rd Let_def spool_consts z_def [symmetric] h_def [symmetric] v)
  have "spool_ready contents (z\<lparr>sp_header := h, sp_ready := True\<rparr>) (take (unat (sh_size_bytes h)) (drop 4096 ?c))"
    if vh: "valid_header z h"
  proof -
    have "4096 + unat (sh_size_bytes h) \<le> length ?c"
      using valid_header_room [OF vh, of contents] p by (simp add: z_def)
    moreover have "valid_header (z\<lparr>sp_header := h, sp_ready := True\<rparr>) h"
      using vh valid_header_cong [of z "z\<lparr>sp_header := h, sp_ready := True\<rparr>" h] by (simp add: z_def)
    ultimately show ?thesis
      using per(1) vh p by (simp add: spool_ready_def persisted_def Let_def h_def [symmetric]) (simp add: z_def spool_state_zero_def)
  qed
  moreover have "spool_idle contents (z\<lparr>sp_header := spool_header_zero, sp_ready := False\<rparr>)"
    using p by (simp add: spool_idle_def z_def spool_state_zero_def)
  ultimately show ?thesis
    using init by (simp add: h_def [symmetric] z_def [symmetric] Let_def) (simp add: z_def spool_state_zero_def)
qed

section \<open>The spool as a source\<close>

definition spool_pending :: "'f partition_ops \<Rightarrow> ('f \<Rightarrow> bytes) \<Rightarrow> 'f spool_state ptr \<Rightarrow> bytes \<Rightarrow> bool" where
  "spool_pending ops contents context xs \<longleftrightarrow> flash_contract ops contents \<and>
     (\<exists>st. context = Ptr st \<and> sp_ready st \<and> \<not> sp_writing st \<and> sp_cursor st \<le> spool_size st \<and>
        4096 + spool_size st \<le> length (flash_data contents st) \<and>
        xs = take (spool_size st - sp_cursor st) (drop (4096 + sp_cursor st) (flash_data contents st)))"

lemma source_read_delivers:
  assumes "spool_pending ops contents context xs" "0 < n" "n \<le> length xs"
  shows "\<exists>context'. source_read ops context n = (True, take n xs, n, context') \<and> spool_pending ops contents context' (drop n xs)"
proof -
  obtain st where st: "context = Ptr st" "sp_ready st" "\<not> sp_writing st" "sp_cursor st \<le> spool_size st"
    "4096 + spool_size st \<le> length (flash_data contents st)"
    "xs = take (spool_size st - sp_cursor st) (drop (4096 + sp_cursor st) (flash_data contents st))" and fc: "flash_contract ops contents"
    using assms(1) by (auto simp: spool_pending_def)
  have n: "n \<le> spool_size st - sp_cursor st" using assms(3) st(4-6) by simp
  then have rd: "esp_partition_read ops (pn_flash (deref (sp_partition st))) (4096 + sp_cursor st) n =
      (ESP_OK, take n (drop (4096 + sp_cursor st) (flash_data contents st)))"
    using st(5) assms(2) by (intro contract_read [OF fc]) linarith
  have tk: "take n (drop (4096 + sp_cursor st) (flash_data contents st)) = take n xs" using n st(6) by (simp add: min_absorb1)
  have dr: "drop n xs = take (spool_size st - (sp_cursor st + n)) (drop (4096 + (sp_cursor st + n)) (flash_data contents st))"
    unfolding st(6) by (simp add: drop_take add_ac)
  have cnt: "(if spool_size st - sp_cursor st < n then spool_size st - sp_cursor st else n) = n" using n by simp
  have "source_read ops context n = (True, take n xs, n, Ptr (st\<lparr>sp_cursor := sp_cursor st + n\<rparr>))"
    using st(1-3) assms(2) unfolding source_read_def Let_def
    by (simp only: ptr.sel ptr.distinct simp_thms cnt spool_consts rd tk prod.case) simp
  moreover have "spool_pending ops contents (Ptr (st\<lparr>sp_cursor := sp_cursor st + n\<rparr>)) (drop n xs)"
    unfolding spool_pending_def using fc st(2-5) n dr by auto
  ultimately show ?thesis by blast
qed

interpretation spool: byte_source "source_read ops" "spool_pending ops contents" for ops :: "'f partition_ops" and contents
proof
  fix s :: "'f spool_state ptr" and xs and n :: nat
  assume "spool_pending ops contents s xs" "0 < n" "n \<le> length xs"
  from source_read_delivers [OF this] \<open>0 < n\<close>
  show "\<exists>k s'. source_read ops s n = (True, take k xs, k, s') \<and> 0 < k \<and> k \<le> n \<and> spool_pending ops contents s' (drop k xs)" by blast
qed

section \<open>Sequences of calls\<close>

text \<open>
  The calls of the serial task, in any order and with any arguments, and the reads of the sender.
  Names are C strings.
\<close>

inductive spool_step :: "'f partition_ops \<Rightarrow> 'f spool_state \<Rightarrow> 'f spool_state \<Rightarrow> bool" for ops where
  start: "relay_spool_begin ops st size_bytes crc nm tp = (r, st') \<Longrightarrow> 0 \<notin> set (deref nm) \<Longrightarrow> 0 \<notin> set (deref tp) \<Longrightarrow> spool_step ops st st'"
| receive: "receive_relay ops st d = (r, st') \<Longrightarrow> length d \<le> SIZE_MAX \<Longrightarrow> spool_step ops st st'"
| finish: "finish_relay_upload ops request_run st (g :: ('f spool_state ptr, unit ptr) outgoing_registry) = (response, r, st', g') \<Longrightarrow> spool_step ops st st'"
| timeout: "spool_step ops st (relay_spool_abort st)"
| read: "source_read ops (Ptr st) n = (ok, bs, k, Ptr st') \<Longrightarrow> spool_step ops st st'"
| rewind: "source_rewind (Ptr st) = (ok, Ptr st') \<Longrightarrow> spool_step ops st st'"

lemma spool_ready_cursor: "spool_ready contents st xs \<Longrightarrow> k \<le> spool_size st \<Longrightarrow> spool_ready contents (st\<lparr>sp_cursor := k\<rparr>) xs"
  using valid_header_cong [of st "st\<lparr>sp_cursor := k\<rparr>"] by (auto simp: spool_ready_def)

lemma spool_inv_phases:
  assumes "spool_inv contents st"
  shows "sp_ready st \<Longrightarrow> \<exists>xs. spool_ready contents st xs" "sp_writing st \<Longrightarrow> \<exists>xs. spool_writing contents st xs"
  using assms by (auto simp: spool_inv_def spool_idle_def spool_writing_def spool_ready_def)

lemma begin_inv:
  assumes fc: "flash_contract ops contents" "erase_atomic ops contents" and inv: "spool_inv contents st"
    and r: "relay_spool_begin ops st n crc nm tp = (r, st')" and z: "0 \<notin> set (deref nm)" "0 \<notin> set (deref tp)"
  shows "spool_inv contents st'"
proof (cases "r = ESP_OK")
  case True
  then have "nm = Ptr (deref nm)" "tp = Ptr (deref tp)"
    using r by (auto simp: relay_spool_begin_def split: if_splits)
  then have "relay_spool_begin ops st n crc (Ptr (deref nm)) (Ptr (deref tp)) = (ESP_OK, st')" using r True by metis
  from spool_begin_writing(1) [OF fc(1) this z] show ?thesis
    using spool_inv_partition [OF inv] by (auto simp: spool_inv_def)
next
  case False
  show ?thesis
  proof (cases "st' = st")
    case False
    with \<open>r \<noteq> ESP_OK\<close> r obtain n' f where "esp_partition_erase_range ops (pn_flash (deref (sp_partition st))) 0 n' = (r, f)"
      "st' = set_flash st f" "sp_partition st \<noteq> NULL"
      by (auto simp: relay_spool_begin_def Let_def split: if_splits prod.splits)
    then show ?thesis using \<open>r \<noteq> ESP_OK\<close> fc(2) set_flash_same [of st contents f] inv unfolding erase_atomic_def by metis
  qed (use inv in simp)
qed

lemma receive_inv:
  assumes fc: "flash_contract ops contents" and inv: "spool_inv contents st" and r: "receive_relay ops st d = (r, st')" and d: "length d \<le> SIZE_MAX"
  shows "spool_inv contents st'"
proof (cases "sp_writing st")
  case False
  then have "st' = relay_spool_abort st" using r by (simp add: receive_relay_def relay_spool_write_def)
  then show ?thesis using spool_abort_idle [OF inv] by (simp add: spool_inv_def)
next
  case True
  then obtain xs where w: "spool_writing contents st xs" using spool_inv_phases(2) [OF inv] by blast
  obtain r1 st1 where s: "relay_spool_write ops st (Ptr d) (length d) = (r1, st1)" by fastforce
  show ?thesis
    using spool_write_step [OF fc w d s] r s by (auto simp: receive_relay_def spool_inv_def split: if_splits)
qed

lemma finish_inv:
  assumes fc: "flash_contract ops contents" and inv: "spool_inv contents st"
    and r: "finish_relay_upload ops request_run st g = (response, r, st', g')"
  shows "spool_inv contents st'"
proof -
  obtain r1 st1 where s: "relay_spool_finish ops st = (r1, st1)" by fastforce
  have st': "st' = relay_spool_abort st1 \<or> st' = st1 \<and> r1 = ESP_OK"
    using r s by (auto simp: finish_relay_upload_def Let_def split: if_splits prod.splits)
  have "spool_inv contents st1" if ok: "r1 = ESP_OK"
  proof -
    have "sp_writing st" using s ok by (auto simp: relay_spool_finish_def split: if_splits)
    then obtain xs where "spool_writing contents st xs" using spool_inv_phases(2) [OF inv] by blast
    then show ?thesis using spool_finish_step(1) [OF fc _ s [unfolded ok]] by (auto simp: spool_inv_def)
  qed
  then show ?thesis using st' spool_finish_abort [OF fc inv s] by (auto simp: spool_inv_def)
qed

lemma source_read_cursor:
  assumes "source_read ops (Ptr st) n = (ok, bs, k, Ptr st')"
  shows "st' = st \<or> sp_ready st \<and> st' = st\<lparr>sp_cursor := sp_cursor st + k\<rparr> \<and> sp_cursor st + k \<le> spool_size st"
  using assms by (auto simp: source_read_def Let_def split: if_splits prod.splits)

lemma spool_step_inv:
  assumes fc: "flash_contract ops contents" "erase_atomic ops contents" and "spool_step ops st st'" "spool_inv contents st"
  shows "spool_inv contents st'"
  using assms(3)
proof (cases rule: spool_step.cases)
  case (read n ok bs k)
  then show ?thesis using source_read_cursor [OF read] assms(4) spool_inv_phases(1) [OF assms(4)] spool_ready_cursor
    by (metis spool_inv_def)
next
  case (rewind ok)
  then show ?thesis using assms(4) spool_inv_phases(1) [OF assms(4)] spool_ready_cursor [of contents st _ 0]
    by (auto simp: source_rewind_def spool_inv_def split: if_splits)
next
  case timeout
  then show ?thesis using spool_abort_idle [OF assms(4)] by (simp add: spool_inv_def)
qed (use fc assms(4) in \<open>blast intro: begin_inv receive_inv finish_inv\<close>)+


lemma receive_all_writing:
  assumes "flash_contract ops contents" "\<forall>d\<in>set ds. length d \<le> SIZE_MAX"
  shows "spool_writing contents st xs \<Longrightarrow> receive_all ops st ds = (ESP_OK, st') \<Longrightarrow>
    spool_writing contents st' (xs @ concat ds) \<and> sp_header st' = sp_header st"
  using assms(2)
proof (induction ds arbitrary: st xs)
  case (Cons d ds)
  then obtain st1 where s: "relay_spool_write ops st (Ptr d) (length d) = (ESP_OK, st1)" "receive_all ops st1 ds = (ESP_OK, st')"
    by (auto simp: receive_relay_def split: prod.splits if_splits)
  have d: "length d \<le> SIZE_MAX" using Cons.prems(3) by simp
  have "spool_writing contents st1 (xs @ d) \<and> sp_header st1 = sp_header st" by (rule spool_write_step(1) [OF assms(1) Cons.prems(1) d s(1)]) simp
  then show ?case using Cons.IH [OF _ s(2), of "xs @ d"] Cons.prems(3) by simp
qed simp

lemma spool_ready_pending:
  assumes "flash_contract ops contents" "spool_ready contents st xs" "sp_cursor st = 0"
  shows "spool_pending ops contents (Ptr st) xs"
  using assms valid_header_room [of st "sp_header st" contents] by (auto simp: spool_pending_def spool_ready_def)

text \<open>
  C33. A file survives the spool and a reboot: when an upload was begun, its bytes arrived in any
  division into chunks with every call succeeding, and it was finished, then the chunks amount to
  exactly the announced size and checksum, and both the running device and one that boots again
  from the same flash offer the file under its name, as a source that fills a buffer with exactly
  the bytes received.
\<close>

theorem spool_roundtrip:
  assumes fc: "flash_contract ops contents" and part: "partition_ok contents p" "sp_partition st = Ptr p"
    and names: "0 \<notin> set nm" "0 \<notin> set tp" and ds: "\<forall>d\<in>set ds. length d \<le> SIZE_MAX"
    and calls: "relay_spool_begin ops st size_bytes crc (Ptr nm) (Ptr tp) = (ESP_OK, st1)"
      "receive_all ops st1 ds = (ESP_OK, st2)" "relay_spool_finish ops st2 = (ESP_OK, st3)"
    and ws: "length ws = size_bytes"
  shows "length (concat ds) = size_bytes \<and> crc32 (concat ds) = crc \<and>
    (\<exists>st4. relay_spool_init ops (sp_partition st3) = (ESP_OK, st4) \<and>
      (\<forall>st' \<in> {st3, st4}. \<exists>file s'. relay_spool_outgoing_file ops st' = (ESP_OK, Ptr file) \<and>
        of_file_name file = Ptr nm \<and> of_file_type file = Ptr tp \<and> src_size_bytes (of_source file) = size_bytes \<and>
        fill_workspace (deref (src_read (of_source file))) (src_context (of_source file)) ws 0 size_bytes = (STREAM_OK, s', concat ds)))"
proof -
  note bw = spool_begin_writing [OF fc calls(1) names]
  have w1: "spool_writing contents st1 []" "sp_header st1 = new_header size_bytes crc nm tp" "spool_size st1 = size_bytes"
    using bw part by auto
  have w2: "spool_writing contents st2 (concat ds)" "sp_header st2 = sp_header st1"
    using receive_all_writing [OF fc ds w1(1) calls(2)] by auto
  note fin = spool_finish_step [OF fc w2(1) calls(3)]
  define h where "h = sp_header st3"
  have h: "h = (new_header size_bytes crc nm tp)\<lparr>sh_header_crc32 := header_crc32 (sp_header st2)\<rparr>"
    using fin(4) w2(2) w1(2) by (simp add: h_def)
  have wfh: "wf_header h" using w2(1) fin(4) by (simp add: spool_writing_def wf_header_def h_def)
  have sz: "unat (sh_size_bytes h) = size_bytes" using w1(2,3) h by simp
  have p3: "sp_partition st3 \<noteq> NULL" "partition_ok contents (deref (sp_partition st3))" "valid_header st3 h"
    "length (concat ds) = size_bytes" "take size_bytes (drop 4096 (flash_data contents st3)) = concat ds" "sh_payload_crc32 h = crc32 (concat ds)"
    using fin(1) sz by (auto simp: spool_ready_def h_def)
  have crc: "crc32 (concat ds) = crc" using p3(6) h by (simp add: new_header_def)
  define p' where "p' = deref (sp_partition st3)"
  have sp3: "sp_partition st3 = Ptr p'" using p3(1) by (simp add: p'_def)
  have hb: "header_of_bytes (take 216 (contents (pn_flash p'))) = h"
    using fin(3) header_roundtrip [OF wfh] by (simp add: p'_def h_def)
  have v: "valid_header (spool_state_zero\<lparr>sp_partition := Ptr p'\<rparr>) h"
    using p3(1,3) valid_header_cong [of st3 "spool_state_zero\<lparr>sp_partition := Ptr p'\<rparr>" h] by (simp add: p'_def)
  have per: "persisted contents p'" using p3(5,6) sz by (simp add: persisted_def hb) (simp add: p'_def)
  have "4096 < pn_size p'" using valid_header_room [OF p3(3,1,2)] p3(2) by (simp add: partition_ok_def p'_def)
  moreover have p': "partition_ok contents p'" "take size_bytes (drop 4096 (contents (pn_flash p'))) = concat ds"
    using p3 by (simp_all add: p'_def)
  ultimately obtain st4 where st4: "relay_spool_init ops (Ptr p') = (ESP_OK, st4)"
    "sp_cursor st4 = 0" "sp_header st4 = h" "spool_ready contents st4 (concat ds)"
    using spool_init_step [OF fc _ per] v sz unfolding hb Let_def by fastforce
  have serve: "\<exists>file s'. relay_spool_outgoing_file ops st' = (ESP_OK, Ptr file) \<and> of_file_name file = Ptr nm \<and>
      of_file_type file = Ptr tp \<and> src_size_bytes (of_source file) = size_bytes \<and>
      fill_workspace (deref (src_read (of_source file))) (src_context (of_source file)) ws 0 size_bytes = (STREAM_OK, s', concat ds)"
    if st': "spool_ready contents st' (concat ds)" "sp_cursor st' = 0" "sp_header st' = h" for st'
  proof -
    have nm: "takeWhile (\<lambda>c. c \<noteq> 0) (sh_file_name h) = nm" "takeWhile (\<lambda>c. c \<noteq> 0) (sh_file_type h) = tp"
      using names by (auto simp: h new_header_def store_def takeWhile_tail takeWhile_append)
    obtain s' ws' where "fill_workspace (source_read ops) (Ptr st') ws 0 size_bytes = (STREAM_OK, s', ws')" "length ws' = length ws"
      "take size_bytes ws' = take size_bytes (concat ds)"
      using spool.fill_workspace_delivers [OF spool_ready_pending [OF fc st'(1,2)], of 0 size_bytes ws] p3(4) ws by auto
    then show ?thesis
      using st' nm sz ws p3(4) by (simp add: relay_spool_outgoing_file_def relay_spool_is_ready_def spool_ready_def)
  qed
  show ?thesis
    using p3(4) crc st4 sp3 serve [OF fin(1,2)] serve [OF st4(4,2,3)] by (auto simp: h_def)
qed

text \<open>
  The atomicity assumption is needed: when an erase fails halfway, \<open>relay_spool_begin\<close> returns the error
  but keeps the previous header and stays ready over whatever the erase left behind.
\<close>

lemma begin_failed_erase_stays_ready:
  assumes "relay_spool_is_ready st" "size_bytes \<le> relay_spool_capacity st" "0 < size_bytes" "nm \<noteq> []" "tp \<noteq> []"
    "length nm \<le> RELAY_SPOOL_FILE_NAME_MAX" "length tp \<le> RELAY_SPOOL_FILE_TYPE_MAX"
    "esp_partition_erase_range ops (pn_flash (deref (sp_partition st))) 0 (sector_ceil (RELAY_SPOOL_DATA_OFFSET + size_bytes)) = (e, f)"
    "e \<noteq> ESP_OK"
  shows "\<exists>st'. relay_spool_begin ops st size_bytes crc (Ptr nm) (Ptr tp) = (e, st') \<and> relay_spool_is_ready st' \<and>
    sp_header st' = sp_header st \<and> pn_flash (deref (sp_partition st')) = f"
  using assms by (auto simp: relay_spool_begin_def relay_spool_is_ready_def relay_spool_capacity_def Let_def split: if_splits)

section \<open>A concrete flash\<close>

text \<open>The driver over a list of bytes, refusing operations that leave it.\<close>

definition list_flash :: "bytes partition_ops" where
  "list_flash = \<lparr>
     esp_partition_read = (\<lambda>f off n. if off + n \<le> length f then (ESP_OK, take n (drop off f)) else (ESP_ERR_INVALID_SIZE, [])),
     esp_partition_erase_range = (\<lambda>f off n. if off + n \<le> length f then (ESP_OK, store f off (replicate n 0xff)) else (ESP_ERR_INVALID_SIZE, f)),
     esp_partition_write = (\<lambda>f off d. if off + length d \<le> length f
        then (ESP_OK, store f off (map2 (AND) (take (length d) (drop off f)) d)) else (ESP_ERR_INVALID_SIZE, f))\<rparr>"

lemma list_flash_contract: "flash_contract list_flash (\<lambda>f. f)" "erase_atomic list_flash (\<lambda>f. f)"
  by (auto simp: flash_contract_def erase_atomic_def list_flash_def split: if_splits)


text \<open>Every write inside the list flash succeeds.\<close>

lemma list_flash_write:
  "spool_writing (\<lambda>f. f) st xs \<Longrightarrow> d \<noteq> [] \<Longrightarrow> length xs + length d \<le> spool_size st \<Longrightarrow>
     \<exists>st'. receive_relay list_flash st d = (ESP_OK, st')"
  using valid_header_room [of st "(sp_header st)\<lparr>sh_header_crc32 := header_crc32 (sp_header st)\<rparr>" "\<lambda>f. f"] unat_bound [of "sh_size_bytes (sp_header st)"]
  by (auto simp: spool_writing_def receive_relay_def relay_spool_write_def list_flash_def spool_consts Let_def SIZE_MAX_def)

lemma list_flash_finish:
  assumes "spool_writing (\<lambda>f. f) st xs" "length xs = spool_size st" "crc32 xs = sh_payload_crc32 (sp_header st)"
  shows "\<exists>st'. relay_spool_finish list_flash st = (ESP_OK, st')"
proof -
  have "length (header_to_bytes ((sp_header st)\<lparr>sh_header_crc32 := c\<rparr>)) = 216" for c
    using assms(1) by (intro length_header_to_bytes) (simp add: spool_writing_def wf_header_def)
  moreover have "216 \<le> length (pn_flash (deref (sp_partition st)))"
    using assms(1) valid_header_room [of st "(sp_header st)\<lparr>sh_header_crc32 := header_crc32 (sp_header st)\<rparr>" "\<lambda>f. f"]
    by (auto simp: spool_writing_def)
  ultimately show ?thesis
    using assms by (auto simp: spool_writing_def relay_spool_finish_def list_flash_def Let_def crc32_def)
qed

theorem spool_roundtrip_witness:
  "\<exists>st1 st2 st3 st4 (file :: (bytes spool_state ptr, unit ptr) outgoing_file) s'. let p = \<lparr>pn_size = 8192, pn_flash = replicate 8192 0\<rparr>; st = spool_state_zero\<lparr>sp_partition := Ptr p\<rparr> in
     relay_spool_begin list_flash st 2 (crc32 [5, 6]) (Ptr [97]) (Ptr [98]) = (ESP_OK, st1) \<and>
     receive_all list_flash st1 [[5], [6]] = (ESP_OK, st2) \<and> relay_spool_finish list_flash st2 = (ESP_OK, st3) \<and>
     relay_spool_init list_flash (sp_partition st3) = (ESP_OK, st4) \<and>
     relay_spool_outgoing_file list_flash st4 = (ESP_OK, Ptr file) \<and> of_file_name file = Ptr [97] \<and>
     fill_workspace (deref (src_read (of_source file))) (src_context (of_source file)) [0, 0] 0 2 = (STREAM_OK, s', [5, 6])"
proof -
  define p :: "bytes partition" where "p = \<lparr>pn_size = 8192, pn_flash = replicate 8192 0\<rparr>"
  define st :: "bytes spool_state" where "st = spool_state_zero\<lparr>sp_partition := Ptr p\<rparr>"
  have p: "partition_ok (\<lambda>f. f) p" "sp_partition st = Ptr p" by (simp_all add: partition_ok_def p_def st_def)
  have sc: "sector_ceil (4096 + 2) = 8192" by (simp add: sector_ceil_def spool_consts)
  obtain st1 where b: "relay_spool_begin list_flash st 2 (crc32 [5, 6]) (Ptr [97]) (Ptr [98]) = (ESP_OK, st1)"
  proof
    show "relay_spool_begin list_flash st 2 (crc32 [5, 6]) (Ptr [97]) (Ptr [98]) =
        (ESP_OK, snd (relay_spool_begin list_flash st 2 (crc32 [5, 6]) (Ptr [97]) (Ptr [98])))"
      using sc by (simp add: relay_spool_begin_def relay_spool_capacity_def spool_consts list_flash_def p_def st_def spool_state_zero_def Let_def)
  qed
  have w1: "spool_writing (\<lambda>f. f) st1 []" "sp_header st1 = new_header 2 (crc32 [5, 6]) [97] [98]" "spool_size st1 = 2"
    using spool_begin_writing [OF list_flash_contract(1) b] p by auto
  obtain sa where a: "receive_relay list_flash st1 [5] = (ESP_OK, sa)" using list_flash_write [OF w1(1), of "[5]"] w1(3) by auto
  then have r1: "receive_all list_flash st1 [[5]] = (ESP_OK, sa)" by simp
  have wa: "spool_writing (\<lambda>f. f) sa [5]" "sp_header sa = sp_header st1"
    using receive_all_writing [OF list_flash_contract(1) _ w1(1) r1] by (auto simp: SIZE_MAX_def)
  then obtain st2 where c: "receive_relay list_flash sa [6] = (ESP_OK, st2)" using list_flash_write [OF wa(1), of "[6]"] w1(3) by auto
  have r2: "receive_all list_flash st1 [[5], [6]] = (ESP_OK, st2)" using a c by simp
  have w2: "spool_writing (\<lambda>f. f) st2 [5, 6]" "sp_header st2 = sp_header st1"
    using receive_all_writing [OF list_flash_contract(1) _ w1(1) r2] by (auto simp: SIZE_MAX_def)
  have "sh_payload_crc32 (new_header 2 c [97] [98]) = c" for c by (simp add: new_header_def)
  then have "crc32 [5, 6] = sh_payload_crc32 (sp_header st2)" unfolding w2(2) w1(2) by (rule sym)
  moreover have "length [5, 6 :: byte] = spool_size st2" unfolding w2(2) w1(3) by simp
  ultimately obtain st3 where f: "relay_spool_finish list_flash st2 = (ESP_OK, st3)"
    using list_flash_finish [OF w2(1)] by blast
  have names: "0 \<notin> set [97 :: byte]" "0 \<notin> set [98 :: byte]" "\<forall>d\<in>set [[5], [6 :: byte]]. length d \<le> SIZE_MAX" "length [0, 0 :: byte] = 2"
    by (simp_all add: SIZE_MAX_def)
  obtain st4 s' and "file" :: "(bytes spool_state ptr, unit ptr) outgoing_file" where "relay_spool_init list_flash (sp_partition st3) = (ESP_OK, st4)"
    "relay_spool_outgoing_file list_flash st4 = (ESP_OK, Ptr file)" "of_file_name file = Ptr [97]"
    "fill_workspace (deref (src_read (of_source file))) (src_context (of_source file)) [0, 0] 0 2 = (STREAM_OK, s', [5, 6])"
    using spool_roundtrip [OF list_flash_contract(1) p names(1-3) b r2 f names(4)] by auto
  then show ?thesis using b r2 f unfolding Let_def p_def [symmetric] st_def [symmetric] by blast
qed

end
