(* ===== verification/Relay_Stream.thy ===== *)
theory Relay_Stream
  imports Upload_Stream Relay_Spool
begin

text \<open>
  The live stream of the USB relay, \<^verbatim>\<open>src/main/relay_stream.c\<close>: the serial task pushes numbered,
  checksummed chunks of a host-prepared payload into a FreeRTOS stream buffer, the sender task
  reads them as the prepared source of an upload. The stream buffer is a parameter: a record of
  the operations the code calls, with \<open>buffer_contract\<close> as its documented behaviour (bytes come out
  in the order in which they went in; a receive or send that times out moves fewer bytes).
  The two tasks meet only in the critical sections and in the buffer, so the functions are given in
  the pieces between these points, and the interleavings are the runs of a step relation.
\<close>

section \<open>Types\<close>

definition RELAY_STREAM_CHUNK_MAX :: nat where "RELAY_STREAM_CHUNK_MAX = 4096"

record 'b buffer_ops =
  xStreamBufferReset :: "'b \<Rightarrow> 'b"
  xStreamBufferSend :: "'b \<Rightarrow> bytes \<Rightarrow> nat \<times> 'b"
  xStreamBufferReceive :: "'b \<Rightarrow> nat \<Rightarrow> bytes \<times> 'b"

text \<open>
  The state. The notification callback sends a text to the host and reports success;
  \<open>rs_line\<close> is the sequence of texts handed to it.
\<close>

record 'b relay_stream_state =
  rs_buffer :: "'b ptr"
  rs_notify :: "(bytes \<Rightarrow> esp_err) ptr"
  rs_file_name :: bytes
  rs_file_type :: bytes
  rs_file_bytes :: nat
  rs_payload_bytes :: nat
  rs_archive_bytes :: nat
  rs_input_bytes :: nat
  rs_output_bytes :: nat
  rs_dvzip_blocks :: nat
  rs_file_crc32 :: u32
  rs_payload_crc32 :: u32
  rs_input_crc32 :: u32
  rs_next_sequence :: u32
  rs_armed :: bool
  rs_go_sent :: bool
  rs_failed :: bool
  rs_line :: "bytes list"

section \<open>The source read by the sender\<close>

definition call_notify :: "'b relay_stream_state \<Rightarrow> bytes \<Rightarrow> esp_err \<times> 'b relay_stream_state" where
  "call_notify s v = (deref (rs_notify s) v, s\<lparr>rs_line := rs_line s @ [v]\<rparr>)"

definition notify_text :: "'b relay_stream_state \<Rightarrow> bytes \<Rightarrow> 'b relay_stream_state" where
  "notify_text s v = (if rs_notify s \<noteq> NULL then snd (call_notify s v) else s)"

definition go_text :: "nat \<Rightarrow> bytes" where
  "go_text payload_bytes = ascii ''ESPDROP-STREAM-GO payload_bytes='' @ digits 10 payload_bytes @ ascii '' chunk='' @
     digits 10 RELAY_STREAM_CHUNK_MAX @ [10]"

text \<open>
  Up to the blocking receive: the first read asks the host to start. The result is the value of an
  early return, or the number of bytes to wait for.
\<close>

definition source_read_enter :: "'b relay_stream_state \<Rightarrow> nat \<Rightarrow> ((bool \<times> bytes \<times> nat) + nat) \<times> 'b relay_stream_state" where
  "source_read_enter stream capacity =
     (if capacity = 0 then (Inl (False, [], 0), stream)
      else
        let send_go = (rs_armed stream \<and> \<not> rs_failed stream \<and> \<not> rs_go_sent stream);
            stream1 = (if send_go then stream\<lparr>rs_go_sent := True\<rparr> else stream);
            readable = (rs_armed stream1 \<and> \<not> rs_failed stream1);
            remaining = (if readable then rs_payload_bytes stream1 - rs_output_bytes stream1 else 0) in
        if \<not> readable then (Inl (False, [], 0), stream1)
        else
          let response = go_text (rs_payload_bytes stream1);
              (sent, stream2) = (if send_go then
                                   if length response \<ge> 96 then (False, stream1)
                                   else (case call_notify stream1 response of (r, s) \<Rightarrow> (r = ESP_OK, s))
                                 else (True, stream1)) in
          if \<not> sent then (Inl (False, [], 0), stream2\<lparr>rs_failed := True\<rparr>)
          else if remaining = 0 then (Inl (True, [], 0), stream2)
          else (Inr (if remaining < capacity then remaining else capacity), stream2))"

text \<open>From the blocking receive to the return.\<close>

definition source_read_receive :: "'b buffer_ops \<Rightarrow> 'b relay_stream_state \<Rightarrow> nat \<Rightarrow> (bool \<times> bytes \<times> nat) \<times> 'b relay_stream_state" where
  "source_read_receive ops stream request =
     (case xStreamBufferReceive ops (deref (rs_buffer stream)) request of (output, buffer) \<Rightarrow>
        let stream1 = stream\<lparr>rs_buffer := Ptr buffer\<rparr>; received = length output in
        if received = 0
        then ((False, [], 0), notify_text (stream1\<lparr>rs_failed := True\<rparr>) (ascii ''ESPDROP-STREAM-SOURCE-TIMEOUT'' @ [10]))
        else
          let stream2 = stream1\<lparr>rs_output_bytes := rs_output_bytes stream1 + received\<rparr>;
              complete = (rs_output_bytes stream2 = rs_payload_bytes stream2) in
          ((True, output, received),
           if complete then notify_text stream2 (ascii ''ESPDROP-STREAM-SOURCE-COMPLETE'' @ [10]) else stream2))"

definition prepared_source_read :: "'b buffer_ops \<Rightarrow> 'b relay_stream_state ptr source_read" where
  "prepared_source_read ops context capacity =
     (if context = NULL then (False, [], 0, context)
      else
        (case source_read_enter (deref context) capacity of
           (Inl (ok, output, n), stream) \<Rightarrow> (ok, output, n, Ptr stream)
         | (Inr request, stream) \<Rightarrow>
             (case source_read_receive ops stream request of ((ok, output, n), stream1) \<Rightarrow> (ok, output, n, Ptr stream1))))"

section \<open>The operations of the serial task\<close>

text \<open>\<open>created\<close> is the result of \<^verbatim>\<open>xStreamBufferCreate\<close>, used only when there is no buffer yet.\<close>

definition relay_stream_init :: "'b relay_stream_state \<Rightarrow> 'b ptr \<Rightarrow> (bytes \<Rightarrow> esp_err) ptr \<Rightarrow> esp_err \<times> 'b relay_stream_state" where
  "relay_stream_init s created notify =
     (if notify = NULL then (ESP_ERR_INVALID_ARG, s)
      else
        let s1 = (if rs_buffer s = NULL then s\<lparr>rs_buffer := created\<rparr> else s) in
        if rs_buffer s1 = NULL then (ESP_ERR_NO_MEM, s1) else (ESP_OK, s1\<lparr>rs_notify := notify\<rparr>))"

definition relay_stream_begin ::
  "'b buffer_ops \<Rightarrow> 'b relay_stream_state \<Rightarrow> nat \<Rightarrow> u32 \<Rightarrow> nat \<Rightarrow> u32 \<Rightarrow> nat \<Rightarrow> nat \<Rightarrow> bytes ptr \<Rightarrow> bytes ptr \<Rightarrow>
     esp_err \<times> 'b relay_stream_state \<times> ('s ptr, 'b relay_stream_state ptr) outgoing_file ptr" where
  "relay_stream_begin ops s file_bytes file_crc32 payload_bytes payload_crc32 archive_bytes dvzip_blocks file_name file_type =
     (if rs_buffer s = NULL \<or> rs_notify s = NULL \<or> file_bytes = 0 \<or> payload_bytes = 0 \<or> archive_bytes = 0 \<or> dvzip_blocks = 0 \<or>
         file_name = NULL \<or> file_type = NULL \<or> deref file_name = [] \<or> deref file_type = [] \<or>
         length (deref file_name) > RELAY_SPOOL_FILE_NAME_MAX \<or> length (deref file_type) > RELAY_SPOOL_FILE_TYPE_MAX
      then (ESP_ERR_INVALID_ARG, s, NULL)
      else
        let s1 = s\<lparr>rs_buffer := Ptr (xStreamBufferReset ops (deref (rs_buffer s))),
                   rs_file_name := deref file_name, rs_file_type := deref file_type, rs_file_bytes := file_bytes,
                   rs_payload_bytes := payload_bytes, rs_archive_bytes := archive_bytes, rs_input_bytes := 0, rs_output_bytes := 0,
                   rs_dvzip_blocks := dvzip_blocks, rs_file_crc32 := file_crc32, rs_payload_crc32 := payload_crc32,
                   rs_input_crc32 := 0xffffffff, rs_next_sequence := 0, rs_go_sent := False, rs_failed := False, rs_armed := True\<rparr> in
        (ESP_OK, s1, Ptr \<lparr>of_file_name = Ptr (rs_file_name s1), of_file_type = Ptr (rs_file_type s1), of_mtime = 0,
           of_source = \<lparr>src_context = NULL, src_size_bytes = rs_file_bytes s1, src_read = NULL, src_rewind = NULL\<rparr>,
           of_prepared_payload = \<lparr>
             pp_source = \<lparr>src_context = Ptr s1, src_size_bytes = rs_payload_bytes s1, src_read = Ptr (prepared_source_read ops), src_rewind = NULL\<rparr>,
             pp_archive_bytes = rs_archive_bytes s1, pp_dvzip_blocks = rs_dvzip_blocks s1, pp_file_crc32 = rs_file_crc32 s1,
             pp_stored_blocks = True\<rparr>\<rparr>))"

definition relay_stream_validate_chunk :: "'b relay_stream_state \<Rightarrow> u32 \<Rightarrow> nat \<Rightarrow> esp_err" where
  "relay_stream_validate_chunk s sequence data_bytes =
     (if data_bytes = 0 \<or> data_bytes > RELAY_STREAM_CHUNK_MAX then ESP_ERR_INVALID_SIZE
      else if rs_armed s \<and> rs_go_sent s \<and> \<not> rs_failed s \<and> sequence = rs_next_sequence s \<and>
              rs_input_bytes s \<le> rs_payload_bytes s \<and> data_bytes \<le> rs_payload_bytes s - rs_input_bytes s
      then ESP_OK else ESP_ERR_INVALID_STATE)"

text \<open>The checks of a chunk before it is handed to the buffer; the checksum after it is returned.\<close>

definition push_check :: "'b relay_stream_state \<Rightarrow> u32 \<Rightarrow> bytes \<Rightarrow> u32 \<Rightarrow> (esp_err + u32) \<times> 'b relay_stream_state" where
  "push_check s sequence data expected_crc32 =
     (let r = relay_stream_validate_chunk s sequence (length data) in
      if r \<noteq> ESP_OK then (Inl r, s)
      else if \<not> (rs_armed s \<and> rs_go_sent s \<and> \<not> rs_failed s \<and> sequence = rs_next_sequence s) then (Inl ESP_ERR_INVALID_STATE, s)
      else
        let chunk_crc32 = crc32_update 0xffffffff data XOR 0xffffffff in
        if chunk_crc32 \<noteq> expected_crc32 then (Inl ESP_ERR_INVALID_CRC, s)
        else
          let next_crc = crc32_update (rs_input_crc32 s) data;
              final = (rs_input_bytes s + length data = rs_payload_bytes s);
              total_crc_valid = (\<not> final \<or> next_crc XOR 0xffffffff = rs_payload_crc32 s) in
          if \<not> total_crc_valid then (Inl ESP_ERR_INVALID_CRC, s\<lparr>rs_failed := True\<rparr>) else (Inr next_crc, s))"

text \<open>The blocking send, and the bookkeeping after it.\<close>

definition push_send :: "'b buffer_ops \<Rightarrow> 'b relay_stream_state \<Rightarrow> bytes \<Rightarrow> nat \<times> 'b relay_stream_state" where
  "push_send ops s data =
     (case xStreamBufferSend ops (deref (rs_buffer s)) data of (sent, buffer) \<Rightarrow> (sent, s\<lparr>rs_buffer := Ptr buffer\<rparr>))"

definition push_commit :: "'b relay_stream_state \<Rightarrow> nat \<Rightarrow> bytes \<Rightarrow> u32 \<Rightarrow> esp_err \<times> 'b relay_stream_state" where
  "push_commit s sent data next_crc =
     (if sent \<noteq> length data then (ESP_ERR_TIMEOUT, s\<lparr>rs_failed := True\<rparr>)
      else (ESP_OK, s\<lparr>rs_input_crc32 := next_crc, rs_input_bytes := rs_input_bytes s + length data,
                      rs_next_sequence := rs_next_sequence s + 1\<rparr>))"

definition relay_stream_push_chunk ::
  "'b buffer_ops \<Rightarrow> 'b relay_stream_state \<Rightarrow> u32 \<Rightarrow> bytes ptr \<Rightarrow> u32 \<Rightarrow> esp_err \<times> 'b relay_stream_state" where
  "relay_stream_push_chunk ops s sequence data expected_crc32 =
     (if data = NULL then (ESP_ERR_INVALID_ARG, s)
      else
        (case push_check s sequence (deref data) expected_crc32 of
           (Inl r, s1) \<Rightarrow> (r, s1)
         | (Inr next_crc, s1) \<Rightarrow> (case push_send ops s1 (deref data) of (sent, s2) \<Rightarrow> push_commit s2 sent (deref data) next_crc)))"

definition relay_stream_abort :: "'b relay_stream_state \<Rightarrow> 'b relay_stream_state" where
  "relay_stream_abort s = s\<lparr>rs_armed := False, rs_failed := True\<rparr>"

definition relay_stream_is_armed :: "'b relay_stream_state \<Rightarrow> bool" where
  "relay_stream_is_armed s \<longleftrightarrow> rs_armed s \<and> \<not> rs_failed s"

section \<open>Interleavings of the serial task and the sender task\<close>

definition buffer_contract :: "'b buffer_ops \<Rightarrow> ('b \<Rightarrow> bytes) \<Rightarrow> bool" where
  "buffer_contract ops buffered \<longleftrightarrow>
     (\<forall>b. buffered (xStreamBufferReset ops b) = []) \<and>
     (\<forall>b d k b'. xStreamBufferSend ops b d = (k, b') \<longrightarrow> k \<le> length d \<and> buffered b' = buffered b @ take k d) \<and>
     (\<forall>b n xs b'. xStreamBufferReceive ops b n = (xs, b') \<longrightarrow> length xs \<le> n \<and> buffered b = xs @ buffered b')"

text \<open>Where the serial task is inside a push.\<close>

datatype producer = Idle | Checked bytes u32 | Sent nat bytes u32

text \<open>
  A configuration: the shared state, the position of the serial task, the request the sender
  waits for, and two records of what happened: the bytes that entered the buffer since the
  stream was armed, and the bytes returned to the sender.
\<close>

record 'b relay_config =
  rc_stream :: "'b relay_stream_state"
  rc_producer :: producer
  rc_waiting :: "nat option"
  rc_pushed :: bytes
  rc_delivered :: bytes

text \<open>
  A stream is armed while neither task is inside an operation: the registry refuses to clear a
  file that a sender holds.
\<close>

inductive relay_step :: "'b buffer_ops \<Rightarrow> 'b relay_config \<Rightarrow> 'b relay_config \<Rightarrow> bool" for ops where
  arm: "rc_producer c = Idle \<Longrightarrow> rc_waiting c = None \<Longrightarrow>
    relay_stream_begin ops (rc_stream c) fb fc pb pc ab blocks nm tp = (ESP_OK, s', Ptr (desc :: (unit ptr, 'b relay_stream_state ptr) outgoing_file)) \<Longrightarrow>
    relay_step ops c (c\<lparr>rc_stream := s', rc_pushed := [], rc_delivered := []\<rparr>)"
| refused: "rc_producer c = Idle \<Longrightarrow> push_check (rc_stream c) sequence d crc = (Inl r, s') \<Longrightarrow>
    relay_step ops c (c\<lparr>rc_stream := s'\<rparr>)"
| checked: "rc_producer c = Idle \<Longrightarrow> push_check (rc_stream c) sequence d crc = (Inr next_crc, s') \<Longrightarrow>
    relay_step ops c (c\<lparr>rc_stream := s', rc_producer := Checked d next_crc\<rparr>)"
| sent: "rc_producer c = Checked d next_crc \<Longrightarrow> push_send ops (rc_stream c) d = (k, s') \<Longrightarrow>
    relay_step ops c (c\<lparr>rc_stream := s', rc_producer := Sent k d next_crc, rc_pushed := rc_pushed c @ take k d\<rparr>)"
| commit: "rc_producer c = Sent k d next_crc \<Longrightarrow> push_commit (rc_stream c) k d next_crc = (r, s') \<Longrightarrow>
    relay_step ops c (c\<lparr>rc_stream := s', rc_producer := Idle\<rparr>)"
| abort: "rc_producer c = Idle \<Longrightarrow> relay_step ops c (c\<lparr>rc_stream := relay_stream_abort (rc_stream c)\<rparr>)"
| enter: "rc_waiting c = None \<Longrightarrow> source_read_enter (rc_stream c) capacity = (Inr n, s') \<Longrightarrow>
    relay_step ops c (c\<lparr>rc_stream := s', rc_waiting := Some n\<rparr>)"
| early: "rc_waiting c = None \<Longrightarrow> source_read_enter (rc_stream c) capacity = (Inl r, s') \<Longrightarrow>
    relay_step ops c (c\<lparr>rc_stream := s'\<rparr>)"
| receive: "rc_waiting c = Some n \<Longrightarrow> source_read_receive ops (rc_stream c) n = ((ok, output, k), s') \<Longrightarrow>
    relay_step ops c (c\<lparr>rc_stream := s', rc_waiting := None, rc_delivered := rc_delivered c @ output\<rparr>)"

text \<open>Notifications change nothing but the line.\<close>

lemma notify_text_simps [simp]:
  "rs_buffer (notify_text s v) = rs_buffer s" "rs_payload_bytes (notify_text s v) = rs_payload_bytes s"
  "rs_input_bytes (notify_text s v) = rs_input_bytes s" "rs_output_bytes (notify_text s v) = rs_output_bytes s"
  "rs_payload_crc32 (notify_text s v) = rs_payload_crc32 s" "rs_input_crc32 (notify_text s v) = rs_input_crc32 s"
  "rs_go_sent (notify_text s v) = rs_go_sent s" "rs_failed (notify_text s v) = rs_failed s"
  "rs_armed (notify_text s v) = rs_armed s"
  by (simp_all add: notify_text_def call_notify_def)

text \<open>What a chunk that passed its checks is known to be, after the bytes \<open>xs\<close>.\<close>

definition chunk_fits :: "'b relay_stream_state \<Rightarrow> bytes \<Rightarrow> bytes \<Rightarrow> u32 \<Rightarrow> bool" where
  "chunk_fits s xs d next_crc \<longleftrightarrow> rs_go_sent s \<and> rs_input_bytes s = length xs \<and> next_crc = crc32_update 0xffffffff (xs @ d) \<and>
     length xs + length d \<le> rs_payload_bytes s \<and>
     (length xs + length d = rs_payload_bytes s \<longrightarrow> crc32 (xs @ d) = rs_payload_crc32 s)"

definition producer_inv :: "'b relay_stream_state \<Rightarrow> producer \<Rightarrow> bytes \<Rightarrow> bool" where
  "producer_inv s p pushed = (case p of
     Idle \<Rightarrow> rs_armed s \<and> \<not> rs_failed s \<longrightarrow> rs_input_bytes s = length pushed \<and> rs_input_crc32 s = crc32_update 0xffffffff pushed
   | Checked d next_crc \<Rightarrow> chunk_fits s pushed d next_crc
   | Sent k d next_crc \<Rightarrow> \<exists>xs. pushed = xs @ take k d \<and> chunk_fits s xs d next_crc)"

definition relay_inv :: "('b \<Rightarrow> bytes) \<Rightarrow> 'b relay_config \<Rightarrow> bool" where
  "relay_inv buffered c \<longleftrightarrow>
     (let s = rc_stream c; pushed = rc_pushed c in
      rs_buffer s \<noteq> NULL \<and> rc_delivered c @ buffered (deref (rs_buffer s)) = pushed \<and>
      rs_output_bytes s = length (rc_delivered c) \<and> length pushed \<le> rs_payload_bytes s \<and>
      (0 < rs_payload_bytes s \<and> length pushed = rs_payload_bytes s \<longrightarrow> crc32 pushed = rs_payload_crc32 s) \<and>
      (pushed \<noteq> [] \<longrightarrow> rs_go_sent s) \<and> producer_inv s (rc_producer c) pushed)"

lemma push_check_cases:
  "push_check s sequence d crc = (Inl r, s') \<Longrightarrow> s' = s \<or> s' = s\<lparr>rs_failed := True\<rparr>"
  "push_check s sequence d crc = (Inr next_crc, s') \<Longrightarrow> s' = s \<and> rs_armed s \<and> \<not> rs_failed s \<and> rs_go_sent s \<and>
     next_crc = crc32_update (rs_input_crc32 s) d \<and> rs_input_bytes s + length d \<le> rs_payload_bytes s \<and>
     (rs_input_bytes s + length d = rs_payload_bytes s \<longrightarrow> next_crc XOR 0xffffffff = rs_payload_crc32 s)"
  by (auto simp: push_check_def relay_stream_validate_chunk_def Let_def split: if_splits)

lemma enter_frame:
  assumes "source_read_enter s capacity = (r, s')"
  shows "rs_buffer s' = rs_buffer s" "rs_payload_bytes s' = rs_payload_bytes s" "rs_input_bytes s' = rs_input_bytes s"
    "rs_output_bytes s' = rs_output_bytes s" "rs_payload_crc32 s' = rs_payload_crc32 s" "rs_input_crc32 s' = rs_input_crc32 s"
    "rs_go_sent s \<Longrightarrow> rs_go_sent s'" "rs_failed s \<Longrightarrow> rs_failed s'" "rs_armed s' = rs_armed s"
  using assms by (auto simp: source_read_enter_def call_notify_def Let_def split: if_splits prod.splits)

lemma begin_frame:
  assumes "relay_stream_begin ops s fb fc pb pc ab blocks nm tp = (ESP_OK, s', desc)"
  shows "rs_buffer s' = Ptr (xStreamBufferReset ops (deref (rs_buffer s)))" "rs_payload_bytes s' = pb" "0 < pb"
    "rs_input_bytes s' = 0" "rs_output_bytes s' = 0" "rs_input_crc32 s' = 0xffffffff"
  using assms by (auto simp: relay_stream_begin_def Let_def split: if_splits)

lemma receive_frame:
  assumes "source_read_receive ops s n = ((ok, res, k), s')" "xStreamBufferReceive ops (deref (rs_buffer s)) n = (out, b')"
  shows "rs_buffer s' = Ptr b'" "rs_output_bytes s' = rs_output_bytes s + length out" "res = out"
    "rs_payload_bytes s' = rs_payload_bytes s" "rs_input_bytes s' = rs_input_bytes s"
    "rs_payload_crc32 s' = rs_payload_crc32 s" "rs_input_crc32 s' = rs_input_crc32 s"
    "rs_go_sent s' = rs_go_sent s" "rs_failed s \<Longrightarrow> rs_failed s'" "rs_armed s' = rs_armed s"
proof -
  define s1 where "s1 = s\<lparr>rs_buffer := Ptr b'\<rparr>"
  consider "out = []" "res = []" "\<exists>v. s' = notify_text (s1\<lparr>rs_failed := True\<rparr>) v"
    | "res = out" "\<exists>v. s' = notify_text (s1\<lparr>rs_output_bytes := rs_output_bytes s + length out\<rparr>) v"
    | "res = out" "s' = s1\<lparr>rs_output_bytes := rs_output_bytes s + length out\<rparr>"
    using assms by (auto simp: source_read_receive_def Let_def s1_def split: if_splits) blast+
  then have "rs_buffer s' = Ptr b' \<and> rs_output_bytes s' = rs_output_bytes s + length out \<and> res = out \<and>
    rs_payload_bytes s' = rs_payload_bytes s \<and> rs_input_bytes s' = rs_input_bytes s \<and>
    rs_payload_crc32 s' = rs_payload_crc32 s \<and> rs_input_crc32 s' = rs_input_crc32 s \<and>
    rs_go_sent s' = rs_go_sent s \<and> (rs_failed s \<longrightarrow> rs_failed s') \<and> rs_armed s' = rs_armed s"
    by cases (auto simp: s1_def)
  then show "rs_buffer s' = Ptr b'" "rs_output_bytes s' = rs_output_bytes s + length out" "res = out"
    "rs_payload_bytes s' = rs_payload_bytes s" "rs_input_bytes s' = rs_input_bytes s"
    "rs_payload_crc32 s' = rs_payload_crc32 s" "rs_input_crc32 s' = rs_input_crc32 s"
    "rs_go_sent s' = rs_go_sent s" "rs_failed s \<Longrightarrow> rs_failed s'" "rs_armed s' = rs_armed s"
    by blast+
qed

lemma producer_inv_frame:
  assumes "producer_inv s p xs" "rs_payload_bytes s' = rs_payload_bytes s" "rs_input_bytes s' = rs_input_bytes s"
    "rs_payload_crc32 s' = rs_payload_crc32 s" "rs_input_crc32 s' = rs_input_crc32 s"
    "rs_go_sent s \<Longrightarrow> rs_go_sent s'" "rs_failed s \<Longrightarrow> rs_failed s'" "rs_armed s' = rs_armed s"
  shows "producer_inv s' p xs"
  using assms by (cases p) (auto simp: producer_inv_def chunk_fits_def)

lemma relay_step_inv:
  assumes bc: "buffer_contract ops buffered" and "relay_step ops c c'" and inv: "relay_inv buffered c"
  shows "relay_inv buffered c'"
  using assms(2)
proof (cases rule: relay_step.cases)
  case (arm fb fc pb pc ab blocks nm tp s' desc)
  note fr = begin_frame [OF arm(4)]
  have "buffered (xStreamBufferReset ops b) = []" for b using bc by (simp add: buffer_contract_def)
  then show ?thesis using fr arm(1-3) by (simp add: relay_inv_def producer_inv_def Let_def crc32_update_def)
next
  case (refused sequence d crc r s')
  have "relay_inv buffered (c\<lparr>rc_stream := rc_stream c\<rparr>)" "relay_inv buffered (c\<lparr>rc_stream := (rc_stream c)\<lparr>rs_failed := True\<rparr>\<rparr>)"
    using inv refused(2) by (simp_all add: relay_inv_def Let_def producer_inv_def)
  then show ?thesis using push_check_cases(1) [OF refused(3)] unfolding refused(1) by blast
next
  case (checked sequence d crc next_crc s')
  note chk = push_check_cases(2) [OF checked(3)]
  then have "rs_input_bytes (rc_stream c) = length (rc_pushed c)" "rs_input_crc32 (rc_stream c) = crc32_update 0xffffffff (rc_pushed c)"
    using inv checked(2) by (simp_all add: relay_inv_def Let_def producer_inv_def)
  then have "chunk_fits (rc_stream c) (rc_pushed c) d next_crc"
    using chk by (auto simp: chunk_fits_def crc32_update_append crc32_def)
  then show ?thesis using inv chk unfolding checked(1) by (simp add: relay_inv_def Let_def producer_inv_def)
next
  case (sent d next_crc k s')
  then obtain b' where b': "xStreamBufferSend ops (deref (rs_buffer (rc_stream c))) d = (k, b')" "s' = (rc_stream c)\<lparr>rs_buffer := Ptr b'\<rparr>"
    by (auto simp: push_send_def split: prod.splits)
  have k: "k \<le> length d" "buffered b' = buffered (deref (rs_buffer (rc_stream c))) @ take k d"
    using bc b'(1) unfolding buffer_contract_def by blast+
  have fits: "chunk_fits (rc_stream c) (rc_pushed c) d next_crc" using inv sent(2) by (simp add: relay_inv_def Let_def producer_inv_def)
  have pr: "producer_inv s' (Sent k d next_crc) (rc_pushed c @ take k d)"
    using fits unfolding b'(2) by (auto simp: producer_inv_def chunk_fits_def)
  have len: "length (rc_pushed c @ take k d) \<le> rs_payload_bytes s'" "rs_go_sent s'"
    using fits k(1) by (simp_all add: b'(2) chunk_fits_def)
  have whole: "crc32 (rc_pushed c @ take k d) = rs_payload_crc32 s'" if "length (rc_pushed c @ take k d) = rs_payload_bytes s'"
    using that fits k(1) by (simp add: b'(2) chunk_fits_def)
  show ?thesis using inv pr len whole k(2) unfolding sent(1) by (simp add: relay_inv_def Let_def b'(2))
next
  case (commit k d next_crc r s')
  obtain xs where xs: "rc_pushed c = xs @ take k d" "chunk_fits (rc_stream c) xs d next_crc"
    using inv commit(2) by (auto simp: relay_inv_def Let_def producer_inv_def)
  show ?thesis
  proof (cases "k = length d")
    case True
    then have "s' = (rc_stream c)\<lparr>rs_input_crc32 := next_crc, rs_input_bytes := rs_input_bytes (rc_stream c) + length d,
        rs_next_sequence := rs_next_sequence (rc_stream c) + 1\<rparr>" using commit(3) by (simp add: push_commit_def)
    then show ?thesis using inv xs True unfolding commit(1) by (simp add: relay_inv_def Let_def producer_inv_def chunk_fits_def)
  next
    case False
    then have "s' = (rc_stream c)\<lparr>rs_failed := True\<rparr>" using commit(3) by (simp add: push_commit_def)
    then show ?thesis using inv unfolding commit(1) by (simp add: relay_inv_def Let_def producer_inv_def)
  qed
next
  case abort
  then show ?thesis using inv by (simp add: relay_inv_def Let_def producer_inv_def relay_stream_abort_def)
next
  case (enter capacity n s')
  note fr = enter_frame [OF enter(3)]
  show ?thesis using inv fr producer_inv_frame [of "rc_stream c" "rc_producer c" "rc_pushed c" s'] unfolding enter(1)
    by (auto simp: relay_inv_def Let_def)
next
  case (early capacity r s')
  note fr = enter_frame [OF early(3)]
  show ?thesis using inv fr producer_inv_frame [of "rc_stream c" "rc_producer c" "rc_pushed c" s'] unfolding early(1)
    by (auto simp: relay_inv_def Let_def)
next
  case (receive n ok res k s')
  obtain out b' where b': "xStreamBufferReceive ops (deref (rs_buffer (rc_stream c))) n = (out, b')" by fastforce
  have k: "buffered (deref (rs_buffer (rc_stream c))) = out @ buffered b'" using bc b' unfolding buffer_contract_def by blast
  note s' = receive_frame [OF receive(3) b']
  have "producer_inv s' (rc_producer c) (rc_pushed c)"
    by (rule producer_inv_frame [of "rc_stream c"]) (use inv s' in \<open>simp_all add: relay_inv_def Let_def\<close>)
  then show ?thesis using inv k s'(1-4,6,8) unfolding receive(1) by (simp add: relay_inv_def Let_def)
qed

section \<open>Delivery\<close>

definition relay_idle :: "('b \<Rightarrow> bytes) \<Rightarrow> 'b relay_config \<Rightarrow> bool" where
  "relay_idle buffered c \<longleftrightarrow> rc_producer c = Idle \<and> rc_waiting c = None \<and> rc_pushed c = [] \<and> rc_delivered c = [] \<and>
     (\<exists>b. rs_buffer (rc_stream c) = Ptr b \<and> buffered b = []) \<and> \<not> rs_armed (rc_stream c) \<and>
     rs_payload_bytes (rc_stream c) = 0 \<and> rs_output_bytes (rc_stream c) = 0"

text \<open>
  C4. The relay delivers the host's payload and nothing else. In every interleaving of the two
  tasks since the stream was set up, with timeouts, aborts and re-arming: what the sender has read
  is a prefix of what was pushed, in order and counted exactly; nothing is pushed before the host
  was told to go, and never more than announced; and when the sender has read the announced
  number of bytes, their checksum is the one the host announced for the whole payload.
\<close>

theorem relay_stream_delivery:
  assumes "buffer_contract ops buffered" "relay_idle buffered c0" "(relay_step ops)\<^sup>*\<^sup>* c0 c"
  shows "(\<exists>rest. rc_pushed c = rc_delivered c @ rest) \<and> rs_output_bytes (rc_stream c) = length (rc_delivered c) \<and>
    length (rc_pushed c) \<le> rs_payload_bytes (rc_stream c) \<and> (rc_pushed c \<noteq> [] \<longrightarrow> rs_go_sent (rc_stream c)) \<and>
    (0 < rs_payload_bytes (rc_stream c) \<and> rs_output_bytes (rc_stream c) = rs_payload_bytes (rc_stream c) \<longrightarrow>
       crc32 (rc_delivered c) = rs_payload_crc32 (rc_stream c))"
proof -
  have init: "relay_inv buffered c0" using assms(2) by (auto simp: relay_inv_def relay_idle_def producer_inv_def Let_def)
  have inv: "relay_inv buffered c"
    using assms(3) init by (induction rule: rtranclp_induct) (use relay_step_inv [OF assms(1)] in blast)+
  then have pre: "rc_pushed c = rc_delivered c @ buffered (deref (rs_buffer (rc_stream c)))" by (simp add: relay_inv_def Let_def)
  then have "rc_pushed c = rc_delivered c" if "rs_output_bytes (rc_stream c) = rs_payload_bytes (rc_stream c)"
    using that inv by (auto simp: relay_inv_def Let_def)
  moreover have "\<exists>rest. rc_pushed c = rc_delivered c @ rest" using pre by blast
  ultimately show ?thesis using inv unfolding relay_inv_def Let_def by metis
qed

text \<open>A buffer that is a list and never times out.\<close>

definition list_buffer :: "bytes buffer_ops" where
  "list_buffer = \<lparr>xStreamBufferReset = (\<lambda>b. []), xStreamBufferSend = (\<lambda>b d. (length d, b @ d)),
     xStreamBufferReceive = (\<lambda>b n. (take n b, drop n b))\<rparr>"

lemma list_buffer_contract: "buffer_contract list_buffer (\<lambda>b. b)"
  by (auto simp: buffer_contract_def list_buffer_def)

definition relay_stream_state_zero :: "bytes relay_stream_state" where
  "relay_stream_state_zero = \<lparr>rs_buffer = Ptr [], rs_notify = Ptr (\<lambda>_. ESP_OK), rs_file_name = [], rs_file_type = [], rs_file_bytes = 0,
     rs_payload_bytes = 0, rs_archive_bytes = 0, rs_input_bytes = 0, rs_output_bytes = 0, rs_dvzip_blocks = 0, rs_file_crc32 = 0,
     rs_payload_crc32 = 0, rs_input_crc32 = 0, rs_next_sequence = 0, rs_armed = False, rs_go_sent = False, rs_failed = False, rs_line = []\<rparr>"

theorem relay_stream_delivery_witness:
  "let s1 = fst (snd (relay_stream_begin list_buffer relay_stream_state_zero 1 0 2 (crc32 [7, 8]) 2 1 (Ptr [97]) (Ptr [98])
         :: _ \<times> _ \<times> (unit ptr, _) outgoing_file ptr));
       s2 = snd (source_read_enter s1 16);
       s3 = snd (relay_stream_push_chunk list_buffer s2 0 (Ptr [7, 8]) (crc32 [7, 8]));
       (ok, xs, n) = fst (source_read_receive list_buffer s3 2);
       s4 = snd (source_read_receive list_buffer s3 2) in
   ok \<and> xs = [7, 8] \<and> rs_output_bytes s4 = 2 \<and> rs_payload_bytes s4 = 2 \<and> crc32 xs = rs_payload_crc32 s4"
proof -
  define s1 where "s1 = fst (snd (relay_stream_begin list_buffer relay_stream_state_zero 1 0 2 (crc32 [7, 8]) 2 1 (Ptr [97]) (Ptr [98])
         :: _ \<times> _ \<times> (unit ptr, _) outgoing_file ptr))"
  define s2 where "s2 = snd (source_read_enter s1 16)"
  define cc where "cc = crc32_update 0xffffffff [7, 8 :: byte]"
  define s3 where "s3 = snd (push_send list_buffer s2 [7, 8])"
  define s3' where "s3' = snd (push_commit s3 2 [7, 8] cc)"
  define s4 where "s4 = snd (source_read_receive list_buffer s3' 2)"
  define c0 :: "bytes relay_config" where "c0 = \<lparr>rc_stream = relay_stream_state_zero, rc_producer = Idle, rc_waiting = None, rc_pushed = [], rc_delivered = []\<rparr>"
  have crc: "crc32 [7, 8] = cc XOR 0xffffffff" by (simp add: crc32_def cc_def)
  have s1: "s1 = relay_stream_state_zero\<lparr>rs_file_name := [97], rs_file_type := [98], rs_file_bytes := 1, rs_payload_bytes := 2,
      rs_archive_bytes := 2, rs_dvzip_blocks := 1, rs_payload_crc32 := cc XOR 0xffffffff, rs_input_crc32 := 0xffffffff, rs_armed := True\<rparr>"
    by (simp add: s1_def relay_stream_begin_def relay_stream_state_zero_def list_buffer_def spool_consts Let_def crc)
  have go: "length (go_text 2) < 96" by (simp add: go_text_def RELAY_STREAM_CHUNK_MAX_def digits.simps)
  then have e: "source_read_enter s1 16 = (Inr 2, s2)"
    by (simp add: s2_def s1 source_read_enter_def relay_stream_state_zero_def call_notify_def Let_def)
  have s2: "s2 = s1\<lparr>rs_go_sent := True, rs_line := [go_text 2]\<rparr>"
    using go by (simp add: s2_def s1 source_read_enter_def relay_stream_state_zero_def call_notify_def Let_def)
  have chk: "push_check s2 0 [7, 8] (crc32 [7, 8]) = (Inr cc, s2)"
    by (simp add: push_check_def relay_stream_validate_chunk_def s2 s1 relay_stream_state_zero_def crc Let_def RELAY_STREAM_CHUNK_MAX_def cc_def [symmetric])
  have snd: "push_send list_buffer s2 [7, 8] = (2, s3)" "s3 = s2\<lparr>rs_buffer := Ptr [7, 8]\<rparr>"
    by (simp_all add: push_send_def s3_def list_buffer_def s2 s1 relay_stream_state_zero_def)
  have com: "push_commit s3 2 [7, 8] cc = (ESP_OK, s3')" by (simp add: push_commit_def s3'_def)
  have push: "relay_stream_push_chunk list_buffer s2 0 (Ptr [7, 8]) (crc32 [7, 8]) = (ESP_OK, s3')"
    by (simp add: relay_stream_push_chunk_def chk snd(1) com)
  have s3': "s3' = s3\<lparr>rs_input_crc32 := cc, rs_input_bytes := 2, rs_next_sequence := 1\<rparr>"
    by (simp add: s3'_def push_commit_def snd(2) s2 s1 relay_stream_state_zero_def)
  have rec: "source_read_receive list_buffer s3' 2 = ((True, [7, 8], 2), s4)"
    by (simp add: s4_def source_read_receive_def s3' snd(2) list_buffer_def s2 s1 Let_def)
  have out: "rs_output_bytes s4 = 2" "rs_payload_bytes s4 = 2"
    using receive_frame(2,4) [OF rec] by (simp_all add: list_buffer_def s3' snd(2) s2 s1 relay_stream_state_zero_def)
  note step = rtranclp.rtrancl_into_rtrancl
  have "(relay_step list_buffer)\<^sup>*\<^sup>* c0 (c0\<lparr>rc_stream := s1\<rparr>)"
    using relay_step.arm [of c0 list_buffer 1 0 2 "crc32 [7, 8]" 2 1 "Ptr [97]" "Ptr [98]" s1]
    by (simp add: c0_def s1 relay_stream_begin_def relay_stream_state_zero_def list_buffer_def spool_consts Let_def crc r_into_rtranclp)
  from step [OF this relay_step.enter [of _ 16 2 s2]] e have "(relay_step list_buffer)\<^sup>*\<^sup>* c0 (c0\<lparr>rc_stream := s2, rc_waiting := Some 2\<rparr>)"
    by (simp add: c0_def)
  from step [OF this relay_step.checked [of _ 0 "[7, 8]" "crc32 [7, 8]" cc s2]] chk
  have "(relay_step list_buffer)\<^sup>*\<^sup>* c0 (c0\<lparr>rc_stream := s2, rc_waiting := Some 2, rc_producer := Checked [7, 8] cc\<rparr>)"
    by (simp add: c0_def)
  from step [OF this relay_step.sent [of _ "[7, 8]" cc _ 2 s3]] snd(1)
  have "(relay_step list_buffer)\<^sup>*\<^sup>* c0 (c0\<lparr>rc_stream := s3, rc_waiting := Some 2, rc_producer := Sent 2 [7, 8] cc, rc_pushed := [7, 8]\<rparr>)"
    by (simp add: c0_def)
  from step [OF this relay_step.commit [of _ 2 "[7, 8]" cc ESP_OK s3']] com
  have "(relay_step list_buffer)\<^sup>*\<^sup>* c0 (c0\<lparr>rc_stream := s3', rc_waiting := Some 2, rc_pushed := [7, 8]\<rparr>)"
    by (simp add: c0_def)
  from step [OF this relay_step.receive [of _ 2 list_buffer True "[7, 8]" 2 s4]] rec
  have "(relay_step list_buffer)\<^sup>*\<^sup>* c0 (c0\<lparr>rc_stream := s4, rc_pushed := [7, 8], rc_delivered := [7, 8]\<rparr>)"
    by (simp add: c0_def)
  moreover have "relay_idle (\<lambda>b. b) c0" by (simp add: relay_idle_def c0_def relay_stream_state_zero_def)
  ultimately have total_crc: "crc32 [7, 8] = rs_payload_crc32 s4"
    using relay_stream_delivery [OF list_buffer_contract, of c0] out by fastforce
  show ?thesis
    unfolding Let_def s1_def [symmetric] s2_def [symmetric] push rec snd_conv fst_conv prod.case using out total_crc by simp
qed

end
