(* ===== verification/Airdrop_Ask.thy ===== *)
theory Airdrop_Ask
  imports Airdrop_Upload
begin

text \<open>
  The /Ask request, \<^verbatim>\<open>src/core/src/airdrop_ask.c\<close>: the binary property list that announces one file,
  its HTTP wrapping and the random identifiers. The property list is written object by object
  through a bounded writer; a reference reader of binary property lists (header, trailer, offset
  table, references) is defined here, and the list built for a file reads back as the dictionary
  that the receiver expects.
\<close>

section \<open>Types\<close>

definition ASK_OBJECT_COUNT :: nat where "ASK_OBJECT_COUNT = 33"
definition ESPDROP_AIRDROP_ASK_BODY_MAX_BYTES :: nat where "ESPDROP_AIRDROP_ASK_BODY_MAX_BYTES = 1536"
definition ESPDROP_AIRDROP_ASK_REQUEST_MAX_BYTES :: nat where "ESPDROP_AIRDROP_ASK_REQUEST_MAX_BYTES = 2048"
definition ESPDROP_AIRDROP_SENDER_ID_BYTES :: nat where "ESPDROP_AIRDROP_SENDER_ID_BYTES = 13"

record ask_file =
  af_sender_computer_name :: "bytes ptr"
  af_sender_model_name :: "bytes ptr"
  af_sender_id :: "bytes ptr"
  af_transfer_id :: "bytes ptr"
  af_file_name :: "bytes ptr"
  af_file_type :: "bytes ptr"
  af_file_size :: nat

text \<open>The writer; its length is that of the bytes written so far.\<close>

record plist_writer =
  pw_output :: bytes
  pw_capacity :: nat
  pw_failed :: bool

section \<open>The writer\<close>

definition write_bytes :: "bytes \<Rightarrow> plist_writer \<Rightarrow> plist_writer" where
  "write_bytes v w =
     (if pw_failed w \<or> length v > pw_capacity w - length (pw_output w) then w\<lparr>pw_failed := True\<rparr>
      else w\<lparr>pw_output := pw_output w @ v\<rparr>)"

definition write_byte :: "byte \<Rightarrow> plist_writer \<Rightarrow> plist_writer" where
  "write_byte v w = write_bytes [v] w"

definition be_bytes :: "u64 \<Rightarrow> nat \<Rightarrow> bytes" where
  "be_bytes v n = rev (map (\<lambda>i. ucast (drop_bit (i * 8) v)) [0..<n])"

definition write_be :: "u64 \<Rightarrow> nat \<Rightarrow> plist_writer \<Rightarrow> plist_writer" where
  "write_be v n w = write_bytes (be_bytes v n) w"

definition write_ascii :: "bytes \<Rightarrow> plist_writer \<Rightarrow> plist_writer" where
  "write_ascii v w =
     (let len = length v;
          w1 = (if len < 15 then write_byte (0x50 OR of_nat len) w
                else write_byte (of_nat len) (write_byte 0x10 (write_byte 0x5f w))) in
      write_bytes v w1)"

definition write_integer :: "nat \<Rightarrow> plist_writer \<Rightarrow> plist_writer" where
  "write_integer v w =
     (let (n, marker) = (if v > UINT32_MAX then (8, 0x13) else if v > UINT16_MAX then (4, 0x12) else if v > 255 then (2, 0x11) else (1, 0x10)) in
      write_be (of_nat v) n (write_byte marker w))"

definition write_refs :: "bytes \<Rightarrow> plist_writer \<Rightarrow> plist_writer" where
  "write_refs references w = write_bytes references w"

definition write_trailer :: "byte \<Rightarrow> nat \<Rightarrow> plist_writer \<Rightarrow> plist_writer" where
  "write_trailer offset_size offset_table w =
     write_be (of_nat offset_table) 8 (write_be 0 8 (write_be (of_nat ASK_OBJECT_COUNT) 8
       (write_byte 1 (write_byte offset_size (write_bytes (replicate 6 0) w)))))"

section \<open>Validity of the fields\<close>

definition printable_ascii :: "bytes ptr \<Rightarrow> nat \<Rightarrow> nat \<Rightarrow> bool" where
  "printable_ascii v minimum maximum \<longleftrightarrow>
     v \<noteq> NULL \<and> minimum \<le> length (deref v) \<and> length (deref v) \<le> maximum \<and> list_all (\<lambda>b. 0x20 \<le> b \<and> b \<le> 0x7e) (deref v)"

definition sender_id_valid :: "bytes ptr \<Rightarrow> bool" where
  "sender_id_valid v \<longleftrightarrow> v \<noteq> NULL \<and> length (deref v) = 12 \<and>
     list_all (\<lambda>b. (48 \<le> b \<and> b \<le> 57) \<or> (97 \<le> b \<and> b \<le> 102)) (deref v)"

definition file_name_valid :: "bytes ptr \<Rightarrow> bool" where
  "file_name_valid v \<longleftrightarrow> printable_ascii v 1 253 \<and> deref v \<noteq> [46] \<and> deref v \<noteq> [46, 46] \<and>
     47 \<notin> set (deref v) \<and> 92 \<notin> set (deref v)"

definition ask_file_valid :: "ask_file ptr \<Rightarrow> bool" where
  "ask_file_valid file \<longleftrightarrow> file \<noteq> NULL \<and>
     printable_ascii (af_sender_computer_name (deref file)) 1 127 \<and> printable_ascii (af_sender_model_name (deref file)) 1 127 \<and>
     sender_id_valid (af_sender_id (deref file)) \<and> espdrop_airdrop_transfer_id_valid (af_transfer_id (deref file)) \<and>
     file_name_valid (af_file_name (deref file)) \<and> printable_ascii (af_file_type (deref file)) 1 127 \<and>
     af_file_size (deref file) > 0"

section \<open>The body\<close>

record ask_state =
  as_writer :: plist_writer
  as_offsets :: "nat list"

definition begin_object :: "nat \<Rightarrow> ask_state \<Rightarrow> ask_state" where
  "begin_object i s =
     (if i \<ge> ASK_OBJECT_COUNT then s\<lparr>as_writer := (as_writer s)\<lparr>pw_failed := True\<rparr>\<rparr>
      else s\<lparr>as_offsets := (as_offsets s)[i := length (pw_output (as_writer s))]\<rparr>)"

definition writing :: "(plist_writer \<Rightarrow> plist_writer) \<Rightarrow> ask_state \<Rightarrow> ask_state" where
  "writing f s = s\<lparr>as_writer := f (as_writer s)\<rparr>"

definition top_keys :: "bytes list" where
  "top_keys = map ascii [''BundleID'', ''ConvertMediaFormats'', ''Files'', ''SenderComputerName'', ''SenderID'',
     ''SenderModelName'', ''TransferID'', ''TransferType'']"

definition entry_keys :: "bytes list" where
  "entry_keys = map ascii [''ConvertMediaFormats'', ''FileBomPath'', ''FileIsDirectory'', ''FileName'', ''FileSize'', ''FileType'']"

text \<open>The statements that write the objects, in the order of the code.\<close>

definition write_objects :: "bytes \<Rightarrow> ask_file \<Rightarrow> (ask_state \<Rightarrow> ask_state) list" where
  "write_objects bom_path file =
     [begin_object 0, writing (write_byte 0xd8), writing (write_refs [1, 2, 3, 4, 5, 6, 7, 8]),
      writing (write_refs [9, 10, 11, 12, 13, 14, 15, 16])] @
     concat (map (\<lambda>i. [begin_object (i + 1), writing (write_ascii (top_keys ! i))]) [0..<8]) @
     [begin_object 9, writing (write_ascii (ascii ''com.apple.finder'')),
      begin_object 10, writing (write_byte 0x08),
      begin_object 11, writing (write_byte 0xa1), writing (write_byte 17),
      begin_object 12, writing (write_ascii (deref (af_sender_computer_name file))),
      begin_object 13, writing (write_ascii (deref (af_sender_id file))),
      begin_object 14, writing (write_ascii (deref (af_sender_model_name file))),
      begin_object 15, writing (write_byte 0xd1), writing (write_byte 18), writing (write_byte 19),
      begin_object 16, writing (write_byte 0xd1), writing (write_byte 20), writing (write_byte 21),
      begin_object 17, writing (write_byte 0xd6), writing (write_refs [22, 23, 24, 25, 26, 27]),
      writing (write_refs [28, 29, 10, 30, 31, 32]),
      begin_object 18, writing (write_ascii (ascii ''id'')),
      begin_object 19, writing (write_ascii (deref (af_transfer_id file))),
      begin_object 20, writing (write_ascii (ascii ''files'')),
      begin_object 21, writing (write_byte 0xd0)] @
     concat (map (\<lambda>i. [begin_object (i + 22), writing (write_ascii (entry_keys ! i))]) [0..<6]) @
     [begin_object 28, writing (write_byte 0x10), writing (write_byte 0),
      begin_object 29, writing (write_ascii bom_path),
      begin_object 30, writing (write_ascii (deref (af_file_name file))),
      begin_object 31, writing (write_integer (af_file_size file)),
      begin_object 32, writing (write_ascii (deref (af_file_type file)))]"

definition espdrop_airdrop_build_ask_body :: "bytes ptr \<Rightarrow> nat \<Rightarrow> ask_file ptr \<Rightarrow> nat \<times> bytes ptr" where
  "espdrop_airdrop_build_ask_body output capacity file =
     (if output = NULL \<or> capacity < 64 \<or> \<not> ask_file_valid file then (0, output)
      else
        let bom_path = ascii ''./'' @ deref (af_file_name (deref file)) in
        if length bom_path \<ge> 256 then (0, output)
        else
          let writer = \<lparr>pw_output = [], pw_capacity = capacity, pw_failed = False\<rparr>;
              s0 = \<lparr>as_writer = write_bytes (ascii ''bplist00'') writer, as_offsets = replicate ASK_OBJECT_COUNT 0\<rparr>;
              s = foldl (\<lambda>s f. f s) s0 (write_objects bom_path (deref file));
              w = as_writer s in
          if pw_failed w then (0, Ptr (store (deref output) 0 (pw_output w)))
          else
            let offset_table = length (pw_output w);
                offset_size = (if offset_table \<le> 255 then 1 else 2);
                w1 = foldl (\<lambda>w i. write_be (of_nat (as_offsets s ! i)) offset_size w) w [0..<ASK_OBJECT_COUNT];
                w2 = write_trailer (of_nat offset_size) offset_table w1 in
            (if pw_failed w2 then 0 else length (pw_output w2), Ptr (store (deref output) 0 (pw_output w2))))"

section \<open>The request and the identifiers\<close>

definition ask_head :: "bytes \<Rightarrow> u16 \<Rightarrow> nat \<Rightarrow> bytes" where
  "ask_head host port body_bytes =
     ascii ''POST /Ask HTTP/1.1'' @ [13, 10] @
     ascii ''Host: '' @ host @ [58] @ digits 10 (unat port) @ [13, 10] @
     ascii ''Content-Type: application/octet-stream'' @ [13, 10] @
     ascii ''Connection: keep-alive'' @ [13, 10] @
     ascii ''Accept: */*'' @ [13, 10] @
     ascii ''User-Agent: AirDrop/1.0'' @ [13, 10] @
     ascii ''Accept-Language: en-us'' @ [13, 10] @
     ascii ''Accept-Encoding: br, gzip, deflate'' @ [13, 10] @
     ascii ''Content-Length: '' @ digits 10 body_bytes @ [13, 10, 13, 10]"

definition espdrop_airdrop_build_ask_request ::
  "bytes ptr \<Rightarrow> nat \<Rightarrow> bytes ptr \<Rightarrow> u16 \<Rightarrow> bytes ptr \<Rightarrow> nat \<Rightarrow> nat \<times> bytes ptr" where
  "espdrop_airdrop_build_ask_request output capacity host port body body_bytes =
     (if output = NULL \<or> host = NULL \<or> deref host = [] \<or> port = 0 \<or> body = NULL \<or> body_bytes = 0 then (0, output)
      else
        let t = ask_head (deref host) port body_bytes;
            out1 = snprintf_into (deref output) capacity t in
        if length t \<ge> capacity \<or> body_bytes > capacity - length t then (0, Ptr out1)
        else (length t + body_bytes, Ptr (store out1 (length t) (take body_bytes (deref body)))))"

text \<open>Two upper-case or lower-case hexadecimal digits of a byte.\<close>

definition hex_pair :: "bytes \<Rightarrow> byte \<Rightarrow> bytes" where
  "hex_pair alphabet b = [alphabet ! unat (drop_bit 4 b), alphabet ! unat (b AND 0x0f)]"

definition lower_hex :: bytes where
  "lower_hex = ascii ''0123456789abcdef''"

definition espdrop_airdrop_format_transfer_id :: "bytes \<Rightarrow> bytes" where
  "espdrop_airdrop_format_transfer_id random_bytes =
     (let uuid = take 16 random_bytes;
          uuid1 = uuid[6 := (uuid ! 6 AND 0x0f) OR 0x40];
          uuid2 = uuid1[8 := (uuid1 ! 8 AND 0x3f) OR 0x80];
          hex = (\<lambda>i j. concat (map (hex_pair upper_hex) (take (j - i) (drop i uuid2)))) in
      hex 0 4 @ [45] @ hex 4 6 @ [45] @ hex 6 8 @ [45] @ hex 8 10 @ [45] @ hex 10 16)"

definition espdrop_airdrop_format_sender_id :: "bytes \<Rightarrow> bytes" where
  "espdrop_airdrop_format_sender_id random_bytes = concat (map (hex_pair lower_hex) (take 6 random_bytes))"

section \<open>A reader of binary property lists\<close>

datatype plist = PBool bool | PInt nat | PData bytes | PString bytes | PArray "plist list" | PDict "(plist \<times> plist) list"

definition be_nat :: "bytes \<Rightarrow> nat" where
  "be_nat bs = foldl (\<lambda>n b. n * 256 + unat b) 0 bs"

fun all_some :: "'a option list \<Rightarrow> 'a list option" where
  "all_some [] = Some []"
| "all_some (x # xs) = do { v \<leftarrow> x; vs \<leftarrow> all_some xs; Some (v # vs) }"

text \<open>
  Object \<open>i\<close> of a list with one-byte references: a marker byte gives the kind and the size, the
  size fifteen of a string is followed by an integer with the real size. The first argument bounds
  the nesting.
\<close>

fun bplist_object :: "nat \<Rightarrow> bytes \<Rightarrow> nat list \<Rightarrow> nat \<Rightarrow> plist option" where
  "bplist_object 0 bs offsets i = None"
| "bplist_object (Suc depth) bs offsets i =
     (if i \<ge> length offsets then None
      else do {
        let off = offsets ! i;
        marker \<leftarrow> rd bs off;
        let kind = drop_bit 4 marker;
        let size = unat (marker AND 0x0f);
        if marker = 0x08 then Some (PBool False)
        else if marker = 0x09 then Some (PBool True)
        else if kind = 1 then do { v \<leftarrow> rds bs (off + 1) (2 ^ size); Some (PInt (be_nat v)) }
        else if kind = 4 \<and> size < 15 then do { v \<leftarrow> rds bs (off + 1) size; Some (PData v) }
        else if kind = 5 then
          if size < 15 then do { v \<leftarrow> rds bs (off + 1) size; Some (PString v) }
          else do {
            size_marker \<leftarrow> rd bs (off + 1);
            long_size \<leftarrow> rd bs (off + 2);
            if size_marker \<noteq> 0x10 then None
            else do { v \<leftarrow> rds bs (off + 3) (unat long_size); Some (PString v) }
          }
        else if kind = 10 then do {
          refs \<leftarrow> rds bs (off + 1) size;
          vs \<leftarrow> all_some (map (\<lambda>r. bplist_object depth bs offsets (unat r)) refs);
          Some (PArray vs)
        }
        else if kind = 13 then do {
          keys \<leftarrow> rds bs (off + 1) size;
          refs \<leftarrow> rds bs (off + 1 + size) size;
          ks \<leftarrow> all_some (map (\<lambda>r. bplist_object depth bs offsets (unat r)) keys);
          vs \<leftarrow> all_some (map (\<lambda>r. bplist_object depth bs offsets (unat r)) refs);
          Some (PDict (zip ks vs))
        }
        else None
      })"

definition bplist_read :: "bytes \<Rightarrow> plist option" where
  "bplist_read bs =
     (if length bs < 40 \<or> take 8 bs \<noteq> ascii ''bplist00'' then None
      else
        let trailer = drop (length bs - 32) bs;
            offset_size = unat (trailer ! 6);
            count = be_nat (take 8 (drop 8 trailer));
            top = be_nat (take 8 (drop 16 trailer));
            table = be_nat (take 8 (drop 24 trailer));
            offsets = map (\<lambda>i. be_nat (take offset_size (drop (table + i * offset_size) bs))) [0..<count] in
        if trailer ! 7 \<noteq> 1 then None else bplist_object 5 bs offsets top)"

section \<open>What the writer writes\<close>

definition ascii_object :: "bytes \<Rightarrow> bytes" where
  "ascii_object v = (if length v < 15 then [0x50 OR of_nat (length v)] else [0x5f, 0x10, of_nat (length v)]) @ v"

definition integer_object :: "nat \<Rightarrow> bytes" where
  "integer_object v =
     (if v > UINT32_MAX then 0x13 # be_bytes (of_nat v) 8 else if v > UINT16_MAX then 0x12 # be_bytes (of_nat v) 4
      else if v > 255 then 0x11 # be_bytes (of_nat v) 2 else 0x10 # be_bytes (of_nat v) 1)"

text \<open>A writer function emits \<open>v\<close>: with room it appends exactly these bytes.\<close>

definition emits :: "(plist_writer \<Rightarrow> plist_writer) \<Rightarrow> bytes \<Rightarrow> bool" where
  "emits f v \<longleftrightarrow> (\<forall>w. \<not> pw_failed w \<and> length (pw_output w) + length v \<le> pw_capacity w \<longrightarrow>
     f w = w\<lparr>pw_output := pw_output w @ v\<rparr>)"

named_theorems emit_rules \<open>what the writer functions emit\<close>

lemma emitsD: "emits f v \<Longrightarrow> \<not> pw_failed w \<Longrightarrow> length (pw_output w) + length v \<le> pw_capacity w \<Longrightarrow> f w = w\<lparr>pw_output := pw_output w @ v\<rparr>"
  by (simp add: emits_def)

lemma emits_compose: "emits f v \<Longrightarrow> emits g u \<Longrightarrow> emits (\<lambda>w. g (f w)) (v @ u)"
  by (simp add: emits_def)

lemma emits_bytes [emit_rules]: "emits (write_bytes v) v"
  by (auto simp: emits_def write_bytes_def)

lemma emits_byte [emit_rules]: "emits (write_byte b) [b]"
  using emits_bytes [of "[b]"] by (simp add: emits_def write_byte_def)

lemma emits_refs [emit_rules]: "emits (write_refs v) v"
  using emits_bytes [of v] by (simp add: emits_def write_refs_def)

lemma emits_be [emit_rules]: "emits (write_be v n) (be_bytes v n)"
  using emits_bytes [of "be_bytes v n"] by (simp add: emits_def write_be_def)

lemma emits_ascii [emit_rules]: "emits (write_ascii v) (ascii_object v)"
proof (cases "length v < 15")
  case True
  have "emits (\<lambda>w. write_bytes v (write_byte (0x50 OR of_nat (length v)) w)) ([0x50 OR of_nat (length v)] @ v)"
    by (intro emits_compose emits_byte emits_bytes)
  then show ?thesis using True by (simp add: emits_def write_ascii_def ascii_object_def Let_def)
next
  case False
  have "emits (\<lambda>w. write_bytes v (write_byte (of_nat (length v)) (write_byte 0x10 (write_byte 0x5f w)))) ((([0x5f] @ [0x10]) @ [of_nat (length v)]) @ v)"
    by (intro emits_compose emits_byte emits_bytes)
  then show ?thesis using False by (simp add: emits_def write_ascii_def ascii_object_def Let_def)
qed

lemma emits_integer [emit_rules]: "emits (write_integer v) (integer_object v)"
proof -
  have "emits (\<lambda>w. write_be (of_nat v) n (write_byte m w)) (m # be_bytes (of_nat v) n)" for n m
    using emits_compose [OF emits_byte [of m] emits_be [of "of_nat v" n]] by simp
  then show ?thesis by (simp add: emits_def write_integer_def integer_object_def)
qed

lemma length_be_bytes [simp]: "length (be_bytes v n) = n"
  by (simp add: be_bytes_def)

lemma be_nat_Cons: "be_nat (b # bs) = unat b * 256 ^ length bs + be_nat bs"
proof -
  have "foldl (\<lambda>n b. n * 256 + unat (b :: byte)) a bs = a * 256 ^ length bs + foldl (\<lambda>n b. n * 256 + unat b) 0 bs" for a bs
  proof (induction bs arbitrary: a)
    case (Cons b bs)
    show ?case using Cons [of "a * 256 + unat b"] Cons [of "unat b"] by (simp add: algebra_simps)
  qed simp
  from this [of "unat b" bs] show ?thesis by (simp add: be_nat_def)
qed

lemma be_nat_be_bytes: "be_nat (be_bytes w n) = unat w mod 256 ^ n"
proof (induction n)
  case 0
  show ?case by (simp add: be_nat_def be_bytes_def)
next
  case (Suc n)
  have "be_bytes w (Suc n) = ucast (drop_bit (n * 8) w) # be_bytes w n" by (simp add: be_bytes_def)
  moreover have "unat (ucast (drop_bit (n * 8) w) :: byte) = unat w div 256 ^ n mod 256"
  proof -
    have "unat (drop_bit (n * 8) w) = drop_bit (n * 8) (unat w)" by (rule unat_drop_bit_eq)
    also have "\<dots> = unat w div 256 ^ n" by (simp add: drop_bit_eq_div power_mult mult.commute [of n])
    finally show ?thesis by (simp add: unsigned_ucast_eq take_bit_eq_mod)
  qed
  moreover have "unat w mod 256 ^ Suc n = 256 ^ n * (unat w div 256 ^ n mod 256) + unat w mod 256 ^ n"
    using mod_mult2_eq [of "unat w" "256 ^ n" 256] by (simp only: power_Suc2)
  ultimately show ?case using Suc by (simp only: be_nat_Cons length_be_bytes mult.commute)
qed

lemma be_nat_of_nat: "v < 256 ^ n \<Longrightarrow> n \<le> 8 \<Longrightarrow> be_nat (be_bytes (of_nat v) n) = v"
proof -
  assume v: "v < 256 ^ n" and n: "n \<le> 8"
  have "(256 :: nat) ^ n \<le> 256 ^ 8" using n by (rule power_increasing) simp
  then have "v < 2 ^ 64" using v by simp
  then show ?thesis using v by (simp add: be_nat_be_bytes unat_of_nat_u64)
qed

section \<open>The objects of the body\<close>

text \<open>The writes of each object, and the bytes they emit, by object number.\<close>

definition ask_groups :: "bytes \<Rightarrow> ask_file \<Rightarrow> (plist_writer \<Rightarrow> plist_writer) list list" where
  "ask_groups bom_path file =
     [[write_byte 0xd8, write_refs [1, 2, 3, 4, 5, 6, 7, 8], write_refs [9, 10, 11, 12, 13, 14, 15, 16]]] @
     map (\<lambda>k. [write_ascii k]) top_keys @
     [[write_ascii (ascii ''com.apple.finder'')], [write_byte 0x08], [write_byte 0xa1, write_byte 17],
      [write_ascii (deref (af_sender_computer_name file))], [write_ascii (deref (af_sender_id file))],
      [write_ascii (deref (af_sender_model_name file))], [write_byte 0xd1, write_byte 18, write_byte 19],
      [write_byte 0xd1, write_byte 20, write_byte 21],
      [write_byte 0xd6, write_refs [22, 23, 24, 25, 26, 27], write_refs [28, 29, 10, 30, 31, 32]],
      [write_ascii (ascii ''id'')], [write_ascii (deref (af_transfer_id file))], [write_ascii (ascii ''files'')], [write_byte 0xd0]] @
     map (\<lambda>k. [write_ascii k]) entry_keys @
     [[write_byte 0x10, write_byte 0], [write_ascii bom_path], [write_ascii (deref (af_file_name file))],
      [write_integer (af_file_size file)], [write_ascii (deref (af_file_type file))]]"

definition ask_objects :: "bytes \<Rightarrow> ask_file \<Rightarrow> bytes list" where
  "ask_objects bom_path file =
     [[0xd8, 1, 2, 3, 4, 5, 6, 7, 8, 9, 10, 11, 12, 13, 14, 15, 16]] @ map ascii_object top_keys @
     [ascii_object (ascii ''com.apple.finder''), [0x08], [0xa1, 17],
      ascii_object (deref (af_sender_computer_name file)), ascii_object (deref (af_sender_id file)),
      ascii_object (deref (af_sender_model_name file)), [0xd1, 18, 19], [0xd1, 20, 21],
      [0xd6, 22, 23, 24, 25, 26, 27, 28, 29, 10, 30, 31, 32],
      ascii_object (ascii ''id''), ascii_object (deref (af_transfer_id file)), ascii_object (ascii ''files''), [0xd0]] @
     map ascii_object entry_keys @
     [[0x10, 0], ascii_object bom_path, ascii_object (deref (af_file_name file)), integer_object (af_file_size file),
      ascii_object (deref (af_file_type file))]"

lemma length_keys [simp]: "length top_keys = 8" "length entry_keys = 6"
  by (simp_all add: top_keys_def entry_keys_def)

lemma length_ask_groups: "length (ask_groups p file) = 33" "length (ask_objects p file) = 33"
  by (simp_all add: ask_groups_def ask_objects_def)

lemma keys_list: "xs = map (\<lambda>i. xs ! i) [0..<length xs]"
  by (rule nth_equalityI) simp_all

lemma write_objects_groups:
  "write_objects p file = concat (map (\<lambda>i. begin_object i # map writing (ask_groups p file ! i)) [0..<33])"
  unfolding write_objects_def ask_groups_def top_keys_def entry_keys_def
  by (simp add: upt_rec numeral_eq_Suc)

definition emits_all :: "(plist_writer \<Rightarrow> plist_writer) list \<Rightarrow> bytes \<Rightarrow> bool" where
  "emits_all fs v \<longleftrightarrow> emits (\<lambda>w. foldl (\<lambda>w f. f w) w fs) v"

lemma emits_all_Nil: "emits_all [] []"
  by (simp add: emits_all_def emits_def)

lemma emits_all_Cons: "emits f v \<Longrightarrow> emits_all fs u \<Longrightarrow> emits_all (f # fs) (v @ u)"
  unfolding emits_all_def using emits_compose [of f v "\<lambda>w. foldl (\<lambda>w f. f w) w fs" u] by simp

lemma emits_all_one: "emits f v \<Longrightarrow> emits_all [f] v"
  using emits_all_Cons [OF _ emits_all_Nil] by fastforce

lemma emits_all_two: "emits f v \<Longrightarrow> emits g u \<Longrightarrow> emits_all [f, g] (v @ u)"
  using emits_all_Cons [OF _ emits_all_one] by blast

lemma emits_all_three: "emits f v \<Longrightarrow> emits g u \<Longrightarrow> emits h x \<Longrightarrow> emits_all [f, g, h] (v @ u @ x)"
  using emits_all_Cons [OF _ emits_all_two] by blast

lemma ask_groups_emit: "list_all2 emits_all (ask_groups p file) (ask_objects p file)"
proof -
  have three: "emits_all [write_byte a, write_refs b, write_refs c] (a # b @ c)" for a b c
    using emits_all_three [OF emits_byte emits_refs emits_refs] by simp
  have bytes3: "emits_all [write_byte a, write_byte b, write_byte c] [a, b, c]" for a b c
    using emits_all_three [OF emits_byte emits_byte emits_byte] by simp
  have bytes2: "emits_all [write_byte a, write_byte b] [a, b]" for a b
    using emits_all_two [OF emits_byte emits_byte] by simp
  have strings: "list_all2 emits_all (map (\<lambda>k. [write_ascii k]) ks) (map ascii_object ks)" for ks
    by (induction ks) (simp_all add: emits_all_one emits_ascii)
  show ?thesis
    unfolding ask_groups_def ask_objects_def
    using three [of "0xd8" "[1, 2, 3, 4, 5, 6, 7, 8]" "[9, 10, 11, 12, 13, 14, 15, 16]"]
      three [of "0xd6" "[22, 23, 24, 25, 26, 27]" "[28, 29, 10, 30, 31, 32]"]
    by (intro list_all2_appendI strings)
      (simp_all add: emits_all_one emits_ascii emits_integer emits_byte bytes2 bytes3)
qed

definition ask_at :: "nat \<Rightarrow> ask_state \<Rightarrow> bytes list \<Rightarrow> bool" where
  "ask_at cap s os \<longleftrightarrow> \<not> pw_failed (as_writer s) \<and> pw_capacity (as_writer s) = cap \<and>
     pw_output (as_writer s) = ascii ''bplist00'' @ concat os \<and> length (as_offsets s) = 33 \<and>
     (\<forall>i<length os. as_offsets s ! i = 8 + length (concat (take i os)))"

lemma foldl_writing: "foldl (\<lambda>s f. f s) s (map writing fs) = writing (\<lambda>w. foldl (\<lambda>w f. f w) w fs) s"
  by (induction fs arbitrary: s) (simp_all add: writing_def)

lemma group_at:
  assumes at: "ask_at cap s os" and k: "k = length os" "k < 33" and e: "emits_all fs v" and room: "8 + length (concat os) + length v \<le> cap"
  shows "ask_at cap (foldl (\<lambda>s f. f s) s (begin_object k # map writing fs)) (os @ [v])"
proof -
  define s1 where "s1 = begin_object k s"
  have s1: "as_writer s1 = as_writer s" "as_offsets s1 = (as_offsets s)[k := 8 + length (concat os)]"
    using at k by (simp_all add: s1_def begin_object_def ASK_OBJECT_COUNT_def ask_at_def numeral_eq_Suc)
  have "foldl (\<lambda>w f. f w) (as_writer s1) fs = (as_writer s)\<lparr>pw_output := pw_output (as_writer s) @ v\<rparr>"
    using emitsD [OF e [unfolded emits_all_def], of "as_writer s"] at room s1(1) by (simp add: ask_at_def)
  then have "foldl (\<lambda>s f. f s) s (begin_object k # map writing fs) = s1\<lparr>as_writer := (as_writer s)\<lparr>pw_output := pw_output (as_writer s) @ v\<rparr>\<rparr>"
    by (simp add: foldl_writing s1_def [symmetric] writing_def)
  then show ?thesis
    using at k s1 by (auto simp: ask_at_def nth_list_update less_Suc_eq)
qed

lemma concat_take_Suc: "i < length xs \<Longrightarrow> concat (take (Suc i) xs) = concat (take i xs) @ xs ! i"
  by (simp add: take_Suc_conv_app_nth)

lemma length_concat_take: "length (concat (take n xs)) \<le> length (concat xs)"
  by (metis append_take_drop_id concat_append length_append le_add1)

lemma objects_at:
  assumes "ask_at cap s []" "list_all2 emits_all groups objs" "length objs = 33" "8 + length (concat objs) \<le> cap"
  shows "n \<le> 33 \<Longrightarrow> ask_at cap (foldl (\<lambda>s f. f s) s (concat (map (\<lambda>i. begin_object i # map writing (groups ! i)) [0..<n]))) (take n objs)"
proof (induction n)
  case (Suc n)
  have "8 + length (concat (take n objs)) + length (objs ! n) = 8 + length (concat (take (Suc n) objs))"
    using Suc.prems assms(3) by (simp add: concat_take_Suc)
  then have room: "8 + length (concat (take n objs)) + length (objs ! n) \<le> cap"
    using assms(4) length_concat_take [of "Suc n" objs] by linarith
  have "emits_all (groups ! n) (objs ! n)" using assms(2,3) Suc.prems list_all2_nthD2 by fastforce
  from group_at [OF Suc.IH _ _ this room] show ?case
    using Suc.prems assms(3) by (simp add: take_Suc_conv_app_nth)
qed (use assms(1) in simp)

lemma emits_table: "emits (\<lambda>w. foldl (\<lambda>w i. write_be (g i) k w) w is) (concat (map (\<lambda>i. be_bytes (g i) k) is))"
proof (induction "is")
  case Nil
  show ?case by (simp add: emits_def)
next
  case (Cons i "is")
  from emits_compose [OF emits_be this, of "g i" k] show ?case by simp
qed

definition trailer_bytes :: "byte \<Rightarrow> nat \<Rightarrow> bytes" where
  "trailer_bytes offset_size table = replicate 6 0 @ [offset_size, 1] @ be_bytes 33 8 @ be_bytes 0 8 @ be_bytes (of_nat table) 8"

lemma emits_trailer: "emits (write_trailer offset_size table) (trailer_bytes offset_size table)"
proof -
  have "emits (\<lambda>w. write_be (of_nat table) 8 (write_be 0 8 (write_be 33 8 (write_byte 1 (write_byte offset_size (write_bytes (replicate 6 0) w))))))
    (((((replicate 6 0 @ [offset_size]) @ [1]) @ be_bytes 33 8) @ be_bytes 0 8) @ be_bytes (of_nat table) 8)"
    by (intro emits_compose emit_rules)
  then show ?thesis by (simp add: emits_def write_trailer_def trailer_bytes_def ASK_OBJECT_COUNT_def)
qed

text \<open>The body of a file, as a whole.\<close>

definition ask_path :: "ask_file \<Rightarrow> bytes" where
  "ask_path file = ascii ''./'' @ deref (af_file_name file)"

definition ask_body :: "bytes list \<Rightarrow> bytes" where
  "ask_body objs =
     (let front = ascii ''bplist00'' @ concat objs;
          size = (if length front \<le> 255 then 1 else 2 :: nat) in
      front @ concat (map (\<lambda>i. be_bytes (of_nat (8 + length (concat (take i objs)))) size) [0..<33]) @
      trailer_bytes (of_nat size) (length front))"

lemma length_const_concat: "(\<And>x. x \<in> set xs \<Longrightarrow> length (f x) = k) \<Longrightarrow> length (concat (map f xs)) = length xs * k"
  by (induction xs) auto

lemma length_trailer: "length (trailer_bytes a b) = 32"
  by (simp add: trailer_bytes_def)

lemma build_ask_body_eq:
  assumes valid: "ask_file_valid (Ptr file)" and cap: "length (ask_body (ask_objects (ask_path file) file)) \<le> cap" "64 \<le> cap"
    and path: "length (ask_path file) < 256"
  shows "espdrop_airdrop_build_ask_body (Ptr out) cap (Ptr file) =
    (length (ask_body (ask_objects (ask_path file) file)), Ptr (store out 0 (ask_body (ask_objects (ask_path file) file))))"
proof -
  define objs where "objs = ask_objects (ask_path file) file"
  define front where "front = ascii ''bplist00'' @ concat objs"
  define size where "size = (if length front \<le> 255 then 1 else 2 :: nat)"
  define table where "table = concat (map (\<lambda>i. be_bytes (of_nat (8 + length (concat (take i objs)))) size) [0..<33])"
  have body: "ask_body objs = front @ table @ trailer_bytes (of_nat size) (length front)"
    by (simp add: ask_body_def front_def size_def table_def Let_def)
  have room: "length front + length table + 32 \<le> cap" using cap(1) unfolding objs_def [symmetric] body by (simp add: length_trailer)
  define w0 where "w0 = \<lparr>pw_output = [], pw_capacity = cap, pw_failed = False\<rparr>"
  define s0 where "s0 = \<lparr>as_writer = write_bytes (ascii ''bplist00'') w0, as_offsets = replicate ASK_OBJECT_COUNT 0\<rparr>"
  define s where "s = foldl (\<lambda>s f. f s) s0 (write_objects (ask_path file) file)"
  have "write_bytes (ascii ''bplist00'') w0 = w0\<lparr>pw_output := ascii ''bplist00''\<rparr>"
    using cap(2) by (simp add: write_bytes_def w0_def)
  then have at0: "ask_at cap s0 []" by (simp add: ask_at_def s0_def w0_def ASK_OBJECT_COUNT_def)
  have "8 + length (concat objs) \<le> cap" using room by (simp add: front_def)
  from objects_at [OF at0 ask_groups_emit [of "ask_path file" "file", folded objs_def] _ this, of 33]
  have at: "ask_at cap s objs" by (simp add: s_def write_objects_groups length_ask_groups objs_def)
  define w where "w = as_writer s"
  have w: "\<not> pw_failed w" "pw_capacity w = cap" "pw_output w = front" using at by (simp_all add: ask_at_def w_def front_def)
  have offs: "of_nat (as_offsets s ! i) = (of_nat (8 + length (concat (take i objs))) :: u64)" if "i < 33" for i
    using at that by (simp add: ask_at_def objs_def length_ask_groups)
  have tbl: "concat (map (\<lambda>i. be_bytes (of_nat (as_offsets s ! i)) size) [0..<33]) = table"
    unfolding table_def by (intro arg_cong [of _ _ concat] map_cong refl) (simp add: offs)
  have w1: "foldl (\<lambda>w i. write_be (of_nat (as_offsets s ! i)) size w) w [0..<ASK_OBJECT_COUNT] = w\<lparr>pw_output := front @ table\<rparr>"
    using emitsD [OF emits_table, of w "\<lambda>i. of_nat (as_offsets s ! i)" size "[0..<33]"] w room by (simp add: tbl ASK_OBJECT_COUNT_def)
  have w2: "write_trailer (of_nat size) (length front) (w\<lparr>pw_output := front @ table\<rparr>) = w\<lparr>pw_output := ask_body objs\<rparr>"
    using emitsD [OF emits_trailer, of "w\<lparr>pw_output := front @ table\<rparr>" "of_nat size" "length front"] w room
    by (simp add: body length_trailer)
  have p: "ascii ''./'' @ deref (af_file_name file) = ask_path file" "\<not> 256 \<le> length (ask_path file)" "\<not> cap < 64"
    using path cap(2) by (simp_all add: ask_path_def)
  show ?thesis
    unfolding espdrop_airdrop_build_ask_body_def Let_def ptr.sel p(1) w0_def [symmetric] s0_def [symmetric] s_def [symmetric]
      w_def [symmetric] w(3) size_def [symmetric] w1 w2 objs_def [symmetric]
    using valid p(2,3) w by simp
qed

section \<open>Reading the body back\<close>

definition located :: "bytes \<Rightarrow> nat \<Rightarrow> bytes \<Rightarrow> bool" where
  "located bs off ob \<longleftrightarrow> (\<exists>pre post. bs = pre @ ob @ post \<and> length pre = off)"

lemma located_rd: "located bs off ob \<Longrightarrow> k < length ob \<Longrightarrow> rd bs (off + k) = Some (ob ! k)"
  by (auto simp: located_def rd_def nth_append)

lemma located_rds: "located bs off ob \<Longrightarrow> k + n \<le> length ob \<Longrightarrow> rds bs (off + k) n = Some (take n (drop k ob))"
  by (auto simp: located_def rds_def)

lemma located_marker: "located bs off (m # ob) \<Longrightarrow> rd bs off = Some m"
  using located_rd [of bs off "m # ob" 0] by simp

lemma located_tail: "located bs off (m # ob) \<Longrightarrow> n \<le> length ob \<Longrightarrow> rds bs (off + 1) n = Some (take n ob)"
  using located_rds [of bs off "m # ob" 1 n] by simp

lemma below_fifteen: "n < 15 \<Longrightarrow> n \<in> {0, 1, 2, 3, 4, 5, 6, 7, 8, 9, 10, 11, 12, 13, 14 :: nat}"
  by (simp only: insert_iff empty_iff) presburger

lemma string_marker:
  assumes "n < 15"
  shows "drop_bit 4 (0x50 OR of_nat n :: byte) = 5" "unat ((0x50 OR of_nat n :: byte) AND 0x0f) = n"
    "(0x50 OR of_nat n :: byte) \<noteq> 8" "(0x50 OR of_nat n :: byte) \<noteq> 9"
proof -
  note below_fifteen [OF assms]
  then show "drop_bit 4 (0x50 OR of_nat n :: byte) = 5" "unat ((0x50 OR of_nat n :: byte) AND 0x0f) = n"
    "(0x50 OR of_nat n :: byte) \<noteq> 8" "(0x50 OR of_nat n :: byte) \<noteq> 9"
    by auto
qed

lemma read_string:
  assumes "i < length offsets" "located bs (offsets ! i) (ascii_object v)" "length v \<le> 255"
  shows "bplist_object (Suc d) bs offsets i = Some (PString v)"
proof (cases "length v < 15")
  case True
  then have l: "located bs (offsets ! i) ((0x50 OR of_nat (length v)) # v)" using assms(2) by (simp add: ascii_object_def)
  show ?thesis
    using assms(1) True located_marker [OF l] located_tail [OF l, of "length v"] string_marker [OF True] by (simp add: Let_def)
next
  case False
  then have l: "located bs (offsets ! i) ([0x5f, 0x10, of_nat (length v)] @ v)" using assms(2) by (simp add: ascii_object_def)
  have u: "unat (of_nat (length v) :: byte) = length v" using assms(3) by (intro unat_of_nat_byte) simp
  have "rd bs (offsets ! i) = Some 0x5f" "rd bs (offsets ! i + 1) = Some 0x10" "rd bs (offsets ! i + 2) = Some (of_nat (length v))"
    "rds bs (offsets ! i + 3) (length v) = Some v"
    using located_rd [OF l, of 0] located_rd [OF l, of 1] located_rd [OF l, of 2] located_rds [OF l, of 3 "length v"] by simp_all
  then show ?thesis using assms(1) u by (simp add: Let_def)
qed

lemma read_integer:
  assumes "i < length offsets" "located bs (offsets ! i) (integer_object v)" "v \<le> SIZE_MAX"
  shows "bplist_object (Suc d) bs offsets i = Some (PInt v)"
proof -
  have rd: "bplist_object (Suc d) bs offsets i = Some (PInt v)"
    if l: "located bs (offsets ! i) ((0x10 OR of_nat k) # be_bytes (of_nat v) (2 ^ k))" and k: "k \<in> {0, 1, 2}" and fit: "v < 256 ^ 2 ^ k" for k
  proof -
    have "be_nat (be_bytes (of_nat v) (2 ^ k)) = v" using k fit by (intro be_nat_of_nat) auto
    moreover have "drop_bit 4 (0x10 OR of_nat k :: byte) = 1" "unat ((0x10 OR of_nat k :: byte) AND 0x0f) = k"
      "(0x10 OR of_nat k :: byte) \<noteq> 8" "(0x10 OR of_nat k :: byte) \<noteq> 9"
      using k by auto
    moreover note located_marker [OF l] located_tail [OF l, of "2 ^ k"]
    ultimately show ?thesis using assms(1) by (simp add: Let_def)
  qed
  consider "v \<le> 255" | "255 < v" "v \<le> UINT16_MAX" | "UINT16_MAX < v" by linarith
  then show ?thesis
  proof cases
    case 1
    then show ?thesis using rd [of 0] assms(2) by (simp add: integer_object_def UINT32_MAX_def UINT16_MAX_def)
  next
    case 2
    then show ?thesis using rd [of 1] assms(2) by (simp add: integer_object_def UINT32_MAX_def UINT16_MAX_def)
  next
    case 3
    then show ?thesis using rd [of 2] assms(2,3) by (simp add: integer_object_def UINT32_MAX_def UINT16_MAX_def SIZE_MAX_def)
  qed
qed

lemma read_false:
  "i < length offsets \<Longrightarrow> located bs (offsets ! i) [8] \<Longrightarrow> bplist_object (Suc d) bs offsets i = Some (PBool False)"
  using located_marker [of bs "offsets ! i" 8 "[]"] by (simp add: Let_def)

lemma read_zero:
  "i < length offsets \<Longrightarrow> located bs (offsets ! i) [0x10, 0] \<Longrightarrow> bplist_object (Suc d) bs offsets i = Some (PInt 0)"
  using located_marker [of bs "offsets ! i" "0x10" "[0]"] located_tail [of bs "offsets ! i" "0x10" "[0]" 1]
  by (simp add: Let_def be_nat_def)

lemma read_array:
  assumes "i < length offsets" "located bs (offsets ! i) (m # refs)" "m = 0xa0 OR of_nat (length refs)" "length refs < 15"
    and "all_some (map (\<lambda>r. bplist_object d bs offsets (unat r)) refs) = Some vs"
  shows "bplist_object (Suc d) bs offsets i = Some (PArray vs)"
proof -
  note below_fifteen [OF assms(4)]
  then have "drop_bit 4 m = 10" "unat (m AND 0x0f) = length refs" "m \<noteq> 8" "m \<noteq> 9" unfolding assms(3) by auto
  then show ?thesis using assms(1,5) located_marker [OF assms(2)] located_tail [OF assms(2), of "length refs"] by (simp add: Let_def)
qed

lemma read_dict:
  assumes "i < length offsets" "located bs (offsets ! i) (m # keys @ refs)" "m = 0xd0 OR of_nat (length keys)" "length keys < 15"
    and "length refs = length keys"
    and "all_some (map (\<lambda>r. bplist_object d bs offsets (unat r)) keys) = Some ks"
    and "all_some (map (\<lambda>r. bplist_object d bs offsets (unat r)) refs) = Some vs"
  shows "bplist_object (Suc d) bs offsets i = Some (PDict (zip ks vs))"
proof -
  note below_fifteen [OF assms(4)]
  then have "drop_bit 4 m = 13" "unat (m AND 0x0f) = length keys" "m \<noteq> 8" "m \<noteq> 9" unfolding assms(3) by auto
  moreover have "rds bs (offsets ! i + 1 + length keys) (length keys) = Some refs"
    using located_rds [OF assms(2), of "1 + length keys" "length keys"] assms(5) by (simp add: add.assoc)
  ultimately show ?thesis
    using assms(1,6,7) located_marker [OF assms(2)] located_tail [OF assms(2), of "length keys"] by (simp add: Let_def)
qed


declare bplist_object.simps [simp del]

definition ask_offsets :: "bytes list \<Rightarrow> nat list" where
  "ask_offsets objs = map (\<lambda>i. 8 + length (concat (take i objs))) [0..<33]"

lemma located_object:
  assumes "i < length objs"
  shows "located (ask_body objs) (8 + length (concat (take i objs))) (objs ! i)"
proof -
  have "concat objs = concat (take i objs) @ objs ! i @ concat (drop (Suc i) objs)"
    using assms by (metis id_take_nth_drop concat_append concat.simps(2))
  moreover obtain t where "ask_body objs = (ascii ''bplist00'' @ concat objs) @ t" by (simp add: ask_body_def Let_def)
  ultimately have "ask_body objs = (ascii ''bplist00'' @ concat (take i objs)) @ objs ! i @ concat (drop (Suc i) objs) @ t" by simp
  then show ?thesis
    unfolding located_def
    by (intro exI [of _ "ascii ''bplist00'' @ concat (take i objs)"] exI [of _ "concat (drop (Suc i) objs) @ t"]) simp
qed

lemma nth_block:
  assumes "\<And>i. length (f i) = k" "i < n"
  shows "take k (drop (i * k) (concat (map f [0..<n]))) = (f i :: 'a list)"
proof -
  have split: "[0..<n] = [0..<i] @ i # [Suc i..<n]"
    using assms(2) upt_add_eq_append [of 0 i "n - i"] by (simp add: upt_conv_Cons)
  have "length (concat (map f [0..<i])) = i * k" using length_const_concat [of "[0..<i]" f k] assms(1) by simp
  then show ?thesis unfolding split using assms(1) by simp
qed

lemma drop_tail: "length t = k \<Longrightarrow> drop (length (xs @ t) - k) (xs @ t) = t"
  by simp

lemma ask_trailer:
  assumes "length (concat objs) < 65528"
  defines "front \<equiv> ascii ''bplist00'' @ concat objs"
  defines "sz \<equiv> if length front \<le> 255 then 1 else 2 :: nat"
  shows "unat (trailer_bytes (of_nat sz) (length front) ! 6) = sz" "trailer_bytes (of_nat sz) (length front) ! 7 = 1"
    "be_nat (take 8 (drop 8 (trailer_bytes (of_nat sz) (length front)))) = 33"
    "be_nat (take 8 (drop 16 (trailer_bytes (of_nat sz) (length front)))) = 0"
    "be_nat (take 8 (drop 24 (trailer_bytes (of_nat sz) (length front)))) = length front"
proof -
  have f: "length front < 65536" using assms(1) by (simp add: front_def)
  show "unat (trailer_bytes (of_nat sz) (length front) ! 6) = sz" "trailer_bytes (of_nat sz) (length front) ! 7 = 1"
    by (simp_all add: trailer_bytes_def nth_append sz_def)
  show "be_nat (take 8 (drop 8 (trailer_bytes (of_nat sz) (length front)))) = 33"
    "be_nat (take 8 (drop 16 (trailer_bytes (of_nat sz) (length front)))) = 0"
    using be_nat_of_nat [of 33 8] be_nat_of_nat [of 0 8] by (simp_all add: trailer_bytes_def)
  show "be_nat (take 8 (drop 24 (trailer_bytes (of_nat sz) (length front)))) = length front"
    using be_nat_of_nat [of "length front" 8] f by (simp add: trailer_bytes_def)
qed

lemma ask_body_read:
  assumes n: "length objs = 33" and small: "length (concat objs) < 65528"
  shows "bplist_read (ask_body objs) = bplist_object 5 (ask_body objs) (ask_offsets objs) 0"
proof -
  define front where "front = ascii ''bplist00'' @ concat objs"
  define size where "size = (if length front \<le> 255 then 1 else 2 :: nat)"
  define entry where "entry = (\<lambda>i. be_bytes (of_nat (8 + length (concat (take i objs)))) size)"
  define table where "table = concat (map entry [0..<33])"
  define trailer where "trailer = trailer_bytes (of_nat size) (length front)"
  have body: "ask_body objs = front @ table @ trailer"
    by (simp add: ask_body_def front_def size_def table_def trailer_def entry_def Let_def)
  have t: "unat (trailer ! 6) = size" "trailer ! 7 = 1" "be_nat (take 8 (drop 8 trailer)) = 33"
    "be_nat (take 8 (drop 16 trailer)) = 0" "be_nat (take 8 (drop 24 trailer)) = length front"
    using ask_trailer [OF small] unfolding trailer_def size_def front_def by blast+
  have lt: "length trailer = 32" by (simp add: trailer_def length_trailer)
  have last: "drop (length (ask_body objs) - 32) (ask_body objs) = trailer"
    using drop_tail [OF lt, of "front @ table"] by (simp add: body)
  have ltab: "length table = 33 * size" using length_const_concat [of "[0..<33]" entry size] by (simp add: table_def entry_def)
  have offset: "be_nat (take size (drop (length front + i * size) (ask_body objs))) = 8 + length (concat (take i objs))" if "i < 33" for i
  proof -
    have "i * size + size \<le> length table" using that mult_le_mono1 [of "Suc i" 33 size] by (simp add: ltab)
    then have "take size (drop (length front + i * size) (ask_body objs)) = take size (drop (i * size) table)"
      by (simp add: body)
    also have "\<dots> = entry i" unfolding table_def by (rule nth_block) (simp_all add: entry_def that)
    finally have e: "take size (drop (length front + i * size) (ask_body objs)) = entry i" .
    have "8 + length (concat (take i objs)) \<le> length front" using length_concat_take [of i objs] by (simp add: front_def)
    then have "8 + length (concat (take i objs)) < 256 ^ size" using small by (auto simp: size_def front_def)
    then show ?thesis unfolding e entry_def by (rule be_nat_of_nat) (simp add: size_def)
  qed
  have offs: "map (\<lambda>i. be_nat (take size (drop (length front + i * size) (ask_body objs)))) [0..<33] = ask_offsets objs"
    unfolding ask_offsets_def by (intro map_cong refl offset) simp
  have head: "\<not> length (ask_body objs) < 40" "take 8 (ask_body objs) = ascii ''bplist00''"
    by (simp_all add: body lt front_def)
  show ?thesis unfolding bplist_read_def Let_def last t offs head(2) using head(1) by simp
qed

lemma length_ascii_object: "length (ascii_object v) \<le> length v + 3"
  by (simp add: ascii_object_def)

lemma length_integer_object: "length (integer_object v) \<le> 9"
  by (simp add: integer_object_def)

lemma ask_file_fields:
  assumes "ask_file_valid (Ptr file)"
  shows "length (deref (af_sender_computer_name file)) \<le> 127" "length (deref (af_sender_model_name file)) \<le> 127"
    "length (deref (af_sender_id file)) = 12" "length (deref (af_transfer_id file)) = 36"
    "length (deref (af_file_name file)) \<le> 253" "length (deref (af_file_type file)) \<le> 127"
  using assms by (simp_all add: ask_file_valid_def printable_ascii_def sender_id_valid_def file_name_valid_def
    espdrop_airdrop_transfer_id_valid_def split: if_splits)

lemma length_ask_objects:
  assumes "ask_file_valid (Ptr file)"
  shows "length (concat (ask_objects (ask_path file) file)) \<le> 1225"
proof -
  note f = ask_file_fields [OF assms]
  have "length (concat (map ascii_object top_keys)) = 109" "length (concat (map ascii_object entry_keys)) = 79"
    by (simp_all add: top_keys_def entry_keys_def ascii_object_def)
  moreover have "length (ascii_object (ascii ''com.apple.finder'')) = 19" "length (ascii_object (ascii ''id'')) = 3"
    "length (ascii_object (ascii ''files'')) = 6" by (simp_all add: ascii_object_def)
  moreover have "length (ask_path file) \<le> 255" using f by (simp add: ask_path_def)
  moreover note f length_integer_object [of "af_file_size file"]
    length_ascii_object [of "deref (af_sender_computer_name file)"] length_ascii_object [of "deref (af_sender_id file)"]
    length_ascii_object [of "deref (af_sender_model_name file)"] length_ascii_object [of "deref (af_transfer_id file)"]
    length_ascii_object [of "ask_path file"] length_ascii_object [of "deref (af_file_name file)"]
    length_ascii_object [of "deref (af_file_type file)"]
  ultimately show ?thesis by (simp add: ask_objects_def)
qed

lemma length_ask_body: "length (ask_body objs) \<le> length (concat objs) + 106"
  using length_const_concat [of "[0..<33]" "\<lambda>i. be_bytes (of_nat (8 + length (concat (take i objs)))) k" k for k]
  by (simp add: ask_body_def Let_def length_trailer)

section \<open>The announced dictionary\<close>

definition pstr :: "string \<Rightarrow> plist" where
  "pstr s = PString (ascii s)"

definition ask_dictionary :: "ask_file \<Rightarrow> plist" where
  "ask_dictionary file =
     PDict [(pstr ''BundleID'', pstr ''com.apple.finder''), (pstr ''ConvertMediaFormats'', PBool False),
       (pstr ''Files'', PArray [PDict [
          (pstr ''ConvertMediaFormats'', PInt 0), (pstr ''FileBomPath'', PString (ask_path file)), (pstr ''FileIsDirectory'', PBool False),
          (pstr ''FileName'', PString (deref (af_file_name file))), (pstr ''FileSize'', PInt (af_file_size file)),
          (pstr ''FileType'', PString (deref (af_file_type file)))]]),
       (pstr ''SenderComputerName'', PString (deref (af_sender_computer_name file))), (pstr ''SenderID'', PString (deref (af_sender_id file))),
       (pstr ''SenderModelName'', PString (deref (af_sender_model_name file))),
       (pstr ''TransferID'', PDict [(pstr ''id'', PString (deref (af_transfer_id file)))]),
       (pstr ''TransferType'', PDict [(pstr ''files'', PDict [])])]"

lemma ask_body_dictionary:
  assumes valid: "ask_file_valid (Ptr file)" and size: "af_file_size file \<le> SIZE_MAX"
  shows "bplist_read (ask_body (ask_objects (ask_path file) file)) = Some (ask_dictionary file)"
proof -
  define objs where "objs = ask_objects (ask_path file) file"
  define body where "body = ask_body objs"
  define offs where "offs = ask_offsets objs"
  have n: "length objs = 33" by (simp add: objs_def length_ask_groups)
  have at: "i < length offs" "located body (offs ! i) (objs ! i)" if "i < 33" for i
    using located_object [of i objs] that n by (simp_all add: body_def offs_def ask_offsets_def)
  note f = ask_file_fields [OF valid]
  have path: "length (ask_path file) \<le> 255" using f by (simp add: ask_path_def)
  have str: "bplist_object d body offs i = Some (PString v)" if "i < 33" "objs ! i = ascii_object v" "length v \<le> 255" "0 < d" for d i v
    using read_string [OF at(1), of i body v "d - 1"] at(2) [OF that(1)] that by simp
  have obj: "objs ! 0 = 0xd8 # [1, 2, 3, 4, 5, 6, 7, 8] @ [9, 10, 11, 12, 13, 14, 15, 16]" "objs ! 10 = [8]" "objs ! 11 = 0xa1 # [17]"
    "objs ! 15 = 0xd1 # [18] @ [19]" "objs ! 16 = 0xd1 # [20] @ [21]" "objs ! 17 = 0xd6 # [22, 23, 24, 25, 26, 27] @ [28, 29, 10, 30, 31, 32]"
    "objs ! 21 = 0xd0 # [] @ []" "objs ! 28 = [0x10, 0]" "objs ! 31 = integer_object (af_file_size file)"
    by (simp_all add: objs_def ask_objects_def top_keys_def entry_keys_def)
  have top: "bplist_object d body offs (i + 1) = Some (PString (top_keys ! i))" if "i < 8" "0 < d" for d i
  proof (rule str)
    show "objs ! (i + 1) = ascii_object (top_keys ! i)" using that by (simp add: objs_def ask_objects_def nth_append)
    show "length (top_keys ! i) \<le> 255" using that by (auto simp: top_keys_def less_Suc_eq numeral_eq_Suc)
  qed (use that in simp_all)
  have entry: "bplist_object d body offs (i + 22) = Some (PString (entry_keys ! i))" if "i < 6" "0 < d" for d i
  proof (rule str)
    show "objs ! (i + 22) = ascii_object (entry_keys ! i)" using that by (simp add: objs_def ask_objects_def nth_append)
    show "length (entry_keys ! i) \<le> 255" using that by (auto simp: entry_keys_def less_Suc_eq numeral_eq_Suc)
  qed (use that in simp_all)
  have others: "bplist_object d body offs 9 = Some (pstr ''com.apple.finder'')"
    "bplist_object d body offs 12 = Some (PString (deref (af_sender_computer_name file)))"
    "bplist_object d body offs 13 = Some (PString (deref (af_sender_id file)))"
    "bplist_object d body offs 14 = Some (PString (deref (af_sender_model_name file)))"
    "bplist_object d body offs 18 = Some (pstr ''id'')"
    "bplist_object d body offs 19 = Some (PString (deref (af_transfer_id file)))"
    "bplist_object d body offs 20 = Some (pstr ''files'')"
    "bplist_object d body offs 29 = Some (PString (ask_path file))"
    "bplist_object d body offs 30 = Some (PString (deref (af_file_name file)))"
    "bplist_object d body offs 32 = Some (PString (deref (af_file_type file)))" if "0 < d" for d
    unfolding pstr_def using that f path
    by (intro str, simp_all add: objs_def ask_objects_def top_keys_def entry_keys_def)+
  have simple: "bplist_object d body offs 10 = Some (PBool False)" "bplist_object d body offs 28 = Some (PInt 0)"
    "bplist_object d body offs 31 = Some (PInt (af_file_size file))" if "0 < d" for d
    using read_false [OF at(1), of 10 body "d - 1"] read_zero [OF at(1), of 28 body "d - 1"]
      read_integer [OF at(1), of 31 body "af_file_size file" "d - 1"] at(2) [of 10] at(2) [of 28] at(2) [of 31] obj size that
    by simp_all
  note leaf = top [of 0] top [of 1, unfolded one_add_one] top [of 2] top [of 3] top [of 4] top [of 5] top [of 6] top [of 7]
    entry [of 0] entry [of 1] entry [of 2] entry [of 3] entry [of 4] entry [of 5] others simple
  have files: "bplist_object (Suc 2) body offs 21 = Some (PDict (zip [] []))"
    by (rule read_dict [OF at(1) at(2) [of 21, unfolded obj]]) simp_all
  have record_: "bplist_object (Suc 2) body offs 17 = Some (PDict (zip (map PString entry_keys)
      [PInt 0, PString (ask_path file), PBool False, PString (deref (af_file_name file)), PInt (af_file_size file), PString (deref (af_file_type file))]))"
    by (rule read_dict [OF at(1) at(2) [of 17, unfolded obj]]) (use leaf in \<open>simp_all add: entry_keys_def\<close>)
  have files_array: "bplist_object (Suc 3) body offs 11 = Some (PArray [PDict (zip (map PString entry_keys)
      [PInt 0, PString (ask_path file), PBool False, PString (deref (af_file_name file)), PInt (af_file_size file), PString (deref (af_file_type file))])])"
    by (rule read_array [OF at(1) at(2) [of 11, unfolded obj]]) (use record_ in simp_all)
  have transfer: "bplist_object (Suc 3) body offs 15 = Some (PDict (zip [pstr ''id''] [PString (deref (af_transfer_id file))]))"
    by (rule read_dict [OF at(1) at(2) [of 15, unfolded obj]]) (use leaf in simp_all)
  have transfer_type: "bplist_object (Suc 3) body offs 16 = Some (PDict (zip [pstr ''files''] [PDict []]))"
    by (rule read_dict [OF at(1) at(2) [of 16, unfolded obj]]) (use leaf files in simp_all)
  have "bplist_object (Suc 4) body offs 0 = Some (PDict (zip (map PString top_keys)
     [pstr ''com.apple.finder'', PBool False, PArray [PDict (zip (map PString entry_keys)
      [PInt 0, PString (ask_path file), PBool False, PString (deref (af_file_name file)), PInt (af_file_size file), PString (deref (af_file_type file))])],
      PString (deref (af_sender_computer_name file)), PString (deref (af_sender_id file)), PString (deref (af_sender_model_name file)),
      PDict (zip [pstr ''id''] [PString (deref (af_transfer_id file))]), PDict (zip [pstr ''files''] [PDict []])]))"
    by (rule read_dict [OF at(1) at(2) [of 0, unfolded obj]])
      (use leaf files_array transfer transfer_type in \<open>simp_all add: top_keys_def\<close>)
  moreover have "bplist_read body = bplist_object 5 body offs 0"
    using ask_body_read [OF n] length_ask_objects [OF valid] by (simp add: body_def offs_def objs_def)
  ultimately show ?thesis
    by (simp add: body_def objs_def ask_dictionary_def pstr_def top_keys_def entry_keys_def)
qed

text \<open>The random identifiers are valid fields of the announcement.\<close>

lemma hex_digit_cases: "n < 16 \<Longrightarrow> is_upper_hex (upper_hex ! n)"
  "n < 16 \<Longrightarrow> (48 \<le> lower_hex ! n \<and> lower_hex ! n \<le> 57) \<or> (97 \<le> lower_hex ! n \<and> lower_hex ! n \<le> 102)"
proof -
  have "list_all is_upper_hex upper_hex" "list_all (\<lambda>b. (48 \<le> b \<and> b \<le> 57) \<or> (97 \<le> b \<and> b \<le> 102)) lower_hex"
    "length upper_hex = 16" "length lower_hex = 16"
    by code_simp+
  then show "n < 16 \<Longrightarrow> is_upper_hex (upper_hex ! n)"
    "n < 16 \<Longrightarrow> (48 \<le> lower_hex ! n \<and> lower_hex ! n \<le> 57) \<or> (97 \<le> lower_hex ! n \<and> lower_hex ! n \<le> 102)"
    by (simp_all only: list_all_length)
qed

lemma nibble_less: "unat (drop_bit 4 (b :: byte)) < 16" "unat (b AND 0x0f) < 16"
proof -
  have "unat (drop_bit 4 b) = drop_bit 4 (unat b)" by (rule unat_drop_bit_eq)
  then have "unat (drop_bit 4 b) = unat b div 16" by (simp only: drop_bit_eq_div) simp
  then show "unat (drop_bit 4 b) < 16" using unat_bound [of b] by simp
  have "b AND 0x0f \<le> 0x0f" by (rule word_and_le1)
  then show "unat (b AND 0x0f) < 16" by (simp add: word_le_nat_alt)
qed

lemma all_hex_pairs: "list_all is_upper_hex (concat (map (hex_pair upper_hex) bs))"
  "list_all (\<lambda>b. (48 \<le> b \<and> b \<le> 57) \<or> (97 \<le> b \<and> b \<le> 102)) (concat (map (hex_pair lower_hex) bs))"
  by (induction bs) (simp_all add: hex_pair_def hex_digit_cases [OF nibble_less(1)] hex_digit_cases [OF nibble_less(2)])

lemma length_hex_pairs: "length (concat (map (hex_pair alphabet) bs)) = 2 * length bs"
  using length_const_concat [of bs "hex_pair alphabet" 2] by (simp add: hex_pair_def)

lemma format_sender_id_valid:
  assumes "6 \<le> length r"
  shows "sender_id_valid (Ptr (espdrop_airdrop_format_sender_id r))"
  using assms by (simp add: sender_id_valid_def espdrop_airdrop_format_sender_id_def length_hex_pairs all_hex_pairs)

lemma list_all_upt: "list_all P [0..<n] = (\<forall>i. i < n \<longrightarrow> P i)"
  by (auto simp: list_all_iff)

lemma transfer_id_validI:
  "length v = 36 \<Longrightarrow> list_all (\<lambda>i. if i = 8 \<or> i = 13 \<or> i = 18 \<or> i = 23 then v ! i = 45 else is_upper_hex (v ! i)) [0..<36] \<Longrightarrow>
   espdrop_airdrop_transfer_id_valid (Ptr v)"
  by (simp only: espdrop_airdrop_transfer_id_valid_def ptr.sel ptr.distinct if_False simp_thms)

lemma dashed_valid:
  assumes "length a = 8" "length b = 4" "length c = 4" "length d = 4" "length e = 12"
    and "list_all is_upper_hex (a @ b @ c @ d @ e)"
  shows "espdrop_airdrop_transfer_id_valid (Ptr (a @ [45] @ b @ [45] @ c @ [45] @ d @ [45] @ e))"
proof -
  from assms(6) have hex: "list_all is_upper_hex a" "list_all is_upper_hex b" "list_all is_upper_hex c" "list_all is_upper_hex d"
    "list_all is_upper_hex e" by simp_all
  have "if i = 8 \<or> i = 13 \<or> i = 18 \<or> i = 23 then (a @ [45] @ b @ [45] @ c @ [45] @ d @ [45] @ e) ! i = 45
      else is_upper_hex ((a @ [45] @ b @ [45] @ c @ [45] @ d @ [45] @ e) ! i)" if "i < 36" for i
  proof -
    consider "i < 8" | "i = 8" | "8 < i" "i < 13" | "i = 13" | "13 < i" "i < 18" | "i = 18" | "18 < i" "i < 23" | "i = 23" | "23 < i"
      by linarith
    then show ?thesis by cases (use that hex assms(1-5) in \<open>auto simp: nth_append list_all_length\<close>)
  qed
  then have "list_all (\<lambda>i. if i = 8 \<or> i = 13 \<or> i = 18 \<or> i = 23 then (a @ [45] @ b @ [45] @ c @ [45] @ d @ [45] @ e) ! i = 45
      else is_upper_hex ((a @ [45] @ b @ [45] @ c @ [45] @ d @ [45] @ e) ! i)) [0..<36]"
    by (simp only: list_all_upt) blast
  from transfer_id_validI [OF _ this] show ?thesis by (simp add: assms(1-5))
qed

lemma format_transfer_id_valid:
  assumes "16 \<le> length r"
  shows "espdrop_airdrop_transfer_id_valid (Ptr (espdrop_airdrop_format_transfer_id r))"
  unfolding espdrop_airdrop_format_transfer_id_def Let_def
  using assms by (intro dashed_valid) (simp_all add: length_hex_pairs all_hex_pairs)

text \<open>
  C36. For a valid file the /Ask property list is always built: it fits the 1,536-byte buffer of the
  stack, stays inside it, and read back under the rules of the format (trailer, offset table, object
  references) it is the dictionary that announces the file.
\<close>

theorem ask_body_roundtrip:
  assumes "ask_file_valid (Ptr file)" "af_file_size file \<le> SIZE_MAX"
    and "ESPDROP_AIRDROP_ASK_BODY_MAX_BYTES \<le> capacity" "capacity \<le> length out"
  shows "\<exists>n out'. espdrop_airdrop_build_ask_body (Ptr out) capacity (Ptr file) = (n, Ptr out') \<and>
    0 < n \<and> n \<le> ESPDROP_AIRDROP_ASK_BODY_MAX_BYTES \<and> length out' = length out \<and> drop n out' = drop n out \<and>
    bplist_read (take n out') = Some (ask_dictionary file)"
proof -
  let ?body = "ask_body (ask_objects (ask_path file) file)"
  have small: "length ?body \<le> ESPDROP_AIRDROP_ASK_BODY_MAX_BYTES"
    using length_ask_body [of "ask_objects (ask_path file) file"] length_ask_objects [OF assms(1)]
    by (simp add: ESPDROP_AIRDROP_ASK_BODY_MAX_BYTES_def)
  have pos: "0 < length ?body" by (simp add: ask_body_def Let_def)
  have path: "length (ask_path file) < 256" using ask_file_fields [OF assms(1)] by (simp add: ask_path_def)
  have "espdrop_airdrop_build_ask_body (Ptr out) capacity (Ptr file) = (length ?body, Ptr (store out 0 ?body))"
    using small assms(3) by (intro build_ask_body_eq assms(1) path) (simp_all add: ESPDROP_AIRDROP_ASK_BODY_MAX_BYTES_def)
  moreover have "length (store out 0 ?body) = length out" "take (length ?body) (store out 0 ?body) = ?body"
    "drop (length ?body) (store out 0 ?body) = drop (length ?body) out"
    using small assms(3,4) by (simp_all add: store_def)
  ultimately show ?thesis using pos small ask_body_dictionary [OF assms(1,2)] by fastforce
qed

definition sample_ask_file :: ask_file where
  "sample_ask_file = \<lparr>af_sender_computer_name = Ptr (ascii ''espDrop''), af_sender_model_name = Ptr (ascii ''MacBookPro18,1''),
     af_sender_id = Ptr (ascii ''0123456789ab''), af_transfer_id = Ptr (ascii ''01234567-89AB-4CDE-8F01-23456789ABCD''),
     af_file_name = Ptr (ascii ''hello.txt''), af_file_type = Ptr (ascii ''public.plain-text''), af_file_size = 14\<rparr>"

theorem ask_body_roundtrip_witness:
  "\<exists>n out'. espdrop_airdrop_build_ask_body (Ptr (replicate 1536 0)) 1536 (Ptr sample_ask_file) = (n, Ptr out') \<and>
    0 < n \<and> n \<le> ESPDROP_AIRDROP_ASK_BODY_MAX_BYTES \<and> length out' = length (replicate 1536 (0 :: byte)) \<and>
    drop n out' = drop n (replicate 1536 0) \<and> bplist_read (take n out') = Some (ask_dictionary sample_ask_file)"
proof (rule ask_body_roundtrip)
  show "ask_file_valid (Ptr sample_ask_file)" by code_simp
qed (simp_all add: sample_ask_file_def SIZE_MAX_def ESPDROP_AIRDROP_ASK_BODY_MAX_BYTES_def)

end
