(* ===== verification/Stream_Context.thy ===== *)
theory Stream_Context
  imports Upload_Stream
begin

text \<open>
  Invariants of a sink's context: what every call of the sink keeps, accepted or refused, the
  streaming writers keep. The upload uses it for what must hold of the connection when a
  transfer fails, and for the compressor that stands between the archive and the connection.
\<close>

locale sink_invariant =
  fixes put :: "'w stream_write" and inv :: "'w \<Rightarrow> bool"
  assumes kept: "inv w \<Longrightarrow> put w d = (fin, w') \<Longrightarrow> inv w'"
begin

lemma kept_odc_bytes: "inv (ow_context w) \<Longrightarrow> write_odc_bytes put w d = (fin, w') \<Longrightarrow> inv (ow_context w')"
  using kept by (auto simp: write_odc_bytes_def split: if_splits prod.splits)

lemma kept_write_all: "inv (ow_context w) \<Longrightarrow> write_all put w ds = (fin, w') \<Longrightarrow> inv (ow_context w')"
  by (induction ds arbitrary: w) (auto simp: write_all.simps dest: kept_odc_bytes split: if_splits prod.splits)

lemma kept_padding: "inv (ow_context w) \<Longrightarrow> write_padding put k w = (fin, w') \<Longrightarrow> inv (ow_context w')"
proof (induction "ow_remaining w" arbitrary: w rule: less_induct)
  case less
  show ?case
  proof (cases "ow_remaining w > 0 \<and> k > 0")
    case False
    then show ?thesis using less.prems by (subst (asm) write_padding.simps) auto
  next
    case True
    define n where "n = (if ow_remaining w < k then ow_remaining w else k)"
    obtain ok w1 where w1: "write_odc_bytes put w (replicate n 0) = (ok, w1)" by force
    have inv1: "inv (ow_context w1)" using kept_odc_bytes [OF less.prems(1) w1] .
    show ?thesis
    proof (cases ok)
      case False
      then show ?thesis
        using less.prems(2) True w1 inv1 by (subst (asm) write_padding.simps) (simp add: Let_def n_def [symmetric] cong: if_cong)
    next
      case ok: True
      have "ow_remaining w1 < ow_remaining w"
        using w1 ok True by (auto simp: write_odc_bytes_def n_def split: if_splits prod.splits)
      moreover have "write_padding put k w1 = (fin, w')"
        using less.prems(2) True w1 ok by (subst (asm) write_padding.simps) (simp add: Let_def n_def [symmetric])
      ultimately show ?thesis using less.hyps inv1 by blast
    qed
  qed
qed

lemma kept_copy:
  "inv (ow_context (st_writer st)) \<Longrightarrow> copy_source get put k n crc st = (status, st') \<Longrightarrow> inv (ow_context (st_writer st'))"
proof (induction n arbitrary: crc st rule: less_induct)
  case (less n)
  show ?case
  proof (cases "n > 0 \<and> k > 0")
    case False
    then show ?thesis using less.prems by (subst (asm) copy_source.simps) auto
  next
    case True
    define m where "m = (if n < k then n else k)"
    have m: "n - m < n" using True by (auto simp: m_def)
    have round: "inv (ow_context (st_writer st'))"
      if "write_odc_bytes put (st_writer st) d = (True, w1)" "copy_source get put k (n - m) crc1 st1 = (status, st')"
        "st_writer st1 = w1" for d w1 crc1 st1
      using less.IH [OF m _ that(2)] kept_odc_bytes [OF less.prems(1) that(1)] that(3) by simp
    show ?thesis
      using less.prems True
      by (subst (asm) copy_source.simps)
        (auto simp: Let_def m_def [symmetric] dest: kept_odc_bytes round split: if_splits prod.splits cong: if_cong)
  qed
qed

text \<open>The same from the writer and the loop state that the function sets up.\<close>

lemma kept_first_writes:
  "write_all put \<lparr>ow_context = c, ow_remaining = n, ow_emitted = 0\<rparr> ds = (fin, w') \<Longrightarrow> inv c \<Longrightarrow> inv (ow_context w')"
  using kept_write_all [of "\<lparr>ow_context = c, ow_remaining = n, ow_emitted = 0\<rparr>"] by simp

lemma kept_whole_copy:
  "copy_source get put k n crc \<lparr>st_source = s, st_writer = w, st_workspace = ws, st_result = r\<rparr> = (status, st') \<Longrightarrow>
     inv (ow_context w) \<Longrightarrow> inv (ow_context (st_writer st'))"
  using kept_copy [of "\<lparr>st_source = s, st_writer = w, st_workspace = ws, st_result = r\<rparr>"] by simp

lemma kept_stream_odc:
  "inv c \<Longrightarrow> espdrop_airdrop_stream_odc source path mtime ws k (Ptr put) c r = (status, source', ws', c', r') \<Longrightarrow> inv c'"
  by (auto simp: espdrop_airdrop_stream_odc_def Let_def dest!: kept_first_writes kept_whole_copy kept_write_all [rotated] kept_padding [rotated]
      split: if_splits prod.splits option.splits)

lemma kept_open_block: "inv (sw_context w) \<Longrightarrow> open_block put w = (fin, w') \<Longrightarrow> inv (sw_context w')"
  using kept by (auto simp: open_block_def Let_def split: if_splits prod.splits)

lemma kept_portion: "inv (sw_context w) \<Longrightarrow> write_portion put w d = (fin, w') \<Longrightarrow> inv (sw_context w')"
  using kept by (auto simp: write_portion_def Let_def split: if_splits prod.splits)

lemma kept_stored_bytes: "inv (sw_context w) \<Longrightarrow> write_stored_archive_bytes put w d = (fin, w') \<Longrightarrow> inv (sw_context w')"
proof (induction "length d" arbitrary: w d rule: less_induct)
  case less
  have round: "inv (sw_context w')"
    if "open_block put w = (True, w1)" "write_portion put w1 e = (True, w2)"
      "write_stored_archive_bytes put w2 (drop (sw_block_remaining w1) d) = (fin, w')" "d \<noteq> []" "0 < sw_archive_remaining w" for w1 w2 e
    using less.hyps [OF _ _ that(3)] kept_portion [OF kept_open_block [OF less.prems(1) that(1)] that(2)]
      open_block_progress [OF _ that(1)] that(4,5) by simp
  have last: "w2 = w'" if "write_stored_archive_bytes put w2 [] = (fin, w')" for w2
    using that by (subst (asm) write_stored_archive_bytes.simps) simp
  show ?case
    using less.prems
    by (subst (asm) write_stored_archive_bytes.simps)
      (auto simp: Let_def dest: kept_open_block kept_portion round last split: if_splits prod.splits)
qed

lemma stored_kept: "sink_invariant (write_stored_archive_sink put) (\<lambda>w. inv (sw_context w))"
  by unfold_locales (auto simp: write_stored_archive_sink_def dest: kept_stored_bytes)

lemma kept_stream_stored_dvzip:
  "inv c \<Longrightarrow> espdrop_airdrop_stream_stored_dvzip source path mtime ws k (Ptr put) c r = (status, source', ws', c', r') \<Longrightarrow> inv c'"
  by (auto simp: espdrop_airdrop_stream_stored_dvzip_def Let_def dest!: sink_invariant.kept_stream_odc [OF stored_kept, rotated]
      split: if_splits prod.splits)

end

text \<open>The same for a source: what every read keeps, an archive streamed from it keeps.\<close>

locale source_invariant =
  fixes get :: "'s source_read" and inv :: "'s \<Rightarrow> bool"
  assumes kept: "inv s \<Longrightarrow> get s n = (ok, d, k, s') \<Longrightarrow> inv s'"
begin

lemma kept_fill: "inv s \<Longrightarrow> fill_workspace get s ws buffered n = (status, s', ws') \<Longrightarrow> inv s'"
proof (induction "n - buffered" arbitrary: s ws buffered rule: less_induct)
  case less
  obtain ok d k s1 where r: "get s (n - buffered) = (ok, d, k, s1)" by (metis prod_cases4)
  have s1: "inv s1" using kept [OF less.prems(1) r] .
  show ?case
  proof (cases "buffered < n \<and> ok \<and> 0 < k \<and> k \<le> n - buffered")
    case False
    then show ?thesis
      using less.prems r s1 by (subst (asm) fill_workspace.simps) (auto simp: Let_def split: if_splits)
  next
    case True
    then have "fill_workspace get s1 (store ws buffered d) (buffered + k) n = (status, s', ws')"
      using less.prems(2) r by (subst (asm) fill_workspace.simps) (simp add: Let_def)
    moreover have "n - (buffered + k) < n - buffered" using True by auto
    ultimately show ?thesis using less.hyps s1 by blast
  qed
qed

lemma kept_source_copy: "inv (st_source st) \<Longrightarrow> copy_source get put k n crc st = (status, st') \<Longrightarrow> inv (st_source st')"
proof (induction n arbitrary: crc st rule: less_induct)
  case (less n)
  show ?case
  proof (cases "n > 0 \<and> k > 0")
    case False
    then show ?thesis using less.prems by (subst (asm) copy_source.simps) auto
  next
    case True
    define m where "m = (if n < k then n else k)"
    have m: "n - m < n" using True by (auto simp: m_def)
    have round: "inv (st_source st')"
      if "fill_workspace get (st_source st) (st_workspace st) 0 m = (fin, c, ws)"
        "copy_source get put k (n - m) crc1 st1 = (status, st')" "st_source st1 = c" for fin c ws crc1 st1
      using less.IH [OF m _ that(2)] kept_fill [OF less.prems(1) that(1)] that(3) by simp
    show ?thesis
      using less.prems True
      by (subst (asm) copy_source.simps)
        (auto simp: Let_def m_def [symmetric] dest: kept_fill round split: if_splits prod.splits cong: if_cong)
  qed
qed

lemma kept_source_odc:
  assumes "src_read s = Ptr get" "inv (src_context s)"
    and run: "espdrop_airdrop_stream_odc (Ptr s) path mtime ws k put c r = (status, source', ws', c', r')"
  shows "\<exists>x. source' = Ptr (s\<lparr>src_context := x\<rparr>) \<and> inv x"
proof -
  have same: "s\<lparr>src_context := src_context s\<rparr> = s" by simp
  have copied: "inv (st_source st')" if "copy_source get put' k n crc \<lparr>st_source = src_context s, st_writer = w, st_workspace = ws1, st_result = r1\<rparr> = (fin, st')"
    for put' n crc w ws1 r1 fin st' using kept_source_copy [OF _ that] assms(2) by simp
  show ?thesis
    using run assms(1,2) same
    by (auto simp: espdrop_airdrop_stream_odc_def Let_def dest: copied intro: exI [of _ "src_context s"]
        split: if_splits prod.splits option.splits)
qed

end

interpretation fixture_kept: source_invariant read_fixture_source "\<lambda>s. fx_data s = file" for "file"
  by unfold_locales (auto simp: read_fixture_source_def Let_def split: if_splits)

end
