(* ===== verification/Tls_Transport.thy ===== *)
theory Tls_Transport
  imports Stream_Context Airdrop_Http Airdrop_Ask "HOL-Library.Sublist"
begin

text \<open>
  The transport of the sender, \<^verbatim>\<open>src/core/src/airdrop_tls.c\<close>: writing a request before a deadline,
  the chunked sink of the upload and the loop that reads a response. The TLS library, the clock,
  the scheduler and the random generator are parameters (\<open>platform\<close>); \<open>platform_ok\<close> states their
  documented behaviour over two observations of the outside world, the clock and the plain bytes
  written to the connection. A loop that would run forever is \<open>None\<close>; under \<open>platform_ok\<close> every
  loop returns.
\<close>

section \<open>The platform\<close>

text \<open>
  \<open>'e\<close> is the outside world with the TLS and random generator contexts. A C \<open>int\<close> status is an
  \<open>int\<close>; \<open>pf_ssl_read\<close> also gives the bytes it put into the buffer.
\<close>

record 'e platform =
  pf_esp_timer_get_time :: "'e \<Rightarrow> int \<times> 'e"
  pf_task_delay_ms :: "nat \<Rightarrow> 'e \<Rightarrow> 'e"
  pf_ssl_write :: "bytes \<Rightarrow> 'e \<Rightarrow> int \<times> 'e"
  pf_ssl_read :: "nat \<Rightarrow> 'e \<Rightarrow> int \<times> bytes \<times> 'e"
  pf_ctr_drbg_random :: "nat \<Rightarrow> 'e \<Rightarrow> int \<times> bytes \<times> 'e"
  pf_ssl_want_read :: int
  pf_ssl_want_write :: int
  pf_ssl_timeout :: int
  pf_ssl_peer_close_notify :: int

definition want_io :: "'e platform \<Rightarrow> int \<Rightarrow> bool" where
  "want_io p status \<longleftrightarrow> status = pf_ssl_want_read p \<or> status = pf_ssl_want_write p"

text \<open>
  The documented behaviour: time does not run backwards and passes during a delay; a positive
  status of a write is the number of bytes taken from the front, any other status takes none; a
  positive status of a read is the number of bytes stored, at most the capacity; the random
  generator fills its output when it succeeds. The error codes are negative, and the timeout is
  none of the two retry codes.
\<close>

definition platform_ok :: "'e platform \<Rightarrow> ('e \<Rightarrow> int) \<Rightarrow> ('e \<Rightarrow> bytes) \<Rightarrow> bool" where
  "platform_ok p clock wire \<longleftrightarrow>
     (\<forall>e t e'. pf_esp_timer_get_time p e = (t, e') \<longrightarrow> clock e \<le> t \<and> t \<le> clock e' \<and> wire e' = wire e) \<and>
     (\<forall>n e. 0 < n \<longrightarrow> clock e < clock (pf_task_delay_ms p n e) \<and> wire (pf_task_delay_ms p n e) = wire e) \<and>
     (\<forall>d e n e'. pf_ssl_write p d e = (n, e') \<longrightarrow> clock e \<le> clock e' \<and> nat n \<le> length d \<and> wire e' = wire e @ take (nat n) d) \<and>
     (\<forall>k e n d e'. pf_ssl_read p k e = (n, d, e') \<longrightarrow> clock e \<le> clock e' \<and> wire e' = wire e \<and> length d = nat n \<and> nat n \<le> k) \<and>
     (\<forall>k e n d e'. pf_ctr_drbg_random p k e = (n, d, e') \<longrightarrow> clock e \<le> clock e' \<and> wire e' = wire e \<and> (n = 0 \<longrightarrow> length d = k)) \<and>
     pf_ssl_want_read p < 0 \<and> pf_ssl_want_write p < 0 \<and> pf_ssl_timeout p < 0 \<and> pf_ssl_peer_close_notify p < 0"

lemma platform_time: "platform_ok p clock wire \<Longrightarrow> pf_esp_timer_get_time p e = (t, e') \<Longrightarrow> clock e \<le> t \<and> t \<le> clock e' \<and> wire e' = wire e"
  and platform_delay: "platform_ok p clock wire \<Longrightarrow> 0 < n \<Longrightarrow>
    clock e < clock (pf_task_delay_ms p n e) \<and> wire (pf_task_delay_ms p n e) = wire e"
  and platform_write: "platform_ok p clock wire \<Longrightarrow> pf_ssl_write p d e = (m, e') \<Longrightarrow>
    clock e \<le> clock e' \<and> nat m \<le> length d \<and> wire e' = wire e @ take (nat m) d"
  and platform_read: "platform_ok p clock wire \<Longrightarrow> pf_ssl_read p n e = (m, d, e') \<Longrightarrow>
    clock e \<le> clock e' \<and> wire e' = wire e \<and> length d = nat m \<and> nat m \<le> n"
  and platform_random: "platform_ok p clock wire \<Longrightarrow> pf_ctr_drbg_random p n e = (m, d, e') \<Longrightarrow>
    clock e \<le> clock e' \<and> wire e' = wire e \<and> (m = 0 \<longrightarrow> length d = n)"
  and platform_codes: "platform_ok p clock wire \<Longrightarrow> want_io p status \<Longrightarrow> status < 0"
  unfolding platform_ok_def want_io_def by blast+

section \<open>Writing a request\<close>

text \<open>The loop gives the error status that ended it, if any, and the number of bytes written.\<close>

partial_function (option) write_tls_loop ::
  "'e platform \<Rightarrow> bytes \<Rightarrow> int \<Rightarrow> nat \<Rightarrow> 'e \<Rightarrow> (int option \<times> nat \<times> 'e) option" where
  "write_tls_loop p request deadline_us written e =
     (if written < length request then
        (case pf_esp_timer_get_time p e of (now, e1) \<Rightarrow>
           if now < deadline_us then
             (case pf_ssl_write p (drop written request) e1 of (status, e2) \<Rightarrow>
                if status > 0 then write_tls_loop p request deadline_us (written + nat status) e2
                else if want_io p status then write_tls_loop p request deadline_us written (pf_task_delay_ms p 10 e2)
                else Some (Some status, written, e2))
           else Some (None, written, e1))
      else Some (None, written, e))"

definition write_tls_request :: "'e platform \<Rightarrow> bytes \<Rightarrow> int \<Rightarrow> int \<Rightarrow> 'e \<Rightarrow> (bool \<times> int \<times> 'e) option" where
  "write_tls_request p request deadline_us error e = do {
     (failure, written, e1) \<leftarrow> write_tls_loop p request deadline_us 0 e;
     case failure of
       Some status \<Rightarrow> Some (False, status, e1)
     | None \<Rightarrow>
         if written \<noteq> length request then Some (False, pf_ssl_timeout p, e1)
         else Some (True, error, e1) }"

lemma write_tls_loop_returns:
  assumes ok: "platform_ok p clock wire"
  shows "written \<le> length request \<Longrightarrow>
    returns (write_tls_loop p request deadline_us written e) (\<lambda>(failure, n, e').
      written \<le> n \<and> n \<le> length request \<and> wire e' = wire e @ take (n - written) (drop written request) \<and> clock e \<le> clock e' \<and>
      (n < length request \<and> failure = None \<longrightarrow> deadline_us \<le> clock e') \<and> (\<forall>s. failure = Some s \<longrightarrow> s \<le> 0))"
proof (induction "(length request - written, nat (deadline_us - clock e))" arbitrary: written e
    rule: wf_induct_rule [OF wf_lex_prod [OF wf_less_than wf_less_than]])
  case 1
  note IH = 1(1) and le = 1(2)
  obtain now e1 where t: "pf_esp_timer_get_time p e = (now, e1)" by force
  obtain status e2 where w: "pf_ssl_write p (drop written request) e1 = (status, e2)" by force
  note tp = platform_time [OF ok t] and wp = platform_write [OF ok w]
  note dp = platform_delay [OF ok, of 10 e2]
  have split: "take (n - written) (drop written request) = take k (drop written request) @ take (n - (written + k)) (drop (written + k) request)"
    if "written + k \<le> n" for n k
    using that take_add [of k "n - (written + k)" "drop written request"] by (simp add: add.commute)
  have whole: "take k (drop written request) @ drop (written + k) request = drop written request" for k
    by (metis append_take_drop_id drop_drop add.commute)
  show ?case
  proof (cases "written < length request \<and> now < deadline_us")
    case False
    then show ?thesis
      unfolding returns_def using t tp le by (subst write_tls_loop.simps) (auto simp: write_tls_loop.simps)
  next
    case True
    consider "status > 0" | "status \<le> 0" "want_io p status" | "status \<le> 0" "\<not> want_io p status" by linarith
    then show ?thesis
    proof cases
      case 1
      have "returns (write_tls_loop p request deadline_us (written + nat status) e2) (\<lambda>(failure, n, e').
        written + nat status \<le> n \<and> n \<le> length request \<and> wire e' = wire e2 @ take (n - (written + nat status)) (drop (written + nat status) request) \<and>
        clock e2 \<le> clock e' \<and> (n < length request \<and> failure = None \<longrightarrow> deadline_us \<le> clock e') \<and> (\<forall>s. failure = Some s \<longrightarrow> s \<le> 0))"
        by (rule IH) (use True 1 wp in auto)
      then show ?thesis
        using True t w 1 tp wp by (subst write_tls_loop.simps) (auto simp: split whole elim!: ok_mono)
    next
      case 2
      have "returns (write_tls_loop p request deadline_us written (pf_task_delay_ms p 10 e2)) (\<lambda>(failure, n, e').
        written \<le> n \<and> n \<le> length request \<and> wire e' = wire (pf_task_delay_ms p 10 e2) @ take (n - written) (drop written request) \<and>
        clock (pf_task_delay_ms p 10 e2) \<le> clock e' \<and> (n < length request \<and> failure = None \<longrightarrow> deadline_us \<le> clock e') \<and> (\<forall>s. failure = Some s \<longrightarrow> s \<le> 0))"
        by (rule IH) (use True 2 wp tp dp le in auto)
      then show ?thesis
        using True t w 2 tp wp dp by (subst write_tls_loop.simps) (auto elim!: ok_mono)
    next
      case 3
      then show ?thesis
        using True t w tp wp by (subst write_tls_loop.simps) (simp add: returns_def)
    qed
  qed
qed

lemma write_tls_request_returns:
  assumes ok: "platform_ok p clock wire"
  shows "returns (write_tls_request p request deadline_us error e) (\<lambda>(sent, err, e').
    clock e \<le> clock e' \<and> prefix (wire e') (wire e @ request) \<and> prefix (wire e) (wire e') \<and>
    (sent \<longrightarrow> err = error \<and> wire e' = wire e @ request) \<and> (\<not> sent \<longrightarrow> err \<le> 0))"
proof -
  have pre: "prefix (take k request) request" for k by (rule take_is_prefix)
  have t: "pf_ssl_timeout p < 0" using ok by (simp add: platform_ok_def)
  show ?thesis
    unfolding write_tls_request_def
    by (rule ok_bind [OF write_tls_loop_returns [OF ok]])
      (use pre t in \<open>auto simp: returns_def split: option.splits\<close>)
qed

section \<open>The chunked sink\<close>

definition AIRDROP_UPLOAD_NETWORK_BUFFER_BYTES :: nat where "AIRDROP_UPLOAD_NETWORK_BUFFER_BYTES = 16384"
definition AIRDROP_UPLOAD_TLS_WRITE_BYTES :: nat where "AIRDROP_UPLOAD_TLS_WRITE_BYTES = 2048"

record upload_result =
  ur_attempted :: bool
  ur_response_complete :: bool
  ur_transfer_id_continuity :: bool
  ur_error :: int
  ur_stream_status :: stream_status
  ur_http_status :: nat
  ur_request_bytes :: nat
  ur_payload_bytes :: nat
  ur_archive_bytes :: nat
  ur_compressed_bytes :: nat
  ur_file_bytes :: nat
  ur_dvzip_blocks :: nat
  ur_workspace_high_water :: nat
  ur_response_bytes :: nat
  ur_body_bytes :: nat
  ur_source_crc32 :: u32
  ur_stored_blocks :: bool
  ur_transfer_id :: bytes

definition upload_result_zero :: upload_result where
  "upload_result_zero = \<lparr>ur_attempted = False, ur_response_complete = False, ur_transfer_id_continuity = False, ur_error = 0,
     ur_stream_status = STREAM_OK, ur_http_status = 0, ur_request_bytes = 0, ur_payload_bytes = 0, ur_archive_bytes = 0,
     ur_compressed_bytes = 0, ur_file_bytes = 0, ur_dvzip_blocks = 0, ur_workspace_high_water = 0, ur_response_bytes = 0,
     ur_body_bytes = 0, ur_source_crc32 = 0, ur_stored_blocks = False, ur_transfer_id = []\<rparr>"

definition write_upload_part ::
  "'e platform \<Rightarrow> bytes \<Rightarrow> int \<Rightarrow> upload_result \<times> 'e \<Rightarrow> (bool \<times> upload_result \<times> 'e) option" where
  "write_upload_part p v deadline_us re = (case re of (result, e) \<Rightarrow> do {
     (sent, error, e1) \<leftarrow> write_tls_request p v deadline_us (ur_error result) e;
     let result1 = result\<lparr>ur_error := error\<rparr>;
     if \<not> sent then Some (False, result1, e1)
     else Some (True, result1\<lparr>ur_request_bytes := ur_request_bytes result1 + length v\<rparr>, e1) })"

text \<open>The sink; its connection and the upload result it updates are the pair \<open>uk_out\<close>.\<close>

record 'e chunk_sink =
  uk_out :: "upload_result \<times> 'e"
  uk_deadline_us :: int
  uk_buffer :: bytes
  uk_capacity :: nat
  uk_used :: nat

definition sink_part :: "'e platform \<Rightarrow> bytes \<Rightarrow> 'e chunk_sink \<Rightarrow> (bool \<times> 'e chunk_sink) option" where
  "sink_part p v sink = do {
     (ok, out) \<leftarrow> write_upload_part p v (uk_deadline_us sink) (uk_out sink);
     Some (ok, sink\<lparr>uk_out := out\<rparr>) }"

partial_function (option) flush_pieces :: "'e platform \<Rightarrow> nat \<Rightarrow> 'e chunk_sink \<Rightarrow> (bool \<times> 'e chunk_sink) option" where
  "flush_pieces p sent sink =
     (if sent < uk_used sink then
        let remaining = uk_used sink - sent;
            bytes = (if remaining < AIRDROP_UPLOAD_TLS_WRITE_BYTES then remaining else AIRDROP_UPLOAD_TLS_WRITE_BYTES) in
        do {
          (ok, sink1) \<leftarrow> sink_part p (take bytes (drop sent (uk_buffer sink))) sink;
          if \<not> ok then Some (False, sink1) else flush_pieces p (sent + bytes) sink1 }
      else Some (True, sink))"

definition flush_upload_chunk :: "'e platform \<Rightarrow> 'e chunk_sink \<Rightarrow> (bool \<times> 'e chunk_sink) option" where
  "flush_upload_chunk p sink =
     (if uk_used sink = 0 then Some (True, sink)
      else
        case espdrop_airdrop_build_chunk_prefix (Ptr (replicate 32 0)) 32 (uk_used sink) of (prefix_bytes, prefix_text) \<Rightarrow>
        if prefix_bytes = 0 then Some (False, sink)
        else do {
          (ok, sink1) \<leftarrow> sink_part p (take prefix_bytes (deref prefix_text)) sink;
          if \<not> ok then Some (False, sink1)
          else do {
            (ok2, sink2) \<leftarrow> flush_pieces p 0 sink1;
            if \<not> ok2 then Some (False, sink2)
            else do {
              (ok3, sink3) \<leftarrow> sink_part p [13, 10] sink2;
              if \<not> ok3 then Some (False, sink3) else Some (True, sink3\<lparr>uk_used := 0\<rparr>) } } })"

partial_function (option) buffer_upload_chunk :: "'e platform \<Rightarrow> 'e chunk_sink \<Rightarrow> bytes \<Rightarrow> (bool \<times> 'e chunk_sink) option" where
  "buffer_upload_chunk p sink data =
     (if length data > 0 then do {
        (ok, sink1) \<leftarrow> (if uk_used sink = uk_capacity sink then flush_upload_chunk p sink else Some (True, sink));
        if \<not> ok then Some (False, sink1)
        else
          let available = uk_capacity sink1 - uk_used sink1;
              portion = (if length data < available then length data else available) in
          buffer_upload_chunk p
            (sink1\<lparr>uk_buffer := store (uk_buffer sink1) (uk_used sink1) (take portion data), uk_used := uk_used sink1 + portion\<rparr>)
            (drop portion data) }
      else Some (True, sink))"

text \<open>As a callback of the streaming writer; a context that never came back is \<open>None\<close>.\<close>

definition chunk_write :: "'e platform \<Rightarrow> 'e chunk_sink option stream_write" where
  "chunk_write p context data =
     (case context of
        None \<Rightarrow> (False, None)
      | Some sink \<Rightarrow>
          (case buffer_upload_chunk p sink data of None \<Rightarrow> (False, None) | Some (ok, sink1) \<Rightarrow> (ok, Some sink1)))"

section \<open>The sink delivers chunks\<close>

text \<open>Whatever a call does, it returns, time does not run backwards and only two fields of the result change.\<close>

definition out_frame :: "upload_result \<Rightarrow> upload_result \<Rightarrow> bool" where
  "out_frame r r' \<longleftrightarrow> r' = r\<lparr>ur_error := ur_error r', ur_request_bytes := ur_request_bytes r'\<rparr>"

lemma out_frame_refl [simp]: "out_frame r r"
  by (simp add: out_frame_def)

lemma out_frame_trans: "out_frame a b \<Longrightarrow> out_frame b c \<Longrightarrow> out_frame a c"
  unfolding out_frame_def by (cases a, cases b, cases c) simp

lemma write_upload_part_returns:
  assumes ok: "platform_ok p clock wire"
  shows "returns (write_upload_part p v deadline_us (r, e)) (\<lambda>(sent, r', e').
    clock e \<le> clock e' \<and> out_frame r r' \<and> prefix (wire e) (wire e') \<and>
    (sent \<longrightarrow> wire e' = wire e @ v \<and> r' = r\<lparr>ur_request_bytes := ur_request_bytes r + length v\<rparr>))"
  unfolding write_upload_part_def prod.case
  by (rule ok_bind [OF write_tls_request_returns [OF ok]]) (auto simp: returns_def out_frame_def Let_def)

text \<open>A sink differs from another only in its connection and result.\<close>

definition sink_frame :: "('e \<Rightarrow> int) \<Rightarrow> ('e \<Rightarrow> bytes) \<Rightarrow> 'e chunk_sink \<Rightarrow> 'e chunk_sink \<Rightarrow> bool" where
  "sink_frame clock wire s s' \<longleftrightarrow> s' = s\<lparr>uk_out := uk_out s'\<rparr> \<and> out_frame (fst (uk_out s)) (fst (uk_out s')) \<and>
     clock (snd (uk_out s)) \<le> clock (snd (uk_out s')) \<and> prefix (wire (snd (uk_out s))) (wire (snd (uk_out s')))"

lemma sink_frame_refl [simp]: "sink_frame clock wire s s"
  by (simp add: sink_frame_def)

lemma sink_frame_trans: "sink_frame clock wire a b \<Longrightarrow> sink_frame clock wire b c \<Longrightarrow> sink_frame clock wire a c"
  unfolding sink_frame_def
  by (metis (no_types, lifting) chunk_sink.surjective chunk_sink.update_convs(1) order_trans out_frame_trans prefix_order.trans)

text \<open>\<open>sent_on s s' v\<close>: the bytes \<open>v\<close> went out and were counted.\<close>

definition sent_on :: "('e \<Rightarrow> bytes) \<Rightarrow> 'e chunk_sink \<Rightarrow> 'e chunk_sink \<Rightarrow> bytes \<Rightarrow> bool" where
  "sent_on wire s s' v \<longleftrightarrow> wire (snd (uk_out s')) = wire (snd (uk_out s)) @ v \<and>
     fst (uk_out s') = (fst (uk_out s))\<lparr>ur_request_bytes := ur_request_bytes (fst (uk_out s)) + length v\<rparr>"

lemma sent_on_Nil [simp]: "sent_on wire s s []"
  by (simp add: sent_on_def)

lemma sent_on_append: "sent_on wire a b u \<Longrightarrow> sent_on wire b c v \<Longrightarrow> sent_on wire a c (u @ v)"
  by (simp add: sent_on_def)

lemma sink_part_returns:
  assumes ok: "platform_ok p clock wire"
  shows "returns (sink_part p v s) (\<lambda>(sent, s'). sink_frame clock wire s s' \<and> (sent \<longrightarrow> sent_on wire s s' v))"
proof (cases "uk_out s")
  case (Pair r e)
  show ?thesis
    unfolding sink_part_def Pair
    by (rule ok_bind [OF write_upload_part_returns [OF ok]]) (auto simp: returns_def sink_frame_def sent_on_def Pair)
qed

lemma flush_pieces_returns:
  assumes ok: "platform_ok p clock wire"
  shows "uk_used s \<le> length (uk_buffer s) \<Longrightarrow> sent \<le> uk_used s \<Longrightarrow>
    returns (flush_pieces p sent s) (\<lambda>(fin, s'). sink_frame clock wire s s' \<and>
      (fin \<longrightarrow> sent_on wire s s' (take (uk_used s - sent) (drop sent (uk_buffer s)))))"
proof (induction "uk_used s - sent" arbitrary: sent s rule: less_induct)
  case less
  show ?case
  proof (cases "sent < uk_used s")
    case False
    then show ?thesis using less.prems by (subst flush_pieces.simps) (simp add: returns_def)
  next
    case True
    define k where "k = (if uk_used s - sent < AIRDROP_UPLOAD_TLS_WRITE_BYTES then uk_used s - sent else AIRDROP_UPLOAD_TLS_WRITE_BYTES)"
    have k: "0 < k" "sent + k \<le> uk_used s" using True by (auto simp: k_def AIRDROP_UPLOAD_TLS_WRITE_BYTES_def)
    have piece: "take k (drop sent (uk_buffer s)) @ take (uk_used s - (sent + k)) (drop (sent + k) (uk_buffer s)) =
        take (uk_used s - sent) (drop sent (uk_buffer s))"
      using k take_add [of k "uk_used s - (sent + k)" "drop sent (uk_buffer s)"] by (simp add: add.commute)
    have "returns (flush_pieces p (sent + k) s1) (\<lambda>(fin, s'). sink_frame clock wire s s' \<and>
        (fin \<longrightarrow> sent_on wire s s' (take (uk_used s - sent) (drop sent (uk_buffer s)))))"
      if f: "sink_frame clock wire s s1" "sent_on wire s s1 (take k (drop sent (uk_buffer s)))" for s1
    proof -
      have same: "uk_used s1 = uk_used s" "uk_buffer s1 = uk_buffer s"
        using f(1) unfolding sink_frame_def by (metis chunk_sink.select_convs(3,5) chunk_sink.surjective chunk_sink.update_convs(1))+
      have "returns (flush_pieces p (sent + k) s1) (\<lambda>(fin, s'). sink_frame clock wire s1 s' \<and>
          (fin \<longrightarrow> sent_on wire s1 s' (take (uk_used s1 - (sent + k)) (drop (sent + k) (uk_buffer s1)))))"
        by (rule less.hyps) (use k less.prems same in auto)
      then show ?thesis
        by (rule ok_mono)
          (auto simp: same piece [symmetric] intro: sink_frame_trans [OF f(1)] sent_on_append [OF f(2)])
    qed
    note rest = this
    have step: "flush_pieces p sent s = sink_part p (take k (drop sent (uk_buffer s))) s \<bind>
        (\<lambda>(ok, s1). if \<not> ok then Some (False, s1) else flush_pieces p (sent + k) s1)"
      using True by (subst flush_pieces.simps) (simp only: Let_def True if_True k_def)
    show ?thesis
      unfolding step by (rule ok_bind [OF sink_part_returns [OF ok]]) (auto intro!: ok_Some rest)
  qed
qed

lemma chunk_prefix_built:
  assumes "0 < n" "n \<le> 16384"
  shows "espdrop_airdrop_build_chunk_prefix (Ptr (replicate 32 0)) 32 n =
    (length (digits 16 n @ [13, 10]), Ptr (store (replicate 32 0) 0 (digits 16 n @ [13, 10, 0])))"
    and "length (digits 16 n) \<le> 4"
proof -
  show l: "length (digits 16 n) \<le> 4" using assms by (intro length_digits_le) simp_all
  show "espdrop_airdrop_build_chunk_prefix (Ptr (replicate 32 0)) 32 n =
    (length (digits 16 n @ [13, 10]), Ptr (store (replicate 32 0) 0 (digits 16 n @ [13, 10, 0])))"
    using assms l by (simp add: espdrop_airdrop_build_chunk_prefix_def Let_def snprintf_into_def)
qed

lemma flush_upload_chunk_returns:
  assumes ok: "platform_ok p clock wire" and used: "uk_used s \<le> length (uk_buffer s)" "uk_used s \<le> 16384"
  shows "returns (flush_upload_chunk p s) (\<lambda>(fin, s'). sink_frame clock wire s (s'\<lparr>uk_used := uk_used s\<rparr>) \<and> uk_used s' \<le> uk_used s \<and>
      (fin \<longrightarrow> uk_used s' = 0 \<and>
        sent_on wire s s' (if uk_used s = 0 then [] else chunk_bytes (take (uk_used s) (uk_buffer s)))))"
proof (cases "uk_used s = 0")
  case True
  then have "s\<lparr>uk_used := 0\<rparr> = s" by (cases s) simp
  with True show ?thesis by (simp add: flush_upload_chunk_def returns_def \<open>s\<lparr>uk_used := 0\<rparr> = s\<close>)
next
  case False
  define n where "n = uk_used s"
  define head where "head = digits 16 n @ [13, 10 :: byte]"
  note pre = chunk_prefix_built [of n]
  have n: "0 < n" "n \<le> 16384" using False used by (simp_all add: n_def)
  have l: "length head \<le> 6" "length head \<noteq> 0" using pre(2) [OF n] by (simp_all add: head_def)
  have build: "espdrop_airdrop_build_chunk_prefix (Ptr (replicate 32 0)) 32 n = (length head, Ptr (store (replicate 32 0) 0 (head @ [0])))"
    using pre(1) [OF n] by (simp add: head_def)
  have taken: "take (length head) (store (replicate 32 0) 0 (head @ [0])) = head" by (simp add: store_def)
  have out: "sink_frame clock wire s (t\<lparr>uk_used := uk_used s\<rparr>) \<and> uk_used t = n \<and> uk_used t \<le> uk_used s \<and> uk_buffer t = uk_buffer s" if "sink_frame clock wire s t" for t
    using that by (cases s, cases t) (simp add: sink_frame_def n_def)
  have rest: "returns (flush_pieces p 0 s1 \<bind> (\<lambda>(ok2, s2). if \<not> ok2 then Some (False, s2)
      else sink_part p [13, 10] s2 \<bind> (\<lambda>(ok3, s3). if \<not> ok3 then Some (False, s3) else Some (True, s3\<lparr>uk_used := 0\<rparr>))))
      (\<lambda>(fin, s'). sink_frame clock wire s (s'\<lparr>uk_used := uk_used s\<rparr>) \<and> uk_used s' \<le> uk_used s \<and>
        (fin \<longrightarrow> uk_used s' = 0 \<and> sent_on wire s s' (chunk_bytes (take n (uk_buffer s)))))"
    if s1: "sink_frame clock wire s s1" "sent_on wire s s1 head" for s1
  proof (rule ok_bind [OF flush_pieces_returns [OF ok]])
    show "uk_used s1 \<le> length (uk_buffer s1)" using out [OF s1(1)] used by (simp add: n_def)
  next
    fix v assume v: "case v of (fin, s') \<Rightarrow> sink_frame clock wire s1 s' \<and>
      (fin \<longrightarrow> sent_on wire s1 s' (take (uk_used s1 - 0) (drop 0 (uk_buffer s1))))"
    obtain ok2 s2 where v2: "v = (ok2, s2)" by force
    have f2: "sink_frame clock wire s s2" using v v2 sink_frame_trans [OF s1(1)] by auto
    show "returns (case v of (ok2, s2) \<Rightarrow> if \<not> ok2 then Some (False, s2)
      else sink_part p [13, 10] s2 \<bind> (\<lambda>(ok3, s3). if \<not> ok3 then Some (False, s3) else Some (True, s3\<lparr>uk_used := 0\<rparr>)))
      (\<lambda>(fin, s'). sink_frame clock wire s (s'\<lparr>uk_used := uk_used s\<rparr>) \<and> uk_used s' \<le> uk_used s \<and>
        (fin \<longrightarrow> uk_used s' = 0 \<and> sent_on wire s s' (chunk_bytes (take n (uk_buffer s)))))"
    proof (cases ok2)
      case False
      then show ?thesis using out [OF f2] v2 by (simp add: returns_def)
    next
      case True
      have sent2: "sent_on wire s s2 (head @ take n (uk_buffer s))"
        using v v2 True out [OF s1(1)] sent_on_append [OF s1(2)] by auto
      have sent3: "sent_on wire s s3 (chunk_bytes (take n (uk_buffer s)))" if "sent_on wire s2 s3 [13, 10]" for s3
        using sent_on_append [OF sent2 that] n(1) used by (simp add: chunk_bytes_def head_def n_def min_absorb2)
      have last: "sink_frame clock wire s2 s3 \<Longrightarrow> sink_frame clock wire s (s3\<lparr>uk_used := uk_used s\<rparr>) \<and> uk_used s3 \<le> uk_used s"
        "sent_on wire s2 s3 [13, 10] \<Longrightarrow> sent_on wire s (s3\<lparr>uk_used := 0\<rparr>) (chunk_bytes (take n (uk_buffer s)))" for s3
        using out [OF sink_frame_trans [OF f2]] sent3 by (auto simp: sent_on_def)
      have "returns (sink_part p [13, 10] s2 \<bind> (\<lambda>(ok3, s3). if \<not> ok3 then Some (False, s3) else Some (True, s3\<lparr>uk_used := 0\<rparr>)))
        (\<lambda>(fin, s'). sink_frame clock wire s (s'\<lparr>uk_used := uk_used s\<rparr>) \<and> uk_used s' \<le> uk_used s \<and>
          (fin \<longrightarrow> uk_used s' = 0 \<and> sent_on wire s s' (chunk_bytes (take n (uk_buffer s)))))"
        by (rule ok_bind [OF sink_part_returns [OF ok]]) (auto intro!: ok_Some simp: last)
      then show ?thesis by (simp add: v2 True)
    qed
  qed simp
  have "returns (sink_part p head s \<bind> (\<lambda>(ok1, s1). if \<not> ok1 then Some (False, s1) else flush_pieces p 0 s1 \<bind>
      (\<lambda>(ok2, s2). if \<not> ok2 then Some (False, s2)
        else sink_part p [13, 10] s2 \<bind> (\<lambda>(ok3, s3). if \<not> ok3 then Some (False, s3) else Some (True, s3\<lparr>uk_used := 0\<rparr>)))))
      (\<lambda>(fin, s'). sink_frame clock wire s (s'\<lparr>uk_used := uk_used s\<rparr>) \<and> uk_used s' \<le> uk_used s \<and>
        (fin \<longrightarrow> uk_used s' = 0 \<and> sent_on wire s s' (chunk_bytes (take n (uk_buffer s)))))"
    by (rule ok_bind [OF sink_part_returns [OF ok]]) (auto intro!: ok_Some dest: out rest split: if_splits)
  then show ?thesis
    using n(1) l(2) unfolding flush_upload_chunk_def n_def [symmetric] build prod.case ptr.sel taken by simp
qed

text \<open>
  A sink created when \<open>base\<close> was on the wire and \<open>n0\<close> request bytes were counted has taken \<open>xs\<close>: whole chunks are
  sent and counted, the rest is in the buffer.
\<close>

definition sink_ok :: "'e chunk_sink \<Rightarrow> bool" where
  "sink_ok s \<longleftrightarrow> 0 < uk_capacity s \<and> uk_capacity s \<le> 16384 \<and> length (uk_buffer s) = uk_capacity s \<and> uk_used s \<le> uk_capacity s"

definition chunks_sent :: "('e \<Rightarrow> bytes) \<Rightarrow> nat \<Rightarrow> bytes \<Rightarrow> 'e chunk_sink \<Rightarrow> bytes \<Rightarrow> bytes list \<Rightarrow> bool" where
  "chunks_sent wire n0 base s xs cs \<longleftrightarrow> list_all (\<lambda>c. c \<noteq> []) cs \<and> xs = concat cs @ take (uk_used s) (uk_buffer s) \<and>
     wire (snd (uk_out s)) = base @ concat (map chunk_bytes cs) \<and>
     ur_request_bytes (fst (uk_out s)) = n0 + length (concat (map chunk_bytes cs))"

definition sink_takes :: "('e \<Rightarrow> bytes) \<Rightarrow> 'e chunk_sink \<Rightarrow> 'e chunk_sink \<Rightarrow> bytes \<Rightarrow> bool" where
  "sink_takes wire s s' d \<longleftrightarrow> (\<forall>n0 base xs cs. chunks_sent wire n0 base s xs cs \<longrightarrow> (\<exists>cs'. chunks_sent wire n0 base s' (xs @ d) cs'))"

definition sink_keeps :: "('e \<Rightarrow> int) \<Rightarrow> 'e chunk_sink \<Rightarrow> 'e chunk_sink \<Rightarrow> bool" where
  "sink_keeps clock s s' \<longleftrightarrow> sink_ok s' \<and> uk_capacity s' = uk_capacity s \<and> uk_deadline_us s' = uk_deadline_us s \<and>
     out_frame (fst (uk_out s)) (fst (uk_out s')) \<and> clock (snd (uk_out s)) \<le> clock (snd (uk_out s'))"

lemma sink_takes_Nil: "sink_takes wire s s []"
  by (auto simp: sink_takes_def)

lemma sink_takesD: "sink_takes wire s s' d \<Longrightarrow> chunks_sent wire n0 base s xs cs \<Longrightarrow> \<exists>cs'. chunks_sent wire n0 base s' (xs @ d) cs'"
  unfolding sink_takes_def by blast

lemma sink_takes_append: "sink_takes wire a b u \<Longrightarrow> sink_takes wire b c v \<Longrightarrow> sink_takes wire a c (u @ v)"
  unfolding sink_takes_def by (metis append_assoc)

lemma sink_keeps_trans: "sink_keeps clock a b \<Longrightarrow> sink_keeps clock b c \<Longrightarrow> sink_keeps clock a c"
  unfolding sink_keeps_def using out_frame_trans by auto

lemma sink_keeps_refl: "sink_ok s \<Longrightarrow> sink_keeps clock s s"
  by (simp add: sink_keeps_def)

lemma flush_takes:
  assumes ok: "platform_ok p clock wire" and s: "sink_ok s"
  shows "returns (flush_upload_chunk p s) (\<lambda>(fin, s'). sink_keeps clock s s' \<and> (fin \<longrightarrow> uk_used s' = 0 \<and> sink_takes wire s s' []))"
proof (rule ok_mono [OF flush_upload_chunk_returns [OF ok]])
  show "uk_used s \<le> length (uk_buffer s)" "uk_used s \<le> 16384" using s by (auto simp: sink_ok_def)
next
  fix v
  let ?d = "if uk_used s = 0 then [] else chunk_bytes (take (uk_used s) (uk_buffer s))"
  assume v: "case v of (fin, s') \<Rightarrow> sink_frame clock wire s (s'\<lparr>uk_used := uk_used s\<rparr>) \<and> uk_used s' \<le> uk_used s \<and> (fin \<longrightarrow> uk_used s' = 0 \<and> sent_on wire s s' ?d)"
  obtain fin s' where p: "v = (fin, s')" by force
  have f: "uk_buffer s' = uk_buffer s" "uk_capacity s' = uk_capacity s" "uk_deadline_us s' = uk_deadline_us s"
    "out_frame (fst (uk_out s)) (fst (uk_out s'))" "clock (snd (uk_out s)) \<le> clock (snd (uk_out s'))"
    using v p by (cases s, cases s', auto simp: sink_frame_def)+
  have takes: "sink_takes wire s s' []" if d: "uk_used s' = 0" "sent_on wire s s' ?d"
    unfolding sink_takes_def
  proof (intro allI impI)
    fix n0 base xs cs assume c: "chunks_sent wire n0 base s xs cs"
    have "chunks_sent wire n0 base s' (xs @ []) (if uk_used s = 0 then cs else cs @ [take (uk_used s) (uk_buffer s)])"
      using c d s by (auto simp: chunks_sent_def sent_on_def sink_ok_def)
    then show "\<exists>cs'. chunks_sent wire n0 base s' (xs @ []) cs'" by blast
  qed
  have "uk_used s' \<le> uk_capacity s'" using v p f s by (auto simp: sink_ok_def)
  show "case v of (fin, s') \<Rightarrow> sink_keeps clock s s' \<and> (fin \<longrightarrow> uk_used s' = 0 \<and> sink_takes wire s s' [])"
    using v p f s takes by (auto simp: sink_keeps_def sink_ok_def)
qed

lemma store_takes:
  assumes s: "sink_ok s" and d: "uk_used s + length d \<le> uk_capacity s"
  defines "s' \<equiv> s\<lparr>uk_buffer := store (uk_buffer s) (uk_used s) d, uk_used := uk_used s + length d\<rparr>"
  shows "sink_keeps clock s s'" "sink_takes wire s s' d"
proof -
  have "take (uk_used s + length d) (store (uk_buffer s) (uk_used s) d) = take (uk_used s) (uk_buffer s) @ d"
    using s d by (simp add: store_def sink_ok_def min_absorb2)
  then show "sink_takes wire s s' d" by (auto simp: sink_takes_def chunks_sent_def s'_def)
  show "sink_keeps clock s s'" using s d by (simp add: sink_keeps_def sink_ok_def s'_def)
qed

lemma buffer_upload_chunk_returns:
  assumes ok: "platform_ok p clock wire"
  shows "sink_ok s \<Longrightarrow> returns (buffer_upload_chunk p s d) (\<lambda>(fin, s'). sink_keeps clock s s' \<and> (fin \<longrightarrow> sink_takes wire s s' d))"
proof (induction "length d" arbitrary: s d rule: less_induct)
  case less
  show ?case
  proof (cases "d = []")
    case True
    then show ?thesis using less.prems by (subst buffer_upload_chunk.simps) (simp add: returns_def sink_keeps_refl sink_takes_Nil)
  next
    case False
    let ?Q = "\<lambda>(fin, s'). sink_keeps clock s s' \<and> (fin \<longrightarrow> sink_takes wire s s' d)"
    define go where "go = (\<lambda>s1. let available = uk_capacity s1 - uk_used s1; portion = (if length d < available then length d else available) in
      buffer_upload_chunk p (s1\<lparr>uk_buffer := store (uk_buffer s1) (uk_used s1) (take portion d), uk_used := uk_used s1 + portion\<rparr>) (drop portion d))"
    have rest: "returns (go s1) ?Q"
      if k: "sink_keeps clock s s1" and room: "uk_used s1 < uk_capacity s1" and t: "sink_takes wire s s1 []" for s1
    proof -
      define portion where "portion = (if length d < uk_capacity s1 - uk_used s1 then length d else uk_capacity s1 - uk_used s1)"
      have p: "0 < portion" "portion \<le> length d" "uk_used s1 + portion \<le> uk_capacity s1" using room False by (auto simp: portion_def)
      define s2 where "s2 = s1\<lparr>uk_buffer := store (uk_buffer s1) (uk_used s1) (take portion d), uk_used := uk_used s1 + portion\<rparr>"
      have s1: "sink_ok s1" using k by (simp add: sink_keeps_def)
      have len: "length (take portion d) = portion" using p by simp
      note st = store_takes [OF s1, of "take portion d", unfolded len, folded s2_def]
      have "returns (buffer_upload_chunk p s2 (drop portion d)) (\<lambda>(fin, s'). sink_keeps clock s2 s' \<and> (fin \<longrightarrow> sink_takes wire s2 s' (drop portion d)))"
        by (rule less.hyps) (use p False st(1) in \<open>auto simp: sink_keeps_def\<close>)
      then have "returns (buffer_upload_chunk p s2 (drop portion d)) ?Q"
        using sink_keeps_trans [OF sink_keeps_trans [OF k st(1) [of clock]]] 
          sink_takes_append [OF sink_takes_append [OF t st(2) [of wire]], of _ "drop portion d"] p(3)
        by (elim ok_mono) auto
      then show ?thesis by (simp add: go_def Let_def portion_def s2_def)
    qed
    have step: "buffer_upload_chunk p s d = (if uk_used s = uk_capacity s then flush_upload_chunk p s else Some (True, s)) \<bind>
        (\<lambda>(ok, s1). if \<not> ok then Some (False, s1) else go s1)"
      using False unfolding go_def by (subst buffer_upload_chunk.simps) simp
    show ?thesis
    proof (cases "uk_used s = uk_capacity s")
      case False
      then show ?thesis unfolding step using rest [OF sink_keeps_refl [OF less.prems] _ sink_takes_Nil] less.prems
        by (simp add: sink_ok_def)
    next
      case True
      have room: "uk_used s1 < uk_capacity s1" if "sink_keeps clock s s1" "uk_used s1 = 0" for s1
        using that by (simp add: sink_keeps_def sink_ok_def)
      show ?thesis
        unfolding step using True
        by simp (rule ok_bind [OF flush_takes [OF ok less.prems]],
          auto intro!: ok_Some rest room)
    qed
  qed
qed

section \<open>The chunked sink as an interface\<close>

definition chunk_accepted ::
  "'e platform \<Rightarrow> ('e \<Rightarrow> int) \<Rightarrow> ('e \<Rightarrow> bytes) \<Rightarrow> nat \<Rightarrow> bytes \<Rightarrow> 'e chunk_sink option \<Rightarrow> bytes \<Rightarrow> bool" where
  "chunk_accepted p clock wire n0 base context xs \<longleftrightarrow>
     platform_ok p clock wire \<and> (\<exists>s cs. context = Some s \<and> sink_ok s \<and> chunks_sent wire n0 base s xs cs)"

lemma chunk_write_cases:
  assumes "platform_ok p clock wire" "sink_ok s"
  obtains fin s' where "chunk_write p (Some s) d = (fin, Some s')" "sink_keeps clock s s'" "fin \<longrightarrow> sink_takes wire s s' d"
proof -
  obtain fin s' where "buffer_upload_chunk p s d = Some (fin, s')" "sink_keeps clock s s'" "fin \<longrightarrow> sink_takes wire s s' d"
    using buffer_upload_chunk_returns [OF assms, of d] by (auto simp: returns_def)
  then show thesis by (intro that) (simp_all add: chunk_write_def)
qed

interpretation chunk: byte_sink "chunk_write p" "chunk_accepted p clock wire n0 base" for p clock wire n0 base
proof
  fix w w' :: "'a chunk_sink option" and xs d
  assume a: "chunk_accepted p clock wire n0 base w xs" and w': "chunk_write p w d = (True, w')"
  then obtain s cs where s: "platform_ok p clock wire" "w = Some s" "sink_ok s" "chunks_sent wire n0 base s xs cs"
    by (auto simp: chunk_accepted_def)
  obtain fin s' where c: "chunk_write p (Some s) d = (fin, Some s')" "sink_keeps clock s s'" "fin \<longrightarrow> sink_takes wire s s' d"
    using chunk_write_cases [OF s(1,3)] by blast
  have "sink_takes wire s s' d" using c s(2) w' by simp
  from sink_takesD [OF this s(4)] show "chunk_accepted p clock wire n0 base w' (xs @ d)"
    using s c w' unfolding chunk_accepted_def sink_keeps_def by auto
qed

interpretation stored_chunk: stored_sink "chunk_write p" "chunk_accepted p clock wire n0 base" payload n
  for p clock wire n0 base payload n
  by (rule stored_sink.intro) (rule chunk.byte_sink_axioms)

interpretation fixture_upload: upload_stream read_fixture_source fixture_pending "chunk_write p" "chunk_accepted p clock wire n0 base"
  for p clock wire n0 base
  by (intro upload_stream.intro fixture.byte_source_axioms chunk.byte_sink_axioms)

section \<open>Reading a response\<close>

text \<open>
  The three requests share one loop, written out three times in the code; they differ in the parser
  they call, the error codes and the fields they copy. The loop's way out is an outcome.
\<close>

datatype response_outcome = RO_OVERFLOW | RO_STATUS int | RO_COMPLETE http_result | RO_UNPARSED http_result
  | RO_DEADLINE "http_result option"

type_synonym response_parser = "bytes ptr \<Rightarrow> bool \<Rightarrow> http_result ptr \<Rightarrow> (http_parse \<times> http_result ptr) option"

partial_function (option) read_response ::
  "'e platform \<Rightarrow> response_parser \<Rightarrow> int \<Rightarrow> bytes \<Rightarrow> nat \<Rightarrow> 'e \<Rightarrow> (response_outcome \<times> nat \<times> bytes \<times> 'e) option" where
  "read_response p parse deadline_us buffer received e =
     (case pf_esp_timer_get_time p e of (now, e1) \<Rightarrow>
        if now < deadline_us then
          if received = length buffer then Some (RO_OVERFLOW, received, buffer, e1)
          else
            (case pf_ssl_read p (length buffer - received) e1 of (status, data, e2) \<Rightarrow>
               let buffer1 = store buffer received data;
                   received1 = (if status > 0 then received + nat status else received);
                   end_of_stream = (status \<le> 0 \<and> (status = 0 \<or> status = pf_ssl_peer_close_notify p)) in
               if status \<le> 0 \<and> want_io p status then
                 read_response p parse deadline_us buffer1 received1 (pf_task_delay_ms p 10 e2)
               else if status \<le> 0 \<and> \<not> end_of_stream then Some (RO_STATUS status, received1, buffer1, e2)
               else do {
                 (verdict, parsed) \<leftarrow> parse (Ptr (take received1 buffer1)) end_of_stream (Ptr http_result_zero);
                 if verdict = HTTP_COMPLETE then Some (RO_COMPLETE (deref parsed), received1, buffer1, e2)
                 else if verdict = HTTP_INVALID \<or> end_of_stream then Some (RO_UNPARSED (deref parsed), received1, buffer1, e2)
                 else read_response p parse deadline_us buffer1 received1 e2 })
        else do {
          (verdict, parsed) \<leftarrow> parse (Ptr (take received buffer)) False (Ptr http_result_zero);
          Some (RO_DEADLINE (if verdict \<noteq> HTTP_INVALID then Some (deref parsed) else None), received, buffer, e1) })"

text \<open>A parser that returns on every input, as the three of the code do.\<close>

definition parser_total :: "response_parser \<Rightarrow> bool" where
  "parser_total parse \<longleftrightarrow> (\<forall>xs fin r. returns (parse (Ptr xs) fin (Ptr r)) (\<lambda>_. True))"

lemma response_parsers_total: "parser_total espdrop_airdrop_parse_discover_response" "parser_total espdrop_airdrop_parse_ask_response"
  "parser_total espdrop_airdrop_parse_upload_response"
  by (auto simp: parser_total_def espdrop_airdrop_parse_ask_response_def espdrop_airdrop_parse_upload_response_def
      intro: ok_mono [OF parse_response_returns])

text \<open>The loop returns; a complete response is a verdict of the parser on the bytes received.\<close>

lemma read_response_returns:
  assumes ok: "platform_ok p clock wire" and parser: "parser_total parse"
  shows "received \<le> length buffer \<Longrightarrow>
    returns (read_response p parse deadline_us buffer received e) (\<lambda>(outcome, n, buffer', e').
      received \<le> n \<and> n \<le> length buffer \<and> length buffer' = length buffer \<and> wire e' = wire e \<and> clock e \<le> clock e' \<and>
      (\<forall>r. outcome = RO_COMPLETE r \<longrightarrow> (\<exists>fin r'. parse (Ptr (take n buffer')) fin (Ptr http_result_zero) = Some (HTTP_COMPLETE, r') \<and> r = deref r')))"
proof (induction "(length buffer - received, nat (deadline_us - clock e))" arbitrary: received buffer e
    rule: wf_induct_rule [OF wf_lex_prod [OF wf_less_than wf_less_than]])
  case 1
  note IH = 1(1) and le = 1(2)
  obtain now e1 where t: "pf_esp_timer_get_time p e = (now, e1)" by force
  obtain status data e2 where r: "pf_ssl_read p (length buffer - received) e1 = (status, data, e2)" by (metis prod_cases3)
  note tp = platform_time [OF ok t] and rp = platform_read [OF ok r] and dp = platform_delay [OF ok, of 10 e2]
  have parsed: "\<exists>v r'. parse (Ptr xs) fin (Ptr http_result_zero) = Some (v, r')" for xs fin
    using parser by (auto simp: parser_total_def returns_def)
  have len: "length (store buffer received data) = length buffer"
    using rp le by (intro length_store) linarith
  show ?case
  proof (cases "now < deadline_us \<and> received \<noteq> length buffer")
    case False
    then show ?thesis
      using t tp le parsed [of "take received buffer" False] by (subst read_response.simps) (auto simp: returns_def)
  next
    case True
    consider "status > 0" | "status \<le> 0" "want_io p status" | "status \<le> 0" "\<not> want_io p status" by linarith
    then show ?thesis
    proof cases
      case 1
      let ?b = "store buffer received data"
      have "returns (read_response p parse deadline_us ?b (received + nat status) e2) (\<lambda>(outcome, n, buffer', e').
        received + nat status \<le> n \<and> n \<le> length ?b \<and> length buffer' = length ?b \<and> wire e' = wire e2 \<and> clock e2 \<le> clock e' \<and>
        (\<forall>r. outcome = RO_COMPLETE r \<longrightarrow> (\<exists>fin r'. parse (Ptr (take n buffer')) fin (Ptr http_result_zero) = Some (HTTP_COMPLETE, r') \<and> r = deref r')))"
        by (rule IH) (use True 1 rp le len in auto)
      moreover obtain v r' where v: "parse (Ptr (take (received + nat status) ?b)) False (Ptr http_result_zero) = Some (v, r')"
        using parsed by blast
      ultimately show ?thesis
        using True t r 1 tp rp le len
        by (subst read_response.simps) (auto simp: Let_def returns_def)
    next
      case 2
      let ?b = "store buffer received data"
      have "returns (read_response p parse deadline_us ?b received (pf_task_delay_ms p 10 e2)) (\<lambda>(outcome, n, buffer', e').
        received \<le> n \<and> n \<le> length ?b \<and> length buffer' = length ?b \<and> wire e' = wire (pf_task_delay_ms p 10 e2) \<and>
        clock (pf_task_delay_ms p 10 e2) \<le> clock e' \<and>
        (\<forall>r. outcome = RO_COMPLETE r \<longrightarrow> (\<exists>fin r'. parse (Ptr (take n buffer')) fin (Ptr http_result_zero) = Some (HTTP_COMPLETE, r') \<and> r = deref r')))"
        by (rule IH) (use True 2 rp tp dp le len in auto)
      then show ?thesis
        using True t r 2 tp rp dp le len
        by (subst read_response.simps) (auto simp: Let_def returns_def)
    next
      case 3
      have data: "data = []" using rp 3 by simp
      obtain v r' where v: "parse (Ptr (take received buffer)) True (Ptr http_result_zero) = Some (v, r')" using parsed by blast
      have "pf_ssl_peer_close_notify p \<le> 0" using ok by (simp add: platform_ok_def)
      then show ?thesis
        using True t r 3 tp rp le v unfolding data
        by (subst read_response.simps) (auto simp: Let_def returns_def)
    qed
  qed
qed

end
