(* ===== verification/Airdrop_Tls.thy ===== *)
theory Airdrop_Tls
  imports Tls_Transport Airdrop_Outgoing
begin

text \<open>
  The sender's sessions, \<^verbatim>\<open>src/core/src/airdrop_tls.c\<close>: /Discover, /Ask and /Upload on a TLS
  connection, the handshake around them and the entry points that combine them. The file's static
  buffers are part of the state; the compressor and the set-up calls of the TLS library are
  parameters. The build options of the TLS and the upload lab are on.
\<close>

section \<open>Constants and results\<close>

definition AIRDROP_DISCOVER_REQUEST_BYTES :: nat where "AIRDROP_DISCOVER_REQUEST_BYTES = 512"
definition AIRDROP_DISCOVER_RESPONSE_BYTES :: nat where "AIRDROP_DISCOVER_RESPONSE_BYTES = 4096"
definition AIRDROP_DISCOVER_ERROR_BUILD :: int where "AIRDROP_DISCOVER_ERROR_BUILD = -1"
definition AIRDROP_DISCOVER_ERROR_PARSE :: int where "AIRDROP_DISCOVER_ERROR_PARSE = -2"
definition AIRDROP_DISCOVER_ERROR_OVERFLOW :: int where "AIRDROP_DISCOVER_ERROR_OVERFLOW = -3"
definition AIRDROP_ASK_ERROR_BUILD :: int where "AIRDROP_ASK_ERROR_BUILD = -11"
definition AIRDROP_ASK_ERROR_RANDOM :: int where "AIRDROP_ASK_ERROR_RANDOM = -12"
definition AIRDROP_ASK_ERROR_PARSE :: int where "AIRDROP_ASK_ERROR_PARSE = -13"
definition AIRDROP_ASK_ERROR_OVERFLOW :: int where "AIRDROP_ASK_ERROR_OVERFLOW = -14"
definition AIRDROP_ASK_RESPONSE_BYTES :: nat where "AIRDROP_ASK_RESPONSE_BYTES = 4096"
definition AIRDROP_UPLOAD_ERROR_RANDOM :: int where "AIRDROP_UPLOAD_ERROR_RANDOM = -21"
definition AIRDROP_UPLOAD_ERROR_ARCHIVE :: int where "AIRDROP_UPLOAD_ERROR_ARCHIVE = -22"
definition AIRDROP_UPLOAD_ERROR_COMPRESS :: int where "AIRDROP_UPLOAD_ERROR_COMPRESS = -23"
definition AIRDROP_UPLOAD_ERROR_BUILD :: int where "AIRDROP_UPLOAD_ERROR_BUILD = -24"
definition AIRDROP_UPLOAD_ERROR_PARSE :: int where "AIRDROP_UPLOAD_ERROR_PARSE = -25"
definition AIRDROP_UPLOAD_ERROR_OVERFLOW :: int where "AIRDROP_UPLOAD_ERROR_OVERFLOW = -26"
definition AIRDROP_UPLOAD_ERROR_STREAM :: int where "AIRDROP_UPLOAD_ERROR_STREAM = -27"
definition AIRDROP_UPLOAD_HEAD_BYTES :: nat where "AIRDROP_UPLOAD_HEAD_BYTES = 512"
definition AIRDROP_UPLOAD_RESPONSE_BYTES :: nat where "AIRDROP_UPLOAD_RESPONSE_BYTES = 1024"
definition AIRDROP_UPLOAD_WORKSPACE_BYTES :: nat where "AIRDROP_UPLOAD_WORKSPACE_BYTES = 2048"

record tls_result =
  tr_connected :: bool
  tr_peer_certificate_present :: bool
  tr_error :: int
  tr_verify_flags :: u32
  tr_peer_certificate_bytes :: nat
  tr_version :: bytes
  tr_ciphersuite :: bytes

definition tls_result_zero :: tls_result where
  "tls_result_zero = \<lparr>tr_connected = False, tr_peer_certificate_present = False, tr_error = 0, tr_verify_flags = 0,
     tr_peer_certificate_bytes = 0, tr_version = [], tr_ciphersuite = []\<rparr>"

record discover_result =
  dr_attempted :: bool
  dr_response_complete :: bool
  dr_error :: int
  dr_http_status :: nat
  dr_request_bytes :: nat
  dr_response_bytes :: nat
  dr_body_bytes :: nat
  dr_binary_plist :: bool
  dr_receiver_computer_name_key :: bool
  dr_chunked :: bool
  dr_content_type :: bytes
  dr_content_encoding :: bytes

definition discover_result_zero :: discover_result where
  "discover_result_zero = \<lparr>dr_attempted = False, dr_response_complete = False, dr_error = 0, dr_http_status = 0,
     dr_request_bytes = 0, dr_response_bytes = 0, dr_body_bytes = 0, dr_binary_plist = False,
     dr_receiver_computer_name_key = False, dr_chunked = False, dr_content_type = [], dr_content_encoding = []\<rparr>"

record ask_result =
  ar_attempted :: bool
  ar_response_complete :: bool
  ar_error :: int
  ar_http_status :: nat
  ar_body_bytes :: nat
  ar_request_bytes :: nat
  ar_response_bytes :: nat
  ar_binary_plist :: bool
  ar_chunked :: bool
  ar_receiver_computer_name_key :: bool
  ar_ids_session_id_key :: bool
  ar_receiver_pseudonym_key :: bool
  ar_receiver_push_token_key :: bool
  ar_transfer_id :: bytes

definition ask_result_zero :: ask_result where
  "ask_result_zero = \<lparr>ar_attempted = False, ar_response_complete = False, ar_error = 0, ar_http_status = 0, ar_body_bytes = 0,
     ar_request_bytes = 0, ar_response_bytes = 0, ar_binary_plist = False, ar_chunked = False,
     ar_receiver_computer_name_key = False, ar_ids_session_id_key = False, ar_receiver_pseudonym_key = False,
     ar_receiver_push_token_key = False, ar_transfer_id = []\<rparr>"

text \<open>The outside world and the static buffers.\<close>

record 'e tls_state =
  ts_env :: 'e
  ts_discover_request :: bytes
  ts_discover_response :: bytes
  ts_ask_body :: bytes
  ts_ask_request :: bytes
  ts_ask_response :: bytes
  ts_upload_workspace :: bytes
  ts_upload_network_buffer :: bytes
  ts_upload_head :: bytes
  ts_upload_response :: bytes

definition static_buffers :: "'e tls_state \<Rightarrow> bool" where
  "static_buffers st \<longleftrightarrow>
     length (ts_discover_request st) = AIRDROP_DISCOVER_REQUEST_BYTES \<and>
     length (ts_discover_response st) = AIRDROP_DISCOVER_RESPONSE_BYTES \<and>
     length (ts_ask_body st) = ESPDROP_AIRDROP_ASK_BODY_MAX_BYTES \<and>
     length (ts_ask_request st) = ESPDROP_AIRDROP_ASK_REQUEST_MAX_BYTES \<and>
     length (ts_ask_response st) = AIRDROP_ASK_RESPONSE_BYTES \<and>
     AIRDROP_UPLOAD_WORKSPACE_BYTES \<le> length (ts_upload_workspace st) \<and>
     length (ts_upload_network_buffer st) = AIRDROP_UPLOAD_NETWORK_BUFFER_BYTES \<and>
     length (ts_upload_head st) = AIRDROP_UPLOAD_HEAD_BYTES \<and>
     length (ts_upload_response st) = AIRDROP_UPLOAD_RESPONSE_BYTES"

text \<open>The build's parameters: the test image and the largest transfer.\<close>

record tls_config =
  tc_upload_jpeg :: bytes
  tc_max_transfer_bytes :: nat

section \<open>Discover\<close>

definition copy_negotiated_text :: "bytes \<Rightarrow> nat \<Rightarrow> bytes ptr \<Rightarrow> bytes" where
  "copy_negotiated_text destination capacity source =
     (if capacity = 0 then destination
      else
        let t = (if source = NULL then [45] else deref source) in
        take (capacity - 1) t)"

definition text_or_dash :: "bytes \<Rightarrow> bytes" where
  "text_or_dash t = (if t \<noteq> [] then t else [45])"

definition copy_discover_http_result :: "discover_result \<Rightarrow> http_result \<Rightarrow> discover_result" where
  "copy_discover_http_result destination source = destination\<lparr>
     dr_http_status := hr_status_code source,
     dr_body_bytes := hr_body_bytes source,
     dr_binary_plist := hr_binary_plist source,
     dr_receiver_computer_name_key := hr_receiver_computer_name_key source,
     dr_chunked := hr_chunked source,
     dr_content_type := copy_negotiated_text (dr_content_type destination) 48 (Ptr (text_or_dash (hr_content_type source))),
     dr_content_encoding := copy_negotiated_text (dr_content_encoding destination) 24 (Ptr (text_or_dash (hr_content_encoding source)))\<rparr>"

definition deadline_after :: "'e platform \<Rightarrow> u32 \<Rightarrow> 'e \<Rightarrow> int \<times> 'e" where
  "deadline_after p timeout_ms e = (case pf_esp_timer_get_time p e of (now, e1) \<Rightarrow> (now + uint timeout_ms * 1000, e1))"

definition finish_discover :: "'e platform \<Rightarrow> discover_result \<Rightarrow> response_outcome \<Rightarrow> nat \<Rightarrow> discover_result" where
  "finish_discover p result outcome received =
     (let r = result\<lparr>dr_response_bytes := received\<rparr> in
      case outcome of
        RO_OVERFLOW \<Rightarrow> r\<lparr>dr_error := AIRDROP_DISCOVER_ERROR_OVERFLOW\<rparr>
      | RO_STATUS status \<Rightarrow> r\<lparr>dr_error := status\<rparr>
      | RO_COMPLETE parsed \<Rightarrow> copy_discover_http_result (r\<lparr>dr_response_complete := True\<rparr>) parsed
      | RO_UNPARSED parsed \<Rightarrow> (copy_discover_http_result r parsed)\<lparr>dr_error := AIRDROP_DISCOVER_ERROR_PARSE\<rparr>
      | RO_DEADLINE parsed \<Rightarrow>
          (case parsed of None \<Rightarrow> r | Some h \<Rightarrow> copy_discover_http_result r h)\<lparr>dr_error := pf_ssl_timeout p\<rparr>)"

definition perform_discover ::
  "'e platform \<Rightarrow> bytes ptr \<Rightarrow> u16 \<Rightarrow> u32 \<Rightarrow> 'e tls_state \<Rightarrow> (discover_result \<times> 'e tls_state) option" where
  "perform_discover p server_name server_port timeout_ms st =
     (let dash = Ptr [45];
          result = discover_result_zero\<lparr>dr_content_type := copy_negotiated_text [] 48 dash,
                                         dr_content_encoding := copy_negotiated_text [] 24 dash\<rparr> in
      case espdrop_airdrop_build_discover_request (Ptr (ts_discover_request st)) AIRDROP_DISCOVER_REQUEST_BYTES server_name server_port
      of (request_bytes, request) \<Rightarrow>
        let result1 = result\<lparr>dr_request_bytes := request_bytes\<rparr>;
            st1 = st\<lparr>ts_discover_request := deref request\<rparr> in
        if request_bytes = 0 then Some (result1\<lparr>dr_error := AIRDROP_DISCOVER_ERROR_BUILD\<rparr>, st1)
        else
          case deadline_after p timeout_ms (ts_env st1) of (deadline_us, e1) \<Rightarrow> do {
            (sent, error, e2) \<leftarrow> write_tls_request p (take request_bytes (ts_discover_request st1)) deadline_us 0 e1;
            let result2 = result1\<lparr>dr_attempted := True, dr_error := error\<rparr>;
            if \<not> sent then Some (result2, st1\<lparr>ts_env := e2\<rparr>)
            else do {
              (outcome, received, response, e3) \<leftarrow>
                read_response p espdrop_airdrop_parse_discover_response deadline_us (ts_discover_response st1) 0 e2;
              Some (finish_discover p result2 outcome received, st1\<lparr>ts_env := e3, ts_discover_response := response\<rparr>) } })"

section \<open>Ask\<close>

definition copy_ask_http_result :: "ask_result \<Rightarrow> http_result \<Rightarrow> ask_result" where
  "copy_ask_http_result destination source = destination\<lparr>
     ar_http_status := hr_status_code source,
     ar_body_bytes := hr_body_bytes source,
     ar_binary_plist := hr_binary_plist source,
     ar_chunked := hr_chunked source,
     ar_receiver_computer_name_key := hr_receiver_computer_name_key source,
     ar_ids_session_id_key := hr_ids_session_id_key source,
     ar_receiver_pseudonym_key := hr_receiver_pseudonym_key source,
     ar_receiver_push_token_key := hr_receiver_push_token_key source\<rparr>"

definition finish_ask :: "'e platform \<Rightarrow> ask_result \<Rightarrow> response_outcome \<Rightarrow> nat \<Rightarrow> ask_result" where
  "finish_ask p result outcome received =
     (let r = result\<lparr>ar_response_bytes := received\<rparr> in
      case outcome of
        RO_OVERFLOW \<Rightarrow> r\<lparr>ar_error := AIRDROP_ASK_ERROR_OVERFLOW\<rparr>
      | RO_STATUS status \<Rightarrow> r\<lparr>ar_error := status\<rparr>
      | RO_COMPLETE parsed \<Rightarrow> copy_ask_http_result (r\<lparr>ar_response_complete := True\<rparr>) parsed
      | RO_UNPARSED parsed \<Rightarrow> (copy_ask_http_result r parsed)\<lparr>ar_error := AIRDROP_ASK_ERROR_PARSE\<rparr>
      | RO_DEADLINE parsed \<Rightarrow>
          (case parsed of None \<Rightarrow> r | Some h \<Rightarrow> copy_ask_http_result r h)\<lparr>ar_error := pf_ssl_timeout p\<rparr>)"

text \<open>Two random strings; the second is drawn only when the first succeeded.\<close>

definition two_randoms :: "'e platform \<Rightarrow> nat \<Rightarrow> nat \<Rightarrow> 'e \<Rightarrow> (bytes \<times> bytes) option \<times> 'e" where
  "two_randoms p n m e =
     (case pf_ctr_drbg_random p n e of (status, first, e1) \<Rightarrow>
        if status \<noteq> 0 then (None, e1)
        else (case pf_ctr_drbg_random p m e1 of (status2, second, e2) \<Rightarrow>
          if status2 \<noteq> 0 then (None, e2) else (Some (first, second), e2)))"

definition ask_announcement :: "tls_config \<Rightarrow> ('s, 'q) outgoing_file ptr \<Rightarrow> bytes \<Rightarrow> bytes \<Rightarrow> ask_file" where
  "ask_announcement cfg outgoing transfer_id sender_id =
     \<lparr>af_sender_computer_name = Ptr (ascii ''espDrop''), af_sender_model_name = Ptr (ascii ''ESP32-S3''),
      af_sender_id = Ptr sender_id, af_transfer_id = Ptr transfer_id,
      af_file_name = (if outgoing \<noteq> NULL then of_file_name (deref outgoing) else Ptr (ascii ''hello.jpg'')),
      af_file_type = (if outgoing \<noteq> NULL then of_file_type (deref outgoing) else Ptr (ascii ''public.jpeg'')),
      af_file_size = (if outgoing \<noteq> NULL then src_size_bytes (of_source (deref outgoing)) else length (tc_upload_jpeg cfg))\<rparr>"

definition perform_ask ::
  "'e platform \<Rightarrow> tls_config \<Rightarrow> bytes ptr \<Rightarrow> u16 \<Rightarrow> u32 \<Rightarrow> ('s, 'q) outgoing_file ptr \<Rightarrow> 'e tls_state \<Rightarrow>
     (ask_result \<times> 'e tls_state) option" where
  "perform_ask p cfg server_name server_port timeout_ms outgoing st =
     (case two_randoms p 16 6 (ts_env st) of
        (None, e1) \<Rightarrow> Some (ask_result_zero\<lparr>ar_error := AIRDROP_ASK_ERROR_RANDOM\<rparr>, st\<lparr>ts_env := e1\<rparr>)
      | (Some (transfer_random, sender_random), e1) \<Rightarrow>
          let transfer_id = espdrop_airdrop_format_transfer_id transfer_random;
              sender_id = espdrop_airdrop_format_sender_id sender_random in
          case espdrop_airdrop_build_ask_body (Ptr (ts_ask_body st)) ESPDROP_AIRDROP_ASK_BODY_MAX_BYTES
                 (Ptr (ask_announcement cfg outgoing transfer_id sender_id)) of (body_bytes, body) \<Rightarrow>
          case espdrop_airdrop_build_ask_request (Ptr (ts_ask_request st)) ESPDROP_AIRDROP_ASK_REQUEST_MAX_BYTES
                 server_name server_port body body_bytes of (request_bytes, request) \<Rightarrow>
          let result = ask_result_zero\<lparr>ar_transfer_id := transfer_id, ar_request_bytes := request_bytes\<rparr>;
              st1 = st\<lparr>ts_env := e1, ts_ask_body := deref body, ts_ask_request := deref request\<rparr> in
          if body_bytes = 0 \<or> request_bytes = 0 then Some (result\<lparr>ar_error := AIRDROP_ASK_ERROR_BUILD\<rparr>, st1)
          else
            case deadline_after p timeout_ms e1 of (deadline_us, e2) \<Rightarrow> do {
              (sent, error, e3) \<leftarrow> write_tls_request p (take request_bytes (ts_ask_request st1)) deadline_us 0 e2;
              let result1 = result\<lparr>ar_attempted := True, ar_error := error\<rparr>;
              if \<not> sent then Some (result1, st1\<lparr>ts_env := e3\<rparr>)
              else do {
                (outcome, received, response, e4) \<leftarrow>
                  read_response p espdrop_airdrop_parse_ask_response deadline_us (ts_ask_response st1) 0 e3;
                Some (finish_ask p result1 outcome received, st1\<lparr>ts_env := e4, ts_ask_response := response\<rparr>) } })"

section \<open>The compressor\<close>

text \<open>
  The miniz compressor is a parameter: \<open>df_init\<close> says whether it initialised, \<open>df_compress_buffer\<close>
  compresses the bytes (the last argument of the callback is whether the stream is finished),
  handing its output to a callback over a context. \<open>df_alloc\<close> is whether the heap has room for it.
\<close>

datatype tdefl_status = TDEFL_STATUS_BAD_PARAM | TDEFL_STATUS_PUT_BUF_FAILED | TDEFL_STATUS_OKAY | TDEFL_STATUS_DONE

record ('e, 'z, 'o) deflate =
  df_alloc :: "'e \<Rightarrow> bool"
  df_init :: "tdefl_status \<times> 'z"
  df_compress_buffer :: "('o \<Rightarrow> bytes \<Rightarrow> bool \<times> 'o) \<Rightarrow> bool \<Rightarrow> bytes \<Rightarrow> 'z \<times> 'o \<Rightarrow> tdefl_status \<times> 'z \<times> 'o"

record 'w zlib_output =
  zo_write :: "'w stream_write ptr"
  zo_context :: 'w
  zo_bytes :: nat
  zo_failed :: bool

definition write_zlib_output :: "'w zlib_output \<Rightarrow> bytes \<Rightarrow> bool \<times> 'w zlib_output" where
  "write_zlib_output output data =
     (if length data > SIZE_MAX - zo_bytes output then (False, output\<lparr>zo_failed := True\<rparr>)
      else if length data > 0 \<and> zo_write output \<noteq> NULL then
        (case deref (zo_write output) (zo_context output) data of (ok, context) \<Rightarrow>
           if \<not> ok then (False, output\<lparr>zo_context := context, zo_failed := True\<rparr>)
           else (True, output\<lparr>zo_context := context, zo_bytes := zo_bytes output + length data\<rparr>))
      else (True, output\<lparr>zo_bytes := zo_bytes output + length data\<rparr>))"

definition feed_zlib_compressor :: "('e, 'z, 'w zlib_output) deflate \<Rightarrow> ('z \<times> 'w zlib_output) stream_write" where
  "feed_zlib_compressor df context data =
     (case df_compress_buffer df write_zlib_output False data context of (status, context1) \<Rightarrow> (status = TDEFL_STATUS_OKAY, context1))"

text \<open>One pass over the source; the result is written only when the compressor could be allocated.\<close>

definition compress_odc_pass ::
  "('e, 'z, 'w zlib_output) deflate \<Rightarrow> bool \<Rightarrow> 's airdrop_source \<Rightarrow> bytes \<Rightarrow> u32 \<Rightarrow> bytes \<Rightarrow> 'w stream_write ptr \<Rightarrow> 'w \<Rightarrow>
     stream_result \<Rightarrow> nat \<Rightarrow> stream_status \<times> 's airdrop_source \<times> bytes \<times> 'w \<times> stream_result \<times> nat" where
  "compress_odc_pass df allocated source archive_path mtime workspace write write_context archive_result compressed_bytes =
     (if \<not> allocated then (STREAM_COMPRESS, source, workspace, write_context, archive_result, compressed_bytes)
      else
        let output = \<lparr>zo_write = write, zo_context = write_context, zo_bytes = 0, zo_failed = False\<rparr> in
        case df_init df of (init, compressor) \<Rightarrow>
        if init \<noteq> TDEFL_STATUS_OKAY then (STREAM_COMPRESS, source, workspace, write_context, archive_result, zo_bytes output)
        else
          (case espdrop_airdrop_stream_odc (Ptr source) (Ptr archive_path) mtime (Ptr workspace) AIRDROP_UPLOAD_WORKSPACE_BYTES
                  (Ptr (feed_zlib_compressor df)) (compressor, output) (Ptr archive_result) of
             (status, source1, workspace1, context1, result1) \<Rightarrow>
             if status = STREAM_OK then
               (case df_compress_buffer df write_zlib_output True [] context1 of (finish, compressor2, output2) \<Rightarrow>
                  (if zo_failed output2 then STREAM_SINK else if finish \<noteq> TDEFL_STATUS_DONE then STREAM_COMPRESS else status,
                   deref source1, deref workspace1, zo_context output2, deref result1, zo_bytes output2))
             else (status, deref source1, deref workspace1, zo_context (snd context1), deref result1, zo_bytes (snd context1))))"

section \<open>Upload\<close>

definition copy_upload_http_result :: "upload_result \<Rightarrow> http_result \<Rightarrow> upload_result" where
  "copy_upload_http_result destination source = destination\<lparr>
     ur_http_status := hr_status_code source,
     ur_body_bytes := hr_body_bytes source\<rparr>"

definition finish_upload :: "'e platform \<Rightarrow> upload_result \<Rightarrow> response_outcome \<Rightarrow> nat \<Rightarrow> upload_result" where
  "finish_upload p result outcome received =
     (let r = result\<lparr>ur_response_bytes := received\<rparr> in
      case outcome of
        RO_OVERFLOW \<Rightarrow> r\<lparr>ur_error := AIRDROP_UPLOAD_ERROR_OVERFLOW\<rparr>
      | RO_STATUS status \<Rightarrow> r\<lparr>ur_error := status\<rparr>
      | RO_COMPLETE parsed \<Rightarrow> copy_upload_http_result (r\<lparr>ur_response_complete := True\<rparr>) parsed
      | RO_UNPARSED parsed \<Rightarrow> (copy_upload_http_result r parsed)\<lparr>ur_error := AIRDROP_UPLOAD_ERROR_PARSE\<rparr>
      | RO_DEADLINE parsed \<Rightarrow>
          (case parsed of None \<Rightarrow> r | Some h \<Rightarrow> copy_upload_http_result r h)\<lparr>ur_error := pf_ssl_timeout p\<rparr>)"

definition prepared_upload :: "('s, 'q) outgoing_file \<Rightarrow> bool" where
  "prepared_upload f \<longleftrightarrow> src_read (pp_source (of_prepared_payload f)) \<noteq> NULL"

definition outgoing_unusable :: "tls_config \<Rightarrow> ('s, 'q) outgoing_file ptr \<Rightarrow> bool" where
  "outgoing_unusable cfg outgoing \<longleftrightarrow>
     (let f = deref outgoing; prepared = (outgoing \<noteq> NULL \<and> prepared_upload f); pp = of_prepared_payload f in
      outgoing = NULL \<or> of_file_name f = NULL \<or> of_file_type f = NULL \<or> src_size_bytes (of_source f) = 0 \<or>
      src_size_bytes (of_source f) > tc_max_transfer_bytes cfg \<or> (\<not> prepared \<and> src_read (of_source f) = NULL) \<or>
      (prepared \<and> (src_size_bytes (pp_source pp) = 0 \<or> pp_archive_bytes pp = 0 \<or> pp_dvzip_blocks pp = 0)))"

text \<open>What the first half of the function settles: the form of the payload and its announced size.\<close>

datatype payload_form = PREPARED | ZLIB u32 | STORED

type_synonym ('e, 's, 'q) upload_state = "upload_result \<times> ('s, 'q) outgoing_file \<times> 'e tls_state"

definition stored_totals :: "stream_plan \<Rightarrow> upload_result \<Rightarrow> upload_result" where
  "stored_totals plan r = r\<lparr>ur_dvzip_blocks := plan_dvzip_blocks plan, ur_payload_bytes := plan_payload_bytes plan, ur_stored_blocks := True\<rparr>"

text \<open>
  A source that can be rewound is first compressed without output, to learn the compressed size;
  the error is the code with which the function would return.
\<close>

definition size_zlib_pass ::
  "('e, 'z, 'e chunk_sink option zlib_output) deflate \<Rightarrow> bytes \<Rightarrow> stream_plan \<Rightarrow> ('e, 's, 'q) upload_state \<Rightarrow>
     payload_form option \<times> ('e, 's, 'q) upload_state" where
  "size_zlib_pass df archive_path plan us =
     (case us of (result, f, st) \<Rightarrow>
      case compress_odc_pass df (df_alloc df (ts_env st)) (of_source f) archive_path (of_mtime f) (ts_upload_workspace st)
             NULL None stream_result_zero 0 of (status, source, workspace, _, sizing, compressed_bytes) \<Rightarrow>
      let result1 = result\<lparr>ur_stream_status := status\<rparr>;
          st1 = st\<lparr>ts_upload_workspace := workspace\<rparr> in
      if status \<noteq> STREAM_OK \<or> sr_archive_bytes sizing \<noteq> plan_archive_bytes plan \<or> compressed_bytes = 0 then
        (None, result1\<lparr>ur_error := AIRDROP_UPLOAD_ERROR_COMPRESS\<rparr>, f\<lparr>of_source := source\<rparr>, st1)
      else
        case deref (src_rewind source) (src_context source) of (rewound, context) \<Rightarrow>
        let f1 = f\<lparr>of_source := source\<lparr>src_context := context\<rparr>\<rparr> in
        if \<not> rewound then
          (None, result1\<lparr>ur_stream_status := STREAM_REWIND, ur_error := AIRDROP_UPLOAD_ERROR_STREAM\<rparr>, f1, st1)
        else if espdrop_airdrop_should_use_single_zlib_block (plan_archive_bytes plan) compressed_bytes then
          (Some (ZLIB (sr_source_crc32 sizing)),
           result1\<lparr>ur_compressed_bytes := compressed_bytes, ur_dvzip_blocks := 1,
             ur_payload_bytes := ESPDROP_AIRDROP_DVZIP_BLOCK_HEADER_BYTES + compressed_bytes\<rparr>, f1, st1)
        else (Some STORED, stored_totals plan result1, f1, st1))"

definition choose_payload ::
  "('e, 'z, 'e chunk_sink option zlib_output) deflate \<Rightarrow> bytes \<Rightarrow> ('e, 's, 'q) upload_state \<Rightarrow>
     payload_form option \<times> ('e, 's, 'q) upload_state" where
  "choose_payload df archive_path us =
     (case us of (result, f, st) \<Rightarrow>
      if prepared_upload f then
        let pp = of_prepared_payload f in
        (Some PREPARED,
         result\<lparr>ur_file_bytes := src_size_bytes (of_source f), ur_archive_bytes := pp_archive_bytes pp,
           ur_dvzip_blocks := pp_dvzip_blocks pp, ur_payload_bytes := src_size_bytes (pp_source pp),
           ur_source_crc32 := pp_file_crc32 pp, ur_stored_blocks := pp_stored_blocks pp\<rparr>, f, st)
      else
        case espdrop_airdrop_plan_stored_dvzip
               (Ptr \<lparr>plan_file_bytes = 0, plan_archive_bytes = 0, plan_dvzip_blocks = 0, plan_payload_bytes = 0\<rparr>)
               (Ptr archive_path) (src_size_bytes (of_source f)) of (planned, plan_ptr) \<Rightarrow>
        if \<not> planned then (None, result\<lparr>ur_error := AIRDROP_UPLOAD_ERROR_ARCHIVE\<rparr>, f, st)
        else
          let plan = deref plan_ptr;
              result1 = result\<lparr>ur_file_bytes := plan_file_bytes plan, ur_archive_bytes := plan_archive_bytes plan\<rparr> in
          if src_rewind (of_source f) \<noteq> NULL then size_zlib_pass df archive_path plan (result1, f, st)
          else (Some STORED, stored_totals plan result1, f, st))"

text \<open>A prepared payload is passed on as it is read.\<close>

definition note_high_water :: "nat \<Rightarrow> 'e chunk_sink \<Rightarrow> 'e chunk_sink" where
  "note_high_water bytes_read sink =
     (case uk_out sink of (r, e) \<Rightarrow>
        if bytes_read > ur_workspace_high_water r then sink\<lparr>uk_out := (r\<lparr>ur_workspace_high_water := bytes_read\<rparr>, e)\<rparr> else sink)"

function send_prepared ::
  "'e platform \<Rightarrow> 'q source_read \<Rightarrow> nat \<Rightarrow> 'q \<Rightarrow> bytes \<Rightarrow> 'e chunk_sink \<Rightarrow> (stream_status \<times> 'q \<times> bytes \<times> 'e chunk_sink) option" where
  "send_prepared p read remaining context workspace sink =
     (if remaining > 0 then
        let request = (if remaining < AIRDROP_UPLOAD_WORKSPACE_BYTES then remaining else AIRDROP_UPLOAD_WORKSPACE_BYTES) in
        (case read context request of (ok, data, bytes_read, context1) \<Rightarrow>
           let workspace1 = store workspace 0 data in
           if \<not> ok then Some (STREAM_SOURCE, context1, workspace1, sink)
           else if bytes_read = 0 \<or> bytes_read > request then Some (STREAM_TRUNCATED, context1, workspace1, sink)
           else do {
             (ok2, sink1) \<leftarrow> buffer_upload_chunk p sink (take bytes_read workspace1);
             if \<not> ok2 then Some (STREAM_SINK, context1, workspace1, sink1)
             else send_prepared p read (remaining - bytes_read) context1 workspace1 (note_high_water bytes_read sink1) })
      else Some (STREAM_OK, context, workspace, sink))"
  by pat_completeness auto
termination
  by (relation "measure (\<lambda>(p, read, remaining, context, workspace, sink). remaining)") auto

declare send_prepared.simps [simp del]

definition on_result :: "(upload_result \<Rightarrow> upload_result) \<Rightarrow> 'e chunk_sink \<Rightarrow> 'e chunk_sink" where
  "on_result g sink = (case uk_out sink of (r, e) \<Rightarrow> sink\<lparr>uk_out := (g r, e)\<rparr>)"

text \<open>The context of a callback after the stream; \<open>None\<close> when a call of it did not return.\<close>

definition send_zlib ::
  "'e platform \<Rightarrow> ('e, 'z, 'e chunk_sink option zlib_output) deflate \<Rightarrow> u32 \<Rightarrow> bytes \<Rightarrow> ('s, 'q) outgoing_file \<Rightarrow> bytes \<Rightarrow> 'e chunk_sink \<Rightarrow>
     (stream_result \<times> ('s, 'q) outgoing_file \<times> bytes \<times> 'e chunk_sink) option" where
  "send_zlib p df sizing_crc32 archive_path f workspace sink =
     (let compressed = ur_compressed_bytes (fst (uk_out sink)) in
      case espdrop_airdrop_build_dvzip_block_header (Ptr (replicate ESPDROP_AIRDROP_DVZIP_BLOCK_HEADER_BYTES 0)) (of_nat compressed) False
      of (built, header) \<Rightarrow> do {
        (ok, sink1) \<leftarrow> (if built then buffer_upload_chunk p sink (deref header) else Some (False, sink));
        if \<not> ok then Some (stream_result_zero, f, workspace, on_result (\<lambda>r. r\<lparr>ur_stream_status := STREAM_SINK\<rparr>) sink1)
        else
          case compress_odc_pass df (df_alloc df (snd (uk_out sink1))) (of_source f) archive_path (of_mtime f) workspace
                 (Ptr (chunk_write p)) (Some sink1) stream_result_zero 0
          of (status, source, workspace1, context, streamed, compressed_bytes) \<Rightarrow> do {
            sink2 \<leftarrow> context;
            let status1 = (if status = STREAM_OK \<and> (compressed_bytes \<noteq> compressed \<or> sr_source_crc32 streamed \<noteq> sizing_crc32)
                           then STREAM_COMPRESS else status);
            Some (streamed, f\<lparr>of_source := source\<rparr>, workspace1, on_result (\<lambda>r. r\<lparr>ur_stream_status := status1\<rparr>) sink2) } })"

definition send_payload ::
  "'e platform \<Rightarrow> ('e, 'z, 'e chunk_sink option zlib_output) deflate \<Rightarrow> payload_form \<Rightarrow> bytes \<Rightarrow> ('s, 'q) outgoing_file \<Rightarrow> bytes \<Rightarrow>
     'e chunk_sink \<Rightarrow> (stream_result \<times> ('s, 'q) outgoing_file \<times> bytes \<times> 'e chunk_sink) option" where
  "send_payload p df form archive_path f workspace sink =
     (case form of
        PREPARED \<Rightarrow>
          (let source = pp_source (of_prepared_payload f) in do {
             (status, context, workspace1, sink1) \<leftarrow>
               send_prepared p (deref (src_read source)) (src_size_bytes source) (src_context source) workspace
                 (on_result (\<lambda>r. r\<lparr>ur_stream_status := STREAM_OK\<rparr>) sink);
             Some (stream_result_zero,
                   f\<lparr>of_prepared_payload := (of_prepared_payload f)\<lparr>pp_source := source\<lparr>src_context := context\<rparr>\<rparr>\<rparr>,
                   workspace1, on_result (\<lambda>r. r\<lparr>ur_stream_status := status\<rparr>) sink1) })
      | ZLIB sizing_crc32 \<Rightarrow> send_zlib p df sizing_crc32 archive_path f workspace sink
      | STORED \<Rightarrow>
          (case espdrop_airdrop_stream_stored_dvzip (Ptr (of_source f)) (Ptr archive_path) (of_mtime f) (Ptr workspace)
                  AIRDROP_UPLOAD_WORKSPACE_BYTES (Ptr (chunk_write p)) (Some sink) (Ptr stream_result_zero) of
             (status, source, workspace1, context, streamed) \<Rightarrow> do {
               sink1 \<leftarrow> context;
               Some (deref streamed, f\<lparr>of_source := deref source\<rparr>, deref workspace1,
                     on_result (\<lambda>r. r\<lparr>ur_stream_status := status\<rparr>) sink1) }))"

text \<open>The totals of the stream replace the announced ones.\<close>

definition streamed_totals :: "payload_form \<Rightarrow> stream_result \<Rightarrow> upload_result \<Rightarrow> upload_result" where
  "streamed_totals form streamed r =
     (let r1 = (if form \<noteq> PREPARED then r\<lparr>ur_archive_bytes := sr_archive_bytes streamed,
                  ur_workspace_high_water := sr_workspace_high_water streamed, ur_source_crc32 := sr_source_crc32 streamed\<rparr> else r) in
      if form = STORED then r1\<lparr>ur_dvzip_blocks := sr_dvzip_blocks streamed, ur_payload_bytes := sr_payload_bytes streamed\<rparr> else r1)"

definition await_upload_response ::
  "'e platform \<Rightarrow> int \<Rightarrow> ('e, 's, 'q) upload_state \<Rightarrow> ('e, 's, 'q) upload_state option" where
  "await_upload_response p deadline_us us = (case us of (result, f, st) \<Rightarrow> do {
     (outcome, received, response, e) \<leftarrow>
       read_response p espdrop_airdrop_parse_upload_response deadline_us (ts_upload_response st) 0 (ts_env st);
     Some (finish_upload p result outcome received, f, st\<lparr>ts_env := e, ts_upload_response := response\<rparr>) })"

text \<open>After the payload: the rest of the buffer, the terminator and the response.\<close>

definition end_upload ::
  "'e platform \<Rightarrow> int \<Rightarrow> bytes \<Rightarrow> 'e chunk_sink \<Rightarrow> ('s, 'q) outgoing_file \<Rightarrow> 'e tls_state \<Rightarrow> ('e, 's, 'q) upload_state option" where
  "end_upload p deadline_us terminator sink f st = do {
     (flushed, sink1) \<leftarrow> flush_upload_chunk p sink;
     (ended, result, e) \<leftarrow>
       (if flushed then write_upload_part p terminator deadline_us (uk_out sink1) else Some (False, uk_out sink1));
     let st1 = st\<lparr>ts_env := e, ts_upload_network_buffer := uk_buffer sink1\<rparr>;
     if \<not> ended then Some (result, f, st1) else await_upload_response p deadline_us (result, f, st1) }"

text \<open>From the head to the response, once the head and the payload are settled.\<close>

definition send_upload ::
  "'e platform \<Rightarrow> ('e, 'z, 'e chunk_sink option zlib_output) deflate \<Rightarrow> payload_form \<Rightarrow> bytes \<Rightarrow> nat \<Rightarrow> bytes \<Rightarrow> u32 \<Rightarrow> ('e, 's, 'q) upload_state \<Rightarrow>
     ('e, 's, 'q) upload_state option" where
  "send_upload p df form archive_path head_bytes terminator timeout_ms us =
     (case us of (result, f, st) \<Rightarrow>
      case deadline_after p timeout_ms (ts_env st) of (deadline_us, e1) \<Rightarrow> do {
        (ok, result1, e2) \<leftarrow> write_upload_part p (take head_bytes (ts_upload_head st)) deadline_us (result\<lparr>ur_attempted := True\<rparr>, e1);
        if \<not> ok then Some (result1, f, st\<lparr>ts_env := e2\<rparr>)
        else do {
          (streamed, f1, workspace, sink) \<leftarrow> send_payload p df form archive_path f (ts_upload_workspace st)
            \<lparr>uk_out = (result1, e2), uk_deadline_us = deadline_us, uk_buffer = ts_upload_network_buffer st,
             uk_capacity = AIRDROP_UPLOAD_NETWORK_BUFFER_BYTES, uk_used = 0\<rparr>;
          let sink1 = on_result (streamed_totals form streamed) sink;
          let st1 = st\<lparr>ts_env := snd (uk_out sink1), ts_upload_workspace := workspace, ts_upload_network_buffer := uk_buffer sink1\<rparr>;
          let result2 = fst (uk_out sink1);
          if ur_stream_status result2 \<noteq> STREAM_OK then
            Some (if ur_error result2 = 0 then result2\<lparr>ur_error := AIRDROP_UPLOAD_ERROR_STREAM\<rparr> else result2, f1, st1)
          else end_upload p deadline_us terminator sink1 f1 st1 } })"

definition upload_identity_of :: "ask_result \<Rightarrow> bytes \<Rightarrow> bytes \<Rightarrow> upload_identity" where
  "upload_identity_of ask pseudonym_random token_random =
     \<lparr>id_transfer_id = copy_negotiated_text [] 37 (Ptr (ar_transfer_id ask)),
      id_sender_pseudonym = espdrop_airdrop_format_sender_pseudonym pseudonym_random,
      id_sender_push_token = espdrop_airdrop_format_sender_push_token token_random\<rparr>"

text \<open>The random identity, the head and the terminator; nothing when one of them cannot be had.\<close>

definition announce_upload ::
  "'e platform \<Rightarrow> ask_result \<Rightarrow> upload_result \<Rightarrow> 'e tls_state \<Rightarrow> (nat \<times> bytes) option \<times> upload_result \<times> 'e tls_state" where
  "announce_upload p ask result st =
     (case two_randoms p 16 32 (ts_env st) of
        (None, e1) \<Rightarrow> (None, result\<lparr>ur_error := AIRDROP_UPLOAD_ERROR_RANDOM\<rparr>, st\<lparr>ts_env := e1\<rparr>)
      | (Some (pseudonym_random, token_random), e1) \<Rightarrow>
          let identity = upload_identity_of ask pseudonym_random token_random;
              result1 = result\<lparr>ur_transfer_id_continuity := (id_transfer_id identity = ar_transfer_id ask)\<rparr> in
          case espdrop_airdrop_build_upload_head (Ptr (ts_upload_head st)) AIRDROP_UPLOAD_HEAD_BYTES (Ptr identity)
                 (ur_payload_bytes result1) of (head_bytes, head) \<Rightarrow>
          case espdrop_airdrop_build_chunk_terminator (Ptr (replicate 8 0)) 8 of (terminator_bytes, terminator) \<Rightarrow>
          let st1 = st\<lparr>ts_env := e1, ts_upload_head := deref head\<rparr> in
          if head_bytes = 0 \<or> terminator_bytes = 0 \<or> \<not> ur_transfer_id_continuity result1
          then (None, result1\<lparr>ur_error := AIRDROP_UPLOAD_ERROR_BUILD\<rparr>, st1)
          else (Some (head_bytes, take terminator_bytes (deref terminator)), result1, st1))"

definition perform_upload ::
  "'e platform \<Rightarrow> ('e, 'z, 'e chunk_sink option zlib_output) deflate \<Rightarrow> tls_config \<Rightarrow> ask_result \<Rightarrow> ('s, 'q) outgoing_file ptr \<Rightarrow> u32 \<Rightarrow>
     'e tls_state \<Rightarrow> (upload_result \<times> ('s, 'q) outgoing_file ptr \<times> 'e tls_state) option" where
  "perform_upload p df cfg ask outgoing timeout_ms st =
     (let result = upload_result_zero\<lparr>ur_transfer_id := copy_negotiated_text [] 37 (Ptr (ar_transfer_id ask))\<rparr>;
          archive_path = ascii ''./'' @ deref (of_file_name (deref outgoing)) in
      if outgoing_unusable cfg outgoing \<or> length archive_path \<ge> 260
      then Some (result\<lparr>ur_error := AIRDROP_UPLOAD_ERROR_ARCHIVE\<rparr>, outgoing, st)
      else
        case choose_payload df archive_path (result, deref outgoing, st) of
          (None, result1, f, st1) \<Rightarrow> Some (result1, Ptr f, st1)
        | (Some form, result1, f, st1) \<Rightarrow>
            (case announce_upload p ask result1 st1 of
               (None, result2, st2) \<Rightarrow> Some (result2, Ptr f, st2)
             | (Some (head_bytes, terminator), result2, st2) \<Rightarrow> do {
                 (result3, f1, st3) \<leftarrow> send_upload p df form archive_path head_bytes terminator timeout_ms (result2, f, st2);
                 Some (result3, Ptr f1, st3) }))"

section \<open>Sessions\<close>

text \<open>
  The set-up calls of the TLS library: those that report a status, in the order of the code, the
  ones without a result folded into the state change of their neighbours.
\<close>

record 'e tls_library =
  tl_init :: "int \<Rightarrow> 'e \<Rightarrow> 'e"
  tl_ctr_drbg_seed :: "'e \<Rightarrow> int \<times> 'e"
  tl_x509_crt_parse :: "'e \<Rightarrow> int \<times> 'e"
  tl_pk_parse_key :: "'e \<Rightarrow> int \<times> 'e"
  tl_ssl_config_defaults :: "'e \<Rightarrow> int \<times> 'e"
  tl_conf_rng_authmode :: "'e \<Rightarrow> 'e"
  tl_ssl_conf_own_cert :: "'e \<Rightarrow> int \<times> 'e"
  tl_ssl_setup :: "'e \<Rightarrow> int \<times> 'e"
  tl_ssl_set_hostname :: "bytes \<Rightarrow> 'e \<Rightarrow> int \<times> 'e"
  tl_ssl_set_bio :: "'e \<Rightarrow> 'e"
  tl_ssl_handshake :: "'e \<Rightarrow> int \<times> 'e"
  tl_verify_result :: "'e \<Rightarrow> u32"
  tl_peer_cert_bytes :: "'e \<Rightarrow> nat ptr"
  tl_version :: "'e \<Rightarrow> bytes ptr"
  tl_ciphersuite :: "'e \<Rightarrow> bytes ptr"
  tl_free :: "'e \<Rightarrow> 'e"

fun run_steps :: "('e \<Rightarrow> int \<times> 'e) list \<Rightarrow> 'e \<Rightarrow> int \<times> 'e" where
  "run_steps [] e = (0, e)"
| "run_steps (f # fs) e = (case f e of (status, e1) \<Rightarrow> if status \<noteq> 0 then (status, e1) else run_steps fs e1)"

definition tls_setup :: "'e tls_library \<Rightarrow> bytes ptr \<Rightarrow> 'e \<Rightarrow> int \<times> 'e" where
  "tls_setup l server_name e =
     run_steps
       [tl_ctr_drbg_seed l, tl_x509_crt_parse l, tl_pk_parse_key l, tl_ssl_config_defaults l,
        \<lambda>e. tl_ssl_conf_own_cert l (tl_conf_rng_authmode l e), tl_ssl_setup l,
        \<lambda>e. if server_name \<noteq> NULL \<and> deref server_name \<noteq> [] then tl_ssl_set_hostname l (deref server_name) e else (0, e),
        \<lambda>e. (0, tl_ssl_set_bio l e)] e"

partial_function (option) tls_handshake :: "'e platform \<Rightarrow> 'e tls_library \<Rightarrow> int \<Rightarrow> 'e \<Rightarrow> (int \<times> 'e) option" where
  "tls_handshake p l deadline_us e =
     (case tl_ssl_handshake l e of (status, e1) \<Rightarrow>
        if want_io p status then
          (case pf_esp_timer_get_time p (pf_task_delay_ms p 10 e1) of (now, e2) \<Rightarrow>
             if now < deadline_us then tls_handshake p l deadline_us e2
             else (case pf_esp_timer_get_time p e2 of (now2, e3) \<Rightarrow>
                     Some (if now2 \<ge> deadline_us then pf_ssl_timeout p else status, e3)))
        else Some (status, e1))"

text \<open>The outputs of a session; a result the caller does not ask for is \<open>NULL\<close>.\<close>

record ('s, 'q) session_results =
  se_tls :: "tls_result ptr"
  se_discover :: "discover_result ptr"
  se_ask :: "ask_result ptr"
  se_outgoing :: "('s, 'q) outgoing_file ptr"
  se_upload :: "upload_result ptr"

definition optional_discover ::
  "'e platform \<Rightarrow> bytes ptr \<Rightarrow> u16 \<Rightarrow> u32 \<Rightarrow> ('s, 'q) session_results \<times> 'e tls_state \<Rightarrow> (('s, 'q) session_results \<times> 'e tls_state) option" where
  "optional_discover p server_name port timeout_ms x =
     (case x of (rs, st) \<Rightarrow>
      if se_discover rs = NULL then Some (rs, st)
      else do {
        (r, st1) \<leftarrow> perform_discover p server_name port timeout_ms st;
        Some (rs\<lparr>se_discover := Ptr r\<rparr>, st1) })"

text \<open>The Ask goes out unless a Discover on this connection failed; the upload relies on its answer.\<close>

definition optional_ask ::
  "'e platform \<Rightarrow> tls_config \<Rightarrow> bytes ptr \<Rightarrow> u16 \<Rightarrow> u32 \<Rightarrow> ask_result ptr \<Rightarrow> ('s, 'q) session_results \<times> 'e tls_state \<Rightarrow>
     (ask_result ptr \<times> ('s, 'q) session_results \<times> 'e tls_state) option" where
  "optional_ask p cfg server_name port timeout_ms accepted_ask x =
     (case x of (rs, st) \<Rightarrow>
      if se_ask rs \<noteq> NULL \<and> (se_discover rs = NULL \<or> dr_response_complete (deref (se_discover rs)) \<and> dr_http_status (deref (se_discover rs)) = 200)
      then do {
        (r, st1) \<leftarrow> perform_ask p cfg server_name port timeout_ms (se_outgoing rs) st;
        Some (Ptr r, rs\<lparr>se_ask := Ptr r\<rparr>, st1) }
      else Some (accepted_ask, rs, st))"

definition optional_upload ::
  "'e platform \<Rightarrow> ('e, 'z, 'e chunk_sink option zlib_output) deflate \<Rightarrow> tls_config \<Rightarrow> u32 \<Rightarrow>
     ask_result ptr \<times> ('s, 'q) session_results \<times> 'e tls_state \<Rightarrow> (('s, 'q) session_results \<times> 'e tls_state) option" where
  "optional_upload p df cfg timeout_ms x =
     (case x of (upload_ask, rs, st) \<Rightarrow>
      if se_upload rs \<noteq> NULL \<and> upload_ask \<noteq> NULL \<and> ar_response_complete (deref upload_ask) \<and> ar_http_status (deref upload_ask) = 200
      then do {
        (r, outgoing, st1) \<leftarrow> perform_upload p df cfg (deref upload_ask) (se_outgoing rs) timeout_ms st;
        Some (rs\<lparr>se_upload := Ptr r, se_outgoing := outgoing\<rparr>, st1) }
      else Some (rs, st))"

definition negotiated :: "'e tls_library \<Rightarrow> 'e \<Rightarrow> int \<Rightarrow> tls_result \<Rightarrow> tls_result" where
  "negotiated l e status r =
     (let peer = tl_peer_cert_bytes l e;
          r1 = r\<lparr>tr_verify_flags := tl_verify_result l e, tr_peer_certificate_present := (peer \<noteq> NULL)\<rparr>;
          r2 = (if peer \<noteq> NULL then r1\<lparr>tr_peer_certificate_bytes := deref peer\<rparr> else r1) in
      if status = 0 then
        r2\<lparr>tr_connected := True, tr_version := copy_negotiated_text (tr_version r2) 16 (tl_version l e),
           tr_ciphersuite := copy_negotiated_text (tr_ciphersuite r2) 64 (tl_ciphersuite l e)\<rparr>
      else r2)"

definition run_tls ::
  "'e platform \<Rightarrow> 'e tls_library \<Rightarrow> ('e, 'z, 'e chunk_sink option zlib_output) deflate \<Rightarrow> tls_config \<Rightarrow> int \<Rightarrow> bytes ptr \<Rightarrow> u32 \<Rightarrow>
     u16 \<Rightarrow> u32 \<Rightarrow> u32 \<Rightarrow> u32 \<Rightarrow> ask_result ptr \<Rightarrow> ('s, 'q) session_results \<Rightarrow> 'e tls_state \<Rightarrow>
     (bool \<times> ('s, 'q) session_results \<times> 'e tls_state) option" where
  "run_tls p l df cfg socket_fd server_name timeout_ms discover_port discover_timeout_ms ask_timeout_ms upload_timeout_ms
     accepted_ask rs st =
     (if socket_fd < 0 \<or> timeout_ms = 0 \<or> se_tls rs = NULL then Some (False, rs, st)
      else
        let dash = Ptr [45];
            result = tls_result_zero\<lparr>tr_version := copy_negotiated_text [] 16 dash, tr_ciphersuite := copy_negotiated_text [] 64 dash\<rparr> in
        case tls_setup l server_name (tl_init l socket_fd (ts_env st)) of (status, e1) \<Rightarrow>
        if status \<noteq> 0 then
          Some (False, rs\<lparr>se_tls := Ptr (result\<lparr>tr_error := status\<rparr>)\<rparr>, st\<lparr>ts_env := tl_free l e1\<rparr>)
        else
          case deadline_after p timeout_ms e1 of (deadline_us, e2) \<Rightarrow> do {
            (status1, e3) \<leftarrow> tls_handshake p l deadline_us e2;
            let result1 = negotiated l e3 status1 result;
            let st1 = st\<lparr>ts_env := e3\<rparr>;
            (rs1, st2) \<leftarrow>
              (if status1 = 0 then do {
                 x1 \<leftarrow> optional_discover p server_name discover_port discover_timeout_ms (rs, st1);
                 x2 \<leftarrow> optional_ask p cfg server_name discover_port ask_timeout_ms accepted_ask x1;
                 optional_upload p df cfg upload_timeout_ms x2 }
               else Some (rs, st1));
            Some (tr_connected result1, rs1\<lparr>se_tls := Ptr (result1\<lparr>tr_error := status1\<rparr>)\<rparr>, st2\<lparr>ts_env := tl_free l (ts_env st2)\<rparr>) })"

section \<open>Entry points\<close>

definition usable_file :: "('s, 'q) outgoing_file ptr \<Rightarrow> bool" where
  "usable_file f \<longleftrightarrow> f \<noteq> NULL \<and> of_file_name (deref f) \<noteq> NULL \<and> deref (of_file_name (deref f)) \<noteq> [] \<and>
     of_file_type (deref f) \<noteq> NULL \<and> deref (of_file_type (deref f)) \<noteq> [] \<and>
     (src_read (of_source (deref f)) \<noteq> NULL \<or> src_read (pp_source (of_prepared_payload (deref f))) \<noteq> NULL)"

definition no_results :: "tls_result ptr \<Rightarrow> ('s, 'q) session_results" where
  "no_results tls = \<lparr>se_tls = tls, se_discover = NULL, se_ask = NULL, se_outgoing = NULL, se_upload = NULL\<rparr>"

definition espdrop_airdrop_tls_probe where
  "espdrop_airdrop_tls_probe p l df cfg socket_fd server_name timeout_ms result st =
     run_tls p l df cfg socket_fd server_name timeout_ms 0 0 0 0 NULL (no_results result) st"

definition espdrop_airdrop_tls_discover_probe where
  "espdrop_airdrop_tls_discover_probe p l df cfg socket_fd server_name server_port handshake_timeout_ms discover_timeout_ms rs st =
     (if server_port = 0 \<or> discover_timeout_ms = 0 \<or> se_discover rs = NULL then Some (False, rs, st)
      else run_tls p l df cfg socket_fd server_name handshake_timeout_ms server_port discover_timeout_ms 0 0 NULL
             ((no_results (se_tls rs))\<lparr>se_discover := Ptr discover_result_zero\<rparr>) st)"

definition espdrop_airdrop_tls_ask_probe where
  "espdrop_airdrop_tls_ask_probe p l df cfg socket_fd server_name server_port handshake_timeout_ms ask_timeout_ms rs st =
     (if server_port = 0 \<or> ask_timeout_ms = 0 \<or> se_ask rs = NULL then Some (False, rs, st)
      else run_tls p l df cfg socket_fd server_name handshake_timeout_ms server_port 0 ask_timeout_ms 0 NULL
             ((no_results (se_tls rs))\<lparr>se_ask := Ptr ask_result_zero\<rparr>) st)"

definition espdrop_airdrop_tls_ask_stream_probe where
  "espdrop_airdrop_tls_ask_stream_probe p l df cfg socket_fd server_name server_port handshake_timeout_ms ask_timeout_ms rs st =
     (if server_port = 0 \<or> ask_timeout_ms = 0 \<or> \<not> usable_file (se_outgoing rs) \<or> se_ask rs = NULL then Some (False, rs, st)
      else run_tls p l df cfg socket_fd server_name handshake_timeout_ms server_port 0 ask_timeout_ms 0 NULL
             ((no_results (se_tls rs))\<lparr>se_ask := Ptr ask_result_zero, se_outgoing := se_outgoing rs\<rparr>) st)"

definition espdrop_airdrop_tls_upload_stream_probe where
  "espdrop_airdrop_tls_upload_stream_probe p l df cfg socket_fd server_name handshake_timeout_ms upload_timeout_ms accepted_ask rs st =
     (if upload_timeout_ms = 0 \<or> accepted_ask = NULL \<or> \<not> ar_response_complete (deref accepted_ask) \<or>
         ar_http_status (deref accepted_ask) \<noteq> 200 \<or> \<not> espdrop_airdrop_transfer_id_valid (Ptr (ar_transfer_id (deref accepted_ask))) \<or>
         \<not> usable_file (se_outgoing rs) \<or> se_upload rs = NULL
      then Some (False, rs, st)
      else run_tls p l df cfg socket_fd server_name handshake_timeout_ms 0 0 0 upload_timeout_ms accepted_ask
             ((no_results (se_tls rs))\<lparr>se_outgoing := se_outgoing rs, se_upload := Ptr upload_result_zero\<rparr>) st)"

definition espdrop_airdrop_tls_ask_upload_stream_probe where
  "espdrop_airdrop_tls_ask_upload_stream_probe p l df cfg socket_fd server_name server_port handshake_timeout_ms ask_timeout_ms
     upload_timeout_ms rs st =
     (if server_port = 0 \<or> ask_timeout_ms = 0 \<or> upload_timeout_ms = 0 \<or> \<not> usable_file (se_outgoing rs) \<or>
         se_ask rs = NULL \<or> se_upload rs = NULL
      then Some (False, rs, st)
      else run_tls p l df cfg socket_fd server_name handshake_timeout_ms server_port 0 ask_timeout_ms upload_timeout_ms NULL
             ((no_results (se_tls rs))\<lparr>se_ask := Ptr ask_result_zero, se_outgoing := se_outgoing rs, se_upload := Ptr upload_result_zero\<rparr>) st)"

text \<open>The built-in test file; it has no prepared payload.\<close>

definition test_file :: "tls_config \<Rightarrow> (fixture_source, fixture_source) outgoing_file" where
  "test_file cfg =
     \<lparr>of_file_name = Ptr (ascii ''hello.jpg''), of_file_type = Ptr (ascii ''public.jpeg''), of_mtime = 0,
      of_source = \<lparr>src_context = \<lparr>fx_data = tc_upload_jpeg cfg, fx_offset = 0\<rparr>, src_size_bytes = length (tc_upload_jpeg cfg),
        src_read = Ptr read_fixture_source, src_rewind = Ptr rewind_fixture_source\<rparr>,
      of_prepared_payload = \<lparr>pp_source = \<lparr>src_context = \<lparr>fx_data = [], fx_offset = 0\<rparr>, src_size_bytes = 0, src_read = NULL, src_rewind = NULL\<rparr>,
        pp_archive_bytes = 0, pp_dvzip_blocks = 0, pp_file_crc32 = 0, pp_stored_blocks = False\<rparr>\<rparr>"

definition espdrop_airdrop_tls_ask_upload_probe where
  "espdrop_airdrop_tls_ask_upload_probe p l df cfg socket_fd server_name server_port handshake_timeout_ms ask_timeout_ms
     upload_timeout_ms rs st =
     espdrop_airdrop_tls_ask_upload_stream_probe p l df cfg socket_fd server_name server_port handshake_timeout_ms ask_timeout_ms
       upload_timeout_ms (rs\<lparr>se_outgoing := Ptr (test_file cfg)\<rparr>) st"

end
