(* ===== verification/Tls_Upload.thy ===== *)
theory Tls_Upload
  imports Airdrop_Tls
begin

text \<open>
  What an upload puts on the wire and when one happens: for every platform, every source that
  delivers its content and every division into writes, a completed upload has sent the head with
  the announced size, the payload in HTTP chunks and the terminator, and nothing else; every
  session returns; an upload starts only with an accepted Ask.
\<close>

section \<open>The sink of an upload\<close>

text \<open>What every call of the sink keeps, also when it refuses.\<close>

definition chunk_live ::
  "'e platform \<Rightarrow> ('e \<Rightarrow> int) \<Rightarrow> ('e \<Rightarrow> bytes) \<Rightarrow> upload_result \<Rightarrow> int \<Rightarrow> 'e chunk_sink option \<Rightarrow> bool" where
  "chunk_live p clock wire r0 t0 context \<longleftrightarrow> platform_ok p clock wire \<and>
     (\<exists>s. context = Some s \<and> sink_ok s \<and> out_frame r0 (fst (uk_out s)) \<and> t0 \<le> clock (snd (uk_out s)))"

lemma chunk_live_sink: "platform_ok p clock wire \<Longrightarrow> sink_ok s \<Longrightarrow> chunk_live p clock wire (fst (uk_out s)) (clock (snd (uk_out s))) (Some s)"
  by (simp add: chunk_live_def)

interpretation live: sink_invariant "chunk_write p" "chunk_live p clock wire r0 t0" for p clock wire r0 t0
proof
  fix w w' :: "'a chunk_sink option" and d fin
  assume a: "chunk_live p clock wire r0 t0 w" and w': "chunk_write p w d = (fin, w')"
  then obtain s where s: "platform_ok p clock wire" "w = Some s" "sink_ok s" "out_frame r0 (fst (uk_out s))" "t0 \<le> clock (snd (uk_out s))"
    by (auto simp: chunk_live_def)
  obtain fin' s' where "chunk_write p (Some s) d = (fin', Some s')" "sink_keeps clock s s'"
    using chunk_write_cases [OF s(1,3)] by metis
  then show "chunk_live p clock wire r0 t0 w'"
    using s w' out_frame_trans unfolding chunk_live_def sink_keeps_def by fastforce
qed

text \<open>Changes of the result that leave the count of request bytes alone.\<close>

definition count_kept :: "(upload_result \<Rightarrow> upload_result) \<Rightarrow> bool" where
  "count_kept g \<longleftrightarrow> (\<forall>r. ur_request_bytes (g r) = ur_request_bytes r)"

lemma on_result_sel [simp]: "fst (uk_out (on_result g s)) = g (fst (uk_out s))" "snd (uk_out (on_result g s)) = snd (uk_out s)"
  "uk_buffer (on_result g s) = uk_buffer s" "uk_used (on_result g s) = uk_used s" "uk_capacity (on_result g s) = uk_capacity s"
  by (auto simp: on_result_def split: prod.splits)

lemma note_high_water_sel [simp]: "snd (uk_out (note_high_water n s)) = snd (uk_out s)" "uk_buffer (note_high_water n s) = uk_buffer s"
  "uk_used (note_high_water n s) = uk_used s" "uk_capacity (note_high_water n s) = uk_capacity s"
  "ur_request_bytes (fst (uk_out (note_high_water n s))) = ur_request_bytes (fst (uk_out s))"
  by (auto simp: note_high_water_def split: prod.splits)

lemma on_result_keeps: "sink_ok (on_result g s) = sink_ok s"
  "count_kept g \<Longrightarrow> chunks_sent wire n0 base (on_result g s) xs cs = chunks_sent wire n0 base s xs cs"
  by (simp_all add: sink_ok_def chunks_sent_def count_kept_def)

lemma note_high_water_keeps: "sink_ok (note_high_water n s) = sink_ok s"
  "chunks_sent wire n0 base (note_high_water n s) xs cs = chunks_sent wire n0 base s xs cs"
  by (simp_all add: sink_ok_def chunks_sent_def)

section \<open>Sending a payload\<close>

text \<open>The announced fields, which no part of the transfer changes until it is complete.\<close>

definition announced :: "upload_result \<Rightarrow> upload_result \<Rightarrow> bool" where
  "announced r r' \<longleftrightarrow> ur_response_complete r' = ur_response_complete r \<and> ur_payload_bytes r' = ur_payload_bytes r \<and>
     ur_transfer_id r' = ur_transfer_id r \<and> ur_transfer_id_continuity r' = ur_transfer_id_continuity r \<and> ur_attempted r' = ur_attempted r \<and>
     ur_stored_blocks r' = ur_stored_blocks r"

lemma announced_refl [simp]: "announced r r" and announced_trans: "announced a b \<Longrightarrow> announced b c \<Longrightarrow> announced a c"
  by (auto simp: announced_def)

lemma out_frame_announced: "out_frame r r' \<Longrightarrow> announced r r'"
  unfolding out_frame_def announced_def by (erule ssubst) simp

lemma note_high_water_announced: "announced (fst (uk_out s)) (fst (uk_out (note_high_water n s)))"
  by (auto simp: note_high_water_def announced_def split: prod.splits)

lemma stream_status_announced: "announced r (r\<lparr>ur_stream_status := status\<rparr>)"
  by (simp add: announced_def)

text \<open>Outcome of a sending step: the sink is whole and has kept the announcement; when it ended well it took the bytes.\<close>

definition payload_sent ::
  "('e \<Rightarrow> int) \<Rightarrow> ('e \<Rightarrow> bytes) \<Rightarrow> 'e chunk_sink \<Rightarrow> bytes \<Rightarrow> bool \<Rightarrow> 'e chunk_sink \<Rightarrow> bool" where
  "payload_sent clock wire s d fin s' \<longleftrightarrow> sink_ok s' \<and> announced (fst (uk_out s)) (fst (uk_out s')) \<and>
     clock (snd (uk_out s)) \<le> clock (snd (uk_out s')) \<and> (fin \<longrightarrow> sink_takes wire s s' d)"

lemma payload_sent_trans:
  "payload_sent clock wire a u True b \<Longrightarrow> payload_sent clock wire b v fin c \<Longrightarrow> payload_sent clock wire a (u @ v) fin c"
  unfolding payload_sent_def using announced_trans sink_takes_append by (meson order_trans)

lemma sink_keeps_sent: "sink_keeps clock s s' \<Longrightarrow> (fin \<Longrightarrow> sink_takes wire s s' d) \<Longrightarrow> payload_sent clock wire s d fin s'"
  by (simp add: payload_sent_def sink_keeps_def out_frame_announced)

lemma payload_sent_on_result:
  assumes "payload_sent clock wire s d fin s'" "count_kept g" "\<And>r. announced r (g r)"
  shows "payload_sent clock wire s d fin (on_result g s')"
  using assms by (auto simp: payload_sent_def on_result_keeps sink_takes_def intro: announced_trans)

lemma length_store_ge: "length buf \<le> length (store buf 0 d)"
  by (simp add: store_def)

lemma payload_sent_high_water:
  assumes "payload_sent clock wire s d fin s'"
  shows "payload_sent clock wire s d fin (note_high_water n s')"
  using assms
  by (auto simp: payload_sent_def note_high_water_keeps sink_takes_def intro: announced_trans [OF _ note_high_water_announced])

lemma send_prepared_returns:
  assumes ok: "platform_ok p clock wire"
  shows "sink_ok s \<Longrightarrow> AIRDROP_UPLOAD_WORKSPACE_BYTES \<le> length ws \<Longrightarrow>
    returns (send_prepared p get remaining c ws s) (\<lambda>(status, c', ws', s'). \<exists>d. payload_sent clock wire s d (status = STREAM_OK) s' \<and>
      (status = STREAM_OK \<longrightarrow> length d = remaining \<and>
        (\<forall>pending xs. byte_source get pending \<and> pending c xs \<and> remaining \<le> length xs \<longrightarrow> d = take remaining xs)))"
proof (induction remaining arbitrary: c ws s rule: less_induct)
  case (less remaining)
  show ?case
  proof (cases "remaining > 0")
    case False
    then show ?thesis
      using less.prems
      by (subst send_prepared.simps) (auto simp: returns_def payload_sent_def sink_takes_Nil)
  next
    case True
    define k where "k = (if remaining < AIRDROP_UPLOAD_WORKSPACE_BYTES then remaining else AIRDROP_UPLOAD_WORKSPACE_BYTES)"
    obtain good data n c1 where r: "get c k = (good, data, n, c1)" by (metis prod_cases4)
    define ws1 where "ws1 = store ws 0 data"
    have k: "0 < k" "k \<le> remaining" "k \<le> length ws1"
      using True less.prems(2) length_store_ge [of ws data] by (auto simp: k_def ws1_def AIRDROP_UPLOAD_WORKSPACE_BYTES_def)
    show ?thesis
    proof (cases "good \<and> 0 < n \<and> n \<le> k")
      case False
      have fail: "payload_sent clock wire s [] False s" using less.prems(1) by (simp add: payload_sent_def)
      show ?thesis
        using True r False fail
        by (subst send_prepared.simps) (auto simp: Let_def k_def [symmetric] ws1_def returns_def)
    next
      case read: True
      have step: "send_prepared p get remaining c ws s = buffer_upload_chunk p s (take n ws1) \<bind>
          (\<lambda>(ok2, s1). if \<not> ok2 then Some (STREAM_SINK, c1, ws1, s1)
             else send_prepared p get (remaining - n) c1 ws1 (note_high_water n s1))"
        using True r read unfolding ws1_def by (subst send_prepared.simps) (simp add: Let_def k_def [symmetric])
      have rest: "returns (send_prepared p get (remaining - n) c1 ws1 (note_high_water n s1)) (\<lambda>(status, c', ws', s').
          \<exists>d. payload_sent clock wire s d (status = STREAM_OK) s' \<and> (status = STREAM_OK \<longrightarrow> length d = remaining \<and>
            (\<forall>pending xs. byte_source get pending \<and> pending c xs \<and> remaining \<le> length xs \<longrightarrow> d = take remaining xs)))"
        if s1: "payload_sent clock wire s (take n ws1) True s1" for s1
      proof -
        note s2 = payload_sent_high_water [OF s1, of n]
        have "returns (send_prepared p get (remaining - n) c1 ws1 (note_high_water n s1)) (\<lambda>(status, c', ws', s').
          \<exists>d. payload_sent clock wire (note_high_water n s1) d (status = STREAM_OK) s' \<and> (status = STREAM_OK \<longrightarrow> length d = remaining - n \<and>
            (\<forall>pending xs. byte_source get pending \<and> pending c1 xs \<and> remaining - n \<le> length xs \<longrightarrow> d = take (remaining - n) xs)))"
          by (rule less.IH) (use read True s2 k less.prems(2) length_store_ge [of ws data] in \<open>auto simp: payload_sent_def ws1_def\<close>)
        then show ?thesis
        proof (rule ok_mono, clarify)
          fix status c' ws' s' d
          assume d: "payload_sent clock wire (note_high_water n s1) d (status = STREAM_OK) s'"
            and l: "status = STREAM_OK \<longrightarrow> length d = remaining - n \<and>
              (\<forall>pending xs. byte_source get pending \<and> pending c1 xs \<and> remaining - n \<le> length xs \<longrightarrow> d = take (remaining - n) xs)"
          have whole: "take n ws1 @ d = take remaining xs"
            if st: "status = STREAM_OK" and src: "byte_source get pending" "pending c xs" "remaining \<le> length xs" for pending xs
          proof -
            have "get c k = (True, take n xs, n, c1) \<and> pending c1 (drop n xs)"
              using byte_source.get_delivers [OF src(1,2) k(1)] k(2) src(3) r by fastforce
            then have "take n ws1 = take n xs" "pending c1 (drop n xs)"
              using r read k src(3) by (auto simp: ws1_def store_def)
            moreover have "remaining - n \<le> length (drop n xs)" using src(3) by simp
            moreover from this have "d = take (remaining - n) (drop n xs)" using l st src(1) calculation(2) by blast
            ultimately show ?thesis using read k take_add [of n "remaining - n" xs] by simp
          qed
          show "\<exists>d. payload_sent clock wire s d (status = STREAM_OK) s' \<and> (status = STREAM_OK \<longrightarrow> length d = remaining \<and>
            (\<forall>pending xs. byte_source get pending \<and> pending c xs \<and> remaining \<le> length xs \<longrightarrow> d = take remaining xs))"
          proof (intro exI [of _ "take n ws1 @ d"] conjI impI)
            show "payload_sent clock wire s (take n ws1 @ d) (status = STREAM_OK) s'" by (rule payload_sent_trans [OF s2 d])
            show "length (take n ws1 @ d) = remaining" if "status = STREAM_OK" using l that read k by simp
          qed (use whole in blast)
        qed
      qed
      show ?thesis
        unfolding step
        by (rule ok_bind [OF buffer_upload_chunk_returns [OF ok less.prems(1)]])
          (auto intro!: ok_Some rest exI [of _ "[]"] sink_keeps_sent)
    qed
  qed
qed

text \<open>
  The compressor reaches its output only through the callback: what every call of the callback
  keeps, a call of the compressor keeps.
\<close>

definition compressor_ok :: "('e, 'z, 'o) deflate \<Rightarrow> bool" where
  "compressor_ok df \<longleftrightarrow> (\<forall>put fin d z out inv. (\<forall>out d. inv out \<longrightarrow> inv (snd (put out d))) \<longrightarrow> inv out \<longrightarrow>
     inv (snd (snd (df_compress_buffer df put fin d (z, out)))))"

lemma compressor_keeps:
  assumes "compressor_ok df" "df_compress_buffer df put fin d zo = (status, z', out')" "Q (snd zo)"
    and "\<And>out d. Q out \<Longrightarrow> Q (snd (put out d))"
  shows "Q out'"
  using assms unfolding compressor_ok_def by (cases zo) (metis snd_conv)

text \<open>
  During a pass into the sink: the output object is that of the sink, and when nothing failed the
  bytes counted are the bytes the sink took.
\<close>

definition zlib_on_sink ::
  "'e platform \<Rightarrow> ('e \<Rightarrow> int) \<Rightarrow> ('e \<Rightarrow> bytes) \<Rightarrow> 'e chunk_sink \<Rightarrow> 'e chunk_sink option zlib_output \<Rightarrow> bool" where
  "zlib_on_sink p clock wire s out \<longleftrightarrow> zo_write out = Ptr (chunk_write p) \<and>
     (\<exists>s' d. zo_context out = Some s' \<and> payload_sent clock wire s d (\<not> zo_failed out) s' \<and> (\<not> zo_failed out \<longrightarrow> length d = zo_bytes out))"

lemma write_zlib_output_keeps:
  assumes ok: "platform_ok p clock wire" and out: "zlib_on_sink p clock wire s out"
  shows "zlib_on_sink p clock wire s (snd (write_zlib_output out d))"
proof -
  obtain s1 u where s1: "zo_write out = Ptr (chunk_write p)" "zo_context out = Some s1"
    "payload_sent clock wire s u (\<not> zo_failed out) s1" "\<not> zo_failed out \<longrightarrow> length u = zo_bytes out"
    using out by (auto simp: zlib_on_sink_def)
  have live: "sink_ok s1" using s1(3) by (simp add: payload_sent_def)
  obtain fin s2 where c: "chunk_write p (Some s1) d = (fin, Some s2)" "sink_keeps clock s1 s2" "fin \<longrightarrow> sink_takes wire s1 s2 d"
    using chunk_write_cases [OF ok live] by blast
  have sent: "payload_sent clock wire s (u @ d) (fin \<and> \<not> zo_failed out) s2"
    using s1(3) c(2,3) sink_takes_append announced_trans [OF _ out_frame_announced]
    by (auto simp: payload_sent_def sink_keeps_def)
  show ?thesis
  proof (cases "length d > SIZE_MAX - zo_bytes out \<or> d = []")
    case True
    then show ?thesis
      using s1 unfolding zlib_on_sink_def write_zlib_output_def
      by (auto simp: payload_sent_def intro!: exI [of _ u])
  next
    case False
    then show ?thesis
      using s1 c sent unfolding zlib_on_sink_def write_zlib_output_def
      by (cases fin) (auto simp: payload_sent_def intro!: exI [of _ "u @ d"])
  qed
qed

text \<open>The output object during a pass, as the invariant of the archive's sink.\<close>

definition compressing ::
  "('e, 'z, 'e chunk_sink option zlib_output) deflate \<Rightarrow> 'e platform \<Rightarrow> ('e \<Rightarrow> int) \<Rightarrow> ('e \<Rightarrow> bytes) \<Rightarrow> 'e chunk_sink \<Rightarrow>
     'z \<times> 'e chunk_sink option zlib_output \<Rightarrow> bool" where
  "compressing df p clock wire s context \<longleftrightarrow> platform_ok p clock wire \<and> compressor_ok df \<and> zlib_on_sink p clock wire s (snd context)"

interpretation compressing: sink_invariant "feed_zlib_compressor df" "compressing df p clock wire s" for df p clock wire s
proof
  fix w w' and d fin
  assume a: "compressing df p clock wire s w" and w': "feed_zlib_compressor df w d = (fin, w')"
  obtain status where c: "df_compress_buffer df write_zlib_output False d w = (status, w')"
    using w' by (auto simp: feed_zlib_compressor_def split: prod.splits)
  obtain z' out' where w2: "w' = (z', out')" by force
  have "zlib_on_sink p clock wire s out'"
    by (rule compressor_keeps [where Q = "zlib_on_sink p clock wire s", OF _ c [unfolded w2]])
      (use a in \<open>auto simp: compressing_def intro: write_zlib_output_keeps\<close>)
  then show "compressing df p clock wire s w'" using a w2 by (simp add: compressing_def)
qed

lemma compress_pass_on_sink:
  fixes df :: "('e, 'z, 'e chunk_sink option zlib_output) deflate"
  assumes ok: "platform_ok p clock wire" "compressor_ok df" and s: "sink_ok s"
    and pass: "compress_odc_pass df allocated source path mtime ws (Ptr (chunk_write p)) (Some s) r0 0 =
      (status, source', ws', context, streamed, n)"
  shows "\<exists>s' d. context = Some s' \<and> payload_sent clock wire s d (status = STREAM_OK) s' \<and> (status = STREAM_OK \<longrightarrow> length d = n)"
proof -
  define out0 where "out0 = \<lparr>zo_write = Ptr (chunk_write p), zo_context = Some s, zo_bytes = 0, zo_failed = False\<rparr>"
  have start: "payload_sent clock wire s [] True s" using s by (simp add: payload_sent_def sink_takes_Nil)
  then have zero: "zlib_on_sink p clock wire s out0" by (simp add: zlib_on_sink_def out0_def)
  then have c0: "compressing df p clock wire s (z, out0)" for z using ok by (simp add: compressing_def)
  have from_out: ?thesis if "zlib_on_sink p clock wire s out" "context = zo_context out" "status = STREAM_OK \<longrightarrow> \<not> zo_failed out \<and> n = zo_bytes out" for out
    using that unfolding zlib_on_sink_def payload_sent_def by fastforce
  obtain init z where init: "df_init df = (init, z)" by force
  show ?thesis
  proof (cases "allocated \<and> init = TDEFL_STATUS_OKAY")
    case False
    then have "status = STREAM_COMPRESS" "context = Some s" using pass init by (auto simp: compress_odc_pass_def split: if_splits)
    then show ?thesis using start by (auto simp: payload_sent_def intro!: exI [of _ "[]"])
  next
    case True
    obtain status1 source1 workspace1 z1 out1 result1 where odc: "espdrop_airdrop_stream_odc (Ptr source) (Ptr path) mtime (Ptr ws)
        AIRDROP_UPLOAD_WORKSPACE_BYTES (Ptr (feed_zlib_compressor df)) (z, out0) (Ptr r0) = (status1, source1, workspace1, (z1, out1), result1)"
      by (metis prod_cases5 surj_pair)
    have out1: "zlib_on_sink p clock wire s out1"
      using compressing.kept_stream_odc [OF c0 odc] by (simp add: compressing_def)
    obtain fin z2 out2 where fin: "df_compress_buffer df write_zlib_output True [] (z1, out1) = (fin, z2, out2)" by (metis prod_cases3)
    have out2: "zlib_on_sink p clock wire s out2"
      by (rule compressor_keeps [where Q = "zlib_on_sink p clock wire s", OF ok(2) fin])
        (use out1 in \<open>auto intro: write_zlib_output_keeps [OF ok(1)]\<close>)
    have "if status1 = STREAM_OK
      then context = zo_context out2 \<and> (status = STREAM_OK \<longrightarrow> \<not> zo_failed out2) \<and> n = zo_bytes out2
      else context = zo_context out1 \<and> status \<noteq> STREAM_OK"
      using pass True init odc fin by (auto simp: compress_odc_pass_def Let_def out0_def [symmetric] split: if_splits)
    then show ?thesis using from_out [OF out1] from_out [OF out2] by (auto split: if_splits)
  qed
qed

text \<open>A source whose reads deliver the file \<open>xs\<close>, in portions of their choosing.\<close>

definition delivers :: "'s airdrop_source \<Rightarrow> bytes \<Rightarrow> bool" where
  "delivers src xs \<longleftrightarrow> length xs = src_size_bytes src \<and>
     (\<exists>get pending rest. src_read src = Ptr get \<and> byte_source get pending \<and> pending (src_context src) (xs @ rest))"

lemma sources_agree:
  "byte_source get P \<Longrightarrow> byte_source get Q \<Longrightarrow> P s xs \<Longrightarrow> Q s ys \<Longrightarrow> n \<le> length xs \<Longrightarrow> n \<le> length ys \<Longrightarrow> take n xs = take n ys"
proof (induction n arbitrary: s xs ys rule: less_induct)
  case (less n)
  show ?case
  proof (cases "n = 0")
    case False
    then obtain k s1 where k: "get s n = (True, take k xs, k, s1)" "0 < k" "k \<le> n" "P s1 (drop k xs)"
      using byte_source.get_delivers [OF less.prems(1,3)] less.prems(5) by blast
    obtain j s2 where j: "get s n = (True, take j ys, j, s2)" "Q s2 (drop j ys)"
      using byte_source.get_delivers [OF less.prems(2,4)] less.prems(6) False by blast
    have eq: "take k xs = take k ys" "Q s1 (drop k ys)" using k(1) j by auto
    have "take (n - k) (drop k xs) = take (n - k) (drop k ys)"
      by (rule less.IH) (use less.prems k eq False in auto)
    then show ?thesis using eq(1) k(3) take_add [of k "n - k" xs] take_add [of k "n - k" ys] by simp
  qed simp
qed

lemma delivers_unique:
  assumes "delivers src xs" "delivers src ys"
  shows "xs = ys"
proof -
  obtain get P r1 where 1: "src_read src = Ptr get" "byte_source get P" "P (src_context src) (xs @ r1)" using assms(1) by (auto simp: delivers_def)
  obtain Q r2 where 2: "byte_source get Q" "Q (src_context src) (ys @ r2)" using assms(2) 1(1) by (auto simp: delivers_def)
  have "length xs = length ys" using assms by (simp add: delivers_def)
  then show ?thesis using sources_agree [OF 1(2) 2(1) 1(3) 2(2), of "length xs"] by simp
qed

text \<open>The payload that a form of an outgoing file stands for.\<close>

definition payload_of :: "payload_form \<Rightarrow> bytes \<Rightarrow> ('s, 'q) outgoing_file \<Rightarrow> nat \<Rightarrow> bytes \<Rightarrow> bool" where
  "payload_of form path f compressed d \<longleftrightarrow>
     (case form of
        PREPARED \<Rightarrow> length d = src_size_bytes (pp_source (of_prepared_payload f)) \<and>
          (\<forall>xs. delivers (pp_source (of_prepared_payload f)) xs \<longrightarrow> d = xs)
      | ZLIB _ \<Rightarrow> length d = ESPDROP_AIRDROP_DVZIP_BLOCK_HEADER_BYTES + compressed
      | STORED \<Rightarrow> (\<forall>xs. delivers (of_source f) xs \<longrightarrow> d = dvzip_stored (odc_archive path (of_mtime f) xs)))"

definition form_ok :: "payload_form \<Rightarrow> bytes \<Rightarrow> ('s, 'q) outgoing_file \<Rightarrow> bool" where
  "form_ok form path f \<longleftrightarrow>
     (case form of
        PREPARED \<Rightarrow> prepared_upload f
      | ZLIB _ \<Rightarrow> True
      | STORED \<Rightarrow> src_read (of_source f) \<noteq> NULL \<and> planned_size path (src_size_bytes (of_source f)))"

text \<open>Streaming an archive from any source returns with a whole sink; from a lawful source it is exact.\<close>

lemma send_stored_sent:
  assumes ok: "platform_ok p clock wire" and s: "sink_ok s" and ws: "AIRDROP_UPLOAD_WORKSPACE_BYTES \<le> length ws"
    and form: "form_ok STORED path f"
    and run: "espdrop_airdrop_stream_stored_dvzip (Ptr (of_source f)) (Ptr path) (of_mtime f) (Ptr ws) AIRDROP_UPLOAD_WORKSPACE_BYTES
      (Ptr (chunk_write p)) (Some s) (Ptr r0) = (status, source', ws', context, streamed)"
  shows "\<exists>s' d. context = Some s' \<and> payload_sent clock wire s d (status = STREAM_OK \<and> (\<exists>xs. delivers (of_source f) xs)) s' \<and>
    payload_of STORED path f n d"
proof -
  have "chunk_live p clock wire (fst (uk_out s)) (clock (snd (uk_out s))) context"
    using live.kept_stream_stored_dvzip [OF chunk_live_sink [OF ok s] run] .
  then obtain s' where s': "context = Some s'" "sink_ok s'" "out_frame (fst (uk_out s)) (fst (uk_out s'))"
    "clock (snd (uk_out s)) \<le> clock (snd (uk_out s'))" by (auto simp: chunk_live_def)
  show ?thesis
  proof (cases "\<exists>xs. delivers (of_source f) xs")
    case False
    then show ?thesis using s' by (auto simp: payload_sent_def payload_of_def out_frame_announced)
  next
    case True
    then obtain xs where xs: "delivers (of_source f) xs" by blast
    obtain get pending rest where src: "src_read (of_source f) = Ptr get" "byte_source get pending"
      "pending (src_context (of_source f)) (xs @ rest)" and len: "length xs = src_size_bytes (of_source f)"
      using xs by (auto simp: delivers_def)
    let ?d = "dvzip_stored (odc_archive path (of_mtime f) xs)"
    have exact: "chunk_accepted p clock wire n0 base context (ys @ ?d)"
      if acc: "chunk_accepted p clock wire n0 base (Some s) ys" and st: "status = STREAM_OK" for n0 base ys
      using stored_dvzip_streams [OF src(2) chunk.byte_sink_axioms [of p clock wire n0 base] _ src(1,3) _ _ ws acc,
          of path "of_mtime f" r0 undefined] form run st len
      by (auto simp: form_ok_def AIRDROP_UPLOAD_WORKSPACE_BYTES_def)
    have "sink_takes wire s s' ?d" if st: "status = STREAM_OK"
      unfolding sink_takes_def
    proof (intro allI impI)
      fix n0 base ys cs assume "chunks_sent wire n0 base s ys cs"
      then have "chunk_accepted p clock wire n0 base (Some s) ys" using ok s by (auto simp: chunk_accepted_def)
      from exact [OF this st] show "\<exists>cs'. chunks_sent wire n0 base s' (ys @ ?d) cs'" by (auto simp: chunk_accepted_def s'(1))
    qed
    then show ?thesis
      using s' delivers_unique [OF xs] by (intro exI [of _ s'] exI [of _ ?d]) (auto simp: payload_sent_def payload_of_def out_frame_announced)
  qed
qed

lemma length_block_header:
  "espdrop_airdrop_build_dvzip_block_header (Ptr (replicate ESPDROP_AIRDROP_DVZIP_BLOCK_HEADER_BYTES 0)) n b = (True, h) \<Longrightarrow>
     length (deref h) = ESPDROP_AIRDROP_DVZIP_BLOCK_HEADER_BYTES"
  by (auto simp: espdrop_airdrop_build_dvzip_block_header_def ESPDROP_AIRDROP_DVZIP_BLOCK_HEADER_BYTES_def put_be32_def store_def split: if_splits)

lemma status_kept: "count_kept (\<lambda>r. r\<lparr>ur_stream_status := status\<rparr>)"
  by (simp add: count_kept_def)

lemma send_zlib_sent:
  fixes df :: "('e, 'z, 'e chunk_sink option zlib_output) deflate"
  assumes ok: "platform_ok p clock wire" "compressor_ok df" and s: "sink_ok s"
  shows "returns (send_zlib p df crc path f ws s) (\<lambda>(streamed, f', ws', s').
    \<exists>d. payload_sent clock wire s d (ur_stream_status (fst (uk_out s')) = STREAM_OK) s' \<and>
      (ur_stream_status (fst (uk_out s')) = STREAM_OK \<longrightarrow> payload_of (ZLIB crc) path f (ur_compressed_bytes (fst (uk_out s))) d))"
proof -
  define n where "n = ur_compressed_bytes (fst (uk_out s))"
  obtain built h where h: "espdrop_airdrop_build_dvzip_block_header (Ptr (replicate ESPDROP_AIRDROP_DVZIP_BLOCK_HEADER_BYTES 0)) (of_nat n) False = (built, h)"
    by force
  let ?Q = "\<lambda>(streamed, f', ws', s'). \<exists>d. payload_sent clock wire s d (ur_stream_status (fst (uk_out s')) = STREAM_OK) s' \<and>
      (ur_stream_status (fst (uk_out s')) = STREAM_OK \<longrightarrow> payload_of (ZLIB crc) path f n d)"
  have fail: "?Q (streamed, f', ws', on_result (\<lambda>r. r\<lparr>ur_stream_status := STREAM_SINK\<rparr>) s1)"
    if "payload_sent clock wire s d False s1" for streamed f' ws' s1 d
    using payload_sent_on_result [OF that status_kept [of STREAM_SINK] stream_status_announced] by auto
  define go where "go = (\<lambda>s1. case compress_odc_pass df (df_alloc df (snd (uk_out s1))) (of_source f) path (of_mtime f) ws (Ptr (chunk_write p)) (Some s1) stream_result_zero 0
    of (status, source, ws1, context, streamed, m) \<Rightarrow> context \<bind> (\<lambda>s2.
      let status1 = (if status = STREAM_OK \<and> (m \<noteq> n \<or> sr_source_crc32 streamed \<noteq> crc) then STREAM_COMPRESS else status) in
      Some (streamed, f\<lparr>of_source := source\<rparr>, ws1, on_result (\<lambda>r. r\<lparr>ur_stream_status := status1\<rparr>) s2)))"
  have pass: "returns (go s1) ?Q"
    if s1: "payload_sent clock wire s (deref h) True s1" and built for s1
  proof -
    obtain status source ws1 ctx streamed m where c: "compress_odc_pass df (df_alloc df (snd (uk_out s1))) (of_source f) path (of_mtime f) ws
        (Ptr (chunk_write p)) (Some s1) stream_result_zero 0 = (status, source, ws1, ctx, streamed, m)" by (metis prod_cases6)
    have "sink_ok s1" using s1 by (simp add: payload_sent_def)
    from compress_pass_on_sink [OF ok this c] obtain s2 d where s2: "ctx = Some s2" "payload_sent clock wire s1 d (status = STREAM_OK) s2"
      "status = STREAM_OK \<longrightarrow> length d = m" by blast
    note sent = payload_sent_trans [OF s1 s2(2)]
    have weaken: "payload_sent clock wire s x a b \<Longrightarrow> payload_sent clock wire s x (a \<and> y) b" for x a b y by (auto simp: payload_sent_def)
    define status1 where "status1 = (if status = STREAM_OK \<and> (m \<noteq> n \<or> sr_source_crc32 streamed \<noteq> crc) then STREAM_COMPRESS else status)"
    have iff: "(status1 = STREAM_OK) = (status = STREAM_OK \<and> m = n \<and> sr_source_crc32 streamed = crc)"
      by (auto simp: status1_def)
    have "?Q (streamed, f\<lparr>of_source := source\<rparr>, ws1, on_result (\<lambda>r. r\<lparr>ur_stream_status := status1\<rparr>) s2)"
      using payload_sent_on_result [OF weaken [OF sent] status_kept [of status1] stream_status_announced] s2(3) length_block_header [of "of_nat n" False h] h \<open>built\<close>
      by (auto simp: iff payload_of_def intro!: exI [of _ "deref h @ d"])
    then show ?thesis
      unfolding go_def c prod.case s2(1) Let_def status1_def [symmetric] by (simp add: returns_def)
  qed
  show ?thesis
  proof (cases built)
    case False
    have "payload_sent clock wire s [] False s" using s by (simp add: payload_sent_def)
    then show ?thesis using fail False by (simp add: send_zlib_def n_def [symmetric] h returns_def)
  next
    case True
    have run: "send_zlib p df crc path f ws s = buffer_upload_chunk p s (deref h) \<bind> (\<lambda>(ok, s1).
        if \<not> ok then Some (stream_result_zero, f, ws, on_result (\<lambda>r. r\<lparr>ur_stream_status := STREAM_SINK\<rparr>) s1) else go s1)"
      unfolding send_zlib_def go_def n_def [symmetric] Let_def [of n] h prod.case by (simp only: True if_True)
    have "returns (buffer_upload_chunk p s (deref h) \<bind> (\<lambda>(ok, s1).
        if \<not> ok then Some (stream_result_zero, f, ws, on_result (\<lambda>r. r\<lparr>ur_stream_status := STREAM_SINK\<rparr>) s1) else go s1)) ?Q"
    proof (rule ok_bind [OF buffer_upload_chunk_returns [OF ok(1) s]], clarify)
      fix fin s1 assume s1: "sink_keeps clock s s1" "fin \<longrightarrow> sink_takes wire s s1 (deref h)"
      have "payload_sent clock wire s (deref h) fin s1" using s1 by (intro sink_keeps_sent) auto
      then show "returns (if \<not> fin then Some (stream_result_zero, f, ws, on_result (\<lambda>r. r\<lparr>ur_stream_status := STREAM_SINK\<rparr>) s1) else go s1) ?Q"
        using pass [of s1] True fail by (cases fin) (auto intro!: ok_Some)
    qed
    then show ?thesis by (simp only: run n_def)
  qed
qed

definition source_known :: "payload_form \<Rightarrow> ('s, 'q) outgoing_file \<Rightarrow> bool" where
  "source_known form f \<longleftrightarrow> (form = STORED \<longrightarrow> (\<exists>xs. delivers (of_source f) xs))"

lemma payload_sent_weaken: "payload_sent clock wire s d a s' \<Longrightarrow> (b \<Longrightarrow> a) \<Longrightarrow> payload_sent clock wire s d b s'"
  by (auto simp: payload_sent_def)

lemma send_payload_sent:
  fixes df :: "('e, 'z, 'e chunk_sink option zlib_output) deflate"
  assumes ok: "platform_ok p clock wire" "compressor_ok df" and s: "sink_ok s" and ws: "AIRDROP_UPLOAD_WORKSPACE_BYTES \<le> length ws"
    and form: "form_ok form path f"
  shows "returns (send_payload p df form path f ws s) (\<lambda>(streamed, f', ws', s').
    \<exists>d. payload_sent clock wire s d (ur_stream_status (fst (uk_out s')) = STREAM_OK \<and> source_known form f) s' \<and>
      (ur_stream_status (fst (uk_out s')) = STREAM_OK \<longrightarrow> payload_of form path f (ur_compressed_bytes (fst (uk_out s))) d))"
proof (cases form)
  case (ZLIB crc)
  show ?thesis
    unfolding send_payload_def ZLIB payload_form.case
    by (rule ok_mono [OF send_zlib_sent [OF ok s]]) (auto simp: source_known_def)
next
  case STORED
  obtain status source' ws' ctx streamed where run: "espdrop_airdrop_stream_stored_dvzip (Ptr (of_source f)) (Ptr path) (of_mtime f) (Ptr ws)
      AIRDROP_UPLOAD_WORKSPACE_BYTES (Ptr (chunk_write p)) (Some s) (Ptr stream_result_zero) = (status, source', ws', ctx, streamed)"
    by (metis prod_cases5)
  obtain s' d where d: "ctx = Some s'" "payload_sent clock wire s d (status = STREAM_OK \<and> (\<exists>xs. delivers (of_source f) xs)) s'"
    "payload_of STORED path f (ur_compressed_bytes (fst (uk_out s))) d"
    using send_stored_sent [OF ok(1) s ws form [unfolded STORED] run] by blast
  show ?thesis
    unfolding send_payload_def STORED payload_form.case run prod.case
    using d payload_sent_on_result [OF d(2) status_kept [of status] stream_status_announced]
    by (auto simp: returns_def source_known_def intro!: exI [of _ d])
next
  case PREPARED
  define q where "q = pp_source (of_prepared_payload f)"
  let ?s = "on_result (\<lambda>r. r\<lparr>ur_stream_status := STREAM_OK\<rparr>) s"
  obtain get where get: "src_read q = Ptr get" using form PREPARED by (cases "src_read q") (auto simp: form_ok_def prepared_upload_def q_def)
  have s0: "sink_ok ?s" using s by (simp add: on_result_keeps)
  have start: "payload_sent clock wire s [] True ?s"
    using payload_sent_on_result [of clock wire s "[]" True s, OF _ status_kept [of STREAM_OK] stream_status_announced] s
    by (simp add: payload_sent_def sink_takes_Nil)
  have "returns (send_prepared p get (src_size_bytes q) (src_context q) ws ?s \<bind> (\<lambda>(status, c', ws', s').
      Some (stream_result_zero, f\<lparr>of_prepared_payload := (of_prepared_payload f)\<lparr>pp_source := q\<lparr>src_context := c'\<rparr>\<rparr>\<rparr>, ws',
        on_result (\<lambda>r. r\<lparr>ur_stream_status := status\<rparr>) s')))
    (\<lambda>(streamed, f', ws', s').
      \<exists>d. payload_sent clock wire s d (ur_stream_status (fst (uk_out s')) = STREAM_OK \<and> source_known form f) s' \<and>
        (ur_stream_status (fst (uk_out s')) = STREAM_OK \<longrightarrow> payload_of form path f (ur_compressed_bytes (fst (uk_out s))) d))"
  proof (rule ok_bind [OF send_prepared_returns [OF ok(1) s0 ws]], clarify)
    fix status c' ws' s' d
    assume d: "payload_sent clock wire ?s d (status = STREAM_OK) s'"
      and l: "status = STREAM_OK \<longrightarrow> length d = src_size_bytes q \<and>
        (\<forall>pending xs. byte_source get pending \<and> pending (src_context q) xs \<and> src_size_bytes q \<le> length xs \<longrightarrow> d = take (src_size_bytes q) xs)"
    have d2: "payload_sent clock wire s d (status = STREAM_OK) (on_result (\<lambda>r. r\<lparr>ur_stream_status := status\<rparr>) s')"
      using payload_sent_on_result [OF payload_sent_trans [OF start d] status_kept [of status] stream_status_announced] by simp
    have "payload_of PREPARED path f k d" if "status = STREAM_OK" for k
    proof -
      have "d = xs" if dl: "delivers q xs" for xs
      proof -
        obtain pending rest where "byte_source get pending" "pending (src_context q) (xs @ rest)" "length xs = src_size_bytes q"
          using dl get by (auto simp: delivers_def)
        moreover from this have "src_size_bytes q \<le> length (xs @ rest)" by simp
        ultimately show ?thesis using l \<open>status = STREAM_OK\<close> by fastforce
      qed
      then show ?thesis using l that by (simp add: payload_of_def q_def)
    qed
    then show "returns (Some (stream_result_zero, f\<lparr>of_prepared_payload := (of_prepared_payload f)\<lparr>pp_source := q\<lparr>src_context := c'\<rparr>\<rparr>\<rparr>, ws',
        on_result (\<lambda>r. r\<lparr>ur_stream_status := status\<rparr>) s')) (\<lambda>(streamed, f', ws', s').
      \<exists>d. payload_sent clock wire s d (ur_stream_status (fst (uk_out s')) = STREAM_OK \<and> source_known form f) s' \<and>
        (ur_stream_status (fst (uk_out s')) = STREAM_OK \<longrightarrow> payload_of form path f (ur_compressed_bytes (fst (uk_out s))) d))"
      using d2 by (auto intro!: ok_Some exI [of _ d] intro: payload_sent_weaken simp: PREPARED)
  qed
  then show ?thesis by (simp add: send_payload_def PREPARED q_def [symmetric] get Let_def)
qed

end
