(* ===== verification/Tls_Session.thy ===== *)
theory Tls_Session
  imports Tls_Upload
begin

text \<open>
  Whole requests and sessions: a completed upload put exactly the head, the chunked payload and
  the terminator on the wire; every session returns; an upload is attempted only after an
  accepted Ask, with its transfer identifier.
\<close>

section \<open>From the head to the response\<close>

lemma streamed_totals_keep:
  "count_kept (streamed_totals form streamed)" "ur_response_complete (streamed_totals form streamed r) = ur_response_complete r"
  "ur_transfer_id (streamed_totals form streamed r) = ur_transfer_id r"
  "ur_transfer_id_continuity (streamed_totals form streamed r) = ur_transfer_id_continuity r"
  "ur_attempted (streamed_totals form streamed r) = ur_attempted r" "ur_stored_blocks (streamed_totals form streamed r) = ur_stored_blocks r"
  "ur_stream_status (streamed_totals form streamed r) = ur_stream_status r"
  by (simp_all add: count_kept_def streamed_totals_def Let_def)

text \<open>What the transfer leaves of the result that it was given.\<close>

definition same_transfer :: "upload_result \<Rightarrow> upload_result \<Rightarrow> bool" where
  "same_transfer r r' \<longleftrightarrow> ur_transfer_id r' = ur_transfer_id r \<and> ur_transfer_id_continuity r' = ur_transfer_id_continuity r \<and>
     ur_attempted r' = ur_attempted r \<and> ur_stored_blocks r' = ur_stored_blocks r"

lemma announced_same: "announced r r' \<Longrightarrow> same_transfer r r' \<and> ur_response_complete r' = ur_response_complete r"
  by (simp add: announced_def same_transfer_def)

lemma same_transfer_refl [simp]: "same_transfer r r"
  and same_transfer_trans: "same_transfer a b \<Longrightarrow> same_transfer b c \<Longrightarrow> same_transfer a c"
  by (auto simp: same_transfer_def)

lemma finish_upload_same: "same_transfer r (finish_upload p r outcome received)"
  "ur_request_bytes (finish_upload p r outcome received) = ur_request_bytes r"
  "\<not> ur_response_complete r \<Longrightarrow> ur_response_complete (finish_upload p r outcome received) \<longleftrightarrow> (\<exists>h. outcome = RO_COMPLETE h)"
  by (auto simp: same_transfer_def finish_upload_def copy_upload_http_result_def Let_def split: response_outcome.splits option.splits)

text \<open>
  The end of a request: outgoing bytes, the count and the clock, relative to its start. A result
  without a response has no other promise than that time has passed.
\<close>

definition upload_on_wire ::
  "('e \<Rightarrow> bytes) \<Rightarrow> 'e \<Rightarrow> nat \<Rightarrow> bytes \<Rightarrow> bytes \<Rightarrow> 'e \<Rightarrow> upload_result \<Rightarrow> bool" where
  "upload_on_wire wire e n0 head d e' r' \<longleftrightarrow> (\<exists>cs. list_all (\<lambda>c. c \<noteq> []) cs \<and> concat cs = d \<and>
     wire e' = wire e @ head @ concat (map chunk_bytes cs) @ chunk_terminator \<and>
     ur_request_bytes r' = n0 + length head + length (concat (map chunk_bytes cs) @ chunk_terminator))"

lemma await_upload_response_returns:
  assumes ok: "platform_ok p clock wire"
  shows "returns (await_upload_response p deadline_us (r, f, st)) (\<lambda>(r', f', st').
    clock (ts_env st) \<le> clock (ts_env st') \<and> wire (ts_env st') = wire (ts_env st) \<and> same_transfer r r' \<and>
    ur_request_bytes r' = ur_request_bytes r)"
  unfolding await_upload_response_def prod.case
  by (rule ok_bind [OF read_response_returns [OF ok response_parsers_total(3)]])
    (auto intro!: ok_Some simp: finish_upload_same)

lemma end_upload_returns:
  assumes ok: "platform_ok p clock wire" and s: "sink_ok s" and fresh: "\<not> ur_response_complete (fst (uk_out s))"
  shows "returns (end_upload p deadline_us terminator s f st) (\<lambda>(r', f', st').
    clock (snd (uk_out s)) \<le> clock (ts_env st') \<and> same_transfer (fst (uk_out s)) r' \<and>
    (ur_response_complete r' \<longrightarrow> (\<forall>n0 base d cs. chunks_sent wire n0 base s d cs \<longrightarrow>
      (\<exists>cs. list_all (\<lambda>c. c \<noteq> []) cs \<and> concat cs = d \<and> wire (ts_env st') = base @ concat (map chunk_bytes cs) @ terminator \<and>
        ur_request_bytes r' = n0 + length (concat (map chunk_bytes cs) @ terminator)))))"
proof -
  let ?Q = "\<lambda>(r', f', st'). clock (snd (uk_out s)) \<le> clock (ts_env st') \<and> same_transfer (fst (uk_out s)) r' \<and>
    (ur_response_complete r' \<longrightarrow> (\<forall>n0 base d cs. chunks_sent wire n0 base s d cs \<longrightarrow>
      (\<exists>cs. list_all (\<lambda>c. c \<noteq> []) cs \<and> concat cs = d \<and> wire (ts_env st') = base @ concat (map chunk_bytes cs) @ terminator \<and>
        ur_request_bytes r' = n0 + length (concat (map chunk_bytes cs) @ terminator))))"
  show ?thesis
    unfolding end_upload_def
  proof (rule ok_bind [OF flush_takes [OF ok s]], clarify)
    fix flushed s1
    assume s1: "sink_keeps clock s s1" "flushed \<longrightarrow> uk_used s1 = 0 \<and> sink_takes wire s s1 []"
    obtain r1 e1 where out: "uk_out s1 = (r1, e1)" by force
    have k: "same_transfer (fst (uk_out s)) r1" "\<not> ur_response_complete r1" "clock (snd (uk_out s)) \<le> clock e1"
      using s1(1) out announced_same [OF out_frame_announced] fresh by (auto simp: sink_keeps_def)
    show "returns ((if flushed then write_upload_part p terminator deadline_us (uk_out s1) else Some (False, uk_out s1)) \<bind>
       (\<lambda>(ended, result, e). let st1 = st\<lparr>ts_env := e, ts_upload_network_buffer := uk_buffer s1\<rparr> in
          if \<not> ended then Some (result, f, st1) else await_upload_response p deadline_us (result, f, st1))) ?Q"
    proof (cases flushed)
      case False
      then show ?thesis using k out by (auto intro!: ok_Some)
    next
      case True
      have "returns (write_upload_part p terminator deadline_us (r1, e1) \<bind>
       (\<lambda>(ended, result, e). let st1 = st\<lparr>ts_env := e, ts_upload_network_buffer := uk_buffer s1\<rparr> in
          if \<not> ended then Some (result, f, st1) else await_upload_response p deadline_us (result, f, st1))) ?Q"
      proof (rule ok_bind [OF write_upload_part_returns [OF ok]], clarify)
        fix ended r2 e2
        assume r2: "clock e1 \<le> clock e2" "out_frame r1 r2" "prefix (wire e1) (wire e2)"
          "ended \<longrightarrow> wire e2 = wire e1 @ terminator \<and> r2 = r1\<lparr>ur_request_bytes := ur_request_bytes r1 + length terminator\<rparr>"
        define st1 where "st1 = st\<lparr>ts_env := e2, ts_upload_network_buffer := uk_buffer s1\<rparr>"
        have k2: "same_transfer (fst (uk_out s)) r2" "\<not> ur_response_complete r2"
          using announced_same [OF out_frame_announced [OF r2(2)]] k same_transfer_trans by blast+
        have sent: "\<exists>cs. list_all (\<lambda>c. c \<noteq> []) cs \<and> concat cs = d \<and> wire e2 = base @ concat (map chunk_bytes cs) @ terminator \<and>
          ur_request_bytes r2 = n0 + length (concat (map chunk_bytes cs) @ terminator)"
          if c: "chunks_sent wire n0 base s d cs" and ended for n0 base d cs
        proof -
          obtain cs' where "chunks_sent wire n0 base s1 (d @ []) cs'" using sink_takesD [OF _ c] s1(2) True by blast
          then show ?thesis using s1(2) True r2(4) out \<open>ended\<close> by (auto simp: chunks_sent_def)
        qed
        have "returns (if \<not> ended then Some (r2, f, st1) else await_upload_response p deadline_us (r2, f, st1)) ?Q"
        proof (cases ended)
          case False
          then show ?thesis using k2 k r2 by (auto intro!: ok_Some simp: st1_def)
        next
          case True
          show ?thesis
            using True
            by simp (rule ok_mono [OF await_upload_response_returns [OF ok]],
              use k2 k r2 sent in \<open>auto simp: st1_def intro: same_transfer_trans\<close>)
        qed
        then show "returns (let st1 = st\<lparr>ts_env := e2, ts_upload_network_buffer := uk_buffer s1\<rparr> in
          if \<not> ended then Some (r2, f, st1) else await_upload_response p deadline_us (r2, f, st1)) ?Q"
          by (simp only: st1_def Let_def)
      qed
      then show ?thesis using True by (simp only: out if_True)
    qed
  qed
qed

lemma deadline_after_time:
  assumes "platform_ok p clock wire" "deadline_after p t e = (deadline_us, e')"
  shows "clock e \<le> clock e' \<and> wire e' = wire e"
  using assms platform_time [OF assms(1)] by (fastforce simp: deadline_after_def split: prod.splits)

lemma send_upload_returns:
  fixes df :: "('e, 'z, 'e chunk_sink option zlib_output) deflate"
  assumes ok: "platform_ok p clock wire" "compressor_ok df" and st: "static_buffers st" and form: "form_ok form path f"
    and fresh: "\<not> ur_response_complete r"
  shows "returns (send_upload p df form path head_bytes chunk_terminator t (r, f, st)) (\<lambda>(r', f', st').
    clock (ts_env st) \<le> clock (ts_env st') \<and> same_transfer (r\<lparr>ur_attempted := True\<rparr>) r' \<and>
    (ur_response_complete r' \<and> source_known form f \<longrightarrow> (\<exists>d. payload_of form path f (ur_compressed_bytes r) d \<and>
      upload_on_wire wire (ts_env st) (ur_request_bytes r) (take head_bytes (ts_upload_head st)) d (ts_env st') r')))"
proof -
  define r0 where "r0 = r\<lparr>ur_attempted := True\<rparr>"
  define head where "head = take head_bytes (ts_upload_head st)"
  have r0: "\<not> ur_response_complete r0" "ur_request_bytes r0 = ur_request_bytes r" "ur_compressed_bytes r0 = ur_compressed_bytes r"
    using fresh by (simp_all add: r0_def)
  let ?Q = "\<lambda>(r', f', st'). clock (ts_env st) \<le> clock (ts_env st') \<and> same_transfer r0 r' \<and>
    (ur_response_complete r' \<and> source_known form f \<longrightarrow> (\<exists>d. payload_of form path f (ur_compressed_bytes r) d \<and>
      upload_on_wire wire (ts_env st) (ur_request_bytes r) head d (ts_env st') r'))"
  obtain deadline e1 where t: "deadline_after p t (ts_env st) = (deadline, e1)" by force
  note e1 = deadline_after_time [OF ok(1) t]
  have workspace: "AIRDROP_UPLOAD_WORKSPACE_BYTES \<le> length (ts_upload_workspace st)" using st by (simp add: static_buffers_def)
  define sink where "sink = (\<lambda>r1 (e2 :: 'e). \<lparr>uk_out = (r1, e2), uk_deadline_us = deadline, uk_buffer = ts_upload_network_buffer st,
     uk_capacity = AIRDROP_UPLOAD_NETWORK_BUFFER_BYTES, uk_used = 0\<rparr>)"
  define go where "go = (\<lambda>r1 e2. send_payload p df form path f (ts_upload_workspace st) (sink r1 e2) \<bind> (\<lambda>(streamed, f1, workspace, sink).
    let sink1 = on_result (streamed_totals form streamed) sink;
        st1 = st\<lparr>ts_env := snd (uk_out sink1), ts_upload_workspace := workspace, ts_upload_network_buffer := uk_buffer sink1\<rparr>;
        result2 = fst (uk_out sink1) in
    if ur_stream_status result2 \<noteq> STREAM_OK then
      Some (if ur_error result2 = 0 then result2\<lparr>ur_error := AIRDROP_UPLOAD_ERROR_STREAM\<rparr> else result2, f1, st1)
    else end_upload p deadline chunk_terminator sink1 f1 st1))"
  have body: "returns (go r1 e2) ?Q"
    if r1: "r1 = r0\<lparr>ur_request_bytes := ur_request_bytes r0 + length head\<rparr>" and e2: "wire e2 = wire e1 @ head" "clock e1 \<le> clock e2" for r1 e2
    unfolding go_def
  proof (rule ok_bind [OF send_payload_sent [OF ok _ workspace form]], goal_cases)
    case 1
    show ?case using st by (simp add: sink_ok_def sink_def static_buffers_def AIRDROP_UPLOAD_NETWORK_BUFFER_BYTES_def)
  next
    case (2 v)
    obtain streamed f1 workspace s1 where v: "v = (streamed, f1, workspace, s1)" by (metis prod_cases4)
    obtain d where d: "payload_sent clock wire (sink r1 e2) d (ur_stream_status (fst (uk_out s1)) = STREAM_OK \<and> source_known form f) s1"
      "ur_stream_status (fst (uk_out s1)) = STREAM_OK \<longrightarrow> payload_of form path f (ur_compressed_bytes r) d"
      using 2 v r1 r0 by (auto simp: sink_def)
    define s2 where "s2 = on_result (streamed_totals form streamed) s1"
    have s2: "sink_ok s2" "\<not> ur_response_complete (fst (uk_out s2))" "same_transfer r0 (fst (uk_out s2))"
      "ur_stream_status (fst (uk_out s2)) = ur_stream_status (fst (uk_out s1))" "clock e2 \<le> clock (snd (uk_out s2))"
      using d(1) r0 r1
      by (simp_all add: s2_def payload_sent_def on_result_keeps streamed_totals_keep announced_def same_transfer_def sink_def)
    have start: "chunks_sent wire (ur_request_bytes r0 + length head) (wire e2) (sink r1 e2) [] []"
      by (simp add: chunks_sent_def sink_def r1)
    have sent: "\<exists>cs. chunks_sent wire (ur_request_bytes r0 + length head) (wire e2) s2 d cs"
      if "ur_stream_status (fst (uk_out s1)) = STREAM_OK \<and> source_known form f"
      using sink_takesD [OF _ start, of s1 d] d(1) that by (simp add: payload_sent_def s2_def on_result_keeps streamed_totals_keep)
    define st1 where "st1 = st\<lparr>ts_env := snd (uk_out s2), ts_upload_workspace := workspace, ts_upload_network_buffer := uk_buffer s2\<rparr>"
    define r2 where "r2 = fst (uk_out s2)"
    have "returns (if ur_stream_status r2 \<noteq> STREAM_OK
        then Some (if ur_error r2 = 0 then r2\<lparr>ur_error := AIRDROP_UPLOAD_ERROR_STREAM\<rparr> else r2, f1, st1)
        else end_upload p deadline chunk_terminator s2 f1 st1) ?Q"
    proof (cases "ur_stream_status r2 = STREAM_OK")
      case False
      then show ?thesis using s2 e1 e2 by (auto intro!: ok_Some simp: r2_def st1_def same_transfer_def)
    next
      case True
      have "?Q (r', f', st')"
        if e: "clock (snd (uk_out s2)) \<le> clock (ts_env st')" "same_transfer (fst (uk_out s2)) r'"
          "ur_response_complete r' \<longrightarrow> (\<forall>n0 base d cs. chunks_sent wire n0 base s2 d cs \<longrightarrow>
            (\<exists>cs. list_all (\<lambda>c. c \<noteq> []) cs \<and> concat cs = d \<and> wire (ts_env st') = base @ concat (map chunk_bytes cs) @ chunk_terminator \<and>
              ur_request_bytes r' = n0 + length (concat (map chunk_bytes cs) @ chunk_terminator)))" for r' f' st'
      proof -
        have stat: "ur_stream_status (fst (uk_out s1)) = STREAM_OK" using True s2(4) by (simp add: r2_def)
        have sent_all: "upload_on_wire wire (ts_env st) (ur_request_bytes r) head d (ts_env st') r'"
          if done1: "ur_response_complete r'" and known: "source_known form f"
        proof -
          obtain cs where "chunks_sent wire (ur_request_bytes r0 + length head) (wire e2) s2 d cs" using sent stat known by blast
          with e(3) done1 obtain cs' where "list_all (\<lambda>c. c \<noteq> []) cs'" "concat cs' = d"
            "wire (ts_env st') = wire e2 @ concat (map chunk_bytes cs') @ chunk_terminator"
            "ur_request_bytes r' = ur_request_bytes r0 + length head + length (concat (map chunk_bytes cs') @ chunk_terminator)"
            by blast
          then show ?thesis using e1 e2(1) r0(2) unfolding upload_on_wire_def by auto
        qed
        have "clock (ts_env st) \<le> clock (ts_env st')" using e(1) s2(5) e1 e2(2) by linarith
        then show ?thesis using sent_all same_transfer_trans [OF s2(3) e(2)] d(2) stat by auto
      qed
      then show ?thesis
        using True by simp (rule ok_mono [OF end_upload_returns [OF ok(1) s2(1,2)]], fastforce)
    qed
    then show ?case unfolding v prod.case Let_def s2_def st1_def r2_def .
  qed
  have "send_upload p df form path head_bytes chunk_terminator t (r, f, st) =
      write_upload_part p head deadline (r0, e1) \<bind> (\<lambda>(ok, r1, e2). if \<not> ok then Some (r1, f, st\<lparr>ts_env := e2\<rparr>) else go r1 e2)"
    unfolding send_upload_def prod.case t head_def [symmetric] r0_def [symmetric] go_def sink_def Let_def ..
  moreover have "returns (write_upload_part p head deadline (r0, e1) \<bind> (\<lambda>(ok, r1, e2). if \<not> ok then Some (r1, f, st\<lparr>ts_env := e2\<rparr>) else go r1 e2)) ?Q"
  proof (rule ok_bind [OF write_upload_part_returns [OF ok(1)]], clarify)
    fix sent r1 e2
    assume w: "clock e1 \<le> clock e2" "out_frame r0 r1" "prefix (wire e1) (wire e2)"
      "sent \<longrightarrow> wire e2 = wire e1 @ head \<and> r1 = r0\<lparr>ur_request_bytes := ur_request_bytes r0 + length head\<rparr>"
    have "\<not> sent \<Longrightarrow> ?Q (r1, f, st\<lparr>ts_env := e2\<rparr>)"
      using announced_same [OF out_frame_announced [OF w(2)]] w(1) e1 r0(1) by auto
    then show "returns (if \<not> sent then Some (r1, f, st\<lparr>ts_env := e2\<rparr>) else go r1 e2) ?Q"
      using body [of r1 e2] w by (cases sent) (auto intro!: ok_Some)
  qed
  ultimately show ?thesis by (simp only: r0_def head_def)
qed

section \<open>The payload that is settled first\<close>

text \<open>No read shortens the workspace.\<close>

lemma fill_workspace_length: "fill_workspace get s ws buffered n = (status, s', ws') \<Longrightarrow> length ws \<le> length ws'"
proof (induction "n - buffered" arbitrary: s ws buffered rule: less_induct)
  case less
  obtain ok d k s1 where r: "get s (n - buffered) = (ok, d, k, s1)" by (metis prod_cases4)
  have grow: "length ws \<le> length (store ws buffered d)" by (simp add: store_def)
  show ?case
  proof (cases "buffered < n \<and> ok \<and> 0 < k \<and> k \<le> n - buffered")
    case False
    then show ?thesis using less.prems r grow by (subst (asm) fill_workspace.simps) (auto simp: Let_def split: if_splits)
  next
    case True
    then have "fill_workspace get s1 (store ws buffered d) (buffered + k) n = (status, s', ws')"
      using less.prems r by (subst (asm) fill_workspace.simps) (simp add: Let_def)
    moreover have "n - (buffered + k) < n - buffered" using True by auto
    ultimately show ?thesis using less.hyps grow order_trans by blast
  qed
qed

lemma copy_source_workspace:
  "copy_source get put k n crc st = (status, st') \<Longrightarrow> length (st_workspace st) \<le> length (st_workspace st')"
proof (induction n arbitrary: crc st rule: less_induct)
  case (less n)
  show ?case
  proof (cases "n > 0 \<and> k > 0")
    case False
    then show ?thesis using less.prems by (subst (asm) copy_source.simps) auto
  next
    case True
    define m where "m = (if n < k then n else k)"
    have m: "n - m < n" using True by (auto simp: m_def)
    have round: "length (st_workspace st) \<le> length (st_workspace st')"
      if "fill_workspace get (st_source st) (st_workspace st) 0 m = (fin, c, ws)"
        "copy_source get put k (n - m) crc1 st1 = (status, st')" "st_workspace st1 = ws" for fin c ws crc1 st1
      using less.IH [OF m that(2)] fill_workspace_length [OF that(1)] that(3) by simp
    show ?thesis
      using less.prems True
      by (subst (asm) copy_source.simps)
        (auto simp: Let_def m_def [symmetric] dest: fill_workspace_length round split: if_splits prod.splits cong: if_cong)
  qed
qed

lemma stream_odc_workspace:
  assumes "espdrop_airdrop_stream_odc source path mtime (Ptr ws) k put c r = (status, source', ws', c', r')"
  shows "\<exists>ws1. ws' = Ptr ws1 \<and> length ws \<le> length ws1"
proof -
  have copied: "length ws1 \<le> length (st_workspace st')"
    if "copy_source get put' k n crc \<lparr>st_source = s, st_writer = w, st_workspace = ws1, st_result = r1\<rparr> = (fin, st')"
    for get put' n crc s w ws1 r1 fin st' using copy_source_workspace [OF that] by simp
  have cleared: "length x \<le> length (store x 0 y)" for x y by (simp add: store_def)
  show ?thesis
    using assms
    by (auto simp: espdrop_airdrop_stream_odc_def Let_def dest!: copied intro: order_trans [OF _ cleared]
        split: if_splits prod.splits option.splits)
qed

lemma compress_pass_source:
  assumes run: "compress_odc_pass df allocated source path mtime ws write c r0 n0 = (status, source', ws', c', streamed, n)"
    and get: "src_read source = Ptr get" "source_invariant get I" "I (src_context source)"
  shows "length ws \<le> length ws'" "\<exists>x. source' = source\<lparr>src_context := x\<rparr> \<and> I x"
proof -
  obtain init z where init: "df_init df = (init, z)" by force
  define out0 where "out0 = \<lparr>zo_write = write, zo_context = c, zo_bytes = 0, zo_failed = False\<rparr>"
  have same: "source = source\<lparr>src_context := src_context source\<rparr>" by simp
  have "length ws \<le> length ws' \<and> (\<exists>x. source' = source\<lparr>src_context := x\<rparr> \<and> I x)"
  proof (cases "allocated \<and> init = TDEFL_STATUS_OKAY")
    case False
    then show ?thesis using run init same get(3) by (auto simp: compress_odc_pass_def intro!: exI [of _ "src_context source"] split: if_splits)
  next
    case True
    obtain status1 source1 ws1 c1 result1 where odc: "espdrop_airdrop_stream_odc (Ptr source) (Ptr path) mtime (Ptr ws)
        AIRDROP_UPLOAD_WORKSPACE_BYTES (Ptr (feed_zlib_compressor df)) (z, out0) (Ptr r0) = (status1, source1, ws1, c1, result1)"
      by (metis prod_cases5)
    have "\<exists>x. ws1 = Ptr x \<and> length ws \<le> length x" using stream_odc_workspace [OF odc] .
    moreover have "\<exists>x. source1 = Ptr (source\<lparr>src_context := x\<rparr>) \<and> I x"
      using source_invariant.kept_source_odc [OF get(2,1,3) odc] .
    moreover have "source' = deref source1" "ws' = deref ws1"
      using run True init odc by (auto simp: compress_odc_pass_def Let_def out0_def [symmetric] split: if_splits prod.splits)
    ultimately show ?thesis by auto
  qed
  then show "length ws \<le> length ws'" "\<exists>x. source' = source\<lparr>src_context := x\<rparr> \<and> I x" by blast+
qed

definition lawful_source :: "'s airdrop_source \<Rightarrow> bytes \<Rightarrow> bool" where
  "lawful_source src xs \<longleftrightarrow> delivers src xs \<and>
     (src_rewind src \<noteq> NULL \<longrightarrow> (\<exists>get inv. src_read src = Ptr get \<and> source_invariant get inv \<and> inv (src_context src) \<and>
       (\<forall>c c'. inv c \<and> deref (src_rewind src) c = (True, c') \<longrightarrow> delivers (src\<lparr>src_context := c'\<rparr>) xs)))"

text \<open>What holds once the payload is settled.\<close>

definition settled ::
  "bytes \<Rightarrow> ('e, 's, 'q) upload_state \<Rightarrow> payload_form \<Rightarrow> ('e, 's, 'q) upload_state \<Rightarrow> bool" where
  "settled path us form us1 \<longleftrightarrow> (case (us, us1) of ((r, f, st), (r1, f1, st1)) \<Rightarrow>
     form_ok form path f1 \<and> of_prepared_payload f1 = of_prepared_payload f \<and> of_mtime f1 = of_mtime f \<and>
     src_size_bytes (of_source f1) = src_size_bytes (of_source f) \<and>
     (\<forall>xs. lawful_source (of_source f) xs \<and> form = STORED \<longrightarrow> delivers (of_source f1) xs) \<and>
     (form = PREPARED \<longleftrightarrow> prepared_upload f) \<and>
     ts_env st1 = ts_env st \<and> (static_buffers st \<longrightarrow> static_buffers st1) \<and>
     ur_response_complete r1 = ur_response_complete r \<and> ur_request_bytes r1 = ur_request_bytes r \<and>
     ur_transfer_id r1 = ur_transfer_id r \<and> ur_attempted r1 = ur_attempted r \<and>
     (\<not> prepared_upload f \<longrightarrow> \<not> ur_stored_blocks r \<longrightarrow> (ur_stored_blocks r1 \<longleftrightarrow> form = STORED)) \<and>
     ur_payload_bytes r1 =
       (case form of
          PREPARED \<Rightarrow> src_size_bytes (pp_source (of_prepared_payload f))
        | ZLIB _ \<Rightarrow> ESPDROP_AIRDROP_DVZIP_BLOCK_HEADER_BYTES + ur_compressed_bytes r1
        | STORED \<Rightarrow> plan_payload_bytes (upload_plan path (src_size_bytes (of_source f)))))"

lemma size_zlib_pass_settles:
  assumes run: "size_zlib_pass df path (upload_plan path (src_size_bytes (of_source f))) (r, f, st) = (Some form, us1)"
    and planned: "planned_size path (src_size_bytes (of_source f))" and f: "\<not> prepared_upload f" "src_rewind (of_source f) \<noteq> NULL"
    and get: "src_read (of_source f) = Ptr get"
  shows "settled path (r, f, st) form us1"
proof -
  let ?plan = "upload_plan path (src_size_bytes (of_source f))"
  obtain status source ws c sizing n where pass: "compress_odc_pass df (df_alloc df (ts_env st)) (of_source f) path (of_mtime f)
      (ts_upload_workspace st) NULL None stream_result_zero 0 = (status, source, ws, c, sizing, n)" by (metis prod_cases6)
  note any = compress_pass_source [OF pass get, of "\<lambda>_. True"]
  have triv: "source_invariant get (\<lambda>_. True)" by unfold_locales simp
  have ws: "length (ts_upload_workspace st) \<le> length ws" using any(1) [OF triv] by simp
  obtain x where source: "source = (of_source f)\<lparr>src_context := x\<rparr>" using any(2) [OF triv] by auto
  obtain rewound y where rw: "deref (src_rewind source) (src_context source) = (rewound, y)" by force
  have again: "delivers (source\<lparr>src_context := y\<rparr>) xs" if lawful: "lawful_source (of_source f) xs" and rewound for xs
  proof -
    obtain get' I where I: "src_read (of_source f) = Ptr get'" "source_invariant get' I" "I (src_context (of_source f))"
      and rewinds: "\<And>c c'. I c \<Longrightarrow> deref (src_rewind (of_source f)) c = (True, c') \<Longrightarrow> delivers ((of_source f)\<lparr>src_context := c'\<rparr>) xs"
      using lawful f(2) by (auto simp: lawful_source_def)
    obtain z where z: "source = (of_source f)\<lparr>src_context := z\<rparr>" "I z" using compress_pass_source(2) [OF pass I] by blast
    have "src_context source = x" by (simp add: source)
    moreover have "src_context source = z" by (simp add: z)
    ultimately have "I x" using z by simp
    then show ?thesis using rewinds [of x y] rw \<open>rewound\<close> by (simp add: source)
  qed
  show ?thesis
    using run pass rw ws again planned f get
    by (auto simp: size_zlib_pass_def Let_def settled_def form_ok_def stored_totals_def source static_buffers_def prepared_upload_def
        split: if_splits prod.splits)
qed

lemma choose_payload_settles:
  assumes run: "choose_payload df path (r, f, st) = (Some form, us1)" and usable: "\<not> outgoing_unusable cfg (Ptr f)"
  shows "settled path (r, f, st) form us1"
proof (cases "prepared_upload f")
  case True
  then show ?thesis using run by (auto simp: choose_payload_def settled_def form_ok_def Let_def)
next
  case False
  let ?n = "src_size_bytes (of_source f)"
  let ?r = "r\<lparr>ur_file_bytes := plan_file_bytes (upload_plan path ?n), ur_archive_bytes := plan_archive_bytes (upload_plan path ?n)\<rparr>"
  have get: "src_read (of_source f) \<noteq> NULL" using usable False by (auto simp: outgoing_unusable_def Let_def)
  have planned: "planned_size path ?n" using run False by (simp add: choose_payload_def plan_stored_dvzip_eq split: if_splits)
  show ?thesis
  proof (cases "src_rewind (of_source f) = NULL")
    case True
    then show ?thesis
      using run False planned get
      by (auto simp: choose_payload_def plan_stored_dvzip_eq settled_def form_ok_def stored_totals_def lawful_source_def Let_def)
  next
    case rewind: False
    obtain g where g: "src_read (of_source f) = Ptr g" using get by (cases "src_read (of_source f)") auto
    have "size_zlib_pass df path (upload_plan path ?n) (?r, f, st) = (Some form, us1)"
      using run False planned rewind by (simp add: choose_payload_def plan_stored_dvzip_eq Let_def)
    from size_zlib_pass_settles [OF this planned False rewind g] show ?thesis by (simp add: settled_def split: prod.splits)
  qed
qed

section \<open>Uploads\<close>

lemma two_randoms_ok:
  assumes ok: "platform_ok p clock wire" and run: "two_randoms p n m e = (x, e')"
  shows "clock e \<le> clock e' \<and> wire e' = wire e \<and> (\<forall>a b. x = Some (a, b) \<longrightarrow> length a = n \<and> length b = m)"
proof -
  obtain s1 a e1 where r1: "pf_ctr_drbg_random p n e = (s1, a, e1)" by (metis prod_cases3)
  obtain s2 b e2 where r2: "pf_ctr_drbg_random p m e1 = (s2, b, e2)" by (metis prod_cases3)
  show ?thesis
    using run platform_random [OF ok r1] platform_random [OF ok r2]
    by (auto simp: two_randoms_def r1 r2 split: if_splits)
qed

lemma choose_payload_frame:
  "choose_payload df path (r, f, st) = (x, r1, f1, st1) \<Longrightarrow>
     ts_env st1 = ts_env st \<and> ur_response_complete r1 = ur_response_complete r \<and> ur_attempted r1 = ur_attempted r \<and>
     ur_transfer_id r1 = ur_transfer_id r"
  by (auto simp: choose_payload_def size_zlib_pass_def stored_totals_def Let_def split: if_splits prod.splits)

lemma built_head:
  assumes "espdrop_airdrop_build_upload_head (Ptr buf) (length buf) (Ptr identity) n = (k, h)" "k \<noteq> 0"
  shows "k = length (upload_head_text identity n)" "take k (deref h) = upload_head_text identity n" "length (deref h) = length buf"
proof -
  have b: "k = length (upload_head_text identity n)" "h = Ptr (snprintf_into buf (length buf) (upload_head_text identity n))"
    "length (upload_head_text identity n) < length buf"
    using assms by (auto simp: espdrop_airdrop_build_upload_head_def Let_def split: if_splits)
  then show "k = length (upload_head_text identity n)" "take k (deref h) = upload_head_text identity n" "length (deref h) = length buf"
    by (auto simp: snprintf_into_def store_def)
qed

text \<open>
  What a completed upload of \<open>f\<close> sent: the head with the identifier of the accepted Ask and the
  announced size, the payload in non-empty chunks, the terminator. The payload is the prepared one, the
  stored archive of the file, or one compressed block (whose content is the compressor's).
\<close>

definition upload_transcript ::
  "('e \<Rightarrow> bytes) \<Rightarrow> 'e \<Rightarrow> 'e \<Rightarrow> bytes \<Rightarrow> ('s, 'q) outgoing_file \<Rightarrow> upload_result \<Rightarrow> bool" where
  "upload_transcript wire e e' transfer_id f r \<longleftrightarrow> (\<exists>identity payload cs.
     id_transfer_id identity = transfer_id \<and> list_all (\<lambda>c. c \<noteq> []) cs \<and> concat cs = payload \<and>
     wire e' = wire e @ upload_head_text identity (length payload) @ chunked cs \<and>
     ur_request_bytes r = length (upload_head_text identity (length payload) @ chunked cs) \<and>
     (if prepared_upload f then \<forall>xs. delivers (pp_source (of_prepared_payload f)) xs \<longrightarrow> payload = xs
      else ur_stored_blocks r \<longrightarrow> (\<forall>xs. lawful_source (of_source f) xs \<longrightarrow>
        payload = dvzip_stored (odc_archive (ascii ''./'' @ deref (of_file_name f)) (of_mtime f) xs))))"

lemma chunk_terminator_built:
  "espdrop_airdrop_build_chunk_terminator (Ptr (replicate 8 0)) 8 = (5, Ptr (chunk_terminator @ [0, 0, 0]))"
  by (simp add: espdrop_airdrop_build_chunk_terminator_def chunk_terminator_def store_def numeral_eq_Suc)

lemma announce_upload_ok:
  assumes ok: "platform_ok p clock wire" and st: "static_buffers st" and run: "announce_upload p ask r st = (x, r', st')"
  shows "clock (ts_env st) \<le> clock (ts_env st') \<and> wire (ts_env st') = wire (ts_env st) \<and> static_buffers st' \<and>
    ur_response_complete r' = ur_response_complete r \<and>
    (\<forall>head_bytes terminator. x = Some (head_bytes, terminator) \<longrightarrow> terminator = chunk_terminator \<and>
      (\<exists>identity. id_transfer_id identity = ar_transfer_id ask \<and> take head_bytes (ts_upload_head st') = upload_head_text identity (ur_payload_bytes r)) \<and>
      ur_transfer_id_continuity r' \<and> r' = r\<lparr>ur_transfer_id_continuity := True\<rparr>)"
proof -
  obtain y e1 where rnd: "two_randoms p 16 32 (ts_env st) = (y, e1)" by force
  note rnd_ok = two_randoms_ok [OF ok rnd]
  show ?thesis
  proof (cases y)
    case None
    then show ?thesis using run rnd rnd_ok st by (auto simp: announce_upload_def static_buffers_def)
  next
    case (Some ab)
    obtain a b where ab: "ab = (a, b)" by force
    define identity where "identity = upload_identity_of ask a b"
    obtain k h where h: "espdrop_airdrop_build_upload_head (Ptr (ts_upload_head st)) AIRDROP_UPLOAD_HEAD_BYTES (Ptr identity) (ur_payload_bytes r) = (k, h)"
      by force
    have l: "length (ts_upload_head st) = AIRDROP_UPLOAD_HEAD_BYTES" using st by (simp add: static_buffers_def)
    have h': "length (deref h) = AIRDROP_UPLOAD_HEAD_BYTES"
      using h l by (auto simp: espdrop_airdrop_build_upload_head_def snprintf_into_def store_def AIRDROP_UPLOAD_HEAD_BYTES_def Let_def split: if_splits)
    note built = built_head [of "ts_upload_head st" identity "ur_payload_bytes r" k h, unfolded l, OF h]
    have "(x, r', st') =
       (let r1 = r\<lparr>ur_transfer_id_continuity := (id_transfer_id identity = ar_transfer_id ask)\<rparr>; st1 = st\<lparr>ts_env := e1, ts_upload_head := deref h\<rparr> in
        if k = 0 \<or> id_transfer_id identity \<noteq> ar_transfer_id ask then (None, r1\<lparr>ur_error := AIRDROP_UPLOAD_ERROR_BUILD\<rparr>, st1)
        else (Some (k, chunk_terminator), r1, st1))"
      using run
      by (auto simp: announce_upload_def rnd Some ab h [unfolded identity_def] identity_def chunk_terminator_built chunk_terminator_def Let_def
          split: if_splits)
    then show ?thesis
      using rnd_ok st built h' by (auto simp: Let_def static_buffers_def split: if_splits)
  qed
qed

text \<open>The announced size is that of the payload.\<close>

lemma settled_size:
  assumes set: "settled path (r, f, st) form (r1, f1, st1)" and d: "payload_of form path f1 (ur_compressed_bytes r1) d"
    and known: "form = STORED \<Longrightarrow> delivers (of_source f1) xs"
  shows "length d = ur_payload_bytes r1"
proof (cases form)
  case STORED
  let ?n = "src_size_bytes (of_source f)"
  have xs: "d = dvzip_stored (odc_archive path (of_mtime f1) xs)" "length xs = ?n"
    using d known STORED set by (auto simp: payload_of_def settled_def delivers_def)
  have p: "planned_size path ?n" using set STORED by (auto simp: settled_def form_ok_def)
  then have fits: "length path \<le> 255" "upload_fits path (length xs)" using xs(2) archive_path_length by (auto simp: planned_size_def)
  have "ur_payload_bytes r1 = plan_payload_bytes (upload_plan path ?n)" using set STORED by (simp add: settled_def)
  then show ?thesis
    using length_odc_archive [OF fits, of "of_mtime f1"] by (simp add: xs length_dvzip_stored upload_plan_def Let_def)
qed (use set d in \<open>auto simp: settled_def payload_of_def\<close>)

definition upload_outcome ::
  "('e \<Rightarrow> int) \<Rightarrow> ('e \<Rightarrow> bytes) \<Rightarrow> 'e \<Rightarrow> ask_result \<Rightarrow> ('s, 'q) outgoing_file ptr \<Rightarrow>
     upload_result \<times> ('s, 'q) outgoing_file ptr \<times> 'e tls_state \<Rightarrow> bool" where
  "upload_outcome clock wire e ask outgoing x \<longleftrightarrow> (case x of (r, outgoing', st') \<Rightarrow> clock e \<le> clock (ts_env st') \<and>
     (ur_response_complete r \<longrightarrow> outgoing \<noteq> NULL \<and>
       (prepared_upload (deref outgoing) \<or> (\<exists>xs. lawful_source (of_source (deref outgoing)) xs) \<longrightarrow>
        upload_transcript wire e (ts_env st') (ar_transfer_id ask) (deref outgoing) r)))"

lemma upload_outcome_early: "\<not> ur_response_complete r \<Longrightarrow> clock e \<le> clock (ts_env st') \<Longrightarrow> upload_outcome clock wire e ask outgoing (r, og, st')"
  by (simp add: upload_outcome_def)

lemma transcript_of_sent:
  assumes set: "settled (ascii ''./'' @ deref (of_file_name f)) (r0, f, st) form (r1, f1, st1)" and r0: "ur_request_bytes r0 = 0" "\<not> ur_stored_blocks r0"
    and d: "payload_of form (ascii ''./'' @ deref (of_file_name f)) f1 (ur_compressed_bytes r1) d"
    and sent: "upload_on_wire wire e 0 head d e' r'" and head: "head = upload_head_text identity (ur_payload_bytes r1)"
    and id: "id_transfer_id identity = tid" and same: "ur_stored_blocks r' = ur_stored_blocks r1"
    and known: "prepared_upload f \<or> (\<exists>xs. lawful_source (of_source f) xs)"
  shows "upload_transcript wire e e' tid f r'"
proof -
  let ?path = "ascii ''./'' @ deref (of_file_name f)"
  have stored: "form = STORED \<Longrightarrow> \<exists>xs. lawful_source (of_source f) xs \<and> delivers (of_source f1) xs"
    using set known by (auto simp: settled_def)
  have len: "length d = ur_payload_bytes r1" using settled_size [OF set d] stored by blast
  obtain cs where cs: "list_all (\<lambda>c. c \<noteq> []) cs" "concat cs = d" "wire e' = wire e @ head @ concat (map chunk_bytes cs) @ chunk_terminator"
    "ur_request_bytes r' = length head + length (concat (map chunk_bytes cs) @ chunk_terminator)"
    using sent by (auto simp: upload_on_wire_def)
  have "if prepared_upload f then \<forall>xs. delivers (pp_source (of_prepared_payload f)) xs \<longrightarrow> d = xs
      else ur_stored_blocks r' \<longrightarrow> (\<forall>xs. lawful_source (of_source f) xs \<longrightarrow> d = dvzip_stored (odc_archive ?path (of_mtime f) xs))"
    using set d r0(2) by (auto simp: settled_def payload_of_def same)
  then show ?thesis
    unfolding upload_transcript_def using cs id
    by (intro exI [of _ identity] exI [of _ d] exI [of _ cs]) (simp add: head len chunked_def chunk_terminator_def)
qed

definition upload_start :: "ask_result \<Rightarrow> upload_result" where
  "upload_start ask = upload_result_zero\<lparr>ur_transfer_id := copy_negotiated_text [] 37 (Ptr (ar_transfer_id ask))\<rparr>"

lemma upload_start_fields: "\<not> ur_response_complete (upload_start ask)" "ur_request_bytes (upload_start ask) = 0"
  "\<not> ur_stored_blocks (upload_start ask)" "\<not> ur_attempted (upload_start ask)"
  by (simp_all add: upload_start_def upload_result_zero_def)

lemma perform_upload_early:
  "outgoing_unusable cfg outgoing \<or> 260 \<le> length (ascii ''./'' @ deref (of_file_name (deref outgoing))) \<Longrightarrow>
     perform_upload p df cfg ask outgoing t st = Some ((upload_start ask)\<lparr>ur_error := AIRDROP_UPLOAD_ERROR_ARCHIVE\<rparr>, outgoing, st)"
  unfolding perform_upload_def Let_def upload_start_def [symmetric] by (simp only: if_True)

lemma perform_upload_chosen:
  assumes "\<not> (outgoing_unusable cfg (Ptr f) \<or> 260 \<le> length (ascii ''./'' @ deref (of_file_name f)))"
    and "choose_payload df (ascii ''./'' @ deref (of_file_name f)) (upload_start ask, f, st) = (x, r1, f1, st1)"
    and "announce_upload p ask r1 st1 = (y, r2, st2)"
  shows "perform_upload p df cfg ask (Ptr f) t st =
    (case x of None \<Rightarrow> Some (r1, Ptr f1, st1)
     | Some form \<Rightarrow> (case y of None \<Rightarrow> Some (r2, Ptr f1, st2)
       | Some (head_bytes, terminator) \<Rightarrow>
           send_upload p df form (ascii ''./'' @ deref (of_file_name f)) head_bytes terminator t (r2, f1, st2) \<bind>
             (\<lambda>(r3, f3, st3). Some (r3, Ptr f3, st3))))"
  unfolding perform_upload_def Let_def upload_start_def [symmetric] ptr.sel assms(2) prod.case
  using assms(1) by (simp add: assms(3) split: option.split prod.split)

lemma perform_upload_returns:
  fixes df :: "('e, 'z, 'e chunk_sink option zlib_output) deflate"
  assumes ok: "platform_ok p clock wire" "compressor_ok df" and st: "static_buffers st"
  shows "returns (perform_upload p df cfg ask outgoing t st) (upload_outcome clock wire (ts_env st) ask outgoing)"
proof (cases "outgoing_unusable cfg outgoing \<or> 260 \<le> length (ascii ''./'' @ deref (of_file_name (deref outgoing)))")
  case True
  show ?thesis
    unfolding perform_upload_early [OF True] by (intro ok_Some upload_outcome_early) (use upload_start_fields in simp_all)
next
  case False
  then obtain f where f: "outgoing = Ptr f" by (cases outgoing) (auto simp: outgoing_unusable_def)
  let ?path = "ascii ''./'' @ deref (of_file_name f)"
  obtain x r1 f1 st1 where choice: "choose_payload df ?path (upload_start ask, f, st) = (x, r1, f1, st1)" by (metis prod_cases4)
  obtain y r2 st2 where ann: "announce_upload p ask r1 st1 = (y, r2, st2)" by (metis prod_cases3)
  note frame = choose_payload_frame [OF choice]
  note eq = perform_upload_chosen [OF False [unfolded f ptr.sel] choice ann, of t]
  show ?thesis
  proof (cases x)
    case None
    show ?thesis
      unfolding f eq None option.case by (intro ok_Some upload_outcome_early) (use frame upload_start_fields in simp_all)
  next
    case (Some form)
    have set: "settled ?path (upload_start ask, f, st) form (r1, f1, st1)"
      using choose_payload_settles [OF choice [unfolded Some]] False f by blast
    then have st1: "static_buffers st1" "ts_env st1 = ts_env st" "form_ok form ?path f1" using st by (auto simp: settled_def)
    note a = announce_upload_ok [OF ok(1) st1(1) ann]
    have r2: "\<not> ur_response_complete r2" using a frame upload_start_fields by simp
    show ?thesis
    proof (cases y)
      case None
      show ?thesis
        unfolding f eq Some None option.case by (intro ok_Some upload_outcome_early) (use a st1 r2 in simp_all)
    next
      case (Some hb)
      then obtain hb where y: "y = Some (hb, chunk_terminator)" using a by (cases "the y") auto
      obtain identity where identity: "id_transfer_id identity = ar_transfer_id ask"
        "take hb (ts_upload_head st2) = upload_head_text identity (ur_payload_bytes r1)" "r2 = r1\<lparr>ur_transfer_id_continuity := True\<rparr>"
        using a y by blast
      have req: "ur_request_bytes r2 = 0" "ur_compressed_bytes r2 = ur_compressed_bytes r1" "ur_stored_blocks r2 = ur_stored_blocks r1"
        using identity(3) set upload_start_fields by (auto simp: settled_def)
      have "upload_outcome clock wire (ts_env st) ask outgoing (r3, Ptr f3, st3)"
        if c: "clock (ts_env st2) \<le> clock (ts_env st3)" and same: "same_transfer (r2\<lparr>ur_attempted := True\<rparr>) r3"
          and sent: "ur_response_complete r3 \<and> source_known form f1 \<longrightarrow> (\<exists>d. payload_of form ?path f1 (ur_compressed_bytes r2) d \<and>
            upload_on_wire wire (ts_env st2) (ur_request_bytes r2) (take hb (ts_upload_head st2)) d (ts_env st3) r3)" for r3 f3 st3
      proof -
        have "upload_transcript wire (ts_env st) (ts_env st3) (ar_transfer_id ask) f r3"
          if complete: "ur_response_complete r3" and known: "prepared_upload f \<or> (\<exists>xs. lawful_source (of_source f) xs)"
        proof -
          have "source_known form f1" using known set by (auto simp: source_known_def settled_def)
          with sent complete obtain d where d: "payload_of form ?path f1 (ur_compressed_bytes r1) d"
            "upload_on_wire wire (ts_env st2) 0 (take hb (ts_upload_head st2)) d (ts_env st3) r3" by (auto simp: req)
          have "upload_on_wire wire (ts_env st) 0 (take hb (ts_upload_head st2)) d (ts_env st3) r3"
            using d(2) a st1 by (simp add: upload_on_wire_def)
          from transcript_of_sent [OF set upload_start_fields(2,3) d(1) this identity(2,1) _ known] show ?thesis
            using same req(3) by (simp add: same_transfer_def)
        qed
        then show ?thesis using c a st1 by (auto simp: upload_outcome_def f)
      qed
      then show ?thesis
        unfolding f eq \<open>x = Some form\<close> y option.case prod.case
        by (intro ok_bind [OF send_upload_returns [OF ok _ st1(3) r2]]) (use a in \<open>auto intro!: ok_Some simp: f\<close>)
    qed
  qed
qed

end
