(* ===== verification/Tls_Run.thy ===== *)
theory Tls_Run
  imports Tls_Session "HOL-Library.Code_Target_Nat"
begin

text \<open>
  Sessions end to end: /Discover, /Ask and the handshake return, hence every session does; an
  upload is attempted only after an accepted /Ask, and carries its identifier.
\<close>

section \<open>The Ask builder stays inside its buffer\<close>

definition within :: "nat \<Rightarrow> plist_writer \<Rightarrow> bool" where
  "within n w \<longleftrightarrow> pw_capacity w = n \<and> length (pw_output w) \<le> n"

lemma write_bytes_within: "within n w \<Longrightarrow> within n (write_bytes v w)"
  by (auto simp: within_def write_bytes_def)

lemma writers_within: "within n w \<Longrightarrow> within n (write_byte b w)" "within n w \<Longrightarrow> within n (write_refs v w)"
  "within n w \<Longrightarrow> within n (write_be x k w)" "within n w \<Longrightarrow> within n (write_ascii v w)" "within n w \<Longrightarrow> within n (write_integer m w)"
  "within n w \<Longrightarrow> within n (write_trailer b k w)"
  by (simp_all add: write_byte_def write_refs_def write_be_def write_ascii_def write_integer_def write_trailer_def Let_def write_bytes_within
      split: prod.split)

lemma foldl_within: "(\<And>f w. f \<in> set fs \<Longrightarrow> within n w \<Longrightarrow> within n (f w)) \<Longrightarrow> within n w \<Longrightarrow> within n (foldl (\<lambda>w f. f w) w fs)"
  by (induction fs arbitrary: w) auto

lemma objects_within:
  assumes "\<forall>fs\<in>set groups. \<forall>f\<in>set fs. \<forall>w. within n w \<longrightarrow> within n (f w)"
  shows "k \<le> length groups \<Longrightarrow> within n (as_writer s) \<Longrightarrow>
    within n (as_writer (foldl (\<lambda>s f. f s) s (concat (map (\<lambda>i. begin_object i # map writing (groups ! i)) [0..<k]))))"
proof (induction k)
  case (Suc k)
  have "within n (as_writer (begin_object i s)) = within n (as_writer s)" for i s
    by (simp add: begin_object_def within_def)
  moreover have "within n (as_writer (foldl (\<lambda>s f. f s) s (map writing fs)))" if "fs \<in> set groups" "within n (as_writer s)" for fs s
    using assms that foldl_within [of fs n "as_writer s"] by (simp add: foldl_writing writing_def)
  ultimately show ?case using Suc by simp
qed simp

lemma ask_groups_within: "\<forall>fs\<in>set (ask_groups path file). \<forall>f\<in>set fs. \<forall>w. within n w \<longrightarrow> within n (f w)"
  by (auto simp: ask_groups_def intro: writers_within)

lemma build_ask_body_within:
  assumes run: "espdrop_airdrop_build_ask_body (Ptr out) capacity file = (n, p)" and cap: "capacity \<le> length out"
  shows "n \<le> capacity \<and> (\<exists>out'. p = Ptr out' \<and> length out' = length out)"
proof -
  define w0 where "w0 = \<lparr>pw_output = [], pw_capacity = capacity, pw_failed = False\<rparr>"
  define s0 where "s0 = \<lparr>as_writer = write_bytes (ascii ''bplist00'') w0, as_offsets = replicate ASK_OBJECT_COUNT 0\<rparr>"
  define s where "s = foldl (\<lambda>s f. f s) s0 (write_objects (ascii ''./'' @ deref (af_file_name (deref file))) (deref file))"
  have "within capacity w0" by (simp add: within_def w0_def)
  then have "within capacity (as_writer s0)" by (simp add: s0_def write_bytes_within)
  then have w: "within capacity (as_writer s)"
    unfolding s_def write_objects_groups
    using objects_within [OF ask_groups_within, of 33] by (simp add: length_ask_groups)
  have table: "within capacity (foldl (\<lambda>w i. write_be (g i) k w) w is)" if "within capacity w" for g k w "is"
    using that by (induction "is" arbitrary: w) (auto intro: writers_within)
  have stored: "length (store out 0 (pw_output w)) = length out" if "within capacity w" for w
    using that cap by (intro length_store) (simp add: within_def)
  have trailer: "within capacity (write_trailer b m (foldl (\<lambda>w i. write_be (g i) k w) (as_writer s) is))" for b m g k "is"
    by (rule writers_within(6) [OF table [OF w]])
  have bound: "length (pw_output w) \<le> capacity" if "within capacity w" for w using that by (simp add: within_def)
  show ?thesis
    using run bound [OF trailer] stored [OF trailer] stored [OF w]
    by (auto simp: espdrop_airdrop_build_ask_body_def Let_def w0_def [symmetric] s0_def [symmetric] s_def [symmetric]
        split: if_splits)
qed

lemma built_request_length:
  assumes "length buf = c"
  shows "espdrop_airdrop_build_discover_request (Ptr buf) c host port = (n, req) \<Longrightarrow> length (deref req) = c"
    "espdrop_airdrop_build_ask_request (Ptr buf) c host port body m = (n, req) \<Longrightarrow> length (deref req) = c"
proof -
  have sn: "length (snprintf_into buf c t) = c" for t using assms by (auto simp: snprintf_into_def store_def)
  show "espdrop_airdrop_build_discover_request (Ptr buf) c host port = (n, req) \<Longrightarrow> length (deref req) = c"
    using assms sn by (auto simp: espdrop_airdrop_build_discover_request_def Let_def split: if_splits)
  show "espdrop_airdrop_build_ask_request (Ptr buf) c host port body m = (n, req) \<Longrightarrow> length (deref req) = c"
    using assms sn by (auto simp: espdrop_airdrop_build_ask_request_def Let_def split: if_splits)
qed

section \<open>Discover, Ask and the handshake return\<close>

text \<open>A request and its response, as all three share them.\<close>

lemma exchange_returns:
  assumes ok: "platform_ok p clock wire" and parser: "parser_total parse"
    and sent: "\<And>error e'. clock e \<le> clock e' \<Longrightarrow> Q (unsent error e')"
    and answered: "\<And>error outcome n b e'. clock e \<le> clock e' \<Longrightarrow> length b = length buf \<Longrightarrow> Q (answer error outcome n b e')"
  shows "returns (write_tls_request p request deadline_us 0 e \<bind> (\<lambda>(sent, error, e2).
     if \<not> sent then Some (unsent error e2)
     else read_response p parse deadline_us buf 0 e2 \<bind> (\<lambda>(outcome, n, b, e3). Some (answer error outcome n b e3)))) Q"
proof (rule ok_bind [OF write_tls_request_returns [OF ok]], clarify)
  fix s error e2
  assume e2: "clock e \<le> clock e2"
  have "returns (read_response p parse deadline_us buf 0 e2 \<bind> (\<lambda>(outcome, n, b, e3). Some (answer error outcome n b e3))) Q"
    by (rule ok_bind [OF read_response_returns [OF ok parser]]) (use e2 in \<open>auto intro!: ok_Some answered\<close>)
  then show "returns (if \<not> s then Some (unsent error e2)
     else read_response p parse deadline_us buf 0 e2 \<bind> (\<lambda>(outcome, n, b, e3). Some (answer error outcome n b e3))) Q"
    using e2 by (auto intro!: ok_Some sent)
qed

lemma perform_discover_returns:
  assumes ok: "platform_ok p clock wire" and st: "static_buffers st"
  shows "returns (perform_discover p name port t st) (\<lambda>(r, st'). clock (ts_env st) \<le> clock (ts_env st') \<and> static_buffers st')"
proof -
  obtain n req where b: "espdrop_airdrop_build_discover_request (Ptr (ts_discover_request st)) AIRDROP_DISCOVER_REQUEST_BYTES name port = (n, req)"
    by force
  have l: "length (deref req) = AIRDROP_DISCOVER_REQUEST_BYTES" "length (ts_discover_response st) = AIRDROP_DISCOVER_RESPONSE_BYTES"
    using built_request_length(1) [OF _ b] st by (auto simp: static_buffers_def)
  obtain d e1 where t: "deadline_after p t (ts_env st) = (d, e1)" by force
  note e1 = deadline_after_time [OF ok t]
  show ?thesis
  proof (cases "n = 0")
    case True
    then show ?thesis using b l st by (simp add: perform_discover_def Let_def static_buffers_def returns_def)
  next
    case False
    define st1 where "st1 = st\<lparr>ts_discover_request := deref req\<rparr>"
    have t1: "deadline_after p t (ts_env st1) = (d, e1)" using t by (simp add: st1_def)
    show ?thesis
      unfolding perform_discover_def Let_def b prod.case if_not_P [OF False] st1_def [symmetric] t1
      by (rule exchange_returns [OF ok response_parsers_total(1)]) (use e1 st l in \<open>auto simp: static_buffers_def st1_def\<close>)
  qed
qed

lemma perform_ask_returns:
  assumes ok: "platform_ok p clock wire" and st: "static_buffers st"
  shows "returns (perform_ask p cfg name port t outgoing st) (\<lambda>(r, st'). clock (ts_env st) \<le> clock (ts_env st') \<and> static_buffers st')"
proof -
  obtain x e0 where rnd: "two_randoms p 16 6 (ts_env st) = (x, e0)" by force
  note rnd_ok = two_randoms_ok [OF ok rnd]
  show ?thesis
  proof (cases x)
    case None
    then show ?thesis using rnd rnd_ok st by (simp add: perform_ask_def static_buffers_def returns_def)
  next
    case (Some ab)
    obtain a b where ab: "ab = (a, b)" by force
    define announcement where "announcement = ask_announcement cfg outgoing (espdrop_airdrop_format_transfer_id a) (espdrop_airdrop_format_sender_id b)"
    obtain m body where body: "espdrop_airdrop_build_ask_body (Ptr (ts_ask_body st)) ESPDROP_AIRDROP_ASK_BODY_MAX_BYTES (Ptr announcement) = (m, body)"
      by force
    obtain n req where req: "espdrop_airdrop_build_ask_request (Ptr (ts_ask_request st)) ESPDROP_AIRDROP_ASK_REQUEST_MAX_BYTES name port body m = (n, req)"
      by force
    have l: "length (deref body) = ESPDROP_AIRDROP_ASK_BODY_MAX_BYTES" "length (deref req) = ESPDROP_AIRDROP_ASK_REQUEST_MAX_BYTES"
      "length (ts_ask_response st) = AIRDROP_ASK_RESPONSE_BYTES"
      using build_ask_body_within [OF body] built_request_length(2) [OF _ req] st by (auto simp: static_buffers_def)
    define st1 where "st1 = st\<lparr>ts_env := e0, ts_ask_body := deref body, ts_ask_request := deref req\<rparr>"
    have st1: "static_buffers st1" using st l by (simp add: static_buffers_def st1_def)
    obtain d e1 where t: "deadline_after p t e0 = (d, e1)" by force
    note e1 = deadline_after_time [OF ok t]
    note unfold = perform_ask_def rnd Some ab prod.case option.case Let_def announcement_def [symmetric] body req st1_def [symmetric] t
    show ?thesis
    proof (cases "m = 0 \<or> n = 0")
      case True
      show ?thesis unfolding unfold if_P [OF True] using rnd_ok st1 by (auto intro!: ok_Some simp: st1_def)
    next
      case False
      show ?thesis
        unfolding unfold if_not_P [OF False]
        by (rule exchange_returns [OF ok response_parsers_total(2)]) (use e1 rnd_ok st1 l in \<open>auto simp: static_buffers_def st1_def\<close>)
    qed
  qed
qed

text \<open>The set-up calls of the TLS library do not send application data and take time.\<close>

definition library_ok :: "'e tls_library \<Rightarrow> ('e \<Rightarrow> int) \<Rightarrow> ('e \<Rightarrow> bytes) \<Rightarrow> bool" where
  "library_ok l clock wire \<longleftrightarrow>
     (\<forall>e. clock e \<le> clock (snd (tl_ssl_handshake l e)) \<and> wire (snd (tl_ssl_handshake l e)) = wire e)"

lemma tls_handshake_returns:
  assumes ok: "platform_ok p clock wire" and lib: "library_ok l clock wire"
  shows "returns (tls_handshake p l deadline_us e) (\<lambda>(status, e'). clock e \<le> clock e' \<and> wire e' = wire e)"
proof (induction "nat (deadline_us - clock e)" arbitrary: e rule: less_induct)
  case less
  obtain status e1 where h: "tl_ssl_handshake l e = (status, e1)" by force
  have e1: "clock e \<le> clock e1" "wire e1 = wire e" using lib h by (auto simp: library_ok_def dest: spec [of _ e])
  note d = platform_delay [OF ok, of 10 e1]
  obtain now e2 where t: "pf_esp_timer_get_time p (pf_task_delay_ms p 10 e1) = (now, e2)" by force
  obtain now2 e3 where t2: "pf_esp_timer_get_time p e2 = (now2, e3)" by force
  note t_ok = platform_time [OF ok t] and t2_ok = platform_time [OF ok t2]
  show ?case
  proof (cases "want_io p status \<and> now < deadline_us")
    case False
    then show ?thesis using h t t2 e1 d t_ok t2_ok by (subst tls_handshake.simps) (auto simp: returns_def)
  next
    case True
    have "returns (tls_handshake p l deadline_us e2) (\<lambda>(status, e'). clock e2 \<le> clock e' \<and> wire e' = wire e2)"
      by (rule less) (use True e1 d t_ok in auto)
    then show ?thesis using True h t e1 d t_ok by (subst tls_handshake.simps) (auto elim!: ok_mono)
  qed
qed

lemma optional_returns:
  assumes ok: "platform_ok p clock wire" and st: "static_buffers (snd x)"
  shows "returns (optional_discover p server_name port t x) (\<lambda>x'. static_buffers (snd x'))"
    "returns (optional_ask p cfg server_name port t accepted_ask x) (\<lambda>(a, x'). static_buffers (snd x'))"
proof -
  obtain rs s where x: "x = (rs, s)" by force
  show "returns (optional_discover p server_name port t x) (\<lambda>x'. static_buffers (snd x'))"
    unfolding optional_discover_def x prod.case using st [unfolded x snd_conv]
    by (auto intro!: ok_Some ok_bind [OF perform_discover_returns [OF ok]])
  show "returns (optional_ask p cfg server_name port t accepted_ask x) (\<lambda>(a, x'). static_buffers (snd x'))"
    unfolding optional_ask_def x prod.case using st [unfolded x snd_conv]
    by (auto intro!: ok_Some ok_bind [OF perform_ask_returns [OF ok]])
qed

lemma optional_upload_returns:
  fixes df :: "('e, 'z, 'e chunk_sink option zlib_output) deflate"
  assumes "platform_ok p clock wire" "compressor_ok df" "static_buffers (snd (snd x))"
  shows "returns (optional_upload p df cfg t x) (\<lambda>_. True)"
proof -
  obtain a rs s where x: "x = (a, rs, s)" by (metis prod_cases3)
  show ?thesis
    unfolding optional_upload_def x prod.case using assms(3) [unfolded x snd_conv]
    by (auto intro!: ok_Some ok_bind [OF perform_upload_returns [OF assms(1,2)]])
qed

lemma static_buffers_env [simp]: "static_buffers (st\<lparr>ts_env := e\<rparr>) = static_buffers st"
  by (simp add: static_buffers_def)

lemma requests_return:
  fixes df :: "('e, 'z, 'e chunk_sink option zlib_output) deflate"
  assumes ok: "platform_ok p clock wire" "compressor_ok df"
    and st: "static_buffers st" and k: "\<And>x. returns (k x) (\<lambda>_. True)"
  shows "returns (optional_discover p server_name port t1 (rs, st) \<bind>
      (\<lambda>x1. optional_ask p cfg server_name port t2 accepted_ask x1 \<bind> (\<lambda>x2. optional_upload p df cfg t3 x2 \<bind> k))) (\<lambda>_. True)"
  by (intro ok_bind [OF optional_returns(1) [OF ok(1)]] ok_bind [OF optional_returns(2) [OF ok(1)]]
      ok_bind [OF optional_upload_returns [OF ok]]) (use st k in auto)

text \<open>
  C37. No session hangs: whatever the peer and the network do, under a clock that passes during
  delays, every session returns, for every combination of requests, every file and every compressor
  that only calls its output routine.
\<close>

theorem run_tls_returns:
  fixes df :: "('e, 'z, 'e chunk_sink option zlib_output) deflate"
  assumes "platform_ok p clock wire" "library_ok l clock wire" "compressor_ok df" "static_buffers st"
  shows "\<exists>connected rs' st'. run_tls p l df cfg socket_fd server_name timeout_ms port t1 t2 t3 accepted_ask rs st = Some (connected, rs', st')"
proof -
  obtain status e1 where prepared: "tls_setup l server_name (tl_init l socket_fd (ts_env st)) = (status, e1)" by force
  obtain d e2 where t: "deadline_after p timeout_ms e1 = (d, e2)" by force
  have "returns (run_tls p l df cfg socket_fd server_name timeout_ms port t1 t2 t3 accepted_ask rs st) (\<lambda>_. True)"
    unfolding run_tls_def prepared t Let_def prod.case
    by (auto intro!: ok_Some ok_bind [OF tls_handshake_returns [OF assms(1,2)]] requests_return [OF assms(1,3)] simp: assms(4))
  then show ?thesis by (auto simp: returns_def)
qed

text \<open>An answer that lets an upload start, and the /Ask whose answer a session relies on.\<close>

definition consented :: "ask_result ptr \<Rightarrow> bool" where
  "consented a \<longleftrightarrow> a \<noteq> NULL \<and> ar_response_complete (deref a) \<and> ar_http_status (deref a) = 200"

definition discovered :: "('s, 'q) session_results \<Rightarrow> bool" where
  "discovered rs \<longleftrightarrow> se_discover rs = NULL \<or> dr_response_complete (deref (se_discover rs)) \<and> dr_http_status (deref (se_discover rs)) = 200"

definition relied_ask :: "ask_result ptr \<Rightarrow> ('s, 'q) session_results \<Rightarrow> ask_result ptr" where
  "relied_ask accepted rs = (if se_ask rs \<noteq> NULL \<and> discovered rs then se_ask rs else accepted)"

lemma optional_ask_relied:
  assumes "optional_ask p cfg name port t accepted (rs, st) = Some (a, rs', st')"
  shows "a = relied_ask accepted rs' \<and> se_discover rs' = se_discover rs \<and> se_upload rs' = se_upload rs \<and> se_outgoing rs' = se_outgoing rs"
  using assms
  by (auto simp: optional_ask_def relied_ask_def discovered_def bind_eq_Some_conv split: if_splits)

lemma negotiated_connected: "tr_connected (negotiated l e status r) \<longleftrightarrow> status = 0 \<or> tr_connected r"
  by (simp add: negotiated_def Let_def)

lemma optional_discover_keeps:
  "optional_discover p name port t (rs, st) = Some (rs', st') \<Longrightarrow>
     se_ask rs' = se_ask rs \<and> se_upload rs' = se_upload rs \<and> se_outgoing rs' = se_outgoing rs"
  by (auto simp: optional_discover_def bind_eq_Some_conv split: if_splits)

lemma optional_upload_cases:
  assumes "optional_upload p df cfg t (a, rs, st) = Some (rs', st')"
  obtains (skipped) "rs' = rs" "st' = st"
  | (performed) r og where "consented a" "se_upload rs \<noteq> NULL" "rs' = rs\<lparr>se_upload := Ptr r, se_outgoing := og\<rparr>"
      "perform_upload p df cfg (deref a) (se_outgoing rs) t st = Some (r, og, st')"
proof (cases "se_upload rs \<noteq> NULL \<and> consented a")
  case True
  then show ?thesis
    using assms by (auto simp: optional_upload_def consented_def bind_eq_Some_conv intro: performed)
next
  case False
  then show ?thesis
    using assms by (intro skipped) (auto simp: optional_upload_def consented_def)
qed

text \<open>The states that a session goes through when the handshake succeeds.\<close>

lemma run_tls_cases:
  assumes "run_tls p l df cfg fd name t port t1 t2 t3 accepted rs st = Some (c, rs', st')"
  obtains (unsent) "se_discover rs' = se_discover rs" "se_ask rs' = se_ask rs" "se_upload rs' = se_upload rs" "se_outgoing rs' = se_outgoing rs"
  | (requests) e1 d e2 e3 rs1 st1 a rs2 st2 rs3 st3 where
      "tls_setup l name (tl_init l fd (ts_env st)) = (0, e1)" "deadline_after p t e1 = (d, e2)" "tls_handshake p l d e2 = Some (0, e3)"
      "optional_discover p name port t1 (rs, st\<lparr>ts_env := e3\<rparr>) = Some (rs1, st1)"
      "optional_ask p cfg name port t2 accepted (rs1, st1) = Some (a, rs2, st2)"
      "optional_upload p df cfg t3 (a, rs2, st2) = Some (rs3, st3)"
      "c" "se_tls rs \<noteq> NULL" "\<exists>r. rs' = rs3\<lparr>se_tls := Ptr r\<rparr>" "st' = st3\<lparr>ts_env := tl_free l (ts_env st3)\<rparr>"
proof (cases "fd < 0 \<or> t = 0 \<or> se_tls rs = NULL")
  case True
  then show ?thesis using assms unsent by (auto simp: run_tls_def)
next
  case False
  obtain status e1 where s: "tls_setup l name (tl_init l fd (ts_env st)) = (status, e1)" by force
  obtain d e2 where d: "deadline_after p t e1 = (d, e2)" by force
  show ?thesis
  proof (cases "status = 0 \<and> (\<exists>e3. tls_handshake p l d e2 = Some (0, e3))")
    case True
    then obtain e3 where h: "status = 0" "tls_handshake p l d e2 = Some (0, e3)" by blast
    from assms obtain rs1 st1 a rs2 st2 rs3 st3 where
      "optional_discover p name port t1 (rs, st\<lparr>ts_env := e3\<rparr>) = Some (rs1, st1)"
      "optional_ask p cfg name port t2 accepted (rs1, st1) = Some (a, rs2, st2)"
      "optional_upload p df cfg t3 (a, rs2, st2) = Some (rs3, st3)"
      "c \<and> (\<exists>r. rs' = rs3\<lparr>se_tls := Ptr r\<rparr>) \<and> st' = st3\<lparr>ts_env := tl_free l (ts_env st3)\<rparr>"
      unfolding run_tls_def if_not_P [OF False] s d h(1) Let_def prod.case
      by (auto simp: h bind_eq_Some_conv negotiated_connected) blast
    then show ?thesis using requests s d h False by blast
  next
    case unanswered: False
    then consider "status \<noteq> 0" | "status = 0" "tls_handshake p l d e2 = None"
      | k e3 where "status = 0" "tls_handshake p l d e2 = Some (k, e3)" "k \<noteq> 0" by (metis not_None_eq prod.collapse)
    then have "\<exists>r. rs' = rs\<lparr>se_tls := Ptr r\<rparr>"
      by cases (use assms in \<open>auto simp: run_tls_def False s d Let_def\<close>)
    then show ?thesis using unsent by auto
  qed
qed

text \<open>
  C3. Nothing of a file leaves without consent: a session changes the upload's result or reads the
  outgoing file only on an established connection, when the caller asked for an upload and the
  receiver answered the /Ask that the session relies on, completely and with status 200. That is the
  /Ask of this connection when there was one and no /Discover before it failed, else the one the
  caller passed in.
\<close>

theorem upload_needs_consent:
  assumes "run_tls p l df cfg socket_fd server_name timeout_ms port t1 t2 t3 accepted_ask rs st = Some (connected, rs', st')"
    and "se_upload rs' \<noteq> se_upload rs \<or> se_outgoing rs' \<noteq> se_outgoing rs"
  shows "connected \<and> se_upload rs \<noteq> NULL \<and> consented (relied_ask accepted_ask rs')"
  using assms(1)
proof (cases rule: run_tls_cases)
  case unsent
  then show ?thesis using assms(2) by simp
next
  case (requests e1 d e2 e3 rs1 st1 a rs2 st2 rs3 st3)
  note keep = optional_discover_keeps [OF requests(4)] optional_ask_relied [OF requests(5)]
  show ?thesis
    using requests(6)
    by (cases rule: optional_upload_cases) (use keep requests assms(2) in \<open>auto simp: relied_ask_def discovered_def\<close>)
qed

text \<open>
  C1. A completed upload delivered the file: when a session reports a complete response to an upload,
  the connection carried, after everything before it and up to its end, exactly one upload: its head
  with the transfer identifier of the consented /Ask and the size of the payload, and the payload in
  non-empty chunks with the terminator. The payload is the prepared one, or the stored archive of the
  file as its source reads it; a compressed block has the announced size.
\<close>

theorem session_delivers_file:
  fixes df :: "('e, 'z, 'e chunk_sink option zlib_output) deflate"
  assumes platform: "platform_ok p clock wire" "compressor_ok df" and st: "static_buffers st"
    and run: "run_tls p l df cfg socket_fd server_name timeout_ms port t1 t2 t3 accepted_ask rs st = Some (connected, rs', st')"
    and outgoing: "se_outgoing rs = Ptr f" "prepared_upload f \<or> lawful_source (of_source f) file_bytes"
    and asked: "se_upload rs = Ptr r0" "\<not> ur_response_complete r0"
    and complete: "se_upload rs' = Ptr r" "ur_response_complete r"
  shows "\<exists>ask e e'. relied_ask accepted_ask rs' = Ptr ask \<and> consented (Ptr ask) \<and> ts_env st' = tl_free l e' \<and>
    upload_transcript wire e e' (ar_transfer_id ask) f r"
  using run
proof (cases rule: run_tls_cases)
  case unsent
  then show ?thesis using asked complete by simp
next
  case (requests e1 d e2 e3 rs1 st1 a rs2 st2 rs3 st3)
  note keep = optional_discover_keeps [OF requests(4)] optional_ask_relied [OF requests(5)]
  have "static_buffers st2"
    using optional_returns(1) [OF platform(1), of "(rs, st\<lparr>ts_env := e3\<rparr>)" server_name port t1, unfolded requests(4)]
      optional_returns(2) [OF platform(1), of "(rs1, st1)" cfg server_name port t2 accepted_ask, unfolded requests(5)] st
    by (simp add: returns_def)
  note sent = perform_upload_returns [OF platform this, of cfg "deref a" "se_outgoing rs2" t3]
  show ?thesis
    using requests(6)
  proof (cases rule: optional_upload_cases)
    case skipped
    then show ?thesis using keep requests asked complete by auto
  next
    case (performed r' og)
    then have r': "r' = r" "relied_ask accepted_ask rs' = a"
      using requests complete keep by (auto simp: relied_ask_def discovered_def)
    then have "upload_transcript wire (ts_env st2) (ts_env st3) (ar_transfer_id (deref a)) f r"
      using sent performed keep outgoing complete by (auto simp: returns_def upload_outcome_def)
    then show ?thesis using r' performed requests by (auto simp: consented_def intro!: exI [of _ "deref a"])
  qed
qed


section \<open>Execution\<close>

text \<open>A test for \<open>NULL\<close> that needs no equality on functions, so that sessions can be run.\<close>

definition is_null :: "'a ptr \<Rightarrow> bool" where
  "is_null x = (case x of NULL \<Rightarrow> True | Ptr _ \<Rightarrow> False)"

lemma null_test: "x = NULL \<longleftrightarrow> is_null x"
  by (simp add: is_null_def split: ptr.split)

lemmas null_code [code] =
  ask_announcement_def [unfolded null_test] prepared_upload_def [unfolded null_test] outgoing_unusable_def [unfolded null_test]
  choose_payload_def [unfolded null_test] write_zlib_output_def [unfolded null_test] espdrop_airdrop_stream_odc_def [unfolded null_test]
  espdrop_airdrop_stream_stored_dvzip_def [unfolded null_test] 

declare buffer_upload_chunk.simps [code] write_tls_loop.simps [code] read_response.simps [code] flush_pieces.simps [code] tls_handshake.simps [code]

section \<open>A loopback session\<close>

text \<open>
  A concrete platform: a clock, the bytes written and the responses to come. Writes are taken whole,
  reads give the next response, the random generator gives zeros.
\<close>

type_synonym loopback = "int \<times> bytes \<times> bytes list"

definition loop_platform :: "loopback platform" where
  "loop_platform = \<lparr>
     pf_esp_timer_get_time = (\<lambda>e. (fst e, e)),
     pf_task_delay_ms = (\<lambda>n e. (fst e + int n, snd e)),
     pf_ssl_write = (\<lambda>d e. (int (length d), fst e, fst (snd e) @ d, snd (snd e))),
     pf_ssl_read = (\<lambda>k e. case snd (snd e) of [] \<Rightarrow> (- 30848, [], e)
        | r # rest \<Rightarrow> if length r \<le> k then (int (length r), r, fst e, fst (snd e), rest) else (- 30848, [], e)),
     pf_ctr_drbg_random = (\<lambda>k e. (0, replicate k 0, e)),
     pf_ssl_want_read = - 26880, pf_ssl_want_write = - 26752, pf_ssl_timeout = - 26624, pf_ssl_peer_close_notify = - 30848\<rparr>"

definition loop_library :: "loopback tls_library" where
  "loop_library = \<lparr>
     tl_init = (\<lambda>_ e. e), tl_ctr_drbg_seed = Pair 0, tl_x509_crt_parse = Pair 0, tl_pk_parse_key = Pair 0,
     tl_ssl_config_defaults = Pair 0, tl_conf_rng_authmode = (\<lambda>e. e), tl_ssl_conf_own_cert = Pair 0, tl_ssl_setup = Pair 0,
     tl_ssl_set_hostname = (\<lambda>_. Pair 0), tl_ssl_set_bio = (\<lambda>e. e), tl_ssl_handshake = Pair 0, tl_verify_result = (\<lambda>_. 0),
     tl_peer_cert_bytes = (\<lambda>_. NULL), tl_version = (\<lambda>_. NULL), tl_ciphersuite = (\<lambda>_. NULL), tl_free = (\<lambda>e. e)\<rparr>"

definition loop_deflate :: "(loopback, unit, loopback chunk_sink option zlib_output) deflate" where
  "loop_deflate = \<lparr>df_alloc = (\<lambda>_. False), df_init = (TDEFL_STATUS_OKAY, ()),
     df_compress_buffer = (\<lambda>put fin d zo. (if fin then TDEFL_STATUS_DONE else TDEFL_STATUS_OKAY, zo))\<rparr>"

lemma loop_ok: "platform_ok loop_platform fst (fst \<circ> snd)" "library_ok loop_library fst (fst \<circ> snd)" "compressor_ok loop_deflate"
  by (auto simp: platform_ok_def loop_platform_def library_ok_def loop_library_def compressor_ok_def loop_deflate_def split: list.splits if_splits)

definition loop_config :: tls_config where
  "loop_config = \<lparr>tc_upload_jpeg = [], tc_max_transfer_bytes = 1000\<rparr>"

definition loop_state :: "bytes list \<Rightarrow> loopback tls_state" where
  "loop_state responses = \<lparr>ts_env = (0, [], responses),
     ts_discover_request = replicate AIRDROP_DISCOVER_REQUEST_BYTES 0, ts_discover_response = replicate AIRDROP_DISCOVER_RESPONSE_BYTES 0,
     ts_ask_body = replicate ESPDROP_AIRDROP_ASK_BODY_MAX_BYTES 0, ts_ask_request = replicate ESPDROP_AIRDROP_ASK_REQUEST_MAX_BYTES 0,
     ts_ask_response = replicate AIRDROP_ASK_RESPONSE_BYTES 0, ts_upload_workspace = replicate AIRDROP_UPLOAD_WORKSPACE_BYTES 0,
     ts_upload_network_buffer = replicate AIRDROP_UPLOAD_NETWORK_BUFFER_BYTES 0, ts_upload_head = replicate AIRDROP_UPLOAD_HEAD_BYTES 0,
     ts_upload_response = replicate AIRDROP_UPLOAD_RESPONSE_BYTES 0\<rparr>"

lemma loop_state_ok: "static_buffers (loop_state responses)"
  by (simp add: static_buffers_def loop_state_def)

definition loop_response :: bytes where
  "loop_response = ascii ''HTTP/1.1 200 OK'' @ [13, 10] @ ascii ''Content-Length: 0'' @ [13, 10, 13, 10]"

definition loop_file :: "(fixture_source, fixture_source) outgoing_file" where
  "loop_file = \<lparr>of_file_name = Ptr (ascii ''a''), of_file_type = Ptr (ascii ''b''), of_mtime = 0,
     of_source = \<lparr>src_context = \<lparr>fx_data = [1, 2, 3], fx_offset = 0\<rparr>, src_size_bytes = 3, src_read = NULL, src_rewind = NULL\<rparr>,
     of_prepared_payload = \<lparr>pp_source = \<lparr>src_context = \<lparr>fx_data = [7, 8], fx_offset = 0\<rparr>, src_size_bytes = 2,
       src_read = Ptr read_fixture_source, src_rewind = NULL\<rparr>,
       pp_archive_bytes = 1, pp_dvzip_blocks = 1, pp_file_crc32 = 0, pp_stored_blocks = True\<rparr>\<rparr>"

definition loop_ask :: ask_result where
  "loop_ask = ask_result_zero\<lparr>ar_attempted := True, ar_response_complete := True, ar_http_status := 200,
     ar_transfer_id := espdrop_airdrop_format_transfer_id (replicate 16 0)\<rparr>"

definition loop_results :: "(fixture_source, fixture_source) session_results" where
  "loop_results = (no_results (Ptr tls_result_zero))\<lparr>se_outgoing := Ptr loop_file, se_upload := Ptr upload_result_zero\<rparr>"

lemma loop_time [simp]: "pf_esp_timer_get_time loop_platform e = (fst e, e)"
  by (simp add: loop_platform_def)

lemma loop_part [simp]:
  assumes "fst e < deadline"
  shows "write_upload_part loop_platform v deadline (r, e) =
    Some (True, r\<lparr>ur_request_bytes := ur_request_bytes r + length v\<rparr>, fst e, fst (snd e) @ v, snd (snd e))"
proof -
  have "write_tls_request loop_platform v deadline err e = Some (True, err, fst e, fst (snd e) @ v, snd (snd e))" for err
    using assms by (cases "v = []") (simp_all add: write_tls_request_def write_tls_loop.simps loop_platform_def)
  then show ?thesis by (simp add: write_upload_part_def Let_def)
qed

lemma loop_read:
  assumes "fst e < deadline" "snd (snd e) = [loop_response]" "length buf = AIRDROP_UPLOAD_RESPONSE_BYTES"
  shows "\<exists>r n buf' e'. read_response loop_platform espdrop_airdrop_parse_upload_response deadline buf 0 e = Some (RO_COMPLETE r, n, buf', e') \<and>
    fst e' = fst e \<and> fst (snd e') = fst (snd e)"
proof -
  have "length loop_response = 38" by (simp add: loop_response_def ascii_def)
  moreover have "map_option fst (espdrop_airdrop_parse_upload_response (Ptr loop_response) False (Ptr http_result_zero)) = Some HTTP_COMPLETE"
    by code_simp
  ultimately show ?thesis
    using assms
    by (subst read_response.simps) (auto simp: loop_platform_def store_def AIRDROP_UPLOAD_RESPONSE_BYTES_def Let_def want_io_def)
qed

lemma loop_payload:
  fixes s :: "loopback chunk_sink"
  assumes "uk_used s = 0" "uk_capacity s = AIRDROP_UPLOAD_NETWORK_BUFFER_BYTES" "2 \<le> length ws"
  shows "\<exists>f' ws' s'. send_payload loop_platform loop_deflate PREPARED path loop_file ws s = Some (stream_result_zero, f', ws', s') \<and>
    ur_stream_status (fst (uk_out s')) = STREAM_OK \<and> snd (uk_out s') = snd (uk_out s) \<and> uk_used s' = 2 \<and> uk_deadline_us s' = uk_deadline_us s"
proof -
  have buffer: "buffer_upload_chunk p s [7, 8] = Some (True, s\<lparr>uk_buffer := store (uk_buffer s) 0 [7, 8], uk_used := 2\<rparr>)"
    if "uk_used s = 0" "uk_capacity s = AIRDROP_UPLOAD_NETWORK_BUFFER_BYTES" for p and s :: "loopback chunk_sink"
    using that by (simp add: buffer_upload_chunk.simps AIRDROP_UPLOAD_NETWORK_BUFFER_BYTES_def)
  have workspace: "take 2 (store ws 0 [7, 8]) = [7, 8]" by (simp add: store_def)
  have get: "read_fixture_source \<lparr>fx_data = [7, 8], fx_offset = 0\<rparr> 2 = (True, [7, 8], 2, \<lparr>fx_data = [7, 8], fx_offset = 2\<rparr>)"
    by (simp add: read_fixture_source_def Let_def)
  obtain r e where out: "uk_out s = (r, e)" by (rule prod.exhaust)
  define q where "q = s\<lparr>uk_out := (r\<lparr>ur_stream_status := STREAM_OK\<rparr>, e)\<rparr>"
  have q: "uk_used q = 0" "uk_capacity q = AIRDROP_UPLOAD_NETWORK_BUFFER_BYTES" "uk_out q = (r\<lparr>ur_stream_status := STREAM_OK\<rparr>, e)"
    "uk_deadline_us q = uk_deadline_us s" using assms by (simp_all add: q_def)
  define q1 where "q1 = note_high_water 2 (q\<lparr>uk_buffer := store (uk_buffer q) 0 [7, 8], uk_used := 2\<rparr>)"
  have "send_prepared loop_platform read_fixture_source 2 \<lparr>fx_data = [7, 8], fx_offset = 0\<rparr> ws q =
    Some (STREAM_OK, \<lparr>fx_data = [7, 8], fx_offset = 2\<rparr>, store ws 0 [7, 8], q1)"
    using buffer [OF q(1,2), of loop_platform]
    by (simp add: send_prepared.simps AIRDROP_UPLOAD_WORKSPACE_BYTES_def get workspace q1_def)
  moreover have "ur_stream_status (fst (uk_out q1)) = STREAM_OK" "snd (uk_out q1) = e" "uk_used q1 = 2" "uk_deadline_us q1 = uk_deadline_us s"
    using q by (auto simp: q1_def note_high_water_def)
  ultimately show ?thesis
    by (auto simp: send_payload_def loop_file_def on_result_def out q_def [symmetric] Let_def split: prod.splits)
qed

lemma loop_end:
  fixes s :: "loopback chunk_sink"
  assumes "uk_used s = 2" "fst (snd (uk_out s)) < uk_deadline_us s" "snd (snd (snd (uk_out s))) = [loop_response]"
    and l: "length (ts_upload_response st) = AIRDROP_UPLOAD_RESPONSE_BYTES"
  shows "\<exists>r' f' st'. end_upload loop_platform (uk_deadline_us s) t s f st = Some (r', f', st') \<and> ur_response_complete r'"
proof -
  obtain r e where out: "uk_out s = (r, e)" by (rule prod.exhaust)
  obtain s1 where flush: "flush_upload_chunk loop_platform s = Some (True, s1)" "fst (snd (uk_out s1)) = fst e" "snd (snd (snd (uk_out s1))) = [loop_response]"
    using assms(1-3) out
    by (auto simp: flush_upload_chunk_def chunk_prefix_built SIZE_MAX_def sink_part_def flush_pieces.simps AIRDROP_UPLOAD_TLS_WRITE_BYTES_def Let_def)
  obtain r1 e1 where out1: "uk_out s1 = (r1, e1)" by (rule prod.exhaust)
  obtain h n buf' e' where "read_response loop_platform espdrop_airdrop_parse_upload_response (uk_deadline_us s) (ts_upload_response st) 0
      (fst e1, fst (snd e1) @ t, snd (snd e1)) = Some (RO_COMPLETE h, n, buf', e')"
    using loop_read [of "(fst e1, fst (snd e1) @ t, snd (snd e1))", OF _ _ l] assms(2) out out1 flush(2,3) by fastforce
  then show ?thesis
    using assms(2) out out1 flush
    by (simp add: end_upload_def await_upload_response_def Let_def finish_upload_def copy_upload_http_result_def)
qed

lemma loop_send:
  assumes "ts_env st = (0, w, [loop_response])" "static_buffers st"
  shows "\<exists>r' f' st'. send_upload loop_platform loop_deflate PREPARED path k t 1000 (r, loop_file, st) = Some (r', f', st') \<and>
    ur_response_complete r'"
proof -
  define r1 where "r1 = r\<lparr>ur_attempted := True, ur_request_bytes := ur_request_bytes r + length (take k (ts_upload_head st))\<rparr>"
  define s where "s = \<lparr>uk_out = (r1, 0 :: int, w @ take k (ts_upload_head st), [loop_response]), uk_deadline_us = 1000000,
     uk_buffer = ts_upload_network_buffer st, uk_capacity = AIRDROP_UPLOAD_NETWORK_BUFFER_BYTES, uk_used = 0\<rparr>"
  have "2 \<le> length (ts_upload_workspace st)" using assms(2) by (simp add: static_buffers_def AIRDROP_UPLOAD_WORKSPACE_BYTES_def)
  then obtain f' ws' s1 where s1: "send_payload loop_platform loop_deflate PREPARED path loop_file (ts_upload_workspace st) s = Some (stream_result_zero, f', ws', s1)"
    "ur_stream_status (fst (uk_out s1)) = STREAM_OK" "snd (uk_out s1) = snd (uk_out s)" "uk_used s1 = 2" "uk_deadline_us s1 = uk_deadline_us s"
    using loop_payload [of s "ts_upload_workspace st" path] by (auto simp: s_def)
  define s2 where "s2 = on_result (streamed_totals PREPARED stream_result_zero) s1"
  have s2: "ur_stream_status (fst (uk_out s2)) = STREAM_OK" "snd (uk_out s2) = snd (uk_out s)" "uk_used s2 = 2" "uk_deadline_us s2 = uk_deadline_us s"
    using s1 by (auto simp: s2_def on_result_def streamed_totals_def split: prod.splits)
  have deadline: "uk_deadline_us s = 1000000" by (simp add: s_def)
  define st1 where "st1 = st\<lparr>ts_env := snd (uk_out s2), ts_upload_workspace := ws', ts_upload_network_buffer := uk_buffer s2\<rparr>"
  have "\<exists>r' f1 st'. end_upload loop_platform (uk_deadline_us s2) t s2 f' st1 = Some (r', f1, st') \<and> ur_response_complete r'"
    by (rule loop_end) (use s2 assms(2) in \<open>auto simp: s_def st1_def static_buffers_def\<close>)
  then show ?thesis
    unfolding s2_def st1_def using assms(1) s1 s2 [unfolded s2_def]
    by (auto simp: send_upload_def deadline_after_def Let_def r1_def [symmetric] s_def [symmetric] deadline simp del: length_take)
qed

lemma loop_announce:
  assumes "ts_upload_head st = replicate 512 0" "ur_payload_bytes r = 2"
  shows "\<exists>k t r' h. announce_upload loop_platform loop_ask r st = (Some (k, t), r', st\<lparr>ts_upload_head := h\<rparr>) \<and> length h = 512"
proof -
  let ?id = "upload_identity_of loop_ask (replicate 16 0) (replicate 32 0)"
  obtain k h where b: "espdrop_airdrop_build_upload_head (Ptr (replicate 512 0)) 512 (Ptr ?id) 2 = (k, h)" by (rule prod.exhaust)
  have tid: "espdrop_airdrop_transfer_id_valid (Ptr (ar_transfer_id loop_ask))" by code_simp
  then have t: "length (ar_transfer_id loop_ask) = 36" by (simp add: espdrop_airdrop_transfer_id_valid_def split: if_splits)
  then have id: "id_transfer_id ?id = ar_transfer_id loop_ask" by (simp add: upload_identity_of_def copy_negotiated_text_def)
  note ps = format_sender_pseudonym_valid [of "replicate 16 0", simplified] and pt = format_sender_push_token_valid [of "replicate 32 0", simplified]
  have l: "length (espdrop_airdrop_format_sender_pseudonym (replicate 16 0)) = 28"
    "length (espdrop_airdrop_format_sender_push_token (replicate 32 0)) = 64"
    using ps push_token_chars(2) [of "replicate 32 0"] by (simp_all add: pseudonym_valid_def split: if_splits)
  have "espdrop_airdrop_upload_identity_valid (Ptr ?id)"
    using tid ps pt id by (simp add: espdrop_airdrop_upload_identity_valid_def upload_identity_of_def)
  moreover have "length (upload_head_text ?id 2) < 512"
    using t l id by (simp add: upload_head_text_def upload_identity_of_def digits_small)
  moreover have "0 < length (upload_head_text ?id 2)" by (simp add: upload_head_text_def ascii_def)
  ultimately have k: "k \<noteq> 0" using b by (auto simp: espdrop_airdrop_build_upload_head_def Let_def)
  show ?thesis
    using built_head(3) [of "replicate 512 0" ?id 2, simplified, OF b] b k id assms
    by (auto simp: announce_upload_def two_randoms_def loop_platform_def AIRDROP_UPLOAD_HEAD_BYTES_def chunk_terminator_built Let_def)
qed

lemma loop_upload:
  "\<exists>r og st'. perform_upload loop_platform loop_deflate loop_config loop_ask (Ptr loop_file) 1000 (loop_state [loop_response]) = Some (r, og, st') \<and>
    ur_response_complete r"
proof -
  let ?path = "ascii ''./'' @ deref (of_file_name loop_file)" and ?st = "loop_state [loop_response]"
  have usable: "\<not> (outgoing_unusable loop_config (Ptr loop_file) \<or> 260 \<le> length (ascii ''./'' @ deref (of_file_name loop_file)))"
    by (simp add: outgoing_unusable_def prepared_upload_def loop_file_def loop_config_def Let_def ascii_def)
  obtain r1 where choice: "choose_payload loop_deflate ?path (upload_start loop_ask, loop_file, ?st) = (Some PREPARED, r1, loop_file, ?st)"
    "ur_payload_bytes r1 = 2"
    by (simp add: choose_payload_def prepared_upload_def Let_def loop_file_def)
  have "ts_upload_head ?st = replicate 512 0" by (simp add: loop_state_def AIRDROP_UPLOAD_HEAD_BYTES_def)
  then obtain k t r2 h where ann: "announce_upload loop_platform loop_ask r1 ?st = (Some (k, t), r2, ?st\<lparr>ts_upload_head := h\<rparr>)" "length h = 512"
    using loop_announce choice(2) by blast
  have st: "ts_env (?st\<lparr>ts_upload_head := h\<rparr>) = (0, [], [loop_response])" "static_buffers (?st\<lparr>ts_upload_head := h\<rparr>)"
    using loop_state_ok [of "[loop_response]"] ann(2) by (simp_all add: loop_state_def static_buffers_def AIRDROP_UPLOAD_HEAD_BYTES_def)
  show ?thesis
    using loop_send [OF st, of ?path k t r2]
    unfolding perform_upload_chosen [OF usable choice(1) ann(1)] option.case prod.case by fastforce
qed

lemma loop_session:
  "\<exists>rs st. run_tls loop_platform loop_library loop_deflate loop_config 3 NULL 1000 0 0 0 1000 (Ptr loop_ask) loop_results (loop_state [loop_response]) =
     Some (True, rs, st) \<and> se_ask rs = NULL \<and> (\<exists>r. se_upload rs = Ptr r \<and> ur_response_complete r)"
proof -
  obtain r og st' where u: "perform_upload loop_platform loop_deflate loop_config loop_ask (Ptr loop_file) 1000 (loop_state [loop_response]) = Some (r, og, st')"
    "ur_response_complete r"
    using loop_upload by blast
  have env: "loop_state [loop_response]\<lparr>ts_env := (0, [], [loop_response])\<rparr> = loop_state [loop_response]" by (simp add: loop_state_def)
  have hs: "tls_handshake loop_platform loop_library d e = Some (0, e)" for d e
    by (subst tls_handshake.simps) (simp add: loop_library_def loop_platform_def want_io_def)
  have setup1: "tls_setup loop_library NULL e = (0, e)" for e by (simp add: tls_setup_def loop_library_def)
  have e0: "ts_env (loop_state [loop_response]) = (0, [], [loop_response])" by (simp add: loop_state_def)
  have lib: "tl_init loop_library n e = e" "tl_free loop_library e = e" for n e by (simp_all add: loop_library_def)
  show ?thesis
    using u
    by (simp add: run_tls_def setup1 lib e0 deadline_after_def hs env optional_discover_def optional_ask_def optional_upload_def
        loop_results_def no_results_def loop_ask_def [THEN arg_cong, of ar_response_complete] loop_ask_def [THEN arg_cong, of ar_http_status]
        negotiated_connected Let_def)
qed

theorem run_tls_returns_witness:
  "\<exists>connected rs' st'. run_tls loop_platform loop_library loop_deflate loop_config 3 NULL 1000 8770 1000 1000 1000 NULL
     (loop_results\<lparr>se_discover := Ptr discover_result_zero, se_ask := Ptr ask_result_zero\<rparr>) (loop_state []) = Some (connected, rs', st')"
  by (rule run_tls_returns [OF loop_ok loop_state_ok])

theorem upload_needs_consent_witness:
  "\<exists>rs' st'. run_tls loop_platform loop_library loop_deflate loop_config 3 NULL 1000 0 0 0 1000 (Ptr loop_ask) loop_results
     (loop_state [loop_response]) = Some (True, rs', st') \<and> se_upload rs' \<noteq> se_upload loop_results \<and> consented (relied_ask (Ptr loop_ask) rs')"
proof -
  obtain rs' st' r where run: "run_tls loop_platform loop_library loop_deflate loop_config 3 NULL 1000 0 0 0 1000 (Ptr loop_ask) loop_results
     (loop_state [loop_response]) = Some (True, rs', st')" "se_upload rs' = Ptr r" "ur_response_complete r"
    using loop_session by blast
  then have changed: "se_upload rs' \<noteq> se_upload loop_results"
    by (auto simp: loop_results_def upload_result_zero_def)
  then show ?thesis using run upload_needs_consent [OF run(1)] by blast
qed

theorem session_delivers_file_witness:
  "\<exists>rs' st' r ask e e'. run_tls loop_platform loop_library loop_deflate loop_config 3 NULL 1000 0 0 0 1000 (Ptr loop_ask) loop_results
     (loop_state [loop_response]) = Some (True, rs', st') \<and> se_upload rs' = Ptr r \<and> ur_response_complete r \<and>
     relied_ask (Ptr loop_ask) rs' = Ptr ask \<and> upload_transcript (fst \<circ> snd) (e :: loopback) e' (ar_transfer_id ask) loop_file r"
proof -
  obtain rs' st' r where run: "run_tls loop_platform loop_library loop_deflate loop_config 3 NULL 1000 0 0 0 1000 (Ptr loop_ask) loop_results
     (loop_state [loop_response]) = Some (True, rs', st')" "se_upload rs' = Ptr r" "ur_response_complete r"
    using loop_session by blast
  have given: "se_outgoing loop_results = Ptr loop_file" "prepared_upload loop_file" "se_upload loop_results = Ptr upload_result_zero"
    "\<not> ur_response_complete upload_result_zero"
    by (simp_all add: loop_results_def prepared_upload_def loop_file_def upload_result_zero_def)
  obtain ask e e' where "relied_ask (Ptr loop_ask) rs' = Ptr ask" "upload_transcript (fst \<circ> snd) (e :: loopback) e' (ar_transfer_id ask) loop_file r"
    using session_delivers_file [OF loop_ok(1,3) loop_state_ok run(1) given(1) disjI1 [OF given(2)] given(3,4) run(2,3)]
    by (elim exE conjE) (rule that)
  with run show ?thesis by (intro exI conjI)
qed

end
