(* ===== verification/Airdrop_Mdns.thy ===== *)
theory Airdrop_Mdns
  imports C_Strings
begin

text \<open>
  Multicast DNS for AirDrop, \<^verbatim>\<open>src/core/src/airdrop_mdns.c\<close>: the announcement and query writers, the
  decoder of possibly compressed names, the parser of a response into services and hosts, and the
  cache that merges responses. A packet is its bytes; a character array is all its bytes and is read
  as a C string through \<open>c_string\<close>. The counted arrays of a result are the lists of their used
  entries. A read outside the packet is \<open>None\<close>.
\<close>

section \<open>Constants and types\<close>

definition DNS_HEADER_BYTES :: nat where "DNS_HEADER_BYTES = 12"
definition DNS_POINTER_MASK :: byte where "DNS_POINTER_MASK = 0xc0"
definition DNS_POINTER_VALUE :: byte where "DNS_POINTER_VALUE = 0xc0"
definition DNS_MAX_RECORDS :: nat where "DNS_MAX_RECORDS = 64"
definition DNS_MAX_POINTERS :: nat where "DNS_MAX_POINTERS = 16"
definition DNS_TYPE_PTR :: u16 where "DNS_TYPE_PTR = 12"
definition DNS_TYPE_TXT :: u16 where "DNS_TYPE_TXT = 16"
definition DNS_TYPE_AAAA :: u16 where "DNS_TYPE_AAAA = 28"
definition DNS_TYPE_SRV :: u16 where "DNS_TYPE_SRV = 33"
definition DNS_CLASS_IN :: u16 where "DNS_CLASS_IN = 0x0001"
definition DNS_CLASS_CACHE_FLUSH :: u16 where "DNS_CLASS_CACHE_FLUSH = 0x8001"
definition DNS_ANNOUNCEMENT_TTL :: u32 where "DNS_ANNOUNCEMENT_TTL = 120"
definition DNS_AIRDROP_TYPE_NAME_BYTES :: nat where "DNS_AIRDROP_TYPE_NAME_BYTES = 21"
definition DNS_LOCAL_SUFFIX_BYTES :: nat where "DNS_LOCAL_SUFFIX_BYTES = 7"
definition ESPDROP_MDNS_NAME_BYTES :: nat where "ESPDROP_MDNS_NAME_BYTES = 128"
definition ESPDROP_MDNS_TXT_BYTES :: nat where "ESPDROP_MDNS_TXT_BYTES = 256"
definition ESPDROP_MDNS_MAX_SERVICES :: nat where "ESPDROP_MDNS_MAX_SERVICES = 4"
definition ESPDROP_MDNS_MAX_HOSTS :: nat where "ESPDROP_MDNS_MAX_HOSTS = 4"

record mdns_host =
  mh_name :: bytes
  mh_address :: bytes

record mdns_service =
  sv_instance :: bytes
  sv_target :: bytes
  sv_txt :: bytes
  sv_ipv6 :: bytes
  sv_port :: u16
  sv_has_ptr :: bool
  sv_has_srv :: bool
  sv_has_txt :: bool
  sv_has_ipv6 :: bool
  sv_endpoint_published :: bool

definition mdns_service_zero :: mdns_service where
  "mdns_service_zero = \<lparr>sv_instance = replicate ESPDROP_MDNS_NAME_BYTES 0, sv_target = replicate ESPDROP_MDNS_NAME_BYTES 0,
     sv_txt = replicate ESPDROP_MDNS_TXT_BYTES 0, sv_ipv6 = replicate 16 0, sv_port = 0, sv_has_ptr = False, sv_has_srv = False,
     sv_has_txt = False, sv_has_ipv6 = False, sv_endpoint_published = False\<rparr>"

record mdns_result =
  mr_services :: "mdns_service list"
  mr_hosts :: "mdns_host list"
  mr_questions :: u16
  mr_answers :: u16
  mr_authority :: u16
  mr_additional :: u16
  mr_response :: bool

definition mdns_result_zero :: mdns_result where
  "mdns_result_zero = \<lparr>mr_services = [], mr_hosts = [], mr_questions = 0, mr_answers = 0, mr_authority = 0, mr_additional = 0,
     mr_response = False\<rparr>"

datatype mdns_query_response = QUERY_RESPONSE_NONE | QUERY_RESPONSE_MULTICAST | QUERY_RESPONSE_UNICAST

definition c_string :: "bytes \<Rightarrow> bytes" where
  "c_string xs = takeWhile (\<lambda>b. b \<noteq> 0) xs"

section \<open>The writer\<close>

record dns_writer =
  dw_packet :: bytes
  dw_capacity :: nat
  dw_position :: nat
  dw_failed :: bool

definition dns_write_u8 :: "byte \<Rightarrow> dns_writer \<Rightarrow> dns_writer" where
  "dns_write_u8 v writer =
     (if dw_failed writer \<or> dw_position writer \<ge> dw_capacity writer then writer\<lparr>dw_failed := True\<rparr>
      else writer\<lparr>dw_packet := store (dw_packet writer) (dw_position writer) [v], dw_position := dw_position writer + 1\<rparr>)"

definition dns_write_u16 :: "u16 \<Rightarrow> dns_writer \<Rightarrow> dns_writer" where
  "dns_write_u16 v writer = dns_write_u8 (ucast v) (dns_write_u8 (ucast (drop_bit 8 v)) writer)"

definition dns_write_u32 :: "u32 \<Rightarrow> dns_writer \<Rightarrow> dns_writer" where
  "dns_write_u32 v writer = dns_write_u16 (ucast v) (dns_write_u16 (ucast (drop_bit 16 v)) writer)"

definition dns_write_bytes :: "bytes \<Rightarrow> dns_writer \<Rightarrow> dns_writer" where
  "dns_write_bytes v writer =
     (if dw_failed writer \<or> length v > dw_capacity writer - dw_position writer then writer\<lparr>dw_failed := True\<rparr>
      else writer\<lparr>dw_packet := store (dw_packet writer) (dw_position writer) v, dw_position := dw_position writer + length v\<rparr>)"

definition dns_label_char :: "byte \<Rightarrow> bool" where
  "dns_label_char b \<longleftrightarrow> (97 \<le> b \<and> b \<le> 122) \<or> (65 \<le> b \<and> b \<le> 90) \<or> (48 \<le> b \<and> b \<le> 57) \<or> b = 45"

definition dns_label_valid :: "bytes ptr \<Rightarrow> bool" where
  "dns_label_valid label \<longleftrightarrow> label \<noteq> NULL \<and> \<not> (length (deref label) = 0 \<or> length (deref label) > 63) \<and>
     list_all dns_label_char (deref label)"

definition dns_write_label :: "bytes \<Rightarrow> dns_writer \<Rightarrow> dns_writer" where
  "dns_write_label label writer = dns_write_bytes label (dns_write_u8 (of_nat (length label)) writer)"

text \<open>A sequence of writes, in order.\<close>

definition in_order :: "(dns_writer \<Rightarrow> dns_writer) list \<Rightarrow> dns_writer \<Rightarrow> dns_writer" where
  "in_order fs writer = foldl (\<lambda>w f. f w) writer fs"

definition dns_write_airdrop_type :: "dns_writer \<Rightarrow> dns_writer" where
  "dns_write_airdrop_type =
     in_order [dns_write_label (ascii ''_airdrop''), dns_write_label (ascii ''_tcp''), dns_write_label (ascii ''local''), dns_write_u8 0]"

definition dns_write_instance :: "bytes \<Rightarrow> dns_writer \<Rightarrow> dns_writer" where
  "dns_write_instance service_id = in_order [dns_write_label service_id, dns_write_airdrop_type]"

definition dns_write_host :: "bytes \<Rightarrow> dns_writer \<Rightarrow> dns_writer" where
  "dns_write_host host_name = in_order [dns_write_label host_name, dns_write_label (ascii ''local''), dns_write_u8 0]"

definition dns_write_record_head :: "u16 \<Rightarrow> u16 \<Rightarrow> u16 \<Rightarrow> dns_writer \<Rightarrow> dns_writer" where
  "dns_write_record_head type dns_class data_length =
     in_order [dns_write_u16 type, dns_write_u16 dns_class, dns_write_u32 DNS_ANNOUNCEMENT_TTL, dns_write_u16 data_length]"

section \<open>Queries\<close>

text \<open>The labels of the rest of a name; the result is whether all fitted, the packet and the position.\<close>

function query_labels :: "nat \<Rightarrow> bytes \<Rightarrow> bytes \<Rightarrow> nat \<Rightarrow> bool \<times> bytes \<times> nat" where
  "query_labels capacity rest packet position =
     (if rest = [] then (True, packet, position)
      else
        let label = takeWhile (\<lambda>b. b \<noteq> 46) rest; n = length label in
        if n = 0 \<or> n > 63 \<or> position + 1 + n + 5 > capacity then (False, packet, position)
        else
          let packet1 = store (store packet position [of_nat n]) (position + 1) label; position1 = position + 1 + n in
          if n = length rest then (True, packet1, position1)
          else query_labels capacity (drop (n + 1) rest) packet1 position1)"
  by pat_completeness auto
termination
  by (relation "measure (\<lambda>(capacity, rest, packet, position). length rest)") auto

declare query_labels.simps [simp del]

definition espdrop_mdns_build_query ::
  "bytes ptr \<Rightarrow> nat \<Rightarrow> nat ptr \<Rightarrow> bytes ptr \<Rightarrow> u16 \<Rightarrow> bool \<Rightarrow> bool \<times> bytes ptr \<times> nat ptr" where
  "espdrop_mdns_build_query packet capacity len name type unicast_response =
     (if packet = NULL \<or> len = NULL \<or> name = NULL \<or> deref name = [] \<or> capacity < DNS_HEADER_BYTES + 6 then (False, packet, len)
      else
        let header = store (store (deref packet) 0 (replicate DNS_HEADER_BYTES 0)) 5 [1] in
        case query_labels capacity (deref name) header DNS_HEADER_BYTES of (ok, packet1, position) \<Rightarrow>
        if \<not> ok then (False, Ptr packet1, len)
        else
          let dns_class = (if unicast_response then 0x8001 else 0x0001 :: u16) in
          (True, Ptr (store packet1 position ([0] @ put_be16 type @ put_be16 dns_class)), Ptr (position + 5)))"

section \<open>The announcement\<close>

definition airdrop_suffix :: bytes where
  "airdrop_suffix = ascii ''._airdrop._tcp.local''"

definition announcement_writes :: "bytes \<Rightarrow> bytes \<Rightarrow> u16 \<Rightarrow> bytes \<Rightarrow> bytes \<Rightarrow> (dns_writer \<Rightarrow> dns_writer) list" where
  "announcement_writes service_id host_name port txt ipv6 =
     (let instance_bytes = of_nat (1 + length service_id + DNS_AIRDROP_TYPE_NAME_BYTES);
          host_bytes = of_nat (1 + length host_name + DNS_LOCAL_SUFFIX_BYTES) :: u16 in
      [dns_write_u16 0, dns_write_u16 0x8400, dns_write_u16 0, dns_write_u16 1, dns_write_u16 0, dns_write_u16 3,
       dns_write_airdrop_type, dns_write_record_head DNS_TYPE_PTR DNS_CLASS_IN instance_bytes, dns_write_instance service_id,
       dns_write_instance service_id, dns_write_record_head DNS_TYPE_SRV DNS_CLASS_CACHE_FLUSH (6 + host_bytes),
       dns_write_u16 0, dns_write_u16 0, dns_write_u16 port, dns_write_host host_name,
       dns_write_instance service_id, dns_write_record_head DNS_TYPE_TXT DNS_CLASS_CACHE_FLUSH (of_nat (1 + length txt)),
       dns_write_u8 (of_nat (length txt)), dns_write_bytes txt,
       dns_write_host host_name, dns_write_record_head DNS_TYPE_AAAA DNS_CLASS_CACHE_FLUSH 16, dns_write_bytes ipv6])"

definition flags_text :: "u32 \<Rightarrow> bytes" where
  "flags_text flags = ascii ''flags='' @ digits 10 (unat flags)"

definition espdrop_airdrop_mdns_build_announcement ::
  "bytes ptr \<Rightarrow> nat \<Rightarrow> nat ptr \<Rightarrow> bytes ptr \<Rightarrow> bytes ptr \<Rightarrow> u16 \<Rightarrow> u32 \<Rightarrow> bytes ptr \<Rightarrow> bool \<times> bytes ptr \<times> nat ptr" where
  "espdrop_airdrop_mdns_build_announcement packet capacity len service_id host_name port flags ipv6 =
     (if packet = NULL \<or> len = NULL \<or> ipv6 = NULL \<or> port = 0 \<or> flags = 0 \<or> \<not> dns_label_valid service_id \<or>
         \<not> dns_label_valid host_name \<or> capacity < DNS_HEADER_BYTES then (False, packet, len)
      else
        let txt = flags_text flags in
        if length txt \<ge> 32 then (False, packet, len)
        else
          let writer = in_order (announcement_writes (deref service_id) (deref host_name) port txt (deref ipv6))
                         \<lparr>dw_packet = deref packet, dw_capacity = capacity, dw_position = 0, dw_failed = False\<rparr> in
          if dw_failed writer then (False, Ptr (dw_packet writer), Ptr 0)
          else (True, Ptr (dw_packet writer), Ptr (dw_position writer)))"

section \<open>Names\<close>

definition is_airdrop_instance :: "bytes \<Rightarrow> bool" where
  "is_airdrop_instance name \<longleftrightarrow> length name > length airdrop_suffix \<and>
     drop (length name - length airdrop_suffix) name = airdrop_suffix"

definition pointer_target :: "byte \<Rightarrow> byte \<Rightarrow> nat" where
  "pointer_target b c = unat ((push_bit 8 (ucast (b AND 0x3f)) OR ucast c) :: u32)"

text \<open>
  The loop of the decoder: the text so far, the length of the encoding at the first position and
  the number of pointers followed. The inner option is whether the name could be decoded.
\<close>

function decode_name_loop :: "bytes \<Rightarrow> nat \<Rightarrow> nat \<Rightarrow> bytes \<Rightarrow> nat \<Rightarrow> nat \<Rightarrow> bool \<Rightarrow> (bytes \<times> nat) option option" where
  "decode_name_loop packet capacity position text_so_far encoded_length pointers jumped =
     (if position < length packet then do {
        label_length \<leftarrow> rd packet position;
        if label_length AND DNS_POINTER_MASK = DNS_POINTER_VALUE then
          if position + 1 \<ge> length packet \<or> pointers + 1 > DNS_MAX_POINTERS then Some None
          else do {
            low \<leftarrow> rd packet (position + 1);
            let target = pointer_target label_length low;
            if target \<ge> length packet then Some None
            else decode_name_loop packet capacity target text_so_far (if \<not> jumped then encoded_length + 2 else encoded_length)
                   (pointers + 1) True }
        else if label_length AND DNS_POINTER_MASK \<noteq> 0 \<or> label_length > 63 then Some None
        else
          let n = unat label_length; position1 = position + 1;
              encoded1 = (if \<not> jumped then encoded_length + 1 else encoded_length) in
          if label_length = 0 then Some (Some (text_so_far, encoded1))
          else if position1 + n > length packet \<or>
                  length text_so_far + (if length text_so_far = 0 then 0 else 1) + n \<ge> capacity then Some None
          else do {
            label \<leftarrow> rds packet position1 n;
            decode_name_loop packet capacity (position1 + n) ((if length text_so_far \<noteq> 0 then text_so_far @ [46] else text_so_far) @ label)
              (if \<not> jumped then encoded1 + n else encoded1) pointers jumped } }
      else Some None)"
  by pat_completeness auto
termination
  by (relation "measures [\<lambda>(packet, capacity, position, text_so_far, encoded_length, pointers, jumped). Suc DNS_MAX_POINTERS - pointers,
       \<lambda>(packet, capacity, position, text_so_far, encoded_length, pointers, jumped). length packet - position]") auto

declare decode_name_loop.simps [simp del]

text \<open>The output is read as a C string, so a label with a zero byte cuts it.\<close>

definition decode_name :: "bytes \<Rightarrow> nat \<Rightarrow> nat \<Rightarrow> (bytes \<times> nat) option option" where
  "decode_name packet offset capacity =
     (if capacity = 0 \<or> offset \<ge> length packet then Some None
      else do {
        r \<leftarrow> decode_name_loop packet capacity offset [] 0 0 False;
        Some (map_option (\<lambda>(t, consumed). (c_string t, consumed)) r) })"

section \<open>Answering queries\<close>

definition airdrop_type_name :: bytes where
  "airdrop_type_name = ascii ''_airdrop._tcp.local''"

definition question_matches :: "bytes \<Rightarrow> u16 \<Rightarrow> bool" where
  "question_matches name type \<longleftrightarrow>
     (name = airdrop_type_name \<and> (type = DNS_TYPE_PTR \<or> type = 255)) \<or>
     (is_airdrop_instance name \<and> (type = DNS_TYPE_SRV \<or> type = DNS_TYPE_TXT \<or> type = 255))"

text \<open>One question: its name, the offset of its type, and the offset after it.\<close>

definition read_question :: "bytes \<Rightarrow> nat \<Rightarrow> (bytes \<times> nat) option option" where
  "read_question packet offset = do {
     decoded \<leftarrow> decode_name packet offset ESPDROP_MDNS_NAME_BYTES;
     Some (case decoded of
       None \<Rightarrow> None
     | Some (name, consumed) \<Rightarrow> if offset + consumed + 4 > length packet then None else Some (name, offset + consumed)) }"

primrec query_questions :: "bytes \<Rightarrow> nat \<Rightarrow> nat \<Rightarrow> bool \<Rightarrow> bool \<Rightarrow> (bool \<times> bool) option option" where
  "query_questions packet 0 offset matched unicast = Some (Some (matched, unicast))"
| "query_questions packet (Suc k) offset matched unicast = do {
     question \<leftarrow> read_question packet offset;
     case question of
       None \<Rightarrow> Some None
     | Some (name, at1) \<Rightarrow> do {
         type \<leftarrow> read_be16 packet at1;
         dns_class \<leftarrow> read_be16 packet (at1 + 2);
         let hit = question_matches name type;
         query_questions packet k (at1 + 4) (matched \<or> hit) (unicast \<or> hit \<and> dns_class AND 0x8000 \<noteq> 0) } }"

definition espdrop_airdrop_mdns_query_response :: "bytes ptr \<Rightarrow> mdns_query_response option" where
  "espdrop_airdrop_mdns_query_response packet =
     (if packet = NULL \<or> length (deref packet) < DNS_HEADER_BYTES then Some QUERY_RESPONSE_NONE
      else do {
        flags \<leftarrow> read_be16 (deref packet) 2;
        if flags AND 0x8000 \<noteq> 0 then Some QUERY_RESPONSE_NONE
        else do {
          questions \<leftarrow> read_be16 (deref packet) 4;
          if questions = 0 \<or> unat questions > DNS_MAX_RECORDS then Some QUERY_RESPONSE_NONE
          else do {
            r \<leftarrow> query_questions (deref packet) (unat questions) DNS_HEADER_BYTES False False;
            Some (case r of
              None \<Rightarrow> QUERY_RESPONSE_NONE
            | Some (matched, unicast) \<Rightarrow>
                if \<not> matched then QUERY_RESPONSE_NONE
                else if unicast then QUERY_RESPONSE_UNICAST else QUERY_RESPONSE_MULTICAST) } } })"

definition espdrop_airdrop_mdns_query_requests_service :: "bytes ptr \<Rightarrow> bool option" where
  "espdrop_airdrop_mdns_query_requests_service packet =
     map_option (\<lambda>r. r \<noteq> QUERY_RESPONSE_NONE) (espdrop_airdrop_mdns_query_response packet)"

section \<open>Parsing responses\<close>

definition find_service :: "mdns_result \<Rightarrow> bytes \<Rightarrow> bool \<Rightarrow> nat option \<times> mdns_result" where
  "find_service result ins create =
     (case find_index (\<lambda>s. c_string (sv_instance s) = ins) (mr_services result) of
        Some i \<Rightarrow> (Some i, result)
      | None \<Rightarrow>
          if \<not> create \<or> length (mr_services result) \<ge> ESPDROP_MDNS_MAX_SERVICES then (None, result)
          else (Some (length (mr_services result)),
                result\<lparr>mr_services := mr_services result @
                  [mdns_service_zero\<lparr>sv_instance := store (sv_instance mdns_service_zero) 0 (ins @ [0])\<rparr>]\<rparr>))"

definition update_service :: "nat \<Rightarrow> (mdns_service \<Rightarrow> mdns_service) \<Rightarrow> mdns_result \<Rightarrow> mdns_result" where
  "update_service i g result = result\<lparr>mr_services := (mr_services result)[i := g (mr_services result ! i)]\<rparr>"

text \<open>The service of an instance, found or created, is changed; nothing happens when there is no room.\<close>

definition on_service :: "mdns_result \<Rightarrow> bytes \<Rightarrow> (mdns_service \<Rightarrow> mdns_service) \<Rightarrow> mdns_result" where
  "on_service result ins g =
     (case find_service result ins True of
        (None, result1) \<Rightarrow> result1
      | (Some i, result1) \<Rightarrow> update_service i g result1)"

definition printable :: "byte \<Rightarrow> byte" where
  "printable b = (if 0x20 \<le> b \<and> b \<le> 0x7e then b else 63)"

function parse_txt_items :: "nat \<Rightarrow> bytes \<Rightarrow> bytes \<Rightarrow> bool \<times> bytes" where
  "parse_txt_items capacity [] written = (True, written)"
| "parse_txt_items capacity (b # rest) written =
     (let item_length = unat b; separator = (if length written = 0 then 0 else 1) in
      if item_length > length rest then (False, written)
      else if length written + separator + item_length \<ge> capacity then (False, written)
      else parse_txt_items capacity (drop item_length rest)
             ((if separator \<noteq> 0 then written @ [59] else written) @ map printable (take item_length rest)))"
  by pat_completeness auto
termination
  by (relation "measure (\<lambda>(capacity, data, written). length data)") auto

definition parse_txt :: "bytes \<Rightarrow> bytes \<Rightarrow> nat \<Rightarrow> bool \<times> bytes" where
  "parse_txt data output capacity =
     (case parse_txt_items capacity data [] of
        (ok, written) \<Rightarrow> (ok, store output 0 (if ok then written @ [0] else written)))"

primrec skip_questions :: "bytes \<Rightarrow> nat \<Rightarrow> nat \<Rightarrow> nat option option" where
  "skip_questions packet 0 offset = Some (Some offset)"
| "skip_questions packet (Suc k) offset = do {
     question \<leftarrow> read_question packet offset;
     case question of None \<Rightarrow> Some None | Some (name, at1) \<Rightarrow> skip_questions packet k (at1 + 4) }"

definition record_ptr :: "bytes \<Rightarrow> nat \<Rightarrow> nat \<Rightarrow> mdns_result \<Rightarrow> (bool \<times> mdns_result) option" where
  "record_ptr packet offset data_length result = do {
     decoded \<leftarrow> decode_name packet offset ESPDROP_MDNS_NAME_BYTES;
     Some (case decoded of
       None \<Rightarrow> (False, result)
     | Some (ins, consumed) \<Rightarrow>
         if consumed > data_length then (False, result)
         else (True, on_service result ins (\<lambda>s. s\<lparr>sv_has_ptr := True\<rparr>))) }"

definition record_srv :: "bytes \<Rightarrow> nat \<Rightarrow> nat \<Rightarrow> bytes \<Rightarrow> mdns_result \<Rightarrow> (bool \<times> mdns_result) option" where
  "record_srv packet offset data_length owner result = do {
     decoded \<leftarrow> decode_name packet (offset + 6) ESPDROP_MDNS_NAME_BYTES;
     case decoded of
       None \<Rightarrow> Some (False, result)
     | Some (target, consumed) \<Rightarrow>
         if consumed + 6 > data_length then Some (False, result)
         else do {
           port \<leftarrow> read_be16 packet (offset + 4);
           Some (True, on_service result owner (\<lambda>s. s\<lparr>sv_port := port, sv_target := store (sv_target s) 0 (target @ [0]), sv_has_srv := True\<rparr>)) } }"

definition record_txt :: "bytes \<Rightarrow> nat \<Rightarrow> nat \<Rightarrow> bytes \<Rightarrow> mdns_result \<Rightarrow> (bool \<times> mdns_result) option" where
  "record_txt packet offset data_length owner result = do {
     data \<leftarrow> rds packet offset data_length;
     Some (case find_service result owner True of
       (None, result1) \<Rightarrow> (True, result1)
     | (Some i, result1) \<Rightarrow>
         (case parse_txt data (sv_txt (mr_services result1 ! i)) ESPDROP_MDNS_TXT_BYTES of
            (ok, txt) \<Rightarrow> (ok, update_service i (\<lambda>s. s\<lparr>sv_txt := txt, sv_has_txt := ok\<rparr>) result1))) }"

definition record_aaaa :: "bytes \<Rightarrow> nat \<Rightarrow> bytes \<Rightarrow> mdns_result \<Rightarrow> (bool \<times> mdns_result) option" where
  "record_aaaa packet offset owner result = do {
     address \<leftarrow> rds packet offset 16;
     Some (True, result\<lparr>mr_hosts := mr_hosts result @
       [\<lparr>mh_name = store (replicate ESPDROP_MDNS_NAME_BYTES 0) 0 (owner @ [0]), mh_address = address\<rparr>]\<rparr>) }"

definition record_data :: "bytes \<Rightarrow> nat \<Rightarrow> nat \<Rightarrow> bytes \<Rightarrow> u16 \<Rightarrow> mdns_result \<Rightarrow> (bool \<times> mdns_result) option" where
  "record_data packet offset data_length owner type result =
     (if type = DNS_TYPE_PTR \<and> owner = airdrop_type_name then record_ptr packet offset data_length result
      else if type = DNS_TYPE_SRV \<and> data_length \<ge> 7 \<and> is_airdrop_instance owner then record_srv packet offset data_length owner result
      else if type = DNS_TYPE_TXT \<and> is_airdrop_instance owner then record_txt packet offset data_length owner result
      else if type = DNS_TYPE_AAAA \<and> data_length = 16 \<and> length (mr_hosts result) < ESPDROP_MDNS_MAX_HOSTS then
        record_aaaa packet offset owner result
      else Some (True, result))"

text \<open>One record; the new offset, or nothing when the packet is malformed.\<close>

definition parse_record :: "bytes \<Rightarrow> nat \<Rightarrow> mdns_result \<Rightarrow> (nat option \<times> mdns_result) option" where
  "parse_record packet offset result = do {
     decoded \<leftarrow> decode_name packet offset ESPDROP_MDNS_NAME_BYTES;
     case decoded of
       None \<Rightarrow> Some (None, result)
     | Some (owner, owner_bytes) \<Rightarrow>
         if offset + owner_bytes + 10 > length packet then Some (None, result)
         else do {
           type \<leftarrow> read_be16 packet (offset + owner_bytes);
           data_length \<leftarrow> read_be16 packet (offset + owner_bytes + 8);
           let at1 = offset + owner_bytes + 10;
           let n = unat data_length;
           if at1 + n > length packet then Some (None, result)
           else do {
             (ok, result1) \<leftarrow> record_data packet at1 n owner type result;
             Some (if ok then Some (at1 + n) else None, result1) } } }"

primrec parse_records :: "bytes \<Rightarrow> nat \<Rightarrow> nat \<Rightarrow> mdns_result \<Rightarrow> (bool \<times> mdns_result) option" where
  "parse_records packet 0 offset result = Some (True, result)"
| "parse_records packet (Suc k) offset result = do {
     (next_offset, result1) \<leftarrow> parse_record packet offset result;
     case next_offset of None \<Rightarrow> Some (False, result1) | Some o1 \<Rightarrow> parse_records packet k o1 result1 }"

definition host_of :: "mdns_host list \<Rightarrow> mdns_service \<Rightarrow> mdns_host option" where
  "host_of hosts s = find (\<lambda>h. c_string (sv_target s) = c_string (mh_name h)) hosts"

definition link_host :: "mdns_host list \<Rightarrow> mdns_service \<Rightarrow> mdns_service" where
  "link_host hosts s =
     (case host_of hosts s of None \<Rightarrow> s | Some h \<Rightarrow> s\<lparr>sv_ipv6 := mh_address h, sv_has_ipv6 := True\<rparr>)"

definition espdrop_airdrop_mdns_parse :: "bytes ptr \<Rightarrow> mdns_result ptr \<Rightarrow> (bool \<times> mdns_result ptr) option" where
  "espdrop_airdrop_mdns_parse packet result =
     (if packet = NULL \<or> result = NULL \<or> length (deref packet) < DNS_HEADER_BYTES then Some (False, result)
      else
        let f = deref packet in do {
          flags \<leftarrow> read_be16 f 2;
          questions \<leftarrow> read_be16 f 4;
          answers \<leftarrow> read_be16 f 6;
          authority \<leftarrow> read_be16 f 8;
          additional \<leftarrow> read_be16 f 10;
          let r = mdns_result_zero\<lparr>mr_response := (flags AND 0x8000 \<noteq> 0), mr_questions := questions, mr_answers := answers,
                                   mr_authority := authority, mr_additional := additional\<rparr>;
          let record_count = unat answers + unat authority + unat additional;
          if record_count > DNS_MAX_RECORDS \<or> unat questions > DNS_MAX_RECORDS then Some (False, Ptr r)
          else do {
            start \<leftarrow> skip_questions f (unat questions) DNS_HEADER_BYTES;
            case start of
              None \<Rightarrow> Some (False, Ptr r)
            | Some offset \<Rightarrow> do {
                (ok, r1) \<leftarrow> parse_records f record_count offset r;
                if \<not> ok then Some (False, Ptr r1)
                else Some (True, Ptr (r1\<lparr>mr_services := map (link_host (mr_hosts r1)) (mr_services r1)\<rparr>)) } } })"

section \<open>The cache\<close>

definition merge_host :: "mdns_host \<Rightarrow> mdns_result \<Rightarrow> mdns_result" where
  "merge_host incoming destination =
     (case find_index (\<lambda>h. c_string (mh_name h) = c_string (mh_name incoming)) (mr_hosts destination) of
        Some i \<Rightarrow> destination\<lparr>mr_hosts := (mr_hosts destination)[i := incoming]\<rparr>
      | None \<Rightarrow>
          if length (mr_hosts destination) < ESPDROP_MDNS_MAX_HOSTS then destination\<lparr>mr_hosts := mr_hosts destination @ [incoming]\<rparr>
          else destination)"

definition merge_fields :: "mdns_service \<Rightarrow> mdns_service \<Rightarrow> mdns_service" where
  "merge_fields incoming s =
     (let s1 = (if sv_has_ptr incoming then s\<lparr>sv_has_ptr := True\<rparr> else s);
          s2 = (if sv_has_srv incoming
                then s1\<lparr>sv_has_srv := True, sv_port := sv_port incoming, sv_target := store (sv_target s1) 0 (c_string (sv_target incoming) @ [0])\<rparr>
                else s1);
          s3 = (if sv_has_txt incoming then s2\<lparr>sv_has_txt := True, sv_txt := store (sv_txt s2) 0 (c_string (sv_txt incoming) @ [0])\<rparr> else s2) in
      if sv_has_ipv6 incoming then s3\<lparr>sv_has_ipv6 := True, sv_ipv6 := sv_ipv6 incoming\<rparr> else s3)"

definition merge_service :: "mdns_service \<Rightarrow> mdns_result \<Rightarrow> mdns_result" where
  "merge_service incoming destination = on_service destination (c_string (sv_instance incoming)) (merge_fields incoming)"

definition link_missing :: "mdns_host list \<Rightarrow> mdns_service \<Rightarrow> mdns_service" where
  "link_missing hosts s = (if \<not> sv_has_srv s \<or> sv_has_ipv6 s then s else link_host hosts s)"

definition espdrop_airdrop_mdns_merge :: "mdns_result ptr \<Rightarrow> mdns_result ptr \<Rightarrow> mdns_result ptr" where
  "espdrop_airdrop_mdns_merge destination source =
     (if destination = NULL \<or> source = NULL then destination
      else
        let d1 = fold merge_host (mr_hosts (deref source)) (deref destination);
            d2 = fold merge_service (mr_services (deref source)) d1 in
        Ptr (d2\<lparr>mr_services := map (link_missing (mr_hosts d2)) (mr_services d2)\<rparr>))"

definition espdrop_airdrop_service_complete :: "mdns_service ptr \<Rightarrow> bool" where
  "espdrop_airdrop_service_complete service \<longleftrightarrow> service \<noteq> NULL \<and> sv_has_ptr (deref service) \<and> sv_has_srv (deref service) \<and>
     sv_has_txt (deref service) \<and> sv_has_ipv6 (deref service) \<and> sv_port (deref service) \<noteq> 0"

end
