(* ===== verification/Mdns_Cache.thy ===== *)
theory Mdns_Cache
  imports Airdrop_Mdns "HOL-Library.Sublist"
begin

text \<open>
  The parser and the cache of multicast DNS on arbitrary packets: every name decoded fits its
  buffer, every read stays inside the packet, the counted arrays stay bounded with terminated
  strings and distinct instances, and merging never makes a complete service incomplete.
\<close>

section \<open>Strings in arrays\<close>

definition terminated :: "nat \<Rightarrow> bytes \<Rightarrow> bool" where
  "terminated n xs \<longleftrightarrow> length xs = n \<and> 0 < n \<and> xs ! (n - 1) = 0"

lemma terminated_zero [simp]: "0 < n \<Longrightarrow> terminated n (replicate n 0)"
  by (simp add: terminated_def)

lemma terminated_store: "terminated n xs \<Longrightarrow> length s < n \<Longrightarrow> terminated n (store xs 0 (s @ [0]))"
  by (auto simp: terminated_def nth_store nth_append)

lemma c_string_nonzero: "0 \<notin> set (c_string xs)"
  by (auto simp: c_string_def dest: set_takeWhileD)

lemma c_string_self: "0 \<notin> set xs \<Longrightarrow> c_string xs = xs"
  by (auto simp: c_string_def takeWhile_eq_all_conv)

lemma c_string_cut: "0 \<notin> set s \<Longrightarrow> c_string (s @ 0 # ys) = s"
  by (induction s) (auto simp: c_string_def)

lemma c_string_store: "0 \<notin> set s \<Longrightarrow> c_string (store xs 0 (s @ [0])) = s"
  by (simp add: store_def c_string_cut)

lemma length_c_string: "length (c_string xs) \<le> length xs"
  by (simp add: c_string_def length_takeWhile_le)

lemma c_string_terminated: "terminated n xs \<Longrightarrow> length (c_string xs) < n"
proof -
  assume t: "terminated n xs"
  then have "0 \<in> set xs" using nth_mem [of "n - 1" xs] by (auto simp: terminated_def)
  then have "length (takeWhile (\<lambda>b. b \<noteq> 0) xs) < length xs"
    by (induction xs) auto
  then show ?thesis using t by (simp add: c_string_def terminated_def)
qed

section \<open>Names fit\<close>

lemma decode_name_loop_returns:
  "length t < capacity \<Longrightarrow>
     returns (decode_name_loop packet capacity position t encoded pointers jumped) (\<lambda>r. \<forall>t' n. r = Some (t', n) \<longrightarrow> length t' < capacity)"
proof (induction packet capacity position t encoded pointers jumped rule: decode_name_loop.induct)
  case (1 packet capacity position t encoded pointers jumped)
  show ?case
  proof (cases "position < length packet")
    case False
    then show ?thesis by (subst decode_name_loop.simps) (simp add: returns_def)
  next
    case True
    show ?thesis
      by (subst decode_name_loop.simps)
        (use True 1 in \<open>auto simp: Let_def rd_in rds_in returns_def split: if_splits\<close>)
  qed
qed

definition a_name :: "bytes \<Rightarrow> bool" where
  "a_name t \<longleftrightarrow> length t < ESPDROP_MDNS_NAME_BYTES \<and> 0 \<notin> set t"

lemma decode_name_returns:
  "returns (decode_name packet offset ESPDROP_MDNS_NAME_BYTES) (\<lambda>r. \<forall>t n. r = Some (t, n) \<longrightarrow> a_name t)"
proof (cases "offset \<ge> length packet")
  case True
  then show ?thesis by (simp add: decode_name_def returns_def)
next
  case False
  have "returns (decode_name_loop packet ESPDROP_MDNS_NAME_BYTES offset [] 0 0 False)
      (\<lambda>r. \<forall>t' n. r = Some (t', n) \<longrightarrow> length t' < ESPDROP_MDNS_NAME_BYTES)"
    by (rule decode_name_loop_returns) (simp add: ESPDROP_MDNS_NAME_BYTES_def)
  then show ?thesis
    using False c_string_nonzero le_less_trans [OF length_c_string]
    by (auto simp: decode_name_def returns_def a_name_def ESPDROP_MDNS_NAME_BYTES_def)
qed

section \<open>Well-formed results\<close>

definition service_wf :: "mdns_service \<Rightarrow> bool" where
  "service_wf s \<longleftrightarrow> terminated ESPDROP_MDNS_NAME_BYTES (sv_instance s) \<and> terminated ESPDROP_MDNS_NAME_BYTES (sv_target s) \<and>
     terminated ESPDROP_MDNS_TXT_BYTES (sv_txt s) \<and> length (sv_ipv6 s) = 16"

definition host_wf :: "mdns_host \<Rightarrow> bool" where
  "host_wf h \<longleftrightarrow> terminated ESPDROP_MDNS_NAME_BYTES (mh_name h) \<and> length (mh_address h) = 16"

definition instances :: "mdns_result \<Rightarrow> bytes list" where
  "instances r = map (\<lambda>s. c_string (sv_instance s)) (mr_services r)"

definition mdns_wf :: "mdns_result \<Rightarrow> bool" where
  "mdns_wf r \<longleftrightarrow> length (mr_services r) \<le> ESPDROP_MDNS_MAX_SERVICES \<and> length (mr_hosts r) \<le> ESPDROP_MDNS_MAX_HOSTS \<and>
     list_all service_wf (mr_services r) \<and> list_all host_wf (mr_hosts r) \<and> distinct (instances r)"

lemmas mdns_sizes = ESPDROP_MDNS_NAME_BYTES_def ESPDROP_MDNS_TXT_BYTES_def ESPDROP_MDNS_MAX_SERVICES_def ESPDROP_MDNS_MAX_HOSTS_def

lemma mdns_wf_zero: "mdns_wf mdns_result_zero"
  by (simp add: mdns_wf_def mdns_result_zero_def instances_def mdns_sizes)

text \<open>The header fields do not matter.\<close>

lemma mdns_wf_fields [simp]: "mdns_wf (r\<lparr>mr_questions := a\<rparr>) = mdns_wf r" "mdns_wf (r\<lparr>mr_answers := a\<rparr>) = mdns_wf r"
  "mdns_wf (r\<lparr>mr_authority := a\<rparr>) = mdns_wf r" "mdns_wf (r\<lparr>mr_additional := a\<rparr>) = mdns_wf r" "mdns_wf (r\<lparr>mr_response := b\<rparr>) = mdns_wf r"
  by (simp_all add: mdns_wf_def instances_def)

lemma new_service_wf: "a_name ins \<Longrightarrow> service_wf (mdns_service_zero\<lparr>sv_instance := store (sv_instance mdns_service_zero) 0 (ins @ [0])\<rparr>)"
  by (auto simp: service_wf_def mdns_service_zero_def a_name_def mdns_sizes intro: terminated_store)

text \<open>Finding or creating a service: the entry has the name, and nothing else changed.\<close>

lemma find_service_wf:
  assumes "mdns_wf r" "a_name ins" "find_service r ins create = (i, r')"
  shows "mdns_wf r' \<and> prefix (mr_services r) (mr_services r') \<and> mr_hosts r' = mr_hosts r \<and>
    (\<forall>k. i = Some k \<longrightarrow> k < length (mr_services r') \<and> c_string (sv_instance (mr_services r' ! k)) = ins)"
proof (cases "find_index (\<lambda>s. c_string (sv_instance s) = ins) (mr_services r)")
  case None
  have "c_string (store (replicate ESPDROP_MDNS_NAME_BYTES 0) 0 (ins @ [0])) = ins"
    using assms(2) by (simp add: a_name_def c_string_store)
  moreover have "ins \<notin> set (instances r)" using None by (auto simp: find_index_None instances_def)
  ultimately show ?thesis
    using assms None new_service_wf [OF assms(2)]
    by (auto simp: find_service_def mdns_wf_def instances_def nth_append mdns_service_zero_def [THEN arg_cong, of sv_instance] split: if_splits)
next
  case (Some k)
  then show ?thesis using assms find_index_SomeD [OF Some] by (auto simp: find_service_def)
qed

lemma update_service_wf:
  assumes "mdns_wf r" "i < length (mr_services r)" "service_wf (g (mr_services r ! i))"
    "sv_instance (g (mr_services r ! i)) = sv_instance (mr_services r ! i)"
  shows "mdns_wf (update_service i g r)"
proof -
  have "instances (update_service i g r) = instances r"
    using assms(2,4) by (auto simp: instances_def update_service_def map_update list_update_same_conv)
  then show ?thesis
    using assms(1-3)
    by (auto simp: mdns_wf_def update_service_def list_all_iff dest!: subsetD [OF set_update_subset_insert])
qed

lemma service_wf_nth: "mdns_wf r \<Longrightarrow> i < length (mr_services r) \<Longrightarrow> service_wf (mr_services r ! i)"
  by (simp add: mdns_wf_def list_all_length)

lemma on_service_wf:
  assumes "mdns_wf r" "a_name ins" "\<And>s. service_wf s \<Longrightarrow> service_wf (g s) \<and> sv_instance (g s) = sv_instance s"
  shows "mdns_wf (on_service r ins g)"
  using assms find_service_wf [OF assms(1,2)] update_service_wf service_wf_nth
  by (auto simp: on_service_def split: prod.split option.split)

section \<open>Parsing keeps results well formed\<close>

lemma parse_txt_items_length: "length w < capacity \<Longrightarrow> length (snd (parse_txt_items capacity data w)) < capacity"
  by (induction capacity data w rule: parse_txt_items.induct) (auto simp: Let_def)

lemma parse_txt_terminated:
  assumes "terminated n out" "parse_txt data out n = (ok, out')"
  shows "terminated n out'"
proof -
  obtain w where w: "parse_txt_items n data [] = (ok, w)" using assms(2) by (auto simp: parse_txt_def split: prod.splits)
  have "length w < n" using parse_txt_items_length [of "[]" n data] w assms(1) by (simp add: terminated_def)
  then show ?thesis
    using assms w by (auto simp: parse_txt_def terminated_def nth_store nth_append)
qed

lemma decode_name_cases:
  obtains (bad) "decode_name packet offset ESPDROP_MDNS_NAME_BYTES = Some None"
  | (good) t n where "decode_name packet offset ESPDROP_MDNS_NAME_BYTES = Some (Some (t, n))" "a_name t"
  using decode_name_returns [of packet offset] by (auto simp: returns_def) (metis not_None_eq prod.collapse)

lemma read_question_returns:
  "returns (read_question packet offset) (\<lambda>r. \<forall>t n. r = Some (t, n) \<longrightarrow> n + 4 \<le> length packet)"
  by (cases rule: decode_name_cases [of packet offset]) (auto simp: read_question_def returns_def)

lemma skip_questions_returns: "returns (skip_questions packet k offset) (\<lambda>_. True)"
proof (induction k arbitrary: offset)
  case (Suc k)
  obtain q where "read_question packet offset = Some q" using read_question_returns [of packet offset] by (auto simp: returns_def)
  then show ?case using Suc by (auto simp: returns_def split: option.split)
qed (simp add: returns_def)

lemma query_questions_returns: "returns (query_questions packet k offset matched unicast) (\<lambda>_. True)"
proof (induction k arbitrary: offset matched unicast)
  case (Suc k)
  obtain q where q: "read_question packet offset = Some q" "\<forall>t n. q = Some (t, n) \<longrightarrow> n + 4 \<le> length packet"
    using read_question_returns [of packet offset] by (auto simp: returns_def)
  show ?case
  proof (cases q)
    case None
    then show ?thesis using q by (simp add: returns_def)
  next
    case (Some tn)
    then obtain t n where tn: "q = Some (t, n)" "n + 4 \<le> length packet" using q(2) by (cases tn) auto
    obtain a b where "read_be16 packet n = Some a" "read_be16 packet (n + 2) = Some b"
      using be16.dec_defined [of n packet] be16.dec_defined [of "n + 2" packet] tn(2) by auto
    then show ?thesis using q tn Suc by (simp add: Let_def)
  qed
qed (simp add: returns_def)

lemma record_data_wf:
  assumes wf: "mdns_wf r" and owner: "a_name owner" and fits: "offset + n \<le> length packet"
  shows "returns (record_data packet offset n owner type r) (\<lambda>(ok, r'). mdns_wf r')"
proof -
  have ptr: "returns (record_ptr packet offset n r) (\<lambda>(ok, r'). mdns_wf r')"
    by (cases rule: decode_name_cases [of packet offset])
      (auto simp: record_ptr_def returns_def service_wf_def intro!: wf on_service_wf [OF wf])
  have srv: "returns (record_srv packet offset n owner r) (\<lambda>(ok, r'). mdns_wf r')" if n: "7 \<le> n"
  proof -
    obtain port where "read_be16 packet (offset + 4) = Some port" using be16.dec_defined [of "offset + 4" packet] n fits by auto
    then show ?thesis
      by (cases rule: decode_name_cases [of packet "offset + 6"])
        (auto simp: record_srv_def returns_def service_wf_def a_name_def intro!: wf on_service_wf [OF wf owner] terminated_store)
  qed
  have text1: "returns (record_txt packet offset n owner r) (\<lambda>(ok, r'). mdns_wf r')"
  proof -
    obtain i r1 where f: "find_service r owner True = (i, r1)" by force
    note r1 = find_service_wf [OF wf owner f]
    show ?thesis
    proof (cases i)
      case None
      then show ?thesis using f r1 fits by (simp add: record_txt_def rds_in returns_def)
    next
      case (Some k)
      obtain ok t where t: "parse_txt (take n (drop offset packet)) (sv_txt (mr_services r1 ! k)) ESPDROP_MDNS_TXT_BYTES = (ok, t)" by force
      have s: "service_wf (mr_services r1 ! k)" using service_wf_nth r1 Some by blast
      have "mdns_wf (update_service k (\<lambda>s. s\<lparr>sv_txt := t, sv_has_txt := ok\<rparr>) r1)"
        by (rule update_service_wf) (use r1 Some s parse_txt_terminated [OF _ t] in \<open>auto simp: service_wf_def\<close>)
      then show ?thesis using Some f t fits by (simp add: record_txt_def rds_in returns_def)
    qed
  qed
  have aaaa: "returns (record_aaaa packet offset owner r) (\<lambda>(ok, r'). mdns_wf r')" if "n = 16" "length (mr_hosts r) < ESPDROP_MDNS_MAX_HOSTS"
  proof -
    have "terminated ESPDROP_MDNS_NAME_BYTES (store (replicate ESPDROP_MDNS_NAME_BYTES 0) 0 (owner @ [0]))"
      using owner by (intro terminated_store) (simp_all add: a_name_def mdns_sizes)
    then show ?thesis
      using that fits wf by (auto simp: record_aaaa_def rds_in returns_def mdns_wf_def host_wf_def instances_def)
  qed
  show ?thesis
    unfolding record_data_def using ptr srv text1 aaaa wf by (auto intro!: ok_if ok_Some)
qed

lemma parse_record_wf:
  assumes "mdns_wf r"
  shows "returns (parse_record packet offset r) (\<lambda>(o1, r'). mdns_wf r')"
proof (cases rule: decode_name_cases [of packet offset])
  case bad
  then show ?thesis using assms by (simp add: parse_record_def returns_def)
next
  case (good owner k)
  show ?thesis
  proof (cases "offset + k + 10 > length packet")
    case True
    then show ?thesis using good assms by (simp add: parse_record_def returns_def)
  next
    case False
    obtain t n where h: "read_be16 packet (offset + k) = Some t" "read_be16 packet (offset + k + 8) = Some n"
      using be16.dec_defined [of "offset + k" packet] be16.dec_defined [of "offset + k + 8" packet] False by auto
    show ?thesis
    proof (cases "offset + k + 10 + unat n > length packet")
      case True
      then show ?thesis using good h False assms by (simp add: parse_record_def returns_def)
    next
      case fits: False
      then have "returns (record_data packet (offset + k + 10) (unat n) owner t r) (\<lambda>(ok, r'). mdns_wf r')"
        by (intro record_data_wf [OF assms good(2)]) simp
      then show ?thesis using good h False fits by (auto simp: parse_record_def returns_def)
    qed
  qed
qed

lemma parse_records_wf: "mdns_wf r \<Longrightarrow> returns (parse_records packet k offset r) (\<lambda>(ok, r'). mdns_wf r')"
proof (induction k arbitrary: offset r)
  case (Suc k)
  show ?case
    unfolding parse_records.simps
    by (rule ok_bind [OF parse_record_wf [OF Suc.prems]]) (auto intro: Suc.IH ok_Some split: option.split)
qed (simp add: returns_def)

text \<open>Linking services to hosts.\<close>

lemma link_host_keeps: "sv_instance (link_host hosts s) = sv_instance s" "sv_has_ptr (link_host hosts s) = sv_has_ptr s"
  "sv_has_srv (link_host hosts s) = sv_has_srv s" "sv_has_txt (link_host hosts s) = sv_has_txt s" "sv_port (link_host hosts s) = sv_port s"
  "sv_has_ipv6 s \<Longrightarrow> sv_has_ipv6 (link_host hosts s)"
  by (auto simp: link_host_def split: option.split)

lemma link_host_wf: "service_wf s \<Longrightarrow> list_all host_wf hosts \<Longrightarrow> service_wf (link_host hosts s)"
  by (auto simp: link_host_def host_of_def service_wf_def host_wf_def list_all_iff find_Some_iff split: option.split)

lemma link_all_wf:
  assumes "mdns_wf r" "\<And>s. link s = s \<or> link s = link_host (mr_hosts r) s"
  shows "mdns_wf (r\<lparr>mr_services := map link (mr_services r)\<rparr>)"
proof -
  have "sv_instance (link s) = sv_instance s" "service_wf s \<Longrightarrow> service_wf (link s)" for s
    using assms(2) [of s] link_host_keeps(1) link_host_wf [of s "mr_hosts r"] assms(1) by (auto simp: mdns_wf_def)
  then show ?thesis using assms(1) by (auto simp: mdns_wf_def instances_def list_all_iff comp_def)
qed

lemma mdns_parse_wf:
  assumes "DNS_HEADER_BYTES \<le> length packet"
  shows "\<exists>ok r'. espdrop_airdrop_mdns_parse (Ptr packet) (Ptr r) = Some (ok, Ptr r') \<and> mdns_wf r'"
proof -
  obtain fl qs an au ad where h: "read_be16 packet 2 = Some fl" "read_be16 packet 4 = Some qs" "read_be16 packet 6 = Some an"
    "read_be16 packet 8 = Some au" "read_be16 packet 10 = Some ad"
    using be16.dec_defined [of 2 packet] be16.dec_defined [of 4 packet] be16.dec_defined [of 6 packet] be16.dec_defined [of 8 packet]
      be16.dec_defined [of 10 packet] assms by (auto simp: DNS_HEADER_BYTES_def)
  obtain start where q: "skip_questions packet (unat qs) DNS_HEADER_BYTES = Some start"
    using skip_questions_returns by (fastforce simp: returns_def)
  define r0 where "r0 = mdns_result_zero\<lparr>mr_response := (fl AND 0x8000 \<noteq> 0), mr_questions := qs, mr_answers := an, mr_authority := au, mr_additional := ad\<rparr>"
  have r0: "mdns_wf r0" by (simp add: r0_def mdns_wf_zero)
  show ?thesis
  proof (cases "start = None \<or> unat an + unat au + unat ad > DNS_MAX_RECORDS \<or> unat qs > DNS_MAX_RECORDS")
    case True
    then show ?thesis using h q r0 assms by (auto simp: espdrop_airdrop_mdns_parse_def Let_def r0_def)
  next
    case False
    then obtain o1 where o1: "start = Some o1" by (cases start) auto
    obtain ok r1 where r1: "parse_records packet (unat an + unat au + unat ad) o1 r0 = Some (ok, r1)" "mdns_wf r1"
      using parse_records_wf [OF r0] by (fastforce simp: returns_def)
    then show ?thesis
      using False o1 h q assms link_all_wf [OF r1(2), of "link_host (mr_hosts r1)"]
      by (auto simp: espdrop_airdrop_mdns_parse_def Let_def r0_def [symmetric])
  qed
qed

lemma mdns_query_total: "\<exists>answer. espdrop_airdrop_mdns_query_response packet = Some answer"
proof (cases "packet = NULL \<or> length (deref packet) < DNS_HEADER_BYTES")
  case True
  then show ?thesis by (simp add: espdrop_airdrop_mdns_query_response_def)
next
  case False
  then obtain fl qs where "read_be16 (deref packet) 2 = Some fl" "read_be16 (deref packet) 4 = Some qs"
    using be16.dec_defined [of 2 "deref packet"] be16.dec_defined [of 4 "deref packet"] by (auto simp: DNS_HEADER_BYTES_def)
  moreover obtain x where "query_questions (deref packet) (unat qs) DNS_HEADER_BYTES False False = Some x"
    using query_questions_returns by (fastforce simp: returns_def)
  ultimately show ?thesis using False by (simp add: espdrop_airdrop_mdns_query_response_def)
qed

section \<open>The cache only learns\<close>

text \<open>
  What a service keeps when services \<open>X\<close> are merged into it. Its port may only become zero through
  an incoming SRV record of the same instance that has port zero.
\<close>

definition keeps :: "mdns_service set \<Rightarrow> mdns_service \<Rightarrow> mdns_service \<Rightarrow> bool" where
  "keeps X s s' \<longleftrightarrow> sv_instance s' = sv_instance s \<and> (sv_has_ptr s \<longrightarrow> sv_has_ptr s') \<and> (sv_has_srv s \<longrightarrow> sv_has_srv s') \<and>
     (sv_has_txt s \<longrightarrow> sv_has_txt s') \<and> (sv_has_ipv6 s \<longrightarrow> sv_has_ipv6 s') \<and>
     ((\<forall>x\<in>X. c_string (sv_instance x) = c_string (sv_instance s) \<and> sv_has_srv x \<longrightarrow> sv_port x \<noteq> 0) \<longrightarrow> sv_port s \<noteq> 0 \<longrightarrow> sv_port s' \<noteq> 0)"

lemma keeps_refl: "keeps X s s"
  by (simp add: keeps_def)

lemma keeps_trans: "keeps X a b \<Longrightarrow> keeps Y b c \<Longrightarrow> X \<subseteq> Z \<Longrightarrow> Y \<subseteq> Z \<Longrightarrow> keeps Z a c"
  unfolding keeps_def by (intro conjI impI; (elim conjE)?; simp add: subset_iff)

lemma keeps_complete:
  "keeps X s s' \<Longrightarrow> espdrop_airdrop_service_complete (Ptr s) \<Longrightarrow>
     (\<forall>x\<in>X. c_string (sv_instance x) = c_string (sv_instance s) \<and> sv_has_srv x \<longrightarrow> sv_port x \<noteq> 0) \<Longrightarrow>
     espdrop_airdrop_service_complete (Ptr s')"
  by (auto simp: keeps_def espdrop_airdrop_service_complete_def)

lemma merge_fields_keeps: "c_string (sv_instance s) = c_string (sv_instance x) \<Longrightarrow> keeps {x} s (merge_fields x s)"
  by (auto simp: keeps_def merge_fields_def Let_def)

lemma merge_fields_wf: "service_wf x \<Longrightarrow> service_wf s \<Longrightarrow> service_wf (merge_fields x s) \<and> sv_instance (merge_fields x s) = sv_instance s"
  by (auto simp: service_wf_def merge_fields_def Let_def intro: terminated_store c_string_terminated)

lemma merge_host_wf: "host_wf h \<Longrightarrow> mdns_wf d \<Longrightarrow> mdns_wf (merge_host h d) \<and> mr_services (merge_host h d) = mr_services d"
  by (auto simp: merge_host_def mdns_wf_def instances_def list_all_iff split: option.split dest!: subsetD [OF set_update_subset_insert])

lemma merge_service_wf:
  assumes x: "service_wf x" and d: "mdns_wf d"
  shows "mdns_wf (merge_service x d) \<and> mr_hosts (merge_service x d) = mr_hosts d \<and> length (mr_services d) \<le> length (mr_services (merge_service x d)) \<and>
    (\<forall>i<length (mr_services d). keeps {x} (mr_services d ! i) (mr_services (merge_service x d) ! i))"
proof -
  have n: "a_name (c_string (sv_instance x))"
    using x c_string_terminated c_string_nonzero by (auto simp: a_name_def service_wf_def)
  obtain k d1 where f: "find_service d (c_string (sv_instance x)) True = (k, d1)" by force
  note d1 = find_service_wf [OF d n f]
  have old: "mr_services d1 ! i = mr_services d ! i" "length (mr_services d) \<le> length (mr_services d1)" if "i < length (mr_services d)" for i
    using d1 that by (auto simp: prefix_def nth_append)
  have wf: "mdns_wf (merge_service x d)"
    unfolding merge_service_def using merge_fields_wf [OF x] by (intro on_service_wf [OF d n]) blast
  show ?thesis
  proof (cases k)
    case None
    then have m: "merge_service x d = d1" using f by (simp add: merge_service_def on_service_def)
    show ?thesis using wf d1 old keeps_refl prefix_length_le unfolding m by metis
  next
    case (Some j)
    then have m: "merge_service x d = update_service j (merge_fields x) d1" using f by (simp add: merge_service_def on_service_def)
    have "keeps {x} (mr_services d ! i) (mr_services (merge_service x d) ! i)" if "i < length (mr_services d)" for i
      using that old [OF that] d1 Some merge_fields_keeps [of "mr_services d ! i" x]
      by (auto simp: m update_service_def nth_list_update keeps_refl)
    then show ?thesis using wf d1 prefix_length_le by (auto simp: m update_service_def)
  qed
qed

lemma merge_services_wf:
  "list_all service_wf xs \<Longrightarrow> mdns_wf d \<Longrightarrow> set xs \<subseteq> X \<Longrightarrow>
     mdns_wf (fold merge_service xs d) \<and> length (mr_services d) \<le> length (mr_services (fold merge_service xs d)) \<and>
     (\<forall>i<length (mr_services d). keeps X (mr_services d ! i) (mr_services (fold merge_service xs d) ! i))"
proof (induction xs arbitrary: d)
  case (Cons x xs)
  note step = merge_service_wf [of x d]
  have IH: "mdns_wf (fold merge_service xs (merge_service x d)) \<and>
      length (mr_services (merge_service x d)) \<le> length (mr_services (fold merge_service xs (merge_service x d))) \<and>
      (\<forall>i<length (mr_services (merge_service x d)).
        keeps X (mr_services (merge_service x d) ! i) (mr_services (fold merge_service xs (merge_service x d)) ! i))"
    by (rule Cons.IH) (use Cons.prems step in auto)
  have x: "service_wf x" "{x} \<subseteq> X" using Cons.prems by simp_all
  have "keeps X (mr_services d ! i) (mr_services (fold merge_service (x # xs) d) ! i)" if i: "i < length (mr_services d)" for i
  proof -
    have a: "keeps {x} (mr_services d ! i) (mr_services (merge_service x d) ! i)" and l: "i < length (mr_services (merge_service x d))"
      using step [OF x(1) Cons.prems(2)] i by auto
    have b: "keeps X (mr_services (merge_service x d) ! i) (mr_services (fold merge_service xs (merge_service x d)) ! i)"
      using IH l by blast
    show ?thesis using keeps_trans [OF a b x(2) subset_refl] by simp
  qed
  then show ?case using IH step Cons.prems by auto
qed (simp add: keeps_refl)

lemma merge_hosts_wf:
  "list_all host_wf hs \<Longrightarrow> mdns_wf d \<Longrightarrow> mdns_wf (fold merge_host hs d) \<and> mr_services (fold merge_host hs d) = mr_services d"
  by (induction hs arbitrary: d) (use merge_host_wf in auto)

lemma mdns_merge_wf:
  assumes d: "mdns_wf d" and r: "mdns_wf r"
  shows "\<exists>d'. espdrop_airdrop_mdns_merge (Ptr d) (Ptr r) = Ptr d' \<and> mdns_wf d' \<and> length (mr_services d) \<le> length (mr_services d') \<and>
    (\<forall>i<length (mr_services d). keeps (set (mr_services r)) (mr_services d ! i) (mr_services d' ! i))"
proof -
  define d1 where "d1 = fold merge_host (mr_hosts r) d"
  define d2 where "d2 = fold merge_service (mr_services r) d1"
  have parts: "list_all host_wf (mr_hosts r)" "list_all service_wf (mr_services r)" using r by (simp_all add: mdns_wf_def)
  have d1: "mdns_wf d1" "mr_services d1 = mr_services d"
    using merge_hosts_wf [OF parts(1) d] by (simp_all add: d1_def)
  have d2: "mdns_wf d2" "length (mr_services d) \<le> length (mr_services d2)"
    "\<forall>i<length (mr_services d). keeps (set (mr_services r)) (mr_services d ! i) (mr_services d2 ! i)"
    using merge_services_wf [OF parts(2) d1(1) subset_refl] d1(2) by (simp_all add: d2_def)
  have "keeps (set (mr_services r)) s (link_missing hosts s)" for hosts s
    by (simp add: link_missing_def keeps_def link_host_keeps)
  then have "keeps (set (mr_services r)) (mr_services d ! i) (link_missing hosts (mr_services d2 ! i))" if "i < length (mr_services d)" for i hosts
    using d2(3) that keeps_trans by blast
  moreover have "mdns_wf (d2\<lparr>mr_services := map (link_missing (mr_hosts d2)) (mr_services d2)\<rparr>)"
    by (rule link_all_wf [OF d2(1)]) (simp add: link_missing_def)
  ultimately show ?thesis
    using d2(2) by (auto simp: espdrop_airdrop_mdns_merge_def Let_def d1_def [symmetric] d2_def [symmetric])
qed

text \<open>The caches that arise from merging what was parsed from received packets.\<close>

inductive cache_reachable :: "mdns_result \<Rightarrow> bool" where
  start: "cache_reachable mdns_result_zero"
| merged: "cache_reachable d \<Longrightarrow> espdrop_airdrop_mdns_parse (Ptr packet) (Ptr r) = Some (True, Ptr r') \<Longrightarrow>
    espdrop_airdrop_mdns_merge (Ptr d) (Ptr r') = Ptr d' \<Longrightarrow> cache_reachable d'"

lemma parsed_wf: "espdrop_airdrop_mdns_parse (Ptr packet) (Ptr r) = Some (True, Ptr r') \<Longrightarrow> mdns_wf r'"
  using mdns_parse_wf [of packet r] by (cases "length packet < DNS_HEADER_BYTES") (auto simp: espdrop_airdrop_mdns_parse_def)

lemma cache_reachable_wf: "cache_reachable d \<Longrightarrow> mdns_wf d"
proof (induction rule: cache_reachable.induct)
  case (merged d packet r r' d')
  then show ?case using mdns_merge_wf [OF merged.IH parsed_wf [OF merged(2)]] by auto
qed (rule mdns_wf_zero)

lemma mdns_parse_total: "\<exists>ok r'. espdrop_airdrop_mdns_parse (Ptr packet) (Ptr r) = Some (ok, Ptr r')"
  using mdns_parse_wf [of packet r] by (cases "length packet < DNS_HEADER_BYTES") (auto simp: espdrop_airdrop_mdns_parse_def)

text \<open>
  C38. The service cache is safe and only learns. In every cache that arises from received packets,
  the arrays are within their sizes, every string ends inside its array and no two services have the
  same instance. On any further packet the parser returns without reading outside it, and when it
  accepts, merging gives such a cache again, in which every known service is at its place with all
  it had; a complete service stays complete unless the packet has an SRV record of it with port zero.
\<close>

theorem mdns_cache_learns:
  assumes "cache_reachable d"
  shows "mdns_wf d \<and>
    (\<exists>ok r'. espdrop_airdrop_mdns_parse (Ptr packet) (Ptr r) = Some (ok, Ptr r') \<and>
      (ok \<longrightarrow> (\<exists>d'. espdrop_airdrop_mdns_merge (Ptr d) (Ptr r') = Ptr d' \<and> cache_reachable d' \<and>
        (\<forall>i<length (mr_services d). keeps (set (mr_services r')) (mr_services d ! i) (mr_services d' ! i) \<and>
          (espdrop_airdrop_service_complete (Ptr (mr_services d ! i)) \<and>
           (\<forall>x\<in>set (mr_services r'). c_string (sv_instance x) = c_string (sv_instance (mr_services d ! i)) \<and> sv_has_srv x \<longrightarrow> sv_port x \<noteq> 0) \<longrightarrow>
           espdrop_airdrop_service_complete (Ptr (mr_services d' ! i)))))))"
proof -
  have d: "mdns_wf d" by (rule cache_reachable_wf [OF assms])
  obtain ok r' where p: "espdrop_airdrop_mdns_parse (Ptr packet) (Ptr r) = Some (ok, Ptr r')" using mdns_parse_total by blast
  have "\<exists>d'. espdrop_airdrop_mdns_merge (Ptr d) (Ptr r') = Ptr d' \<and> cache_reachable d' \<and>
      (\<forall>i<length (mr_services d). keeps (set (mr_services r')) (mr_services d ! i) (mr_services d' ! i))" if ok
  proof -
    have p1: "espdrop_airdrop_mdns_parse (Ptr packet) (Ptr r) = Some (True, Ptr r')" using p that by simp
    show ?thesis using mdns_merge_wf [OF d parsed_wf [OF p1]] cache_reachable.merged [OF assms p1] by blast
  qed
  then show ?thesis using d p keeps_complete by blast
qed

end
