(* ===== verification/Mdns_Announce.thy ===== *)
theory Mdns_Announce
  imports Mdns_Cache
begin

text \<open>
  What the announcement writer produces and the parser makes of it: names without pointers decode to
  their labels, records parse to what they carry, and a built announcement is one complete service.
\<close>

section \<open>Encoded names\<close>

definition name_bytes :: "bytes list \<Rightarrow> bytes" where
  "name_bytes ls = concat (map (\<lambda>l. of_nat (length l) # l) ls) @ [0]"

definition plain_label :: "bytes \<Rightarrow> bool" where
  "plain_label l \<longleftrightarrow> l \<noteq> [] \<and> length l \<le> 63 \<and> 0 \<notin> set l"

definition dotted_onto :: "bytes \<Rightarrow> bytes list \<Rightarrow> bytes" where
  "dotted_onto t ls = foldl (\<lambda>t l. (if length t \<noteq> 0 then t @ [46] else t) @ l) t ls"

abbreviation dotted :: "bytes list \<Rightarrow> bytes" where
  "dotted \<equiv> dotted_onto []"

lemma dotted_onto_simps [simp]: "dotted_onto t [] = t"
  "dotted_onto t (l # ls) = dotted_onto ((if length t \<noteq> 0 then t @ [46] else t) @ l) ls"
  by (simp_all add: dotted_onto_def)

lemma name_bytes_simps: "name_bytes [] = [0]" "name_bytes (l # ls) = of_nat (length l) # l @ name_bytes ls"
  by (simp_all add: name_bytes_def)

lemma length_dotted_onto: "length t \<le> length (dotted_onto t ls)"
proof (induction ls arbitrary: t)
  case (Cons l ls)
  show ?case using Cons [of "(if length t \<noteq> 0 then t @ [46] else t) @ l"] by (auto split: if_splits)
qed simp

lemma dotted_onto_nonzero: "0 \<notin> set t \<Longrightarrow> list_all plain_label ls \<Longrightarrow> 0 \<notin> set (dotted_onto t ls)"
  by (induction ls arbitrary: t) (auto simp: plain_label_def)

lemma label_byte:
  assumes "n \<le> 63"
  shows "(of_nat n :: byte) AND DNS_POINTER_MASK = 0" "unat (of_nat n :: byte) = n" "\<not> (63 :: byte) < of_nat n" "0 < n \<Longrightarrow> (of_nat n :: byte) \<noteq> 0"
proof -
  show u: "unat (of_nat n :: byte) = n" using assms by (simp add: unat_of_nat)
  have "(of_nat n :: byte) = take_bit 6 (of_nat n)" using assms by (simp add: take_bit_of_nat take_bit_nat_def)
  then have "(of_nat n :: byte) AND DNS_POINTER_MASK = of_nat n AND (mask 6 AND DNS_POINTER_MASK)"
    by (metis and.assoc take_bit_eq_mask)
  also have "mask 6 AND DNS_POINTER_MASK = 0" by (simp add: DNS_POINTER_MASK_def mask_eq_exp_minus_1)
  finally show "(of_nat n :: byte) AND DNS_POINTER_MASK = 0" by simp
  show "\<not> (63 :: byte) < of_nat n" using assms u by (simp add: word_less_nat_alt)
  show "0 < n \<Longrightarrow> (of_nat n :: byte) \<noteq> 0" using u by (metis unat_0 less_irrefl)
qed

lemma decode_plain_loop:
  "list_all plain_label ls \<Longrightarrow> length (dotted_onto t ls) < capacity \<Longrightarrow>
     decode_name_loop (pre @ name_bytes ls @ post) capacity (length pre) t e k False =
       Some (Some (dotted_onto t ls, e + length (name_bytes ls)))"
proof (induction ls arbitrary: pre t e)
  case Nil
  then show ?case by (subst decode_name_loop.simps) (simp add: name_bytes_simps rd_append_right [of pre _ 0, simplified] DNS_POINTER_VALUE_def)
next
  case (Cons l ls)
  let ?t = "(if length t \<noteq> 0 then t @ [46] else t) @ l"
  have l: "length l \<le> 63" "0 < length l" using Cons.prems by (simp_all add: plain_label_def)
  note lb = label_byte [OF l(1)] label_byte(4) [OF l]
  have first: "rd (pre @ (of_nat (length l) # l @ name_bytes ls) @ post) (length pre) = Some (of_nat (length l))"
    using rd_append_right [of pre "(of_nat (length l) # l @ name_bytes ls) @ post" 0] by simp
  have label: "rds (pre @ (of_nat (length l) # l @ name_bytes ls) @ post) (length pre + 1) (length l) = Some l"
    by (simp add: rds_in)
  have room: "length t + (if length t = 0 then 0 else 1) + length l < capacity"
    using length_dotted_onto [of ?t ls] Cons.prems by (auto split: if_splits)
  have "decode_name_loop ((pre @ of_nat (length l) # l) @ name_bytes ls @ post) capacity (length (pre @ of_nat (length l) # l)) ?t (e + 1 + length l) k False
      = Some (Some (dotted_onto ?t ls, e + 1 + length l + length (name_bytes ls)))"
    by (rule Cons.IH) (use Cons.prems in auto)
  then show ?case
    using first label lb room
    by (subst decode_name_loop.simps) (simp add: name_bytes_simps DNS_POINTER_VALUE_def Let_def)
qed

lemma decode_plain:
  assumes "list_all plain_label ls" "length (dotted ls) < ESPDROP_MDNS_NAME_BYTES" "packet = pre @ name_bytes ls @ post" "at1 = length pre"
  shows "decode_name packet at1 ESPDROP_MDNS_NAME_BYTES = Some (Some (dotted ls, length (name_bytes ls)))"
proof -
  have "name_bytes ls \<noteq> []" by (simp add: name_bytes_def)
  then have "at1 < length packet" using assms(3,4) by simp
  then show ?thesis
    using decode_plain_loop [OF assms(1,2), of pre post 0 0] assms(3,4) c_string_self [OF dotted_onto_nonzero [OF _ assms(1)], of "[]"]
    by (simp add: decode_name_def ESPDROP_MDNS_NAME_BYTES_def)
qed

section \<open>Records\<close>

definition mdns_record :: "bytes list \<Rightarrow> u16 \<Rightarrow> u16 \<Rightarrow> bytes \<Rightarrow> bytes" where
  "mdns_record owner type dns_class data =
     name_bytes owner @ put_be16 type @ put_be16 dns_class @ put_be32 DNS_ANNOUNCEMENT_TTL @ put_be16 (of_nat (length data)) @ data"

lemma parse_record_at:
  assumes "list_all plain_label owner" "length (dotted owner) < ESPDROP_MDNS_NAME_BYTES" "length data < 65536"
    and packet: "packet = pre @ mdns_record owner type dns_class data @ post" "at1 = length pre"
    and run: "record_data packet (at1 + length (name_bytes owner) + 10) (length data) (dotted owner) type r = Some (True, r')"
  shows "parse_record packet at1 r = Some (Some (at1 + length (mdns_record owner type dns_class data)), r')"
proof -
  let ?n = "length pre + length (name_bytes owner)"
  have d: "decode_name packet at1 ESPDROP_MDNS_NAME_BYTES = Some (Some (dotted owner, length (name_bytes owner)))"
    by (rule decode_plain [OF assms(1,2) _ packet(2)]) (simp add: packet(1) mdns_record_def)
  have t: "read_be16 packet ?n = Some type"
    using be16.dec_at_offset [of ?n "pre @ name_bytes owner" type] by (simp add: packet(1) mdns_record_def)
  have n: "read_be16 packet (?n + 8) = Some (of_nat (length data))"
    using be16.dec_at_offset [of "?n + 8" "pre @ name_bytes owner @ put_be16 type @ put_be16 dns_class @ put_be32 DNS_ANNOUNCEMENT_TTL" "of_nat (length data)" "data @ post"]
    by (simp add: packet(1) mdns_record_def)
  have u: "unat (of_nat (length data) :: u16) = length data" using assms(3) by (simp add: unat_of_nat)
  show ?thesis
    using d t n u run packet by (simp add: parse_record_def mdns_record_def)
qed

lemma parse_record_by_data:
  assumes "list_all plain_label owner" "length (dotted owner) < ESPDROP_MDNS_NAME_BYTES" "length data < 65536"
    and packet: "packet = pre @ mdns_record owner type dns_class data @ post"
    and run: "\<And>pre2. packet = pre2 @ data @ post \<Longrightarrow> record_data packet (length pre2) (length data) (dotted owner) type r = Some (True, r')"
  shows "parse_record packet (length pre) r = Some (Some (length (pre @ mdns_record owner type dns_class data)), r')"
proof -
  define pre2 where "pre2 = pre @ name_bytes owner @ put_be16 type @ put_be16 dns_class @ put_be32 DNS_ANNOUNCEMENT_TTL @ put_be16 (of_nat (length data))"
  have "packet = pre2 @ data @ post" by (simp add: packet pre2_def mdns_record_def)
  from run [OF this] have "record_data packet (length pre + length (name_bytes owner) + 10) (length data) (dotted owner) type r = Some (True, r')"
    by (simp add: pre2_def add.assoc)
  from parse_record_at [OF assms(1-3) packet refl this] show ?thesis by simp
qed

lemma record_ptr_at:
  assumes "list_all plain_label ls" "length (dotted ls) < ESPDROP_MDNS_NAME_BYTES" "packet = pre @ name_bytes ls @ post"
  shows "record_ptr packet (length pre) (length (name_bytes ls)) r = Some (True, on_service r (dotted ls) (\<lambda>s. s\<lparr>sv_has_ptr := True\<rparr>))"
  using decode_plain [OF assms refl] by (simp add: record_ptr_def)

lemma record_srv_at:
  assumes "list_all plain_label ls" "length (dotted ls) < ESPDROP_MDNS_NAME_BYTES"
    and "packet = pre @ ([0, 0, 0, 0] @ put_be16 port @ name_bytes ls) @ post"
  shows "record_srv packet (length pre) (6 + length (name_bytes ls)) owner r =
    Some (True, on_service r owner (\<lambda>s. s\<lparr>sv_port := port, sv_target := store (sv_target s) 0 (dotted ls @ [0]), sv_has_srv := True\<rparr>))"
proof -
  have d: "decode_name packet (length pre + 6) ESPDROP_MDNS_NAME_BYTES = Some (Some (dotted ls, length (name_bytes ls)))"
    by (rule decode_plain [OF assms(1,2), of _ "pre @ [0, 0, 0, 0] @ put_be16 port" post]) (simp_all add: assms(3))
  have "read_be16 packet (length pre + 4) = Some port"
    using be16.dec_at_offset [of "length pre + 4" "pre @ [0, 0, 0, 0]" port "name_bytes ls @ post"] by (simp add: assms(3))
  with d show ?thesis by (simp add: record_srv_def)
qed

definition printable_text :: "bytes \<Rightarrow> bool" where
  "printable_text t \<longleftrightarrow> list_all (\<lambda>b. 0x20 \<le> b \<and> b \<le> 0x7e) t"

lemma printable_text_id: "printable_text t \<Longrightarrow> map printable t = t"
  by (auto simp: printable_text_def printable_def list_all_iff intro: map_idI)

lemma record_txt_at:
  assumes "printable_text t" "length t < 255" "packet = pre @ (of_nat (length t) # t) @ post"
    and find: "find_service r owner True = (Some i, r1)"
  shows "record_txt packet (length pre) (1 + length t) owner r =
    Some (True, update_service i (\<lambda>s. s\<lparr>sv_txt := store (sv_txt s) 0 (t @ [0]), sv_has_txt := True\<rparr>) r1)"
proof -
  have "unat (of_nat (length t) :: byte) = length t" using assms(2) by (simp add: unat_of_nat)
  then have items: "parse_txt_items ESPDROP_MDNS_TXT_BYTES (of_nat (length t) # t) [] = (True, t)"
    using assms(1,2) by (simp add: Let_def printable_text_id ESPDROP_MDNS_TXT_BYTES_def)
  have "rds packet (length pre) (1 + length t) = Some (of_nat (length t) # t)"
    by (simp add: rds_in assms(3))
  then show ?thesis
    using items find by (simp add: record_txt_def parse_txt_def update_service_def)
qed

lemma record_aaaa_at:
  assumes "length address = 16" "packet = pre @ address @ post"
  shows "record_aaaa packet (length pre) owner r = Some (True, r\<lparr>mr_hosts := mr_hosts r @
    [\<lparr>mh_name = store (replicate ESPDROP_MDNS_NAME_BYTES 0) 0 (owner @ [0]), mh_address = address\<rparr>]\<rparr>)"
  using assms by (simp add: record_aaaa_def rds_in)

section \<open>The writer appends\<close>

text \<open>
  What was written so far: the writer failed exactly when the text exceeds the capacity, and
  otherwise holds the text in front of its buffer.
\<close>

definition dns_holds :: "nat \<Rightarrow> nat \<Rightarrow> dns_writer \<Rightarrow> bytes \<Rightarrow> bool" where
  "dns_holds n capacity w xs \<longleftrightarrow> length (dw_packet w) = n \<and> dw_capacity w = capacity \<and> dw_position w \<le> capacity \<and>
     (dw_failed w \<longleftrightarrow> capacity < length xs) \<and>
     (\<not> dw_failed w \<longrightarrow> dw_position w = length xs \<and> take (length xs) (dw_packet w) = xs)"

definition appends :: "(dns_writer \<Rightarrow> dns_writer) \<Rightarrow> bytes \<Rightarrow> bool" where
  "appends f ys \<longleftrightarrow> (\<forall>n capacity w xs. capacity \<le> n \<longrightarrow> dns_holds n capacity w xs \<longrightarrow> dns_holds n capacity (f w) (xs @ ys))"

lemma appends_bytes: "appends (dns_write_bytes v) v"
  unfolding appends_def
proof (intro allI impI)
  fix n capacity w xs
  assume c: "capacity \<le> n" and w: "dns_holds n capacity w xs"
  show "dns_holds n capacity (dns_write_bytes v w) (xs @ v)"
  proof (cases "dw_failed w \<or> length v > dw_capacity w - dw_position w")
    case True
    then show ?thesis using w by (auto simp: dns_holds_def dns_write_bytes_def)
  next
    case False
    then have "length xs + length v \<le> n" using w c by (auto simp: dns_holds_def)
    moreover have "dw_packet w = xs @ drop (length xs) (dw_packet w)" using w False by (auto simp: dns_holds_def) (metis append_take_drop_id)
    ultimately show ?thesis using w False by (auto simp: dns_holds_def dns_write_bytes_def store_def)
  qed
qed

lemma appends_u8: "appends (dns_write_u8 b) [b]"
proof -
  have "dns_write_u8 b w = dns_write_bytes [b] w" if "dw_position w \<le> dw_capacity w" for w
    using that by (auto simp: dns_write_u8_def dns_write_bytes_def)
  then show ?thesis using appends_bytes [of "[b]"] unfolding appends_def by (metis dns_holds_def)
qed

lemma appendsD: "appends f ys \<Longrightarrow> capacity \<le> n \<Longrightarrow> dns_holds n capacity w xs \<Longrightarrow> dns_holds n capacity (f w) (xs @ ys)"
  by (simp add: appends_def)

lemma appends_then: "appends f xs \<Longrightarrow> appends g ys \<Longrightarrow> appends (\<lambda>w. g (f w)) (xs @ ys)"
  unfolding appends_def by (metis append_assoc)

lemma appends_u16: "appends (dns_write_u16 v) (put_be16 v)"
  using appends_then [OF appends_u8 [of "ucast (drop_bit 8 v)"] appends_u8 [of "ucast v"]]
  by (simp add: dns_write_u16_def [abs_def] put_be16_def)

lemma appends_u32: "appends (dns_write_u32 v) (put_be32 v)"
proof -
  have "put_be16 (ucast (drop_bit 16 v)) @ put_be16 (ucast v) = put_be32 v"
    by (simp add: put_be16_def put_be32_def) (auto intro!: bit_word_eqI simp: bit_simps)
  then show ?thesis
    using appends_then [OF appends_u16 [of "ucast (drop_bit 16 v)"] appends_u16 [of "ucast v"]] by (simp add: dns_write_u32_def [abs_def])
qed

lemma appends_label: "appends (dns_write_label l) (of_nat (length l) # l)"
  using appends_then [OF appends_u8 [of "of_nat (length l)"] appends_bytes [of l]] by (simp add: dns_write_label_def [abs_def])

lemma in_order_simps: "in_order [] = (\<lambda>w. w)" "in_order (f # fs) = (\<lambda>w. in_order fs (f w))"
  by (simp_all add: in_order_def fun_eq_iff)

lemma appends_in_order: "list_all2 appends fs xss \<Longrightarrow> appends (in_order fs) (concat xss)"
proof (induction rule: list_all2_induct)
  case Nil
  then show ?case by (simp add: in_order_simps appends_def)
next
  case (Cons f fs xs xss)
  then show ?case using appends_then by (simp add: in_order_simps)
qed

definition type_labels :: "bytes list" where
  "type_labels = [ascii ''_airdrop'', ascii ''_tcp'', ascii ''local'']"

lemma appends_names:
  "appends dns_write_airdrop_type (name_bytes type_labels)"
  "appends (dns_write_instance sid) (name_bytes (sid # type_labels))"
  "appends (dns_write_host host) (name_bytes [host, ascii ''local''])"
proof -
  have "appends dns_write_airdrop_type (concat (map (\<lambda>l. of_nat (length l) # l) type_labels @ [[0]]))"
    unfolding dns_write_airdrop_type_def type_labels_def list.map append.simps
    by (intro appends_in_order list.rel_intros appends_label appends_u8)
  then show t: "appends dns_write_airdrop_type (name_bytes type_labels)" by (simp add: name_bytes_def)
  have "appends (dns_write_instance sid) (concat [of_nat (length sid) # sid, name_bytes type_labels])"
    unfolding dns_write_instance_def by (intro appends_in_order list.rel_intros appends_label t)
  then show "appends (dns_write_instance sid) (name_bytes (sid # type_labels))" by (simp add: name_bytes_simps)
  have "appends (dns_write_host host) (concat (map (\<lambda>l. of_nat (length l) # l) [host, ascii ''local''] @ [[0]]))"
    unfolding dns_write_host_def list.map append.simps
    by (intro appends_in_order list.rel_intros appends_label appends_u8)
  then show "appends (dns_write_host host) (name_bytes [host, ascii ''local''])" by (simp add: name_bytes_def)
qed

lemma appends_record_head:
  "appends (dns_write_record_head type dns_class n) (put_be16 type @ put_be16 dns_class @ put_be32 DNS_ANNOUNCEMENT_TTL @ put_be16 n)"
  using appends_in_order [of "[dns_write_u16 type, dns_write_u16 dns_class, dns_write_u32 DNS_ANNOUNCEMENT_TTL, dns_write_u16 n]"
    "[put_be16 type, put_be16 dns_class, put_be32 DNS_ANNOUNCEMENT_TTL, put_be16 n]"]
  by (simp add: appends_u16 appends_u32 dns_write_record_head_def)

section \<open>The announcement\<close>

definition announcement_header :: bytes where
  "announcement_header = [0, 0, 0x84, 0, 0, 0, 0, 1, 0, 0, 0, 3]"

definition host_labels :: "bytes \<Rightarrow> bytes list" where
  "host_labels host = [host, ascii ''local'']"

definition announcement_records :: "bytes \<Rightarrow> bytes \<Rightarrow> u16 \<Rightarrow> bytes \<Rightarrow> bytes \<Rightarrow> bytes list" where
  "announcement_records sid host port t ipv6 =
     [mdns_record type_labels DNS_TYPE_PTR DNS_CLASS_IN (name_bytes (sid # type_labels)),
      mdns_record (sid # type_labels) DNS_TYPE_SRV DNS_CLASS_CACHE_FLUSH ([0, 0, 0, 0] @ put_be16 port @ name_bytes (host_labels host)),
      mdns_record (sid # type_labels) DNS_TYPE_TXT DNS_CLASS_CACHE_FLUSH (of_nat (length t) # t),
      mdns_record (host_labels host) DNS_TYPE_AAAA DNS_CLASS_CACHE_FLUSH ipv6]"

definition announcement_text :: "bytes \<Rightarrow> bytes \<Rightarrow> u16 \<Rightarrow> bytes \<Rightarrow> bytes \<Rightarrow> bytes" where
  "announcement_text sid host port t ipv6 = announcement_header @ concat (announcement_records sid host port t ipv6)"

lemma length_names: "length (name_bytes type_labels) = 21" "length (name_bytes (sid # type_labels)) = length sid + 22"
  "length (name_bytes (host_labels host)) = length host + 8"
  by (simp_all add: name_bytes_def type_labels_def host_labels_def)

lemma length_announcement_text:
  "length ipv6 = 16 \<Longrightarrow> length (announcement_text sid host port t ipv6) = 178 + 3 * length sid + 2 * length host + length t"
  by (simp add: announcement_text_def announcement_records_def announcement_header_def mdns_record_def length_names)

lemma dotted_names: "dotted type_labels = airdrop_type_name" "sid \<noteq> [] \<Longrightarrow> dotted (sid # type_labels) = sid @ airdrop_suffix"
  "host \<noteq> [] \<Longrightarrow> dotted (host_labels host) = host @ 46 # ascii ''local''"
  by (simp_all add: type_labels_def host_labels_def airdrop_type_name_def airdrop_suffix_def ascii_def)

declare dotted_onto_simps [simp del]

lemma valid_label_plain: "dns_label_valid (Ptr l) \<Longrightarrow> plain_label l"
  by (auto simp: dns_label_valid_def plain_label_def dns_label_char_def list_all_iff)

lemma plain_names: "list_all plain_label type_labels" "plain_label sid \<Longrightarrow> list_all plain_label (sid # type_labels)"
  "plain_label host \<Longrightarrow> list_all plain_label (host_labels host)"
  by (auto simp: type_labels_def host_labels_def plain_label_def ascii_def)

lemma appends_announcement:
  assumes "length ipv6 = 16"
  shows "appends (in_order (announcement_writes sid host port t ipv6)) (announcement_text sid host port t ipv6)"
proof -
  have "appends (in_order (announcement_writes sid host port t ipv6)) (concat
    [put_be16 0, put_be16 0x8400, put_be16 0, put_be16 1, put_be16 0, put_be16 3,
     name_bytes type_labels,
     put_be16 DNS_TYPE_PTR @ put_be16 DNS_CLASS_IN @ put_be32 DNS_ANNOUNCEMENT_TTL @ put_be16 (of_nat (1 + length sid + DNS_AIRDROP_TYPE_NAME_BYTES)),
     name_bytes (sid # type_labels), name_bytes (sid # type_labels),
     put_be16 DNS_TYPE_SRV @ put_be16 DNS_CLASS_CACHE_FLUSH @ put_be32 DNS_ANNOUNCEMENT_TTL @ put_be16 (6 + of_nat (1 + length host + DNS_LOCAL_SUFFIX_BYTES)),
     put_be16 0, put_be16 0, put_be16 port, name_bytes [host, ascii ''local''],
     name_bytes (sid # type_labels),
     put_be16 DNS_TYPE_TXT @ put_be16 DNS_CLASS_CACHE_FLUSH @ put_be32 DNS_ANNOUNCEMENT_TTL @ put_be16 (of_nat (1 + length t)),
     [of_nat (length t)], t,
     name_bytes [host, ascii ''local''],
     put_be16 DNS_TYPE_AAAA @ put_be16 DNS_CLASS_CACHE_FLUSH @ put_be32 DNS_ANNOUNCEMENT_TTL @ put_be16 16, ipv6])"
    unfolding announcement_writes_def Let_def
    by (intro appends_in_order list.rel_intros appends_u8 appends_u16 appends_bytes appends_names appends_record_head)
  moreover have "put_be16 0 = [0, 0]" "put_be16 0x8400 = [0x84, 0]" "put_be16 1 = [0, 1]" "put_be16 3 = [0, 3]"
    by (simp_all add: put_be16_def)
  moreover have "(of_nat (1 + length sid + DNS_AIRDROP_TYPE_NAME_BYTES) :: u16) = of_nat (length (name_bytes (sid # type_labels)))"
    "(6 + of_nat (1 + length host + DNS_LOCAL_SUFFIX_BYTES) :: u16) = of_nat (length ([0, 0, 0, 0] @ put_be16 port @ name_bytes (host_labels host)))"
    "(of_nat (1 + length t) :: u16) = of_nat (length (of_nat (length t) # t :: bytes))" "(16 :: u16) = of_nat (length ipv6)"
    by (simp_all add: length_names DNS_AIRDROP_TYPE_NAME_BYTES_def DNS_LOCAL_SUFFIX_BYTES_def assms)
  ultimately show ?thesis
    by (simp only: announcement_text_def announcement_records_def announcement_header_def mdns_record_def host_labels_def
        concat.simps append_assoc append.simps append_Nil2)
qed

lemma build_announcement:
  assumes "dns_label_valid (Ptr sid)" "dns_label_valid (Ptr host)" "port \<noteq> 0" "flags \<noteq> 0" "length ipv6 = 16" "capacity \<le> length buf"
  shows "\<exists>buf'. espdrop_airdrop_mdns_build_announcement (Ptr buf) capacity (Ptr n) (Ptr sid) (Ptr host) port flags (Ptr ipv6) =
      (if length (announcement_text sid host port (flags_text flags) ipv6) \<le> capacity
       then (True, Ptr buf', Ptr (length (announcement_text sid host port (flags_text flags) ipv6)))
       else if capacity < DNS_HEADER_BYTES then (False, Ptr buf, Ptr n) else (False, Ptr buf', Ptr 0)) \<and>
    (length (announcement_text sid host port (flags_text flags) ipv6) \<le> capacity \<longrightarrow>
      take (length (announcement_text sid host port (flags_text flags) ipv6)) buf' = announcement_text sid host port (flags_text flags) ipv6)"
proof -
  let ?text = "announcement_text sid host port (flags_text flags) ipv6"
  define w where "w = in_order (announcement_writes sid host port (flags_text flags) ipv6)
     \<lparr>dw_packet = buf, dw_capacity = capacity, dw_position = 0, dw_failed = False\<rparr>"
  have "length (digits 10 (unat flags)) \<le> 10"
    using unat_bound [of flags] by (intro length_digits_le) simp_all
  then have t: "length (flags_text flags) < 32" by (simp add: flags_text_def)
  have w0: "dns_holds (length buf) capacity \<lparr>dw_packet = buf, dw_capacity = capacity, dw_position = 0, dw_failed = False\<rparr> []"
    by (simp add: dns_holds_def)
  have w: "dns_holds (length buf) capacity w ?text"
    using appendsD [OF appends_announcement [OF assms(5), of sid host port "flags_text flags"] assms(6) w0] by (simp add: w_def)
  have "DNS_HEADER_BYTES \<le> length ?text" by (simp add: announcement_text_def announcement_header_def DNS_HEADER_BYTES_def)
  then show ?thesis
    using w t assms(1-5)
    by (intro exI [of _ "dw_packet w"]) (auto simp: espdrop_airdrop_mdns_build_announcement_def Let_def w_def [symmetric] dns_holds_def)
qed

section \<open>What the parser makes of it\<close>

lemma on_service_new:
  "mr_services r = [] \<Longrightarrow> on_service r ins g =
     r\<lparr>mr_services := [g (mdns_service_zero\<lparr>sv_instance := store (sv_instance mdns_service_zero) 0 (ins @ [0])\<rparr>)]\<rparr>"
  by (simp add: on_service_def find_service_def update_service_def ESPDROP_MDNS_MAX_SERVICES_def)

lemma service_known:
  assumes "mr_services r = [s]" "c_string (sv_instance s) = ins"
  shows "find_service r ins True = (Some 0, r)" "on_service r ins g = r\<lparr>mr_services := [g s]\<rparr>" "update_service 0 g r = r\<lparr>mr_services := [g s]\<rparr>"
  using assms by (simp_all add: on_service_def find_service_def update_service_def)

lemma digits_printable: "list_all (\<lambda>b. 0x20 \<le> b \<and> b \<le> 0x7e) (digits 10 n)"
proof (induction n rule: less_induct)
  case (less n)
  have digit: "0x20 \<le> digit_char d \<and> digit_char d \<le> 0x7e" if "d < 10" for d
    using unat_digit_char [of d] that by (simp add: word_le_nat_alt)
  show ?case
  proof (cases "n < 10")
    case True
    then show ?thesis using digit by (simp add: digits_small)
  next
    case False
    then show ?thesis using less [of "n div 10"] digit [of "n mod 10"] by (simp add: digits_step)
  qed
qed

lemma flags_text_facts: "printable_text (flags_text flags)" "length (flags_text flags) < 255" "0 \<notin> set (flags_text flags)"
proof -
  show p: "printable_text (flags_text flags)" using digits_printable [of "unat flags"] by (simp add: printable_text_def flags_text_def ascii_def)
  then show "0 \<notin> set (flags_text flags)" by (auto simp: printable_text_def list_all_iff)
  show "length (flags_text flags) < 255"
    using length_digits_le [of 10 "unat flags" 10] unat_bound [of flags] by (simp add: flags_text_def)
qed

definition announced_service :: "bytes \<Rightarrow> bytes \<Rightarrow> u16 \<Rightarrow> bytes \<Rightarrow> bytes \<Rightarrow> mdns_service \<Rightarrow> bool" where
  "announced_service sid host port t ipv6 s \<longleftrightarrow> espdrop_airdrop_service_complete (Ptr s) \<and>
     c_string (sv_instance s) = sid @ airdrop_suffix \<and> c_string (sv_target s) = host @ 46 # ascii ''local'' \<and>
     sv_port s = port \<and> c_string (sv_txt s) = t \<and> sv_ipv6 s = ipv6"

lemma parse_announcement:
  assumes valid: "dns_label_valid (Ptr sid)" "dns_label_valid (Ptr host)" and port: "port \<noteq> 0" and ip: "length ipv6 = 16"
    and t: "printable_text t" "length t < 255" "0 \<notin> set t"
  shows "\<exists>r' s. espdrop_airdrop_mdns_parse (Ptr (announcement_text sid host port t ipv6)) (Ptr r) = Some (True, Ptr r') \<and>
    mr_services r' = [s] \<and> announced_service sid host port t ipv6 s"
proof -
  define pk where "pk = announcement_text sid host port t ipv6"
  define ins where "ins = sid @ airdrop_suffix"
  define target where "target = host @ 46 # ascii ''local''"
  have l: "sid \<noteq> []" "length sid \<le> 63" "host \<noteq> []" "length host \<le> 63" "plain_label sid" "plain_label host"
    using valid valid_label_plain by (auto simp: dns_label_valid_def)
  note plain = plain_names(1) plain_names(2) [OF l(5)] plain_names(3) [OF l(6)]
  have dot: "dotted (sid # type_labels) = ins" "dotted (host_labels host) = target" "dotted type_labels = airdrop_type_name"
    using dotted_names l by (simp_all add: ins_def target_def)
  have lens: "length airdrop_type_name < ESPDROP_MDNS_NAME_BYTES" "length ins < ESPDROP_MDNS_NAME_BYTES" "length target < ESPDROP_MDNS_NAME_BYTES"
    using l by (simp_all add: airdrop_type_name_def ins_def target_def airdrop_suffix_def ESPDROP_MDNS_NAME_BYTES_def)
  have nz: "0 \<notin> set ins" "0 \<notin> set target"
    using dotted_onto_nonzero [OF _ plain(2), of "[]"] dotted_onto_nonzero [OF _ plain(3), of "[]"] dot by simp_all
  have is_instance: "is_airdrop_instance ins" using l by (simp add: is_airdrop_instance_def ins_def)
  define rec1 where "rec1 = mdns_record type_labels DNS_TYPE_PTR DNS_CLASS_IN (name_bytes (sid # type_labels))"
  define rec2 where "rec2 = mdns_record (sid # type_labels) DNS_TYPE_SRV DNS_CLASS_CACHE_FLUSH ([0, 0, 0, 0] @ put_be16 port @ name_bytes (host_labels host))"
  define rec3 where "rec3 = mdns_record (sid # type_labels) DNS_TYPE_TXT DNS_CLASS_CACHE_FLUSH (of_nat (length t) # t)"
  define rec4 where "rec4 = mdns_record (host_labels host) DNS_TYPE_AAAA DNS_CLASS_CACHE_FLUSH ipv6"
  have pk: "pk = announcement_header @ rec1 @ rec2 @ rec3 @ rec4"
    by (simp add: pk_def announcement_text_def announcement_records_def rec1_def rec2_def rec3_def rec4_def)
  define r0 where "r0 = mdns_result_zero\<lparr>mr_response := True, mr_questions := 0, mr_answers := 1, mr_authority := 0, mr_additional := 3\<rparr>"
  have r0: "mr_services r0 = []" "mr_hosts r0 = []" by (simp_all add: r0_def mdns_result_zero_def)
  define s1 where "s1 = mdns_service_zero\<lparr>sv_instance := store (sv_instance mdns_service_zero) 0 (ins @ [0]), sv_has_ptr := True\<rparr>"
  define s2 where "s2 = s1\<lparr>sv_port := port, sv_target := store (sv_target s1) 0 (target @ [0]), sv_has_srv := True\<rparr>"
  define s3 where "s3 = s2\<lparr>sv_txt := store (sv_txt s2) 0 (t @ [0]), sv_has_txt := True\<rparr>"
  define h where "h = \<lparr>mh_name = store (replicate ESPDROP_MDNS_NAME_BYTES 0) 0 (target @ [0]), mh_address = ipv6\<rparr>"
  have ins: "c_string (sv_instance s1) = ins" "c_string (sv_instance s2) = ins"
    using nz by (simp_all add: s1_def s2_def c_string_store)
  note sizes = length_names
  have types: "DNS_TYPE_SRV \<noteq> DNS_TYPE_PTR" "DNS_TYPE_TXT \<noteq> DNS_TYPE_PTR" "DNS_TYPE_TXT \<noteq> DNS_TYPE_SRV" "DNS_TYPE_AAAA \<noteq> DNS_TYPE_PTR"
    "DNS_TYPE_AAAA \<noteq> DNS_TYPE_SRV" "DNS_TYPE_AAAA \<noteq> DNS_TYPE_TXT"
    by (simp_all add: DNS_TYPE_PTR_def DNS_TYPE_SRV_def DNS_TYPE_TXT_def DNS_TYPE_AAAA_def)
  have step1: "parse_record pk (length announcement_header) r0 = Some (Some (length (announcement_header @ rec1)), r0\<lparr>mr_services := [s1]\<rparr>)"
    unfolding rec1_def
  proof (rule parse_record_by_data [OF plain(1) _ _ pk [unfolded rec1_def]])
    fix pre2
    assume p: "pk = pre2 @ name_bytes (sid # type_labels) @ rec2 @ rec3 @ rec4"
    show "record_data pk (length pre2) (length (name_bytes (sid # type_labels))) (dotted type_labels) DNS_TYPE_PTR r0 = Some (True, r0\<lparr>mr_services := [s1]\<rparr>)"
      using record_ptr_at [OF plain(2) _ p] lens by (simp add: record_data_def dot on_service_new [OF r0(1)] s1_def)
  qed (use lens l sizes(2) [of sid] dot in simp_all)
  have step2: "parse_record pk (length (announcement_header @ rec1)) (r0\<lparr>mr_services := [s1]\<rparr>) =
      Some (Some (length ((announcement_header @ rec1) @ rec2)), r0\<lparr>mr_services := [s2]\<rparr>)"
    unfolding rec2_def
  proof (rule parse_record_by_data [OF plain(2), where post = "rec3 @ rec4"])
    fix pre2
    assume p: "pk = pre2 @ ([0, 0, 0, 0] @ put_be16 port @ name_bytes (host_labels host)) @ rec3 @ rec4"
    show "record_data pk (length pre2) (length ([0, 0, 0, 0] @ put_be16 port @ name_bytes (host_labels host))) (dotted (sid # type_labels)) DNS_TYPE_SRV
        (r0\<lparr>mr_services := [s1]\<rparr>) = Some (True, r0\<lparr>mr_services := [s2]\<rparr>)"
      using record_srv_at [OF plain(3) _ p] lens sizes(3) [of host] service_known(2) [of "r0\<lparr>mr_services := [s1]\<rparr>" s1 ins] ins is_instance
      by (simp add: record_data_def dot types s2_def)
  qed (use lens l sizes(3) [of host] dot in \<open>simp_all add: pk rec2_def\<close>)
  have step3: "parse_record pk (length ((announcement_header @ rec1) @ rec2)) (r0\<lparr>mr_services := [s2]\<rparr>) =
      Some (Some (length (((announcement_header @ rec1) @ rec2) @ rec3)), r0\<lparr>mr_services := [s3]\<rparr>)"
    unfolding rec3_def
  proof (rule parse_record_by_data [OF plain(2), where post = "rec4"])
    fix pre2
    assume p: "pk = pre2 @ (of_nat (length t) # t) @ rec4"
    show "record_data pk (length pre2) (length (of_nat (length t) # t :: bytes)) (dotted (sid # type_labels)) DNS_TYPE_TXT
        (r0\<lparr>mr_services := [s2]\<rparr>) = Some (True, r0\<lparr>mr_services := [s3]\<rparr>)"
      using record_txt_at [OF t(1,2) p, of "r0\<lparr>mr_services := [s2]\<rparr>" ins 0 "r0\<lparr>mr_services := [s2]\<rparr>"]
        service_known [of "r0\<lparr>mr_services := [s2]\<rparr>" s2 ins] ins is_instance
      by (simp add: record_data_def dot types s3_def)
  qed (use lens t dot in \<open>simp_all add: pk rec3_def\<close>)
  have step4: "parse_record pk (length (((announcement_header @ rec1) @ rec2) @ rec3)) (r0\<lparr>mr_services := [s3]\<rparr>) =
      Some (Some (length ((((announcement_header @ rec1) @ rec2) @ rec3) @ rec4)), r0\<lparr>mr_services := [s3], mr_hosts := [h]\<rparr>)"
    unfolding rec4_def
  proof (rule parse_record_by_data [OF plain(3), where post = "[]"])
    fix pre2
    assume p: "pk = pre2 @ ipv6 @ []"
    show "record_data pk (length pre2) (length ipv6) (dotted (host_labels host)) DNS_TYPE_AAAA (r0\<lparr>mr_services := [s3]\<rparr>) =
        Some (True, r0\<lparr>mr_services := [s3], mr_hosts := [h]\<rparr>)"
      using record_aaaa_at [OF ip p] ip by (simp add: record_data_def dot types r0 h_def ESPDROP_MDNS_MAX_HOSTS_def)
  qed (use lens ip dot in \<open>simp_all add: pk rec4_def\<close>)
  have records: "parse_records pk 4 (length announcement_header) r0 = Some (True, r0\<lparr>mr_services := [s3], mr_hosts := [h]\<rparr>)"
    using step1 step2 step3 step4 by (simp add: numeral_eq_Suc)
  have header: "read_be16 pk 2 = Some 0x8400" "read_be16 pk 4 = Some 0" "read_be16 pk 6 = Some 1" "read_be16 pk 8 = Some 0" "read_be16 pk 10 = Some 3"
    by (simp_all add: pk announcement_header_def read_be16_def)
  have "DNS_HEADER_BYTES \<le> length pk" "length announcement_header = DNS_HEADER_BYTES"
    by (simp_all add: pk announcement_header_def DNS_HEADER_BYTES_def)
  then have parsed: "espdrop_airdrop_mdns_parse (Ptr pk) (Ptr r) = Some (True, Ptr (r0\<lparr>mr_hosts := [h], mr_services := [link_host [h] s3]\<rparr>))"
    using header records by (simp add: espdrop_airdrop_mdns_parse_def Let_def r0_def DNS_MAX_RECORDS_def)
  have "c_string (sv_target s3) = target" "c_string (mh_name h) = target"
    using nz by (simp_all add: s3_def s2_def h_def c_string_store)
  then have linked: "link_host [h] s3 = s3\<lparr>sv_ipv6 := ipv6, sv_has_ipv6 := True\<rparr>" by (simp add: link_host_def host_of_def h_def)
  have "announced_service sid host port t ipv6 (link_host [h] s3)"
    unfolding linked using nz t(3) port
    by (simp add: announced_service_def espdrop_airdrop_service_complete_def s1_def s2_def s3_def c_string_store ins_def [symmetric] target_def [symmetric])
  then show ?thesis using parsed by (simp add: pk_def)
qed

text \<open>
  C5. What we announce is what a peer finds: with valid names, a port, flags and room for
  178 bytes plus three times the identifier, twice the host name and the flags text, the announcement
  is built, and parsing it gives exactly one service, complete, with our identifier, host name, port,
  flags and address; with less room nothing is announced.
\<close>

theorem announcement_roundtrip:
  fixes sid host :: bytes and flags :: u32
  defines "needed \<equiv> 178 + 3 * length sid + 2 * length host + length (flags_text flags)"
  assumes "dns_label_valid (Ptr sid)" and "dns_label_valid (Ptr host)" and "port \<noteq> 0" and "flags \<noteq> 0" and "length ipv6 = 16"
    and "capacity \<le> length buf"
  shows "\<exists>ok buf' n'. espdrop_airdrop_mdns_build_announcement (Ptr buf) capacity (Ptr n) (Ptr sid) (Ptr host) port flags (Ptr ipv6) =
      (ok, Ptr buf', Ptr n') \<and> (ok \<longleftrightarrow> needed \<le> capacity) \<and>
    (ok \<longrightarrow> n' = needed \<and>
      (\<exists>r' s. espdrop_airdrop_mdns_parse (Ptr (take n' buf')) (Ptr r) = Some (True, Ptr r') \<and> mr_services r' = [s] \<and>
        announced_service sid host port (flags_text flags) ipv6 s))"
proof -
  let ?text = "announcement_text sid host port (flags_text flags) ipv6"
  have len: "length ?text = needed" by (simp add: length_announcement_text assms(6) needed_def)
  obtain buf' where b: "espdrop_airdrop_mdns_build_announcement (Ptr buf) capacity (Ptr n) (Ptr sid) (Ptr host) port flags (Ptr ipv6) =
      (if needed \<le> capacity then (True, Ptr buf', Ptr needed)
       else if capacity < DNS_HEADER_BYTES then (False, Ptr buf, Ptr n) else (False, Ptr buf', Ptr 0))"
    "needed \<le> capacity \<longrightarrow> take needed buf' = ?text"
    using build_announcement [OF assms(2-7), of n, unfolded len] by blast
  show ?thesis
    using b parse_announcement [OF assms(2,3,4,6) flags_text_facts [of flags], of r] by auto
qed

theorem announcement_roundtrip_witness:
  "\<exists>buf' r' s. espdrop_airdrop_mdns_build_announcement (Ptr (replicate 512 0)) 512 (Ptr 0) (Ptr (ascii ''abc'')) (Ptr (ascii ''host'')) 8770 136
       (Ptr (replicate 16 5)) = (True, Ptr buf', Ptr 204) \<and>
     espdrop_airdrop_mdns_parse (Ptr (take 204 buf')) (Ptr mdns_result_zero) = Some (True, Ptr r') \<and> mr_services r' = [s] \<and>
     announced_service (ascii ''abc'') (ascii ''host'') 8770 (flags_text 136) (replicate 16 5) s"
proof -
  have labels: "dns_label_valid (Ptr (ascii ''abc''))" "dns_label_valid (Ptr (ascii ''host''))"
    by (simp_all add: dns_label_valid_def dns_label_char_def ascii_def)
  have "length (flags_text 136) = 9" by (simp add: flags_text_def digits.simps)
  then show ?thesis
    using announcement_roundtrip [OF labels, of 8770 136 "replicate 16 5" 512 "replicate 512 0" 0 mdns_result_zero] by auto
qed

text \<open>The first packet with a complete service makes the cache's first complete service.\<close>

lemma merge_into_empty:
  assumes "mr_services r' = [s]" "espdrop_airdrop_service_complete (Ptr s)"
  shows "\<exists>d. espdrop_airdrop_mdns_merge (Ptr mdns_result_zero) (Ptr r') = Ptr d \<and> length (mr_services d) = 1 \<and>
    espdrop_airdrop_service_complete (Ptr (mr_services d ! 0))"
proof -
  define d1 where "d1 = fold merge_host (mr_hosts r') mdns_result_zero"
  have "mr_services (fold merge_host hs d) = mr_services d" for hs d
    by (induction hs arbitrary: d) (auto simp: merge_host_def split: option.split)
  then have d1: "mr_services d1 = []" by (simp add: d1_def mdns_result_zero_def)
  show ?thesis
    using assms
    by (auto simp: espdrop_airdrop_mdns_merge_def Let_def d1_def [symmetric] merge_service_def on_service_new [OF d1]
        espdrop_airdrop_service_complete_def merge_fields_def link_missing_def)
qed

theorem mdns_cache_learns_witness:
  "\<exists>d d' packet r'. cache_reachable d \<and> length (mr_services d) = 1 \<and> espdrop_airdrop_service_complete (Ptr (mr_services d ! 0)) \<and>
     espdrop_airdrop_mdns_parse (Ptr packet) (Ptr mdns_result_zero) = Some (True, Ptr r') \<and>
     espdrop_airdrop_mdns_merge (Ptr d) (Ptr r') = Ptr d' \<and> espdrop_airdrop_service_complete (Ptr (mr_services d' ! 0))"
proof -
  have labels: "dns_label_valid (Ptr (ascii ''abc''))" "dns_label_valid (Ptr (ascii ''host''))"
    by (simp_all add: dns_label_valid_def dns_label_char_def ascii_def)
  define packet where "packet = announcement_text (ascii ''abc'') (ascii ''host'') 8770 (flags_text 136) (replicate 16 5)"
  obtain r' s where p: "espdrop_airdrop_mdns_parse (Ptr packet) (Ptr mdns_result_zero) = Some (True, Ptr r')" "mr_services r' = [s]"
    "espdrop_airdrop_service_complete (Ptr s)"
    using parse_announcement [OF labels _ _ flags_text_facts, of 8770 "replicate 16 5" 136 mdns_result_zero]
    by (auto simp: announced_service_def packet_def)
  obtain d where d: "espdrop_airdrop_mdns_merge (Ptr mdns_result_zero) (Ptr r') = Ptr d" "length (mr_services d) = 1"
    "espdrop_airdrop_service_complete (Ptr (mr_services d ! 0))"
    using merge_into_empty [OF p(2,3)] by blast
  have reach: "cache_reachable d" by (rule cache_reachable.merged [OF cache_reachable.start p(1) d(1)])
  have "\<forall>x\<in>set (mr_services r'). sv_port x \<noteq> 0" using p by (simp add: espdrop_airdrop_service_complete_def)
  with mdns_cache_learns [OF reach, of packet mdns_result_zero] p(1) d(2,3) show ?thesis
    using reach d p(1) by fastforce
qed

end
