(* ===== verification/Receiver_Oracle.thy ===== *)
theory Receiver_Oracle
  imports Tls_Run
begin

text \<open>
  The receiver endpoint, \<^verbatim>\<open>src/core/src/airdrop_receiver_oracle.c\<close> (the build with the receiver lab):
  framing of an HTTP request that arrives in pieces, the fixed answers, the connection around them
  and the loop over connections. It runs over the same \<open>platform\<close> as the sender; the set-up calls are
  those of \<open>tls_library\<close> in the same order, without a host name. The request buffer is its used part.
\<close>

section \<open>Constants\<close>

definition RECEIVER_REQUEST_BYTES :: nat where "RECEIVER_REQUEST_BYTES = 16384"
definition RECEIVER_HEADER_LIMIT_BYTES :: nat where "RECEIVER_HEADER_LIMIT_BYTES = 4096"
definition RECEIVER_HANDSHAKE_TIMEOUT_MS :: u32 where "RECEIVER_HANDSHAKE_TIMEOUT_MS = 30000"
definition RECEIVER_REQUEST_TIMEOUT_MS :: u32 where "RECEIVER_REQUEST_TIMEOUT_MS = 15000"
definition RECEIVER_MAX_CONNECTIONS :: nat where "RECEIVER_MAX_CONNECTIONS = 8"

definition oracle_discover_body :: bytes where
  "oracle_discover_body =
    [0x62, 0x70, 0x6c, 0x69, 0x73, 0x74, 0x30, 0x30, 0xd3, 0x01, 0x02, 0x03,
     0x04, 0x05, 0x06, 0x5f, 0x10, 0x19, 0x52, 0x65, 0x63, 0x65, 0x69, 0x76,
     0x65, 0x72, 0x4d, 0x65, 0x64, 0x69, 0x61, 0x43, 0x61, 0x70, 0x61, 0x62,
     0x69, 0x6c, 0x69, 0x74, 0x69, 0x65, 0x73, 0x5f, 0x10, 0x14, 0x52, 0x65,
     0x63, 0x65, 0x69, 0x76, 0x65, 0x72, 0x43, 0x6f, 0x6d, 0x70, 0x75, 0x74,
     0x65, 0x72, 0x4e, 0x61, 0x6d, 0x65, 0x5f, 0x10, 0x11, 0x52, 0x65, 0x63,
     0x65, 0x69, 0x76, 0x65, 0x72, 0x4d, 0x6f, 0x64, 0x65, 0x6c, 0x4e, 0x61,
     0x6d, 0x65, 0x4e, 0x7b, 0x22, 0x56, 0x65, 0x72, 0x73, 0x69, 0x6f, 0x6e,
     0x22, 0x3a, 0x20, 0x31, 0x7d, 0x57, 0x65, 0x73, 0x70, 0x44, 0x72, 0x6f,
     0x70, 0x58, 0x45, 0x53, 0x50, 0x33, 0x32, 0x2d, 0x53, 0x33, 0x08, 0x0f,
     0x2b, 0x42, 0x56, 0x65, 0x6d, 0x00, 0x00, 0x00, 0x00, 0x00, 0x00, 0x01,
     0x01, 0x00, 0x00, 0x00, 0x00, 0x00, 0x00, 0x00, 0x07, 0x00, 0x00, 0x00,
     0x00, 0x00, 0x00, 0x00, 0x00, 0x00, 0x00, 0x00, 0x00, 0x00, 0x00, 0x00,
     0x76]"

section \<open>Request framing\<close>

text \<open>The bytes up to and with the empty line, zero when there is none yet.\<close>

function header_end_from :: "bytes \<Rightarrow> nat \<Rightarrow> nat" where
  "header_end_from bs i =
     (if i + 3 < length bs then
        if take 4 (drop i bs) = [13, 10, 13, 10] then i + 4 else header_end_from bs (i + 1)
      else 0)"
  by pat_completeness auto
termination
  by (relation "measure (\<lambda>(bs, i). length bs - i)") auto

declare header_end_from.simps [simp del]

definition find_header_end :: "bytes \<Rightarrow> nat" where
  "find_header_end bs = header_end_from bs 0"

definition c_tolower :: "byte \<Rightarrow> byte" where
  "c_tolower b = (if 65 \<le> b \<and> b \<le> 90 then b + 32 else b)"

definition ascii_starts_with_case :: "bytes \<Rightarrow> bytes \<Rightarrow> bool" where
  "ascii_starts_with_case bs pre \<longleftrightarrow> length bs \<ge> length pre \<and>
     list_all (\<lambda>(a, b). c_tolower a = c_tolower b) (zip (take (length pre) bs) pre)"

text \<open>The bytes of \<open>headers + offset\<close> before its first line end; without one, all but the last byte.\<close>

fun line_of :: "bytes \<Rightarrow> bytes" where
  "line_of (a # b # rest) = (if a = 13 \<and> b = 10 then [] else a # line_of (b # rest))"
| "line_of _ = []"

fun parse_length_digits :: "bytes \<Rightarrow> nat \<Rightarrow> nat option" where
  "parse_length_digits [] parsed = Some parsed"
| "parse_length_digits (c # cs) parsed =
     (if c < 48 \<or> c > 57 \<or> parsed > (SIZE_MAX - (unat c - 48)) div 10 then None
      else parse_length_digits cs (parsed * 10 + (unat c - 48)))"

definition content_length_value :: "bytes \<Rightarrow> nat option" where
  "content_length_value line =
     (let v = dropWhile (\<lambda>c. c = 32 \<or> c = 9) (drop 15 line) in
      if v = [] then None else parse_length_digits v 0)"

text \<open>The lines of the header from an offset; the result is the success and the length stored.\<close>

function content_length_lines :: "bytes \<Rightarrow> bool \<times> nat" where
  "content_length_lines rest =
     (if 1 < length rest then
        let line = line_of rest in
        if ascii_starts_with_case line (ascii ''Content-Length:'') then
          (case content_length_value line of None \<Rightarrow> (False, 0) | Some n \<Rightarrow> (True, n))
        else content_length_lines (drop (length line + 2) rest)
      else (True, 0))"
  by pat_completeness auto
termination
  by (relation "measure length") auto

declare content_length_lines.simps [simp del]

definition parse_content_length :: "bytes \<Rightarrow> bool \<times> nat" where
  "parse_content_length headers = content_length_lines headers"

section \<open>Sending\<close>

text \<open>The loop gives the last status, whether an error ended it, and the number of bytes written.\<close>

partial_function (option) tls_write_all_loop ::
  "'e platform \<Rightarrow> bytes \<Rightarrow> int \<Rightarrow> nat \<Rightarrow> int \<Rightarrow> 'e \<Rightarrow> (int \<times> bool \<times> nat \<times> 'e) option" where
  "tls_write_all_loop p bs deadline_us written status e =
     (if written < length bs then
        (case pf_esp_timer_get_time p e of (now, e1) \<Rightarrow>
           if now < deadline_us then
             (case pf_ssl_write p (drop written bs) e1 of (status1, e2) \<Rightarrow>
                if status1 > 0 then tls_write_all_loop p bs deadline_us (written + nat status1) status1 e2
                else if want_io p status1 then tls_write_all_loop p bs deadline_us written status1 (pf_task_delay_ms p 10 e2)
                else Some (status1, True, written, e2))
           else Some (status, False, written, e1))
      else Some (status, False, written, e))"

definition tls_write_all :: "'e platform \<Rightarrow> bytes \<Rightarrow> int \<Rightarrow> int \<Rightarrow> 'e \<Rightarrow> (bool \<times> int \<times> 'e) option" where
  "tls_write_all p bs deadline_us status e = do {
     (status1, failed, written, e1) \<leftarrow> tls_write_all_loop p bs deadline_us 0 status e;
     if failed then Some (False, status1, e1)
     else if written \<noteq> length bs then Some (False, pf_ssl_timeout p, e1)
     else Some (True, status1, e1) }"

section \<open>Serving a request\<close>

text \<open>
  The request so far with the sizes of its header and body. The header is examined once, with the
  piece that completes it; the inner option is whether the request is acceptable.
\<close>

definition note_header :: "bytes \<Rightarrow> nat \<Rightarrow> (nat \<times> nat) option" where
  "note_header request body_bytes =
     (let header_bytes = find_header_end request in
      if header_bytes > RECEIVER_HEADER_LIMIT_BYTES then None
      else if header_bytes = 0 then Some (0, body_bytes)
      else
        (case parse_content_length (take header_bytes request) of (ok, body1) \<Rightarrow>
           if \<not> ok then None
           else if body1 > RECEIVER_REQUEST_BYTES - header_bytes then None
           else Some (header_bytes, body1)))"

text \<open>The loop: an early return code if there is one, the request, its sizes, and the last status.\<close>

partial_function (option) receive_request ::
  "'e platform \<Rightarrow> int \<Rightarrow> bytes \<Rightarrow> nat \<Rightarrow> nat \<Rightarrow> int \<Rightarrow> 'e \<Rightarrow> (int option \<times> bytes \<times> nat \<times> nat \<times> int \<times> 'e) option" where
  "receive_request p deadline_us request header_bytes body_bytes status e =
     (case pf_esp_timer_get_time p e of (now, e1) \<Rightarrow>
        if now < deadline_us \<and> length request < RECEIVER_REQUEST_BYTES then
          (case pf_ssl_read p (RECEIVER_REQUEST_BYTES - length request) e1 of (status1, data, e2) \<Rightarrow>
             if status1 > 0 then
               let request1 = request @ data in
               (case (if header_bytes = 0 then note_header request1 body_bytes else Some (header_bytes, body_bytes)) of
                  None \<Rightarrow> Some (Some (- 1), request1, 0, 0, status1, e2)
                | Some (header1, body1) \<Rightarrow>
                    if header1 \<noteq> 0 \<and> length request1 \<ge> header1 + body1 then Some (None, request1, header1, body1, status1, e2)
                    else receive_request p deadline_us request1 header1 body1 status1 e2)
             else if want_io p status1 then
               receive_request p deadline_us request header_bytes body_bytes status1 (pf_task_delay_ms p 10 e2)
             else Some (Some status1, request, header_bytes, body_bytes, status1, e2))
        else Some (None, request, header_bytes, body_bytes, status, e1))"

definition crlf :: bytes where "crlf = [13, 10]"

definition discover_line :: bytes where
  "discover_line = ascii ''POST /Discover HTTP/1.''"

definition not_found :: bytes where
  "not_found = ascii ''HTTP/1.1 404 Not Found'' @ crlf @ ascii ''Content-Length: 0'' @ crlf @ ascii ''Connection: close'' @ crlf @ crlf"

definition response_head :: bytes where
  "response_head = ascii ''HTTP/1.1 200 OK'' @ crlf @ ascii ''Content-Length: '' @ digits 10 (length oracle_discover_body) @ crlf @
     ascii ''Content-Type: application/octet-stream'' @ crlf @ ascii ''Connection: close'' @ crlf @ crlf"

definition is_discover :: "bytes \<Rightarrow> bool" where
  "is_discover request \<longleftrightarrow> length request \<ge> length discover_line \<and> take (length discover_line) request = discover_line"

text \<open>The answer to a complete request.\<close>

definition answer_request :: "'e platform \<Rightarrow> int \<Rightarrow> bytes \<Rightarrow> int \<Rightarrow> 'e \<Rightarrow> (int \<times> 'e) option" where
  "answer_request p deadline_us request status e =
     (if \<not> is_discover request then do {
        (sent, status1, e1) \<leftarrow> tls_write_all p not_found deadline_us status e;
        Some (- 2, e1) }
      else if length response_head \<ge> 160 then Some (status, e)
      else do {
        (sent, status1, e1) \<leftarrow> tls_write_all p response_head deadline_us status e;
        if \<not> sent then Some (status1, e1)
        else do {
          (sent2, status2, e2) \<leftarrow> tls_write_all p oracle_discover_body deadline_us status1 e1;
          if \<not> sent2 then Some (status2, e2) else Some (0, e2) } })"

text \<open>The result is the return code, \<^verbatim>\<open>*request_bytes\<close>, the request buffer and the environment.\<close>

definition serve_discover :: "'e platform \<Rightarrow> nat \<Rightarrow> 'e \<Rightarrow> (int \<times> nat \<times> bytes \<times> 'e) option" where
  "serve_discover p request_bytes e =
     (case deadline_after p RECEIVER_REQUEST_TIMEOUT_MS e of (deadline_us, e1) \<Rightarrow> do {
        (early, request, header_bytes, body_bytes, status, e2) \<leftarrow> receive_request p deadline_us [] 0 0 0 e1;
        case early of
          Some code \<Rightarrow> Some (code, request_bytes, request, e2)
        | None \<Rightarrow>
            if header_bytes = 0 \<or> length request < header_bytes + body_bytes
            then Some (pf_ssl_timeout p, length request, request, e2)
            else do {
              (code, e3) \<leftarrow> answer_request p deadline_us request status e2;
              Some (code, length request, request, e3) } })"

section \<open>Connections\<close>

text \<open>What a connection logs: whether TLS was established, the request bytes, the Discover flag, the status.\<close>

record receiver_report =
  rp_tls :: bool
  rp_request_bytes :: nat
  rp_discover :: bool
  rp_status :: int

definition handle_connection ::
  "'e platform \<Rightarrow> 'e tls_library \<Rightarrow> ('e \<Rightarrow> 'e) \<Rightarrow> int \<Rightarrow> bytes \<Rightarrow> 'e \<Rightarrow> (receiver_report \<times> bytes \<times> 'e) option" where
  "handle_connection p l close_notify client_fd receiver_request e =
     (case tls_setup l NULL (tl_init l client_fd e) of (status, e1) \<Rightarrow> do {
        (status1, e2) \<leftarrow>
          (if status = 0 then
             (case deadline_after p RECEIVER_HANDSHAKE_TIMEOUT_MS e1 of (deadline_us, e2) \<Rightarrow> tls_handshake p l deadline_us e2)
           else Some (status, e1));
        let tls_connected = (status1 = 0);
        (status2, request_bytes, request, e3) \<leftarrow>
          (if tls_connected then do {
             (code, n, request, e3) \<leftarrow> serve_discover p 0 e2;
             Some (code, n, request, close_notify e3) }
           else Some (status1, 0, receiver_request, e2));
        Some (\<lparr>rp_tls = tls_connected, rp_request_bytes = request_bytes, rp_discover = (tls_connected \<and> status2 = 0), rp_status = status2\<rparr>,
              request, tl_free l e3) })"

text \<open>
  The listening socket: \<^verbatim>\<open>socket\<close>, \<^verbatim>\<open>bind\<close> and \<^verbatim>\<open>listen\<close> with their results, \<^verbatim>\<open>accept\<close> and \<^verbatim>\<open>close\<close>.
\<close>

record 'e socket_ops =
  so_socket :: "'e \<Rightarrow> int \<times> 'e"
  so_bind :: "int \<Rightarrow> u16 \<Rightarrow> 'e \<Rightarrow> int \<times> 'e"
  so_listen :: "int \<Rightarrow> 'e \<Rightarrow> int \<times> 'e"
  so_accept :: "int \<Rightarrow> 'e \<Rightarrow> int \<times> 'e"
  so_close :: "int \<Rightarrow> 'e \<Rightarrow> 'e"

partial_function (option) accept_loop ::
  "'e platform \<Rightarrow> 'e tls_library \<Rightarrow> ('e \<Rightarrow> 'e) \<Rightarrow> 'e socket_ops \<Rightarrow> int \<Rightarrow> nat \<Rightarrow> receiver_report list \<Rightarrow> bytes \<Rightarrow> 'e \<Rightarrow>
     (receiver_report list \<times> 'e) option" where
  "accept_loop p l close_notify so listener connection reports request e =
     (if connection \<le> RECEIVER_MAX_CONNECTIONS then
        (case so_accept so listener e of (client, e1) \<Rightarrow>
           if client < 0 then
             accept_loop p l close_notify so listener connection reports request (pf_task_delay_ms p 100 e1)
           else do {
             (report, request1, e2) \<leftarrow> handle_connection p l close_notify client request e1;
             accept_loop p l close_notify so listener (connection + 1) (reports @ [report]) request1 (so_close so client e2) })
      else Some (reports, e))"

definition receiver_task ::
  "'e platform \<Rightarrow> 'e tls_library \<Rightarrow> ('e \<Rightarrow> 'e) \<Rightarrow> 'e socket_ops \<Rightarrow> u16 \<Rightarrow> 'e \<Rightarrow> (receiver_report list \<times> 'e) option" where
  "receiver_task p l close_notify so receiver_port e =
     (case so_socket so e of (listener, e1) \<Rightarrow>
        if listener < 0 then Some ([], e1)
        else
          (case so_bind so listener receiver_port e1 of (bound, e2) \<Rightarrow>
             case (if bound \<noteq> 0 then (bound, e2) else so_listen so listener e2) of (listening, e3) \<Rightarrow>
               if bound \<noteq> 0 \<or> listening \<noteq> 0 then Some ([], so_close so listener e3)
               else do {
                 (reports, e4) \<leftarrow> accept_loop p l close_notify so listener 1 [] [] e3;
                 Some (reports, so_close so listener e4) }))"

record receiver_module =
  rm_port :: u16
  rm_started :: bool

text \<open>\<open>created\<close> is whether the task could be created.\<close>

definition espdrop_airdrop_receiver_oracle_start :: "bool \<Rightarrow> receiver_module \<Rightarrow> u16 \<Rightarrow> esp_err \<times> receiver_module" where
  "espdrop_airdrop_receiver_oracle_start created m port =
     (if port = 0 then (ESP_ERR_INVALID_ARG, m)
      else if rm_started m then (ESP_ERR_INVALID_STATE, m)
      else
        let m1 = m\<lparr>rm_port := port\<rparr> in
        if \<not> created then (ESP_ERR_NO_MEM, m1) else (ESP_OK, m1\<lparr>rm_started := True\<rparr>))"

section \<open>Framing\<close>

lemma header_end_bounds: "header_end_from bs i \<noteq> 0 \<Longrightarrow> i + 4 \<le> header_end_from bs i \<and> header_end_from bs i \<le> length bs"
proof (induction bs i rule: header_end_from.induct)
  case (1 bs i)
  then show ?case by (subst (asm) (2) header_end_from.simps, subst (1 2) header_end_from.simps) (auto split: if_splits)
qed

text \<open>More bytes do not move the end of a header that was found.\<close>

lemma header_end_append: "header_end_from bs i \<noteq> 0 \<Longrightarrow> header_end_from (bs @ extra) i = header_end_from bs i"
proof (induction bs i rule: header_end_from.induct)
  case (1 bs i)
  have in_range: "i + 3 < length bs" using 1(2) by (subst (asm) header_end_from.simps) (simp split: if_splits)
  then have same: "take 4 (drop i (bs @ extra)) = take 4 (drop i bs)" by simp
  show ?case
  proof (cases "take 4 (drop i bs) = [13, 10, 13, 10]")
    case True
    then show ?thesis using in_range same by (subst (1 2) header_end_from.simps) simp
  next
    case False
    then have "header_end_from bs (i + 1) \<noteq> 0" using 1(2) in_range by (subst (asm) header_end_from.simps) simp
    then show ?thesis using 1(1) [OF in_range False] in_range same False by (subst (1 2) header_end_from.simps) simp
  qed
qed

lemma header_found:
  assumes "find_header_end r \<noteq> 0"
  shows "find_header_end (r @ extra) = find_header_end r" "find_header_end r \<le> length r"
  using assms header_end_append [of r 0 extra] header_end_bounds [of r 0] by (simp_all add: find_header_end_def)

text \<open>The request is acceptable so far, and complete.\<close>

definition header_noted :: "bytes \<Rightarrow> nat \<Rightarrow> nat \<Rightarrow> bool" where
  "header_noted r h b \<longleftrightarrow> h = find_header_end r \<and> (h = 0 \<longrightarrow> b = 0) \<and>
     (h \<noteq> 0 \<longrightarrow> h \<le> RECEIVER_HEADER_LIMIT_BYTES \<and> parse_content_length (take h r) = (True, b) \<and> h + b \<le> RECEIVER_REQUEST_BYTES)"

definition request_complete :: "bytes \<Rightarrow> bool" where
  "request_complete r \<longleftrightarrow> (\<exists>h b. h \<noteq> 0 \<and> header_noted r h b \<and> h + b \<le> length r)"

lemma note_header_noted:
  assumes "header_noted r h b"
    and "(if h = 0 then note_header (r @ d) b else Some (h, b)) = Some (h1, b1)"
  shows "header_noted (r @ d) h1 b1"
proof (cases "h = 0")
  case True
  then show ?thesis
    using assms by (auto simp: header_noted_def note_header_def Let_def RECEIVER_REQUEST_BYTES_def RECEIVER_HEADER_LIMIT_BYTES_def
        split: if_splits prod.splits)
next
  case False
  then have "h = find_header_end r" "find_header_end r \<noteq> 0" using assms(1) by (simp_all add: header_noted_def)
  then show ?thesis using assms False header_found(1) [of r d] header_found(2) [of r] by (auto simp: header_noted_def)
qed

section \<open>The loops return\<close>

text \<open>The library can report the status zero, which it documents for a connection the peer closed.\<close>

definition reports_closed :: "'e platform \<Rightarrow> bool" where
  "reports_closed p \<longleftrightarrow> (\<exists>k x d x'. pf_ssl_read p k x = (0, d, x')) \<or> (\<exists>d x x'. pf_ssl_write p d x = (0, x'))"

lemma reports_closedI: "pf_ssl_read p k x = (0, d, x') \<Longrightarrow> reports_closed p" "pf_ssl_write p v x = (0, x') \<Longrightarrow> reports_closed p"
  by (auto simp: reports_closed_def)

lemma tls_write_all_loop_agrees:
  assumes "write_tls_loop p bs deadline_us written e = Some y"
  shows "\<exists>s. tls_write_all_loop p bs deadline_us written status e = Some (s, fst y \<noteq> None, snd y) \<and> (\<forall>f. fst y = Some f \<longrightarrow> s = f)"
proof -
  have "\<forall>status. \<exists>s. tls_write_all_loop p bs deadline_us written status e = Some (s, fst y \<noteq> None, snd y) \<and> (\<forall>f. fst y = Some f \<longrightarrow> s = f)"
    using assms
  proof (rule write_tls_loop.raw_induct [rotated], goal_cases)
    case (1 loop p bs deadline_us written e y)
    show ?case
      using 1(2) by (subst tls_write_all_loop.simps) (auto split: if_splits prod.splits dest!: 1(1))
  qed
  then show ?thesis by blast
qed

lemma write_tls_loop_failure:
  assumes "write_tls_loop p bs deadline_us written e = Some y"
  shows "fst y = Some f \<longrightarrow> (\<exists>d x x'. pf_ssl_write p d x = (f, x'))"
  using assms
proof (rule write_tls_loop.raw_induct [rotated], goal_cases)
  case (1 loop p bs deadline_us written e y)
  show ?case using 1(2) by (auto split: if_splits prod.splits dest!: 1(1)) blast+
qed

lemma tls_write_all_returns:
  assumes ok: "platform_ok p clock wire"
  shows "returns (tls_write_all p bs deadline_us status e) (\<lambda>(sent, s, e').
    clock e \<le> clock e' \<and> prefix (wire e') (wire e @ bs) \<and> prefix (wire e) (wire e') \<and> (sent \<longrightarrow> wire e' = wire e @ bs) \<and>
    (\<not> sent \<and> s = 0 \<longrightarrow> reports_closed p))"
proof -
  obtain failure n e' where w: "write_tls_loop p bs deadline_us 0 e = Some (failure, n, e')"
    "n \<le> length bs" "wire e' = wire e @ take n bs" "clock e \<le> clock e'"
    using write_tls_loop_returns [OF ok, of 0 bs deadline_us e] by (auto simp: returns_def)
  obtain s where s: "tls_write_all_loop p bs deadline_us 0 status e = Some (s, failure \<noteq> None, n, e')" "\<forall>f. failure = Some f \<longrightarrow> s = f"
    using tls_write_all_loop_agrees [OF w(1)] by auto
  have zero: "reports_closed p" if "failure = Some 0"
    using write_tls_loop_failure [OF w(1)] that by (auto intro: reports_closedI)
  have "pf_ssl_timeout p < 0" using ok by (simp add: platform_ok_def)
  then show ?thesis
    using s w(2-4) take_is_prefix [of n bs] zero by (cases failure) (auto simp: tls_write_all_def returns_def)
qed

lemma receive_request_returns:
  assumes ok: "platform_ok p clock wire"
  shows "header_noted request h b \<Longrightarrow> length request \<le> RECEIVER_REQUEST_BYTES \<Longrightarrow>
    returns (receive_request p deadline_us request h b status e) (\<lambda>(early, request', h', b', status', e').
      clock e \<le> clock e' \<and> wire e' = wire e \<and> length request' \<le> RECEIVER_REQUEST_BYTES \<and>
      (early = None \<longrightarrow> header_noted request' h' b') \<and>
      (early = Some 0 \<longrightarrow> reports_closed p))"
proof (induction "(RECEIVER_REQUEST_BYTES - length request, nat (deadline_us - clock e))" arbitrary: request h b status e
    rule: wf_induct_rule [OF wf_lex_prod [OF wf_less_than wf_less_than]])
  case 1
  note IH = 1(1) and noted = 1(2) and le = 1(3)
  obtain now e1 where t: "pf_esp_timer_get_time p e = (now, e1)" by force
  obtain status1 data e2 where r: "pf_ssl_read p (RECEIVER_REQUEST_BYTES - length request) e1 = (status1, data, e2)"
    by (rule prod_cases3)
  note tp = platform_time [OF ok t] and rp = platform_read [OF ok r]
  note dp = platform_delay [OF ok, of 10 e2]
  show ?case
  proof (cases "now < deadline_us \<and> length request < RECEIVER_REQUEST_BYTES")
    case False
    then show ?thesis
      unfolding returns_def using t tp le noted by (subst receive_request.simps) auto
  next
    case True
    consider "status1 > 0" | "status1 \<le> 0" "want_io p status1" | "status1 \<le> 0" "\<not> want_io p status1" by linarith
    then show ?thesis
    proof cases
      case 1
      let ?noted = "if h = 0 then note_header (request @ data) b else Some (h, b)"
      have fits: "0 < length data" "length (request @ data) \<le> RECEIVER_REQUEST_BYTES" using 1 rp True by auto
      have smaller: "RECEIVER_REQUEST_BYTES - length (request @ data) < RECEIVER_REQUEST_BYTES - length request"
        using fits True by (intro diff_less_mono2) auto
      show ?thesis
      proof (cases ?noted)
        case None
        then show ?thesis
          using True t r 1 tp rp fits by (subst receive_request.simps) (simp add: returns_def)
      next
        case (Some hb)
        obtain h1 b1 where hb: "hb = (h1, b1)" by force
        have noted1: "header_noted (request @ data) h1 b1" using note_header_noted [OF noted] Some hb by blast
        have "returns (receive_request p deadline_us (request @ data) h1 b1 status1 e2) (\<lambda>(early, request', h', b', status', e').
            clock e2 \<le> clock e' \<and> wire e' = wire e2 \<and> length request' \<le> RECEIVER_REQUEST_BYTES \<and>
            (early = None \<longrightarrow> header_noted request' h' b') \<and> (early = Some 0 \<longrightarrow> reports_closed p))"
          by (rule IH) (use smaller fits(2) noted1 in auto)
        then show ?thesis
          using True t r 1 tp rp fits Some hb noted1
          by (subst receive_request.simps) (auto simp: Let_def intro!: ok_Some elim!: ok_mono)
      qed
    next
      case 2
      have "returns (receive_request p deadline_us request h b status1 (pf_task_delay_ms p 10 e2)) (\<lambda>(early, request', h', b', status', e').
          clock (pf_task_delay_ms p 10 e2) \<le> clock e' \<and> wire e' = wire (pf_task_delay_ms p 10 e2) \<and>
          length request' \<le> RECEIVER_REQUEST_BYTES \<and> (early = None \<longrightarrow> header_noted request' h' b') \<and>
          (early = Some 0 \<longrightarrow> reports_closed p))"
        by (rule IH) (use True 2 tp rp dp le noted in auto)
      then show ?thesis
        using True t r 2 tp rp dp by (subst receive_request.simps) (auto elim!: ok_mono)
    next
      case 3
      then show ?thesis
        using True t r tp rp le by (subst receive_request.simps) (auto simp: returns_def intro: reports_closedI(1) [of _ "RECEIVER_REQUEST_BYTES - length request" e1])
    qed
  qed
qed

definition discover_response :: bytes where
  "discover_response = response_head @ oracle_discover_body"

lemma length_discover: "length oracle_discover_body = 157" "length response_head < 160"
  by (simp_all add: oracle_discover_body_def response_head_def crlf_def digits_step digits_small)

text \<open>The answer is a prefix of the right text, and the code zero means that all of it went out or that a write reported zero.\<close>

lemma answer_request_returns:
  assumes ok: "platform_ok p clock wire"
  shows "returns (answer_request p deadline_us request status e) (\<lambda>(code, e').
    clock e \<le> clock e' \<and> prefix (wire e') (wire e @ (if is_discover request then discover_response else not_found)) \<and>
    (code = 0 \<longrightarrow> is_discover request \<and> wire e' = wire e @ discover_response \<or> reports_closed p))"
proof -
  have longer: "prefix u (w @ response_head) \<Longrightarrow> prefix u (w @ response_head @ oracle_discover_body)" for u w
    by (metis append_assoc prefix_order.trans prefixI)
  obtain sent s1 e1 where first: "tls_write_all p (if is_discover request then response_head else not_found) deadline_us status e = Some (sent, s1, e1)"
    and f: "clock e \<le> clock e1" "prefix (wire e1) (wire e @ (if is_discover request then response_head else not_found))"
      "sent \<Longrightarrow> wire e1 = wire e @ (if is_discover request then response_head else not_found)"
      "\<not> sent \<Longrightarrow> s1 = 0 \<Longrightarrow> reports_closed p"
    using tls_write_all_returns [OF ok, of _ deadline_us status e] unfolding returns_def by fast
  obtain sent2 s2 e2 where second: "tls_write_all p oracle_discover_body deadline_us s1 e1 = Some (sent2, s2, e2)"
    and g: "clock e1 \<le> clock e2" "prefix (wire e2) (wire e1 @ oracle_discover_body)" "sent2 \<Longrightarrow> wire e2 = wire e1 @ oracle_discover_body"
      "\<not> sent2 \<Longrightarrow> s2 = 0 \<Longrightarrow> reports_closed p"
    using tls_write_all_returns [OF ok, of _ deadline_us s1 e1] unfolding returns_def by fast
  show ?thesis
    using first f second g length_discover longer
    by (auto simp: answer_request_def discover_response_def returns_def)
qed

section \<open>Serving\<close>

lemma serve_discover_returns:
  assumes ok: "platform_ok p clock wire"
  shows "returns (serve_discover p n e) (\<lambda>(code, n', request, e').
    clock e \<le> clock e' \<and> length request \<le> RECEIVER_REQUEST_BYTES \<and>
    (wire e' \<noteq> wire e \<longrightarrow> request_complete request) \<and>
    prefix (wire e') (wire e @ (if is_discover request then discover_response else not_found)) \<and>
    (code = 0 \<longrightarrow> request_complete request \<and> is_discover request \<and> wire e' = wire e @ discover_response \<or>
       reports_closed p))"
proof -
  obtain deadline_us e1 where d: "deadline_after p RECEIVER_REQUEST_TIMEOUT_MS e = (deadline_us, e1)" by force
  have e1: "clock e \<le> clock e1" "wire e1 = wire e" using deadline_after_time [OF ok d] by auto
  have tmo: "pf_ssl_timeout p \<noteq> 0" using ok by (auto simp: platform_ok_def)
  have start: "header_noted [] 0 0" by (simp add: header_noted_def find_header_end_def header_end_from.simps)
  obtain early request h b status e2 where recv: "receive_request p deadline_us [] 0 0 0 e1 = Some (early, request, h, b, status, e2)"
    and r: "clock e1 \<le> clock e2" "wire e2 = wire e1" "length request \<le> RECEIVER_REQUEST_BYTES"
      "early = None \<Longrightarrow> header_noted request h b" "early = Some 0 \<Longrightarrow> reports_closed p"
    using receive_request_returns [OF ok start, of deadline_us 0 e1] unfolding returns_def by force
  obtain code e3 where ans: "answer_request p deadline_us request status e2 = Some (code, e3)"
    and a: "clock e2 \<le> clock e3" "prefix (wire e3) (wire e2 @ (if is_discover request then discover_response else not_found))"
      "code = 0 \<Longrightarrow> is_discover request \<and> wire e3 = wire e2 @ discover_response \<or> reports_closed p"
    using answer_request_returns [OF ok, of deadline_us request status e2] unfolding returns_def by fast
  have complete: "request_complete request" if "early = None" "h \<noteq> 0" "h + b \<le> length request"
    unfolding request_complete_def by (rule exI [of _ h], rule exI [of _ b]) (use r(4) that in simp)
  show ?thesis
  proof (cases "early = None \<and> \<not> (h = 0 \<or> length request < h + b)")
    case True
    then have "serve_discover p n e = Some (code, length request, request, e3)"
      by (simp add: serve_discover_def d recv ans)
    moreover have "request_complete request" using complete True by simp
    ultimately show ?thesis using a r(1-3) e1 by (simp add: returns_def split del: if_split)
  next
    case False
    then have "\<exists>code' n'. serve_discover p n e = Some (code', n', request, e2) \<and> (code' = 0 \<longrightarrow> early = Some 0)"
      using tmo by (cases early) (auto simp: serve_discover_def d recv)
    then obtain code' n' where "serve_discover p n e = Some (code', n', request, e2)" "code' = 0 \<longrightarrow> early = Some 0" by blast
    then show ?thesis using r e1 by (simp add: returns_def split del: if_split)
  qed
qed

text \<open>Every connection ends, and a task that ends has served the budget of connections.\<close>

lemma handle_connection_returns:
  assumes ok: "platform_ok p clock wire" and lib: "library_ok l clock wire"
  shows "returns (handle_connection p l close_notify client request e) (\<lambda>(report, request', e'). rp_discover report \<longrightarrow> rp_tls report)"
proof -
  obtain status e1 where s: "tls_setup l NULL (tl_init l client e) = (status, e1)" by force
  obtain deadline_us e2 where d: "deadline_after p RECEIVER_HANDSHAKE_TIMEOUT_MS e1 = (deadline_us, e2)" by force
  have hs: "\<exists>st x. tls_handshake p l deadline_us e2 = Some (st, x)"
    using tls_handshake_returns [OF ok lib, of deadline_us e2] by (auto simp: returns_def)
  have serve: "\<exists>code n request x'. serve_discover p 0 x = Some (code, n, request, x')" for x
    using serve_discover_returns [OF ok, of 0 x] by (auto simp: returns_def)
  obtain st x where st: "(if status = 0 then (case deadline_after p RECEIVER_HANDSHAKE_TIMEOUT_MS e1 of (deadline_us, e2) \<Rightarrow>
      tls_handshake p l deadline_us e2) else Some (status, e1)) = Some (st, x)"
    using hs by (cases "status = 0") (auto simp: d)
  obtain code n req x' where sv: "serve_discover p 0 x = Some (code, n, req, x')" using serve by blast
  show ?thesis
    unfolding handle_connection_def s prod.case st using sv by (cases "st = 0") (simp_all add: returns_def Let_def)
qed

lemma accept_loop_budget:
  assumes "accept_loop p l close_notify so listener connection reports request e = Some y"
  shows "length (fst y) = length reports + (RECEIVER_MAX_CONNECTIONS + 1 - connection)"
  using assms
proof (rule accept_loop.raw_induct [rotated], goal_cases)
  case (1 loop p l close_notify so listener connection reports request e y)
  show ?case
    using 1(2) by (auto split: if_splits prod.splits Option.bind_splits dest!: 1(1))
qed

text \<open>The body of the answer, read by the rules of the property list format.\<close>

definition receiver_dictionary :: plist where
  "receiver_dictionary = PDict
     [(pstr ''ReceiverMediaCapabilities'', PData (ascii ''{'' @ [34] @ ascii ''Version'' @ [34] @ ascii '': 1}'')),
      (pstr ''ReceiverComputerName'', pstr ''espDrop''), (pstr ''ReceiverModelName'', pstr ''ESP32-S3'')]"

lemma discover_body_dictionary: "bplist_read oracle_discover_body = Some receiver_dictionary"
  by code_simp


definition loop_request :: "bytes list" where
  "loop_request = [ascii ''POST /Discover HTTP/1.1'' @ crlf @ ascii ''content-length: '', ascii ''2'' @ crlf @ crlf @ ascii ''a'', ascii ''b'']"

lemma loop_receive:
  "receive_request loop_platform 15000000 [] 0 0 0 (0, [], loop_request) = Some (None, concat loop_request, 46, 2, 1, 0, [], [])"
proof -
  have noted: "note_header (loop_request ! 0) 0 = Some (0, 0)" "note_header (loop_request ! 0 @ loop_request ! 1) 0 = Some (46, 2)"
    by (simp_all add: note_header_def find_header_end_def header_end_from.simps loop_request_def ascii_def crlf_def
        RECEIVER_HEADER_LIMIT_BYTES_def RECEIVER_REQUEST_BYTES_def parse_content_length_def content_length_lines.simps
        ascii_starts_with_case_def c_tolower_def content_length_value_def SIZE_MAX_def)
  define a b c where abc: "a = loop_request ! 0" "b = loop_request ! 1" "c = loop_request ! 2"
  have l: "length a = 41" "length b = 6" "length c = 1" by (simp_all add: abc loop_request_def ascii_def crlf_def)
  have pieces: "loop_request = [a, b, c]" by (simp add: abc loop_request_def)
  show ?thesis
    unfolding pieces using noted [folded abc]
    by (simp add: receive_request.simps [of _ _ "[]"] receive_request.simps [of _ _ a] receive_request.simps [of _ _ "a @ b"]
        loop_platform_def l RECEIVER_REQUEST_BYTES_def)
qed

lemma loop_write:
  assumes "fst e < deadline" "bs \<noteq> []"
  shows "tls_write_all loop_platform bs deadline status e = Some (True, int (length bs), fst e, fst (snd e) @ bs, snd (snd e))"
  using assms by (simp add: tls_write_all_def tls_write_all_loop.simps loop_platform_def)

lemma loop_serve:
  "serve_discover loop_platform 0 (0, [], loop_request) =
     Some (0, length (concat loop_request), concat loop_request, 0, response_head @ oracle_discover_body, [])"
proof -
  have nonempty: "response_head \<noteq> []" "oracle_discover_body \<noteq> []" by (simp_all add: response_head_def ascii_def oracle_discover_body_def)
  have "is_discover (concat loop_request)" "length (concat loop_request) = 48" by (simp_all add: is_discover_def discover_line_def loop_request_def crlf_def ascii_def)
  then show ?thesis
    using length_discover nonempty
    by (simp add: serve_discover_def deadline_after_def RECEIVER_REQUEST_TIMEOUT_MS_def loop_receive answer_request_def loop_write)
qed


text \<open>A peer that closes after the handshake is logged as a served Discover request.\<close>

definition closing_platform :: "loopback platform" where
  "closing_platform = loop_platform\<lparr>pf_ssl_read := \<lambda>k e. (0, [], e)\<rparr>"

lemma closed_connection_logged_as_discover:
  "map_option (\<lambda>(report, request, e). (rp_discover report, rp_status report, request, fst (snd e)))
     (handle_connection closing_platform loop_library id 3 [] (0, [], [])) = Some (True, 0, [], [])"
  by (simp add: handle_connection_def tls_setup_def loop_library_def closing_platform_def loop_platform_def deadline_after_def
      RECEIVER_HANDSHAKE_TIMEOUT_MS_def RECEIVER_REQUEST_TIMEOUT_MS_def RECEIVER_REQUEST_BYTES_def serve_discover_def
      receive_request.simps tls_handshake.simps want_io_def Let_def)

end
