(* ===== verification/Serial_Commands.thy ===== *)
theory Serial_Commands
  imports Relay_Stream Improv_Codec
begin

text \<open>
  The command language of the maintenance port, \<^verbatim>\<open>src/main/maintenance_serial.c\<close>: the pure parsers of
  its text commands and Improv payloads, over what they use of the C library (\<^verbatim>\<open>strtok_r\<close>, \<^verbatim>\<open>strtoul\<close>).
  A line is the C string before its terminator; \<^verbatim>\<open>unsigned long\<close> has 32 bits on the target.
\<close>

section \<open>The C library\<close>

definition ULONG_MAX :: nat where "ULONG_MAX = 2 ^ 32 - 1"

definition c_isspace :: "byte \<Rightarrow> bool" where
  "c_isspace c \<longleftrightarrow> c = 32 \<or> (9 \<le> c \<and> c \<le> 13)"

definition base_digit :: "nat \<Rightarrow> byte \<Rightarrow> bool" where
  "base_digit base c \<longleftrightarrow> (case digit_value c of None \<Rightarrow> False | Some d \<Rightarrow> d < base)"

definition strip_sign :: "bytes \<Rightarrow> bool \<times> bytes" where
  "strip_sign s = (case s of [] \<Rightarrow> (False, []) | c # cs \<Rightarrow> if c = 45 then (True, cs) else if c = 43 then (False, cs) else (False, s))"

definition strip_radix :: "nat \<Rightarrow> bytes \<Rightarrow> bytes" where
  "strip_radix base s =
     (if base = 16 \<and> length s > 2 \<and> s ! 0 = 48 \<and> (s ! 1 = 120 \<or> s ! 1 = 88) \<and> base_digit 16 (s ! 2) then drop 2 s else s)"

text \<open>The value, and the text at the end pointer; without digits the whole text.\<close>

definition strtoul :: "bytes \<Rightarrow> nat \<Rightarrow> nat \<times> bytes" where
  "strtoul s base =
     (case strip_sign (dropWhile c_isspace s) of (negative, s1) \<Rightarrow>
        let s2 = strip_radix base s1; ds = takeWhile (base_digit base) s2;
            v = positional base (map (\<lambda>c. the (digit_value c)) ds) in
        if ds = [] then (0, s)
        else (if v > ULONG_MAX then ULONG_MAX else if negative then (ULONG_MAX + 1 - v) mod (ULONG_MAX + 1) else v, drop (length ds) s2))"

definition strtok_r :: "bytes \<Rightarrow> bytes ptr \<times> bytes" where
  "strtok_r s =
     (let s1 = dropWhile (\<lambda>c. c = 32) s; token = takeWhile (\<lambda>c. c \<noteq> 32) s1 in
      if s1 = [] then (NULL, []) else (Ptr token, drop (length token + 1) s1))"

text \<open>The results of successive calls.\<close>

primrec strtok_times :: "nat \<Rightarrow> bytes \<Rightarrow> bytes ptr list" where
  "strtok_times 0 s = []"
| "strtok_times (Suc n) s = (case strtok_r s of (token, rest) \<Rightarrow> token # strtok_times n rest)"

text \<open>A numeric field: its value, or the default for a missing token; and whether it is a whole number.\<close>

definition number_field :: "nat \<Rightarrow> nat \<Rightarrow> bytes ptr \<Rightarrow> nat" where
  "number_field base default_value t = (if t \<noteq> NULL then fst (strtoul (deref t) base) else default_value)"

definition field_parsed :: "nat \<Rightarrow> bytes ptr \<Rightarrow> bool" where
  "field_parsed base t \<longleftrightarrow> t \<noteq> NULL \<and> snd (strtoul (deref t) base) = []"

section \<open>Fields\<close>

definition hex_nibble :: "byte \<Rightarrow> int" where
  "hex_nibble v =
     (if 48 \<le> v \<and> v \<le> 57 then uint v - 48
      else if 97 \<le> v \<and> v \<le> 102 then uint v - 97 + 10
      else if 65 \<le> v \<and> v \<le> 70 then uint v - 65 + 10
      else - 1)"

fun decode_hex_pairs :: "bytes \<Rightarrow> bytes option" where
  "decode_hex_pairs (a # b # rest) =
     (let high = hex_nibble a; low = hex_nibble b in
      if high < 0 \<or> low < 0 \<or> (high = 0 \<and> low = 0) then None
      else map_option (\<lambda>ds. (push_bit 4 (of_int high) OR of_int low) # ds) (decode_hex_pairs rest))"
| "decode_hex_pairs _ = Some []"

definition decode_hex_name :: "bytes ptr \<Rightarrow> nat \<Rightarrow> bytes option" where
  "decode_hex_name encoded capacity =
     (let n = (if encoded \<noteq> NULL then length (deref encoded) else 0) in
      if n = 0 \<or> n mod 2 \<noteq> 0 \<or> n div 2 \<ge> capacity then None else decode_hex_pairs (deref encoded))"

definition file_type_char :: "byte \<Rightarrow> bool" where
  "file_type_char c \<longleftrightarrow> (97 \<le> c \<and> c \<le> 122) \<or> (65 \<le> c \<and> c \<le> 90) \<or> (48 \<le> c \<and> c \<le> 57) \<or> c = 46 \<or> c = 45"

definition valid_file_type :: "bytes ptr \<Rightarrow> bool" where
  "valid_file_type file_type \<longleftrightarrow> \<not> (file_type = NULL \<or> deref file_type = [] \<or> length (deref file_type) > RELAY_SPOOL_FILE_TYPE_MAX) \<and>
     list_all file_type_char (deref file_type)"

primrec parse_mac_loop :: "bytes \<Rightarrow> bytes \<Rightarrow> nat \<Rightarrow> (bytes \<times> nat) option" where
  "parse_mac_loop [] parsed nibble = Some (parsed, nibble)"
| "parse_mac_loop (c # cs) parsed nibble =
     (if c = 58 \<or> c = 45 then parse_mac_loop cs parsed nibble
      else
        let v = hex_nibble c in
        if v < 0 \<or> nibble \<ge> 12 then None
        else
          let i = nibble div 2;
              parsed1 = (if nibble mod 2 = 0 then parsed[i := push_bit 4 (of_int v)] else parsed[i := parsed ! i OR of_int v]) in
          parse_mac_loop cs parsed1 (nibble + 1))"

definition parse_mac :: "bytes ptr \<Rightarrow> mac option" where
  "parse_mac input =
     (if input = NULL then None
      else
        (case parse_mac_loop (deref input) (replicate 6 0) 0 of
           None \<Rightarrow> None
         | Some (parsed, nibble) \<Rightarrow> if nibble \<noteq> 12 \<or> memcmp parsed (replicate 6 0) 6 = 0 then None else Some parsed))"

section \<open>Upload requests\<close>

definition relay_command :: bytes where "relay_command = ascii ''ESPDROP RELAY BEGIN ''"
definition stream_begin_command :: bytes where "stream_begin_command = ascii ''ESPDROP STREAM BEGIN ''"
definition stream_data_command :: bytes where "stream_data_command = ascii ''ESPDROP STREAM DATA ''"
definition ota_command :: bytes where "ota_command = ascii ''ESPDROP OTA''"

definition starts_with :: "bytes \<Rightarrow> bytes \<Rightarrow> bool" where
  "starts_with pre line \<longleftrightarrow> take (length pre) line = pre"

record relay_request =
  rq_size :: nat
  rq_crc32 :: u32
  rq_file_name :: bytes
  rq_file_type :: bytes

definition parse_relay_request :: "nat \<Rightarrow> bytes \<Rightarrow> relay_request option" where
  "parse_relay_request capacity line =
     (let fields = strtok_times 5 (drop (length relay_command) line);
          size_text = fields ! 0; crc_text = fields ! 1; name_hex = fields ! 2; file_type = fields ! 3; extra = fields ! 4;
          size_value = number_field 10 0 size_text; crc_value = number_field 16 0 crc_text;
          file_name = decode_hex_name name_hex (RELAY_SPOOL_FILE_NAME_MAX + 1) in
      if size_text = NULL \<or> crc_text = NULL \<or> name_hex = NULL \<or> file_type = NULL \<or> extra \<noteq> NULL \<or>
         \<not> field_parsed 10 size_text \<or> \<not> field_parsed 16 crc_text \<or> size_value = 0 \<or> size_value > capacity \<or>
         crc_value > UINT32_MAX \<or> file_name = None \<or> \<not> valid_file_type file_type
      then None
      else Some \<lparr>rq_size = size_value, rq_crc32 = of_nat crc_value, rq_file_name = the file_name, rq_file_type = deref file_type\<rparr>)"

record stream_request =
  rs_request :: relay_request
  rs_payload_size :: nat
  rs_payload_crc :: u32
  rs_archive_size :: nat
  rs_block_count :: nat

definition shape_valid :: "nat \<Rightarrow> nat \<Rightarrow> nat \<Rightarrow> bool" where
  "shape_valid payload_size archive_size block_count \<longleftrightarrow>
     archive_size > 0 \<and> block_count > 0 \<and> block_count \<le> ULONG_MAX div 4 \<and> archive_size \<le> ULONG_MAX - block_count * 4 \<and>
     archive_size \<le> ULONG_MAX - (ESPDROP_AIRDROP_DVZIP_STREAM_BLOCK_BYTES - 1) \<and> payload_size = archive_size + block_count * 4 \<and>
     block_count = (archive_size + ESPDROP_AIRDROP_DVZIP_STREAM_BLOCK_BYTES - 1) div ESPDROP_AIRDROP_DVZIP_STREAM_BLOCK_BYTES"

definition parse_stream_request :: "nat \<Rightarrow> bytes \<Rightarrow> stream_request option" where
  "parse_stream_request max_transfer_bytes line =
     (let fields = strtok_times 9 (drop (length stream_begin_command) line);
          bases = [10, 16, 10, 16, 10, 10];
          numbers = map2 (\<lambda>b t. number_field b 0 t) bases (take 6 fields);
          parsed_numbers = list_all2 field_parsed bases (take 6 fields);
          name_hex = fields ! 6; file_type = fields ! 7; extra = fields ! 8;
          file_size = numbers ! 0; file_crc = numbers ! 1; payload_size = numbers ! 2; payload_crc = numbers ! 3;
          archive_size = numbers ! 4; block_count = numbers ! 5;
          file_name = decode_hex_name name_hex (RELAY_SPOOL_FILE_NAME_MAX + 1) in
      if \<not> parsed_numbers \<or> name_hex = NULL \<or> file_type = NULL \<or> extra \<noteq> NULL \<or> file_size = 0 \<or>
         file_size > max_transfer_bytes \<or> file_crc > UINT32_MAX \<or> payload_size = 0 \<or> payload_crc > UINT32_MAX \<or>
         \<not> shape_valid payload_size archive_size block_count \<or> file_name = None \<or> \<not> valid_file_type file_type
      then None
      else Some \<lparr>rs_request = \<lparr>rq_size = file_size, rq_crc32 = of_nat file_crc, rq_file_name = the file_name, rq_file_type = deref file_type\<rparr>,
                 rs_payload_size = payload_size, rs_payload_crc = of_nat payload_crc, rs_archive_size = archive_size,
                 rs_block_count = block_count\<rparr>)"

text \<open>A chunk announcement: sequence number, size and checksum.\<close>

definition parse_stream_chunk :: "'b relay_stream_state \<Rightarrow> bytes \<Rightarrow> (u32 \<times> nat \<times> u32) option" where
  "parse_stream_chunk stream line =
     (let fields = strtok_times 4 (drop (length stream_data_command) line);
          sequence_text = fields ! 0; size_text = fields ! 1; crc_text = fields ! 2; extra = fields ! 3;
          sequence_value = number_field 10 ULONG_MAX sequence_text; size_value = number_field 10 0 size_text;
          crc_value = number_field 16 ULONG_MAX crc_text in
      if sequence_text = NULL \<or> size_text = NULL \<or> crc_text = NULL \<or> extra \<noteq> NULL \<or> \<not> field_parsed 10 sequence_text \<or>
         \<not> field_parsed 10 size_text \<or> \<not> field_parsed 16 crc_text \<or> sequence_value > UINT32_MAX \<or> crc_value > UINT32_MAX \<or>
         relay_stream_validate_chunk stream (of_nat sequence_value) size_value \<noteq> ESP_OK
      then None
      else Some (of_nat sequence_value, size_value, of_nat crc_value))"

section \<open>Improv payloads\<close>

definition decode_wifi_settings :: "bytes ptr \<Rightarrow> nat \<Rightarrow> nat \<Rightarrow> (bytes \<times> bytes) option option" where
  "decode_wifi_settings input ssid_capacity password_capacity =
     (if input = NULL \<or> length (deref input) < 2 then Some None
      else
        let data = deref input in do {
          first \<leftarrow> rd data 0;
          let n = unat first;
          if n = 0 \<or> n \<ge> ssid_capacity \<or> 1 + n + 1 > length data then Some None
          else do {
            ssid \<leftarrow> rds data 1 n;
            second \<leftarrow> rd data (1 + n);
            let k = unat second;
            if k \<ge> password_capacity \<or> 1 + n + 1 + k \<noteq> length data then Some None
            else do {
              password \<leftarrow> rds data (1 + n + 1) k;
              Some (Some (ssid, password)) } } })"

text \<open>The strings of an RPC result; \<open>NULL\<close> counts as empty.\<close>

fun rpc_strings :: "bytes ptr list \<Rightarrow> bytes \<Rightarrow> bytes option" where
  "rpc_strings [] data = Some data"
| "rpc_strings (s # rest) data =
     (let v = (if s \<noteq> NULL then deref s else []) in
      if length v > 255 \<or> length data + 1 + length v > IMPROV_SERIAL_MAX_DATA then None
      else rpc_strings rest (data @ [of_nat (length v)] @ v))"

definition rpc_result_data :: "byte \<Rightarrow> bytes ptr list \<Rightarrow> bytes option" where
  "rpc_result_data command strings =
     map_option (\<lambda>data. data[1 := of_nat (length data - 2)]) (rpc_strings strings [command, 0])"

end
