(* ===== verification/Tx_Lab.thy ===== *)
theory Tx_Lab
  imports Awdl_Tx Peer_Table Serial_Commands
begin

text \<open>
  The transmit laboratory, \<^verbatim>\<open>src/core/src/awdl_tx_lab.c\<close> (the build with the transmit laboratory and the
  dynamic election): the peers' last MIFs, the state shared by the tasks, target control, and the observation
  of a MIF, cut where the code releases \<^verbatim>\<open>state_lock\<close>. The transmit task itself is not modelled. The peer table a
  function finds is an argument, \<open>NULL\<close> when there is none or it could not be locked.
\<close>

section \<open>State\<close>

definition AWDL_TX_LAB_ELECTION_PEERS :: nat where "AWDL_TX_LAB_ELECTION_PEERS = ESPDROP_AWDL_ELECTION_MAX_PEERS"
definition AWDL_TX_LAB_FIXED_CHANNEL_PEER_TIMEOUT_US :: u64 where "AWDL_TX_LAB_FIXED_CHANNEL_PEER_TIMEOUT_US = 5000000"
definition AWDL_TX_LAB_AWDL_SEQUENCE_OFFSET :: nat where "AWDL_TX_LAB_AWDL_SEQUENCE_OFFSET = 34"
definition ESPDROP_AWDL_NETIF_SEQUENCE_MARKER :: u16 where "ESPDROP_AWDL_NETIF_SEQUENCE_MARKER = 0x8000"

datatype awdl_target_mode = AWDL_TARGET_NONE | AWDL_TARGET_AUTO | AWDL_TARGET_MANUAL

text \<open>The configuration of the build.\<close>

record tx_lab_config =
  xc_auto_target_airdrop :: bool
  xc_settle_ms :: u64
  xc_max_age_ms :: u64
  xc_min_rssi :: int
  xc_margin_db :: int
  xc_target_mac :: bytes
  xc_schedule_mac :: bytes
  xc_receiver_port :: "u16 option"

record peer_mif =
  pm_valid :: bool
  pm_source :: mac
  pm_peer_phy_tx :: u32
  pm_received_at_us :: u64
  pm_mif :: mif

record tx_lab =
  lb_state_lock :: bool
  lb_tx_state :: tx_state
  lb_target_state :: tx_state
  lb_election :: election
  lb_peer_mifs :: "peer_mif list"
  lb_station_mac :: mac
  lb_target_mac :: mac
  lb_has_target_mac :: bool
  lb_target_mode :: awdl_target_mode
  lb_target_control_configured :: bool
  lb_schedule_mac :: mac
  lb_has_schedule_mac :: bool
  lb_device_name :: bytes
  lb_has_state :: bool
  lb_has_target_state :: bool
  lb_task_started :: bool
  lb_run_requested :: bool
  lb_netif_ready :: bool
  lb_directed_reactions :: u32
  lb_neighbor_advertisements :: u32
  lb_echo_replies :: u32
  lb_action_radio_completed :: u32
  lb_action_radio_success :: u32
  lb_action_radio_failed :: u32
  lb_data_radio_completed :: u32
  lb_data_radio_success :: u32
  lb_data_radio_failed :: u32
  lb_unknown_data_radio_completed :: u32
  lb_first_airdrop_us :: u64
  lb_first_endpoint_us :: u64
  lb_last_status_us :: u64
  lb_last_endpoint_status_us :: u64

section \<open>The MIFs of the peers\<close>

definition find_peer_mif :: "peer_mif list \<Rightarrow> mac \<Rightarrow> nat option" where
  "find_peer_mif peer_mifs source = find_index (\<lambda>p. pm_valid p \<and> memcmp (pm_source p) source 6 = 0) peer_mifs"

text \<open>The first entry that is not valid, or else the one received first.\<close>

function free_or_oldest :: "peer_mif list \<Rightarrow> nat \<Rightarrow> nat \<Rightarrow> nat" where
  "free_or_oldest peer_mifs index oldest =
     (if index < length peer_mifs then
        if \<not> pm_valid (peer_mifs ! index) then index
        else free_or_oldest peer_mifs (index + 1)
               (if pm_received_at_us (peer_mifs ! index) < pm_received_at_us (peer_mifs ! oldest) then index else oldest)
      else oldest)"
  by pat_completeness auto
termination
  by (relation "measure (\<lambda>(ms, i, oldest). length ms - i)") auto

declare free_or_oldest.simps [simp del]

definition store_peer_mif :: "awdl_action \<Rightarrow> mif \<Rightarrow> u64 \<Rightarrow> peer_mif list \<Rightarrow> peer_mif list" where
  "store_peer_mif action m received_at_us peer_mifs =
     (let entry = (case find_peer_mif peer_mifs (act_source action) of Some i \<Rightarrow> i | None \<Rightarrow> free_or_oldest peer_mifs 0 0) in
      peer_mifs[entry := \<lparr>pm_valid = True, pm_source = act_source action, pm_peer_phy_tx = act_phy_tx action,
        pm_received_at_us = received_at_us, pm_mif = m\<rparr>])"

text \<open>The transmit state of a stored MIF.\<close>

definition state_of_peer_mif :: "tx_lab \<Rightarrow> peer_mif \<Rightarrow> bool \<times> tx_state" where
  "state_of_peer_mif lab saved =
     (case espdrop_awdl_tx_state_from_mif (Ptr tx_state_zero) (Ptr (lb_station_mac lab)) (Ptr (pm_source saved))
             (Ptr (lb_device_name lab)) (pm_peer_phy_tx saved) (Ptr (pm_mif saved)) (pm_received_at_us saved) of
        (ok, state) \<Rightarrow> (ok, deref state))"

definition dynamic_election_candidate :: "awdl_action \<Rightarrow> mif \<Rightarrow> u64 \<Rightarrow> tx_lab \<Rightarrow> tx_state option \<times> tx_lab" where
  "dynamic_election_candidate action m received_at_us lab =
     (if \<not> mif_has_election_v2 m then (None, lab)
      else
        let lab1 = lab\<lparr>lb_peer_mifs := store_peer_mif action m received_at_us (lb_peer_mifs lab)\<rparr> in
        case espdrop_awdl_election_observe (Ptr (lb_election lab1)) (Ptr (act_source action)) (Ptr (mif_election_v2 m))
               received_at_us (Ptr False) of
          (observed, election, changed) \<Rightarrow>
            let lab2 = lab1\<lparr>lb_election := deref election\<rparr>; elected = el_state (lb_election lab2) in
            if \<not> observed then (None, lab2)
            else
              (case find_peer_mif (lb_peer_mifs lab2) (es_sync_master elected) of
                 None \<Rightarrow> (None, lab2)
               | Some i \<Rightarrow>
                   (case state_of_peer_mif lab2 (lb_peer_mifs lab2 ! i) of (ok, state) \<Rightarrow>
                      if \<not> ok then (None, lab2)
                      else
                        (case espdrop_awdl_tx_state_apply_election (Ptr state) (Ptr elected) of (applied, candidate) \<Rightarrow>
                           (if applied then Some (deref candidate) else None, lab2)))))"

section \<open>Start\<close>

text \<open>\<^verbatim>\<open>sscanf(text, "%x:%x:%x:%x:%x:%x%c", ...)\<close> with exactly six conversions: \<open>n\<close> more numbers are expected.\<close>

fun scan_octets :: "nat \<Rightarrow> bytes \<Rightarrow> nat list option" where
  "scan_octets 0 s = (if s = [] then Some [] else None)"
| "scan_octets (Suc n) s =
     (case strtoul s 16 of (v, rest) \<Rightarrow>
        if length rest = length s then None
        else if n = 0 then map_option (\<lambda>vs. v # vs) (scan_octets 0 rest)
        else if rest = [] \<or> hd rest \<noteq> 58 then None
        else map_option (\<lambda>vs. v # vs) (scan_octets n (tl rest)))"

text \<open>The octets are written until one is too large.\<close>

definition lab_parse_mac :: "bytes \<Rightarrow> mac \<Rightarrow> bool \<times> mac" where
  "lab_parse_mac t output =
     (if t = [] then (False, output)
      else case scan_octets 6 t of
        None \<Rightarrow> (False, output)
      | Some octets \<Rightarrow>
          let small = takeWhile (\<lambda>v. v \<le> 0xff) octets in
          (length small = 6, map of_nat small @ drop (length small) output))"

text \<open>The targets of the configuration, unless the host was first, and the source of the schedule.\<close>

definition init_target :: "tx_lab_config \<Rightarrow> tx_lab \<Rightarrow> tx_lab" where
  "init_target cfg lab =
     (if lb_target_control_configured lab then lab
      else case lab_parse_mac (xc_target_mac cfg) (lb_target_mac lab) of
        (found, m) \<Rightarrow> lab\<lparr>lb_has_target_mac := found, lb_target_mac := m,
          lb_target_mode := if found then AWDL_TARGET_MANUAL
            else if xc_auto_target_airdrop cfg then AWDL_TARGET_AUTO else AWDL_TARGET_NONE\<rparr>)"

definition init_schedule :: "tx_lab_config \<Rightarrow> tx_lab \<Rightarrow> tx_lab" where
  "init_schedule cfg lab =
     (case lab_parse_mac (xc_schedule_mac cfg) (lb_schedule_mac lab) of
        (found, m) \<Rightarrow>
          let lab1 = lab\<lparr>lb_has_schedule_mac := found, lb_schedule_mac := m\<rparr> in
          if \<not> lb_has_schedule_mac lab1 \<and> lb_has_target_mac lab1
          then lab1\<lparr>lb_schedule_mac := lb_target_mac lab1, lb_has_schedule_mac := True\<rparr> else lab1)"

text \<open>
  The results of the calls of the SDK are arguments: whether the lock could be created, the station's address
  or the error, and the result of registering the callback.
\<close>

definition espdrop_awdl_tx_lab_init ::
  "tx_lab_config \<Rightarrow> bool \<Rightarrow> esp_err + mac \<Rightarrow> esp_err \<Rightarrow> bytes ptr \<Rightarrow> tx_lab \<Rightarrow> esp_err \<times> tx_lab" where
  "espdrop_awdl_tx_lab_init cfg lock_created station callback name lab =
     (if name = NULL then (ESP_ERR_INVALID_ARG, lab)
      else
        let lab1 = lab\<lparr>lb_state_lock := lock_created\<rparr> in
        if \<not> lock_created then (ESP_ERR_NO_MEM, lab1)
        else case station of
          Inl e \<Rightarrow> (e, lab1)
        | Inr station_mac \<Rightarrow>
            let lab2 = lab1\<lparr>lb_station_mac := station_mac\<rparr>;
                (started, election) = espdrop_awdl_election_init (Ptr (lb_election lab2)) (Ptr station_mac);
                lab3 = lab2\<lparr>lb_election := deref election\<rparr> in
            if \<not> started then (ESP_ERR_INVALID_STATE, lab3)
            else
              let (timed, election2) = espdrop_awdl_election_set_peer_timeout (Ptr (lb_election lab3)) AWDL_TX_LAB_FIXED_CHANNEL_PEER_TIMEOUT_US;
                  lab4 = lab3\<lparr>lb_election := deref election2\<rparr> in
              if \<not> timed then (ESP_ERR_INVALID_STATE, lab4)
              else
                let lab5 = init_schedule cfg (init_target cfg lab4) in
                if callback \<noteq> ESP_OK then (callback, lab5)
                else (ESP_OK, lab5\<lparr>lb_device_name := take 31 (deref name)\<rparr>))"

section \<open>Target control\<close>

definition espdrop_awdl_tx_lab_set_target :: "mac ptr \<Rightarrow> tx_lab \<Rightarrow> esp_err \<times> tx_lab" where
  "espdrop_awdl_tx_lab_set_target target lab =
     (if target = NULL \<or> mac_is_zero (deref target) then (ESP_ERR_INVALID_ARG, lab)
      else
        let lab1 = lab\<lparr>lb_target_mac := deref target, lb_has_target_mac := True, lb_has_target_state := False,
              lb_target_mode := AWDL_TARGET_MANUAL, lb_target_control_configured := True\<rparr> in
        if \<not> lb_state_lock lab then (ESP_OK, lab1)
        else case find_peer_mif (lb_peer_mifs lab1) (deref target) of
          None \<Rightarrow> (ESP_OK, lab1)
        | Some i \<Rightarrow>
            (case state_of_peer_mif lab1 (lb_peer_mifs lab1 ! i) of (ok, state) \<Rightarrow>
               (ESP_OK, lab1\<lparr>lb_has_target_state := ok, lb_target_state := if ok then state else lb_target_state lab1\<rparr>)))"

definition espdrop_awdl_tx_lab_set_target_mode :: "awdl_target_mode \<Rightarrow> tx_lab \<Rightarrow> esp_err \<times> tx_lab" where
  "espdrop_awdl_tx_lab_set_target_mode mode lab =
     (if mode \<noteq> AWDL_TARGET_NONE \<and> mode \<noteq> AWDL_TARGET_AUTO then (ESP_ERR_INVALID_ARG, lab)
      else
        let lab1 = lab\<lparr>lb_target_mode := mode, lb_has_target_mac := False, lb_has_target_state := False,
              lb_target_control_configured := True\<rparr> in
        (ESP_OK,
         if lb_state_lock lab \<and> mode = AWDL_TARGET_AUTO then lab1\<lparr>lb_first_airdrop_us := 0, lb_first_endpoint_us := 0\<rparr> else lab1))"

text \<open>The last result is whether the network interface is asked for a new AirDrop probe.\<close>

definition espdrop_awdl_tx_lab_request_run :: "tx_lab \<Rightarrow> esp_err \<times> tx_lab \<times> bool" where
  "espdrop_awdl_tx_lab_request_run lab =
     (if lb_target_mode lab = AWDL_TARGET_NONE \<or> lb_run_requested lab then (ESP_ERR_INVALID_STATE, lab, False)
      else (ESP_OK, lab\<lparr>lb_run_requested := True\<rparr>, True))"

definition espdrop_awdl_tx_lab_target_mode :: "tx_lab \<Rightarrow> awdl_target_mode" where
  "espdrop_awdl_tx_lab_target_mode lab = lb_target_mode lab"

definition espdrop_awdl_tx_lab_target :: "mac ptr \<Rightarrow> tx_lab \<Rightarrow> bool \<times> mac ptr" where
  "espdrop_awdl_tx_lab_target out lab =
     (if out = NULL \<or> \<not> lb_has_target_mac lab then (False, out) else (True, Ptr (lb_target_mac lab)))"

definition espdrop_awdl_tx_lab_target_is_sync_master :: "tx_lab \<Rightarrow> bool" where
  "espdrop_awdl_tx_lab_target_is_sync_master lab \<longleftrightarrow>
     lb_state_lock lab \<and> lb_has_target_mac lab \<and> lb_has_target_state lab \<and> lb_has_state lab \<and>
     memcmp (tx_master (lb_target_state lab)) (tx_master (lb_tx_state lab)) 6 = 0 \<and>
     (tx_distance_to_master (lb_target_state lab) > 1 \<or> memcmp (lb_target_mac lab) (tx_sync_master (lb_tx_state lab)) 6 = 0)"

definition espdrop_awdl_tx_lab_netif_ready :: "tx_lab \<Rightarrow> bool" where
  "espdrop_awdl_tx_lab_netif_ready lab = lb_netif_ready lab"

definition espdrop_awdl_tx_lab_wants_mif :: "mac ptr \<Rightarrow> bool" where
  "espdrop_awdl_tx_lab_wants_mif source \<longleftrightarrow> source \<noteq> NULL"

section \<open>Notes\<close>

definition espdrop_awdl_tx_lab_note_peer_seen :: "mac \<Rightarrow> u64 \<Rightarrow> tx_lab \<Rightarrow> tx_lab" where
  "espdrop_awdl_tx_lab_note_peer_seen source received_at_us lab =
     lab\<lparr>lb_election := deref (snd (espdrop_awdl_election_touch (Ptr (lb_election lab)) (Ptr source) received_at_us))\<rparr>"

definition espdrop_awdl_tx_lab_note_directed_peer :: "tx_lab \<Rightarrow> tx_lab" where
  "espdrop_awdl_tx_lab_note_directed_peer lab = lab\<lparr>lb_directed_reactions := lb_directed_reactions lab + 1\<rparr>"

definition espdrop_awdl_tx_lab_note_neighbor_advertisement :: "tx_lab \<Rightarrow> tx_lab" where
  "espdrop_awdl_tx_lab_note_neighbor_advertisement lab = lab\<lparr>lb_neighbor_advertisements := lb_neighbor_advertisements lab + 1\<rparr>"

definition espdrop_awdl_tx_lab_note_echo_reply :: "tx_lab \<Rightarrow> tx_lab" where
  "espdrop_awdl_tx_lab_note_echo_reply lab = lab\<lparr>lb_echo_replies := lb_echo_replies lab + 1\<rparr>"

text \<open>The completion callback of the radio: the counters of a data or of an action frame.\<close>

definition count_completion :: "bool \<Rightarrow> bool \<Rightarrow> tx_lab \<Rightarrow> tx_lab" where
  "count_completion data_frame success lab =
     (if data_frame
      then (let l = lab\<lparr>lb_data_radio_completed := lb_data_radio_completed lab + 1\<rparr> in
            if success then l\<lparr>lb_data_radio_success := lb_data_radio_success l + 1\<rparr>
            else l\<lparr>lb_data_radio_failed := lb_data_radio_failed l + 1\<rparr>)
      else (let l = lab\<lparr>lb_action_radio_completed := lb_action_radio_completed lab + 1\<rparr> in
            if success then l\<lparr>lb_action_radio_success := lb_action_radio_success l + 1\<rparr>
            else l\<lparr>lb_action_radio_failed := lb_action_radio_failed l + 1\<rparr>))"

definition count_unknown :: "tx_lab \<Rightarrow> tx_lab" where
  "count_unknown lab = lab\<lparr>lb_unknown_data_radio_completed := lb_unknown_data_radio_completed lab + 1\<rparr>"

text \<open>
  The last result is whether the completion is handed to the network interface. The option is a read outside
  the frame; the length is a pointer of its own.
\<close>

definition lab_tx_done :: "bytes ptr \<Rightarrow> nat ptr \<Rightarrow> bool \<Rightarrow> tx_lab \<Rightarrow> (tx_lab \<times> bool) option" where
  "lab_tx_done data data_length success lab = do {
     first \<leftarrow> (if data \<noteq> NULL then map_option Ptr (rd (deref data) 0) else Some NULL);
     let data_frame = (first \<noteq> NULL \<and> deref first AND 0x0c = 0x08);
     let lab1 = count_completion data_frame success lab;
     if \<not> data_frame then Some (lab1, False)
     else if data_length = NULL \<or> deref data_length \<le> AWDL_TX_LAB_AWDL_SEQUENCE_OFFSET + 1 then Some (count_unknown lab1, False)
     else do {
       low \<leftarrow> rd (deref data) AWDL_TX_LAB_AWDL_SEQUENCE_OFFSET;
       high \<leftarrow> rd (deref data) (AWDL_TX_LAB_AWDL_SEQUENCE_OFFSET + 1);
       let awdl_sequence = (ucast low OR push_bit 8 (ucast high) :: u16);
       if awdl_sequence AND ESPDROP_AWDL_NETIF_SEQUENCE_MARKER \<noteq> 0 then Some (lab1, True) else Some (count_unknown lab1, False) } }"

section \<open>Observing a MIF\<close>

record mif_observation =
  mo_action :: awdl_action
  mo_mif :: mif
  mo_advertises_airdrop_tcp :: bool
  mo_received_at_us :: u64

text \<open>The local variables of the function.\<close>

record observe_locals =
  ol_observation :: mif_observation
  ol_has_observed_peer :: bool
  ol_observed_peer :: tx_state
  ol_auto_target_enabled :: bool
  ol_candidate :: "tx_state option"
  ol_proximity_target :: mac
  ol_proximity_result :: table_result
  ol_proximity_attempted :: bool

text \<open>Up to the end of the first critical section.\<close>

definition observe_enter :: "tx_lab \<Rightarrow> mif_observation \<Rightarrow> observe_locals" where
  "observe_enter lab ob =
     (case espdrop_awdl_tx_state_from_mif (Ptr tx_state_zero) (Ptr (lb_station_mac lab)) (Ptr (act_source (mo_action ob)))
             (Ptr (lb_device_name lab)) (act_phy_tx (mo_action ob)) (Ptr (mo_mif ob)) (mo_received_at_us ob) of
        (ok, state) \<Rightarrow>
          \<lparr>ol_observation = ob, ol_has_observed_peer = ok, ol_observed_peer = deref state,
           ol_auto_target_enabled = (lb_target_mode lab = AWDL_TARGET_AUTO), ol_candidate = None,
           ol_proximity_target = replicate 6 0, ol_proximity_result = TABLE_NOT_FOUND, ol_proximity_attempted = False\<rparr>)"

text \<open>The election and the selection by proximity, outside the lock.\<close>

definition advertised_candidate :: "tx_lab_config \<Rightarrow> tx_state \<Rightarrow> tx_state" where
  "advertised_candidate cfg s =
     (case xc_receiver_port cfg of None \<Rightarrow> s | Some port \<Rightarrow> s\<lparr>tx_advertise_airdrop_tcp := True, tx_airdrop_port := port\<rparr>)"

definition lab_settled :: "tx_lab_config \<Rightarrow> u64 \<Rightarrow> u64 \<Rightarrow> bool" where
  "lab_settled cfg first_us now_us \<longleftrightarrow> now_us \<ge> first_us \<and> now_us - first_us \<ge> xc_settle_ms cfg * 1000"

definition select_target :: "tx_lab_config \<Rightarrow> peer_table ptr \<Rightarrow> u64 \<Rightarrow> bool \<Rightarrow> table_result \<times> mac" where
  "select_target cfg table now_us endpoint =
     (case espdrop_peer_table_select_airdrop_proximity table (now_us div 1000) (xc_max_age_ms cfg) (xc_min_rssi cfg)
             (xc_margin_db cfg) endpoint (Ptr None) of
        (result, selected) \<Rightarrow>
          (result, case deref selected of
             Some i \<Rightarrow> (if result = TABLE_OK then pr_awdl_mac (pt_peers (deref table) ! i) else replicate 6 0)
           | None \<Rightarrow> replicate 6 0))"

definition observe_select :: "tx_lab_config \<Rightarrow> peer_table ptr \<Rightarrow> observe_locals \<Rightarrow> tx_lab \<Rightarrow> observe_locals \<times> tx_lab" where
  "observe_select cfg table v lab =
     (let ob = ol_observation v; at = mo_received_at_us ob;
          (candidate, lab1) = dynamic_election_candidate (mo_action ob) (mo_mif ob) at lab;
          v1 = v\<lparr>ol_candidate := map_option (advertised_candidate cfg) candidate\<rparr> in
      if lb_has_target_mac lab1 \<or> \<not> ol_auto_target_enabled v then (v1, lab1)
      else
        let lab2 = (if mo_advertises_airdrop_tcp ob \<and> lb_first_airdrop_us lab1 = 0 then lab1\<lparr>lb_first_airdrop_us := at\<rparr> else lab1) in
        if lb_first_airdrop_us lab2 \<noteq> 0 \<and> lab_settled cfg (lb_first_airdrop_us lab2) at \<and> table \<noteq> NULL then
          (case select_target cfg table at False of (result, target) \<Rightarrow>
             (v1\<lparr>ol_proximity_result := result, ol_proximity_target := target, ol_proximity_attempted := True\<rparr>, lab2))
        else (v1, lab2))"

text \<open>The second critical section; the results are whether to start the task and whether a target was chosen.\<close>

definition target_is_live :: "awdl_action \<Rightarrow> tx_lab \<Rightarrow> bool" where
  "target_is_live action lab \<longleftrightarrow> \<not> lb_has_target_mac lab \<or> memcmp (act_source action) (lb_target_mac lab) 6 = 0"

definition commit_target :: "observe_locals \<Rightarrow> tx_lab \<Rightarrow> tx_lab" where
  "commit_target v lab =
     (if \<not> lb_has_target_mac lab \<and> ol_proximity_result v = TABLE_OK
      then lab\<lparr>lb_target_mac := ol_proximity_target v, lb_has_target_mac := True\<rparr> else lab)"

definition commit_bootstrap :: "observe_locals \<Rightarrow> tx_lab \<Rightarrow> tx_lab" where
  "commit_bootstrap v lab =
     (if \<not> lb_has_target_mac lab \<and> ol_auto_target_enabled v \<and> ol_has_observed_peer v \<and>
         espdrop_awdl_mif_peer_valid (Ptr (mo_mif (ol_observation v))) \<and> \<not> lb_netif_ready lab
      then lab\<lparr>lb_netif_ready := True\<rparr> else lab)"

definition commit_observed :: "observe_locals \<Rightarrow> tx_lab \<Rightarrow> tx_lab" where
  "commit_observed v lab =
     (if lb_has_target_mac lab \<and> ol_has_observed_peer v \<and> memcmp (act_source (mo_action (ol_observation v))) (lb_target_mac lab) 6 = 0
      then (let l = lab\<lparr>lb_target_state := ol_observed_peer v, lb_has_target_state := True\<rparr> in
            if espdrop_awdl_mif_peer_valid (Ptr (mo_mif (ol_observation v))) \<and> \<not> lb_netif_ready l then l\<lparr>lb_netif_ready := True\<rparr> else l)
      else lab)"

definition commit_candidate :: "observe_locals \<Rightarrow> tx_lab \<Rightarrow> tx_lab" where
  "commit_candidate v lab =
     (case ol_candidate v of Some candidate \<Rightarrow> lab\<lparr>lb_tx_state := candidate, lb_has_state := True\<rparr> | None \<Rightarrow> lab)"

definition may_start :: "observe_locals \<Rightarrow> tx_lab \<Rightarrow> bool" where
  "may_start v lab \<longleftrightarrow>
     lb_run_requested lab \<and> \<not> lb_task_started lab \<and> lb_has_state lab \<and> target_is_live (mo_action (ol_observation v)) lab \<and>
     lb_netif_ready lab \<and> (if lb_has_target_mac lab then lb_has_target_state lab else ol_auto_target_enabled v)"

definition observe_commit :: "observe_locals \<Rightarrow> tx_lab \<Rightarrow> bool \<times> bool \<times> tx_lab" where
  "observe_commit v lab =
     (let auto_targeted = (\<not> lb_has_target_mac lab \<and> ol_proximity_result v = TABLE_OK);
          lab4 = commit_candidate v (commit_observed v (commit_bootstrap v (commit_target v lab))) in
      if may_start v lab4 then (True, auto_targeted, lab4\<lparr>lb_run_requested := False, lb_task_started := True\<rparr>)
      else (False, auto_targeted, lab4))"

text \<open>After it: the time of the last status line, and the task; \<open>spawned\<close> is whether it could be created.\<close>

definition observe_finish :: "bool \<Rightarrow> observe_locals \<Rightarrow> bool \<Rightarrow> bool \<Rightarrow> tx_lab \<Rightarrow> tx_lab" where
  "observe_finish spawned v start_task auto_targeted lab =
     (let at = mo_received_at_us (ol_observation v);
          lab1 = (if \<not> auto_targeted \<and> ol_proximity_attempted v \<and> at - lb_last_status_us lab \<ge> 1000000
                  then lab\<lparr>lb_last_status_us := at\<rparr> else lab) in
      if start_task \<and> \<not> spawned then lab1\<lparr>lb_task_started := False\<rparr> else lab1)"

text \<open>The function when no other task comes between.\<close>

definition espdrop_awdl_tx_lab_observe_mif ::
  "tx_lab_config \<Rightarrow> peer_table ptr \<Rightarrow> bool \<Rightarrow> awdl_action ptr \<Rightarrow> mif ptr \<Rightarrow> bool \<Rightarrow> u64 \<Rightarrow> tx_lab \<Rightarrow> bool \<times> tx_lab" where
  "espdrop_awdl_tx_lab_observe_mif cfg table spawned action m advertises_airdrop_tcp received_at_us lab =
     (if \<not> lb_state_lock lab \<or> action = NULL \<or> m = NULL then (False, lab)
      else
        let v = observe_enter lab \<lparr>mo_action = deref action, mo_mif = deref m,
                  mo_advertises_airdrop_tcp = advertises_airdrop_tcp, mo_received_at_us = received_at_us\<rparr>;
            (v1, lab1) = observe_select cfg table v lab;
            (start_task, auto_targeted, lab2) = observe_commit v1 lab1 in
        (start_task \<and> spawned, observe_finish spawned v1 start_task auto_targeted lab2))"

section \<open>Endpoints\<close>

text \<open>The first critical section: a result, or the way on to the selection.\<close>

definition consider_check :: "tx_lab_config \<Rightarrow> u64 \<Rightarrow> tx_lab \<Rightarrow> bool option \<times> tx_lab" where
  "consider_check cfg observed_at_us lab =
     (if \<not> lb_state_lock lab then (Some False, lab)
      else if lb_target_mode lab \<noteq> AWDL_TARGET_AUTO \<or> lb_has_target_mac lab then (Some True, lab)
      else
        let lab1 = (if lb_first_endpoint_us lab = 0 then lab\<lparr>lb_first_endpoint_us := observed_at_us\<rparr> else lab) in
        (if lab_settled cfg (lb_first_endpoint_us lab1) observed_at_us then None else Some False, lab1))"

text \<open>The selection, and the second critical section.\<close>

definition consider_select :: "tx_lab_config \<Rightarrow> peer_table ptr \<Rightarrow> u64 \<Rightarrow> tx_lab \<Rightarrow> (table_result \<times> mac) \<times> tx_lab" where
  "consider_select cfg table observed_at_us lab =
     (if table = NULL then ((TABLE_NOT_FOUND, replicate 6 0), lab)
      else
        let r = select_target cfg table observed_at_us True in
        (r, if fst r \<noteq> TABLE_OK \<and> observed_at_us - lb_last_endpoint_status_us lab \<ge> 1000000
            then lab\<lparr>lb_last_endpoint_status_us := observed_at_us\<rparr> else lab))"

definition consider_commit :: "table_result \<times> mac \<Rightarrow> tx_lab \<Rightarrow> bool \<times> tx_lab" where
  "consider_commit r lab =
     (if \<not> lb_has_target_mac lab \<and> fst r = TABLE_OK then (True, lab\<lparr>lb_target_mac := snd r, lb_has_target_mac := True\<rparr>) else (False, lab))"

definition espdrop_awdl_tx_lab_consider_airdrop_endpoints ::
  "tx_lab_config \<Rightarrow> peer_table ptr \<Rightarrow> u64 \<Rightarrow> tx_lab \<Rightarrow> bool \<times> tx_lab" where
  "espdrop_awdl_tx_lab_consider_airdrop_endpoints cfg table observed_at_us lab =
     (case consider_check cfg observed_at_us lab of
        (Some r, lab1) \<Rightarrow> (r, lab1)
      | (None, lab1) \<Rightarrow> (case consider_select cfg table observed_at_us lab1 of (r, lab2) \<Rightarrow> consider_commit r lab2))"

end
