(* ===== verification/Tx_Lab_Safety.thy ===== *)
theory Tx_Lab_Safety
  imports Tx_Lab
begin

text \<open>
  The transmit laboratory under its tasks: the task that observes MIFs, the one that resolves endpoints, the
  serial task that controls the target, and the transmit tasks, interleaved at the critical sections.
\<close>

section \<open>The stored MIFs\<close>

definition wf_peer_mifs :: "peer_mif list \<Rightarrow> bool" where
  "wf_peer_mifs ms \<longleftrightarrow> length ms = AWDL_TX_LAB_ELECTION_PEERS \<and> (\<forall>m\<in>set ms. length (pm_source m) = 6)"

lemma free_or_oldest_bound: "oldest < length ms \<Longrightarrow> free_or_oldest ms i oldest < length ms"
proof (induction ms i oldest rule: free_or_oldest.induct)
  case (1 ms i oldest)
  then show ?case by (subst free_or_oldest.simps) auto
qed

lemma store_peer_mif_wf:
  assumes "wf_peer_mifs ms" "length (act_source action) = 6"
  shows "wf_peer_mifs (store_peer_mif action m at ms)"
  using assms set_update_subset_insert [of ms] by (fastforce simp: wf_peer_mifs_def store_peer_mif_def Let_def)

text \<open>What was stored last for a source is what is found for it.\<close>

lemma found_peer_mif:
  assumes "wf_peer_mifs ms" "length source = 6" "find_peer_mif ms source = Some i"
  shows "i < length ms" "pm_source (ms ! i) = source"
proof -
  show i: "i < length ms" using find_index_SomeD assms(3) unfolding find_peer_mif_def by blast
  have "memcmp (pm_source (ms ! i)) source 6 = 0" using find_index_SomeD assms(3) unfolding find_peer_mif_def by blast
  moreover have "length (pm_source (ms ! i)) = 6" using assms(1) i by (simp add: wf_peer_mifs_def)
  ultimately show "pm_source (ms ! i) = source" using assms(2) memcmp_eq_0 by blast
qed

lemma from_mif_source:
  "espdrop_awdl_tx_state_from_mif st self (Ptr source) nm phy m at = (True, st') \<Longrightarrow> tx_sync_master (deref st') = source"
  by (auto simp: espdrop_awdl_tx_state_from_mif_def Let_def split: if_splits)

lemma state_of_peer_mif_source: "state_of_peer_mif lab saved = (True, st) \<Longrightarrow> tx_sync_master st = pm_source saved"
  by (auto simp: state_of_peer_mif_def dest: from_mif_source split: prod.splits)

section \<open>Frames of the operations\<close>

text \<open>The fields that only the critical sections of the observation change.\<close>

definition same_control :: "tx_lab \<Rightarrow> tx_lab \<Rightarrow> bool" where
  "same_control l l' \<longleftrightarrow> lb_state_lock l' = lb_state_lock l \<and> lb_target_mac l' = lb_target_mac l \<and>
     lb_has_target_mac l' = lb_has_target_mac l \<and> lb_target_mode l' = lb_target_mode l \<and>
     lb_has_target_state l' = lb_has_target_state l \<and> lb_target_state l' = lb_target_state l \<and> lb_has_state l' = lb_has_state l \<and>
     lb_tx_state l' = lb_tx_state l \<and> lb_task_started l' = lb_task_started l \<and> lb_run_requested l' = lb_run_requested l \<and>
     lb_netif_ready l' = lb_netif_ready l"

lemma candidate_frame:
  assumes "dynamic_election_candidate action m at lab = (c, lab')"
  shows "same_control lab lab'"
    "lb_peer_mifs lab' = lb_peer_mifs lab \<or> lb_peer_mifs lab' = store_peer_mif action m at (lb_peer_mifs lab)"
    "\<And>s. c = Some s \<Longrightarrow> tx_distance_to_master s \<le> ESPDROP_AWDL_ELECTION_TREE_MAX_HEIGHT"
  using assms
  by (auto simp: dynamic_election_candidate_def same_control_def espdrop_awdl_tx_state_apply_election_def Let_def
      split: if_splits prod.splits option.splits)

lemma observe_select_frame:
  assumes "observe_select cfg table v lab = (v', lab')"
  shows "same_control lab lab'"
    "lb_peer_mifs lab' = lb_peer_mifs lab \<or>
     lb_peer_mifs lab' = store_peer_mif (mo_action (ol_observation v)) (mo_mif (ol_observation v)) (mo_received_at_us (ol_observation v)) (lb_peer_mifs lab)"
    "\<And>s. ol_candidate v' = Some s \<Longrightarrow> tx_distance_to_master s \<le> ESPDROP_AWDL_ELECTION_TREE_MAX_HEIGHT"
    "ol_observation v' = ol_observation v" "ol_has_observed_peer v' = ol_has_observed_peer v" "ol_observed_peer v' = ol_observed_peer v"
    "ol_auto_target_enabled v' = ol_auto_target_enabled v"
    "ol_proximity_target v' = ol_proximity_target v \<or> (\<exists>now. ol_proximity_target v' = snd (select_target cfg table now False) \<and> table \<noteq> NULL)"
proof -
  define ob where "ob = ol_observation v"
  obtain c l1 where c: "dynamic_election_candidate (mo_action ob) (mo_mif ob) (mo_received_at_us ob) lab = (c, l1)"
    by (cases "dynamic_election_candidate (mo_action ob) (mo_mif ob) (mo_received_at_us ob) lab")
  note f = candidate_frame [OF c]
  have adv: "tx_distance_to_master (advertised_candidate cfg s) = tx_distance_to_master s" for s
    by (simp add: advertised_candidate_def split: option.split)
  have e: "(v', lab') = observe_select cfg table v lab" using assms by simp
  note eq = e [unfolded observe_select_def Let_def ob_def [symmetric] c, simplified]
  show "same_control lab lab'" using f(1) eq by (auto simp: same_control_def split: if_splits prod.splits)
  show "lb_peer_mifs lab' = lb_peer_mifs lab \<or>
     lb_peer_mifs lab' = store_peer_mif (mo_action (ol_observation v)) (mo_mif (ol_observation v)) (mo_received_at_us (ol_observation v)) (lb_peer_mifs lab)"
    using f(2) eq by (auto simp: ob_def split: if_splits prod.splits)
  show "\<And>s. ol_candidate v' = Some s \<Longrightarrow> tx_distance_to_master s \<le> ESPDROP_AWDL_ELECTION_TREE_MAX_HEIGHT"
    using f(3) eq adv by (auto split: if_splits prod.splits)
  show "ol_observation v' = ol_observation v" "ol_has_observed_peer v' = ol_has_observed_peer v" "ol_observed_peer v' = ol_observed_peer v"
    "ol_auto_target_enabled v' = ol_auto_target_enabled v"
    using eq by (auto split: if_splits prod.splits)
  show "ol_proximity_target v' = ol_proximity_target v \<or> (\<exists>now. ol_proximity_target v' = snd (select_target cfg table now False) \<and> table \<noteq> NULL)"
  proof -
    obtain r target where st: "select_target cfg table (mo_received_at_us ob) False = (r, target)"
      by (cases "select_target cfg table (mo_received_at_us ob) False")
    have "\<exists>now. target = snd (select_target cfg table now False)" by (rule exI [of _ "mo_received_at_us ob"]) (simp add: st)
    then show ?thesis using eq unfolding st by (auto split: if_splits)
  qed
qed

text \<open>A chosen target is an entry of the table that qualified.\<close>

lemma select_target_entry:
  assumes "select_target cfg table now endpoint = (TABLE_OK, target)"
  shows "table \<noteq> NULL" "\<exists>p\<in>set (used_entries (deref table)).
    target = pr_awdl_mac p \<and> proximity_candidate (now div 1000) (xc_max_age_ms cfg) (xc_min_rssi cfg) endpoint p"
proof -
  obtain result selected where s: "espdrop_peer_table_select_airdrop_proximity table (now div 1000) (xc_max_age_ms cfg) (xc_min_rssi cfg)
      (xc_margin_db cfg) endpoint (Ptr None) = (result, selected)"
    by (cases "espdrop_peer_table_select_airdrop_proximity table (now div 1000) (xc_max_age_ms cfg) (xc_min_rssi cfg)
      (xc_margin_db cfg) endpoint (Ptr None)")
  define q where "q = proximity_candidate (now div 1000) (xc_max_age_ms cfg) (xc_min_rssi cfg) endpoint"
  define used where "used = used_entries (deref table)"
  obtain best run where l: "proximity_loop q used [0..<length used] (None, None) = (best, run)"
    by (cases "proximity_loop q used [0..<length used] (None, None)")
  have result: "result = TABLE_OK" using assms s by (simp add: select_target_def split: prod.splits)
  note u = s [unfolded espdrop_peer_table_select_airdrop_proximity_def Let_def used_entries_def [symmetric] used_def [symmetric] q_def [symmetric] l, simplified]
  have b: "table \<noteq> NULL" "best \<noteq> None" "selected = Ptr best" using u result by (auto split: if_splits)
  show "table \<noteq> NULL" by (rule b(1))
  have "top_two q used {} None None" by (simp add: top_two_def)
  from proximity_loop_top_two [OF this _ _ l] have "top_two q used (set [0..<length used]) best run" by simp
  then obtain i where i: "best = Some i" "i < length used" "q (used ! i)" using b(2) by (auto simp: top_two_def Let_def)
  have "target = pr_awdl_mac (pt_peers (deref table) ! i)" using assms s result b(3) i(1) by (simp add: select_target_def)
  moreover have "used ! i = pt_peers (deref table) ! i" using i(2) by (simp add: used_def used_entries_def)
  ultimately show "\<exists>p\<in>set (used_entries (deref table)).
      target = pr_awdl_mac p \<and> proximity_candidate (now div 1000) (xc_max_age_ms cfg) (xc_min_rssi cfg) endpoint p"
    using i(2,3) unfolding used_def [symmetric] q_def [symmetric] by (metis nth_mem)
qed

lemma select_target_length:
  assumes "wf_table (deref table)"
  shows "length (snd (select_target cfg table now endpoint)) = 6"
proof (cases "fst (select_target cfg table now endpoint) = TABLE_OK")
  case True
  then obtain target where t: "select_target cfg table now endpoint = (TABLE_OK, target)" by (metis prod.collapse)
  from select_target_entry(2) [OF t] assms show ?thesis by (auto simp: t wf_table_def wf_entry_def)
next
  case False
  then show ?thesis by (auto simp: select_target_def split: prod.splits option.splits)
qed


section \<open>Runs\<close>

datatype observe_phase =
    Observe_idle
  | Observe_entered observe_locals
  | Observe_selected observe_locals
  | Observe_committed observe_locals bool bool

datatype consider_phase =
    Consider_idle
  | Consider_settled u64
  | Consider_chosen "table_result \<times> mac"

record lab_run =
  lr_lab :: tx_lab
  lr_observe :: observe_phase
  lr_consider :: consider_phase
  lr_workers :: nat

text \<open>
  The observing task and the resolving task are at a phase of their function; the serial task calls its
  functions at any time; a transmit task ends by clearing \<^verbatim>\<open>task_started\<close>; the start of the radio comes once.
\<close>

inductive lab_step :: "tx_lab_config \<Rightarrow> lab_run \<Rightarrow> lab_run \<Rightarrow> bool" for cfg where
  start: "\<not> lb_state_lock (lr_lab c) \<Longrightarrow> lr_observe c = Observe_idle \<Longrightarrow>
    espdrop_awdl_tx_lab_init cfg lock station callback name (lr_lab c) = (r, lab) \<Longrightarrow> lab_step cfg c (c\<lparr>lr_lab := lab\<rparr>)"
| enter: "lb_state_lock (lr_lab c) \<Longrightarrow> lr_observe c = Observe_idle \<Longrightarrow> length (act_source (mo_action ob)) = 6 \<Longrightarrow>
    lab_step cfg c (c\<lparr>lr_observe := Observe_entered (observe_enter (lr_lab c) ob)\<rparr>)"
| select: "lr_observe c = Observe_entered v \<Longrightarrow> (table \<noteq> NULL \<longrightarrow> wf_table (deref table)) \<Longrightarrow>
    observe_select cfg table v (lr_lab c) = (v', lab) \<Longrightarrow> lab_step cfg c (c\<lparr>lr_lab := lab, lr_observe := Observe_selected v'\<rparr>)"
| commit: "lr_observe c = Observe_selected v \<Longrightarrow> observe_commit v (lr_lab c) = (go, auto_targeted, lab) \<Longrightarrow>
    lab_step cfg c (c\<lparr>lr_lab := lab, lr_observe := Observe_committed v go auto_targeted\<rparr>)"
| finish: "lr_observe c = Observe_committed v go auto_targeted \<Longrightarrow>
    lab_step cfg c (c\<lparr>lr_lab := observe_finish spawned v go auto_targeted (lr_lab c), lr_observe := Observe_idle,
      lr_workers := lr_workers c + (if go \<and> spawned then 1 else 0)\<rparr>)"
| check: "lr_consider c = Consider_idle \<Longrightarrow> consider_check cfg now (lr_lab c) = (r, lab) \<Longrightarrow>
    lab_step cfg c (c\<lparr>lr_lab := lab, lr_consider := if r = None then Consider_settled now else Consider_idle\<rparr>)"
| choose: "lr_consider c = Consider_settled now \<Longrightarrow> (table \<noteq> NULL \<longrightarrow> wf_table (deref table)) \<Longrightarrow>
    consider_select cfg table now (lr_lab c) = (r, lab) \<Longrightarrow> lab_step cfg c (c\<lparr>lr_lab := lab, lr_consider := Consider_chosen r\<rparr>)"
| install: "lr_consider c = Consider_chosen r \<Longrightarrow> consider_commit r (lr_lab c) = (b, lab) \<Longrightarrow>
    lab_step cfg c (c\<lparr>lr_lab := lab, lr_consider := Consider_idle\<rparr>)"
| set_target: "(target \<noteq> NULL \<longrightarrow> length (deref target) = 6) \<Longrightarrow> espdrop_awdl_tx_lab_set_target target (lr_lab c) = (r, lab) \<Longrightarrow>
    lab_step cfg c (c\<lparr>lr_lab := lab\<rparr>)"
| set_mode: "espdrop_awdl_tx_lab_set_target_mode mode (lr_lab c) = (r, lab) \<Longrightarrow> lab_step cfg c (c\<lparr>lr_lab := lab\<rparr>)"
| request: "espdrop_awdl_tx_lab_request_run (lr_lab c) = (r, lab, probe) \<Longrightarrow> lab_step cfg c (c\<lparr>lr_lab := lab\<rparr>)"
| worker_ends: "0 < lr_workers c \<Longrightarrow>
    lab_step cfg c (c\<lparr>lr_lab := (lr_lab c)\<lparr>lb_task_started := False\<rparr>, lr_workers := lr_workers c - 1\<rparr>)"
| peer_seen: "lab_step cfg c (c\<lparr>lr_lab := espdrop_awdl_tx_lab_note_peer_seen source at (lr_lab c)\<rparr>)"
| tx_done: "lab_tx_done data n success (lr_lab c) = Some (lab, handed) \<Longrightarrow> lab_step cfg c (c\<lparr>lr_lab := lab\<rparr>)"

text \<open>The module before its start: static storage, the mode of the build.\<close>

definition lab_static :: "tx_lab_config \<Rightarrow> lab_run \<Rightarrow> bool" where
  "lab_static cfg c \<longleftrightarrow> lr_observe c = Observe_idle \<and> lr_consider c = Consider_idle \<and> lr_workers c = 0 \<and>
     (let l = lr_lab c in \<not> lb_state_lock l \<and> wf_peer_mifs (lb_peer_mifs l) \<and> length (lb_target_mac l) = 6 \<and> \<not> lb_has_target_mac l \<and>
        \<not> lb_has_target_state l \<and> \<not> lb_has_state l \<and> \<not> lb_task_started l \<and> \<not> lb_run_requested l \<and> \<not> lb_netif_ready l \<and>
        lb_target_mode l = (if xc_auto_target_airdrop cfg then AWDL_TARGET_AUTO else AWDL_TARGET_NONE))"

section \<open>The invariant\<close>

definition locals_ok :: "observe_locals \<Rightarrow> bool" where
  "locals_ok v \<longleftrightarrow> length (act_source (mo_action (ol_observation v))) = 6 \<and> length (ol_proximity_target v) = 6 \<and>
     (ol_has_observed_peer v \<longrightarrow> tx_sync_master (ol_observed_peer v) = act_source (mo_action (ol_observation v))) \<and>
     (\<forall>s. ol_candidate v = Some s \<longrightarrow> tx_distance_to_master s \<le> ESPDROP_AWDL_ELECTION_TREE_MAX_HEIGHT)"

fun phase_ok :: "observe_phase \<Rightarrow> bool" where
  "phase_ok Observe_idle = True"
| "phase_ok (Observe_entered v) = locals_ok v"
| "phase_ok (Observe_selected v) = locals_ok v"
| "phase_ok (Observe_committed v go auto_targeted) = locals_ok v"

fun starting :: "observe_phase \<Rightarrow> nat" where
  "starting (Observe_committed v go auto_targeted) = (if go then 1 else 0)"
| "starting _ = 0"

fun chosen_ok :: "consider_phase \<Rightarrow> bool" where
  "chosen_ok (Consider_chosen r) = (length (snd r) = 6)"
| "chosen_ok _ = True"

definition lab_ok :: "tx_lab \<Rightarrow> bool" where
  "lab_ok l \<longleftrightarrow> wf_peer_mifs (lb_peer_mifs l) \<and> length (lb_target_mac l) = 6 \<and>
     (lb_has_target_state l \<longrightarrow> lb_has_target_mac l \<and> tx_sync_master (lb_target_state l) = lb_target_mac l) \<and>
     (lb_target_mode l = AWDL_TARGET_MANUAL \<longrightarrow> lb_has_target_mac l) \<and>
     (lb_has_state l \<longrightarrow> tx_distance_to_master (lb_tx_state l) \<le> ESPDROP_AWDL_ELECTION_TREE_MAX_HEIGHT) \<and>
     (lb_task_started l \<longrightarrow> lb_has_state l \<and> lb_netif_ready l)"

text \<open>What the operations outside the observation keep.\<close>

definition kept :: "tx_lab \<Rightarrow> tx_lab \<Rightarrow> bool" where
  "kept l l' \<longleftrightarrow> lab_ok l' \<and> lb_task_started l' = lb_task_started l \<and> lb_state_lock l' = lb_state_lock l \<and>
     (lb_state_lock l \<or> lb_has_target_state l' \<longrightarrow> lb_state_lock l \<or> lb_has_target_state l)"

definition lab_inv :: "lab_run \<Rightarrow> bool" where
  "lab_inv c \<longleftrightarrow> lab_ok (lr_lab c) \<and> (lb_state_lock (lr_lab c) \<or> lr_observe c = Observe_idle \<and> \<not> lb_has_target_state (lr_lab c)) \<and> phase_ok (lr_observe c) \<and> chosen_ok (lr_consider c) \<and>
     lr_workers c + starting (lr_observe c) = (if lb_task_started (lr_lab c) then 1 else 0)"

lemma same_control_ok:
  "same_control l l' \<Longrightarrow> lab_ok l \<Longrightarrow> wf_peer_mifs (lb_peer_mifs l') \<Longrightarrow> lab_ok l'"
  by (simp add: same_control_def lab_ok_def)

lemma observe_enter_ok:
  assumes "length (act_source (mo_action ob)) = 6"
  shows "locals_ok (observe_enter lab ob)"
  using assms by (auto simp: observe_enter_def locals_ok_def dest: from_mif_source split: prod.splits)

lemma observe_select_ok:
  assumes "observe_select cfg table v lab = (v', lab')" "locals_ok v" "lab_ok lab" "table \<noteq> NULL \<longrightarrow> wf_table (deref table)"
  shows "locals_ok v'" "lab_ok lab'" "lb_task_started lab' = lb_task_started lab" "lb_state_lock lab' = lb_state_lock lab"
proof -
  note f = observe_select_frame [OF assms(1)]
  have len: "length (act_source (mo_action (ol_observation v))) = 6" using assms(2) by (simp add: locals_ok_def)
  have "length (ol_proximity_target v') = 6"
    using f(8) assms(2,4) select_target_length [of table cfg] by (auto simp: locals_ok_def)
  then show "locals_ok v'" using assms(2) f(3-7) by (simp add: locals_ok_def)
  have "wf_peer_mifs (lb_peer_mifs lab')" using f(2) store_peer_mif_wf [OF _ len] assms(3) by (auto simp: lab_ok_def)
  then show "lab_ok lab'" by (rule same_control_ok [OF f(1) assms(3)])
  show "lb_task_started lab' = lb_task_started lab" "lb_state_lock lab' = lb_state_lock lab" using f(1) by (simp_all add: same_control_def)
qed

lemma commit_target_ok: "locals_ok v \<Longrightarrow> lab_ok lab \<Longrightarrow> lab_ok (commit_target v lab)"
  by (auto simp: commit_target_def lab_ok_def locals_ok_def)

lemma commit_bootstrap_ok: "lab_ok lab \<Longrightarrow> lab_ok (commit_bootstrap v lab)"
  by (auto simp: commit_bootstrap_def lab_ok_def)

lemma commit_observed_ok:
  assumes "locals_ok v" "lab_ok lab"
  shows "lab_ok (commit_observed v lab)"
proof -
  have "act_source (mo_action (ol_observation v)) = lb_target_mac lab"
    if "memcmp (act_source (mo_action (ol_observation v))) (lb_target_mac lab) 6 = 0"
    using that assms memcmp_eq_0 by (auto simp: locals_ok_def lab_ok_def)
  then show ?thesis using assms by (auto simp: commit_observed_def lab_ok_def locals_ok_def Let_def)
qed

lemma commit_candidate_ok: "locals_ok v \<Longrightarrow> lab_ok lab \<Longrightarrow> lab_ok (commit_candidate v lab)"
  by (auto simp: commit_candidate_def lab_ok_def locals_ok_def split: option.splits)

lemma commit_started [simp]:
  "lb_task_started (commit_target v l) = lb_task_started l" "lb_task_started (commit_bootstrap v l) = lb_task_started l"
  "lb_task_started (commit_observed v l) = lb_task_started l" "lb_task_started (commit_candidate v l) = lb_task_started l"
  "lb_state_lock (commit_target v l) = lb_state_lock l" "lb_state_lock (commit_bootstrap v l) = lb_state_lock l"
  "lb_state_lock (commit_observed v l) = lb_state_lock l" "lb_state_lock (commit_candidate v l) = lb_state_lock l"
  by (simp_all add: commit_target_def commit_bootstrap_def commit_observed_def commit_candidate_def Let_def split: option.split)

lemma observe_commit_ok:
  assumes "observe_commit v lab = (go, auto_targeted, lab')" "locals_ok v" "lab_ok lab"
  shows "lab_ok lab'" "lb_task_started lab' \<longleftrightarrow> lb_task_started lab \<or> go" "go \<longrightarrow> \<not> lb_task_started lab"
    "lb_state_lock lab' = lb_state_lock lab"
proof -
  define l4 where "l4 = commit_candidate v (commit_observed v (commit_bootstrap v (commit_target v lab)))"
  have ok: "lab_ok l4" "lb_task_started l4 = lb_task_started lab" "lb_state_lock l4 = lb_state_lock lab"
    using assms(2,3) commit_target_ok commit_bootstrap_ok commit_observed_ok commit_candidate_ok by (simp_all add: l4_def)
  have "lab_ok (l4\<lparr>lb_run_requested := False, lb_task_started := True\<rparr>)" if "may_start v l4"
    using that ok(1) by (simp add: lab_ok_def may_start_def)
  then show "lab_ok lab'" "lb_task_started lab' \<longleftrightarrow> lb_task_started lab \<or> go" "go \<longrightarrow> \<not> lb_task_started lab"
    "lb_state_lock lab' = lb_state_lock lab"
    using assms(1) ok by (auto simp: observe_commit_def l4_def [symmetric] Let_def may_start_def split: if_splits)
qed

subsection \<open>The other operations\<close>

lemma consider_check_ok:
  "consider_check cfg now lab = (r, lab') \<Longrightarrow> lab_ok lab \<Longrightarrow> kept lab lab'"
  by (auto simp: consider_check_def kept_def lab_ok_def Let_def split: if_splits)

lemma consider_select_ok:
  assumes "consider_select cfg table now lab = (r, lab')" "lab_ok lab" "table \<noteq> NULL \<longrightarrow> wf_table (deref table)"
  shows "kept lab lab' \<and> length (snd r) = 6"
  using assms select_target_length [of table cfg] by (auto simp: consider_select_def kept_def lab_ok_def Let_def split: if_splits)

lemma consider_commit_ok:
  "consider_commit r lab = (b, lab') \<Longrightarrow> lab_ok lab \<Longrightarrow> length (snd r) = 6 \<Longrightarrow> kept lab lab'"
  by (auto simp: consider_commit_def kept_def lab_ok_def split: if_splits)

lemma set_target_ok:
  assumes "espdrop_awdl_tx_lab_set_target target lab = (r, lab')" "lab_ok lab" "target \<noteq> NULL \<longrightarrow> length (deref target) = 6"
  shows "kept lab lab'"
proof (cases "target = NULL \<or> mac_is_zero (deref target)")
  case True
  then show ?thesis using assms(1,2) by (auto simp: espdrop_awdl_tx_lab_set_target_def kept_def)
next
  case False
  define l1 where "l1 = lab\<lparr>lb_target_mac := deref target, lb_has_target_mac := True, lb_has_target_state := False,
      lb_target_mode := AWDL_TARGET_MANUAL, lb_target_control_configured := True\<rparr>"
  have l1: "kept lab l1" "\<not> lb_has_target_state l1" "lb_peer_mifs l1 = lb_peer_mifs lab" "lb_target_mac l1 = deref target" "lb_has_target_mac l1"
    using assms(2,3) False by (simp_all add: kept_def lab_ok_def l1_def)
  note set = assms(1) [unfolded espdrop_awdl_tx_lab_set_target_def Let_def l1_def [symmetric]]
  show ?thesis
  proof (cases "lb_state_lock lab \<and> find_peer_mif (lb_peer_mifs l1) (deref target) \<noteq> None")
    case lock: True
    then obtain i where i: "find_peer_mif (lb_peer_mifs lab) (deref target) = Some i" by (auto simp: l1(3))
    obtain ok state where st: "state_of_peer_mif l1 (lb_peer_mifs lab ! i) = (ok, state)" by (cases "state_of_peer_mif l1 (lb_peer_mifs lab ! i)")
    have "pm_source (lb_peer_mifs lab ! i) = deref target"
      using found_peer_mif(2) [OF _ _ i] False assms(2,3) by (simp add: lab_ok_def)
    then have "ok \<Longrightarrow> tx_sync_master state = deref target" using state_of_peer_mif_source st by fastforce
    moreover have "lab' = l1\<lparr>lb_has_target_state := ok, lb_target_state := if ok then state else lb_target_state l1\<rparr>"
      using set False lock i st by (simp add: l1(3))
    ultimately show ?thesis using l1 lock by (auto simp: kept_def lab_ok_def)
  next
    case none: False
    then have "lab' = l1" using set False by (auto split: if_splits option.splits)
    then show ?thesis using l1(1) by simp
  qed
qed

lemma set_mode_ok:
  "espdrop_awdl_tx_lab_set_target_mode mode lab = (r, lab') \<Longrightarrow> lab_ok lab \<Longrightarrow> kept lab lab'"
  by (auto simp: espdrop_awdl_tx_lab_set_target_mode_def kept_def lab_ok_def Let_def split: if_splits)

lemma request_run_ok:
  "espdrop_awdl_tx_lab_request_run lab = (r, lab', probe) \<Longrightarrow> lab_ok lab \<Longrightarrow> kept lab lab'"
  by (auto simp: espdrop_awdl_tx_lab_request_run_def kept_def lab_ok_def split: if_splits)

lemma lab_tx_done_ok:
  assumes "lab_tx_done data n success lab = Some (lab', handed)" "lab_ok lab"
  shows "kept lab lab'"
proof -
  have completion: "kept lab (count_completion d success lab)" for d
    using assms(2) by (simp_all add: count_completion_def kept_def lab_ok_def Let_def)
  have unknown: "kept lab l \<Longrightarrow> kept lab (count_unknown l)" for l
    by (simp_all add: count_unknown_def kept_def lab_ok_def)
  have "\<exists>d. lab' = count_completion d success lab \<or> lab' = count_unknown (count_completion d success lab)"
    using assms(1) by (auto simp: lab_tx_done_def Let_def bind_eq_Some_conv split: if_splits)
  then show ?thesis using completion unknown by auto
qed

lemma scan_octets_length: "scan_octets n t = Some vs \<Longrightarrow> length vs = n"
  by (induction n t arbitrary: vs rule: scan_octets.induct) (auto split: if_splits prod.splits)

lemma parse_mac_length:
  assumes "lab_parse_mac t output = (ok, m)" "length output = 6"
  shows "length m = 6"
proof -
  have "length (takeWhile (\<lambda>v. v \<le> 0xff) octets) \<le> 6" if "scan_octets 6 t = Some octets" for octets
    using length_takeWhile_le [of "\<lambda>v. v \<le> 0xff" octets] scan_octets_length [OF that] by linarith
  then show ?thesis using assms by (auto simp: lab_parse_mac_def Let_def split: if_splits option.splits)
qed

lemma init_target_ok:
  "lab_ok lab \<Longrightarrow> \<not> lb_has_target_state lab \<Longrightarrow> lab_ok (init_target cfg lab) \<and> lb_task_started (init_target cfg lab) = lb_task_started lab \<and> \<not> lb_has_target_state (init_target cfg lab)"
  by (auto simp: init_target_def lab_ok_def dest: parse_mac_length split: prod.split)

lemma init_schedule_ok:
  "lab_ok lab \<Longrightarrow> lab_ok (init_schedule cfg lab) \<and> lb_task_started (init_schedule cfg lab) = lb_task_started lab \<and>
     lb_has_target_state (init_schedule cfg lab) = lb_has_target_state lab"
  by (auto simp: init_schedule_def lab_ok_def Let_def split: prod.split)

lemma lab_init_ok:
  assumes "espdrop_awdl_tx_lab_init cfg lock station callback name lab = (r, lab')" "lab_ok lab" "\<not> lb_has_target_state lab"
  shows "lab_ok lab' \<and> lb_task_started lab' = lb_task_started lab \<and> \<not> lb_has_target_state lab'"
proof -
  have frame: "lab_ok (lab\<lparr>lb_state_lock := b\<rparr>)" "lab_ok (lab\<lparr>lb_state_lock := b, lb_station_mac := m\<rparr>)"
    "lab_ok (lab\<lparr>lb_state_lock := b, lb_station_mac := m, lb_election := e\<rparr>)" "lab_ok (l\<lparr>lb_device_name := nm\<rparr>) = lab_ok l" for b m e l nm
    using assms(2) by (simp_all add: lab_ok_def)
  have "lab_ok (init_schedule cfg (init_target cfg l)) \<and> lb_task_started (init_schedule cfg (init_target cfg l)) = lb_task_started l \<and>
      \<not> lb_has_target_state (init_schedule cfg (init_target cfg l))"
    if "lab_ok l" "\<not> lb_has_target_state l" for l
    using init_target_ok [OF that] init_schedule_ok by simp
  from this [OF frame(3)] show ?thesis
    using assms frame by (auto simp: espdrop_awdl_tx_lab_init_def Let_def split: if_splits sum.splits prod.splits)
qed

section \<open>Every run\<close>

lemma lab_step_inv:
  assumes "lab_step cfg c c'" "lab_inv c"
  shows "lab_inv c'"
  using assms(1)
proof (cases rule: lab_step.cases)
  case (start lock station callback name r lab)
  have "\<not> lb_has_target_state (lr_lab c)"
    using assms(2) start(2) by (simp add: lab_inv_def lab_ok_def)
  then show ?thesis using start(1,3) lab_init_ok [OF start(4)] assms(2) by (simp add: lab_inv_def)
next
  case (enter ob)
  then show ?thesis using observe_enter_ok [OF enter(4)] assms(2) by (simp add: lab_inv_def)
next
  case (select v table v' lab)
  then show ?thesis using observe_select_ok [OF select(4) _ _ select(3)] assms(2) by (auto simp: lab_inv_def kept_def)
next
  case (commit v go auto_targeted lab)
  then show ?thesis using observe_commit_ok [OF commit(3)] assms(2) by (auto simp: lab_inv_def kept_def)
next
  case (finish v go auto_targeted spawned)
  then show ?thesis using assms(2) by (auto simp: lab_inv_def observe_finish_def lab_ok_def Let_def)
next
  case (check now r lab)
  then show ?thesis using consider_check_ok [OF check(3)] assms(2) by (auto simp: lab_inv_def kept_def)
next
  case (choose now table r lab)
  then show ?thesis using consider_select_ok [OF choose(4) _ choose(3)] assms(2) by (auto simp: lab_inv_def kept_def)
next
  case (install r b lab)
  then show ?thesis using consider_commit_ok [OF install(3)] assms(2) by (auto simp: lab_inv_def kept_def)
next
  case (set_target target r lab)
  then show ?thesis using set_target_ok [OF set_target(3) _ set_target(2)] assms(2) by (auto simp: lab_inv_def kept_def)
next
  case (set_mode mode r lab)
  then show ?thesis using set_mode_ok [OF set_mode(2)] assms(2) by (auto simp: lab_inv_def kept_def)
next
  case (request r lab probe)
  then show ?thesis using request_run_ok [OF request(2)] assms(2) by (auto simp: lab_inv_def kept_def)
next
  case worker_ends
  then show ?thesis using assms(2) by (auto simp: lab_inv_def lab_ok_def split: if_splits)
next
  case (peer_seen source at)
  then show ?thesis using assms(2) by (simp add: lab_inv_def lab_ok_def espdrop_awdl_tx_lab_note_peer_seen_def)
next
  case (tx_done data n success lab handed)
  then show ?thesis using lab_tx_done_ok [OF tx_done(2)] assms(2) by (auto simp: lab_inv_def kept_def)
qed

lemma lab_static_inv: "lab_static cfg c \<Longrightarrow> lab_inv c"
  by (simp add: lab_static_def lab_inv_def lab_ok_def Let_def)

lemma lab_run_inv: "(lab_step cfg)\<^sup>*\<^sup>* c0 c \<Longrightarrow> lab_inv c0 \<Longrightarrow> lab_inv c"
  by (induction rule: rtranclp_induct) (auto intro: lab_step_inv)


section \<open>A run\<close>

definition ex_lab_config :: tx_lab_config where
  "ex_lab_config = \<lparr>xc_auto_target_airdrop = True, xc_settle_ms = 0, xc_max_age_ms = 1000, xc_min_rssi = -80, xc_margin_db = 20,
     xc_target_mac = [], xc_schedule_mac = [], xc_receiver_port = None\<rparr>"

definition ex_lab :: tx_lab where
  "ex_lab = \<lparr>lb_state_lock = False, lb_tx_state = tx_state_zero, lb_target_state = tx_state_zero,
     lb_election = \<lparr>el_state = \<lparr>es_self = replicate 6 0, es_master = replicate 6 0, es_sync_master = replicate 6 0,
         es_distance_to_master = 0, es_master_metric = 0, es_self_metric = 0, es_master_counter = 0, es_self_counter = 0\<rparr>,
       el_peers = replicate ESPDROP_AWDL_ELECTION_MAX_PEERS election_peer_zero, el_peer_count = 0, el_peer_timeout_us = 0\<rparr>,
     lb_peer_mifs = replicate AWDL_TX_LAB_ELECTION_PEERS
       \<lparr>pm_valid = False, pm_source = replicate 6 0, pm_peer_phy_tx = 0, pm_received_at_us = 0, pm_mif = mif_zero\<rparr>,
     lb_station_mac = replicate 6 0, lb_target_mac = replicate 6 0, lb_has_target_mac = False, lb_target_mode = AWDL_TARGET_AUTO,
     lb_target_control_configured = False, lb_schedule_mac = replicate 6 0, lb_has_schedule_mac = False, lb_device_name = [],
     lb_has_state = False, lb_has_target_state = False, lb_task_started = False, lb_run_requested = False, lb_netif_ready = False,
     lb_directed_reactions = 0, lb_neighbor_advertisements = 0, lb_echo_replies = 0, lb_action_radio_completed = 0,
     lb_action_radio_success = 0, lb_action_radio_failed = 0, lb_data_radio_completed = 0, lb_data_radio_success = 0,
     lb_data_radio_failed = 0, lb_unknown_data_radio_completed = 0, lb_first_airdrop_us = 0, lb_first_endpoint_us = 0,
     lb_last_status_us = 0, lb_last_endpoint_status_us = 0\<rparr>"

definition ex_lab_started :: tx_lab where
  "ex_lab_started = snd (espdrop_awdl_tx_lab_init ex_lab_config True (Inr [2, 0, 0, 0, 0, 9]) ESP_OK (Ptr (ascii ''esp'')) ex_lab)"

definition ex_lab_table :: peer_table where
  "ex_lab_table = ex_table2\<lparr>pt_peers := map (\<lambda>p. p\<lparr>pr_airdrop_port := 8770, pr_airdrop_endpoint_complete := True\<rparr>) (pt_peers ex_table2)\<rparr>"

definition ex_lab_checked :: tx_lab where
  "ex_lab_checked = snd (consider_check ex_lab_config 200000 ex_lab_started)"

definition ex_lab_off :: tx_lab where
  "ex_lab_off = snd (espdrop_awdl_tx_lab_set_target_mode AWDL_TARGET_NONE ex_lab_checked)"

definition ex_lab_installed :: tx_lab where
  "ex_lab_installed = snd (consider_commit (TABLE_OK, [2, 0, 0, 0, 0, 1]) ex_lab_off)"

definition ex_lab_run :: "tx_lab \<Rightarrow> consider_phase \<Rightarrow> lab_run" where
  "ex_lab_run lab phase = \<lparr>lr_lab = lab, lr_observe = Observe_idle, lr_consider = phase, lr_workers = 0\<rparr>"

lemma ex_lab_static: "lab_static ex_lab_config (ex_lab_run ex_lab Consider_idle)"
  by (simp add: lab_static_def ex_lab_run_def ex_lab_def ex_lab_config_def wf_peer_mifs_def)

lemma ex_lab_init:
  "espdrop_awdl_tx_lab_init ex_lab_config True (Inr [2, 0, 0, 0, 0, 9]) ESP_OK (Ptr (ascii ''esp'')) ex_lab = (ESP_OK, ex_lab_started)"
proof -
  have "fst (espdrop_awdl_tx_lab_init ex_lab_config True (Inr [2, 0, 0, 0, 0, 9]) ESP_OK (Ptr (ascii ''esp'')) ex_lab) = ESP_OK"
    by code_simp
  then show ?thesis by (simp add: ex_lab_started_def prod_eq_iff)
qed

lemma ex_lab_check: "consider_check ex_lab_config 200000 ex_lab_started = (None, ex_lab_checked)"
proof -
  have "fst (consider_check ex_lab_config 200000 ex_lab_started) = None" by code_simp
  then show ?thesis by (simp add: ex_lab_checked_def prod_eq_iff)
qed

lemma ex_lab_wf_table: "wf_table ex_lab_table"
  by code_simp

lemma ex_lab_select:
  "consider_select ex_lab_config (Ptr ex_lab_table) 200000 ex_lab_checked = ((TABLE_OK, [2, 0, 0, 0, 0, 1]), ex_lab_checked)"
proof -
  have "select_target ex_lab_config (Ptr ex_lab_table) 200000 True = (TABLE_OK, [2, 0, 0, 0, 0, 1])" by code_simp
  then show ?thesis by (simp add: consider_select_def)
qed

lemma ex_lab_set_off: "espdrop_awdl_tx_lab_set_target_mode AWDL_TARGET_NONE ex_lab_checked = (ESP_OK, ex_lab_off)"
  by (simp add: ex_lab_off_def espdrop_awdl_tx_lab_set_target_mode_def)

lemma ex_lab_install: "consider_commit (TABLE_OK, [2, 0, 0, 0, 0, 1]) ex_lab_off = (True, ex_lab_installed)"
  by (simp add: ex_lab_installed_def consider_commit_def ex_lab_off_def espdrop_awdl_tx_lab_set_target_mode_def)

lemma ex_lab_lock: "\<not> lb_state_lock ex_lab"
  by (simp add: ex_lab_def)

text \<open>The endpoint task checks and chooses, the host turns the target off, and the endpoint task installs its choice.\<close>

lemma ex_lab_reaches: "(lab_step ex_lab_config)\<^sup>*\<^sup>* (ex_lab_run ex_lab Consider_idle) (ex_lab_run ex_lab_installed Consider_idle)"
proof -
  note move = rtranclp.rtrancl_into_rtrancl
  let ?c1 = "ex_lab_run ex_lab_started Consider_idle" and ?c2 = "ex_lab_run ex_lab_checked (Consider_settled 200000)"
  let ?c3 = "ex_lab_run ex_lab_checked (Consider_chosen (TABLE_OK, [2, 0, 0, 0, 0, 1]))"
  let ?c4 = "ex_lab_run ex_lab_off (Consider_chosen (TABLE_OK, [2, 0, 0, 0, 0, 1]))"
  have "lab_step ex_lab_config (ex_lab_run ex_lab Consider_idle) ?c1"
    using lab_step.start [of "ex_lab_run ex_lab Consider_idle"] ex_lab_init ex_lab_lock by (simp add: ex_lab_run_def)
  moreover have "lab_step ex_lab_config ?c1 ?c2"
    using lab_step.check [of ?c1 ex_lab_config 200000] ex_lab_check by (simp add: ex_lab_run_def)
  moreover have "lab_step ex_lab_config ?c2 ?c3"
    using lab_step.choose [of ?c2 200000 "Ptr ex_lab_table" ex_lab_config] ex_lab_select ex_lab_wf_table by (simp add: ex_lab_run_def)
  moreover have "lab_step ex_lab_config ?c3 ?c4"
    using lab_step.set_mode [of AWDL_TARGET_NONE ?c3] ex_lab_set_off by (simp add: ex_lab_run_def)
  moreover have "lab_step ex_lab_config ?c4 (ex_lab_run ex_lab_installed Consider_idle)"
    using lab_step.install [of ?c4 "(TABLE_OK, [2, 0, 0, 0, 0, 1])"] ex_lab_install by (simp add: ex_lab_run_def)
  ultimately show ?thesis by (meson move rtranclp.rtrancl_refl)
qed

definition ex_lab_manual :: tx_lab where
  "ex_lab_manual = snd (espdrop_awdl_tx_lab_set_target (Ptr [2, 0, 0, 0, 0, 7]) ex_lab_installed)"

lemma ex_lab_manual_reaches: "(lab_step ex_lab_config)\<^sup>*\<^sup>* (ex_lab_run ex_lab Consider_idle) (ex_lab_run ex_lab_manual Consider_idle)"
proof -
  obtain r where "espdrop_awdl_tx_lab_set_target (Ptr [2, 0, 0, 0, 0, 7]) ex_lab_installed = (r, ex_lab_manual)"
    by (cases "espdrop_awdl_tx_lab_set_target (Ptr [2, 0, 0, 0, 0, 7]) ex_lab_installed") (simp add: ex_lab_manual_def)
  then have "lab_step ex_lab_config (ex_lab_run ex_lab_installed Consider_idle) (ex_lab_run ex_lab_manual Consider_idle)"
    using lab_step.set_target [of "Ptr [2, 0, 0, 0, 0, 7]" "ex_lab_run ex_lab_installed Consider_idle"] by (simp add: ex_lab_run_def)
  with ex_lab_reaches show ?thesis by (rule rtranclp.rtrancl_into_rtrancl)
qed

lemma ex_lab_manual_mode: "lb_target_mode ex_lab_manual = AWDL_TARGET_MANUAL"
proof -
  have "\<not> mac_is_zero [2, 0, 0, 0, 0, 7]" by code_simp
  then show ?thesis by (simp add: ex_lab_manual_def espdrop_awdl_tx_lab_set_target_def Let_def split: option.split prod.split)
qed


text \<open>
  The choice made before the host turned the target off is still installed after it: the run ends with no
  target wanted, and a target set.
\<close>
theorem target_survives_turning_off:
  "\<exists>c0 c. lab_static ex_lab_config c0 \<and> (lab_step ex_lab_config)\<^sup>*\<^sup>* c0 c \<and>
     lb_target_mode (lr_lab c) = AWDL_TARGET_NONE \<and> lb_has_target_mac (lr_lab c)"
proof (intro exI conjI)
  show "lab_static ex_lab_config (ex_lab_run ex_lab Consider_idle)" by (rule ex_lab_static)
  show "(lab_step ex_lab_config)\<^sup>*\<^sup>* (ex_lab_run ex_lab Consider_idle) (ex_lab_run ex_lab_installed Consider_idle)" by (rule ex_lab_reaches)
qed (simp_all add: ex_lab_run_def ex_lab_installed_def ex_lab_off_def consider_commit_def espdrop_awdl_tx_lab_set_target_mode_def)

end
