(* ===== verification/Serial_Task.thy ===== *)
theory Serial_Task
  imports Tx_Lab Airdrop_Ask
begin

text \<open>
  The maintenance task, \<^verbatim>\<open>src/main/maintenance_serial.c\<close>: one byte stream from the host carries Improv
  packets, text commands, the bytes of a relay upload and the chunks of a live stream. The state is
  that of the task's local variables with the modules it drives (spool, live stream, registry). What the
  environment answers during an iteration of the input loop is a \<open>serial_io\<close>; what the task does to the
  environment is the sequence \<open>sl_trace\<close>, in order. The results of \<^verbatim>\<open>serial_write\<close> are only logged, so
  a text handed to it is an event.
\<close>

section \<open>State\<close>

definition IMPROV_TYPE_CURRENT_STATE :: byte where "IMPROV_TYPE_CURRENT_STATE = 1"
definition IMPROV_TYPE_ERROR_STATE :: byte where "IMPROV_TYPE_ERROR_STATE = 2"
definition IMPROV_TYPE_RPC_COMMAND :: byte where "IMPROV_TYPE_RPC_COMMAND = 3"
definition IMPROV_TYPE_RPC_RESULT :: byte where "IMPROV_TYPE_RPC_RESULT = 4"
definition IMPROV_STATE_READY :: byte where "IMPROV_STATE_READY = 2"
definition IMPROV_STATE_PROVISIONING :: byte where "IMPROV_STATE_PROVISIONING = 3"
definition IMPROV_STATE_PROVISIONED :: byte where "IMPROV_STATE_PROVISIONED = 4"
definition IMPROV_ERROR_NONE :: byte where "IMPROV_ERROR_NONE = 0"
definition IMPROV_ERROR_INVALID_RPC :: byte where "IMPROV_ERROR_INVALID_RPC = 1"
definition IMPROV_ERROR_UNKNOWN_RPC :: byte where "IMPROV_ERROR_UNKNOWN_RPC = 2"
definition IMPROV_ERROR_UNABLE_TO_CONNECT :: byte where "IMPROV_ERROR_UNABLE_TO_CONNECT = 3"
definition IMPROV_RPC_WIFI_SETTINGS :: byte where "IMPROV_RPC_WIFI_SETTINGS = 1"
definition IMPROV_RPC_CURRENT_STATE :: byte where "IMPROV_RPC_CURRENT_STATE = 2"
definition IMPROV_RPC_DEVICE_INFO :: byte where "IMPROV_RPC_DEVICE_INFO = 3"
definition COMMAND_LINE_BYTES :: nat where "COMMAND_LINE_BYTES = 512"

datatype serial_event =
    Written bytes
  | Wake_requested
  | Target_mode_set awdl_target_mode
  | Target_set mac
  | Ota_requested "bytes ptr"
  | Wifi_connect bytes bytes
  | Wifi_wait
  | Wifi_configured
  | Restarted

record serial_io =
  io_tick :: u32
  io_time_us :: nat
  io_request_run :: esp_err
  io_wake :: esp_err
  io_target :: "mac option"
  io_target_mode :: awdl_target_mode
  io_set_target :: esp_err
  io_ota :: esp_err
  io_wifi_connect :: esp_err
  io_wifi_wait :: esp_err
  io_wifi_mark :: esp_err
  io_configured :: "esp_err \<times> bool"
  io_peers :: "peer_table ptr"
  io_stats :: bytes

text \<open>The build: drivers, limits, the length of the receive timeout in ticks and the names it prints.\<close>

record ('f, 'b) serial_config =
  sc_flash :: "'f partition_ops"
  sc_buffer :: "'b buffer_ops"
  sc_max_transfer_bytes :: nat
  sc_timeout_ticks :: u32
  sc_version :: bytes
  sc_idf_target :: bytes
  sc_err_name :: "esp_err \<Rightarrow> bytes"

record ('f, 'b) serial =
  sl_allow_provisioning :: bool
  sl_application_ready :: bool
  sl_parser :: improv_serial_parser
  sl_packet :: improv_serial_packet
  sl_command_line :: bytes
  sl_relay_receiving :: bool
  sl_relay_remaining :: nat
  sl_relay_last_receive :: u32
  sl_chunk_receiving :: bool
  sl_chunk_bytes :: nat
  sl_chunk_received :: nat
  sl_chunk_sequence :: u32
  sl_chunk_crc32 :: u32
  sl_stream_last_receive :: u32
  sl_stream_chunk :: bytes
  sl_spool :: "'f spool_state"
  sl_stream :: "'b relay_stream_state"
  sl_registry :: "('f spool_state ptr, 'b relay_stream_state ptr) outgoing_registry"
  sl_iteration :: nat
  sl_trace :: "serial_event list"
  sl_halted :: bool

definition emit :: "serial_event \<Rightarrow> ('f, 'b) serial \<Rightarrow> ('f, 'b) serial" where
  "emit ev s = s\<lparr>sl_trace := sl_trace s @ [ev]\<rparr>"

definition say :: "bytes \<Rightarrow> ('f, 'b) serial \<Rightarrow> ('f, 'b) serial" where
  "say v = emit (Written v)"

definition say_line :: "string \<Rightarrow> ('f, 'b) serial \<Rightarrow> ('f, 'b) serial" where
  "say_line t = say (ascii t @ [10])"

text \<open>A text that is written only when it fitted its buffer.\<close>

definition say_within :: "nat \<Rightarrow> bytes \<Rightarrow> ('f, 'b) serial \<Rightarrow> ('f, 'b) serial" where
  "say_within capacity v s = (if 0 < length v \<and> length v < capacity then say v s else s)"

definition restart :: "('f, 'b) serial \<Rightarrow> ('f, 'b) serial" where
  "restart s = (emit Restarted s)\<lparr>sl_halted := True\<rparr>"

section \<open>Improv\<close>

definition write_packet :: "byte \<Rightarrow> bytes \<Rightarrow> ('f, 'b) serial \<Rightarrow> ('f, 'b) serial" where
  "write_packet type data s =
     (case improv_serial_encode_packet type (Ptr data) (length data) (Ptr (replicate IMPROV_SERIAL_MAX_PACKET_SIZE 0)) IMPROV_SERIAL_MAX_PACKET_SIZE of
        (packet_length, packet) \<Rightarrow> if packet_length = 0 then s else say (take packet_length (deref packet)) s)"

definition send_state :: "byte \<Rightarrow> ('f, 'b) serial \<Rightarrow> ('f, 'b) serial" where
  "send_state v = write_packet IMPROV_TYPE_CURRENT_STATE [v]"

definition send_error :: "byte \<Rightarrow> ('f, 'b) serial \<Rightarrow> ('f, 'b) serial" where
  "send_error v = write_packet IMPROV_TYPE_ERROR_STATE [v]"

definition send_rpc_result :: "byte \<Rightarrow> bytes ptr list \<Rightarrow> ('f, 'b) serial \<Rightarrow> ('f, 'b) serial" where
  "send_rpc_result command strings s =
     (case rpc_result_data command strings of None \<Rightarrow> s | Some data \<Rightarrow> write_packet IMPROV_TYPE_RPC_RESULT data s)"

text \<open>The credentials are handed on as C strings.\<close>

definition handle_wifi_settings :: "serial_io \<Rightarrow> bytes \<Rightarrow> ('f, 'b) serial \<Rightarrow> ('f, 'b) serial option" where
  "handle_wifi_settings io data s =
     (if \<not> sl_allow_provisioning s then Some (send_error IMPROV_ERROR_UNKNOWN_RPC s)
      else do {
        settings \<leftarrow> decode_wifi_settings (Ptr data) 33 64;
        Some (case settings of
          None \<Rightarrow> send_error IMPROV_ERROR_INVALID_RPC s
        | Some (ssid, password) \<Rightarrow>
            let text_of = takeWhile (\<lambda>c. c \<noteq> 0);
                s1 = emit (Wifi_connect (text_of ssid) (text_of password)) (send_state IMPROV_STATE_PROVISIONING s);
                (r2, s2) = (if io_wifi_connect io = ESP_OK then (io_wifi_wait io, emit Wifi_wait s1) else (io_wifi_connect io, s1));
                (r3, s3) = (if r2 = ESP_OK then (io_wifi_mark io, emit Wifi_configured s2) else (r2, s2)) in
            if r3 \<noteq> ESP_OK then send_state IMPROV_STATE_READY (send_error IMPROV_ERROR_UNABLE_TO_CONNECT s3)
            else restart (send_rpc_result IMPROV_RPC_WIFI_SETTINGS [Ptr (ascii ''https://krydix.github.io/espDrop/'')]
                   (send_state IMPROV_STATE_PROVISIONED (send_error IMPROV_ERROR_NONE s3)))) })"

definition handle_rpc :: "('f, 'b) serial_config \<Rightarrow> serial_io \<Rightarrow> improv_serial_packet \<Rightarrow> ('f, 'b) serial \<Rightarrow> ('f, 'b) serial option" where
  "handle_rpc cfg io packet s =
     (if ik_type packet \<noteq> IMPROV_TYPE_RPC_COMMAND \<or> ik_length packet < 2 then Some (send_error IMPROV_ERROR_INVALID_RPC s)
      else do {
        declared \<leftarrow> rd (ik_data packet) 1;
        if declared \<noteq> ik_length packet - 2 then Some (send_error IMPROV_ERROR_INVALID_RPC s)
        else do {
          command \<leftarrow> rd (ik_data packet) 0;
          data \<leftarrow> rds (ik_data packet) 2 (unat declared);
          let s1 = send_error IMPROV_ERROR_NONE s;
          if command = IMPROV_RPC_WIFI_SETTINGS then handle_wifi_settings io data s1
          else if command = IMPROV_RPC_CURRENT_STATE \<and> declared = 0 then
            Some (case io_configured io of (result, configured) \<Rightarrow>
              if result \<noteq> ESP_OK then send_error IMPROV_ERROR_UNABLE_TO_CONNECT s1
              else send_rpc_result command [] (send_state (if configured then IMPROV_STATE_PROVISIONED else IMPROV_STATE_READY) s1))
          else if command = IMPROV_RPC_DEVICE_INFO \<and> declared = 0 then
            Some (send_rpc_result command [Ptr (ascii ''espDrop''), Ptr (sc_version cfg),
              Ptr (sc_idf_target cfg @ ascii ''/'' @ sc_idf_target cfg), Ptr (ascii ''espDrop maintenance'')] s1)
          else Some (send_error IMPROV_ERROR_UNKNOWN_RPC s1) } })"

section \<open>Text commands\<close>

definition arm_ota_and_restart :: "serial_io \<Rightarrow> bytes ptr \<Rightarrow> ('f, 'b) serial \<Rightarrow> ('f, 'b) serial" where
  "arm_ota_and_restart io url s =
     (let s1 = emit (Ota_requested url) s;
          s2 = say_line (if io_ota io = ESP_OK then ''ESPDROP-OTA-ARMED''
                         else if io_ota io = ESP_ERR_INVALID_STATE then ''ESPDROP-OTA-NOT-PROVISIONED''
                         else ''ESPDROP-OTA-INVALID-URL'') s1 in
      if io_ota io = ESP_OK then restart s2 else s2)"

definition target_mode_name :: "awdl_target_mode \<Rightarrow> string" where
  "target_mode_name mode = (case mode of AWDL_TARGET_AUTO \<Rightarrow> ''auto'' | AWDL_TARGET_MANUAL \<Rightarrow> ''manual'' | AWDL_TARGET_NONE \<Rightarrow> ''none'')"

text \<open>An address as \<^verbatim>\<open>%02x:...\<close>.\<close>

definition mac_text :: "mac \<Rightarrow> bytes" where
  "mac_text m = hex_pair lower_hex (m ! 0) @ concat (map (\<lambda>i. 58 # hex_pair lower_hex (m ! i)) [1, 2, 3, 4, 5])"

definition send_target_status :: "serial_io \<Rightarrow> ('f, 'b) serial \<Rightarrow> ('f, 'b) serial" where
  "send_target_status io s =
     say_within 128 (ascii ''ESPDROP-TARGET mode='' @ ascii (target_mode_name (io_target_mode io)) @ ascii '' peer='' @
       (case io_target io of Some m \<Rightarrow> mac_text m | None \<Rightarrow> ascii ''-'') @ [10]) s"

definition target_prefix :: bytes where "target_prefix = ascii ''ESPDROP TARGET ''"

definition handle_target_command :: "serial_io \<Rightarrow> bytes \<Rightarrow> ('f, 'b) serial \<Rightarrow> bool \<times> ('f, 'b) serial" where
  "handle_target_command io line s =
     (if \<not> starts_with target_prefix line then (False, s)
      else
        let argument = drop (length target_prefix) line in
        if argument = ascii ''STATUS'' then (True, send_target_status io s)
        else
          let (result, s1) =
                (if argument = ascii ''AUTO'' then (io_set_target io, emit (Target_mode_set AWDL_TARGET_AUTO) s)
                 else if argument = ascii ''NONE'' then (io_set_target io, emit (Target_mode_set AWDL_TARGET_NONE) s)
                 else (case parse_mac (Ptr argument) of
                         None \<Rightarrow> (ESP_ERR_INVALID_ARG, s)
                       | Some target \<Rightarrow> (io_set_target io, emit (Target_set target) s))) in
          (True, if result \<noteq> ESP_OK then say_line ''ESPDROP-TARGET-INVALID'' s1 else send_target_status io s1))"

definition peer_is_visible_awdl_candidate :: "espdrop_peer \<Rightarrow> bool" where
  "peer_is_visible_awdl_candidate peer \<longleftrightarrow> aps_mif_seen (pr_awdl peer)"

definition flag_text :: "bool \<Rightarrow> bytes" where
  "flag_text b = ascii (if b then ''1'' else ''0'')"

definition signed_digits :: "int \<Rightarrow> bytes" where
  "signed_digits i = (if i < 0 then 45 # digits 10 (nat (- i)) else digits 10 (nat i))"

text \<open>One line of the peer list; the identifier is cut to its field and to its terminator.\<close>

definition peer_text :: "nat \<Rightarrow> espdrop_peer \<Rightarrow> bytes" where
  "peer_text now_ms peer =
     (let last_seen = unat (pr_last_seen_ms peer); airdrop_seen = unat (pr_airdrop_seen_ms peer);
          age_ms = (if last_seen \<le> now_ms then now_ms - last_seen else 0);
          airdrop_age_ms = (if airdrop_seen \<noteq> 0 \<and> airdrop_seen \<le> now_ms then now_ms - airdrop_seen else UINT64_MAX);
          service_id = take (ESPDROP_SERVICE_ID_MAX_BYTES - 1) (pr_service_id peer);
          ins = (if service_id \<noteq> [] then service_id else ascii ''-'') in
      ascii ''ESPDROP-PEER mac='' @ mac_text (pr_awdl_mac peer) @ ascii '' rssi='' @ signed_digits (pr_awdl_rssi peer) @
      ascii '' signals='' @ digits 10 (unat (pr_signals peer)) @ ascii '' valid='' @ flag_text (aps_peer_valid (pr_awdl peer)) @
      ascii '' airdrop='' @ flag_text (aps_advertises_airdrop (pr_awdl peer)) @
      ascii '' class='' @ digits 10 (unat (aps_device_class (pr_awdl peer))) @
      ascii '' distance='' @ digits 10 (unat (aps_distance_to_master (pr_awdl peer))) @
      ascii '' endpoint='' @ flag_text (pr_airdrop_endpoint_complete peer) @ ascii '' port='' @ digits 10 (unat (pr_airdrop_port peer)) @
      ascii '' age_ms='' @ digits 10 age_ms @ ascii '' airdrop_age_ms='' @ digits 10 airdrop_age_ms @
      ascii '' instance='' @ ins @ [10])"

definition send_peer_list :: "serial_io \<Rightarrow> ('f, 'b) serial \<Rightarrow> ('f, 'b) serial" where
  "send_peer_list io s =
     (if io_peers io = NULL then say (ascii ''ESPDROP-PEERS-BEGIN count=0'' @ [10] @ ascii ''ESPDROP-PEERS-END'' @ [10]) s
      else
        let table = deref (io_peers io);
            snapshot = filter peer_is_visible_awdl_candidate (take (pt_count table) (pt_peers table));
            s1 = say_within 768 (ascii ''ESPDROP-PEERS-BEGIN count='' @ digits 10 (length snapshot) @ [10]) s;
            s2 = fold (\<lambda>peer. say_within 768 (peer_text (io_time_us io div 1000) peer)) snapshot s1 in
        say_line ''ESPDROP-PEERS-END'' s2)"

text \<open>The result tells whether the bytes of an upload follow.\<close>

definition start_relay_upload :: "('f, 'b) serial_config \<Rightarrow> bytes \<Rightarrow> ('f, 'b) serial \<Rightarrow> bool \<times> ('f, 'b) serial" where
  "start_relay_upload cfg line s =
     (if \<not> starts_with relay_command line then (False, s)
      else
        (case parse_relay_request (relay_spool_capacity (sl_spool s)) line of
           None \<Rightarrow> (False, say_line ''ESPDROP-RELAY-INVALID'' s)
         | Some rq \<Rightarrow>
             (case espdrop_airdrop_outgoing_clear (sl_registry s) of (cleared, registry) \<Rightarrow>
                let s1 = s\<lparr>sl_registry := registry\<rparr> in
                if cleared \<noteq> ESP_OK then (False, say_line ''ESPDROP-RELAY-BUSY'' s1)
                else
                  (case relay_spool_begin (sc_flash cfg) (sl_spool s1) (rq_size rq) (rq_crc32 rq) (Ptr (rq_file_name rq)) (Ptr (rq_file_type rq)) of
                     (result, spool) \<Rightarrow>
                       let s2 = s1\<lparr>sl_spool := spool\<rparr> in
                       if result \<noteq> ESP_OK then (False, say_line ''ESPDROP-RELAY-FAILED'' s2)
                       else (True, say (ascii ''ESPDROP-RELAY-READY capacity='' @ digits 10 (relay_spool_capacity spool) @ [10]) s2)))))"

text \<open>The size is read again from the line, whose first field now ends with a terminator.\<close>

definition reread_size :: "bytes \<Rightarrow> nat" where
  "reread_size line =
     (let rest = drop (length relay_command) line;
          spaces = takeWhile (\<lambda>c. c = 32) rest; field = takeWhile (\<lambda>c. c \<noteq> 32) (dropWhile (\<lambda>c. c = 32) rest) in
      fst (strtoul (spaces @ field) 10))"

definition start_stream_upload :: "('f, 'b) serial_config \<Rightarrow> serial_io \<Rightarrow> bytes \<Rightarrow> ('f, 'b) serial \<Rightarrow> bool \<times> ('f, 'b) serial" where
  "start_stream_upload cfg io line s =
     (if \<not> starts_with stream_begin_command line then (False, s)
      else
        (case parse_stream_request (sc_max_transfer_bytes cfg) line of
           None \<Rightarrow> (False, say_line ''ESPDROP-STREAM-INVALID'' s)
         | Some rq \<Rightarrow>
             (case espdrop_airdrop_outgoing_clear (sl_registry s) of (cleared, registry) \<Rightarrow>
                let s1 = s\<lparr>sl_registry := registry\<rparr> in
                if cleared \<noteq> ESP_OK then (False, say_line ''ESPDROP-STREAM-BUSY'' s1)
                else
                  (case relay_stream_begin (sc_buffer cfg) (sl_stream s1) (rq_size (rs_request rq)) (rq_crc32 (rs_request rq))
                          (rs_payload_size rq) (rs_payload_crc rq) (rs_archive_size rq) (rs_block_count rq)
                          (Ptr (rq_file_name (rs_request rq))) (Ptr (rq_file_type (rs_request rq))) of
                     (begun, stream, outgoing) \<Rightarrow>
                       let s2 = s1\<lparr>sl_stream := stream\<rparr>;
                           (stored, registry2) = (if begun = ESP_OK then espdrop_airdrop_outgoing_set (sl_registry s2) outgoing
                                                  else (begun, sl_registry s2));
                           s3 = s2\<lparr>sl_registry := registry2\<rparr>;
                           (result, s4) = (if stored = ESP_OK then (io_request_run io, emit Wake_requested s3) else (stored, s3)) in
                       if result \<noteq> ESP_OK then
                         (False, say_line ''ESPDROP-STREAM-FAILED'' (s4\<lparr>sl_stream := relay_stream_abort (sl_stream s4)\<rparr>))
                       else
                         (True, say (ascii ''ESPDROP-STREAM-ARMED file_bytes='' @ digits 10 (rq_size (rs_request rq)) @
                            ascii '' payload_bytes='' @ digits 10 (rs_payload_size rq) @ ascii '' chunk='' @ digits 10 RELAY_STREAM_CHUNK_MAX @ [10]) s4)))))"

definition cancel_stream_upload :: "('f, 'b) serial \<Rightarrow> ('f, 'b) serial" where
  "cancel_stream_upload s =
     (let s1 = s\<lparr>sl_stream := relay_stream_abort (sl_stream s)\<rparr> in
      case espdrop_airdrop_outgoing_clear (sl_registry s1) of (result, registry) \<Rightarrow>
        say_line (if result = ESP_OK then ''ESPDROP-STREAM-CANCELLED'' else ''ESPDROP-STREAM-CANCEL-PENDING'') (s1\<lparr>sl_registry := registry\<rparr>))"

definition result_state_name :: "outgoing_result_state \<Rightarrow> string" where
  "result_state_name st =
     (if st = OUTGOING_RESULT_PENDING then ''pending'' else if st = OUTGOING_RESULT_SUCCESS then ''success''
      else if st = OUTGOING_RESULT_FAILED then ''failed'' else ''none'')"

definition result_stage_name :: "outgoing_stage \<Rightarrow> string" where
  "result_stage_name st =
     (if st = OUTGOING_STAGE_TLS then ''tls'' else if st = OUTGOING_STAGE_ASK then ''ask''
      else if st = OUTGOING_STAGE_UPLOAD then ''upload'' else ''none'')"

definition send_stream_result :: "('f, 'b) serial \<Rightarrow> ('f, 'b) serial" where
  "send_stream_result s =
     (let result = espdrop_airdrop_outgoing_result (sl_registry s) in
      say_within 224 (ascii ''ESPDROP-STREAM-RESULT state='' @ ascii (result_state_name (or_state result)) @ ascii '' stage='' @
        ascii (result_stage_name (or_stage result)) @ ascii '' error='' @ signed_digits (or_error result) @ ascii '' status='' @
        digits 10 (unat (or_http_status result)) @ ascii '' request_bytes='' @ digits 10 (or_request_bytes result) @
        ascii '' payload_bytes='' @ digits 10 (or_payload_bytes result) @ [10]) s)"

definition start_stream_chunk :: "bytes \<Rightarrow> ('f, 'b) serial \<Rightarrow> (u32 \<times> nat \<times> u32) option \<times> ('f, 'b) serial" where
  "start_stream_chunk line s =
     (if \<not> starts_with stream_data_command line then (None, s)
      else
        (case parse_stream_chunk (sl_stream s) line of
           None \<Rightarrow> (None, say_line ''ESPDROP-STREAM-DATA-INVALID'' s)
         | Some (sequence, data_bytes, chunk_crc) \<Rightarrow>
             (Some (sequence, data_bytes, chunk_crc), say (ascii ''ESPDROP-STREAM-DATA-READY seq='' @ digits 10 (unat sequence) @ [10]) s)))"

section \<open>The input loop\<close>

text \<open>Dispatch of a complete line.\<close>

definition run_command :: "('f, 'b) serial_config \<Rightarrow> serial_io \<Rightarrow> bytes \<Rightarrow> ('f, 'b) serial \<Rightarrow> ('f, 'b) serial" where
  "run_command cfg io line s =
     (if line = ascii ''ESPDROP PING'' then
        say_within 96 (ascii ''ESPDROP-PONG protocol=1 uptime_ms='' @ digits 10 (io_time_us io div 1000) @ ascii '' ready='' @
          flag_text (sl_application_ready s) @ [10]) s
      else if line = ascii ''ESPDROP PEERS'' then send_peer_list io s
      else if line = ascii ''ESPDROP STATS'' then say_within 768 (io_stats io) s
      else if line = ascii ''ESPDROP STREAM RESULT'' then send_stream_result s
      else if line = ascii ''ESPDROP WAKE'' then
        say_line (if io_wake io = ESP_OK then ''ESPDROP-WAKE-ARMED'' else ''ESPDROP-WAKE-FAILED'') (emit Wake_requested s)
      else if fst (handle_target_command io line s) then snd (handle_target_command io line s)
      else if line = ascii ''ESPDROP RESTART'' then restart (say_line ''ESPDROP-RESTARTING'' s)
      else if line = ascii ''ESPDROP STREAM CANCEL'' then cancel_stream_upload s
      else if line = ota_command then arm_ota_and_restart io NULL s
      else if length line > length ota_command + 1 \<and> starts_with ota_command line \<and> line ! length ota_command = 32 then
        arm_ota_and_restart io (Ptr (drop (length ota_command + 1) line)) s
      else
        (case start_relay_upload cfg line s of (relay_started, s1) \<Rightarrow>
           if relay_started then
             s1\<lparr>sl_relay_receiving := True, sl_relay_remaining := reread_size line, sl_relay_last_receive := io_tick io\<rparr>
           else
             (case start_stream_upload cfg io line s1 of (stream_started, s2) \<Rightarrow>
                if stream_started then s2
                else
                  (case start_stream_chunk line s2 of
                     (None, s3) \<Rightarrow> s3
                   | (Some (sequence, data_bytes, chunk_crc), s3) \<Rightarrow>
                       s3\<lparr>sl_chunk_sequence := sequence, sl_chunk_bytes := data_bytes, sl_chunk_crc32 := chunk_crc,
                          sl_chunk_receiving := True, sl_chunk_received := 0, sl_stream_last_receive := io_tick io\<rparr>))))"

definition command_prefix :: bytes where "command_prefix = ascii ''ESPDROP ''"

definition command_byte :: "('f, 'b) serial_config \<Rightarrow> serial_io \<Rightarrow> byte \<Rightarrow> ('f, 'b) serial \<Rightarrow> ('f, 'b) serial" where
  "command_byte cfg io b s =
     (let line = sl_command_line s in
      if line = [] then (if b = 69 then s\<lparr>sl_command_line := [b]\<rparr> else s)
      else if b = 10 then (run_command cfg io line s)\<lparr>sl_command_line := []\<rparr>
      else if b < 0x20 \<or> b > 0x7e \<or> length line + 1 \<ge> COMMAND_LINE_BYTES then s\<lparr>sl_command_line := []\<rparr>
      else
        let n = length line + 1 in
        if n \<le> length command_prefix \<and> b \<noteq> command_prefix ! (n - 1) then s\<lparr>sl_command_line := if b = 69 then [b] else []\<rparr>
        else s\<lparr>sl_command_line := line @ [b]\<rparr>)"

text \<open>A byte outside an upload goes to the packet parser and to the line; \<^verbatim>\<open>esp_restart\<close> does not return.\<close>

definition serial_byte :: "('f, 'b) serial_config \<Rightarrow> serial_io \<Rightarrow> byte \<Rightarrow> ('f, 'b) serial \<Rightarrow> ('f, 'b) serial option" where
  "serial_byte cfg io b s = do {
     (parsed, parser, packet) \<leftarrow> improv_serial_parser_feed (Ptr (sl_parser s)) b (Ptr (sl_packet s));
     let s1 = s\<lparr>sl_parser := deref parser, sl_packet := deref packet\<rparr>;
     s2 \<leftarrow> (if parsed = IMPROV_SERIAL_PARSE_PACKET then handle_rpc cfg io (sl_packet s1) s1
            else if parsed = IMPROV_SERIAL_PARSE_INVALID then Some (send_error IMPROV_ERROR_INVALID_RPC s1)
            else Some s1);
     Some (if sl_halted s2 then s2 else command_byte cfg io b s2) }"

definition chunk_error_text :: "('f, 'b) serial_config \<Rightarrow> u32 \<Rightarrow> esp_err \<Rightarrow> bytes" where
  "chunk_error_text cfg sequence result =
     ascii ''ESPDROP-STREAM-CHUNK-ERROR seq='' @ digits 10 (unat sequence) @ ascii '' error='' @ sc_err_name cfg result @ [10]"

text \<open>A piece of a chunk; the complete chunk is pushed into the stream.\<close>

definition receive_chunk :: "('f, 'b) serial_config \<Rightarrow> serial_io \<Rightarrow> bytes \<Rightarrow> ('f, 'b) serial \<Rightarrow> ('f, 'b) serial" where
  "receive_chunk cfg io piece s =
     (let s1 = s\<lparr>sl_stream_chunk := store (sl_stream_chunk s) (sl_chunk_received s) piece,
                 sl_chunk_received := sl_chunk_received s + length piece, sl_stream_last_receive := io_tick io\<rparr> in
      if sl_chunk_received s1 \<noteq> sl_chunk_bytes s1 then s1
      else
        (case relay_stream_push_chunk (sc_buffer cfg) (sl_stream s1) (sl_chunk_sequence s1)
                (Ptr (take (sl_chunk_bytes s1) (sl_stream_chunk s1))) (sl_chunk_crc32 s1) of
           (result, stream) \<Rightarrow>
             let s2 = say (if result = ESP_OK
                           then ascii ''ESPDROP-STREAM-ACK seq='' @ digits 10 (unat (sl_chunk_sequence s1)) @ ascii '' bytes='' @
                             digits 10 (sl_chunk_bytes s1) @ [10]
                           else chunk_error_text cfg (sl_chunk_sequence s1) result) (s1\<lparr>sl_stream := stream\<rparr>);
                 s3 = (if result \<noteq> ESP_OK then s2\<lparr>sl_stream := relay_stream_abort (sl_stream s2)\<rparr> else s2) in
             s3\<lparr>sl_chunk_receiving := False, sl_chunk_bytes := 0, sl_chunk_received := 0\<rparr>))"

text \<open>A piece of a relay upload; the result is whether the loop over the input goes on.\<close>

definition receive_relay_piece :: "('f, 'b) serial_config \<Rightarrow> serial_io \<Rightarrow> bytes \<Rightarrow> ('f, 'b) serial \<Rightarrow> bool \<times> ('f, 'b) serial" where
  "receive_relay_piece cfg io piece s =
     (case receive_relay (sc_flash cfg) (sl_spool s) piece of (result, spool) \<Rightarrow>
        let s1 = s\<lparr>sl_spool := spool\<rparr> in
        if result \<noteq> ESP_OK then
          (False, say_line ''ESPDROP-RELAY-FAILED'' (s1\<lparr>sl_relay_receiving := False, sl_relay_remaining := 0\<rparr>))
        else
          let s2 = s1\<lparr>sl_relay_remaining := sl_relay_remaining s1 - length piece, sl_relay_last_receive := io_tick io\<rparr> in
          if sl_relay_remaining s2 \<noteq> 0 then (True, s2)
          else
            (case finish_relay_upload (sc_flash cfg) (io_request_run io) (sl_spool s2) (sl_registry s2) of
               (response, final, spool2, registry) \<Rightarrow>
                 (True, say response (s2\<lparr>sl_relay_receiving := False, sl_spool := spool2, sl_registry := registry\<rparr>))))"

partial_function (option) serial_consume ::
  "('f, 'b) serial_config \<Rightarrow> (nat \<Rightarrow> serial_io) \<Rightarrow> bytes \<Rightarrow> ('f, 'b) serial \<Rightarrow> ('f, 'b) serial option" where
  "serial_consume cfg ios input s =
     (if input = [] \<or> sl_halted s then Some s
      else
        let io = ios (sl_iteration s); s0 = s\<lparr>sl_iteration := sl_iteration s + 1\<rparr> in
        if sl_chunk_receiving s then
          let remaining = sl_chunk_bytes s - sl_chunk_received s;
              count = (if length input < remaining then length input else remaining) in
          serial_consume cfg ios (drop count input) (receive_chunk cfg io (take count input) s0)
        else if sl_relay_receiving s then
          let count = (if length input < sl_relay_remaining s then length input else sl_relay_remaining s) in
          (case receive_relay_piece cfg io (take count input) s0 of (goes_on, s1) \<Rightarrow>
             if goes_on then serial_consume cfg ios (drop count input) s1 else Some s1)
        else do {
          s1 \<leftarrow> serial_byte cfg io (hd input) s0;
          serial_consume cfg ios (tl input) s1 })"

text \<open>The timeouts, when a read brought nothing.\<close>

definition serial_timeouts :: "('f, 'b) serial_config \<Rightarrow> serial_io \<Rightarrow> ('f, 'b) serial \<Rightarrow> ('f, 'b) serial" where
  "serial_timeouts cfg io s =
     (let s1 = (if sl_relay_receiving s \<and> io_tick io - sl_relay_last_receive s > sc_timeout_ticks cfg
                then say_line ''ESPDROP-RELAY-TIMEOUT''
                  (s\<lparr>sl_spool := relay_spool_abort (sl_spool s), sl_relay_receiving := False, sl_relay_remaining := 0\<rparr>)
                else s) in
      if sl_chunk_receiving s1 \<and> io_tick io - sl_stream_last_receive s1 > sc_timeout_ticks cfg
      then say_line ''ESPDROP-STREAM-TIMEOUT''
        (s1\<lparr>sl_stream := relay_stream_abort (sl_stream s1), sl_chunk_receiving := False, sl_chunk_bytes := 0, sl_chunk_received := 0\<rparr>)
      else s1)"

text \<open>One turn of the task: a read of the driver, at most 1024 bytes, possibly none.\<close>

definition serial_poll ::
  "('f, 'b) serial_config \<Rightarrow> (nat \<Rightarrow> serial_io) \<Rightarrow> bytes \<Rightarrow> ('f, 'b) serial \<Rightarrow> ('f, 'b) serial option" where
  "serial_poll cfg ios input s = do {
     s1 \<leftarrow> serial_consume cfg ios input s;
     Some (if sl_halted s1 \<or> input \<noteq> [] then s1 else (serial_timeouts cfg (ios (sl_iteration s1)) s1)\<lparr>sl_iteration := sl_iteration s1 + 1\<rparr>) }"

section \<open>Start\<close>

text \<open>
  The task is created with cleared local variables. \<open>installed\<close>, \<open>locked\<close> and \<open>areas\<close> are the results of
  installing the USB driver, creating the write lock and allocating the work areas, \<open>created\<close> the stream
  buffer when it could be allocated, \<open>spawned\<close> whether the task could be created.
\<close>

definition maintenance_serial_start ::
  "esp_err \<Rightarrow> bool \<Rightarrow> esp_err \<Rightarrow> 'b ptr \<Rightarrow> (bytes \<Rightarrow> esp_err) \<Rightarrow> bool \<Rightarrow> bool \<Rightarrow> ('f, 'b) serial \<Rightarrow> esp_err \<times> ('f, 'b) serial" where
  "maintenance_serial_start installed locked areas created write spawned provisioning_mode s =
     (let s1 = s\<lparr>sl_allow_provisioning := provisioning_mode\<rparr> in
      if installed \<noteq> ESP_OK then (installed, s1)
      else if \<not> locked then (ESP_ERR_NO_MEM, s1)
      else if areas \<noteq> ESP_OK then (areas, s1)
      else
        (case relay_stream_init (sl_stream s1) created (Ptr write) of (result, stream) \<Rightarrow>
           let s2 = s1\<lparr>sl_stream := stream\<rparr> in
           if result \<noteq> ESP_OK then (result, s2)
           else if \<not> spawned then (ESP_ERR_NO_MEM, s2)
           else
             (ESP_OK, s2\<lparr>sl_parser := \<lparr>ip_bytes = replicate IMPROV_SERIAL_MAX_PACKET_SIZE 0, ip_length = 0, ip_expected_length = 0\<rparr>,
                         sl_command_line := [], sl_relay_receiving := False, sl_relay_remaining := 0, sl_relay_last_receive := 0,
                         sl_chunk_receiving := False, sl_chunk_bytes := 0, sl_chunk_received := 0, sl_chunk_sequence := 0,
                         sl_chunk_crc32 := 0, sl_stream_last_receive := 0\<rparr>)))"

definition maintenance_serial_set_application_ready :: "bool \<Rightarrow> ('f, 'b) serial \<Rightarrow> ('f, 'b) serial" where
  "maintenance_serial_set_application_ready ready s = s\<lparr>sl_application_ready := ready\<rparr>"

section \<open>Writing to the host\<close>

record 'e usb_ops =
  ub_tick :: "'e \<Rightarrow> u32 \<times> 'e"
  ub_write_bytes :: "bytes \<Rightarrow> 'e \<Rightarrow> int \<times> 'e"
  ub_delay :: "'e \<Rightarrow> 'e"
  ub_timeout_ticks :: u32

partial_function (option) serial_write_loop :: "'e usb_ops \<Rightarrow> bytes \<Rightarrow> u32 \<Rightarrow> nat \<Rightarrow> 'e \<Rightarrow> (nat \<times> 'e) option" where
  "serial_write_loop ub data started offset e =
     (if offset < length data then
        (case ub_tick ub e of (now, e1) \<Rightarrow>
           if now - started < ub_timeout_ticks ub then
             (case ub_write_bytes ub (drop offset data) e1 of (written, e2) \<Rightarrow>
                if written > 0 then serial_write_loop ub data started (offset + nat written) e2
                else serial_write_loop ub data started offset (ub_delay ub e2))
           else Some (offset, e1))
      else Some (offset, e))"

text \<open>\<open>locked\<close> is whether the lock exists and was taken in time.\<close>

definition serial_write :: "'e usb_ops \<Rightarrow> bool \<Rightarrow> bytes ptr \<Rightarrow> 'e \<Rightarrow> (esp_err \<times> 'e) option" where
  "serial_write ub locked data e =
     (if data = NULL \<or> length (deref data) = 0 \<or> \<not> locked then Some (ESP_FAIL, e)
      else
        (case ub_tick ub e of (started, e1) \<Rightarrow> do {
           (offset, e2) \<leftarrow> serial_write_loop ub (deref data) started 0 e1;
           Some (if offset = length (deref data) then ESP_OK else ESP_FAIL, e2) }))"

end
