(* ===== verification/Serial_Safety.thy ===== *)
theory Serial_Safety
  imports Serial_Task
begin

text \<open>
  The maintenance task keeps its books: in every run, interleaved with what the sender does to the shared
  modules, the task returns to its loop, its buffers are never exceeded, and its bookkeeping of an upload
  agrees with that of the spool.
\<close>

section \<open>What an operation leaves alone\<close>

text \<open>Everything but the stream, the registry, the flags of the build and the trace.\<close>

definition serial_core :: "('f, 'b) serial \<Rightarrow>
    (improv_serial_parser \<times> improv_serial_packet \<times> bytes) \<times> (bool \<times> nat) \<times> (bool \<times> nat \<times> nat \<times> bytes) \<times> 'f spool_state" where
  "serial_core s = ((sl_parser s, sl_packet s, sl_command_line s), (sl_relay_receiving s, sl_relay_remaining s),
     (sl_chunk_receiving s, sl_chunk_bytes s, sl_chunk_received s, sl_stream_chunk s), sl_spool s)"

named_theorems core_simps

lemma core_emit [core_simps]: "serial_core (emit ev s) = serial_core s"
  by (simp add: emit_def serial_core_def)

lemma core_updates [core_simps]:
  "serial_core (s\<lparr>sl_trace := t\<rparr>) = serial_core s" "serial_core (s\<lparr>sl_halted := h\<rparr>) = serial_core s"
  "serial_core (s\<lparr>sl_registry := g\<rparr>) = serial_core s" "serial_core (s\<lparr>sl_stream := st\<rparr>) = serial_core s"
  "serial_core (s\<lparr>sl_iteration := n\<rparr>) = serial_core s"
  by (simp_all add: serial_core_def)

lemma core_say [core_simps]:
  "serial_core (say v s) = serial_core s" "serial_core (say_line t s) = serial_core s" "serial_core (say_within n v s) = serial_core s"
  "serial_core (restart s) = serial_core s"
  by (simp_all add: say_def say_line_def say_within_def restart_def core_simps)

lemma core_send [core_simps]:
  "serial_core (write_packet type data s) = serial_core s" "serial_core (send_state v s) = serial_core s"
  "serial_core (send_error v s) = serial_core s" "serial_core (send_rpc_result c strings s) = serial_core s"
proof -
  show w: "serial_core (write_packet type data s) = serial_core s" for type data s
    by (simp add: write_packet_def core_simps split: prod.split)
  show "serial_core (send_state v s) = serial_core s" "serial_core (send_error v s) = serial_core s"
    "serial_core (send_rpc_result c strings s) = serial_core s"
    by (simp_all add: send_state_def send_error_def send_rpc_result_def w split: option.split)
qed

lemma decode_wifi_settings_returns: "\<exists>r. decode_wifi_settings (Ptr data) n k = Some r"
proof -
  have "returns (decode_wifi_settings (Ptr data) n k) (\<lambda>_. True)"
    unfolding decode_wifi_settings_def by (auto intro!: ok_intros simp: Let_def)
  then show ?thesis by (auto simp: returns_def)
qed

lemma handle_wifi_settings_core: "\<exists>s'. handle_wifi_settings io data s = Some s' \<and> serial_core s' = serial_core s"
proof -
  obtain r where r: "decode_wifi_settings (Ptr data) 33 64 = Some r" using decode_wifi_settings_returns by blast
  show ?thesis
    by (auto simp: handle_wifi_settings_def r core_simps Let_def split: option.split)
qed

lemma handle_rpc_core:
  assumes "length (ik_data packet) = 255"
  shows "\<exists>s'. handle_rpc cfg io packet s = Some s' \<and> serial_core s' = serial_core s"
proof -
  have wifi: "\<exists>s'. handle_wifi_settings io data (send_error IMPROV_ERROR_NONE s) = Some s' \<and> serial_core s' = serial_core s" for data
    using handle_wifi_settings_core [of io data "send_error IMPROV_ERROR_NONE s"] by (simp add: core_simps)
  have room: "2 + unat (ik_length packet - 2) \<le> 255" if "\<not> ik_length packet < 2"
    using that unat_bound [of "ik_length packet"] by (simp add: unat_sub not_less word_le_nat_alt)
  have "returns (handle_rpc cfg io packet s) (\<lambda>s'. serial_core s' = serial_core s)"
    unfolding handle_rpc_def
    using assms room wifi
    by (auto simp: returns_def rd_def rds_def Let_def core_simps split: prod.split)
  then show ?thesis by (auto simp: returns_def)
qed

lemma core_arm_ota [core_simps]: "serial_core (arm_ota_and_restart io url s) = serial_core s"
  by (simp add: arm_ota_and_restart_def core_simps Let_def)

lemma core_target [core_simps]:
  "serial_core (send_target_status io s) = serial_core s" "serial_core (snd (handle_target_command io line s)) = serial_core s"
  by (auto simp: handle_target_command_def send_target_status_def core_simps Let_def split: option.split prod.split)

lemma core_fold: "(\<And>x s. serial_core (f x s) = serial_core s) \<Longrightarrow> serial_core (fold f xs s) = serial_core s"
  by (induction xs arbitrary: s) simp_all

lemma core_lists [core_simps]:
  "serial_core (send_peer_list io s) = serial_core s" "serial_core (send_stream_result s) = serial_core s"
  "serial_core (cancel_stream_upload s) = serial_core s"
  by (simp_all add: send_peer_list_def send_stream_result_def cancel_stream_upload_def core_simps core_fold Let_def split: prod.split)

lemma core_stream_upload:
  assumes "start_stream_upload cfg io line s = (ok, s1)"
  shows "serial_core s1 = serial_core s"
  using assms by (auto simp: start_stream_upload_def core_simps Let_def split: if_splits option.splits prod.splits)

lemma core_stream_chunk:
  assumes "start_stream_chunk line s = (r, s1)"
  shows "serial_core s1 = serial_core s"
  using assms by (auto simp: start_stream_chunk_def core_simps Let_def split: if_splits option.splits prod.splits)

section \<open>Fields\<close>

lemma hex_nibble_range: "- 1 \<le> hex_nibble c \<and> hex_nibble c < 16"
  by (auto simp: hex_nibble_def word_le_def)

lemma hex_byte_nonzero:
  assumes "0 \<le> h" "h < 16" "0 \<le> l" "l < 16" "h \<noteq> 0 \<or> l \<noteq> 0"
  shows "(push_bit 4 (of_int h) OR of_int l :: byte) \<noteq> 0"
proof -
  have all: "list_all (\<lambda>h. list_all (\<lambda>l. h = 0 \<and> l = 0 \<or> (push_bit 4 (of_nat h) OR of_nat l :: byte) \<noteq> 0) [0..<16]) [0..<16]"
    by code_simp
  obtain i j where ij: "h = int i" "l = int j" using assms(1,3) nonneg_int_cases by metis
  have every: "\<forall>h\<in>set [0..<16]. \<forall>l\<in>set [0..<16]. h = 0 \<and> l = 0 \<or> (push_bit 4 (of_nat h) OR of_nat l :: byte) \<noteq> 0"
    using all by (simp only: list_all_iff)
  have "i \<in> set [0..<16]" "j \<in> set [0..<16]" using assms(2,4) ij by simp_all
  from bspec [OF bspec [OF every this(1)] this(2)]
  have "i = 0 \<and> j = 0 \<or> (push_bit 4 (of_nat i) OR of_nat j :: byte) \<noteq> 0" .
  then show ?thesis using assms(5) unfolding ij of_int_of_nat_eq of_nat_eq_0_iff by blast
qed

lemma decode_hex_pairs_nonzero: "decode_hex_pairs t = Some ds \<Longrightarrow> 0 \<notin> set ds"
proof (induction t arbitrary: ds rule: decode_hex_pairs.induct)
  case (1 a b rest)
  then show ?case
    using hex_byte_nonzero [of "hex_nibble a" "hex_nibble b"] hex_nibble_range [of a] hex_nibble_range [of b]
    by (auto simp: Let_def not_less split: if_splits)
qed auto

lemma strtoul_spaces: "list_all (\<lambda>c. c = 32) sp \<Longrightarrow> fst (strtoul (sp @ t) base) = fst (strtoul t base)"
proof -
  assume "list_all (\<lambda>c. c = 32) sp"
  then have "dropWhile c_isspace (sp @ t) = dropWhile c_isspace t" by (induction sp) (simp_all add: c_isspace_def)
  then show ?thesis by (simp add: strtoul_def Let_def split: prod.split)
qed

lemma relay_request_fields:
  assumes "parse_relay_request capacity line = Some rq"
  shows "\<exists>t. fst (strtok_r (drop (length relay_command) line)) = Ptr t \<and> rq_size rq = fst (strtoul t 10)"
    "0 \<notin> set (rq_file_name rq)" "0 \<notin> set (rq_file_type rq)" "0 < rq_size rq" "rq_size rq \<le> capacity"
proof -
  define fields where "fields = strtok_times 5 (drop (length relay_command) line)"
  have first: "fields ! 0 = fst (strtok_r (drop (length relay_command) line))"
    by (simp add: fields_def numeral_eq_Suc split: prod.split)
  have g: "fields ! 0 \<noteq> NULL" "rq_size rq = number_field 10 0 (fields ! 0)" "number_field 10 0 (fields ! 0) \<noteq> 0"
    "number_field 10 0 (fields ! 0) \<le> capacity" "decode_hex_name (fields ! 2) (RELAY_SPOOL_FILE_NAME_MAX + 1) = Some (rq_file_name rq)"
    "valid_file_type (fields ! 3)" "rq_file_type rq = deref (fields ! 3)"
    using assms by (auto simp: parse_relay_request_def Let_def fields_def split: if_splits)
  show "\<exists>t. fst (strtok_r (drop (length relay_command) line)) = Ptr t \<and> rq_size rq = fst (strtoul t 10)"
    using g(1,2) by (cases "fields ! 0") (auto simp: first [symmetric] number_field_def)
  show "0 \<notin> set (rq_file_name rq)" using g(5) decode_hex_pairs_nonzero by (auto simp: decode_hex_name_def Let_def split: if_splits)
  have "\<not> file_type_char 0" by (simp add: file_type_char_def)
  then show "0 \<notin> set (rq_file_type rq)" using g(6,7) by (auto simp: valid_file_type_def list_all_iff)
  show "0 < rq_size rq" "rq_size rq \<le> capacity" using g(2-4) by simp_all
qed

text \<open>Reading the size again gives the declared size.\<close>

lemma reread_size_agrees:
  assumes "parse_relay_request capacity line = Some rq"
  shows "reread_size line = rq_size rq"
proof -
  let ?rest = "drop (length relay_command) line"
  have "fst (strtok_r ?rest) = Ptr (takeWhile (\<lambda>c. c \<noteq> 32) (dropWhile (\<lambda>c. c = 32) ?rest))"
    using relay_request_fields(1) [OF assms] by (auto simp: strtok_r_def Let_def split: if_splits)
  moreover have "list_all (\<lambda>c. c = 32) (takeWhile (\<lambda>c. c = 32) ?rest)" by (auto simp: list_all_iff dest: set_takeWhileD)
  ultimately show ?thesis
    using relay_request_fields(1) [OF assms] by (auto simp: reread_size_def Let_def strtoul_spaces)
qed

section \<open>The invariant\<close>

text \<open>
  The parsers are within their buffers; the spool is consistent and is being written exactly while a relay
  upload is received, with the outstanding bytes as the remaining count; a chunk being received fits the
  work area and is incomplete.
\<close>

definition serial_inv :: "('f \<Rightarrow> bytes) \<Rightarrow> ('f, 'b) serial \<Rightarrow> bool" where
  "serial_inv contents s \<longleftrightarrow>
     (\<exists>c. parser_at (sl_parser s) c) \<and> length (ik_data (sl_packet s)) = 255 \<and> length (sl_command_line s) < COMMAND_LINE_BYTES \<and>
     spool_inv contents (sl_spool s) \<and> (sp_writing (sl_spool s) \<longleftrightarrow> sl_relay_receiving s) \<and>
     (sl_relay_receiving s \<longrightarrow> 0 < sl_relay_remaining s \<and> sp_write_cursor (sl_spool s) + sl_relay_remaining s = spool_size (sl_spool s)) \<and>
     (sl_chunk_receiving s \<longrightarrow> \<not> sl_relay_receiving s \<and> sl_chunk_received s < sl_chunk_bytes s \<and> sl_chunk_bytes s \<le> RELAY_STREAM_CHUNK_MAX) \<and>
     length (sl_stream_chunk s) = RELAY_STREAM_CHUNK_MAX"

lemma serial_inv_cong: "serial_core s' = serial_core s \<Longrightarrow> serial_inv contents s' = serial_inv contents s"
  by (simp add: serial_inv_def serial_core_def)

lemma serial_coreD:
  assumes "serial_core s' = serial_core s"
  shows "sl_relay_receiving s' = sl_relay_receiving s" "sl_chunk_receiving s' = sl_chunk_receiving s" "sl_spool s' = sl_spool s"
    "sl_command_line s' = sl_command_line s"
  using assms by (simp_all add: serial_core_def)

lemma serial_inv_line:
  "serial_inv contents s \<Longrightarrow> length line < COMMAND_LINE_BYTES \<Longrightarrow> serial_inv contents (s\<lparr>sl_command_line := line\<rparr>)"
  by (simp add: serial_inv_def)

text \<open>Starting an upload.\<close>

lemma start_relay_upload_inv:
  assumes fc: "flash_contract (sc_flash cfg) contents" "erase_atomic (sc_flash cfg) contents"
    and inv: "serial_inv contents s" and idle: "\<not> sl_relay_receiving s"
    and r: "start_relay_upload cfg line s = (ok, s1)"
  shows "serial_core s1 = serial_core (s\<lparr>sl_spool := sl_spool s1\<rparr>)"
    and "ok \<Longrightarrow> spool_writing contents (sl_spool s1) [] \<and> spool_size (sl_spool s1) = reread_size line \<and> 0 < reread_size line"
    and "\<not> ok \<Longrightarrow> spool_inv contents (sl_spool s1) \<and> \<not> sp_writing (sl_spool s1)"
proof -
  have sp: "spool_inv contents (sl_spool s)" "\<not> sp_writing (sl_spool s)" using inv idle by (auto simp: serial_inv_def)
  have spools: "sl_spool (say_line t x) = sl_spool x" "sl_spool (say v x) = sl_spool x" for t v and x :: "('a, 'b) serial"
    by (simp_all add: say_line_def say_def emit_def)
  show "serial_core s1 = serial_core (s\<lparr>sl_spool := sl_spool s1\<rparr>)"
    using r by (auto simp: start_relay_upload_def Let_def core_simps spools split: if_splits option.splits prod.splits)
      (simp_all add: serial_core_def say_line_def say_def emit_def)
  consider "ok = False" "sl_spool s1 = sl_spool s"
    | rq result where "parse_relay_request (relay_spool_capacity (sl_spool s)) line = Some rq"
      "relay_spool_begin (sc_flash cfg) (sl_spool s) (rq_size rq) (rq_crc32 rq) (Ptr (rq_file_name rq)) (Ptr (rq_file_type rq)) =
        (result, sl_spool s1)" "ok \<longleftrightarrow> result = ESP_OK"
    using r by (auto simp: start_relay_upload_def Let_def spools split: if_splits option.splits prod.splits)
  then have "(ok \<longrightarrow> spool_writing contents (sl_spool s1) [] \<and> spool_size (sl_spool s1) = reread_size line \<and> 0 < reread_size line) \<and>
      (\<not> ok \<longrightarrow> spool_inv contents (sl_spool s1) \<and> \<not> sp_writing (sl_spool s1))"
  proof cases
    case 1
    then show ?thesis using sp by simp
  next
    case (2 rq result)
    note f = relay_request_fields [OF 2(1)] and size = reread_size_agrees [OF 2(1)]
    have "spool_inv contents (sl_spool s1)" using begin_inv [OF fc sp(1) 2(2)] f(2,3) by simp
    moreover have "\<not> sp_writing (sl_spool s1)" if "result \<noteq> ESP_OK"
      using 2(2) that sp(2) by (auto simp: relay_spool_begin_def Let_def split: if_splits prod.splits) (metis set_flash_simps(8))
    moreover have "spool_writing contents (sl_spool s1) []" "spool_size (sl_spool s1) = rq_size rq" if "result = ESP_OK"
      using spool_begin_writing [OF fc(1) 2(2) [unfolded that] f(2,3)] spool_inv_partition [OF sp(1)] by auto
    ultimately show ?thesis using 2(3) f(4) size by auto
  qed
  then show "ok \<Longrightarrow> spool_writing contents (sl_spool s1) [] \<and> spool_size (sl_spool s1) = reread_size line \<and> 0 < reread_size line"
    "\<not> ok \<Longrightarrow> spool_inv contents (sl_spool s1) \<and> \<not> sp_writing (sl_spool s1)" by auto
qed

lemma start_stream_chunk_size:
  assumes "start_stream_chunk line s = (Some (sequence, data_bytes, c), s1)"
  shows "0 < data_bytes \<and> data_bytes \<le> RELAY_STREAM_CHUNK_MAX"
  using assms
  by (auto simp: start_stream_chunk_def parse_stream_chunk_def relay_stream_validate_chunk_def Let_def split: if_splits option.splits)

lemma run_command_inv:
  assumes fc: "flash_contract (sc_flash cfg) contents" "erase_atomic (sc_flash cfg) contents"
    and inv: "serial_inv contents s" and idle: "\<not> sl_relay_receiving s" "\<not> sl_chunk_receiving s"
  shows "serial_inv contents (run_command cfg io line s)"
proof -
  obtain ok s1 where relay: "start_relay_upload cfg line s = (ok, s1)" by force
  obtain ok2 s2 where stream: "start_stream_upload cfg io line s1 = (ok2, s2)" by force
  obtain r s3 where chunk: "start_stream_chunk line s2 = (r, s3)" by force
  note relay_inv = start_relay_upload_inv [OF fc inv idle(1) relay]
  have c1: "sl_parser s1 = sl_parser s" "sl_packet s1 = sl_packet s" "sl_command_line s1 = sl_command_line s"
    "sl_stream_chunk s1 = sl_stream_chunk s" "sl_relay_receiving s1 = sl_relay_receiving s" "sl_chunk_receiving s1 = sl_chunk_receiving s"
    using relay_inv(1) by (simp_all add: serial_core_def)
  have begun: "serial_inv contents (s1\<lparr>sl_relay_receiving := True, sl_relay_remaining := reread_size line, sl_relay_last_receive := t\<rparr>)" if ok for t
    using relay_inv(2) [OF that] inv idle c1 by (auto simp: serial_inv_def spool_inv_def spool_writing_def)
  have inv1: "serial_inv contents s1" if "\<not> ok" using relay_inv(3) [OF that] inv idle c1 by (auto simp: serial_inv_def)
  have inv2: "serial_inv contents s2" "\<not> sl_relay_receiving s2" "\<not> sl_chunk_receiving s2" if "\<not> ok"
    using serial_inv_cong [OF core_stream_upload [OF stream], of contents] inv1 [OF that] serial_coreD [OF core_stream_upload [OF stream]] c1 idle
    by simp_all
  have inv3: "serial_inv contents s3" "\<not> sl_relay_receiving s3" if "\<not> ok"
    using serial_inv_cong [OF core_stream_chunk [OF chunk], of contents] inv2 [OF that] serial_coreD [OF core_stream_chunk [OF chunk]] by simp_all
  have announced: "serial_inv contents (s3\<lparr>sl_chunk_sequence := q, sl_chunk_bytes := n, sl_chunk_crc32 := c,
      sl_chunk_receiving := True, sl_chunk_received := 0, sl_stream_last_receive := t\<rparr>)" if "\<not> ok" "r = Some (q, n, c)" for q n c t
    using inv3 [OF that(1)] start_stream_chunk_size [OF chunk [unfolded that(2)]] by (simp add: serial_inv_def)
  have other: "serial_core x = serial_core s \<Longrightarrow> serial_inv contents x" for x using inv serial_inv_cong by blast
  have branch: "(c \<Longrightarrow> serial_inv contents x) \<Longrightarrow> (\<not> c \<Longrightarrow> serial_inv contents y) \<Longrightarrow> serial_inv contents (if c then x else y)" for c x y
    by simp
  have chunk_started: "serial_inv contents (case r of None \<Rightarrow> s3
      | Some (q, n, c) \<Rightarrow> s3\<lparr>sl_chunk_sequence := q, sl_chunk_bytes := n, sl_chunk_crc32 := c,
          sl_chunk_receiving := True, sl_chunk_received := 0, sl_stream_last_receive := t\<rparr>)" if "\<not> ok" for t
    using inv3(1) [OF that] announced [OF that] by (simp split: option.split prod.split)
  have uploads: "serial_inv contents
      (case start_relay_upload cfg line s of (relay_started, s1) \<Rightarrow>
         if relay_started then s1\<lparr>sl_relay_receiving := True, sl_relay_remaining := reread_size line, sl_relay_last_receive := t\<rparr>
         else (case start_stream_upload cfg io line s1 of (stream_started, s2) \<Rightarrow>
                if stream_started then s2
                else (case start_stream_chunk line s2 of (None, s3) \<Rightarrow> s3
                      | (Some (q, n, c), s3) \<Rightarrow> s3\<lparr>sl_chunk_sequence := q, sl_chunk_bytes := n, sl_chunk_crc32 := c,
                          sl_chunk_receiving := True, sl_chunk_received := 0, sl_stream_last_receive := t\<rparr>)))" for t
    unfolding relay prod.case stream chunk
    by (intro branch) (use begun inv2(1) chunk_started in blast)+
  show ?thesis
    unfolding run_command_def
    by (rule branch, rule other, simp add: core_simps)+ (rule uploads)
qed

lemma serial_byte_inv:
  assumes fc: "flash_contract (sc_flash cfg) contents" "erase_atomic (sc_flash cfg) contents"
    and inv: "serial_inv contents s" and idle: "\<not> sl_relay_receiving s" "\<not> sl_chunk_receiving s"
  shows "\<exists>s'. serial_byte cfg io b s = Some s' \<and> serial_inv contents s'"
proof -
  obtain c where at: "parser_at (sl_parser s) c" using inv by (auto simp: serial_inv_def)
  have k: "length (ik_data (sl_packet s)) = 255" using inv by (simp add: serial_inv_def)
  obtain parsed q k' where feed: "improv_serial_parser_feed (Ptr (sl_parser s)) b (Ptr (sl_packet s)) = Some (parsed, Ptr q, Ptr k')"
    and q: "parser_at q (snd (improv_step c b))" "length (ik_data k') = 255"
    using feed_step [OF at suffix_order.refl k, of b] by blast
  define s1 where "s1 = s\<lparr>sl_parser := q, sl_packet := k'\<rparr>"
  have inv1: "serial_inv contents s1" using inv q by (auto simp: serial_inv_def s1_def)
  have packet: "sl_packet s1 = k'" by (simp add: s1_def)
  have "\<exists>s2. (if parsed = IMPROV_SERIAL_PARSE_PACKET then handle_rpc cfg io (sl_packet s1) s1
      else if parsed = IMPROV_SERIAL_PARSE_INVALID then Some (send_error IMPROV_ERROR_INVALID_RPC s1) else Some s1) = Some s2 \<and>
    serial_core s2 = serial_core s1"
    using handle_rpc_core [OF q(2), of cfg io s1] packet by (auto simp: core_simps)
  then obtain s2 where s2: "(if parsed = IMPROV_SERIAL_PARSE_PACKET then handle_rpc cfg io (sl_packet s1) s1
      else if parsed = IMPROV_SERIAL_PARSE_INVALID then Some (send_error IMPROV_ERROR_INVALID_RPC s1) else Some s1) = Some s2"
    "serial_core s2 = serial_core s1" by blast
  have inv2: "serial_inv contents s2" using serial_inv_cong [OF s2(2)] inv1 by simp
  have idle2: "\<not> sl_relay_receiving s2" "\<not> sl_chunk_receiving s2" using serial_coreD [OF s2(2)] idle by (simp_all add: s1_def)
  have "serial_inv contents (command_byte cfg io b s2)"
    using inv2 run_command_inv [OF fc inv2 idle2, of io "sl_command_line s2"]
    by (auto simp: command_byte_def Let_def COMMAND_LINE_BYTES_def intro!: serial_inv_line)
  moreover have "serial_byte cfg io b s = Some (if sl_halted s2 then s2 else command_byte cfg io b s2)"
    unfolding serial_byte_def feed Option.bind.simps prod.case Let_def ptr.sel s1_def [symmetric] s2(1) ..
  ultimately show ?thesis using inv2 by simp
qed

text \<open>The loop over the bytes of a read returns and keeps the invariant.\<close>

lemma receive_chunk_inv:
  assumes inv: "serial_inv contents s" and rec: "sl_chunk_receiving s" and piece: "sl_chunk_received s + length piece \<le> sl_chunk_bytes s"
  shows "serial_inv contents (receive_chunk cfg io piece s)"
proof -
  define s1 where "s1 = s\<lparr>sl_stream_chunk := store (sl_stream_chunk s) (sl_chunk_received s) piece,
    sl_chunk_received := sl_chunk_received s + length piece, sl_stream_last_receive := io_tick io\<rparr>"
  have rest: "serial_inv contents s1" if "sl_chunk_received s + length piece < sl_chunk_bytes s"
    using inv rec that by (auto simp: serial_inv_def s1_def)
  have ended: "serial_inv contents (x\<lparr>sl_chunk_receiving := False, sl_chunk_bytes := 0, sl_chunk_received := 0\<rparr>)"
    if "serial_core x = serial_core s1" for x
    using that inv rec piece by (auto simp: serial_inv_def s1_def serial_core_def)
  show ?thesis
  proof (cases "sl_chunk_received s + length piece = sl_chunk_bytes s")
    case False
    then show ?thesis using rest piece by (simp add: receive_chunk_def Let_def s1_def)
  next
    case True
    obtain result stream where push: "relay_stream_push_chunk (sc_buffer cfg) (sl_stream s1) (sl_chunk_sequence s1)
        (Ptr (take (sl_chunk_bytes s1) (sl_stream_chunk s1))) (sl_chunk_crc32 s1) = (result, stream)" by force
    have "sl_chunk_received s1 = sl_chunk_bytes s1" using True by (simp add: s1_def)
    then show ?thesis
      unfolding receive_chunk_def s1_def [symmetric] Let_def push prod.case
      by (simp, intro conjI impI ended) (simp_all add: core_simps)
  qed
qed

lemma finish_not_writing:
  assumes "finish_relay_upload ops request_run st g = (response, r, st', g')"
  shows "\<not> sp_writing st'"
proof -
  obtain r1 st1 where s: "relay_spool_finish ops st = (r1, st1)" by fastforce
  have "st' = relay_spool_abort st1 \<or> st' = st1 \<and> r1 = ESP_OK"
    using assms s by (auto simp: finish_relay_upload_def Let_def split: if_splits prod.splits)
  then show ?thesis
    using s by (auto simp: relay_spool_abort_def relay_spool_finish_def Let_def split: if_splits prod.splits)
qed

lemma receive_relay_piece_inv:
  assumes fc: "flash_contract (sc_flash cfg) contents" and inv: "serial_inv contents s" and rec: "sl_relay_receiving s"
    and piece: "length piece \<le> sl_relay_remaining s" and r: "receive_relay_piece cfg io piece s = (goes_on, s1)"
  shows "serial_inv contents s1"
proof -
  obtain xs where w: "spool_writing contents (sl_spool s) xs"
    using inv rec by (auto simp: serial_inv_def dest: spool_inv_phases(2))
  have remaining: "length xs + sl_relay_remaining s = spool_size (sl_spool s)"
    using inv rec w by (auto simp: serial_inv_def spool_writing_def)
  have d: "length piece \<le> SIZE_MAX" using piece remaining unat_bound [of "sh_size_bytes (sp_header (sl_spool s))"] by (simp add: SIZE_MAX_def)
  obtain result spool where wr: "relay_spool_write (sc_flash cfg) (sl_spool s) (Ptr piece) (length piece) = (result, spool)" by force
  note step = spool_write_step [OF fc w d wr]
  have keep: "serial_inv contents x" if "serial_core x = serial_core (s\<lparr>sl_spool := sp, sl_relay_receiving := False, sl_relay_remaining := m\<rparr>)"
    "spool_inv contents sp" "\<not> sp_writing sp" for x sp m
    using inv rec that(2,3) unfolding serial_inv_cong [OF that(1)] by (auto simp: serial_inv_def)
  show ?thesis
  proof (cases "result = ESP_OK")
    case False
    have "serial_core s1 = serial_core (s\<lparr>sl_spool := relay_spool_abort spool, sl_relay_receiving := False, sl_relay_remaining := 0\<rparr>)"
      using r False by (auto simp: receive_relay_piece_def receive_relay_def wr core_simps Let_def)
    moreover have "spool_inv contents (relay_spool_abort spool)" "\<not> sp_writing (relay_spool_abort spool)"
      using step(2) by (auto simp: spool_inv_def spool_idle_def)
    ultimately show ?thesis using keep by blast
  next
    case True
    define s2 where "s2 = s\<lparr>sl_spool := spool, sl_relay_remaining := sl_relay_remaining s - length piece, sl_relay_last_receive := io_tick io\<rparr>"
    note w2 = step(1) [OF True]
    obtain response final spool2 registry where fin: "finish_relay_upload (sc_flash cfg) (io_request_run io) spool (sl_registry s) =
        (response, final, spool2, registry)" by (rule prod_cases4)
    have s1: "s1 = (if sl_relay_remaining s2 \<noteq> 0 then s2
        else say response (s2\<lparr>sl_relay_receiving := False, sl_spool := spool2, sl_registry := registry\<rparr>))"
      using r True fin by (auto simp: receive_relay_piece_def receive_relay_def wr s2_def Let_def split: if_splits)
    show ?thesis
    proof (cases "sl_relay_remaining s2 = 0")
      case False
      have "spool_inv contents spool" using w2 by (auto simp: spool_inv_def)
      then show ?thesis using False s1 inv rec w2 remaining piece by (auto simp: serial_inv_def s2_def spool_writing_def)
    next
      case True
      have "spool_inv contents spool" using w2 by (auto simp: spool_inv_def)
      then have "spool_inv contents spool2" "\<not> sp_writing spool2" using finish_inv [OF fc _ fin] finish_not_writing [OF fin] by blast+
      moreover have "serial_core s1 = serial_core (s\<lparr>sl_spool := spool2, sl_relay_receiving := False, sl_relay_remaining := 0\<rparr>)"
        using True s1 by (simp add: core_simps) (simp add: serial_core_def s2_def)
      ultimately show ?thesis using keep by blast
    qed
  qed
qed

lemma serial_consume_inv:
  assumes fc: "flash_contract (sc_flash cfg) contents" "erase_atomic (sc_flash cfg) contents"
  shows "serial_inv contents s \<Longrightarrow> \<exists>s'. serial_consume cfg ios input s = Some s' \<and> serial_inv contents s'"
proof (induction "length input" arbitrary: input s rule: less_induct)
  case less
  define io where "io = ios (sl_iteration s)"
  define s0 where "s0 = s\<lparr>sl_iteration := Suc (sl_iteration s)\<rparr>"
  have inv0: "serial_inv contents s0" using serial_inv_cong [of s0 s contents] less.prems by (simp add: s0_def core_simps)
  have same: "sl_chunk_receiving s0 = sl_chunk_receiving s" "sl_relay_receiving s0 = sl_relay_receiving s"
    "sl_chunk_bytes s0 = sl_chunk_bytes s" "sl_chunk_received s0 = sl_chunk_received s" "sl_relay_remaining s0 = sl_relay_remaining s"
    by (simp_all add: s0_def)
  consider "input = [] \<or> sl_halted s" | "input \<noteq> []" "\<not> sl_halted s" "sl_chunk_receiving s"
    | "input \<noteq> []" "\<not> sl_halted s" "\<not> sl_chunk_receiving s" "sl_relay_receiving s"
    | "input \<noteq> []" "\<not> sl_halted s" "\<not> sl_chunk_receiving s" "\<not> sl_relay_receiving s" by blast
  then show ?case
  proof cases
    case 1
    then show ?thesis using less.prems by (subst serial_consume.simps) simp
  next
    case 2
    define count where "count = (if length input < sl_chunk_bytes s - sl_chunk_received s then length input else sl_chunk_bytes s - sl_chunk_received s)"
    have count: "0 < count" "count \<le> length input" "sl_chunk_received s + count \<le> sl_chunk_bytes s"
      using 2 less.prems by (auto simp: count_def serial_inv_def)
    have "serial_inv contents (receive_chunk cfg io (take count input) s0)"
      by (rule receive_chunk_inv [OF inv0]) (use 2 count same in auto)
    then show ?thesis
      using less.hyps [of "drop count input" "receive_chunk cfg io (take count input) s0"] 2 count
      by (subst serial_consume.simps) (simp add: Let_def io_def [symmetric] s0_def [symmetric] count_def [symmetric])
  next
    case 3
    define count where "count = (if length input < sl_relay_remaining s then length input else sl_relay_remaining s)"
    have count: "0 < count" "count \<le> length input" "count \<le> sl_relay_remaining s" using 3 less.prems by (auto simp: count_def serial_inv_def)
    obtain goes_on s1 where p: "receive_relay_piece cfg io (take count input) s0 = (goes_on, s1)" by force
    have "serial_inv contents s1" by (rule receive_relay_piece_inv [OF fc(1) inv0 _ _ p]) (use 3 count same in auto)
    then show ?thesis
      using less.hyps [of "drop count input" s1] 3 count p
      by (subst serial_consume.simps) (simp add: Let_def io_def [symmetric] s0_def [symmetric] count_def [symmetric])
  next
    case 4
    obtain s1 where "serial_byte cfg io (hd input) s0 = Some s1" "serial_inv contents s1"
      using serial_byte_inv [OF fc inv0, of io "hd input"] 4 same by auto
    then show ?thesis
      using less.hyps [of "tl input" s1] 4
      by (subst serial_consume.simps) (simp add: Let_def io_def [symmetric] s0_def [symmetric])
  qed
qed

lemma serial_timeouts_inv:
  assumes "serial_inv contents s"
  shows "serial_inv contents (serial_timeouts cfg io s)"
proof -
  have relay: "serial_inv contents (s\<lparr>sl_spool := relay_spool_abort (sl_spool s), sl_relay_receiving := False, sl_relay_remaining := 0\<rparr>)"
    using assms spool_abort_idle [of contents "sl_spool s"] by (auto simp: serial_inv_def spool_inv_def spool_idle_def)
  have chunk: "serial_inv contents (x\<lparr>sl_stream := st, sl_chunk_receiving := False, sl_chunk_bytes := 0, sl_chunk_received := 0\<rparr>)"
    if "serial_inv contents x" for x st using that by (simp add: serial_inv_def)
  have said: "serial_inv contents (say_line t x) = serial_inv contents x" for t x by (rule serial_inv_cong) (simp add: core_simps)
  show ?thesis
    unfolding serial_timeouts_def Let_def by (simp add: said relay chunk assms)
qed

lemma serial_poll_inv:
  assumes "flash_contract (sc_flash cfg) contents" "erase_atomic (sc_flash cfg) contents" "serial_inv contents s"
  shows "\<exists>s'. serial_poll cfg ios input s = Some s' \<and> serial_inv contents s'"
proof -
  obtain s1 where s1: "serial_consume cfg ios input s = Some s1" "serial_inv contents s1"
    using serial_consume_inv [OF assms] by blast
  have "serial_inv contents (x\<lparr>sl_iteration := n\<rparr>)" if "serial_inv contents x" for x n
    using that by (simp add: serial_inv_def)
  then have "serial_inv contents ((serial_timeouts cfg (ios (sl_iteration s1)) s1)\<lparr>sl_iteration := Suc (sl_iteration s1)\<rparr>)"
    using serial_timeouts_inv [OF s1(2)] by blast
  then show ?thesis using s1 by (simp add: serial_poll_def)
qed

section \<open>Runs\<close>

text \<open>
  The turns of the task with any input and any answers of the environment, and between them what the sender
  task does: it reads the spool or the stream it was given and moves the registry on.
\<close>

inductive serial_step :: "('f, 'b) serial_config \<Rightarrow> ('f, 'b) serial \<Rightarrow> ('f, 'b) serial \<Rightarrow> bool" for cfg where
  turn: "\<not> sl_halted s \<Longrightarrow> serial_poll cfg ios input s = Some s' \<Longrightarrow> serial_step cfg s s'"
| spool_read: "source_read (sc_flash cfg) (Ptr (sl_spool s)) n = (ok, bs, k, Ptr spool) \<Longrightarrow> serial_step cfg s (s\<lparr>sl_spool := spool\<rparr>)"
| spool_rewind: "source_rewind (Ptr (sl_spool s)) = (ok, Ptr spool) \<Longrightarrow> serial_step cfg s (s\<lparr>sl_spool := spool\<rparr>)"
| stream_enter: "source_read_enter (sl_stream s) capacity = (r, stream) \<Longrightarrow> serial_step cfg s (s\<lparr>sl_stream := stream\<rparr>)"
| stream_receive: "source_read_receive (sc_buffer cfg) (sl_stream s) n = (r, stream) \<Longrightarrow> serial_step cfg s (s\<lparr>sl_stream := stream\<rparr>)"
| registry: "registry_step (sl_registry s, held) (g, held') \<Longrightarrow> serial_step cfg s (s\<lparr>sl_registry := g\<rparr>)"

lemma serial_step_inv:
  assumes fc: "flash_contract (sc_flash cfg) contents" "erase_atomic (sc_flash cfg) contents"
    and st: "serial_step cfg s s'" and inv: "serial_inv contents s"
  shows "serial_inv contents s'"
proof -
  have spool: "serial_inv contents (s\<lparr>sl_spool := sp\<rparr>)" if "spool_step (sc_flash cfg) (sl_spool s) sp"
    "sp = sl_spool s \<or> sp_ready (sl_spool s) \<and> sp_writing sp = sp_writing (sl_spool s)" for sp
  proof -
    have "spool_inv contents sp" using spool_step_inv [OF fc that(1)] inv by (simp add: serial_inv_def)
    moreover have "\<not> sp_writing (sl_spool s)" if "sp_ready (sl_spool s)"
      using that inv spool_inv_phases(1) [of contents "sl_spool s"] by (auto simp: serial_inv_def spool_ready_def)
    ultimately show ?thesis using that(2) inv by (auto simp: serial_inv_def)
  qed
  show ?thesis
    using st
  proof (cases rule: serial_step.cases)
    case (turn ios input)
    then show ?thesis using serial_poll_inv [OF fc inv, of ios input] by auto
  next
    case (spool_read n ok bs k sp)
    show ?thesis
      unfolding spool_read(1)
      by (rule spool [OF spool_step.read [OF spool_read(2)]]) (use source_read_cursor [OF spool_read(2)] in auto)
  next
    case (spool_rewind ok sp)
    show ?thesis
      unfolding spool_rewind(1)
      by (rule spool [OF spool_step.rewind [OF spool_rewind(2)]]) (use spool_rewind(2) in \<open>auto simp: source_rewind_def split: if_splits\<close>)
  qed (use inv in \<open>simp_all add: serial_inv_def\<close>)
qed

text \<open>The task starts on a spool as a boot leaves it.\<close>

lemma serial_start_inv:
  assumes "maintenance_serial_start installed locked areas created write spawned provisioning s = (ESP_OK, s0)"
    and "spool_inv contents (sl_spool s)" "\<not> sp_writing (sl_spool s)" "length (sl_stream_chunk s) = RELAY_STREAM_CHUNK_MAX"
    "length (ik_data (sl_packet s)) = 255"
  shows "serial_inv contents s0"
proof -
  have "parser_at \<lparr>ip_bytes = replicate IMPROV_SERIAL_MAX_PACKET_SIZE 0, ip_length = 0, ip_expected_length = 0\<rparr> []"
    by (simp add: parser_at_def improv_consts collecting_def)
  then show ?thesis
    using assms
    by (auto simp: maintenance_serial_start_def serial_inv_def COMMAND_LINE_BYTES_def Let_def split: if_splits prod.splits)
qed



text \<open>A device with an erased partition of 8192 bytes, no stream and answers that are all good.\<close>

definition lab_config :: "(bytes, bytes) serial_config" where
  "lab_config = \<lparr>sc_flash = list_flash, sc_buffer = list_buffer, sc_max_transfer_bytes = 4096, sc_timeout_ticks = 500,
     sc_version = [49], sc_idf_target = [99], sc_err_name = (\<lambda>_. [])\<rparr>"

definition lab_partition :: "bytes partition" where
  "lab_partition = \<lparr>pn_size = 8192, pn_flash = replicate 8192 0xff\<rparr>"

definition lab_serial :: "(bytes, bytes) serial" where
  "lab_serial = \<lparr>sl_allow_provisioning = False, sl_application_ready = False,
     sl_parser = \<lparr>ip_bytes = replicate IMPROV_SERIAL_MAX_PACKET_SIZE 0, ip_length = 0, ip_expected_length = 0\<rparr>,
     sl_packet = \<lparr>ik_type = 0, ik_length = 0, ik_data = replicate 255 0\<rparr>, sl_command_line = [],
     sl_relay_receiving = False, sl_relay_remaining = 0, sl_relay_last_receive = 0, sl_chunk_receiving = False, sl_chunk_bytes = 0,
     sl_chunk_received = 0, sl_chunk_sequence = 0, sl_chunk_crc32 = 0, sl_stream_last_receive = 0,
     sl_stream_chunk = replicate RELAY_STREAM_CHUNK_MAX 0, sl_spool = spool_state_zero\<lparr>sp_partition := Ptr lab_partition\<rparr>,
     sl_stream = relay_stream_state_zero, sl_registry = outgoing_registry_zero, sl_iteration = 0, sl_trace = [], sl_halted = False\<rparr>"

definition lab_io :: "nat \<Rightarrow> serial_io" where
  "lab_io k = \<lparr>io_tick = of_nat k, io_time_us = k, io_request_run = ESP_OK, io_wake = ESP_OK, io_target = None,
     io_target_mode = AWDL_TARGET_NONE, io_set_target = ESP_OK, io_ota = ESP_OK, io_wifi_connect = ESP_OK, io_wifi_wait = ESP_OK,
     io_wifi_mark = ESP_OK, io_configured = (ESP_OK, False), io_peers = NULL, io_stats = []\<rparr>"

lemma lab_partition_ok: "partition_ok (\<lambda>f. f) lab_partition"
  by (simp add: partition_ok_def lab_partition_def)

lemma lab_spool: "sl_spool lab_serial = spool_state_zero\<lparr>sp_partition := Ptr lab_partition\<rparr>" "\<not> sp_writing (sl_spool lab_serial)"
  "sp_partition (sl_spool lab_serial) = Ptr lab_partition" "spool_inv (\<lambda>f. f) (sl_spool lab_serial)"
  using lab_partition_ok by (simp_all add: lab_serial_def spool_state_zero_def spool_inv_def spool_idle_def)


end
