(* ===== verification/Serial_Upload.thy ===== *)
theory Serial_Upload
  imports Serial_Safety
begin

text \<open>
  A relay upload end to end: the command line a host sends, the parser of the line, the task that divides
  the byte stream, the spool and the registry, composed as the task composes them.
\<close>

section \<open>The line of the host\<close>

definition relay_line :: "nat \<Rightarrow> u32 \<Rightarrow> bytes \<Rightarrow> bytes \<Rightarrow> bytes" where
  "relay_line n crc nm tp = relay_command @ digits 10 n @ [32] @ digits 16 (unat crc) @ [32] @ concat (map (hex_pair lower_hex) nm) @ [32] @ tp"

subsection \<open>Numbers\<close>

lemma denotes_digits: "denotes b ds t \<Longrightarrow> map (\<lambda>c. the (digit_value c)) t = ds \<and> list_all (base_digit b) t"
  by (induction t arbitrary: ds) (auto simp: base_digit_def)

lemma strtoul_digits:
  assumes "2 \<le> b" "b \<le> 16" "n \<le> ULONG_MAX"
  shows "strtoul (digits b n) b = (n, [])"
proof -
  obtain ds where ds: "denotes b ds (digits b n)" "positional b ds = n" using digits_denote [OF assms(1,2)] by blast
  note d = denotes_digits [OF ds(1)]
  obtain c cs where cons: "digits b n = c # cs" by (cases "digits b n") auto
  have digit: "base_digit b c" using d cons by simp
  have odd: "\<not> base_digit b 43" "\<not> base_digit b 45" "\<not> base_digit b 120" "\<not> base_digit b 88"
    by (simp_all add: base_digit_def digit_value_def)
  have space: "\<not> c_isspace c" using digit by (auto simp: c_isspace_def base_digit_def digit_value_def word_le_nat_alt split: if_splits)
  have sign: "strip_sign (digits b n) = (False, digits b n)"
    using digit odd(1,2) by (auto simp: strip_sign_def cons)
  have radix: "strip_radix b (digits b n) = digits b n"
  proof -
    have "base_digit b (digits b n ! 1)" if "2 < length (digits b n)" using d that by (simp add: list_all_length)
    then show ?thesis using odd(3,4) by (auto simp: strip_radix_def)
  qed
  have "takeWhile (base_digit b) (digits b n) = digits b n" using d by (simp add: takeWhile_eq_all_conv list_all_iff)
  moreover have "dropWhile c_isspace (digits b n) = digits b n" using space cons by simp
  ultimately show ?thesis using d ds(2) assms(3) sign radix by (simp add: strtoul_def Let_def del: takeWhile_eq_all_conv)
qed

subsection \<open>Names\<close>

lemma hex_pair_decode:
  "decode_hex_pairs (hex_pair lower_hex b @ rest) = (if b = 0 then None else map_option ((#) b) (decode_hex_pairs rest))"
proof -
  have all: "list_all (\<lambda>n. case hex_pair lower_hex (of_nat n) of [x, y] \<Rightarrow> 0 \<le> hex_nibble x \<and> 0 \<le> hex_nibble y \<and>
      ((hex_nibble x = 0 \<and> hex_nibble y = 0) = (n = 0)) \<and>
      (push_bit 4 (of_int (hex_nibble x)) OR of_int (hex_nibble y) :: byte) = of_nat n) [0..<256]"
    by code_simp
  define n where "n = unat b"
  have n: "n \<in> set [0..<256]" using unat_bound [of b] by (simp add: n_def)
  have b: "b = of_nat n" by (simp add: n_def)
  obtain x y where xy: "hex_pair lower_hex b = [x, y]" by (simp add: hex_pair_def)
  have "case hex_pair lower_hex (of_nat n) of [x, y] \<Rightarrow> 0 \<le> hex_nibble x \<and> 0 \<le> hex_nibble y \<and>
      ((hex_nibble x = 0 \<and> hex_nibble y = 0) = (n = 0)) \<and>
      (push_bit 4 (of_int (hex_nibble x)) OR of_int (hex_nibble y) :: byte) = of_nat n"
    by (rule bspec [OF _ n]) (use all in \<open>simp only: list_all_iff\<close>)
  moreover have "b = 0 \<longleftrightarrow> n = 0" by (simp add: n_def unat_eq_0)
  ultimately show ?thesis using xy b by (auto simp: Let_def)
qed

lemma hex_name_decode: "0 \<notin> set nm \<Longrightarrow> decode_hex_pairs (concat (map (hex_pair lower_hex) nm)) = Some nm"
proof (induction nm)
  case (Cons b nm)
  then show ?case using hex_pair_decode [of b "concat (map (hex_pair lower_hex) nm)"] by (auto split: if_splits)
qed simp

lemma length_hex_name: "length (concat (map (hex_pair lower_hex) nm)) = 2 * length nm"
  by (induction nm) (simp_all add: hex_pair_def)

subsection \<open>Fields of the line\<close>

lemma strtok_field: "32 \<notin> set t \<Longrightarrow> t \<noteq> [] \<Longrightarrow> strtok_r (t @ 32 # rest) = (Ptr t, rest)"
  and strtok_last: "32 \<notin> set t \<Longrightarrow> t \<noteq> [] \<Longrightarrow> strtok_r t = (Ptr t, [])"
  and strtok_none: "strtok_r [] = (NULL, [])"
proof -
  assume t: "32 \<notin> set t" "t \<noteq> []"
  have d: "dropWhile (\<lambda>c. c = 32) (t @ u) = t @ u" for u using t by (cases t) auto
  have w: "takeWhile (\<lambda>c. c \<noteq> 32) (t @ 32 # u) = t" "takeWhile (\<lambda>c. c \<noteq> 32) t = t" for u
    using t(1) by (auto simp: takeWhile_eq_all_conv takeWhile_append)
  show "strtok_r (t @ 32 # rest) = (Ptr t, rest)" using t d [of "32 # rest"] w(1) by (simp add: strtok_r_def Let_def)
  show "strtok_r t = (Ptr t, [])" using t d [of "[]"] w(2) by (simp add: strtok_r_def Let_def del: takeWhile_eq_all_conv)
qed (simp add: strtok_r_def)

text \<open>The bytes of the line are printable and none is the second letter of a packet header.\<close>

definition plain_char :: "byte \<Rightarrow> bool" where
  "plain_char c \<longleftrightarrow> 0x20 < c \<and> c \<le> 0x7e \<and> c \<noteq> 0x4d"

lemma digits_plain: "2 \<le> b \<Longrightarrow> b \<le> 16 \<Longrightarrow> list_all plain_char (digits b n)"
proof (induction n rule: less_induct)
  case (less n)
  have all: "list_all (\<lambda>d. plain_char (digit_char d)) [0..<16]" by code_simp
  have d: "plain_char (digit_char m)" if "m < b" for m
    using all that less.prems(2) by (simp add: list_all_iff)
  show ?case
  proof (cases "n < b")
    case False
    then have "n div b < n" "n mod b < b" using less.prems by auto
    then show ?thesis using False less d by (simp add: digits_step)
  qed (simp add: digits_small d)
qed

lemma hex_name_plain: "list_all plain_char (concat (map (hex_pair lower_hex) nm))"
proof -
  have all: "list_all plain_char lower_hex" "length lower_hex = 16" by code_simp+
  have "unat (drop_bit 4 b) < 16" "unat (b AND 0x0f) < 16" for b :: byte using nibble_less by auto
  moreover have "plain_char (lower_hex ! k)" if "k < 16" for k using all that by (simp add: list_all_length)
  ultimately have "list_all plain_char (hex_pair lower_hex b)" for b by (simp add: hex_pair_def)
  then show ?thesis by (induction nm) simp_all
qed

lemma plain_no_space: "list_all plain_char t \<Longrightarrow> 32 \<notin> set t"
  by (auto simp: list_all_iff plain_char_def)

text \<open>A file the host may announce.\<close>

definition announceable :: "nat \<Rightarrow> bytes \<Rightarrow> bytes \<Rightarrow> bool" where
  "announceable n nm tp \<longleftrightarrow> 0 < n \<and> n \<le> ULONG_MAX \<and> nm \<noteq> [] \<and> length nm \<le> RELAY_SPOOL_FILE_NAME_MAX \<and> 0 \<notin> set nm \<and>
     valid_file_type (Ptr tp) \<and> 0x4d \<notin> set tp"

lemma type_plain: "valid_file_type (Ptr tp) \<Longrightarrow> 0x4d \<notin> set tp \<Longrightarrow> list_all plain_char tp \<and> tp \<noteq> [] \<and> length tp \<le> 63"
  by (auto simp: valid_file_type_def list_all_iff plain_char_def file_type_char_def word_less_nat_alt word_le_nat_alt spool_consts)

lemma parse_relay_line:
  assumes "announceable n nm tp" "n \<le> capacity"
  shows "parse_relay_request capacity (relay_line n crc nm tp) =
    Some \<lparr>rq_size = n, rq_crc32 = crc, rq_file_name = nm, rq_file_type = tp\<rparr>"
proof -
  define hex where "hex = concat (map (hex_pair lower_hex) nm)"
  have a: "0 < n" "n \<le> ULONG_MAX" "nm \<noteq> []" "length nm \<le> 127" "0 \<notin> set nm" "valid_file_type (Ptr tp)" "0x4d \<notin> set tp"
    using assms(1) by (auto simp: announceable_def spool_consts)
  have hex: "hex \<noteq> []" "length hex = 2 * length nm" "32 \<notin> set hex" "decode_hex_pairs hex = Some nm"
    using a(3,5) length_hex_name [of nm] plain_no_space [OF hex_name_plain [of nm]] hex_name_decode [of nm]
    by (auto simp: hex_def hex_pair_def)
  have sp: "32 \<notin> set (digits 10 n)" "32 \<notin> set (digits 16 (unat crc))" "32 \<notin> set tp" "tp \<noteq> []"
    using plain_no_space digits_plain type_plain [OF a(6,7)] by auto
  have drop: "drop (length relay_command) (relay_line n crc nm tp) =
      digits 10 n @ 32 # digits 16 (unat crc) @ 32 # hex @ 32 # tp"
    by (simp add: relay_line_def hex_def)
  have tokens: "strtok_times 5 (digits 10 n @ 32 # digits 16 (unat crc) @ 32 # hex @ 32 # tp) =
      [Ptr (digits 10 n), Ptr (digits 16 (unat crc)), Ptr hex, Ptr tp, NULL]"
    using sp hex by (simp add: numeral_eq_Suc strtok_field strtok_last strtok_none)
  have crc: "unat crc \<le> ULONG_MAX" using unat_bound [of crc] by (simp add: ULONG_MAX_def)
  have name: "decode_hex_name (Ptr hex) (RELAY_SPOOL_FILE_NAME_MAX + 1) = Some nm"
    using hex a(3,4) by (simp add: decode_hex_name_def spool_consts)
  show ?thesis
    using a(1,2,6) assms(2) crc name strtoul_digits [of 10 n] strtoul_digits [of 16 "unat crc"]
    by (simp add: parse_relay_request_def drop tokens number_field_def field_parsed_def UINT32_MAX_def ULONG_MAX_def)
qed

lemma relay_line_plain:
  assumes "announceable n nm tp"
  shows "list_all (\<lambda>c. 0x20 \<le> c \<and> c \<le> 0x7e \<and> c \<noteq> 0x4d) (relay_line n crc nm tp)" "length (relay_line n crc nm tp) < 400"
    "take 8 (relay_line n crc nm tp) = command_prefix" "8 < length (relay_line n crc nm tp)"
proof -
  have a: "n \<le> ULONG_MAX" "length nm \<le> 127" "valid_file_type (Ptr tp)" "0x4d \<notin> set tp"
    using assms by (auto simp: announceable_def spool_consts)
  note tp = type_plain [OF a(3,4)]
  have weak: "list_all plain_char t \<Longrightarrow> list_all (\<lambda>c. 0x20 \<le> c \<and> c \<le> 0x7e \<and> c \<noteq> 0x4d) t" for t
    by (auto simp: list_all_iff plain_char_def)
  have command: "list_all (\<lambda>c. 0x20 \<le> c \<and> c \<le> 0x7e \<and> c \<noteq> (0x4d :: byte)) relay_command" by (simp add: relay_command_def ascii_def)
  show "list_all (\<lambda>c. 0x20 \<le> c \<and> c \<le> 0x7e \<and> c \<noteq> 0x4d) (relay_line n crc nm tp)"
    using command weak [OF digits_plain, of 10 n] weak [OF digits_plain, of 16 "unat crc"] weak [OF hex_name_plain, of nm] weak tp
    by (simp add: relay_line_def)
  have "length (digits 10 n) \<le> 10" using a(1) by (intro length_digits_le) (simp_all add: ULONG_MAX_def)
  moreover have "length (digits 16 (unat crc)) \<le> 8" using unat_bound [of crc] by (intro length_digits_le) simp_all
  moreover have "length relay_command = 20" by (simp add: relay_command_def)
  ultimately show "length (relay_line n crc nm tp) < 400"
    using a(2) tp length_hex_name [of nm] by (simp add: relay_line_def)
  show "take 8 (relay_line n crc nm tp) = command_prefix" "8 < length (relay_line n crc nm tp)"
    by (simp_all add: relay_line_def relay_command_def command_prefix_def ascii_def)
qed

section \<open>Collecting a line\<close>

text \<open>The state while \<open>line\<close> is being collected: only the parser and the counter of iterations differ beside it.\<close>

definition collecting_line :: "('f, 'b) serial \<Rightarrow> bytes \<Rightarrow> ('f, 'b) serial \<Rightarrow> bool" where
  "collecting_line s line s' \<longleftrightarrow>
     (\<exists>p n c. s' = s\<lparr>sl_parser := p, sl_iteration := n, sl_command_line := line\<rparr> \<and> parser_at p c \<and> length c \<le> 1)"

lemma improv_quiet:
  assumes "parser_at p c" "length c \<le> 1" "b \<noteq> 0x4d"
  shows "\<exists>q c'. improv_serial_parser_feed (Ptr p) b (Ptr k) = Some (IMPROV_SERIAL_PARSE_NONE, Ptr q, Ptr k) \<and> parser_at q c' \<and> length c' \<le> 1"
proof -
  have short: "length c < 6" using assms(2) by simp
  have "length (snd (improv_step c b)) \<le> 1" "fst (improv_step c b) = IMPROV_SERIAL_PARSE_NONE"
    using assms(2,3) by (cases c; auto simp: improv_step_def improv_header_def)+
  then show ?thesis using feed_header [OF assms(1) short, of b k] by auto
qed

text \<open>Outside an upload a byte that is no part of a packet header only reaches the line.\<close>

lemma consume_quiet:
  assumes "collecting_line s line s1" "b \<noteq> 0x4d" "\<not> sl_halted s" "\<not> sl_chunk_receiving s" "\<not> sl_relay_receiving s"
  shows "\<exists>io s2. serial_consume cfg ios (b # rest) s1 = serial_consume cfg ios rest (command_byte cfg io b s2) \<and> collecting_line s line s2 \<and>
    (\<exists>i. io = ios i)"
proof -
  obtain p n c where s1: "s1 = s\<lparr>sl_parser := p, sl_iteration := n, sl_command_line := line\<rparr>" and at: "parser_at p c" "length c \<le> 1"
    using assms(1) by (auto simp: collecting_line_def)
  obtain q c' where q: "improv_serial_parser_feed (Ptr p) b (Ptr (sl_packet s)) = Some (IMPROV_SERIAL_PARSE_NONE, Ptr q, Ptr (sl_packet s))"
    "parser_at q c'" "length c' \<le> 1" using improv_quiet [OF at assms(2)] by blast
  define s2 where "s2 = s1\<lparr>sl_iteration := Suc n, sl_parser := q\<rparr>"
  have "serial_byte cfg (ios n) b (s1\<lparr>sl_iteration := Suc n\<rparr>) = Some (command_byte cfg (ios n) b s2)"
    using q(1) assms(3) by (simp add: serial_byte_def s2_def) (simp add: s1)
  then have "serial_consume cfg ios (b # rest) s1 = serial_consume cfg ios rest (command_byte cfg (ios n) b s2)"
    using assms(3-5) by (subst serial_consume.simps) (simp add: s1)
  moreover have "s2 = s\<lparr>sl_parser := q, sl_iteration := Suc n, sl_command_line := line\<rparr>" by (simp add: s2_def s1)
  then have "collecting_line s line s2" unfolding collecting_line_def using q(2,3) by blast
  ultimately show ?thesis by blast
qed

lemma command_byte_collects:
  assumes "collecting_line s (take i line) s2" "i < length line" "length line < 511" "take 8 line = command_prefix"
    and "0x20 \<le> line ! i" "line ! i \<le> 0x7e"
  shows "collecting_line s (take (Suc i) line) (command_byte cfg io (line ! i) s2)"
proof -
  obtain p n c where s2: "s2 = s\<lparr>sl_parser := p, sl_iteration := n, sl_command_line := take i line\<rparr>" and at: "parser_at p c" "length c \<le> 1"
    using assms(1) by (auto simp: collecting_line_def)
  have next_line: "take (Suc i) line = take i line @ [line ! i]" using assms(2) by (rule take_Suc_conv_app_nth)
  have pre: "line ! i = command_prefix ! i" if "i < 8" using assms(4) that by (metis nth_take)
  have len: "length command_prefix = 8" "command_prefix ! 0 = 69" by (simp_all add: command_prefix_def ascii_def)
  have "line ! i \<noteq> 10" "\<not> line ! i < 0x20" "\<not> line ! i > 0x7e" using assms(5,6) by auto
  then have "command_byte cfg io (line ! i) s2 = s2\<lparr>sl_command_line := take (Suc i) line\<rparr>"
    using assms(2,3) pre len next_line
    by (cases "i = 0") (auto simp: command_byte_def Let_def s2 COMMAND_LINE_BYTES_def)
  then show ?thesis unfolding collecting_line_def s2 using at by fastforce
qed

section \<open>A working flash\<close>

text \<open>Operations inside the partition succeed.\<close>

definition flash_reliable :: "'f partition_ops \<Rightarrow> ('f \<Rightarrow> bytes) \<Rightarrow> bool" where
  "flash_reliable ops contents \<longleftrightarrow>
     (\<forall>f off n. off + n \<le> length (contents f) \<longrightarrow> fst (esp_partition_erase_range ops f off n) = ESP_OK) \<and>
     (\<forall>f off d. off + length d \<le> length (contents f) \<longrightarrow> fst (esp_partition_write ops f off d) = ESP_OK)"

lemma begin_reliable:
  assumes "flash_reliable ops contents" "sp_partition st = Ptr p" "partition_ok contents p" "\<not> sp_writing st"
    and "announceable n nm tp" "n \<le> relay_spool_capacity st" "sector_ceil (RELAY_SPOOL_DATA_OFFSET + n) \<le> pn_size p"
  shows "\<exists>st'. relay_spool_begin ops st n crc (Ptr nm) (Ptr tp) = (ESP_OK, st')"
proof -
  have "fst (esp_partition_erase_range ops (pn_flash p) 0 (sector_ceil (RELAY_SPOOL_DATA_OFFSET + n))) = ESP_OK"
    using assms(1,3,7) by (simp add: flash_reliable_def partition_ok_def)
  then obtain f where "esp_partition_erase_range ops (pn_flash p) 0 (sector_ceil (RELAY_SPOOL_DATA_OFFSET + n)) = (ESP_OK, f)"
    by (metis prod.collapse)
  then show ?thesis
    using assms(2,4-6) by (auto simp: relay_spool_begin_def announceable_def valid_file_type_def Let_def)
qed

lemma write_reliable:
  assumes "flash_reliable ops contents" "spool_writing contents st xs" "length xs + length d \<le> spool_size st" "d \<noteq> []"
  shows "\<exists>st'. relay_spool_write ops st (Ptr d) (length d) = (ESP_OK, st')"
proof -
  have w: "sp_partition st \<noteq> NULL" "partition_ok contents (deref (sp_partition st))" "sp_writing st" "sp_write_cursor st = length xs"
    "4096 + spool_size st \<le> length (flash_data contents st)"
    using assms(2) valid_header_room [of st _ contents] by (fastforce simp: spool_writing_def)+
  have "fst (esp_partition_write ops (pn_flash (deref (sp_partition st))) (4096 + length xs) d) = ESP_OK"
    using assms(1,3) w(5) by (simp add: flash_reliable_def)
  then obtain f where "esp_partition_write ops (pn_flash (deref (sp_partition st))) (4096 + length xs) d = (ESP_OK, f)"
    by (metis prod.collapse)
  moreover have "(length xs + length d) mod (SIZE_MAX + 1) \<le> spool_size st" using assms(3) by (meson mod_less_eq_dividend order_trans)
  ultimately show ?thesis using w(3,4) assms(4) by (simp add: relay_spool_write_def spool_consts Let_def)
qed

lemma finish_reliable:
  assumes "flash_reliable ops contents" "spool_writing contents st xs" "length xs = spool_size st" "crc32 xs = sh_payload_crc32 (sp_header st)"
  shows "\<exists>st'. relay_spool_finish ops st = (ESP_OK, st')"
proof -
  define h where "h = (sp_header st)\<lparr>sh_header_crc32 := header_crc32 (sp_header st)\<rparr>"
  have w: "sp_writing st" "sp_write_cursor st = length xs" "sp_write_crc32 st XOR 0xffffffff = crc32 xs" "wf_header h"
    "4096 + spool_size st \<le> length (flash_data contents st)"
    using assms(2) valid_header_room [of st _ contents] by (fastforce simp: spool_writing_def crc32_def wf_header_def h_def)+
  have "fst (esp_partition_write ops (pn_flash (deref (sp_partition st))) 0 (header_to_bytes h)) = ESP_OK"
    using assms(1) w(5) length_header_to_bytes [OF w(4)] by (simp add: flash_reliable_def)
  then obtain f where "esp_partition_write ops (pn_flash (deref (sp_partition st))) 0 (header_to_bytes h) = (ESP_OK, f)"
    by (metis prod.collapse)
  then show ?thesis using w(1-3) assms(3,4) by (simp add: relay_spool_finish_def Let_def h_def)
qed

section \<open>The phases of an upload\<close>

definition ready_text :: "nat \<Rightarrow> bytes" where
  "ready_text capacity = ascii ''ESPDROP-RELAY-READY capacity='' @ digits 10 capacity @ [10]"

definition stored_text :: bytes where
  "stored_text = ascii ''ESPDROP-RELAY-STORED'' @ [10]"

definition receiving_payload ::
  "('f \<Rightarrow> bytes) \<Rightarrow> ('f, 'b) serial \<Rightarrow> u32 \<Rightarrow> bytes \<Rightarrow> bytes \<Rightarrow> bytes \<Rightarrow> nat \<Rightarrow> ('f, 'b) serial \<Rightarrow> bool" where
  "receiving_payload contents s crc nm tp payload j s' \<longleftrightarrow>
     sl_relay_receiving s' \<and> \<not> sl_chunk_receiving s' \<and> \<not> sl_halted s' \<and> sl_relay_remaining s' = length payload - j \<and>
     spool_writing contents (sl_spool s') (take j payload) \<and> sp_header (sl_spool s') = new_header (length payload) crc nm tp \<and>
     spool_size (sl_spool s') = length payload \<and> \<not> rg_acquired (sl_registry s') \<and>
     sl_trace s' = sl_trace s @ [Written (ready_text (relay_spool_capacity (sl_spool s)))]"

definition uploaded ::
  "('f \<Rightarrow> bytes) \<Rightarrow> 'f partition_ops \<Rightarrow> ('f, 'b) serial \<Rightarrow> u32 \<Rightarrow> bytes \<Rightarrow> bytes \<Rightarrow> bytes \<Rightarrow> ('f, 'b) serial \<Rightarrow> bool" where
  "uploaded contents ops s crc nm tp payload s' \<longleftrightarrow>
     \<not> sl_relay_receiving s' \<and> \<not> sl_chunk_receiving s' \<and> spool_ready contents (sl_spool s') payload \<and> sp_cursor (sl_spool s') = 0 \<and>
     (\<exists>c. sp_header (sl_spool s') = (new_header (length payload) crc nm tp)\<lparr>sh_header_crc32 := c\<rparr>) \<and>
     espdrop_airdrop_outgoing_ready (sl_registry s') \<and>
     relay_spool_outgoing_file ops (sl_spool s') = (ESP_OK, rg_registered_file (sl_registry s')) \<and>
     sl_trace s' = sl_trace s @ [Written (ready_text (relay_spool_capacity (sl_spool s))), Written stored_text]"

lemma relay_line_dispatch:
  assumes "announceable (length payload) nm tp" "length payload \<le> relay_spool_capacity (sl_spool s)"
    and "\<not> rg_acquired (sl_registry s)"
    and begun: "relay_spool_begin (sc_flash cfg) (sl_spool s) (length payload) crc (Ptr nm) (Ptr tp) = (ESP_OK, spool)"
  shows "\<exists>g. run_command cfg io (relay_line (length payload) crc nm tp) s =
    (say (ready_text (relay_spool_capacity spool)) (s\<lparr>sl_registry := g, sl_spool := spool\<rparr>))
      \<lparr>sl_relay_receiving := True, sl_relay_remaining := length payload, sl_relay_last_receive := io_tick io\<rparr> \<and> \<not> rg_acquired g"
proof -
  define line where "line = relay_line (length payload) crc nm tp"
  obtain t where t: "line = relay_command @ t" by (auto simp: line_def relay_line_def)
  note parse = parse_relay_line [OF assms(1,2), of crc, folded line_def]
  have size: "reread_size line = length payload" using reread_size_agrees [OF parse] by simp
  have relay: "starts_with relay_command line" by (simp add: starts_with_def t)
  define g where "g = snd (espdrop_airdrop_outgoing_clear (sl_registry s))"
  have clear: "espdrop_airdrop_outgoing_clear (sl_registry s) = (ESP_OK, g)" "\<not> rg_acquired g"
    using assms(3) by (simp_all add: g_def espdrop_airdrop_outgoing_clear_def)
  have upload: "start_relay_upload cfg line s = (True, say (ready_text (relay_spool_capacity spool)) (s\<lparr>sl_registry := g, sl_spool := spool\<rparr>))"
    using relay parse clear begun by (simp add: start_relay_upload_def ready_text_def)
  have others: "line \<noteq> ascii ''ESPDROP PING''" "line \<noteq> ascii ''ESPDROP PEERS''" "line \<noteq> ascii ''ESPDROP STATS''"
    "line \<noteq> ascii ''ESPDROP STREAM RESULT''" "line \<noteq> ascii ''ESPDROP WAKE''" "line \<noteq> ascii ''ESPDROP RESTART''"
    "line \<noteq> ascii ''ESPDROP STREAM CANCEL''" "line \<noteq> ota_command" "\<not> starts_with ota_command line" "\<not> starts_with target_prefix line"
    by (simp_all add: t relay_command_def ota_command_def target_prefix_def starts_with_def ascii_def)
  then have "\<not> fst (handle_target_command io line s)" by (simp add: handle_target_command_def)
  then show ?thesis
    using others upload size clear(2) unfolding line_def [symmetric] by (auto simp: run_command_def)
qed

lemma receive_payload_piece:
  fixes s' :: "('f, 'b) serial"
  assumes fc: "flash_contract (sc_flash cfg) contents" "flash_reliable (sc_flash cfg) contents"
    and at: "receiving_payload contents s crc nm tp payload j s'" and x: "x \<noteq> []" "x = take (length x) (drop j payload)" "j + length x \<le> length payload"
    and run: "io_request_run io = ESP_OK" and ok: "announceable (length payload) nm tp" "crc = crc32 payload"
  shows "\<exists>s''. receive_relay_piece cfg io x s' = (True, s'') \<and>
    (if j + length x < length payload then receiving_payload contents s crc nm tp payload (j + length x) s''
     else uploaded contents (sc_flash cfg) s crc nm tp payload s'')"
proof -
  let ?n = "length payload"
  have a: "sl_relay_receiving s'" "\<not> sl_chunk_receiving s'" "\<not> sl_halted s'" "sl_relay_remaining s' = ?n - j"
    "spool_writing contents (sl_spool s') (take j payload)" "sp_header (sl_spool s') = new_header ?n crc nm tp"
    "spool_size (sl_spool s') = ?n" "\<not> rg_acquired (sl_registry s')"
    "sl_trace s' = sl_trace s @ [Written (ready_text (relay_spool_capacity (sl_spool s)))]"
    using at by (auto simp: receiving_payload_def)
  have n32: "?n \<le> SIZE_MAX" using unat_bound [of "sh_size_bytes (sp_header (sl_spool s'))"] a(7) by (simp add: SIZE_MAX_def)
  have j: "length (take j payload) = j" using x(3) by simp
  obtain spool where wr: "relay_spool_write (sc_flash cfg) (sl_spool s') (Ptr x) (length x) = (ESP_OK, spool)"
    using write_reliable [OF fc(2) a(5) _ x(1)] a(7) x(3) j by auto
  have xs: "take j payload @ x = take (j + length x) payload" by (subst x(2)) (simp add: take_add)
  have w: "spool_writing contents spool (take (j + length x) payload)" "sp_header spool = new_header ?n crc nm tp"
    using spool_write_step(1) [OF fc(1) a(5) _ wr] n32 x(3) a(6) unfolding xs by simp_all
  define s2 where "s2 = s'\<lparr>sl_spool := spool, sl_relay_remaining := ?n - j - length x, sl_relay_last_receive := io_tick io\<rparr>"
  have piece: "receive_relay_piece cfg io x s' =
      (if ?n - j - length x \<noteq> 0 then (True, s2)
       else (case finish_relay_upload (sc_flash cfg) (io_request_run io) spool (sl_registry s') of
         (response, final, spool2, registry) \<Rightarrow>
           (True, say response (s2\<lparr>sl_relay_receiving := False, sl_spool := spool2, sl_registry := registry\<rparr>))))"
    by (auto simp: receive_relay_piece_def receive_relay_def wr s2_def a(4) Let_def)
  show ?thesis
  proof (cases "j + length x < ?n")
    case True
    then show ?thesis using piece a w by (simp add: receiving_payload_def s2_def)
  next
    case False
    then have whole: "take (j + length x) payload = payload" "?n - j - length x = 0" using x(3) by simp_all
    have crc: "crc32 payload = sh_payload_crc32 (sp_header spool)" using ok(2) w(2) by (simp add: new_header_def)
    have size: "?n = spool_size spool" using w(2) a(6,7) by simp
    obtain spool2 where fin: "relay_spool_finish (sc_flash cfg) spool = (ESP_OK, spool2)"
      using finish_reliable [OF fc(2) w(1) [unfolded whole(1)] size crc] by blast
    note fin_step = spool_finish_step [OF fc(1) w(1) [unfolded whole(1)] fin]
    have ready: "relay_spool_is_ready spool2" using fin_step(1) by (simp add: relay_spool_is_ready_def spool_ready_def)
    define h where "h = sp_header spool2"
    have h: "h = (new_header ?n crc nm tp)\<lparr>sh_header_crc32 := header_crc32 (sp_header spool)\<rparr>" using fin_step(4) w(2) by (simp add: h_def)
    have z: "0 \<notin> set nm" "0 \<notin> set tp" using ok(1) by (auto simp: announceable_def valid_file_type_def list_all_iff file_type_char_def)
    have nonempty: "nm \<noteq> []" "tp \<noteq> []" "0 < ?n" using ok(1) by (auto simp: announceable_def valid_file_type_def)
    have names: "takeWhile (\<lambda>c. c \<noteq> 0) (sh_file_name h) = nm" "takeWhile (\<lambda>c. c \<noteq> 0) (sh_file_type h) = tp"
      using z by (auto simp: h new_header_def store_def takeWhile_tail takeWhile_append)
    obtain desc :: "('f spool_state ptr, 'b relay_stream_state ptr) outgoing_file" where desc: "relay_spool_outgoing_file (sc_flash cfg) spool2 = (ESP_OK, Ptr desc)"
      "of_file_name desc = Ptr nm" "of_file_type desc = Ptr tp" "src_read (of_source desc) \<noteq> NULL" "src_size_bytes (of_source desc) = ?n"
      using ready names size fin_step(4) by (auto simp: relay_spool_outgoing_file_def h_def)
    then have valid: "valid_file (Ptr desc)" using nonempty by (simp add: valid_file_def Let_def)
    define g where "g = snd (espdrop_airdrop_outgoing_set (sl_registry s') (Ptr desc))"
    have set: "espdrop_airdrop_outgoing_set (sl_registry s') (Ptr desc) = (ESP_OK, g)" "espdrop_airdrop_outgoing_ready g"
      "rg_registered_file g = Ptr desc"
      using valid a(8) by (simp_all add: g_def espdrop_airdrop_outgoing_set_def espdrop_airdrop_outgoing_ready_def)
    have finish: "finish_relay_upload (sc_flash cfg) (io_request_run io) spool (sl_registry s') = (stored_text, ESP_OK, spool2, g)"
      by (simp add: finish_relay_upload_def fin desc(1) set(1) run stored_text_def)
    show ?thesis
      using False piece whole(2) finish a fin_step(1,2) h set desc(1)
      by (auto simp: uploaded_def s2_def say_def emit_def h_def)
  qed
qed

text \<open>The state after \<open>i\<close> bytes of the upload.\<close>

definition upload_phase ::
  "('f \<Rightarrow> bytes) \<Rightarrow> 'f partition_ops \<Rightarrow> ('f, 'b) serial \<Rightarrow> bytes \<Rightarrow> u32 \<Rightarrow> bytes \<Rightarrow> bytes \<Rightarrow> bytes \<Rightarrow> nat \<Rightarrow> ('f, 'b) serial \<Rightarrow> bool" where
  "upload_phase contents ops s line crc nm tp payload i s' \<longleftrightarrow>
     (if i \<le> length line then collecting_line s (take i line) s'
      else if i - length line - 1 < length payload then receiving_payload contents s crc nm tp payload (i - length line - 1) s'
      else uploaded contents ops s crc nm tp payload s')"


text \<open>The newline hands the line over: the erased spool is open for the payload.\<close>

lemma newline_opens_spool:
  fixes s :: "('f, 'b) serial"
  assumes fc: "flash_contract (sc_flash cfg) contents" "flash_reliable (sc_flash cfg) contents"
    and at: "collecting_line s (relay_line (length payload) crc nm tp) s1"
    and ok: "announceable (length payload) nm tp" "length payload \<le> relay_spool_capacity (sl_spool s)"
      "sector_ceil (RELAY_SPOOL_DATA_OFFSET + length payload) \<le> pn_size p"
    and idle: "sp_partition (sl_spool s) = Ptr p" "partition_ok contents p" "\<not> sp_writing (sl_spool s)" "\<not> rg_acquired (sl_registry s)"
      "\<not> sl_halted s" "\<not> sl_chunk_receiving s"
  shows "receiving_payload contents s crc nm tp payload 0 (command_byte cfg io 10 s1)"
proof -
  let ?line = "relay_line (length payload) crc nm tp"
  obtain q n c where s1: "s1 = s\<lparr>sl_parser := q, sl_iteration := n, sl_command_line := ?line\<rparr>"
    using at by (auto simp: collecting_line_def)
  obtain spool where begun: "relay_spool_begin (sc_flash cfg) (sl_spool s) (length payload) crc (Ptr nm) (Ptr tp) = (ESP_OK, spool)"
    using begin_reliable [OF fc(2) idle(1-3) ok] by blast
  have z: "0 \<notin> set nm" "0 \<notin> set tp"
    using ok(1) by (auto simp: announceable_def valid_file_type_def list_all_iff file_type_char_def)
  have bw: "spool_writing contents spool []" "sp_header spool = new_header (length payload) crc nm tp" "spool_size spool = length payload"
    using spool_begin_writing [OF fc(1) begun z] idle(1,2) by auto
  have capacity: "relay_spool_capacity spool = relay_spool_capacity (sl_spool s)"
    using begun idle(1) by (auto simp: relay_spool_begin_def relay_spool_capacity_def set_flash_def Let_def split: if_splits prod.splits)
  obtain g where g: "run_command cfg io ?line s1 =
      (say (ready_text (relay_spool_capacity spool)) (s1\<lparr>sl_registry := g, sl_spool := spool\<rparr>))
        \<lparr>sl_relay_receiving := True, sl_relay_remaining := length payload, sl_relay_last_receive := io_tick io\<rparr>" "\<not> rg_acquired g"
    using relay_line_dispatch [of payload nm tp s1 cfg crc spool io] ok(1,2) idle(4) begun by (auto simp: s1)
  have "?line \<noteq> []" using relay_line_plain(4) [OF ok(1), of crc] by auto
  then have "command_byte cfg io 10 s1 = (run_command cfg io ?line s1)\<lparr>sl_command_line := []\<rparr>"
    by (simp add: command_byte_def s1 Let_def)
  then show ?thesis
    using bw capacity g(2) idle(5,6) unfolding g(1) by (simp add: receiving_payload_def say_def emit_def) (simp add: s1)
qed

subsection \<open>A read of the driver\<close>

lemma upload_consume:
  fixes s :: "('f, 'b) serial"
  assumes fc: "flash_contract (sc_flash cfg) contents" "flash_reliable (sc_flash cfg) contents"
    and ok: "announceable (length payload) nm tp" "length payload \<le> relay_spool_capacity (sl_spool s)"
      "sector_ceil (RELAY_SPOOL_DATA_OFFSET + length payload) \<le> pn_size p"
    and idle: "sp_partition (sl_spool s) = Ptr p" "partition_ok contents p" "\<not> sp_writing (sl_spool s)" "\<not> rg_acquired (sl_registry s)"
      "\<not> sl_halted s" "\<not> sl_chunk_receiving s" "\<not> sl_relay_receiving s"
    and run: "\<And>k. io_request_run (ios k) = ESP_OK" and crc: "crc = crc32 payload"
    and line: "line = relay_line (length payload) crc nm tp"
  shows "upload_phase contents (sc_flash cfg) s line crc nm tp payload i s' \<Longrightarrow>
    drop i (line @ [10] @ payload) = x @ rest \<Longrightarrow>
    \<exists>s''. serial_consume cfg ios x s' = Some s'' \<and> upload_phase contents (sc_flash cfg) s line crc nm tp payload (i + length x) s''"
proof (induction x arbitrary: i s')
  case Nil
  then show ?case by (simp add: serial_consume.simps)
next
  case (Cons b x)
  note plain = relay_line_plain [OF ok(1), of crc, folded line]
  have rest: "drop (Suc i) (line @ [10] @ payload) = x @ rest"
    using Cons.prems(2) by (metis Cons_eq_appendI drop_Suc list.sel(3) tl_drop)
  have inside: "i < length (line @ [10] @ payload)" "b = (line @ [10] @ payload) ! i"
    using Cons.prems(2) by (metis append_Cons drop_eq_Nil2 leI list.distinct(1), metis append_Cons nth_via_drop)
  consider (head) "i < length line" | (newline) "i = length line" | (data) "length line < i" by linarith
  then show ?case
  proof cases
    case head
    then have b: "b = line ! i" using inside by (simp add: nth_append)
    have at: "collecting_line s (take i line) s'" using Cons.prems(1) head by (simp add: upload_phase_def)
    have c: "0x20 \<le> b" "b \<le> 0x7e" "b \<noteq> 0x4d" using plain(1) head b by (auto simp: list_all_length)
    obtain io s2 where s2: "serial_consume cfg ios (b # x) s' = serial_consume cfg ios x (command_byte cfg io b s2)"
      "collecting_line s (take i line) s2"
      using consume_quiet [OF at c(3) idle(5,6,7)] by blast
    have "collecting_line s (take (Suc i) line) (command_byte cfg io b s2)"
      using command_byte_collects [OF s2(2) head _ plain(3), of cfg io] c plain(2) b by simp
    then have "upload_phase contents (sc_flash cfg) s line crc nm tp payload (Suc i) (command_byte cfg io b s2)"
      using head by (simp add: upload_phase_def)
    from Cons.IH [OF this rest] show ?thesis by (simp add: s2(1))
  next
    case newline
    then have b: "b = 10" using inside by (simp add: nth_append)
    have at: "collecting_line s line s'" using Cons.prems(1) newline by (simp add: upload_phase_def)
    have "b \<noteq> 0x4d" using b by simp
    then obtain io s2 where s2: "serial_consume cfg ios (b # x) s' = serial_consume cfg ios x (command_byte cfg io b s2)"
      "collecting_line s line s2"
      using consume_quiet [OF at _ idle(5,6,7)] by blast
    have "receiving_payload contents s crc nm tp payload 0 (command_byte cfg io b s2)"
      using newline_opens_spool [OF fc s2(2) [unfolded line] ok idle(1-6)] by (simp add: b)
    moreover have "payload \<noteq> []" using ok(1) by (auto simp: announceable_def)
    ultimately have "upload_phase contents (sc_flash cfg) s line crc nm tp payload (Suc i) (command_byte cfg io b s2)"
      using newline by (simp add: upload_phase_def)
    from Cons.IH [OF this rest] show ?thesis by (simp add: s2(1))
  next
    case data
    define j where "j = i - length line - 1"
    have i: "i = length line + 1 + j" using data by (simp add: j_def)
    have payload: "drop j payload = (b # x) @ rest" using Cons.prems(2) by (simp add: i)
    have j: "j + length (b # x) \<le> length payload" using arg_cong [OF payload, of length] by simp
    have piece: "b # x = take (length (b # x)) (drop j payload)" by (simp add: payload)
    have at: "receiving_payload contents s crc nm tp payload j s'"
      using Cons.prems(1) j by (simp add: upload_phase_def i)
    define s0 where "s0 = s'\<lparr>sl_iteration := Suc (sl_iteration s')\<rparr>"
    have "receiving_payload contents s crc nm tp payload j s0" using at by (auto simp: receiving_payload_def s0_def)
    from receive_payload_piece [OF fc this _ piece j run ok(1) crc]
    obtain s2 where s2: "receive_relay_piece cfg (ios (sl_iteration s')) (b # x) s0 = (True, s2)"
      "if j + length (b # x) < length payload then receiving_payload contents s crc nm tp payload (j + length (b # x)) s2
       else uploaded contents (sc_flash cfg) s crc nm tp payload s2"
      by blast
    have "\<not> sl_halted s'" "\<not> sl_chunk_receiving s'" "sl_relay_receiving s'" "sl_relay_remaining s' = length payload - j"
      using at by (simp_all add: receiving_payload_def)
    then have "serial_consume cfg ios (b # x) s' = Some s2"
      using j s2(1) by (subst serial_consume.simps) (simp add: s0_def serial_consume.simps Let_def)
    then show ?thesis using s2(2) by (auto simp: upload_phase_def i split: if_splits)
  qed
qed

text \<open>Reads of the driver one after the other, none of them empty.\<close>

primrec serial_run :: "('f, 'b) serial_config \<Rightarrow> (nat \<Rightarrow> serial_io) \<Rightarrow> bytes list \<Rightarrow> ('f, 'b) serial \<Rightarrow> ('f, 'b) serial option" where
  "serial_run cfg ios [] s = Some s"
| "serial_run cfg ios (x # xs) s = do { s1 \<leftarrow> serial_poll cfg ios x s; serial_run cfg ios xs s1 }"


text \<open>
  C35. A file a host sends over the serial port arrives: on an idle device, when the bytes are the line
  \<open>ESPDROP RELAY BEGIN\<close> with the length, the CRC, the name in hexadecimal and the type, a newline and the file,
  in any division into reads, and the flash works, then the task returns from every read, answers READY with
  the capacity and STORED, nothing else, and the registered file has that name, type and size and is a source
  that fills a buffer with exactly the file's bytes.
\<close>

theorem relay_upload_roundtrip:
  fixes s :: "('f, 'b) serial"
  assumes fc: "flash_contract (sc_flash cfg) contents" "flash_reliable (sc_flash cfg) contents"
    and ok: "announceable (length payload) nm tp" "length payload \<le> relay_spool_capacity (sl_spool s)"
      "sector_ceil (RELAY_SPOOL_DATA_OFFSET + length payload) \<le> pn_size p"
    and idle: "sp_partition (sl_spool s) = Ptr p" "partition_ok contents p" "\<not> sp_writing (sl_spool s)" "\<not> rg_acquired (sl_registry s)"
      "\<not> sl_halted s" "\<not> sl_chunk_receiving s" "\<not> sl_relay_receiving s" "sl_command_line s = []" "parser_at (sl_parser s) []"
    and run: "\<And>k. io_request_run (ios k) = ESP_OK"
    and inputs: "concat inputs = relay_line (length payload) (crc32 payload) nm tp @ [10] @ payload" "[] \<notin> set inputs"
    and ws: "length ws = length payload"
  shows "\<exists>s' descriptor c'. serial_run cfg ios inputs s = Some s' \<and>
    sl_trace s' = sl_trace s @ [Written (ready_text (relay_spool_capacity (sl_spool s))), Written stored_text] \<and>
    \<not> sl_relay_receiving s' \<and> espdrop_airdrop_outgoing_ready (sl_registry s') \<and> rg_registered_file (sl_registry s') = Ptr descriptor \<and>
    of_file_name descriptor = Ptr nm \<and> of_file_type descriptor = Ptr tp \<and> src_size_bytes (of_source descriptor) = length payload \<and>
    fill_workspace (deref (src_read (of_source descriptor))) (src_context (of_source descriptor)) ws 0 (length payload) =
      (STREAM_OK, c', payload)"
proof -
  define line where "line = relay_line (length payload) (crc32 payload) nm tp"
  let ?phase = "upload_phase contents (sc_flash cfg) s line (crc32 payload) nm tp payload"
  have steps: "\<exists>s'. serial_run cfg ios xs s1 = Some s' \<and> ?phase (i + length (concat xs)) s'"
    if "?phase i s1" "drop i (line @ [10] @ payload) = concat xs" "[] \<notin> set xs" for xs i s1
    using that
  proof (induction xs arbitrary: i s1)
    case (Cons x xs)
    have "drop i (line @ [10] @ payload) = x @ concat xs" using Cons.prems(2) by simp
    from upload_consume [where ios = ios, OF fc ok idle(1-7) run refl line_def Cons.prems(1) this]
    obtain s2 where s2: "serial_consume cfg ios x s1 = Some s2" "?phase (i + length x) s2" by blast
    have "drop (i + length x) (line @ [10] @ payload) = concat xs"
      using Cons.prems(2) by (metis add.commute append_eq_conv_conj concat.simps(2) drop_drop)
    from Cons.IH [OF s2(2) this] show ?case using Cons.prems(3) s2(1) by (auto simp: serial_poll_def add.assoc)
  qed simp
  have "collecting_line s [] s"
    unfolding collecting_line_def using idle(8,9) by (intro exI [of _ "sl_parser s"] exI [of _ "sl_iteration s"] exI [of _ "[]"]) simp
  then have "?phase 0 s" by (simp add: upload_phase_def)
  from steps [OF this _ inputs(2)] obtain s' where s': "serial_run cfg ios inputs s = Some s'" "?phase (length (line @ [10] @ payload)) s'"
    using inputs(1) by (auto simp: line_def)
  have up: "uploaded contents (sc_flash cfg) s (crc32 payload) nm tp payload s'" using s'(2) by (simp add: upload_phase_def)
  then obtain k where h: "sp_header (sl_spool s') = (new_header (length payload) (crc32 payload) nm tp)\<lparr>sh_header_crc32 := k\<rparr>"
    and ready: "spool_ready contents (sl_spool s') payload" "sp_cursor (sl_spool s') = 0"
    by (auto simp: uploaded_def)
  have z: "0 \<notin> set nm" "0 \<notin> set tp" using ok(1) by (auto simp: announceable_def valid_file_type_def list_all_iff file_type_char_def)
  have names: "takeWhile (\<lambda>c. c \<noteq> 0) (sh_file_name (sp_header (sl_spool s'))) = nm" "takeWhile (\<lambda>c. c \<noteq> 0) (sh_file_type (sp_header (sl_spool s'))) = tp"
    using z by (auto simp: h new_header_def store_def takeWhile_tail takeWhile_append)
  have n: "length payload \<le> unat (sh_size_bytes (sp_header (sl_spool s')))" "unat (sh_size_bytes (sp_header (sl_spool s'))) = length payload"
    using ok(1) by (simp_all add: h new_header_def announceable_def ULONG_MAX_def unat_of_nat)
  obtain c' ws' where fill: "fill_workspace (source_read (sc_flash cfg)) (Ptr (sl_spool s')) ws 0 (length payload) = (STREAM_OK, c', ws')"
    "length ws' = length ws" "take (length payload) ws' = take (length payload) payload"
    using spool.fill_workspace_delivers [OF spool_ready_pending [OF fc(1) ready], of 0 "length payload" ws] ws by auto
  have "relay_spool_is_ready (sl_spool s')" using ready(1) by (simp add: relay_spool_is_ready_def spool_ready_def)
  then obtain descriptor :: "('f spool_state ptr, 'b relay_stream_state ptr) outgoing_file" where descriptor:
    "relay_spool_outgoing_file (sc_flash cfg) (sl_spool s') = (ESP_OK, Ptr descriptor)"
    "of_file_name descriptor = Ptr nm" "of_file_type descriptor = Ptr tp" "src_size_bytes (of_source descriptor) = length payload"
    "src_read (of_source descriptor) = Ptr (source_read (sc_flash cfg))" "src_context (of_source descriptor) = Ptr (sl_spool s')"
    using names n(2) by (simp add: relay_spool_outgoing_file_def)
  have "rg_registered_file (sl_registry s') = Ptr descriptor" using up descriptor(1) by (simp add: uploaded_def)
  then show ?thesis
    using s'(1) up descriptor fill ws unfolding uploaded_def by (intro exI [of _ s'] exI [of _ descriptor] exI [of _ c']) simp
qed


text \<open>Two bytes in a file, in two reads, one of which ends within the file.\<close>

lemma list_flash_reliable: "flash_reliable list_flash (\<lambda>f. f)"
  by (simp add: flash_reliable_def list_flash_def)

theorem relay_upload_roundtrip_witness:
  "\<exists>s' descriptor c'. serial_run lab_config lab_io [relay_line 2 (crc32 [5, 6]) [97] [98] @ [10, 5], [6]] lab_serial = Some s' \<and>
     sl_trace s' = [Written (ready_text 4096), Written stored_text] \<and> rg_registered_file (sl_registry s') = Ptr descriptor \<and>
     of_file_name descriptor = Ptr [97] \<and>
     fill_workspace (deref (src_read (of_source descriptor))) (src_context (of_source descriptor)) [0, 0] 0 2 = (STREAM_OK, c', [5, 6])"
proof -
  have fc: "flash_contract (sc_flash lab_config) (\<lambda>f. f)" "flash_reliable (sc_flash lab_config) (\<lambda>f. f)"
    using list_flash_contract(1) list_flash_reliable by (simp_all add: lab_config_def)
  have capacity: "relay_spool_capacity (sl_spool lab_serial) = 4096"
    by (simp add: lab_spool relay_spool_capacity_def lab_partition_def spool_consts)
  have ok: "announceable (length [5, 6 :: byte]) [97] [98]"
    by (simp add: announceable_def valid_file_type_def file_type_char_def ULONG_MAX_def spool_consts)
  have sc: "sector_ceil (RELAY_SPOOL_DATA_OFFSET + length [5, 6 :: byte]) \<le> pn_size lab_partition"
    by (simp add: sector_ceil_def spool_consts lab_partition_def)
  have idle: "\<not> rg_acquired (sl_registry lab_serial)" "\<not> sl_halted lab_serial" "\<not> sl_chunk_receiving lab_serial"
    "\<not> sl_relay_receiving lab_serial" "sl_command_line lab_serial = []" "sl_trace lab_serial = []" "parser_at (sl_parser lab_serial) []"
    by (simp_all add: lab_serial_def outgoing_registry_zero_def parser_at_def improv_consts collecting_def)
  have run: "io_request_run (lab_io k) = ESP_OK" for k by (simp add: lab_io_def)
  have inputs: "concat [relay_line 2 (crc32 [5, 6]) [97] [98] @ [10, 5], [6]] =
      relay_line (length [5, 6 :: byte]) (crc32 [5, 6]) [97] [98] @ [10] @ [5, 6]"
    "[] \<notin> set [relay_line 2 (crc32 [5, 6]) [97] [98] @ [10, 5], [6]]" by (simp_all add: numeral_2_eq_2)
  have ws: "length [0, 0 :: byte] = length [5, 6 :: byte]" by simp
  from relay_upload_roundtrip [where ios = lab_io, OF fc ok _ sc lab_spool(3) lab_partition_ok lab_spool(2) idle(1-5,7) run inputs ws] capacity idle(6)
  show ?thesis by (auto simp: numeral_2_eq_2)
qed

end
