(* ===== verification/Spec2Isabelle.thy ===== *)
theory Spec2Isabelle
  imports Awdl_Election Tapdrop Awdl_Service Awdl_Data Upload_Stream Airdrop_Http Improv_Codec Airdrop_Outgoing Relay_Spool Relay_Stream Airdrop_Ask Tls_Run Mdns_Announce Receiver_Oracle Tx_Lab_Safety Serial_Upload
begin

text \<open>
  espDrop: an embedded AirDrop/AWDL stack.
\<close>

end
